(* ===== verification/Prelude.thy ===== *)
theory Prelude
  imports Main "HOL-Library.AList" "HOL-Library.Char_ord" "HOL-Library.List_Lexorder"
begin

text \<open>
  What every component of the model shares: the error values that stand for Python's
  exceptions, sequencing of steps that may raise, the string operations of Python's \<open>str\<close>
  that the program calls (on ASCII text), dictionaries in insertion order, and the generic
  lemmas about them.

  Text is a \<open>string\<close>, a list of 8-bit characters. The program's texts are modelled as ASCII:
  for those \<open>casefold\<close> is lower-casing, NFKC normalisation is the identity and \<open>len\<close> counts
  characters. A dictionary is an association list with the insertion order of a Python \<open>dict\<close>;
  \<open>AList.update\<close> is assignment to a key (an existing key keeps its place), \<open>map_of\<close> is \<open>get\<close>.
\<close>

named_theorems splits_result "elimination of the raising branch of a result"
named_theorems str_ops "definitions of the string operations"

section \<open>Errors as values\<close>

text \<open>One constructor per exception class the modelled code raises, with its message.\<close>

datatype py_error =
    ValueError string
  | KeyError string
  | StoreError string
  | HashChainError string
  | IntegrityError string
  | RuntimeFailure string
  | LlmReservationError string
  | LedgerError string string
  | TypeError string
  | ReError string
  | ProgrammingError string
  | AttributeError string
  | OverflowError string

type_synonym 'a result = "py_error + 'a"

fun and_then :: "'e + 'a \<Rightarrow> ('a \<Rightarrow> 'e + 'b) \<Rightarrow> 'e + 'b" where
  "and_then (Inl e) f = Inl e"
| "and_then (Inr x) f = f x"

lemma and_then_Inr [splits_result]:
  "and_then r f = Inr y \<longleftrightarrow> (\<exists>x. r = Inr x \<and> f x = Inr y)"
  by (cases r) auto

lemma and_then_Inl [splits_result]:
  "and_then r f = Inl e \<longleftrightarrow> r = Inl e \<or> (\<exists>x. r = Inr x \<and> f x = Inl e)"
  by (cases r) auto

lemma and_then_cong [fundef_cong]:
  assumes "r = r'" and "\<And>x. r' = Inr x \<Longrightarrow> f x = g x"
  shows "and_then r f = and_then r' g"
  using assms by (cases r') auto

text \<open>A loop over a list whose body may raise.\<close>

fun fold_result :: "('x \<Rightarrow> 's \<Rightarrow> 'e + 's) \<Rightarrow> 'x list \<Rightarrow> 's \<Rightarrow> 'e + 's" where
  "fold_result f [] s = Inr s"
| "fold_result f (x # xs) s = and_then (f x s) (fold_result f xs)"

lemma fold_result_append:
  "fold_result f (xs @ ys) s = and_then (fold_result f xs s) (fold_result f ys)"
proof (induction xs arbitrary: s)
  case Nil
  then show ?case by simp
next
  case (Cons x xs)
  then show ?case by (cases "f x s") auto
qed

lemma fold_result_invariant:
  assumes "fold_result f xs s = Inr t" and "P s"
    and "\<And>x s t. x \<in> set xs \<Longrightarrow> P s \<Longrightarrow> f x s = Inr t \<Longrightarrow> P t"
  shows "P t"
  using assms
proof (induction xs arbitrary: s)
  case Nil
  then show ?case by simp
next
  case (Cons x xs)
  from Cons.prems(1) obtain u where "f x s = Inr u" and "fold_result f xs u = Inr t"
    by (auto simp: splits_result)
  with Cons show ?case by (metis list.set_intros(1) list.set_intros(2))
qed

lemma fold_result_pure: "(\<And>x s. f x s = Inr (g x s)) \<Longrightarrow> fold_result f xs s = Inr (fold g xs s)"
  by (induction xs arbitrary: s) auto

text \<open>A comprehension whose expression may raise.\<close>

fun map_result :: "('a \<Rightarrow> 'b result) \<Rightarrow> 'a list \<Rightarrow> 'b list result" where
  "map_result f [] = Inr []"
| "map_result f (x # xs) = and_then (f x) (\<lambda>y. and_then (map_result f xs) (\<lambda>ys. Inr (y # ys)))"

lemma map_result_Inr: "map_result f xs = Inr ys \<Longrightarrow> \<forall>y\<in>set ys. \<exists>x\<in>set xs. f x = Inr y"
  by (induction xs arbitrary: ys) (fastforce simp: splits_result)+

lemma map_result_list_all2: "map_result f xs = Inr ys \<longleftrightarrow> list_all2 (\<lambda>x y. f x = Inr y) xs ys"
  by (induction xs arbitrary: ys) (auto simp: splits_result list_all2_Cons1)

lemma map_result_append:
  "map_result f (xs @ ys) = and_then (map_result f xs) (\<lambda>us. and_then (map_result f ys) (\<lambda>vs. Inr (us @ vs)))"
proof (induction xs)
  case Nil
  then show ?case by (cases "map_result f ys") simp_all
next
  case (Cons x xs)
  then show ?case by (cases "f x"; cases "map_result f xs"; cases "map_result f ys") simp_all
qed

definition require :: "bool \<Rightarrow> py_error \<Rightarrow> unit result" where
  "require b e = (if b then Inr () else Inl e)"

lemma require_Inr [simp]: "require b e = Inr u \<longleftrightarrow> b"
  by (simp add: require_def)

lemma require_True [simp]: "require True e = Inr ()"
  by (simp add: require_def)

text \<open>An executable test of a returned value.\<close>

definition succeeds :: "'e + 'a \<Rightarrow> ('a \<Rightarrow> bool) \<Rightarrow> bool" where
  "succeeds r P = (case r of Inl e \<Rightarrow> False | Inr x \<Rightarrow> P x)"

lemma succeeds_iff: "succeeds r P \<longleftrightarrow> (\<exists>x. r = Inr x \<and> P x)"
  by (cases r) (simp_all add: succeeds_def)

section \<open>Strings\<close>

lemma length_dropWhile_less [termination_simp]: "length (dropWhile P xs) < Suc (length xs)"
  by (simp add: length_dropWhile_le le_imp_less_Suc)

text \<open>The characters \<open>str.isspace\<close> and \<open>\s\<close> accept among the ASCII ones.\<close>

definition is_space :: "char \<Rightarrow> bool" where
  "is_space c = (let n = of_char c :: nat in 9 \<le> n \<and> n \<le> 13 \<or> 28 \<le> n \<and> n \<le> 32)"

definition to_lower :: "char \<Rightarrow> char" where
  "to_lower c = (let n = of_char c :: nat in if 65 \<le> n \<and> n \<le> 90 then char_of (n + 32) else c)"

lemma is_space_blank [simp]: "is_space (CHR '' '')"
  by (simp add: is_space_def)

lemma to_lower_keeps [simp]:
  "is_space (to_lower c) = is_space c" "to_lower (to_lower c) = to_lower c"
  by (auto simp: is_space_def to_lower_def Let_def)

definition casefold :: "string \<Rightarrow> string" where
  "casefold s = map to_lower s"

lemma casefold_simps [simp]:
  "casefold [] = []" "casefold (c # cs) = to_lower c # casefold cs"
  "casefold s = [] \<longleftrightarrow> s = []" "casefold (casefold s) = casefold s"
  by (simp_all add: casefold_def)

definition lstrip :: "string \<Rightarrow> string" where
  "lstrip s = dropWhile is_space s"

definition rstrip_chars :: "(char \<Rightarrow> bool) \<Rightarrow> string \<Rightarrow> string" where
  "rstrip_chars p s = rev (dropWhile p (rev s))"

definition strip :: "string \<Rightarrow> string" where
  "strip s = rstrip_chars is_space (lstrip s)"

text \<open>\<open>re.sub(r"\s+", " ", s)\<close>: every run of white space becomes one blank.\<close>

fun collapse_spaces :: "string \<Rightarrow> string" where
  "collapse_spaces [] = []"
| "collapse_spaces (c # cs) =
     (if is_space c
      then CHR '' '' # collapse_spaces (dropWhile is_space cs)
      else c # collapse_spaces cs)"

text \<open>\<open>str.split()\<close> with no separator.\<close>

function split_words :: "string \<Rightarrow> string list" where
  "split_words s =
     (case lstrip s of
        [] \<Rightarrow> []
      | c # cs \<Rightarrow> (c # takeWhile (\<lambda>x. \<not> is_space x) cs)
                  # split_words (dropWhile (\<lambda>x. \<not> is_space x) cs))"
  by pat_completeness auto
termination
proof (relation "measure length", simp)
  fix s :: string and c cs
  assume "lstrip s = c # cs"
  then have "length (c # cs) \<le> length s"
    by (metis length_dropWhile_le lstrip_def)
  then show "(dropWhile (\<lambda>x. \<not> is_space x) cs, s) \<in> measure length"
    using length_dropWhile_le [of "\<lambda>x. \<not> is_space x" cs] by simp
qed

declare split_words.simps [simp del]

text \<open>\<open>sep.join(parts)\<close>\<close>

fun join_with :: "string \<Rightarrow> string list \<Rightarrow> string" where
  "join_with sep [] = []"
| "join_with sep [x] = x"
| "join_with sep (x # y # xs) = x @ sep @ join_with sep (y # xs)"

text \<open>\<open>str.startswith\<close> and \<open>sub in text\<close>\<close>

fun starts_with :: "string \<Rightarrow> string \<Rightarrow> bool" where
  "starts_with [] s = True"
| "starts_with (p # ps) [] = False"
| "starts_with (p # ps) (c # cs) = (p = c \<and> starts_with ps cs)"

fun contains :: "string \<Rightarrow> string \<Rightarrow> bool" where
  "contains sub [] = (sub = [])"
| "contains sub (c # cs) = (starts_with sub (c # cs) \<or> contains sub cs)"

text \<open>Decimal digits of a number, \<open>str(n)\<close> for an \<open>int\<close>.\<close>

definition digit_char :: "nat \<Rightarrow> char" where
  "digit_char d = char_of (48 + d)"

fun show_nat :: "nat \<Rightarrow> string" where
  "show_nat n = (if n < 10 then [digit_char n] else show_nat (n div 10) @ [digit_char (n mod 10)])"

declare show_nat.simps [simp del]

definition show_int :: "int \<Rightarrow> string" where
  "show_int i = (if i < 0 then CHR ''-'' # show_nat (nat (- i)) else show_nat (nat i))"

text \<open>Word characters of a regular expression (\<open>\w\<close>) among the ASCII ones.\<close>

definition is_word_char :: "char \<Rightarrow> bool" where
  "is_word_char c = (let n = of_char c :: nat in
     48 \<le> n \<and> n \<le> 57 \<or> 65 \<le> n \<and> n \<le> 90 \<or> n = 95 \<or> 97 \<le> n \<and> n \<le> 122)"

text \<open>
  Search for \<open>\bphrase\b\<close>, ignoring case: the phrase occurs with a word boundary before it
  (the character before is not a word character) and after it. The phrases the program
  searches for start and end with a word character.
\<close>

fun word_search_from :: "char option \<Rightarrow> string \<Rightarrow> string \<Rightarrow> bool" where
  "word_search_from prev phrase [] = (phrase = [])"
| "word_search_from prev phrase (c # cs) =
     ((case prev of None \<Rightarrow> True | Some p \<Rightarrow> \<not> is_word_char p)
        \<and> starts_with (casefold phrase) (casefold (c # cs))
        \<and> (case drop (length phrase) (c # cs) of [] \<Rightarrow> True | d # _ \<Rightarrow> \<not> is_word_char d)
      \<or> word_search_from (Some c) phrase cs)"

definition word_search :: "string \<Rightarrow> string \<Rightarrow> bool" where
  "word_search phrase s = word_search_from None phrase s"

text \<open>\<open>re.findall(r"[\w.-]+", s)\<close>: the maximal runs of word characters, dots and hyphens.\<close>

definition is_token_char :: "char \<Rightarrow> bool" where
  "is_token_char c = (is_word_char c \<or> c = CHR ''.'' \<or> c = CHR ''-'')"

function find_tokens :: "string \<Rightarrow> string list" where
  "find_tokens s =
     (case dropWhile (\<lambda>c. \<not> is_token_char c) s of
        [] \<Rightarrow> []
      | c # cs \<Rightarrow> (c # takeWhile is_token_char cs) # find_tokens (dropWhile is_token_char cs))"
  by pat_completeness auto
termination
proof (relation "measure length", simp)
  fix s :: string and c cs
  assume "dropWhile (\<lambda>c. \<not> is_token_char c) s = c # cs"
  then have "length (c # cs) \<le> length s"
    by (metis length_dropWhile_le)
  then show "(dropWhile is_token_char cs, s) \<in> measure length"
    using length_dropWhile_le [of is_token_char cs] by simp
qed

declare find_tokens.simps [simp del]

section \<open>Sorting and dictionaries\<close>

text \<open>\<open>sorted({...})\<close>: the elements of a set in increasing order.\<close>

definition sorted_set :: "'a::linorder list \<Rightarrow> 'a list" where
  "sorted_set xs = sort (remdups xs)"

lemma set_sorted_set [simp]: "set (sorted_set xs) = set xs"
  by (simp add: sorted_set_def)

lemma distinct_sorted_set [simp]: "distinct (sorted_set xs)"
  by (simp add: sorted_set_def)

lemma sorted_sorted_set [simp]: "sorted (sorted_set xs)"
  by (simp add: sorted_set_def)

lemma sorted_set_eq_iff: "sorted_set xs = sorted_set ys \<longleftrightarrow> set xs = set ys"
  by (metis set_sorted_set sorted_distinct_set_unique distinct_sorted_set sorted_sorted_set)

text \<open>\<open>sorted(items, key=...)\<close> is a stable sort by the key: \<open>sort_key\<close>.\<close>

text \<open>\<open>d.get(key, default)\<close> and \<open>d[key]\<close>.\<close>

definition dict_get :: "('k \<times> 'v) list \<Rightarrow> 'k \<Rightarrow> 'v \<Rightarrow> 'v" where
  "dict_get d k v = (case map_of d k of None \<Rightarrow> v | Some x \<Rightarrow> x)"

definition dict_item :: "(string \<times> 'v) list \<Rightarrow> string \<Rightarrow> 'v result" where
  "dict_item d k = (case map_of d k of None \<Rightarrow> Inl (KeyError k) | Some x \<Rightarrow> Inr x)"

lemma map_of_map_pair [simp]:
  "map_of (map (\<lambda>x. (x, f x)) xs) k = (if k \<in> set xs then Some (f k) else None)"
  by (induction xs) auto

lemma map_of_AList_update [simp]: "map_of (AList.update k v al) = (map_of al)(k \<mapsto> v)"
  by (rule update_conv')

lemma find_Some_iff_mem: "find P xs = Some x \<Longrightarrow> x \<in> set xs \<and> P x"
  by (induction xs) (auto split: if_splits)

lemma filter_eq_Nil_iff: "filter P xs = [] \<longleftrightarrow> (\<forall>x\<in>set xs. \<not> P x)"
  by (simp add: filter_empty_conv)

end
