(* ===== verification/Json.thy ===== *)
theory Json
  imports Prelude
begin

text \<open>
  JSON values and their canonical text, after \<open>events.py\<close>: \<open>canonical_json\<close> is
  \<open>json.dumps\<close> with sorted keys, no blanks and \<open>ensure_ascii=False\<close>. A float is carried by
  its \<open>repr\<close>, the text \<open>json.dumps\<close> writes for it. The main fact is that the canonical text
  determines the value up to the order of the keys (\<open>canonical_json_inj\<close>): two event bodies
  with the same text are the same body, which is what the hash chain rests on.
\<close>

datatype json =
    JNull
  | JBool bool
  | JInt int
  | JFloat string
  | JStr string
  | JArr "json list"
  | JObj "(string \<times> json) list"

section \<open>Truth and text of a value\<close>

text \<open>\<open>bool(value)\<close>\<close>

fun truthy :: "json \<Rightarrow> bool" where
  "truthy JNull = False"
| "truthy (JBool b) = b"
| "truthy (JInt i) = (i \<noteq> 0)"
| "truthy (JFloat t) = (t \<noteq> ''0.0'' \<and> t \<noteq> ''-0.0'')"
| "truthy (JStr s) = (s \<noteq> [])"
| "truthy (JArr xs) = (xs \<noteq> [])"
| "truthy (JObj kvs) = (kvs \<noteq> [])"

text \<open>\<open>repr\<close> of a \<open>str\<close>: single quotes, unless the text has one and no double quote.\<close>

definition hex_digit :: "nat \<Rightarrow> char" where
  "hex_digit d = (if d < 10 then char_of (48 + d) else char_of (87 + d))"

definition repr_char :: "char \<Rightarrow> char \<Rightarrow> string" where
  "repr_char q c =
     (let n = of_char c :: nat in
      if c = q \<or> n = 92 then [CHR 0x5C, c]
      else if n = 10 then [CHR 0x5C, CHR ''n'']
      else if n = 13 then [CHR 0x5C, CHR ''r'']
      else if n = 9 then [CHR 0x5C, CHR ''t'']
      else if n < 32 \<or> n = 127
        then [CHR 0x5C, CHR ''x'', hex_digit (n div 16), hex_digit (n mod 16)]
      else [c])"

definition repr_str :: "string \<Rightarrow> string" where
  "repr_str s =
     (let q = (if CHR 0x27 \<in> set s \<and> CHR 0x22 \<notin> set s then CHR 0x22 else CHR 0x27)
      in [q] @ concat (map (repr_char q) s) @ [q])"

primrec py_repr :: "json \<Rightarrow> string" where
  "py_repr JNull = ''None''"
| "py_repr (JBool b) = (if b then ''True'' else ''False'')"
| "py_repr (JInt i) = show_int i"
| "py_repr (JFloat t) = t"
| "py_repr (JStr s) = repr_str s"
| "py_repr (JArr xs) = ''['' @ join_with '', '' (map py_repr xs) @ '']''"
| "py_repr (JObj kvs) =
     ''{'' @ join_with '', ''
       (map (\<lambda>(k, t). repr_str k @ '': '' @ t) (map (map_prod id py_repr) kvs)) @ ''}''"

text \<open>\<open>str(value)\<close>\<close>

fun py_str :: "json \<Rightarrow> string" where
  "py_str (JStr s) = s"
| "py_str v = py_repr v"

section \<open>Canonical JSON\<close>

definition escape_char :: "char \<Rightarrow> string" where
  "escape_char c =
     (let n = of_char c :: nat in
      if n = 34 \<or> n = 92 then [CHR 0x5C, c]
      else if n = 10 then [CHR 0x5C, CHR ''n'']
      else if n = 13 then [CHR 0x5C, CHR ''r'']
      else if n = 9 then [CHR 0x5C, CHR ''t'']
      else if n = 8 then [CHR 0x5C, CHR ''b'']
      else if n = 12 then [CHR 0x5C, CHR ''f'']
      else if n < 32 then [CHR 0x5C, CHR ''u'', CHR ''0'', CHR ''0'',
                           hex_digit (n div 16), hex_digit (n mod 16)]
      else [c])"

definition quote_str :: "string \<Rightarrow> string" where
  "quote_str s = [CHR 0x22] @ concat (map escape_char s) @ [CHR 0x22]"

primrec print_json :: "json \<Rightarrow> string" where
  "print_json JNull = ''null''"
| "print_json (JBool b) = (if b then ''true'' else ''false'')"
| "print_json (JInt i) = show_int i"
| "print_json (JFloat t) = t"
| "print_json (JStr s) = quote_str s"
| "print_json (JArr xs) = ''['' @ join_with '','' (map print_json xs) @ '']''"
| "print_json (JObj kvs) =
     ''{'' @ join_with '',''
       (map (\<lambda>(k, t). quote_str k @ '':'' @ t) (map (map_prod id print_json) kvs)) @ ''}''"

text \<open>\<open>sort_keys=True\<close>, at every depth.\<close>

primrec sort_keys :: "json \<Rightarrow> json" where
  "sort_keys JNull = JNull"
| "sort_keys (JBool b) = JBool b"
| "sort_keys (JInt i) = JInt i"
| "sort_keys (JFloat t) = JFloat t"
| "sort_keys (JStr s) = JStr s"
| "sort_keys (JArr xs) = JArr (map sort_keys xs)"
| "sort_keys (JObj kvs) = JObj (sort_key fst (map (map_prod id sort_keys) kvs))"

definition canonical_json :: "json \<Rightarrow> string" where
  "canonical_json v = print_json (sort_keys v)"

text \<open>A float's text: the characters of a number, one of them a dot or an exponent.\<close>

definition number_char :: "char \<Rightarrow> bool" where
  "number_char c = (let n = of_char c :: nat in 48 \<le> n \<and> n \<le> 57 \<or> n = 45 \<or> n = 43 \<or> n = 46 \<or> n = 101)"

definition float_text :: "string \<Rightarrow> bool" where
  "float_text t = (t \<noteq> [] \<and> list_all number_char t \<and> (CHR ''.'' \<in> set t \<or> CHR ''e'' \<in> set t))"

primrec wf_json :: "json \<Rightarrow> bool" where
  "wf_json JNull = True"
| "wf_json (JBool b) = True"
| "wf_json (JInt i) = True"
| "wf_json (JFloat t) = float_text t"
| "wf_json (JStr s) = True"
| "wf_json (JArr xs) = list_all id (map wf_json xs)"
| "wf_json (JObj kvs) = list_all snd (map (map_prod id wf_json) kvs)"

section \<open>The text determines the value\<close>

subsection \<open>Numbers\<close>

definition digits_value :: "string \<Rightarrow> nat" where
  "digits_value s = foldl (\<lambda>a c. 10 * a + (of_char c - 48)) 0 s"

lemma digits_value_snoc: "digits_value (s @ [c]) = 10 * digits_value s + (of_char c - 48)"
  by (simp add: digits_value_def)

lemma of_char_digit: "d < 10 \<Longrightarrow> (of_char (digit_char d) :: nat) = 48 + d"
  by (simp add: digit_char_def)

lemma digits_value_show_nat: "digits_value (show_nat n) = n"
proof (induction n rule: show_nat.induct)
  case (1 n)
  show ?case
  proof (cases "n < 10")
    case True
    then show ?thesis
      by (simp add: show_nat.simps [of n] digits_value_def of_char_digit)
  next
    case False
    with "1.IH" show ?thesis
      by (simp add: show_nat.simps [of n] digits_value_snoc of_char_digit)
  qed
qed

lemma show_nat_inj: "show_nat m = show_nat n \<Longrightarrow> m = n"
  by (metis digits_value_show_nat)

lemma show_nat_digits: "c \<in> set (show_nat n) \<Longrightarrow> 48 \<le> (of_char c :: nat) \<and> (of_char c :: nat) \<le> 57"
proof (induction n rule: show_nat.induct)
  case (1 n)
  then show ?case
    by (cases "n < 10") (auto simp: show_nat.simps [of n] of_char_digit)
qed

lemma show_nat_not_Nil: "show_nat n \<noteq> []"
  by (simp add: show_nat.simps [of n])

lemma show_int_chars:
  assumes "c \<in> set (show_int i)"
  shows "(of_char c :: nat) = 45 \<or> 48 \<le> (of_char c :: nat) \<and> (of_char c :: nat) \<le> 57"
  using assms by (auto simp: show_int_def dest: show_nat_digits split: if_splits)

lemma show_int_not_Nil: "show_int i \<noteq> []"
  by (simp add: show_int_def show_nat_not_Nil)

lemma show_nat_no_sign: "CHR ''-'' # x \<noteq> show_nat n"
proof
  assume "CHR ''-'' # x = show_nat n"
  then have "CHR ''-'' \<in> set (show_nat n)" by (metis list.set_intros(1))
  then show False by (auto dest: show_nat_digits)
qed

lemma show_int_inj: "show_int i = show_int j \<Longrightarrow> i = j"
  using show_nat_no_sign
  by (auto simp: show_int_def dest!: show_nat_inj split: if_splits) (metis show_nat_no_sign)+

lemma show_int_number_chars: "list_all number_char (show_int i)"
  by (auto simp: list_all_iff number_char_def Let_def dest!: show_int_chars)

lemma show_int_not_float: "\<not> float_text (show_int i)"
  by (auto simp: float_text_def dest!: show_int_chars)

text \<open>What may follow a number: nothing, or a character no number contains.\<close>

definition delimited :: "string \<Rightarrow> bool" where
  "delimited r = (case r of [] \<Rightarrow> True | c # _ \<Rightarrow> \<not> number_char c)"

lemma delimited_Cons [simp]: "delimited (c # r) = (\<not> number_char c)"
  and delimited_Nil [simp]: "delimited []"
  by (simp_all add: delimited_def)

lemma number_unique:
  assumes "list_all number_char a" and "list_all number_char b"
    and "delimited r" and "delimited s" and "a @ r = b @ s"
  shows "a = b \<and> r = s"
proof -
  have run: "takeWhile number_char (x @ y) = x" if "list_all number_char x" "delimited y" for x y
    using that by (cases y) (auto simp: takeWhile_append2 list_all_iff)
  have "a = takeWhile number_char (a @ r)" using assms(1,3) by (simp add: run)
  also have "\<dots> = takeWhile number_char (b @ s)" using assms(5) by simp
  also have "\<dots> = b" using assms(2,4) by (simp add: run)
  finally have "a = b" .
  with assms(5) show ?thesis by simp
qed

subsection \<open>Strings\<close>

definition hex_value :: "char \<Rightarrow> nat" where
  "hex_value c = (let n = of_char c :: nat in if n < 58 then n - 48 else n - 87)"

lemma hex_value_digit: "d < 16 \<Longrightarrow> hex_value (hex_digit d) = d"
  by (auto simp: hex_value_def hex_digit_def)

text \<open>Reading one escaped character back.\<close>

definition unescape :: "string \<Rightarrow> char \<times> string" where
  "unescape s =
     (case s of
        [] \<Rightarrow> (CHR 0x00, [])
      | c # r \<Rightarrow>
          if c \<noteq> CHR 0x5C then (c, r)
          else (case r of
              [] \<Rightarrow> (c, [])
            | d # r' \<Rightarrow>
                if d = CHR 0x22 \<or> d = CHR 0x5C then (d, r')
                else if d = CHR ''n'' then (char_of (10::nat), r')
                else if d = CHR ''r'' then (char_of (13::nat), r')
                else if d = CHR ''t'' then (char_of (9::nat), r')
                else if d = CHR ''b'' then (char_of (8::nat), r')
                else if d = CHR ''f'' then (char_of (12::nat), r')
                else (char_of (16 * hex_value (r' ! 2) + hex_value (r' ! 3)), drop 4 r')))"

lemma char_eq_of_char: "(of_char c :: nat) = n \<Longrightarrow> c = char_of n"
  by auto

lemma unescape_escape: "unescape (escape_char c @ r) = (c, r)"
proof -
  define n where "n = (of_char c :: nat)"
  have c: "c = char_of n" by (simp add: n_def)
  have q: "(c = CHR 0x22) = (n = 34)" and b: "(c = CHR 0x5C) = (n = 92)"
    by (simp_all add: n_def flip: of_char_eq_iff [where ?'a = nat])
  have "n < 32 \<Longrightarrow> hex_value (hex_digit (n div 16)) = n div 16"
    and "hex_value (hex_digit (n mod 16)) = n mod 16"
    by (auto intro: hex_value_digit)
  with q b show ?thesis
    unfolding escape_char_def unescape_def n_def [symmetric] Let_def
    by (auto simp: c)
qed

lemma escape_char_unique: "escape_char c @ r = escape_char d @ s \<Longrightarrow> c = d \<and> r = s"
  by (metis unescape_escape prod.inject)

lemma escape_char_start: "escape_char c \<noteq> [] \<and> hd (escape_char c) \<noteq> CHR 0x22"
  by (auto simp: escape_char_def Let_def)

lemma escape_char_not_quote: "escape_char c @ r \<noteq> CHR 0x22 # s"
  using escape_char_start [of c] by (cases "escape_char c") auto

lemma escapes_unique:
  "concat (map escape_char a) @ CHR 0x22 # r = concat (map escape_char b) @ CHR 0x22 # s
    \<Longrightarrow> a = b \<and> r = s"
proof (induction a arbitrary: b)
  case Nil
  then show ?case
    by (cases b) (auto simp: escape_char_not_quote [symmetric] dest: sym)
next
  case (Cons c a)
  show ?case
  proof (cases b)
    case Nil
    with Cons.prems show ?thesis by (auto simp: escape_char_not_quote)
  next
    case (Cons d b')
    with Cons.prems have "escape_char c @ concat (map escape_char a) @ CHR 0x22 # r =
      escape_char d @ concat (map escape_char b') @ CHR 0x22 # s" by simp
    then have "c = d" and "concat (map escape_char a) @ CHR 0x22 # r =
      concat (map escape_char b') @ CHR 0x22 # s"
      by (auto dest: escape_char_unique)
    with Cons.IH Cons show ?thesis by blast
  qed
qed

lemma quote_str_unique: "quote_str a @ r = quote_str b @ s \<Longrightarrow> a = b \<and> r = s"
  by (auto simp: quote_str_def dest: escapes_unique)

subsection \<open>Sequences and values\<close>

lemma join_with_Cons:
  "join_with sep (x # xs) = x @ (if xs = [] then [] else sep @ join_with sep xs)"
  by (cases xs) auto

text \<open>
  A sequence of items closed by the character \<open>e\<close> is read back uniquely when every item is,
  no item starts with \<open>e\<close>, and neither \<open>e\<close> nor the comma continues a number.
\<close>

lemma items_unique:
  assumes item: "\<And>x y r s. x \<in> set xs \<Longrightarrow> y \<in> set ys \<Longrightarrow> delimited r \<Longrightarrow> delimited s \<Longrightarrow>
      f x @ r = f y @ s \<Longrightarrow> x = y \<and> r = s"
    and start: "\<And>x. x \<in> set xs \<union> set ys \<Longrightarrow> f x \<noteq> [] \<and> hd (f x) \<noteq> e"
    and e: "\<not> number_char e" "e \<noteq> CHR '',''"
    and eq: "join_with '','' (map f xs) @ e # r = join_with '','' (map f ys) @ e # s"
  shows "xs = ys \<and> r = s"
  using item start eq
proof (induction xs arbitrary: ys)
  case Nil
  then show ?case
  proof (cases ys)
    case (Cons y ys')
    with Nil(3) Nil(2) [of y] show ?thesis by (cases "f y") (auto simp: join_with_Cons)
  qed simp
next
  case (Cons x xs)
  define rest where
    "rest zs t = (if zs = [] then [] else '','' @ join_with '','' (map f zs)) @ e # t" for zs t
  have delim: "delimited (rest zs t)" for zs t
    using e by (auto simp: rest_def number_char_def)
  show ?case
  proof (cases ys)
    case Nil
    with Cons.prems(3) Cons.prems(2) [of x] show ?thesis by (cases "f x") (auto simp: join_with_Cons)
  next
    case ys: (Cons y ys')
    from Cons.prems(3) have "f x @ rest xs r = f y @ rest ys' s"
      by (simp add: ys join_with_Cons rest_def)
    with Cons.prems(1) [of x y "rest xs r" "rest ys' s"] have xy: "x = y" and rests: "rest xs r = rest ys' s"
      by (simp_all add: ys delim)
    from rests e(2) have both: "(xs = []) = (ys' = [])"
      by (auto simp: rest_def split: if_splits)
    have "xs = ys' \<and> r = s"
    proof (cases "xs = []")
      case True
      with rests both show ?thesis by (simp add: rest_def)
    next
      case False
      with rests both have "join_with '','' (map f xs) @ e # r = join_with '','' (map f ys') @ e # s"
        by (simp add: rest_def)
      with Cons.prems(1,2) ys show ?thesis by (intro Cons.IH) auto
    qed
    with xy ys show ?thesis by simp
  qed
qed

lemma float_text_number: "float_text t \<Longrightarrow> list_all number_char t \<and> t \<noteq> []"
  by (simp add: float_text_def)

definition print_member :: "string \<times> json \<Rightarrow> string" where
  "print_member kv = quote_str (fst kv) @ '':'' @ print_json (snd kv)"

lemma print_json_Obj: "print_json (JObj kvs) = ''{'' @ join_with '','' (map print_member kvs) @ ''}''"
  by (simp add: print_member_def [abs_def] comp_def split_beta)

lemma print_member_start: "print_member kv \<noteq> [] \<and> hd (print_member kv) \<noteq> CHR 0x7D"
  by (simp add: print_member_def quote_str_def)

lemma number_char_examples [simp]:
  "\<not> number_char CHR ''n''" "\<not> number_char CHR ''t''" "\<not> number_char CHR ''f''"
  "\<not> number_char CHR 0x22" "\<not> number_char CHR ''[''" "\<not> number_char CHR 0x7B"
  "\<not> number_char CHR '']''" "\<not> number_char CHR 0x7D" "\<not> number_char CHR '',''"
  by (simp_all add: number_char_def)

text \<open>The first character of a value's text tells its constructor (and a boolean's value).\<close>

fun json_kind :: "json \<Rightarrow> nat" where
  "json_kind JNull = 0"
| "json_kind (JBool b) = (if b then 1 else 2)"
| "json_kind (JInt i) = 3"
| "json_kind (JFloat t) = 3"
| "json_kind (JStr s) = 4"
| "json_kind (JArr xs) = 5"
| "json_kind (JObj kvs) = 6"

definition char_kind :: "char \<Rightarrow> nat" where
  "char_kind c =
     (if c = CHR ''n'' then 0 else if c = CHR ''t'' then 1 else if c = CHR ''f'' then 2
      else if c = CHR 0x22 then 4 else if c = CHR ''['' then 5 else if c = CHR 0x7B then 6
      else if number_char c then 3 else 7)"

lemma print_number:
  assumes "list_all number_char t" and "t \<noteq> []"
  shows "\<exists>c x. t = c # x \<and> char_kind c = 3"
  using assms by (cases t) (auto simp: char_kind_def)

lemma print_json_start:
  assumes "wf_json v"
  shows "\<exists>c x. print_json v = c # x \<and> char_kind c = json_kind v"
proof (cases v)
  case (JInt i)
  then show ?thesis using print_number [OF show_int_number_chars show_int_not_Nil] by simp
next
  case (JFloat t)
  then show ?thesis using assms float_text_number [of t] print_number [of t] by simp
next
  case (JObj kvs)
  then show ?thesis by (simp add: print_json_Obj char_kind_def del: print_json.simps(7))
qed (auto simp: quote_str_def char_kind_def)

lemma print_json_not_close:
  assumes "wf_json v"
  shows "print_json v \<noteq> [] \<and> hd (print_json v) \<noteq> CHR '']''"
proof -
  obtain c x where "print_json v = c # x" and "char_kind c = json_kind v"
    using print_json_start [OF assms] by blast
  moreover have "json_kind v < 7" by (cases v) auto
  ultimately show ?thesis by (auto simp: char_kind_def)
qed

lemma print_json_kind:
  assumes "wf_json v" and "wf_json w" and "print_json v @ r = print_json w @ s"
  shows "json_kind v = json_kind w"
  using print_json_start [OF assms(1)] print_json_start [OF assms(2)] assms(3) by auto

lemma json_kind_3: "json_kind w = 3 \<Longrightarrow> \<exists>t. print_json w = t \<and> (w = JFloat t \<or> (\<exists>i. w = JInt i \<and> t = show_int i))"
  by (cases w) (auto split: if_splits)

lemma number_cases:
  assumes "wf_json v" and "wf_json w" and "json_kind v = 3" and "json_kind w = 3"
    and "delimited r" and "delimited s" and "print_json v @ r = print_json w @ s"
  shows "v = w \<and> r = s"
proof -
  have "list_all number_char (print_json u)" if "wf_json u" "json_kind u = 3" for u
    using that by (cases u) (auto simp: show_int_number_chars float_text_number split: if_splits)
  with assms have eq: "print_json v = print_json w" and "r = s"
    using number_unique [of "print_json v" "print_json w" r s] by auto
  with assms(1-4) show ?thesis
    by (cases v; cases w) (auto simp: show_int_not_float dest: show_int_inj split: if_splits)
qed

text \<open>Unique readability of values.\<close>

lemma print_json_unique:
  assumes "wf_json v" and "wf_json w" and "delimited r" and "delimited s"
    and "print_json v @ r = print_json w @ s"
  shows "v = w \<and> r = s"
  using assms
proof (induction v arbitrary: w r s)
  case (JInt i)
  then show ?case using print_json_kind [of "JInt i" w r s] by (intro number_cases) auto
next
  case (JFloat t)
  then show ?case using print_json_kind [of "JFloat t" w r s] by (intro number_cases) auto
next
  case (JStr t)
  then show ?case using print_json_kind [of "JStr t" w r s]
    by (cases w) (auto dest: quote_str_unique split: if_splits)
next
  case (JArr xs)
  from JArr.prems(5,2) obtain ys where w: "w = JArr ys"
    using print_json_kind [OF JArr.prems(1,2,5)] by (cases w) (auto split: if_splits)
  have "xs = ys \<and> r = s"
  proof (rule items_unique [where f = print_json and e = "CHR '']''"])
    fix x y t u
    assume "x \<in> set xs" "y \<in> set ys" "delimited t" "delimited u" "print_json x @ t = print_json y @ u"
    moreover from this(1,2) w JArr.prems(1,2) have "wf_json x" "wf_json y"
      by (auto simp: list_all_iff)
    ultimately show "x = y \<and> t = u" by (intro JArr.IH)
  next
    fix x
    assume "x \<in> set xs \<union> set ys"
    with w JArr.prems(1,2) show "print_json x \<noteq> [] \<and> hd (print_json x) \<noteq> CHR '']''"
      by (intro print_json_not_close) (auto simp: list_all_iff)
  qed (use JArr.prems(5) w in auto)
  with w show ?case by simp
next
  case (JObj kvs)
  from JObj.prems(5,2) obtain lms where w: "w = JObj lms"
    using print_json_kind [OF JObj.prems(1,2,5)] by (cases w) (auto split: if_splits)
  have "kvs = lms \<and> r = s"
  proof (rule items_unique [where f = print_member and e = "CHR 0x7D"])
    fix x y t u
    assume x: "x \<in> set kvs" and y: "y \<in> set lms" and d: "delimited t" "delimited u"
      and eq: "print_member x @ t = print_member y @ u"
    from x y w JObj.prems(1,2) have "wf_json (snd x)" "wf_json (snd y)"
      by (auto simp: list_all_iff)
    moreover from eq have "fst x = fst y" "print_json (snd x) @ t = print_json (snd y) @ u"
      by (auto simp: print_member_def dest: quote_str_unique)
    ultimately show "x = y \<and> t = u"
      using JObj.IH [OF x, of "snd x"] d by (auto simp: prod_eq_iff snds.simps)
  qed (use JObj.prems(5) w print_member_start in
      \<open>auto simp: print_json_Obj simp del: print_json.simps(7)\<close>)
  with w show ?case by simp
next
  case JNull
  then show ?case using print_json_kind [of JNull w r s] by (cases w) (auto split: if_splits)
next
  case (JBool b)
  then show ?case using print_json_kind [of "JBool b" w r s]
    by (cases w) (auto split: if_splits)
qed

section \<open>Sorting the keys\<close>

lemma wf_sort_keys: "wf_json v \<Longrightarrow> wf_json (sort_keys v)"
  by (induction v) (force simp: list_all_iff snds.simps)+

text \<open>
  The canonical text is injective on values with sorted keys: \<open>canonical_json\<close> identifies
  exactly the values that differ in the order of their keys.
\<close>

lemma canonical_json_inj:
  assumes "wf_json v" and "wf_json w"
  shows "canonical_json v = canonical_json w \<longleftrightarrow> sort_keys v = sort_keys w"
  using print_json_unique [of "sort_keys v" "sort_keys w" "[]" "[]"] wf_sort_keys assms
  by (auto simp: canonical_json_def)

end
