(* ===== verification/Models.thy ===== *)
theory Models
  imports Complex_Main Json
begin

text \<open>
  The immutable domain records of \<open>models.py\<close>: enumerations as datatypes, frozen dataclasses
  as records (a field keeps its name behind a prefix for the class), and the configuration
  values the engine reads. A timezone-aware datetime is the number of microseconds since the
  epoch in UTC, the resolution of Python's \<open>datetime\<close>; a naive one is kept apart, because the
  code refuses it. The engine's floats (competence, thresholds) are modelled as exact
  rationals: rounding of the last bit of a binary64 value is not represented.
\<close>

section \<open>Enumerations\<close>

datatype source_kind = SK_TOOL | SK_RETRIEVER | SK_WEB | SK_DOCUMENT | SK_USER | SK_MODEL | SK_LEDGER

datatype integrity = UNTRUSTED | SEMI | TRUSTED

datatype pramana = PRATYAKSHA | SHABDA | ANUMANA | ARTHAPATTI | UPAMANA | ANUPALABDHI

datatype status = IN | OUT | PENDING | QUARANTINED

datatype perishability = STABLE | SLOW | FAST | LIVE

datatype stakes = LOW | MED | HIGH | CRITICAL

datatype defeat_kind = REBUT | UNDERCUT

datatype verification_method = CROSS_SOURCE | TOOL_RECHECK | CHAIN_AUDIT | HUMAN

datatype gate_outcome = ALLOW | APPROVE | BLOCK

datatype lint_disposition = GROUNDED | INFERIBLE | PENDING_MARKED | VIKALPA

text \<open>The \<open>value\<close> of an enumeration member.\<close>

fun source_kind_value :: "source_kind \<Rightarrow> string" where
  "source_kind_value SK_TOOL = ''tool''"
| "source_kind_value SK_RETRIEVER = ''retriever''"
| "source_kind_value SK_WEB = ''web''"
| "source_kind_value SK_DOCUMENT = ''document''"
| "source_kind_value SK_USER = ''user''"
| "source_kind_value SK_MODEL = ''model''"
| "source_kind_value SK_LEDGER = ''ledger''"

fun integrity_value :: "integrity \<Rightarrow> string" where
  "integrity_value TRUSTED = ''trusted''"
| "integrity_value SEMI = ''semi''"
| "integrity_value UNTRUSTED = ''untrusted''"

fun pramana_value :: "pramana \<Rightarrow> string" where
  "pramana_value PRATYAKSHA = ''pratyaksha''"
| "pramana_value SHABDA = ''shabda''"
| "pramana_value ANUMANA = ''anumana''"
| "pramana_value ARTHAPATTI = ''arthapatti''"
| "pramana_value UPAMANA = ''upamana''"
| "pramana_value ANUPALABDHI = ''anupalabdhi''"

fun status_value :: "status \<Rightarrow> string" where
  "status_value IN = ''in''"
| "status_value OUT = ''out''"
| "status_value PENDING = ''pending''"
| "status_value QUARANTINED = ''quarantined''"

fun perishability_value :: "perishability \<Rightarrow> string" where
  "perishability_value STABLE = ''stable''"
| "perishability_value SLOW = ''slow''"
| "perishability_value FAST = ''fast''"
| "perishability_value LIVE = ''live''"

fun stakes_value :: "stakes \<Rightarrow> string" where
  "stakes_value LOW = ''low''"
| "stakes_value MED = ''med''"
| "stakes_value HIGH = ''high''"
| "stakes_value CRITICAL = ''critical''"

fun defeat_kind_value :: "defeat_kind \<Rightarrow> string" where
  "defeat_kind_value REBUT = ''REBUT''"
| "defeat_kind_value UNDERCUT = ''UNDERCUT''"

fun verification_method_value :: "verification_method \<Rightarrow> string" where
  "verification_method_value CROSS_SOURCE = ''cross_source''"
| "verification_method_value TOOL_RECHECK = ''tool_recheck''"
| "verification_method_value CHAIN_AUDIT = ''chain_audit''"
| "verification_method_value HUMAN = ''human''"

fun gate_outcome_value :: "gate_outcome \<Rightarrow> string" where
  "gate_outcome_value ALLOW = ''allow''"
| "gate_outcome_value APPROVE = ''approve''"
| "gate_outcome_value BLOCK = ''block''"

section \<open>Stakes\<close>

fun STAKE_RANK :: "stakes \<Rightarrow> int" where
  "STAKE_RANK LOW = 0"
| "STAKE_RANK MED = 1"
| "STAKE_RANK HIGH = 2"
| "STAKE_RANK CRITICAL = 3"

lemma STAKE_RANK_inj: "STAKE_RANK a = STAKE_RANK b \<longleftrightarrow> a = b"
  by (cases a; cases b) auto

instantiation stakes :: linorder
begin

definition less_eq_stakes :: "stakes \<Rightarrow> stakes \<Rightarrow> bool" where
  "less_eq_stakes a b = (STAKE_RANK a \<le> STAKE_RANK b)"

definition less_stakes :: "stakes \<Rightarrow> stakes \<Rightarrow> bool" where
  "less_stakes a b = (STAKE_RANK a < STAKE_RANK b)"

instance
  by standard (auto simp: less_eq_stakes_def less_stakes_def STAKE_RANK_inj)

end

fun integrity_rank :: "integrity \<Rightarrow> int" where
  "integrity_rank UNTRUSTED = 0"
| "integrity_rank SEMI = 1"
| "integrity_rank TRUSTED = 2"

lemma integrity_rank_inj: "integrity_rank a = integrity_rank b \<longleftrightarrow> a = b"
  by (cases a; cases b) auto

instantiation integrity :: linorder
begin

definition less_eq_integrity :: "integrity \<Rightarrow> integrity \<Rightarrow> bool" where
  "less_eq_integrity a b = (integrity_rank a \<le> integrity_rank b)"

definition less_integrity :: "integrity \<Rightarrow> integrity \<Rightarrow> bool" where
  "less_integrity a b = (integrity_rank a < integrity_rank b)"

instance
  by standard (auto simp: less_eq_integrity_def less_integrity_def integrity_rank_inj)

end

text \<open>Python's \<open>max(values, key=rank)\<close> keeps the first of the greatest.\<close>

fun max_by_rank :: "stakes \<Rightarrow> stakes list \<Rightarrow> stakes" where
  "max_by_rank best [] = best"
| "max_by_rank best (v # vs) = max_by_rank (if STAKE_RANK best < STAKE_RANK v then v else best) vs"

definition max_stakes :: "stakes list \<Rightarrow> stakes" where
  "max_stakes values = (case values of [] \<Rightarrow> MED | v # vs \<Rightarrow> max_by_rank v vs)"

lemma max_by_rank_fold: "max_by_rank best vs = fold max vs best"
proof (induction vs arbitrary: best)
  case Nil
  then show ?case by simp
next
  case (Cons v vs)
  have "(if STAKE_RANK best < STAKE_RANK v then v else best) = max v best"
    by (auto simp: max_def less_eq_stakes_def STAKE_RANK_inj)
  with Cons show ?case by simp
qed

lemma max_stakes_Max: "vs \<noteq> [] \<Longrightarrow> max_stakes vs = Max (set vs)"
  by (cases vs) (auto simp only: max_stakes_def list.case max_by_rank_fold Max.set_eq_fold)

lemma max_stakes_ge: "v \<in> set vs \<Longrightarrow> v \<le> max_stakes vs"
  by (cases "vs = []") (auto simp: max_stakes_Max)

lemma max_stakes_mem: "vs \<noteq> [] \<Longrightarrow> max_stakes vs \<in> set vs"
  by (simp add: max_stakes_Max)

section \<open>Time\<close>

datatype datetime = Aware (micros: int) | Naive int

fun tz_aware :: "datetime \<Rightarrow> bool" where
  "tz_aware (Aware t) = True"
| "tz_aware (Naive t) = False"

text \<open>
  A \<open>timedelta\<close> of \<open>m\<close> microseconds in the normal form Python gives it: seconds in
  \<open>[0, 86400)\<close>, microseconds in \<open>[0, 1000000)\<close>.
\<close>

record timedelta =
  td_days :: int
  td_seconds :: int
  td_microseconds :: int

definition timedelta_of :: "int \<Rightarrow> timedelta" where
  "timedelta_of m = \<lparr>td_days = m div 86400000000,
     td_seconds = (m mod 86400000000) div 1000000,
     td_microseconds = (m mod 86400000000) mod 1000000\<rparr>"

lemma timedelta_of_value:
  "td_days (timedelta_of m) * 86400000000 + td_seconds (timedelta_of m) * 1000000
     + td_microseconds (timedelta_of m) = m"
proof -
  have "(m mod 86400000000) div 1000000 * 1000000 + (m mod 86400000000) mod 1000000
      = m mod 86400000000"
    by (rule div_mult_mod_eq)
  moreover have "m div 86400000000 * 86400000000 + m mod 86400000000 = m"
    by (rule div_mult_mod_eq)
  ultimately show ?thesis by (simp add: timedelta_of_def)
qed

section \<open>Records\<close>

record source_stats =
  confirmed :: int
  defeated :: int
  samples :: int

record source =
  src_id :: string
  src_episode_id :: string
  src_kind :: source_kind
  src_integrity :: integrity
  src_name :: string
  src_root :: string
  src_competence :: "(string \<times> rat) list"
  src_stats :: source_stats

record evidence_ref =
  evidence_id :: string
  span :: "(int \<times> int) option"

record chain_audit =
  paksadharmata :: bool
  sapakse_sattvam :: bool
  vipakse_asattvam :: bool
  audit_evidence_ids :: "string list"
  fallacies :: "string list"

record justification =
  j_id :: string
  j_belief_id :: string
  j_premises :: "string list"
  warrant :: string
  audit :: "chain_audit option"
  alternatives :: "string list"

record belief =
  b_id :: string
  b_episode_id :: string
  content :: string
  normalized_content :: string
  b_pramana :: pramana
  b_source_id :: string
  b_evidence :: "evidence_ref list"
  b_justifications :: "justification list"
  qualifiers :: "(string \<times> string) list"
  b_perishability :: perishability
  observed_at :: datetime
  b_stakes :: stakes
  b_status :: status
  admission_status :: status
  domain :: string
  confidence :: "rat option"
  corroboration :: int
  validity :: "(string \<times> json) list"

text \<open>\<open>Belief.__post_init__\<close>: a belief with a naive observation time is refused.\<close>

definition make_belief :: "belief \<Rightarrow> belief result" where
  "make_belief b =
     (if tz_aware (observed_at b) then Inr b
      else Inl (ValueError ''belief observed_at must be timezone-aware''))"

record defeat_edge =
  d_id :: string
  d_episode_id :: string
  attacker :: string
  target :: string
  d_kind :: defeat_kind
  basis :: string
  d_active :: bool

record verification_task =
  vt_id :: string
  vt_episode_id :: string
  vt_belief_id :: string
  vt_method :: verification_method
  k_required :: int
  budget :: int
  vt_result :: "string option"
  vt_state :: string

record ingestion_support =
  is_id :: string
  is_episode_id :: string
  is_belief_id :: string
  is_evidence_id :: string
  is_validity :: "(string \<times> json) list"
  is_active :: bool

record conflict =
  cf_id :: string
  cf_episode_id :: string
  left_belief_id :: string
  right_belief_id :: string
  normalized_scope :: "(string \<times> string) list"
  verification_task_id :: string
  cf_state :: string

record episode =
  ep_id :: string
  ep_key :: string
  session_id :: string
  task_id :: string
  platform :: string
  ep_model :: string
  default_stakes :: stakes
  current_turn :: int
  created_at :: datetime
  updated_at :: datetime
  llm_calls_used :: int
  input_tokens_used :: int
  output_tokens_used :: int
  ep_state :: string

record gate_decision =
  outcome :: gate_outcome
  reason_code :: string
  message :: string
  gd_stakes :: stakes
  missing :: "string list"
  suggested_observation :: "string option"
  rule_key :: "string option"

record lint_claim =
  claim_text :: string
  disposition :: lint_disposition
  cited_beliefs :: "string list"
  supporting_beliefs :: "string list"
  claim_reason :: string

record lint_report =
  claims :: "lint_claim list"
  passed :: bool
  replacement :: "string option"
  warnings :: "string list"

section \<open>Configuration\<close>

text \<open>
  The parts of the configuration the engine reads, typed. \<open>int(ttl)\<close> may fail on a
  configured lifetime; \<open>TtlInvalid\<close> is such a value.
\<close>

record trust_cell =
  mode :: string
  cell_k :: int
  cell_method :: "verification_method option"

record apta_config =
  minimum_samples :: int
  alpha_prior :: rat
  beta_prior :: rat
  apta_floor :: rat
  apta_ceiling :: rat

datatype ttl_value = TtlNone | TtlSeconds int | TtlInvalid

record engine_config =
  trust_matrix :: "(string \<times> (stakes \<times> trust_cell) list) list"
  apta :: apta_config
  cfg_integrity_rank :: "(integrity \<times> int) list"
  type_rank_default :: "(string \<times> int) list"
  domain_profiles :: "(string \<times> (string \<times> int) list) list"
  band_high :: rat
  band_medium :: rat
  specificity_keys :: "string list"
  perishability_ttl :: "(perishability \<times> ttl_value) list"
  max_relabel_iterations :: nat

end
