(* ===== verification/Trust.thy ===== *)
theory Trust
  imports Models
begin

text \<open>
  Admission and learned competence: \<open>engine/trust.py\<close> (which status a new belief is admitted
  with), \<open>verification/apta.py\<close> (the counters of a source), \<open>verification/chain_audit.py\<close>
  (the structured audit of an inference) and \<open>ingestion/absence.py\<close> (when a failed search
  may be read as an absence).
\<close>

section \<open>Admission\<close>

record trust_decision =
  td_status :: status
  td_profile :: string
  td_mode :: string
  effective_stakes :: stakes
  td_k_required :: int
  td_method :: "verification_method option"
  td_reason :: string

definition trust_profile :: "belief \<Rightarrow> source \<Rightarrow> string" where
  "trust_profile b s =
     (if b_pramana b = PRATYAKSHA then ''pratyaksha_tool''
      else if b_pramana b = ANUPALABDHI then ''anupalabdhi''
      else if b_pramana b \<in> {ANUMANA, ARTHAPATTI, UPAMANA} then ''anumana_registered''
      else if src_kind s = SK_USER then
        (if truthy (dict_get (validity b) ''about_self'' JNull) then ''user_self'' else ''user_world'')
      else if src_kind s = SK_WEB then
        (if src_integrity s = SEMI then ''shabda_web_semi'' else ''shabda_web_untrusted'')
      else if src_integrity s = TRUSTED then ''shabda_internal_trusted''
      else ''shabda_web_untrusted'')"

definition trust_cell_of :: "engine_config \<Rightarrow> string \<Rightarrow> stakes \<Rightarrow> trust_cell result" where
  "trust_cell_of config profile st =
     and_then (dict_item (trust_matrix config) profile) (\<lambda>rows.
       case map_of rows st of
         None \<Rightarrow> Inl (KeyError (stakes_value st))
       | Some cell \<Rightarrow> Inr cell)"

definition determine_admission ::
  "belief \<Rightarrow> source \<Rightarrow> engine_config \<Rightarrow> stakes \<Rightarrow> stakes option \<Rightarrow> trust_decision result" where
  "determine_admission b s config episode_stakes action_stakes =
     (let effective = max_stakes [episode_stakes, b_stakes b,
                        case action_stakes of None \<Rightarrow> LOW | Some a \<Rightarrow> a];
          profile = trust_profile b s
      in and_then (trust_cell_of config profile effective) (\<lambda>cell.
        Inr (if src_kind s = SK_LEDGER \<and> b_perishability b = LIVE then
               \<lparr>td_status = PENDING, td_profile = profile, td_mode = ''paratah'',
                effective_stakes = effective, td_k_required = 1, td_method = Some TOOL_RECHECK,
                td_reason = ''prior LIVE belief requires re-observation''\<rparr>
             else if mode cell = ''svatah'' \<or> mode cell = ''yogyata'' then
               \<lparr>td_status = IN, td_profile = profile, td_mode = mode cell,
                effective_stakes = effective, td_k_required = cell_k cell,
                td_method = cell_method cell, td_reason = ''admitted by configured policy''\<rparr>
             else if mode cell = ''paratah'' then
               \<lparr>td_status = PENDING, td_profile = profile, td_mode = mode cell,
                effective_stakes = effective, td_k_required = cell_k cell,
                td_method = cell_method cell, td_reason = ''verification required''\<rparr>
             else if mode cell = ''quarantine'' then
               \<lparr>td_status = QUARANTINED, td_profile = profile, td_mode = mode cell,
                effective_stakes = effective, td_k_required = cell_k cell,
                td_method = cell_method cell,
                td_reason = ''source is quarantined at effective stakes''\<rparr>
             else
               \<lparr>td_status = OUT, td_profile = profile, td_mode = mode cell,
                effective_stakes = effective, td_k_required = cell_k cell,
                td_method = cell_method cell,
                td_reason = ''type is not admitted at effective stakes''\<rparr>)))"

text \<open>
  What \<open>validate_core_config\<close> accepts of a cell: a mode of the five, and a verification demand
  exactly for the modes that wait for one.
\<close>

definition wf_cell :: "trust_cell \<Rightarrow> bool" where
  "wf_cell c =
     (mode c \<in> {''svatah'', ''paratah'', ''yogyata'', ''quarantine'', ''reject''}
      \<and> 0 \<le> cell_k c \<and> cell_k c \<le> 20
      \<and> (mode c \<in> {''paratah'', ''quarantine''} \<longrightarrow> 1 \<le> cell_k c \<and> cell_method c \<noteq> None)
      \<and> (mode c \<in> {''svatah'', ''yogyata'', ''reject''} \<longrightarrow> cell_k c = 0 \<and> cell_method c = None))"

definition all_stakes :: "stakes list" where
  "all_stakes = [LOW, MED, HIGH, CRITICAL]"

definition all_profiles :: "string list" where
  "all_profiles = [''pratyaksha_tool'', ''shabda_internal_trusted'', ''shabda_web_semi'',
     ''shabda_web_untrusted'', ''user_self'', ''user_world'', ''anumana_registered'',
     ''anupalabdhi'']"

definition wf_matrix :: "engine_config \<Rightarrow> bool" where
  "wf_matrix config =
     (list_all (\<lambda>p. p \<in> fst ` set (trust_matrix config)) all_profiles
      \<and> list_all (\<lambda>row. list_all (\<lambda>st. st \<in> fst ` set (snd row)) all_stakes
                       \<and> list_all (wf_cell \<circ> snd) (snd row)) (trust_matrix config))"

lemma trust_profile_known: "trust_profile b s \<in> set all_profiles"
  by (simp add: trust_profile_def all_profiles_def)

lemma stakes_known: "st \<in> set all_stakes"
  by (cases st) (auto simp: all_stakes_def)

lemma trust_cell_of_wf:
  assumes "wf_matrix config"
  obtains cell where "trust_cell_of config (trust_profile b s) st = Inr cell" and "wf_cell cell"
proof -
  from assms trust_profile_known [of b s]
  have "trust_profile b s \<in> fst ` set (trust_matrix config)"
    unfolding wf_matrix_def list_all_iff by blast
  then obtain rows where rows: "map_of (trust_matrix config) (trust_profile b s) = Some rows"
    by (metis imageE map_of_eq_None_iff not_None_eq)
  then have row: "(trust_profile b s, rows) \<in> set (trust_matrix config)"
    by (rule map_of_SomeD)
  with assms have "list_all (\<lambda>st. st \<in> fst ` set rows) all_stakes" and cells: "list_all (wf_cell \<circ> snd) rows"
    by (auto simp: wf_matrix_def list_all_iff)
  with stakes_known [of st] have "st \<in> fst ` set rows"
    by (auto simp: list_all_iff)
  then obtain cell where cell: "map_of rows st = Some cell"
    by (metis imageE map_of_eq_None_iff not_None_eq)
  from map_of_SomeD [OF cell] cells have "wf_cell cell"
    by (auto simp: list_all_iff)
  with rows cell that show ?thesis
    by (simp add: trust_cell_of_def dict_item_def)
qed

text \<open>The effective stakes are at least every stake that entered them.\<close>

lemma determine_admission_stakes:
  assumes "determine_admission b s config ep act = Inr d"
  shows "ep \<le> effective_stakes d \<and> b_stakes b \<le> effective_stakes d
         \<and> (\<forall>a. act = Some a \<longrightarrow> a \<le> effective_stakes d)"
proof -
  have "effective_stakes d = max_stakes [ep, b_stakes b, case act of None \<Rightarrow> LOW | Some a \<Rightarrow> a]"
    using assms by (auto simp: determine_admission_def Let_def splits_result split: if_splits)
  then show ?thesis
    using max_stakes_ge [of _ "[ep, b_stakes b, case act of None \<Rightarrow> LOW | Some a \<Rightarrow> a]"] by auto
qed

lemma max_stakes_three: "max_stakes [x, y, z] = max x (max y z)"
  by (cases x; cases y; cases z) (simp_all add: max_stakes_def max_def less_eq_stakes_def)

lemma determine_admission_cases:
  assumes "determine_admission b s config ep act = Inr d"
    and "trust_cell_of config (trust_profile b s)
           (max_stakes [ep, b_stakes b, case act of None \<Rightarrow> LOW | Some a \<Rightarrow> a]) = Inr cell"
  obtains (live) "src_kind s = SK_LEDGER" "b_perishability b = LIVE" "td_status d = PENDING"
      "td_k_required d = 1" "td_method d = Some TOOL_RECHECK"
  | (cell) "td_mode d = mode cell" "td_k_required d = cell_k cell" "td_method d = cell_method cell"
      "td_status d = (if mode cell \<in> {''svatah'', ''yogyata''} then IN
                      else if mode cell = ''paratah'' then PENDING
                      else if mode cell = ''quarantine'' then QUARANTINED else OUT)"
      "\<not> (src_kind s = SK_LEDGER \<and> b_perishability b = LIVE)"
  using assms by (auto simp: determine_admission_def Let_def split: if_splits)

section \<open>Learned competence\<close>

definition bounded :: "rat \<Rightarrow> apta_config \<Rightarrow> rat" where
  "bounded v a = max (apta_floor a) (min (apta_ceiling a) v)"

definition prior_competence :: "source \<Rightarrow> string \<Rightarrow> rat" where
  "prior_competence s dm =
     dict_get (src_competence s) dm (dict_get (src_competence s) ''general'' (1 / 2))"

definition effective_competence :: "source \<Rightarrow> string \<Rightarrow> engine_config \<Rightarrow> rat" where
  "effective_competence s dm config =
     (let a = apta config;
          prior = prior_competence s dm;
          stats = src_stats s
      in if samples stats < minimum_samples a then bounded prior a
         else let alpha = alpha_prior a + of_int (confirmed stats);
                  beta = beta_prior a + of_int (defeated stats);
                  posterior = alpha / (alpha + beta)
              in bounded ((prior + posterior) / 2) a)"

definition updated_source :: "source \<Rightarrow> int \<Rightarrow> int \<Rightarrow> source result" where
  "updated_source s c d =
     (if c < 0 \<or> d < 0 then Inl (ValueError ''source-stat increments cannot be negative'')
      else Inr (s\<lparr>src_stats := \<lparr>confirmed = confirmed (src_stats s) + c,
                               defeated = defeated (src_stats s) + d,
                               samples = samples (src_stats s) + c + d\<rparr>\<rparr>))"

definition wf_apta :: "apta_config \<Rightarrow> bool" where
  "wf_apta a = (0 < alpha_prior a \<and> 0 < beta_prior a \<and> 0 \<le> apta_floor a
                \<and> apta_floor a \<le> apta_ceiling a \<and> apta_ceiling a \<le> 1)"

definition wf_stats :: "source_stats \<Rightarrow> bool" where
  "wf_stats st = (0 \<le> confirmed st \<and> 0 \<le> defeated st \<and> samples st = confirmed st + defeated st)"

lemma bounded_range: "wf_apta a \<Longrightarrow> apta_floor a \<le> bounded v a \<and> bounded v a \<le> apta_ceiling a"
  by (auto simp: bounded_def wf_apta_def)

lemma bounded_mono: "v \<le> w \<Longrightarrow> bounded v a \<le> bounded w a"
  by (auto simp: bounded_def)

lemma effective_competence_range:
  "wf_apta (apta config) \<Longrightarrow>
     apta_floor (apta config) \<le> effective_competence s dm config
     \<and> effective_competence s dm config \<le> apta_ceiling (apta config)"
  by (simp add: effective_competence_def Let_def bounded_range)

lemma posterior_mono:
  fixes a b :: rat
  assumes "0 < a" "0 < b" "0 \<le> x" "x \<le> x'" "0 \<le> y'" "y' \<le> y"
  shows "(a + x) / (a + x + (b + y)) \<le> (a + x') / (a + x' + (b + y'))"
proof -
  have "(a + x) * (a + x' + (b + y')) \<le> (a + x') * (a + x + (b + y))"
  proof -
    have "(a + x) * (b + y') \<le> (a + x') * (b + y)"
      using assms by (intro mult_mono) auto
    then show ?thesis by (simp add: algebra_simps)
  qed
  then show ?thesis using assms by (intro frac_le_eq [THEN iffD2] mult_imp_div_pos_le) (auto simp: divide_simps)
qed

definition posterior :: "engine_config \<Rightarrow> source \<Rightarrow> rat" where
  "posterior config s =
     (alpha_prior (apta config) + of_int (confirmed (src_stats s)))
     / (alpha_prior (apta config) + of_int (confirmed (src_stats s))
        + (beta_prior (apta config) + of_int (defeated (src_stats s))))"

lemma learned_competence:
  "minimum_samples (apta config) \<le> samples (src_stats s) \<Longrightarrow>
     effective_competence s dm config
     = bounded ((prior_competence s dm + posterior config s) / 2) (apta config)"
  by (simp add: effective_competence_def posterior_def Let_def)

lemma posterior_update:
  assumes "wf_apta (apta config)" and "wf_stats (src_stats s)" and "0 \<le> n"
    and "updated_source s n 0 = Inr better" and "updated_source s 0 n = Inr worse"
  shows "posterior config worse \<le> posterior config s
         \<and> posterior config s \<le> posterior config better"
proof -
  from assms have pos: "0 < alpha_prior (apta config)" "0 < beta_prior (apta config)"
      "0 \<le> confirmed (src_stats s)" "0 \<le> defeated (src_stats s)"
    by (auto simp: wf_apta_def wf_stats_def)
  from assms(3-5) have "src_stats worse = (src_stats s)\<lparr>defeated := defeated (src_stats s) + n,
        samples := samples (src_stats s) + n\<rparr>"
    and "src_stats better = (src_stats s)\<lparr>confirmed := confirmed (src_stats s) + n,
        samples := samples (src_stats s) + n\<rparr>"
    by (auto simp: updated_source_def)
  with pos assms(3) show ?thesis
    by (simp add: posterior_def posterior_mono)
qed

lemma updated_source_wf:
  "updated_source s c d = Inr s' \<Longrightarrow> wf_stats (src_stats s) \<Longrightarrow> wf_stats (src_stats s')"
  by (auto simp: updated_source_def wf_stats_def split: if_splits)

section \<open>Audits\<close>

definition local_asiddha :: "justification \<Rightarrow> (string \<times> status) list \<Rightarrow> string list" where
  "local_asiddha j statuses = filter (\<lambda>p. map_of statuses p \<noteq> Some IN) (j_premises j)"

definition audit_names :: "string list" where
  "audit_names = [''paksadharmata'', ''sapakse_sattvam'', ''vipakse_asattvam'']"

definition allowed_fallacies :: "string list" where
  "allowed_fallacies =
     [''savyabhicara'', ''viruddha'', ''satpratipaksa'', ''asiddha'', ''badhita'']"

fun json_strings :: "json \<Rightarrow> string list option" where
  "json_strings (JArr xs) =
     (if list_all (\<lambda>x. case x of JStr s \<Rightarrow> True | _ \<Rightarrow> False) xs
      then Some (map (\<lambda>x. case x of JStr s \<Rightarrow> s | _ \<Rightarrow> []) xs) else None)"
| "json_strings v = None"

fun json_bool :: "json \<Rightarrow> bool option" where
  "json_bool (JBool b) = Some b"
| "json_bool v = None"

definition validate_chain_audit :: "json \<Rightarrow> chain_audit result" where
  "validate_chain_audit value =
     (case value of
        JObj kvs \<Rightarrow>
          (case map (\<lambda>k. json_bool (dict_get kvs k JNull)) audit_names of
             [Some p, Some q, Some r] \<Rightarrow>
               (case json_strings (dict_get kvs ''evidence_ids'' (JArr [])) of
                  None \<Rightarrow> Inl (ValueError ''chain audit evidence_ids are invalid'')
                | Some ids \<Rightarrow>
                    (case json_strings (dict_get kvs ''fallacies'' (JArr [])) of
                       Some fs \<Rightarrow>
                         if list_all (\<lambda>f. f \<in> set allowed_fallacies) fs
                         then Inr \<lparr>paksadharmata = p, sapakse_sattvam = q, vipakse_asattvam = r,
                                   audit_evidence_ids = ids, fallacies = fs\<rparr>
                         else Inl (ValueError ''chain audit fallacies are invalid'')
                     | None \<Rightarrow> Inl (ValueError ''chain audit fallacies are invalid'')))
           | _ \<Rightarrow> Inl (ValueError ''chain audit booleans are missing''))
      | _ \<Rightarrow> Inl (ValueError ''chain audit result must be an object''))"

lemma validate_chain_audit_sound:
  "validate_chain_audit v = Inr a \<Longrightarrow> set (fallacies a) \<subseteq> set allowed_fallacies"
  by (auto simp: validate_chain_audit_def list_all_iff split: json.splits list.splits option.splits if_splits)

lemma local_asiddha_Nil:
  "local_asiddha j statuses = [] \<longleftrightarrow> (\<forall>p \<in> set (j_premises j). map_of statuses p = Some IN)"
  by (simp add: local_asiddha_def filter_eq_Nil_iff)

section \<open>Negative searches\<close>

record absence_assessment =
  admissible :: bool
  event_kind :: string
  aa_reason :: string
  aa_validity :: "(string \<times> json) list"

text \<open>
  The two floats are given with their printed form, which the recorded provenance keeps.
\<close>

definition absence_reasons ::
  "bool \<Rightarrow> bool \<Rightarrow> string \<Rightarrow> string \<Rightarrow> string \<Rightarrow> (string \<times> json) list \<Rightarrow> rat \<Rightarrow> rat \<Rightarrow> rat \<Rightarrow> rat \<Rightarrow> string list" where
  "absence_reasons succeeded truncated corpus scope query params coverage recall min_cov min_rec =
     (if \<not> succeeded then [''search failed''] else [])
     @ (if truncated then [''search result was truncated''] else [])
     @ (if corpus = [] \<or> scope = [] \<or> query = [] \<or> params = []
        then [''search provenance is incomplete''] else [])
     @ (if \<not> (0 \<le> coverage \<and> coverage \<le> 1) then [''coverage must be in [0,1]''] else [])
     @ (if \<not> (0 \<le> recall \<and> recall \<le> 1) then [''recall must be in [0,1]''] else [])
     @ (if coverage < min_cov then [''coverage below yogyata threshold''] else [])
     @ (if recall < min_rec then [''recall below yogyata threshold''] else [])"

definition assess_negative_search ::
  "bool \<Rightarrow> bool \<Rightarrow> string \<Rightarrow> string \<Rightarrow> string \<Rightarrow> (string \<times> json) list
     \<Rightarrow> rat \<times> string \<Rightarrow> rat \<times> string \<Rightarrow> rat \<Rightarrow> rat \<Rightarrow> absence_assessment" where
  "assess_negative_search succeeded truncated corpus scope query params coverage recall min_cov min_rec =
     (let reasons = absence_reasons succeeded truncated corpus scope query params
                      (fst coverage) (fst recall) min_cov min_rec;
          val = [(''search_succeeded'', JBool succeeded), (''truncated'', JBool truncated),
                 (''corpus'', JStr corpus), (''scope'', JStr scope), (''query'', JStr query),
                 (''parameters'', JObj params), (''coverage'', JFloat (snd coverage)),
                 (''recall'', JFloat (snd recall))]
      in if reasons \<noteq> []
         then \<lparr>admissible = False, event_kind = ''SEARCH_FAILED'',
               aa_reason = join_with ''; '' reasons, aa_validity = val\<rparr>
         else \<lparr>admissible = True, event_kind = ''ABSENCE_ADMISSIBLE'',
               aa_reason = ''yogyata satisfied'', aa_validity = val\<rparr>)"

lemma absence_admissible_iff:
  "admissible (assess_negative_search ok trunc corpus scope query params cov rec min_cov min_rec)
   \<longleftrightarrow> ok \<and> \<not> trunc \<and> corpus \<noteq> [] \<and> scope \<noteq> [] \<and> query \<noteq> [] \<and> params \<noteq> []
      \<and> max 0 min_cov \<le> fst cov \<and> fst cov \<le> 1 \<and> max 0 min_rec \<le> fst rec \<and> fst rec \<le> 1"
  by (auto simp: assess_negative_search_def absence_reasons_def Let_def)

section \<open>The packaged configuration\<close>

text \<open>\<open>data/defaults.yaml\<close>: the values the engine reads when the operator overrides nothing.\<close>

definition cell :: "string \<Rightarrow> int \<Rightarrow> verification_method option \<Rightarrow> trust_cell" where
  "cell m k method = \<lparr>mode = m, cell_k = k, cell_method = method\<rparr>"

definition row :: "trust_cell list \<Rightarrow> (stakes \<times> trust_cell) list" where
  "row cells = zip all_stakes cells"

definition default_matrix :: "(string \<times> (stakes \<times> trust_cell) list) list" where
  "default_matrix =
     (let sv = cell ''svatah'' 0 None; par = (\<lambda>k m. cell ''paratah'' k (Some m)) in
      [(''pratyaksha_tool'', row [sv, sv, sv, par 1 TOOL_RECHECK]),
       (''shabda_internal_trusted'', row [sv, sv, par 1 CROSS_SOURCE, par 2 CROSS_SOURCE]),
       (''shabda_web_semi'',
          row [sv, par 1 CROSS_SOURCE, par 2 CROSS_SOURCE, par 2 TOOL_RECHECK]),
       (''shabda_web_untrusted'',
          row [sv, par 1 CROSS_SOURCE, par 2 CROSS_SOURCE, cell ''quarantine'' 2 (Some CROSS_SOURCE)]),
       (''user_self'', row [sv, sv, sv, par 1 HUMAN]),
       (''user_world'', row [sv, sv, par 1 CROSS_SOURCE, par 2 CROSS_SOURCE]),
       (''anumana_registered'', row [sv, sv, par 1 CHAIN_AUDIT, par 2 CHAIN_AUDIT]),
       (''anupalabdhi'',
          row [cell ''yogyata'' 0 None, cell ''yogyata'' 0 None, par 1 TOOL_RECHECK,
               cell ''reject'' 0 None])])"

definition default_config :: engine_config where
  "default_config =
     \<lparr>trust_matrix = default_matrix,
      apta = \<lparr>minimum_samples = 3, alpha_prior = 2, beta_prior = 2, apta_floor = 1 / 10,
              apta_ceiling = 95 / 100\<rparr>,
      cfg_integrity_rank = [(TRUSTED, 2), (SEMI, 1), (UNTRUSTED, 0)],
      type_rank_default =
        [(''pratyaksha'', 5), (''shabda_apta_hi'', 4), (''anumana_audited'', 4),
         (''shabda_apta_mid'', 3), (''anupalabdhi'', 3), (''anumana_raw'', 2),
         (''arthapatti'', 2), (''upamana'', 1), (''shabda_apta_lo'', 1)],
      domain_profiles =
        [(''runtime_state'', [(''pratyaksha'', 9)]),
         (''library_internals'', [(''shabda_official_docs'', 6)])],
      band_high = 8 / 10, band_medium = 5 / 10,
      specificity_keys = [''jurisdiction'', ''scope'', ''version'', ''as_of''],
      perishability_ttl =
        [(STABLE, TtlNone), (SLOW, TtlSeconds 2592000), (FAST, TtlSeconds 86400),
         (LIVE, TtlSeconds 60)],
      max_relabel_iterations = 256\<rparr>"

lemma default_wf: "wf_matrix default_config" "wf_apta (apta default_config)"
proof -
  show "wf_matrix default_config"
    by code_simp
  show "wf_apta (apta default_config)"
    by (simp add: default_config_def wf_apta_def)
qed

section \<open>Properties\<close>

text \<open>
  C20. With a validated trust matrix, admission always returns a decision. Its stakes are the highest
  of those of the episode, the belief and the action, neither more nor less, and it is read off the
  cell of the matrix for the belief's profile at these stakes: IN where the cell is self-validating or
  bound to admissible absence, PENDING where it waits for a verification, QUARANTINED and OUT where
  it says so, with the checks and the method of the cell. A live fact remembered by the ledger is
  PENDING one re-observation instead. So IN and OUT come without a verification demand, PENDING and
  QUARANTINED with at least one check and a method.
\<close>

theorem admission_sound:
  assumes "wf_matrix config"
  shows "\<exists>d rows c. determine_admission b s config ep act = Inr d
    \<and> effective_stakes d = max ep (max (b_stakes b) (case act of None \<Rightarrow> LOW | Some a \<Rightarrow> a))
    \<and> map_of (trust_matrix config) (trust_profile b s) = Some rows \<and> map_of rows (effective_stakes d) = Some c
    \<and> (if src_kind s = SK_LEDGER \<and> b_perishability b = LIVE
        then td_status d = PENDING \<and> td_k_required d = 1 \<and> td_method d = Some TOOL_RECHECK
        else td_k_required d = cell_k c \<and> td_method d = cell_method c
          \<and> (td_status d = IN \<longleftrightarrow> mode c \<in> {''svatah'', ''yogyata''}) \<and> (td_status d = PENDING \<longleftrightarrow> mode c = ''paratah'')
          \<and> (td_status d = QUARANTINED \<longleftrightarrow> mode c = ''quarantine'') \<and> (td_status d = OUT \<longleftrightarrow> mode c = ''reject''))
    \<and> (td_status d \<in> {IN, OUT} \<longrightarrow> td_k_required d = 0 \<and> td_method d = None)
    \<and> (td_status d \<in> {PENDING, QUARANTINED} \<longrightarrow> 1 \<le> td_k_required d \<and> td_method d \<noteq> None)"
proof -
  let ?st = "max_stakes [ep, b_stakes b, case act of None \<Rightarrow> LOW | Some a \<Rightarrow> a]"
  obtain c where c: "trust_cell_of config (trust_profile b s) ?st = Inr c" and wf: "wf_cell c"
    using trust_cell_of_wf [OF assms] by blast
  then obtain d where d: "determine_admission b s config ep act = Inr d"
    by (auto simp: determine_admission_def Let_def)
  have st: "effective_stakes d = ?st"
    using d by (auto simp: determine_admission_def Let_def splits_result split: if_splits)
  obtain rows where rows: "map_of (trust_matrix config) (trust_profile b s) = Some rows" "map_of rows ?st = Some c"
    using c by (auto simp: trust_cell_of_def dict_item_def splits_result split: option.splits)
  have "effective_stakes d = max ep (max (b_stakes b) (case act of None \<Rightarrow> LOW | Some a \<Rightarrow> a))"
    unfolding st by (rule max_stakes_three)
  with rows show ?thesis
    using wf unfolding st [symmetric]
    by (intro exI [of _ d] exI [of _ rows] exI [of _ c], cases rule: determine_admission_cases [OF d c])
       (auto simp: d wf_cell_def)
qed

definition sample_source :: source where
  "sample_source = \<lparr>src_id = ''s1'', src_episode_id = ''e1'', src_kind = SK_LEDGER,
     src_integrity = SEMI, src_name = ''memory'', src_root = ''ledger'',
     src_competence = [(''general'', 9 / 10)],
     src_stats = \<lparr>confirmed = 3, defeated = 1, samples = 4\<rparr>\<rparr>"

definition sample_belief :: belief where
  "sample_belief = \<lparr>b_id = ''b1'', b_episode_id = ''e1'', content = ''the build is green'',
     normalized_content = ''the build is green'', b_pramana = SHABDA, b_source_id = ''s1'',
     b_evidence = [], b_justifications = [], qualifiers = [(''scope'', ''ci'')],
     b_perishability = LIVE, observed_at = Aware 1000, b_stakes = MED, b_status = PENDING,
     admission_status = PENDING, domain = ''general'', confidence = None, corroboration = 0,
     validity = []\<rparr>"

theorem admission_sound_witness:
  "\<exists>d. determine_admission sample_belief sample_source default_config HIGH None = Inr d
     \<and> td_status d = PENDING \<and> td_method d = Some TOOL_RECHECK"
  using admission_sound [OF default_wf(1), of sample_belief sample_source HIGH None]
  by (auto simp: sample_belief_def sample_source_def)

text \<open>
  Learned competence stays between the configured floor and ceiling whatever the history,
  and once a source has enough samples a further confirmation never lowers it and a further
  defeat never raises it.
\<close>

theorem competence_learning:
  assumes "wf_apta (apta config)" and "wf_stats (src_stats s)" and "0 \<le> n"
    and "minimum_samples (apta config) \<le> samples (src_stats s)"
    and "updated_source s n 0 = Inr better" and "updated_source s 0 n = Inr worse"
  shows "apta_floor (apta config) \<le> effective_competence worse dm config
    \<and> effective_competence worse dm config \<le> effective_competence s dm config
    \<and> effective_competence s dm config \<le> effective_competence better dm config
    \<and> effective_competence better dm config \<le> apta_ceiling (apta config)"
proof -
  let ?enough = "\<lambda>x. minimum_samples (apta config) \<le> samples (src_stats x)"
  from assms(3-6) have en: "?enough s" "?enough better" "?enough worse"
    and prior: "prior_competence better dm = prior_competence s dm"
      "prior_competence worse dm = prior_competence s dm"
    by (auto simp: updated_source_def prior_competence_def)
  have "posterior config worse \<le> posterior config s \<and> posterior config s \<le> posterior config better"
    using posterior_update assms by blast
  then have "effective_competence worse dm config \<le> effective_competence s dm config
      \<and> effective_competence s dm config \<le> effective_competence better dm config"
    unfolding learned_competence [OF en(1)] learned_competence [OF en(2)]
      learned_competence [OF en(3)] prior
    by (intro conjI bounded_mono divide_right_mono) auto
  then show ?thesis
    using effective_competence_range [OF assms(1), of worse dm]
      effective_competence_range [OF assms(1), of better dm] by blast
qed

theorem competence_learning_witness:
  "\<exists>better worse. updated_source sample_source 2 0 = Inr better
     \<and> updated_source sample_source 0 2 = Inr worse
     \<and> effective_competence worse ''general'' default_config
         \<le> effective_competence better ''general'' default_config"
proof -
  obtain better worse where b: "updated_source sample_source 2 0 = Inr better"
    and w: "updated_source sample_source 0 2 = Inr worse"
    by (auto simp: updated_source_def)
  have "minimum_samples (apta default_config) \<le> samples (src_stats sample_source)"
    by (simp add: default_config_def sample_source_def)
  moreover have "wf_stats (src_stats sample_source)"
    by (simp add: sample_source_def wf_stats_def)
  ultimately have "effective_competence worse ''general'' default_config
      \<le> effective_competence better ''general'' default_config"
    using competence_learning [OF default_wf(2) _ _ _ b w, of "''general''"] by simp
  with b w show ?thesis by blast
qed

end
