(* ===== verification/Priority.thy ===== *)
theory Priority
  imports Trust
begin

text \<open>
  \<open>engine/priority.py\<close>: the trace of five keys a belief is ranked by, and the comparison of an
  attacker with its target. The interface \<open>contest_order\<close> states what relabelling needs of any
  comparison; the code's comparison is shown to provide it.
\<close>

section \<open>Traces\<close>

record priority_trace =
  pt_belief_id :: string
  pt_integrity_rank :: int
  pt_type_rank :: int
  pt_reliability_rank :: int
  pt_specificity_rank :: int
  pt_recency_rank :: int
  pt_type_key :: string
  pt_reliability :: rat

definition trace_value :: "priority_trace \<Rightarrow> int list" where
  "trace_value t = [pt_integrity_rank t, pt_type_rank t, pt_reliability_rank t,
     pt_specificity_rank t, pt_recency_rank t]"

record priority_comparison =
  pc_result :: int
  pc_attacker :: priority_trace
  pc_target :: priority_trace
  decisive_field :: string
  fixed_rule :: "string option"

definition recency_micros :: "datetime \<Rightarrow> int result" where
  "recency_micros v =
     (case v of
        Naive t \<Rightarrow> Inl (ValueError ''belief observed_at must be timezone-aware'')
      | Aware t \<Rightarrow>
          let delta = timedelta_of t
          in Inr (td_days delta * 86400000000 + td_seconds delta * 1000000 + td_microseconds delta))"

text \<open>An inference counts as audited when some audit of it passed every check.\<close>

definition audit_passed :: "justification \<Rightarrow> bool" where
  "audit_passed j =
     (case audit j of
        None \<Rightarrow> False
      | Some a \<Rightarrow> paksadharmata a \<and> sapakse_sattvam a \<and> vipakse_asattvam a \<and> fallacies a = [])"

definition type_key :: "belief \<Rightarrow> rat \<Rightarrow> engine_config \<Rightarrow> string" where
  "type_key b reliability config =
     (if b_pramana b = SHABDA then
        (if reliability \<ge> band_high config then ''shabda_apta_hi''
         else if reliability \<ge> band_medium config then ''shabda_apta_mid''
         else ''shabda_apta_lo'')
      else if b_pramana b = ANUMANA then
        (if list_ex audit_passed (b_justifications b) then ''anumana_audited'' else ''anumana_raw'')
      else pramana_value (b_pramana b))"

text \<open>Python's \<open>round\<close>: to the nearest integer, a half to the even neighbour.\<close>

definition py_round :: "rat \<Rightarrow> int" where
  "py_round x =
     (let f = \<lfloor>x\<rfloor>; d = x - of_int f
      in if d < 1 / 2 then f else if d > 1 / 2 then f + 1 else if even f then f else f + 1)"

definition priority_trace_of :: "belief \<Rightarrow> source \<Rightarrow> engine_config \<Rightarrow> priority_trace result" where
  "priority_trace_of b s config =
     (case map_of (cfg_integrity_rank config) (src_integrity s) of
        None \<Rightarrow> Inl (KeyError (integrity_value (src_integrity s)))
      | Some integrity_r \<Rightarrow>
          let reliability = effective_competence s (domain b) config;
              key = type_key b reliability config;
              domain_ranks = dict_get (domain_profiles config) (domain b) [];
              type_rank = dict_get domain_ranks key
                (dict_get domain_ranks (pramana_value (b_pramana b))
                  (dict_get (type_rank_default config) key 0));
              specificity = length (filter (\<lambda>k. dict_get (qualifiers b) k [] \<noteq> [])
                              (specificity_keys config))
          in and_then (recency_micros (observed_at b)) (\<lambda>recency.
               Inr \<lparr>pt_belief_id = b_id b, pt_integrity_rank = integrity_r,
                    pt_type_rank = type_rank, pt_reliability_rank = py_round (reliability * 1000),
                    pt_specificity_rank = int specificity, pt_recency_rank = recency,
                    pt_type_key = key, pt_reliability = reliability\<rparr>))"

section \<open>Comparison\<close>

fun first_decisive :: "string list \<Rightarrow> int list \<Rightarrow> int list \<Rightarrow> int \<times> string" where
  "first_decisive (f # fs) (l # ls) (r # rs) =
     (if l \<noteq> r then (if l > r then 1 else - 1, f) else first_decisive fs ls rs)"
| "first_decisive fs ls rs = (0, ''equal'')"

definition priority_fields :: "string list" where
  "priority_fields = [''integrity'', ''type'', ''reliability'', ''specificity'', ''recency'']"

definition source_of :: "(string \<times> source) list \<Rightarrow> belief \<Rightarrow> source result" where
  "source_of sources b = dict_item sources (b_source_id b)"

definition trace_of :: "engine_config \<Rightarrow> (string \<times> source) list \<Rightarrow> belief \<Rightarrow> priority_trace result" where
  "trace_of config sources b =
     and_then (source_of sources b) (\<lambda>s. priority_trace_of b s config)"

definition compare_priority ::
  "belief \<Rightarrow> belief \<Rightarrow> (string \<times> source) list \<Rightarrow> engine_config \<Rightarrow> priority_comparison result" where
  "compare_priority a t sources config =
     and_then (trace_of config sources a) (\<lambda>atr.
     and_then (trace_of config sources t) (\<lambda>ttr.
       Inr (if b_pramana t = ANUPALABDHI \<and> b_pramana a \<noteq> ANUPALABDHI then
              \<lparr>pc_result = 1, pc_attacker = atr, pc_target = ttr, decisive_field = ''fixed_rule'',
               fixed_rule = Some ''positive_over_anupalabdhi''\<rparr>
            else if b_pramana a = ANUPALABDHI \<and> b_pramana t \<noteq> ANUPALABDHI then
              \<lparr>pc_result = - 1, pc_attacker = atr, pc_target = ttr, decisive_field = ''fixed_rule'',
               fixed_rule = Some ''positive_over_anupalabdhi''\<rparr>
            else let d = first_decisive priority_fields (trace_value atr) (trace_value ttr)
              in \<lparr>pc_result = fst d, pc_attacker = atr, pc_target = ttr, decisive_field = snd d,
                  fixed_rule = None\<rparr>)))"

section \<open>What a comparison owes to relabelling\<close>

locale contest_order =
  fixes ranked :: "'a \<Rightarrow> bool"
    and contest :: "'a \<Rightarrow> 'a \<Rightarrow> int"
  assumes swap: "\<lbrakk>ranked a; ranked b\<rbrakk> \<Longrightarrow> contest b a = - contest a b"
    and trans: "\<lbrakk>ranked a; ranked b; ranked c; 0 \<le> contest a b; 0 \<le> contest b c\<rbrakk> \<Longrightarrow> 0 \<le> contest a c"
begin

definition beats :: "('a \<times> 'a) set" where
  "beats = {(a, b). ranked a \<and> ranked b \<and> 0 < contest a b}"

lemma contest_self: "ranked a \<Longrightarrow> contest a a = 0"
  using swap [of a a] by simp

lemma one_winner: "\<lbrakk>ranked a; ranked b; 0 < contest a b\<rbrakk> \<Longrightarrow> \<not> 0 < contest b a"
  using swap [of a b] by simp

lemma beats_trans: "(a, b) \<in> beats \<Longrightarrow> (b, c) \<in> beats \<Longrightarrow> (a, c) \<in> beats"
proof -
  assume ab: "(a, b) \<in> beats" and bc: "(b, c) \<in> beats"
  then have r: "ranked a" "ranked b" "ranked c" by (auto simp: beats_def)
  have "0 \<le> contest a c" using ab bc r by (auto simp: beats_def intro: trans [of a b c])
  moreover have "contest a c \<noteq> 0"
  proof
    assume "contest a c = 0"
    then have "0 \<le> contest c a" using swap [of a c] r by simp
    then have "0 \<le> contest b a" using bc r by (auto simp: beats_def intro: trans [of b c a])
    with swap [of a b] ab r show False by (auto simp: beats_def)
  qed
  ultimately show ?thesis using r by (auto simp: beats_def)
qed

text \<open>Winning defeats never form a cycle.\<close>

lemma beats_acyclic: "acyclic beats"
proof -
  have "beats\<^sup>+ = beats"
    by (rule trancl_id) (auto intro: transI beats_trans)
  then show ?thesis
    by (auto simp: acyclic_def beats_def dest: contest_self)
qed

text \<open>In a finite, nonempty group of ranked rivals, one is defeated by none of them.\<close>

lemma undefeated_exists:
  assumes "finite A" and "A \<noteq> {}" and "\<forall>a \<in> A. ranked a"
  shows "\<exists>a \<in> A. \<forall>b \<in> A. \<not> 0 < contest b a"
proof -
  have sub: "beats \<inter> (A \<times> A) \<subseteq> beats" by blast
  have "wf (beats \<inter> (A \<times> A))"
    using assms(1) acyclic_subset [OF beats_acyclic sub] by (intro finite_acyclic_wf) auto
  moreover from assms(2) obtain x where "x \<in> A" by blast
  ultimately obtain a where a: "a \<in> A" "\<And>b. (b, a) \<in> beats \<inter> (A \<times> A) \<Longrightarrow> b \<notin> A"
    by (rule wfE_min) blast
  have "\<not> 0 < contest b a" if "b \<in> A" for b
    using a(2) [of b] that a(1) assms(3) by (auto simp: beats_def)
  with a(1) show ?thesis by blast
qed

end

section \<open>The code's comparison\<close>

text \<open>
  The keys in their order, the fixed rule in front: an admitted absence ranks below positive
  evidence.
\<close>

definition contest_key :: "engine_config \<Rightarrow> (string \<times> source) list \<Rightarrow> belief \<Rightarrow> int list" where
  "contest_key config sources b =
     (if b_pramana b = ANUPALABDHI then 0 else 1)
     # (case trace_of config sources b of Inr t \<Rightarrow> trace_value t | Inl e \<Rightarrow> [])"

definition ranked :: "engine_config \<Rightarrow> (string \<times> source) list \<Rightarrow> belief \<Rightarrow> bool" where
  "ranked config sources b = (case trace_of config sources b of Inr t \<Rightarrow> True | Inl e \<Rightarrow> False)"

definition contest :: "engine_config \<Rightarrow> (string \<times> source) list \<Rightarrow> belief \<Rightarrow> belief \<Rightarrow> int" where
  "contest config sources a b =
     (case compare_priority a b sources config of Inr c \<Rightarrow> pc_result c | Inl e \<Rightarrow> 0)"

definition lex_sign :: "int list \<Rightarrow> int list \<Rightarrow> int" where
  "lex_sign xs ys = (if xs > ys then 1 else if xs < ys then - 1 else 0)"

lemma lex_sign_Cons:
  "lex_sign (x # xs) (y # ys) = (if x > y then 1 else if x < y then - 1 else lex_sign xs ys)"
  by (auto simp: lex_sign_def)

lemma lex_sign_Nil [simp]: "lex_sign [] [] = 0"
  by (simp add: lex_sign_def)

lemma first_decisive_lex:
  "length fs = length ls \<Longrightarrow> length rs = length ls \<Longrightarrow> fst (first_decisive fs ls rs) = lex_sign ls rs"
proof (induction fs ls rs rule: first_decisive.induct)
  case (1 f fs l ls r rs)
  then show ?case by (auto simp: lex_sign_Cons)
qed (auto simp: lex_sign_def)

lemma ranked_trace: "ranked config sources b \<longleftrightarrow> (\<exists>t. trace_of config sources b = Inr t)"
  by (auto simp: ranked_def split: sum.splits)

text \<open>The comparison is the lexicographic order of the keys.\<close>

lemma compare_priority_lex:
  assumes "ranked config sources a" and "ranked config sources b"
  shows "\<exists>c. compare_priority a b sources config = Inr c
    \<and> pc_result c = lex_sign (contest_key config sources a) (contest_key config sources b)"
proof -
  from assms obtain s t where "trace_of config sources a = Inr s" "trace_of config sources b = Inr t"
    by (auto simp: ranked_trace)
  then show ?thesis
    by (auto simp: compare_priority_def contest_key_def lex_sign_Cons Let_def first_decisive_lex
        priority_fields_def trace_value_def)
qed

lemma contest_lex:
  "ranked config sources a \<Longrightarrow> ranked config sources b \<Longrightarrow>
     contest config sources a b = lex_sign (contest_key config sources a) (contest_key config sources b)"
  using compare_priority_lex by (fastforce simp: contest_def)

interpretation engine: contest_order "ranked config sources" "contest config sources"
  for config sources
  by unfold_locales (auto simp: contest_lex lex_sign_def split: if_splits)

lemma recency_Inr: "recency_micros v = Inr t \<longleftrightarrow> v = Aware t"
  using timedelta_of_value by (cases v) (auto simp: recency_micros_def Let_def)

lemma trace_recency: "trace_of config sources b = Inr t \<Longrightarrow> observed_at b = Aware (pt_recency_rank t)"
  by (auto simp: trace_of_def priority_trace_of_def splits_result recency_Inr Let_def
      split: option.splits)

lemma ranked_iff:
  "ranked config sources b \<longleftrightarrow>
     (\<exists>s. map_of sources (b_source_id b) = Some s
        \<and> map_of (cfg_integrity_rank config) (src_integrity s) \<noteq> None) \<and> tz_aware (observed_at b)"
  by (cases "observed_at b")
     (auto simp: ranked_trace trace_of_def source_of_def dict_item_def priority_trace_of_def
       splits_result recency_micros_def Let_def split: option.splits)

section \<open>Properties\<close>

text \<open>
  C19. Contests are decided by the lexicographic order of the keys, with positive evidence
  above admitted absence: swapping the two sides negates the result, victories never form a
  cycle, and a tie means the same five keys, in particular the same instant of observation to
  the microsecond.
\<close>

theorem contest_is_lexicographic:
  assumes "ranked config sources a" and "ranked config sources b"
  shows "(\<exists>c. compare_priority a b sources config = Inr c
            \<and> pc_result c = lex_sign (contest_key config sources a) (contest_key config sources b))
    \<and> contest config sources b a = - contest config sources a b
    \<and> (a, a) \<notin> {(x, y). ranked config sources x \<and> ranked config sources y
                        \<and> 0 < contest config sources x y}\<^sup>+
    \<and> (contest config sources a b = 0 \<longleftrightarrow>
         contest_key config sources a = contest_key config sources b)
    \<and> (contest config sources a b = 0 \<longrightarrow> observed_at a = observed_at b)"
proof (intro conjI)
  show "\<exists>c. compare_priority a b sources config = Inr c
    \<and> pc_result c = lex_sign (contest_key config sources a) (contest_key config sources b)"
    using assms by (rule compare_priority_lex)
  show "contest config sources b a = - contest config sources a b"
    using assms by (rule engine.swap)
  show "(a, a) \<notin> {(x, y). ranked config sources x \<and> ranked config sources y
                        \<and> 0 < contest config sources x y}\<^sup>+"
    using engine.beats_acyclic [of config sources] by (simp add: acyclic_def engine.beats_def)
  show eq: "contest config sources a b = 0 \<longleftrightarrow>
         contest_key config sources a = contest_key config sources b"
    using assms by (auto simp: contest_lex lex_sign_def)
  show "contest config sources a b = 0 \<longrightarrow> observed_at a = observed_at b"
  proof
    assume "contest config sources a b = 0"
    with eq have key: "contest_key config sources a = contest_key config sources b" by simp
    from assms obtain s t where st: "trace_of config sources a = Inr s" "trace_of config sources b = Inr t"
      by (auto simp: ranked_trace)
    with key have "pt_recency_rank s = pt_recency_rank t"
      by (simp add: contest_key_def trace_value_def)
    with st show "observed_at a = observed_at b" by (simp add: trace_recency)
  qed
qed

theorem contest_is_lexicographic_witness:
  "contest default_config [(''s1'', sample_source)] sample_belief
     (sample_belief\<lparr>observed_at := Aware 999\<rparr>) \<noteq> 0"
proof -
  have "ranked default_config [(''s1'', sample_source)] sample_belief"
    "ranked default_config [(''s1'', sample_source)] (sample_belief\<lparr>observed_at := Aware 999\<rparr>)"
    by (auto simp: ranked_iff sample_belief_def sample_source_def default_config_def)
  from contest_is_lexicographic [OF this] show ?thesis
    by (auto simp: sample_belief_def)
qed

text \<open>
  No amount of competence, specificity or recency overrides a difference in the integrity
  of the sources: of two positive beliefs the one whose source ranks higher wins.
\<close>

theorem integrity_dominates:
  assumes "compare_priority a b sources config = Inr c"
    and "b_pramana a \<noteq> ANUPALABDHI" and "b_pramana b \<noteq> ANUPALABDHI"
    and "map_of sources (b_source_id a) = Some s" and "map_of sources (b_source_id b) = Some t"
    and "map_of (cfg_integrity_rank config) (src_integrity s) = Some m"
    and "map_of (cfg_integrity_rank config) (src_integrity t) = Some n" and "n < m"
  shows "pc_result c = 1 \<and> decisive_field c = ''integrity'' \<and> fixed_rule c = None"
  using assms
  by (auto simp: compare_priority_def trace_of_def source_of_def dict_item_def priority_trace_of_def
      splits_result trace_value_def priority_fields_def Let_def)

theorem integrity_dominates_witness:
  "\<exists>c. compare_priority (sample_belief\<lparr>b_source_id := ''s2''\<rparr>) sample_belief
        [(''s1'', sample_source), (''s2'', sample_source\<lparr>src_integrity := TRUSTED\<rparr>)] default_config
      = Inr c \<and> pc_result c = 1"
proof -
  let ?a = "sample_belief\<lparr>b_source_id := ''s2''\<rparr>"
  let ?sources = "[(''s1'', sample_source), (''s2'', sample_source\<lparr>src_integrity := TRUSTED\<rparr>)]"
  have r: "ranked default_config ?sources ?a" "ranked default_config ?sources sample_belief"
    by (auto simp: ranked_iff sample_belief_def sample_source_def default_config_def)
  from compare_priority_lex [OF r] obtain c
    where c: "compare_priority ?a sample_belief ?sources default_config = Inr c" by blast
  have "pc_result c = 1 \<and> decisive_field c = ''integrity'' \<and> fixed_rule c = None"
    by (rule integrity_dominates [OF c, of "sample_source\<lparr>src_integrity := TRUSTED\<rparr>" sample_source 2 1])
       (auto simp: sample_belief_def sample_source_def default_config_def)
  with c show ?thesis by blast
qed

end
