(* ===== verification/Graph.thy ===== *)
theory Graph
  imports Models
begin

text \<open>
  The justification graph of \<open>engine/graph.py\<close> and \<open>engine/retractions.py\<close>: an edge runs from
  a premise to the belief a justification concludes. \<open>cycle_path\<close> is the depth-first search
  that guards a new justification, \<open>descendants\<close> the breadth-first search that collects
  everything resting on a belief. Both are shown equivalent to reachability in the edge
  relation, and the guard to keep the graph acyclic.
\<close>

section \<open>Searches\<close>

text \<open>\<open>dict[str, set[str]]\<close>: a set is kept as the list of its members without repetition.\<close>

type_synonym graph = "(string \<times> string list) list"

definition add_edge :: "string \<Rightarrow> string \<Rightarrow> graph \<Rightarrow> graph" where
  "add_edge p c g = AList.update p (List.insert c (dict_get g p [])) g"

definition adjacency :: "justification list \<Rightarrow> graph" where
  "adjacency js = fold (\<lambda>j g. fold (\<lambda>p g. add_edge p (j_belief_id j) g) (j_premises j) g) js []"

definition children :: "graph \<Rightarrow> string \<Rightarrow> string list" where
  "children g n = sorted_set (dict_get g n [])"

lemma children_outside: "n \<notin> set (map fst g) \<Longrightarrow> children g n = []"
proof -
  assume "n \<notin> set (map fst g)"
  then have "map_of g n = None" by (simp add: map_of_eq_None_iff image_iff)
  then show ?thesis by (simp add: children_def dict_get_def sorted_set_def)
qed

text \<open>
  \<open>_find_path\<close>: the stack holds a node with the path that led to it, its top at the head of
  the list. Children are pushed in reverse order, so the smallest is explored first.
\<close>

function find_path_from ::
  "graph \<Rightarrow> string \<Rightarrow> (string \<times> string list) list \<Rightarrow> string set \<Rightarrow> string list option" where
  "find_path_from g goal [] visited = None"
| "find_path_from g goal ((node, path) # stack) visited =
     (if node = goal then Some path
      else if node \<in> visited then find_path_from g goal stack visited
      else find_path_from g goal
             (map (\<lambda>c. (c, path @ [c])) (children g node) @ stack) (insert node visited))"
  by pat_completeness auto
termination
proof (relation "inv_image (finite_psubset <*lex*> less_than)
    (\<lambda>(g, goal, stack, visited). (set (map fst g) - visited, length stack))", goal_cases)
  case (3 g goal node path stack visited)
  then show ?case
    by (cases "node \<in> set (map fst g)") (auto simp: finite_psubset_def children_outside)
qed auto

definition find_path :: "graph \<Rightarrow> string \<Rightarrow> string \<Rightarrow> string list option" where
  "find_path g start goal = find_path_from g goal [(start, [start])] {}"

fun cycle_path_in :: "graph \<Rightarrow> string \<Rightarrow> string list \<Rightarrow> string list option" where
  "cycle_path_in g conclusion [] = None"
| "cycle_path_in g conclusion (premise # rest) =
     (if premise = conclusion then Some [conclusion, conclusion]
      else case find_path g conclusion premise of
             Some path \<Rightarrow> if path \<noteq> [] then Some (path @ [conclusion])
                          else cycle_path_in g conclusion rest
           | None \<Rightarrow> cycle_path_in g conclusion rest)"

definition cycle_path :: "justification list \<Rightarrow> string \<Rightarrow> string list \<Rightarrow> string list option" where
  "cycle_path js conclusion prems = cycle_path_in (adjacency js) conclusion prems"

function descend :: "graph \<Rightarrow> string list \<Rightarrow> string set \<Rightarrow> string set" where
  "descend g [] seen = seen"
| "descend g (item # queue) seen =
     (if item \<in> seen then descend g queue seen
      else descend g (queue @ children g item) (insert item seen))"
  by pat_completeness auto
termination
proof (relation "inv_image (finite_psubset <*lex*> less_than)
    (\<lambda>(g, queue, seen). (set (map fst g) - seen, length queue))", goal_cases)
  case (3 g item queue seen)
  then show ?case
    by (cases "item \<in> set (map fst g)") (auto simp: finite_psubset_def children_outside)
qed auto

definition descendants :: "justification list \<Rightarrow> string \<Rightarrow> string list" where
  "descendants js start =
     (let g = adjacency js in sorted_list_of_set (descend g (children g start) {}))"

definition affected_subgraph :: "justification list \<Rightarrow> string \<Rightarrow> string list" where
  "affected_subgraph js defeated_root = descendants js defeated_root"

definition notice_expired :: "int \<Rightarrow> int \<Rightarrow> int \<Rightarrow> bool" where
  "notice_expired created_turn ttl_turns turn = (turn - created_turn \<ge> ttl_turns)"

section \<open>The edge relation\<close>

definition edges :: "justification list \<Rightarrow> (string \<times> string) set" where
  "edges js = {(p, j_belief_id j) | p j. j \<in> set js \<and> p \<in> set (j_premises j)}"

definition graph_edges :: "graph \<Rightarrow> (string \<times> string) set" where
  "graph_edges g = {(p, c). c \<in> set (dict_get g p [])}"

lemma children_edges [simp]: "c \<in> set (children g n) \<longleftrightarrow> (n, c) \<in> graph_edges g"
  by (simp add: children_def graph_edges_def)

lemma add_edge_edges [simp]: "graph_edges (add_edge p c g) = insert (p, c) (graph_edges g)"
  by (auto simp: graph_edges_def add_edge_def dict_get_def split: option.splits if_splits)

lemma fold_add_edge [simp]:
  "graph_edges (fold (\<lambda>p g. add_edge p c g) ps g) = (\<lambda>p. (p, c)) ` set ps \<union> graph_edges g"
  by (induction ps arbitrary: g) auto

lemma adjacency_edges [simp]: "graph_edges (adjacency js) = edges js"
proof -
  have "graph_edges (fold (\<lambda>j g. fold (\<lambda>p g. add_edge p (j_belief_id j) g) (j_premises j) g) js g)
      = edges js \<union> graph_edges g" for g
    by (induction js arbitrary: g) (auto simp: edges_def)
  then show ?thesis
    by (simp add: adjacency_def graph_edges_def dict_get_def)
qed

lemma edges_Cons:
  "edges (j # js) = (\<lambda>p. (p, j_belief_id j)) ` set (j_premises j) \<union> edges js"
  by (auto simp: edges_def)

lemma closed_rtrancl:
  assumes "(a, b) \<in> E\<^sup>*" and "a \<in> V" and "\<And>x y. x \<in> V \<Longrightarrow> (x, y) \<in> E \<Longrightarrow> y \<in> V"
  shows "b \<in> V"
  using assms by (induction rule: rtrancl_induct) auto

section \<open>Depth-first search\<close>

text \<open>A path along edges, as the search records it.\<close>

definition walk :: "(string \<times> string) set \<Rightarrow> string list \<Rightarrow> bool" where
  "walk E path = (path \<noteq> [] \<and> successively (\<lambda>a b. (a, b) \<in> E) path)"

lemma walk_snoc: "walk E path \<Longrightarrow> (last path, c) \<in> E \<Longrightarrow> walk E (path @ [c])"
  by (simp add: walk_def successively_append_iff)

lemma walk_rtrancl: "walk E path \<Longrightarrow> (hd path, last path) \<in> E\<^sup>*"
proof (induction path rule: rev_induct)
  case (snoc c path)
  then show ?case
    by (cases "path = []") (auto simp: walk_def successively_append_iff intro: rtrancl_into_rtrancl)
qed (simp add: walk_def)

lemma find_path_from_sound:
  assumes "find_path_from g goal stack visited = Some path"
    and "\<forall>(n, p) \<in> set stack. walk (graph_edges g) p \<and> hd p = start \<and> last p = n"
  shows "walk (graph_edges g) path \<and> hd path = start \<and> last path = goal"
  using assms
proof (induction g goal stack visited rule: find_path_from.induct)
  case (2 g goal node p stack visited)
  show ?case
  proof (cases "node = goal \<or> node \<in> visited")
    case True
    with 2 show ?thesis by (auto split: if_splits)
  next
    case False
    from "2.prems"(2) have "walk (graph_edges g) p" "hd p = start" "last p = node" by auto
    then have "\<forall>(n, q) \<in> set (map (\<lambda>c. (c, p @ [c])) (children g node) @ stack).
        walk (graph_edges g) q \<and> hd q = start \<and> last q = n"
      using "2.prems"(2) by (auto simp: walk_snoc) (simp add: walk_def)
    with False 2 show ?thesis by simp
  qed
qed simp

lemma find_path_from_complete:
  assumes "find_path_from g goal stack visited = None"
    and "\<And>n m. n \<in> visited \<Longrightarrow> (n, m) \<in> graph_edges g \<Longrightarrow> m \<in> visited \<union> fst ` set stack"
    and "goal \<notin> visited"
  shows "\<exists>V. visited \<union> fst ` set stack \<subseteq> V \<and> goal \<notin> V \<and>
             (\<forall>n m. n \<in> V \<longrightarrow> (n, m) \<in> graph_edges g \<longrightarrow> m \<in> V)"
  using assms
proof (induction g goal stack visited rule: find_path_from.induct)
  case (1 g goal visited)
  then show ?case by (intro exI [of _ visited]) auto
next
  case (2 g goal node p stack visited)
  let ?stack = "map (\<lambda>c. (c, p @ [c])) (children g node) @ stack"
  from "2.prems"(1) have node: "node \<noteq> goal" by auto
  show ?case
  proof (cases "node \<in> visited")
    case True
    have "\<exists>V. visited \<union> fst ` set stack \<subseteq> V \<and> goal \<notin> V \<and>
             (\<forall>n m. n \<in> V \<longrightarrow> (n, m) \<in> graph_edges g \<longrightarrow> m \<in> V)"
    proof (rule "2.IH"(1) [OF node True])
      show "find_path_from g goal stack visited = None"
        using "2.prems"(1) node True by simp
      show "m \<in> visited \<union> fst ` set stack" if "n \<in> visited" "(n, m) \<in> graph_edges g" for n m
        using "2.prems"(2) [OF that] True by auto
    qed (rule "2.prems"(3))
    moreover have "visited \<union> fst ` set ((node, p) # stack) = visited \<union> fst ` set stack"
      using True by auto
    ultimately show ?thesis by simp
  next
    case False
    have "\<exists>V. insert node visited \<union> fst ` set ?stack \<subseteq> V \<and> goal \<notin> V \<and>
             (\<forall>n m. n \<in> V \<longrightarrow> (n, m) \<in> graph_edges g \<longrightarrow> m \<in> V)"
    proof (rule "2.IH"(2) [OF node False])
      show "find_path_from g goal ?stack (insert node visited) = None"
        using "2.prems"(1) node False by simp
      show "m \<in> insert node visited \<union> fst ` set ?stack"
        if "n \<in> insert node visited" "(n, m) \<in> graph_edges g" for n m
      proof (cases "n = node")
        case True
        with that(2) have "(m, p @ [m]) \<in> set ?stack" by auto
        then have "m \<in> fst ` set ?stack" by (metis fst_conv image_eqI)
        then show ?thesis by (rule UnI2)
      next
        case False
        with that "2.prems"(2) [of n m] show ?thesis by auto
      qed
      show "goal \<notin> insert node visited" using "2.prems"(3) node by simp
    qed
    then obtain V where V: "insert node visited \<union> fst ` set ?stack \<subseteq> V" "goal \<notin> V"
        "\<forall>n m. n \<in> V \<longrightarrow> (n, m) \<in> graph_edges g \<longrightarrow> m \<in> V"
      by (elim exE conjE)
    from V(1) have "visited \<union> fst ` set ((node, p) # stack) \<subseteq> V" by auto
    with V(2,3) show ?thesis by (intro exI [of _ V] conjI)
  qed
qed

text \<open>The search finds the goal exactly when it can be reached.\<close>

lemma find_path_iff: "find_path g start goal \<noteq> None \<longleftrightarrow> (start, goal) \<in> (graph_edges g)\<^sup>*"
proof
  assume "find_path g start goal \<noteq> None"
  then obtain path where "find_path_from g goal [(start, [start])] {} = Some path"
    by (auto simp: find_path_def)
  from find_path_from_sound [OF this, of start] walk_rtrancl [of "graph_edges g" path]
  show "(start, goal) \<in> (graph_edges g)\<^sup>*" by (auto simp: walk_def)
next
  assume reach: "(start, goal) \<in> (graph_edges g)\<^sup>*"
  show "find_path g start goal \<noteq> None"
  proof
    assume "find_path g start goal = None"
    then obtain V where "start \<in> V" "goal \<notin> V"
      and "\<And>n m. n \<in> V \<Longrightarrow> (n, m) \<in> graph_edges g \<Longrightarrow> m \<in> V"
      using find_path_from_complete [of g goal "[(start, [start])]" "{}"]
      by (auto simp: find_path_def)
    with closed_rtrancl [OF reach, of V] show False by blast
  qed
qed

lemma find_path_walk:
  assumes "find_path g start goal = Some path"
  shows "walk (graph_edges g) path \<and> hd path = start \<and> last path = goal"
  using find_path_from_sound [of g goal "[(start, [start])]" "{}" path start] assms
  by (auto simp: find_path_def walk_def)

lemma find_path_cases:
  obtains "find_path g start goal = None" and "(start, goal) \<notin> (graph_edges g)\<^sup>*"
  | path where "find_path g start goal = Some path" and "walk (graph_edges g) path"
      and "hd path = start" and "last path = goal" and "path \<noteq> []"
      and "(start, goal) \<in> (graph_edges g)\<^sup>*"
proof (cases "find_path g start goal")
  case None
  with that(1) find_path_iff [of g start goal] show ?thesis by auto
next
  case (Some path)
  with that(2) find_path_walk [OF Some] find_path_iff [of g start goal] show ?thesis
    by (auto simp: walk_def)
qed

section \<open>The guard of a new justification\<close>

lemma cycle_path_in_iff:
  "cycle_path_in g c ps \<noteq> None \<longleftrightarrow> (\<exists>p \<in> set ps. (c, p) \<in> (graph_edges g)\<^sup>*)"
proof (induction ps)
  case (Cons p ps)
  show ?case
    by (cases rule: find_path_cases [of g c p]) (use Cons in auto)
qed simp

lemma cycle_path_iff:
  "cycle_path js c ps \<noteq> None \<longleftrightarrow> (\<exists>p \<in> set ps. (c, p) \<in> (edges js)\<^sup>*)"
  unfolding cycle_path_def using cycle_path_in_iff [of "adjacency js" c ps] by simp

lemma cycle_path_in_walk:
  assumes "cycle_path_in g c ps = Some path"
  shows "walk (graph_edges g \<union> (\<lambda>p. (p, c)) ` set ps) path \<and> hd path = c \<and> last path = c
         \<and> 2 \<le> length path"
  using assms
proof (induction ps)
  case (Cons p ps)
  let ?E = "graph_edges g \<union> (\<lambda>p. (p, c)) ` set (p # ps)"
  have mono: "walk ?E q" if "walk (graph_edges g \<union> (\<lambda>p. (p, c)) ` set ps) q" for q
    using that by (auto simp: walk_def elim!: successively_mono)
  show ?case
  proof (cases "p = c")
    case True
    with Cons.prems have "path = [c, c]" by simp
    with True show ?thesis by (simp add: walk_def)
  next
    case False
    show ?thesis
    proof (cases rule: find_path_cases [of g c p])
      case 1
      with False Cons mono show ?thesis by auto
    next
      case (2 q)
      from 2(2) have "walk ?E q" by (auto simp: walk_def elim!: successively_mono)
      then have "walk ?E (q @ [c])" using 2(4) by (intro walk_snoc) auto
      with 2 False Cons.prems show ?thesis
        by (cases q) auto
    qed
  qed
qed simp

lemma acyclic_insert_targets:
  "acyclic (E \<union> (\<lambda>p. (p, c)) ` set ps) \<longleftrightarrow> acyclic E \<and> (\<forall>p \<in> set ps. (c, p) \<notin> E\<^sup>*)"
proof (induction ps)
  case (Cons p ps)
  let ?F = "E \<union> (\<lambda>p. (p, c)) ` set ps"
  have eq: "E \<union> (\<lambda>p. (p, c)) ` set (p # ps) = insert (p, c) ?F" by auto
  have reach: "(c, p) \<in> ?F\<^sup>* \<longleftrightarrow> (c, p) \<in> E\<^sup>*" if ac: "acyclic ?F"
  proof
    assume "(c, p) \<in> ?F\<^sup>*"
    then show "(c, p) \<in> E\<^sup>*"
    proof (induction rule: rtrancl_induct)
      case (step y z)
      show ?case
      proof (cases "(y, z) \<in> E")
        case True
        with step show ?thesis by auto
      next
        case False
        with step have "z = c" by auto
        with step.hyps have "(c, c) \<in> ?F\<^sup>+" by (metis rtrancl_into_trancl1)
        with ac show ?thesis by (auto simp: acyclic_def)
      qed
    qed auto
  next
    assume "(c, p) \<in> E\<^sup>*"
    then show "(c, p) \<in> ?F\<^sup>*" by (metis in_rtrancl_UnI)
  qed
  show ?case
    unfolding eq acyclic_insert using Cons.IH reach by auto
qed simp

lemma cycle_path_acyclic:
  "acyclic (edges (j # js)) \<longleftrightarrow>
     acyclic (edges js) \<and> cycle_path js (j_belief_id j) (j_premises j) = None"
proof -
  have "edges (j # js) = edges js \<union> (\<lambda>p. (p, j_belief_id j)) ` set (j_premises j)"
    by (simp add: edges_Cons Un_commute)
  then show ?thesis
    using cycle_path_iff [of js "j_belief_id j" "j_premises j"]
    by (auto simp: acyclic_insert_targets)
qed

section \<open>Descendants\<close>

lemma reach_closed:
  assumes "s \<in> seen" and "\<And>n m. n \<in> seen \<Longrightarrow> (n, m) \<in> E \<Longrightarrow> m \<in> seen \<union> Q"
  shows "E\<^sup>* `` {s} \<subseteq> seen \<union> E\<^sup>* `` Q"
proof clarify
  fix x
  assume "(s, x) \<in> E\<^sup>*" and "\<not> x \<in> E\<^sup>* `` Q"
  then show "x \<in> seen"
    by (induction rule: rtrancl_induct) (use assms in \<open>auto intro: rtrancl_into_rtrancl\<close>)
qed

lemma reach_children:
  "(graph_edges g)\<^sup>* `` {n} = insert n ((graph_edges g)\<^sup>* `` set (children g n))"
  by (auto simp: Image_iff intro: converse_rtrancl_into_rtrancl) (metis children_edges converse_rtranclE)

lemma descend_set:
  assumes "\<And>n m. n \<in> seen \<Longrightarrow> (n, m) \<in> graph_edges g \<Longrightarrow> m \<in> seen \<union> set queue"
  shows "descend g queue seen = seen \<union> (graph_edges g)\<^sup>* `` set queue"
  using assms
proof (induction g queue seen rule: descend.induct)
  case (2 g item queue seen)
  show ?case
  proof (cases "item \<in> seen")
    case True
    have seen: "m \<in> seen \<union> set queue" if "n \<in> seen" and "(n, m) \<in> graph_edges g" for n m
      using "2.prems" [OF that] True by auto
    have "descend g queue seen = seen \<union> (graph_edges g)\<^sup>* `` set queue" by (rule "2.IH"(1) [OF True seen])
    moreover have "(graph_edges g)\<^sup>* `` {item} \<subseteq> seen \<union> (graph_edges g)\<^sup>* `` set queue" by (rule reach_closed [OF True seen])
    ultimately show ?thesis using True by auto
  next
    case False
    have "descend g (queue @ children g item) (insert item seen)
        = insert item seen \<union> (graph_edges g)\<^sup>* `` set (queue @ children g item)"
      using "2.prems" False by (intro "2.IH"(2)) auto
    with False reach_children [of g item] show ?thesis by auto
  qed
qed simp

lemma finite_edges: "finite (edges js)"
proof -
  have "edges js = (\<Union>j \<in> set js. (\<lambda>p. (p, j_belief_id j)) ` set (j_premises j))"
    by (auto simp: edges_def)
  then show ?thesis by simp
qed

lemma descendants_set: "set (descendants js start) = (edges js)\<^sup>+ `` {start}"
proof -
  have "descend (adjacency js) (children (adjacency js) start) {}
      = (edges js)\<^sup>* `` set (children (adjacency js) start)"
    by (subst descend_set) auto
  also have "\<dots> = (edges js)\<^sup>+ `` {start}"
    by (auto simp: trancl_unfold_left)
  finally have eq: "descend (adjacency js) (children (adjacency js) start) {}
      = (edges js)\<^sup>+ `` {start}" .
  have "finite ((edges js)\<^sup>+ `` {start})"
    by (simp add: finite_edges finite_Image)
  then show ?thesis
    by (simp add: descendants_def Let_def eq)
qed

section \<open>Properties\<close>

text \<open>
  C21. The guard of a new justification is exact: it reports no cycle precisely when adding the
  justification keeps an acyclic graph acyclic, and what it reports is a closed walk along
  edges of the extended graph, from the conclusion back to it.
\<close>

theorem cycle_guard_exact:
  assumes "acyclic (edges js)"
  shows "(cycle_path js (j_belief_id j) (j_premises j) = None \<longleftrightarrow> acyclic (edges (j # js)))
    \<and> (\<forall>path. cycle_path js (j_belief_id j) (j_premises j) = Some path \<longrightarrow>
         walk (edges (j # js)) path \<and> hd path = j_belief_id j \<and> last path = j_belief_id j
         \<and> 2 \<le> length path)"
proof (intro conjI allI impI)
  show "cycle_path js (j_belief_id j) (j_premises j) = None \<longleftrightarrow> acyclic (edges (j # js))"
    using assms by (simp add: cycle_path_acyclic)
next
  fix path
  assume "cycle_path js (j_belief_id j) (j_premises j) = Some path"
  then have "cycle_path_in (adjacency js) (j_belief_id j) (j_premises j) = Some path"
    by (simp add: cycle_path_def)
  from cycle_path_in_walk [OF this]
  have w: "walk (edges js \<union> (\<lambda>p. (p, j_belief_id j)) ` set (j_premises j)) path \<and> hd path = j_belief_id j
      \<and> last path = j_belief_id j \<and> 2 \<le> length path"
    by simp
  have eq: "edges js \<union> (\<lambda>p. (p, j_belief_id j)) ` set (j_premises j) = edges (j # js)"
    by (simp add: edges_Cons Un_commute)
  from w show "walk (edges (j # js)) path" "hd path = j_belief_id j" "last path = j_belief_id j"
    "2 \<le> length path"
    unfolding eq by blast+
qed

definition chain_step :: "string \<Rightarrow> string list \<Rightarrow> string \<Rightarrow> justification" where
  "chain_step i ps c = \<lparr>j_id = i, j_belief_id = c, j_premises = ps, warrant = ''because'',
     audit = None, alternatives = []\<rparr>"

theorem cycle_guard_exact_witness:
  "cycle_path [chain_step ''j1'' [''a''] ''b''] ''a'' [''b''] = Some [''a'', ''b'', ''a'']
   \<and> \<not> acyclic (edges [chain_step ''j2'' [''b''] ''a'', chain_step ''j1'' [''a''] ''b''])"
proof
  show c: "cycle_path [chain_step ''j1'' [''a''] ''b''] ''a'' [''b''] = Some [''a'', ''b'', ''a'']"
    by code_simp
  have "acyclic (edges [chain_step ''j1'' [''a''] ''b''])"
    by (rule cycle_path_acyclic [THEN iffD2], rule conjI, simp add: edges_def acyclic_def, code_simp)
  from cycle_guard_exact [OF this, of "chain_step ''j2'' [''b''] ''a''"] c
  show "\<not> acyclic (edges [chain_step ''j2'' [''b''] ''a'', chain_step ''j1'' [''a''] ''b''])"
    by (simp add: chain_step_def)
qed

text \<open>
  What a retraction notifies is exact: the affected subgraph of a defeated belief lists,
  in order and once each, the beliefs a chain of justifications connects to it, and no other.
\<close>

theorem affected_subgraph_exact:
  "set (affected_subgraph js defeated_root) = {b. (defeated_root, b) \<in> (edges js)\<^sup>+}
   \<and> sorted (affected_subgraph js defeated_root) \<and> distinct (affected_subgraph js defeated_root)"
  using descendants_set [of js defeated_root]
  by (auto simp: affected_subgraph_def descendants_def Let_def)

end
