(* ===== verification/Cycles.thy ===== *)
theory Cycles
  imports Graph
begin

text \<open>
  \<open>_defeat_cycle_nodes\<close> of \<open>engine/defeat.py\<close>: Kosaraju's two passes over the defeat graph,
  with the explicit stacks of the code. The first pass lists the nodes in the order their
  search finishes; the second walks the reversed graph from the latest to the earliest. The
  result is shown to be exactly the nodes that lie on a cycle of defeats.
\<close>

section \<open>The defeat graph\<close>

text \<open>
  A rebuttal points at the belief it attacks, an undercut at the owner of the justification or
  support it attacks; an undercut of an unknown target is left out.
\<close>

fun add_defeat_edge :: "(string \<Rightarrow> string option) \<Rightarrow> defeat_edge \<Rightarrow> graph \<Rightarrow> graph" where
  "add_defeat_edge owners e g =
     (if d_kind e = REBUT then add_edge (attacker e) (target e) g
      else case owners (target e) of
             Some owner \<Rightarrow> add_edge (attacker e) owner g
           | None \<Rightarrow> g)"

definition defeat_graph :: "defeat_edge list \<Rightarrow> (string \<Rightarrow> string option) \<Rightarrow> graph" where
  "defeat_graph defeats owners = fold (add_defeat_edge owners) defeats []"

definition graph_nodes :: "graph \<Rightarrow> string list" where
  "graph_nodes g = sorted_set (map fst g @ concat (map snd g))"

lemma graph_edges_mem: "(a, b) \<in> graph_edges g \<Longrightarrow> \<exists>cs. (a, cs) \<in> set g \<and> b \<in> set cs"
  by (cases "map_of g a") (auto simp: graph_edges_def dict_get_def dest: map_of_SomeD)

section \<open>The first pass\<close>

text \<open>The stack has its top at the head; children are pushed so that the smallest comes first.\<close>

function finish_from ::
  "graph \<Rightarrow> (string \<times> bool) list \<Rightarrow> string set \<Rightarrow> string list \<Rightarrow> string set \<times> string list" where
  "finish_from g [] visited order = (visited, order)"
| "finish_from g ((node, expanded) # stack) visited order =
     (if expanded then finish_from g stack visited (order @ [node])
      else if node \<in> visited then finish_from g stack visited order
      else let visited' = insert node visited
           in finish_from g
                (map (\<lambda>c. (c, False)) (filter (\<lambda>c. c \<notin> visited') (children g node))
                   @ (node, True) # stack) visited' order)"
  by pat_completeness auto
termination
proof (relation "inv_image (finite_psubset <*lex*> less_than)
    (\<lambda>(g, stack, visited, order). (set (map fst g) - visited,
       sum_list (map (\<lambda>x. if snd x then 1 else 2) stack)))", goal_cases)
  case (4 g node expanded stack visited order)
  then show ?case
    by (cases "node \<in> set (map fst g)") (auto simp: finite_psubset_def children_outside)
qed auto

fun finish_all :: "graph \<Rightarrow> string list \<Rightarrow> string set \<Rightarrow> string list \<Rightarrow> string list" where
  "finish_all g [] visited order = order"
| "finish_all g (r # roots) visited order =
     (if r \<in> visited then finish_all g roots visited order
      else let (visited', order') = finish_from g [(r, False)] visited order
           in finish_all g roots visited' order')"

section \<open>The second pass\<close>

definition reverse_graph :: "graph \<Rightarrow> graph" where
  "reverse_graph g = fold (\<lambda>(p, cs) r. fold (\<lambda>c r. add_edge c p r) cs r) g []"

function component_from ::
  "graph \<Rightarrow> string list \<Rightarrow> string set \<Rightarrow> string set \<Rightarrow> string set \<times> string set" where
  "component_from rg [] assigned component = (assigned, component)"
| "component_from rg (node # stack) assigned component =
     (let fresh = filter (\<lambda>p. p \<notin> assigned) (children rg node)
      in component_from rg (fresh @ stack) (assigned \<union> set fresh) (insert node component))"
  by pat_completeness auto
termination
proof (relation "inv_image (finite_psubset <*lex*> less_than)
    (\<lambda>(rg, stack, assigned, component). (set (concat (map snd rg)) - assigned, length stack))",
    goal_cases)
  case (2 rg node stack assigned component fresh)
  have child: "c \<in> set (concat (map snd rg))" if "c \<in> set (children rg node)" for c
    using that graph_edges_mem [of node c rg] by force
  show ?case
  proof (cases "fresh = []")
    case False
    then obtain c where "c \<in> set fresh" using hd_in_set by blast
    with 2 child [of c] have "c \<in> set (concat (map snd rg)) - assigned" "c \<in> assigned \<union> set fresh"
      by auto
    then have "set (concat (map snd rg)) - (assigned \<union> set fresh)
        \<subset> set (concat (map snd rg)) - assigned" by blast
    then show ?thesis by (simp add: finite_psubset_def)
  qed simp
qed auto

fun cycle_nodes_from :: "graph \<Rightarrow> graph \<Rightarrow> string list \<Rightarrow> string set \<Rightarrow> string set \<Rightarrow> string set" where
  "cycle_nodes_from g rg [] assigned acc = acc"
| "cycle_nodes_from g rg (r # roots) assigned acc =
     (if r \<in> assigned then cycle_nodes_from g rg roots assigned acc
      else let (assigned', component) = component_from rg [r] (insert r assigned) {}
           in cycle_nodes_from g rg roots assigned'
                (if 1 < card component \<or> r \<in> set (dict_get g r [])
                 then acc \<union> component else acc))"

definition graph_cycle_nodes :: "graph \<Rightarrow> string set" where
  "graph_cycle_nodes g =
     cycle_nodes_from g (reverse_graph g) (rev (finish_all g (graph_nodes g) {} [])) {} {}"

definition defeat_cycle_nodes :: "defeat_edge list \<Rightarrow> (string \<Rightarrow> string option) \<Rightarrow> string set" where
  "defeat_cycle_nodes defeats owners = graph_cycle_nodes (defeat_graph defeats owners)"

section \<open>Edges\<close>

definition defeat_edges :: "defeat_edge list \<Rightarrow> (string \<Rightarrow> string option) \<Rightarrow> (string \<times> string) set" where
  "defeat_edges defeats owners =
     {(attacker e, t) | e t. e \<in> set defeats
        \<and> (if d_kind e = REBUT then t = target e else owners (target e) = Some t)}"

lemma defeat_graph_edges: "graph_edges (defeat_graph defeats owners) = defeat_edges defeats owners"
proof -
  have "graph_edges (fold (add_defeat_edge owners) defeats g)
      = defeat_edges defeats owners \<union> graph_edges g" for g
    by (induction defeats arbitrary: g)
       (auto simp: defeat_edges_def split: option.splits if_splits)
  then show ?thesis by (simp add: defeat_graph_def graph_edges_def dict_get_def)
qed

lemma graph_edges_nodes:
  "(a, b) \<in> graph_edges g \<Longrightarrow> a \<in> set (graph_nodes g) \<and> b \<in> set (graph_nodes g)"
  using graph_edges_mem [of a b g] by (force simp: graph_nodes_def)

lemma fold_reverse_edges:
  "graph_edges (fold (\<lambda>c r. add_edge c p r) cs r) = (\<lambda>c. (c, p)) ` set cs \<union> graph_edges r"
  by (induction cs arbitrary: r) auto

lemma graph_edges_Cons:
  "p \<notin> fst ` set g \<Longrightarrow> graph_edges ((p, cs) # g) = (\<lambda>c. (p, c)) ` set cs \<union> graph_edges g"
  by (auto simp: graph_edges_def dict_get_def map_of_eq_None_iff[symmetric] split: option.splits if_splits)

lemma reverse_graph_edges:
  "distinct (map fst g) \<Longrightarrow> graph_edges (reverse_graph g) = (graph_edges g)\<inverse>"
proof -
  have "distinct (map fst g) \<Longrightarrow>
      graph_edges (fold (\<lambda>(p, cs) r. fold (\<lambda>c r. add_edge c p r) cs r) g r)
      = (graph_edges g)\<inverse> \<union> graph_edges r" for r
  proof (induction g arbitrary: r)
    case Nil
    then show ?case by (auto simp: graph_edges_def dict_get_def)
  next
    case (Cons x g)
    obtain p cs where x: "x = (p, cs)" by (cases x)
    with Cons show ?case
      by (auto simp: fold_reverse_edges graph_edges_Cons)
  qed
  then show "distinct (map fst g) \<Longrightarrow> ?thesis"
    by (simp add: reverse_graph_def graph_edges_def dict_get_def)
qed

lemma distinct_add_edge: "distinct (map fst g) \<Longrightarrow> distinct (map fst (add_edge a b g))"
  by (simp add: add_edge_def distinct_update)

lemma distinct_defeat_graph: "distinct (map fst (defeat_graph defeats owners))"
proof -
  have "distinct (map fst g) \<Longrightarrow> distinct (map fst (fold (add_defeat_edge owners) defeats g))" for g
    by (induction defeats arbitrary: g) (auto simp: distinct_add_edge split: option.splits)
  then show ?thesis by (simp add: defeat_graph_def)
qed

section \<open>The finishing order\<close>

text \<open>
  \<open>inside E P\<close> keeps the edges that leave a node of \<open>P\<close>. An order is good when, at each of its
  prefixes, a path that leaves the prefix through it can be walked back: what was still open
  when a node finished reaches that node.
\<close>

definition inside :: "('a \<times> 'a) set \<Rightarrow> 'a set \<Rightarrow> ('a \<times> 'a) set" where
  "inside E P = {(a, b) \<in> E. a \<in> P}"

definition exits_return :: "('a \<times> 'a) set \<Rightarrow> 'a set \<Rightarrow> bool" where
  "exits_return E P =
     (\<forall>v y. v \<in> P \<longrightarrow> y \<notin> P \<longrightarrow> (v, y) \<in> (inside E P)\<^sup>* \<longrightarrow> (y, v) \<in> E\<^sup>*)"

definition good_order :: "('a \<times> 'a) set \<Rightarrow> 'a list \<Rightarrow> bool" where
  "good_order E order = (distinct order \<and> (\<forall>xs ys. order = xs @ ys \<longrightarrow> exits_return E (set xs)))"

lemma good_order_snoc:
  assumes "good_order E order" and "r \<notin> set order" and "exits_return E (insert r (set order))"
  shows "good_order E (order @ [r])"
proof -
  have "exits_return E (set xs)" if "order @ [r] = xs @ ys" for xs ys
  proof (cases ys rule: rev_cases)
    case Nil
    with that assms(3) show ?thesis by auto
  next
    case (snoc ys' y)
    with that have "order = xs @ ys'" by simp
    with assms(1) show ?thesis by (simp add: good_order_def)
  qed
  with assms(1,2) show ?thesis by (simp add: good_order_def)
qed

lemma inside_step:
  "(v, y) \<in> (inside E (insert r P))\<^sup>* \<Longrightarrow> (v, y) \<in> (inside E P)\<^sup>* \<or> (v, r) \<in> (inside E P)\<^sup>*"
proof (induction rule: rtrancl_induct)
  case (step y z)
  then show ?case by (auto simp: inside_def intro: rtrancl_into_rtrancl)
qed auto

lemma inside_subset: "(v, y) \<in> (inside E P)\<^sup>* \<Longrightarrow> (v, y) \<in> E\<^sup>*"
  using rtrancl_mono [of "inside E P" E] by (auto simp: inside_def)

lemma inside_target:
  "(v, y) \<in> (inside E P)\<^sup>* \<Longrightarrow> v \<in> P \<Longrightarrow> y \<notin> P \<Longrightarrow> y \<in> E `` P"
  by (induction rule: rtrancl_induct) (auto simp: inside_def)

lemma first_exit:
  assumes "(v, r) \<in> E\<^sup>*" and "v \<in> P" and "r \<notin> P"
  shows "\<exists>y. y \<notin> P \<and> (v, y) \<in> (inside E P)\<^sup>* \<and> (y, r) \<in> E\<^sup>*"
proof -
  from assms(1) have "\<exists>y. (v, y) \<in> (inside E P)\<^sup>* \<and> (y, r) \<in> E\<^sup>* \<and> (y \<in> P \<longrightarrow> y = r)"
  proof (induction rule: rtrancl_induct)
    case (step y z)
    then obtain x where x: "(v, x) \<in> (inside E P)\<^sup>*" "(x, y) \<in> E\<^sup>*" "x \<in> P \<longrightarrow> x = y" by blast
    show ?case
    proof (cases "x \<in> P")
      case True
      with x step.hyps have "(v, z) \<in> (inside E P)\<^sup>*"
        by (auto simp: inside_def intro: rtrancl_into_rtrancl)
      then show ?thesis by blast
    next
      case False
      with x step.hyps show ?thesis by (meson rtrancl.rtrancl_into_rtrancl)
    qed
  qed auto
  with assms(3) show ?thesis by blast
qed

text \<open>The stack of the first pass: what lies above an expanded node is reachable from it.\<close>

fun stack_ok :: "('a \<times> 'a) set \<Rightarrow> 'a set \<Rightarrow> 'a set \<Rightarrow> ('a \<times> bool) list \<Rightarrow> bool" where
  "stack_ok E V upper [] = True"
| "stack_ok E V upper ((n, expanded) # stack) =
     ((expanded \<longrightarrow> (\<forall>m \<in> upper. (n, m) \<in> E\<^sup>*) \<and> E `` {n} \<subseteq> V \<union> upper \<and> (n, True) \<notin> set stack)
      \<and> stack_ok E V (insert n upper) stack)"

definition grays :: "('a \<times> bool) list \<Rightarrow> 'a set" where
  "grays stack = {n. (n, True) \<in> set stack}"

definition search_inv :: "('a \<times> 'a) set \<Rightarrow> ('a \<times> bool) list \<Rightarrow> 'a set \<Rightarrow> 'a list \<Rightarrow> bool" where
  "search_inv E stack V order =
     (V = set order \<union> grays stack \<and> grays stack \<inter> set order = {} \<and> stack_ok E V {} stack
      \<and> E `` set order \<subseteq> V \<and> good_order E order)"

lemma stack_ok_mono:
  assumes "stack_ok E V upper stack" and "V \<union> upper \<subseteq> V' \<union> upper'"
    and "\<And>m. m \<in> upper' \<Longrightarrow> \<exists>n \<in> upper. (n, m) \<in> E\<^sup>*"
  shows "stack_ok E V' upper' stack"
  using assms
proof (induction stack arbitrary: upper upper')
  case (Cons x stack)
  obtain n b where x: "x = (n, b)" by (cases x)
  have "stack_ok E V' (insert n upper') stack"
    using Cons.prems by (intro Cons.IH [of "insert n upper"]) (auto simp: x)
  moreover have "b \<longrightarrow> (\<forall>m \<in> upper'. (n, m) \<in> E\<^sup>*)"
    using Cons.prems(1,3) by (auto simp: x) (meson rtrancl_trans)
  ultimately show ?case using Cons.prems(1,2) by (auto simp: x)
qed simp

lemma stack_ok_reach: "stack_ok E V upper stack \<Longrightarrow> g \<in> grays stack \<Longrightarrow> m \<in> upper \<Longrightarrow> (g, m) \<in> E\<^sup>*"
  by (induction E V upper stack rule: stack_ok.induct) (auto simp: grays_def)

lemma stack_ok_unexpanded:
  "stack_ok E V upper (map (\<lambda>c. (c, False)) cs @ stack) = stack_ok E V (set cs \<union> upper) stack"
  by (induction cs arbitrary: upper) auto

lemma exits_return_finish:
  assumes "exits_return E P" and "r \<notin> P" and "E `` insert r P \<subseteq> insert r P \<union> G"
    and "\<And>g. g \<in> G \<Longrightarrow> (g, r) \<in> E\<^sup>*"
  shows "exits_return E (insert r P)"
  unfolding exits_return_def
proof (intro allI impI)
  fix v y
  assume v: "v \<in> insert r P" and y: "y \<notin> insert r P" and path: "(v, y) \<in> (inside E (insert r P))\<^sup>*"
  from inside_target [OF path v y] assms(3) y have yr: "(y, r) \<in> E\<^sup>*"
    using assms(4) by blast
  show "(y, v) \<in> E\<^sup>*"
  proof (cases "v = r")
    case True
    with yr show ?thesis by simp
  next
    case False
    with v have vP: "v \<in> P" by simp
    from inside_step [OF path] show ?thesis
    proof
      assume "(v, y) \<in> (inside E P)\<^sup>*"
      with assms(1) vP y show ?thesis by (simp add: exits_return_def)
    next
      assume "(v, r) \<in> (inside E P)\<^sup>*"
      with assms(1,2) vP have "(r, v) \<in> E\<^sup>*" by (simp add: exits_return_def)
      with yr show ?thesis by (rule rtrancl_trans)
    qed
  qed
qed

lemma search_inv_finish:
  assumes "search_inv E ((r, True) # stack) V order"
  shows "search_inv E stack V (order @ [r])"
proof -
  from assms have V: "V = set order \<union> grays ((r, True) # stack)" and r: "r \<notin> set order"
    and ok: "stack_ok E V {r} stack" and rs: "E `` {r} \<subseteq> V" "(r, True) \<notin> set stack"
    and dis: "grays stack \<inter> set order = {}" and succ: "E `` set order \<subseteq> V"
    and good: "good_order E order"
    by (auto simp: search_inv_def grays_def)
  have V': "V = insert r (set order) \<union> grays stack" using V by (auto simp: grays_def)
  have "exits_return E (set order)" using good by (auto simp: good_order_def)
  then have "exits_return E (insert r (set order))"
    using r V' succ rs(1) stack_ok_reach [OF ok]
    by (intro exits_return_finish [of E "set order" r "grays stack"]) auto
  with good r have "good_order E (order @ [r])" by (intro good_order_snoc)
  moreover have "stack_ok E V {} stack"
    using V' by (intro stack_ok_mono [OF ok]) auto
  ultimately show ?thesis
    using V' rs succ dis by (auto simp: search_inv_def grays_def)
qed

lemma search_inv_visit:
  assumes inv: "search_inv E ((n, False) # stack) V order" and n: "n \<notin> V"
    and cs: "set cs = E `` {n} - insert n V"
  shows "search_inv E (map (\<lambda>c. (c, False)) cs @ (n, True) # stack) (insert n V) order"
proof -
  from inv have "stack_ok E V {} ((n, False) # stack)" unfolding search_inv_def by blast
  then have ok: "stack_ok E V {n} stack" by simp
  have "stack_ok E (insert n V) (insert n (set cs)) stack"
    using cs by (intro stack_ok_mono [OF ok]) auto
  with inv n cs show ?thesis
    by (auto simp: search_inv_def grays_def stack_ok_unexpanded)
qed

lemma finish_from_inv:
  assumes "search_inv (graph_edges g) stack V order"
    and "finish_from g stack V order = (V', order')"
  shows "search_inv (graph_edges g) [] V' order' \<and> V \<union> fst ` set stack \<subseteq> V'"
  using assms
proof (induction g stack V order rule: finish_from.induct)
  case (1 g V order)
  then show ?case by auto
next
  case (2 g node expanded stack V order)
  let ?cs = "filter (\<lambda>c. c \<notin> insert node V) (children g node)"
  consider "expanded" | "\<not> expanded" "node \<in> V" | "\<not> expanded" "node \<notin> V" by blast
  then show ?case
  proof cases
    case 1
    moreover from 1 "2.prems"(1) have "node \<in> V" by (auto simp: search_inv_def grays_def)
    ultimately show ?thesis
      using "2.IH"(1) [OF 1 search_inv_finish] "2.prems" 1 by auto
  next
    case 2
    have "search_inv (graph_edges g) stack V order"
      using "2.prems"(1) 2 stack_ok_mono [of "graph_edges g" V "{node}" stack V "{}"]
      by (auto simp: search_inv_def grays_def)
    with "2.IH"(2) [OF 2] "2.prems"(2) 2 show ?thesis by auto
  next
    case 3
    have "search_inv (graph_edges g) (map (\<lambda>c. (c, False)) ?cs @ (node, True) # stack)
        (insert node V) order"
      using "2.prems"(1) 3 by (intro search_inv_visit) auto
    with "2.IH"(3) [OF 3 refl] "2.prems"(2) 3 show ?thesis by (auto simp: Let_def)
  qed
qed

lemma finish_all_inv:
  assumes "search_inv (graph_edges g) [] V order"
  shows "\<exists>V'. search_inv (graph_edges g) [] V' (finish_all g roots V order) \<and> V \<union> set roots \<subseteq> V'"
  using assms
proof (induction roots arbitrary: V order)
  case (Cons r roots)
  show ?case
  proof (cases "r \<in> V")
    case True
    with Cons.IH [OF Cons.prems] show ?thesis by auto
  next
    case False
    obtain V1 order1 where f: "finish_from g [(r, False)] V order = (V1, order1)" by fastforce
    have "search_inv (graph_edges g) [(r, False)] V order"
      using Cons.prems by (auto simp: search_inv_def grays_def)
    from finish_from_inv [OF this f] Cons.IH [of V1 order1] False f show ?thesis by auto
  qed
qed auto

lemma finish_order:
  "good_order (graph_edges g) (finish_all g (graph_nodes g) {} [])
   \<and> set (graph_nodes g) \<subseteq> set (finish_all g (graph_nodes g) {} [])"
proof -
  have "search_inv (graph_edges g) [] {} []"
    by (simp add: search_inv_def grays_def good_order_def exits_return_def)
  from finish_all_inv [OF this, of "graph_nodes g"] show ?thesis
    by (auto simp: search_inv_def grays_def)
qed

section \<open>The components\<close>

text \<open>The second pass collects what reaches the root and was not yet assigned.\<close>

lemma component_from_spec:
  assumes "graph_edges rg = E\<inverse>" and "E\<inverse> `` A \<subseteq> A" and "r \<notin> A"
    and "component_from rg stack assigned component = (assigned', component')"
    and "component \<union> set stack = assigned - A" and "A \<subseteq> assigned" and "r \<in> assigned"
    and "assigned - A \<subseteq> {v. (v, r) \<in> E\<^sup>*}" and "E\<inverse> `` component \<subseteq> assigned"
  shows "component' = {v. (v, r) \<in> E\<^sup>*} - A \<and> assigned' = A \<union> {v. (v, r) \<in> E\<^sup>*}"
  using assms(1,4-)
proof (induction rg stack assigned component rule: component_from.induct)
  case (1 rg assigned component)
  have comp: "assigned' = assigned" "component' = component" "component = assigned - A"
    using "1.prems" by auto
  have closed: "E\<inverse> `` assigned \<subseteq> assigned"
    using "1.prems" comp assms(2) by blast
  have "v \<in> assigned" if "(v, r) \<in> E\<^sup>*" for v
    using closed_rtrancl [of r v "E\<inverse>" assigned] that closed "1.prems"(5)
    by (simp add: rtrancl_converse) blast
  with comp "1.prems" show ?case by blast
next
  case (2 rg node stack assigned component)
  let ?fresh = "filter (\<lambda>p. p \<notin> assigned) (children rg node)"
  have fresh: "set ?fresh = E\<inverse> `` {node} - assigned"
    using "2.prems"(1) by auto
  have node: "(node, r) \<in> E\<^sup>*" "node \<in> assigned - A"
    using "2.prems"(3,6) by auto
  then have reach: "\<And>v. v \<in> set ?fresh \<Longrightarrow> (v, r) \<in> E\<^sup>*"
    unfolding fresh by (auto intro: converse_rtrancl_into_rtrancl)
  show ?case
  proof (rule "2.IH" [OF refl "2.prems"(1)])
    show "component_from rg (?fresh @ stack) (assigned \<union> set ?fresh) (insert node component)
        = (assigned', component')"
      using "2.prems"(2) by (simp add: Let_def)
    show "insert node component \<union> set (?fresh @ stack) = assigned \<union> set ?fresh - A"
      using "2.prems"(3,4) fresh by auto
    show "assigned \<union> set ?fresh - A \<subseteq> {v. (v, r) \<in> E\<^sup>*}"
      using "2.prems"(6) reach by auto
    show "E\<inverse> `` insert node component \<subseteq> assigned \<union> set ?fresh"
      using "2.prems"(7) fresh by blast
  qed (use "2.prems"(4,5) in auto)
qed

lemma rtrancl_source: "(a, b) \<in> E\<^sup>* \<Longrightarrow> a \<noteq> b \<Longrightarrow> a \<in> fst ` E"
  by (metis converse_rtranclE fst_conv image_eqI)

text \<open>At a root of the second pass, what reaches it and is unassigned is its component.\<close>

lemma root_component:
  assumes "good_order E (rev (pre @ r # rest))"
    and "fst ` E \<subseteq> set (pre @ r # rest)"
    and "A = {v. \<exists>p \<in> set pre. (v, p) \<in> E\<^sup>*}" and "(v, r) \<in> E\<^sup>*" and "v \<notin> A"
  shows "(r, v) \<in> E\<^sup>*"
proof (cases "v = r")
  case False
  let ?P = "set rest"
  from assms(4) False have "v \<in> fst ` E" by (rule rtrancl_source)
  with assms(2,3,5) False have v: "v \<in> ?P" by auto
  from assms(1) have ret: "exits_return E ?P" and r: "r \<notin> ?P"
    by (auto simp: good_order_def)
  from first_exit [OF assms(4) v r] obtain y where y: "y \<notin> ?P" "(v, y) \<in> (inside E ?P)\<^sup>*" "(y, r) \<in> E\<^sup>*"
    by blast
  from ret v y have returns: "(y, v) \<in> E\<^sup>*" by (simp add: exits_return_def)
  show ?thesis
  proof (cases "y = r")
    case True
    with returns show ?thesis by simp
  next
    case False
    with y(1) have "y \<in> set pre \<or> y \<notin> set (pre @ r # rest)" by auto
    then show ?thesis
    proof
      assume "y \<in> set pre"
      with assms(3,5) inside_subset [OF y(2)] show ?thesis by auto
    next
      assume "y \<notin> set (pre @ r # rest)"
      with assms(2) have "y \<notin> fst ` E" by blast
      with rtrancl_source [OF y(3) False] show ?thesis by blast
    qed
  qed
qed auto

text \<open>The nodes on a cycle, found root by root.\<close>

lemma cycle_component:
  assumes "finite E" and "r \<notin> A" and "E\<inverse> `` A \<subseteq> A"
    and comp: "\<And>v. (v, r) \<in> E\<^sup>* \<Longrightarrow> v \<notin> A \<Longrightarrow> (r, v) \<in> E\<^sup>*"
    and T: "T = {v. (v, r) \<in> E\<^sup>*} - A"
  shows "(if 1 < card T \<or> (r, r) \<in> E then T else {}) = {v \<in> T. (v, v) \<in> E\<^sup>+}"
proof -
  have rT: "r \<in> T" using assms(2) T by simp
  have "T \<subseteq> insert r (fst ` E)" using T rtrancl_source by fastforce
  then have fin: "finite T" using assms(1) by (meson finite.insertI finite_imageI finite_subset)
  have all: "(v, v) \<in> E\<^sup>+" if "1 < card T \<or> (r, r) \<in> E" and v: "v \<in> T" for v
  proof (cases "v = r \<and> (r, r) \<in> E")
    case True
    then show ?thesis by blast
  next
    case False
    have "\<exists>w \<in> T. w \<noteq> v"
    proof (cases "v = r")
      case True
      with False that(1) have "1 < card T" by simp
      then have "T \<noteq> {v}" by auto
      with v show ?thesis by blast
    qed (use rT in auto)
    then obtain w where w: "w \<in> T" "w \<noteq> v" by blast
    have "(v, w) \<in> E\<^sup>*" "(w, v) \<in> E\<^sup>*"
      using v w comp T by (auto intro: rtrancl_trans)
    with w(2) show ?thesis by (metis rtranclD trancl_rtrancl_trancl)
  qed
  have none: "1 < card T \<or> (r, r) \<in> E" if "v \<in> T" and cyc: "(v, v) \<in> E\<^sup>+" for v
  proof (rule ccontr)
    assume neg: "\<not> (1 < card T \<or> (r, r) \<in> E)"
    then have "card T \<le> 1" by simp
    with rT fin have single: "T = {r}" by (metis card_le_Suc0_iff_eq One_nat_def singleton_iff subsetI subset_antisym empty_subsetI insert_subset)
    with that have "(r, r) \<in> E\<^sup>+" by simp
    then obtain x where x: "(r, x) \<in> E" "(x, r) \<in> E\<^sup>*" by (metis tranclD)
    have "x \<notin> A"
      using x(1) assms(2,3) by blast
    with x T single have "x = r" by blast
    with x(1) neg show False by simp
  qed
  show ?thesis using all none by auto
qed

lemma cycle_nodes_from_spec:
  assumes "good_order (graph_edges g) (rev (pre @ roots))"
    and "fst ` graph_edges g \<subseteq> set (pre @ roots)" and "finite (graph_edges g)"
    and "graph_edges rg = (graph_edges g)\<inverse>"
    and "assigned = {v. \<exists>p \<in> set pre. (v, p) \<in> (graph_edges g)\<^sup>*}"
    and "acc = {v \<in> assigned. (v, v) \<in> (graph_edges g)\<^sup>+}"
  shows "cycle_nodes_from g rg roots assigned acc
    = {v. (\<exists>p \<in> set (pre @ roots). (v, p) \<in> (graph_edges g)\<^sup>*) \<and> (v, v) \<in> (graph_edges g)\<^sup>+}"
  using assms(1,2,5,6)
proof (induction roots arbitrary: pre assigned acc)
  case Nil
  then show ?case by auto
next
  case (Cons r roots)
  let ?E = "graph_edges g"
  have step: "pre @ r # roots = (pre @ [r]) @ roots" by simp
  have closed: "?E\<inverse> `` assigned \<subseteq> assigned"
    unfolding Cons.prems(3) by (auto intro: converse_rtrancl_into_rtrancl)
  show ?case
  proof (cases "r \<in> assigned")
    case True
    then have "assigned = {v. \<exists>p \<in> set (pre @ [r]). (v, p) \<in> ?E\<^sup>*}"
      using Cons.prems(3) by (auto intro: rtrancl_trans)
    then have "cycle_nodes_from g rg roots assigned acc = {v. (\<exists>p \<in> set ((pre @ [r]) @ roots). (v, p) \<in> ?E\<^sup>*)
        \<and> (v, v) \<in> ?E\<^sup>+}"
      using Cons.IH [of "pre @ [r]" assigned acc] Cons.prems(1,2,4) unfolding step by blast
    with True show ?thesis by simp
  next
    case False
    obtain A' T where ct: "component_from rg [r] (insert r assigned) {} = (A', T)" by fastforce
    have T: "T = {v. (v, r) \<in> ?E\<^sup>*} - assigned" and A': "A' = assigned \<union> {v. (v, r) \<in> ?E\<^sup>*}"
      using component_from_spec [OF assms(4) closed False ct] False by auto
    have returns: "(r, v) \<in> ?E\<^sup>*" if "(v, r) \<in> ?E\<^sup>*" "v \<notin> assigned" for v
      using root_component [OF Cons.prems(1,2,3) that] .
    have "(if 1 < card T \<or> (r, r) \<in> ?E then T else {}) = {v \<in> T. (v, v) \<in> ?E\<^sup>+}"
      by (rule cycle_component [OF assms(3) False closed returns T])
    then have acc': "(if 1 < card T \<or> r \<in> set (dict_get g r []) then acc \<union> T else acc)
        = {v \<in> A'. (v, v) \<in> ?E\<^sup>+}"
      using Cons.prems(4) T A' by (simp add: graph_edges_def split: if_splits) blast+
    have "A' = {v. \<exists>p \<in> set (pre @ [r]). (v, p) \<in> ?E\<^sup>*}"
      using A' Cons.prems(3) by auto
    then have "cycle_nodes_from g rg roots A' {v \<in> A'. (v, v) \<in> ?E\<^sup>+}
        = {v. (\<exists>p \<in> set ((pre @ [r]) @ roots). (v, p) \<in> ?E\<^sup>*) \<and> (v, v) \<in> ?E\<^sup>+}"
      using Cons.IH [of "pre @ [r]" A'] Cons.prems(1,2) unfolding step by blast
    with False show ?thesis
      unfolding step by (simp only: cycle_nodes_from.simps if_False Let_def ct prod.case acc')
  qed
qed

lemma graph_cycle_nodes_iff:
  assumes "distinct (map fst g)"
  shows "graph_cycle_nodes g = {v. (v, v) \<in> (graph_edges g)\<^sup>+}"
proof -
  let ?order = "finish_all g (graph_nodes g) {} []"
  have good: "good_order (graph_edges g) (rev ([] @ rev ?order))"
    and nodes: "set (graph_nodes g) \<subseteq> set ?order"
    using finish_order [of g] by auto
  have sub: "graph_edges g \<subseteq> set (graph_nodes g) \<times> set (graph_nodes g)"
    using graph_edges_nodes [of _ _ g] by auto
  then have fin: "finite (graph_edges g)" by (rule finite_subset) simp
  have "graph_cycle_nodes g = {v. (\<exists>p \<in> set ([] @ rev ?order). (v, p) \<in> (graph_edges g)\<^sup>*)
      \<and> (v, v) \<in> (graph_edges g)\<^sup>+}"
    unfolding graph_cycle_nodes_def using sub nodes
    by (intro cycle_nodes_from_spec good fin reverse_graph_edges assms) auto
  moreover have "v \<in> set ?order" if "(v, v) \<in> (graph_edges g)\<^sup>+" for v
    using that sub nodes by (metis tranclD SigmaD1 subsetD)
  ultimately show ?thesis by auto
qed

section \<open>Properties\<close>

text \<open>
  C16. The two stack-driven passes return exactly the beliefs that lie on a cycle of defeats,
  self-defeat included: every belief of a cycle, and none outside.
\<close>

theorem defeat_cycle_nodes_exact:
  "defeat_cycle_nodes defeats owners = {v. (v, v) \<in> (defeat_edges defeats owners)\<^sup>+}"
  unfolding defeat_cycle_nodes_def
  by (simp add: graph_cycle_nodes_iff distinct_defeat_graph defeat_graph_edges)

end
