(* ===== verification/Defeat.thy ===== *)
theory Defeat
  imports Priority Cycles "HOL-Library.Product_Lexorder"
begin

text \<open>
  \<open>relabel\<close> of \<open>engine/defeat.py\<close>: the fixed-point iteration that labels every belief IN, OUT,
  PENDING or QUARANTINED from its admission, its support, its age and the defeats against it.
  One iteration is shown to implement a declarative rule that does not depend on the order of
  the edges; the theory \<open>Convergence\<close> builds on it.
\<close>

section \<open>The inputs of one call\<close>

text \<open>
  The local variables that \<open>relabel\<close> computes once and every iteration reads: the beliefs in the
  order of their ids, justifications, supports and defeats in the order of theirs, and the
  comparison of every rebuttal whose two beliefs are known.
\<close>

record relabel_env =
  env_beliefs :: "(string \<times> belief) list"
  env_justifications :: "justification list"
  env_supports :: "ingestion_support list"
  env_defeats :: "defeat_edge list"
  env_comparisons :: "(string \<times> priority_comparison) list"
  env_config :: engine_config
  env_now :: "datetime option"

type_synonym labelling = "(string \<times> status) list"

record relabel_result =
  rr_statuses :: labelling
  rr_active_edges :: "(string \<times> bool) list"
  rr_conflicts :: "(string \<times> string) list"
  rr_causes :: "(string \<times> string) list"
  rr_iterations :: nat
  rr_oscillation :: bool

definition env_rebuts :: "relabel_env \<Rightarrow> defeat_edge list" where
  "env_rebuts env = filter (\<lambda>e. d_kind e = REBUT) (env_defeats env)"

definition undercuts_of :: "relabel_env \<Rightarrow> string \<Rightarrow> defeat_edge list" where
  "undercuts_of env t = filter (\<lambda>e. d_kind e = UNDERCUT \<and> target e = t) (env_defeats env)"

definition justifications_of :: "relabel_env \<Rightarrow> string \<Rightarrow> justification list" where
  "justifications_of env b = filter (\<lambda>j. j_belief_id j = b) (env_justifications env)"

definition supports_of :: "relabel_env \<Rightarrow> string \<Rightarrow> ingestion_support list" where
  "supports_of env b = filter (\<lambda>s. is_belief_id s = b) (env_supports env)"

definition ordered_ids :: "relabel_env \<Rightarrow> string list" where
  "ordered_ids env = map fst (env_beliefs env)"

text \<open>\<open>dict\<close> of the supports' owners, overridden by that of the justifications' owners.\<close>

definition target_owners :: "relabel_env \<Rightarrow> string \<Rightarrow> string option" where
  "target_owners env =
     map_of (rev (map (\<lambda>s. (is_id s, is_belief_id s)) (env_supports env)
                  @ map (\<lambda>j. (j_id j, j_belief_id j)) (env_justifications env)))"

definition compare_rebuts ::
  "(string \<times> belief) list \<Rightarrow> (string \<times> source) list \<Rightarrow> engine_config \<Rightarrow> defeat_edge list
     \<Rightarrow> (string \<times> priority_comparison) list result" where
  "compare_rebuts beliefs sources config rebuts =
     fold_result (\<lambda>e comps.
       case (map_of beliefs (attacker e), map_of beliefs (target e)) of
         (Some a, Some t) \<Rightarrow>
           and_then (compare_priority a t sources config) (\<lambda>c. Inr (AList.update (d_id e) c comps))
       | _ \<Rightarrow> Inr comps) rebuts []"

section \<open>Support\<close>

definition basic_types :: "pramana list" where
  "basic_types = [PRATYAKSHA, SHABDA, ANUPALABDHI]"

definition has_active_undercut :: "relabel_env \<Rightarrow> labelling \<Rightarrow> string \<Rightarrow> bool" where
  "has_active_undercut env statuses t =
     list_ex (\<lambda>e. map_of statuses (attacker e) = Some IN) (undercuts_of env t)"

definition is_supported :: "relabel_env \<Rightarrow> labelling \<Rightarrow> belief \<Rightarrow> bool" where
  "is_supported env statuses b =
     (if b_pramana b \<in> set basic_types then
        list_ex (\<lambda>s. is_active s \<and> \<not> has_active_undercut env statuses (is_id s))
          (supports_of env (b_id b))
      else
        list_ex (\<lambda>j. list_all (\<lambda>p. map_of statuses p = Some IN) (j_premises j)
                     \<and> \<not> has_active_undercut env statuses (j_id j))
          (justifications_of env (b_id b)))"

definition candidate_status :: "belief \<Rightarrow> bool \<Rightarrow> status" where
  "candidate_status b supported =
     (if admission_status b = QUARANTINED then QUARANTINED
      else if admission_status b = OUT \<or> \<not> supported then OUT
      else if admission_status b = PENDING then PENDING
      else IN)"

definition is_stale :: "belief \<Rightarrow> engine_config \<Rightarrow> datetime \<Rightarrow> bool" where
  "is_stale b config now =
     (case map_of (perishability_ttl config) (b_perishability b) of
        None \<Rightarrow> False
      | Some TtlNone \<Rightarrow> False
      | Some TtlInvalid \<Rightarrow> True
      | Some (TtlSeconds seconds) \<Rightarrow>
          (case (observed_at b, now) of
             (Aware t, Aware n) \<Rightarrow> seconds < 0 \<or> n - t > seconds * 1000000
           | _ \<Rightarrow> True))"

definition undercut_cause :: "relabel_env \<Rightarrow> labelling \<Rightarrow> string list \<Rightarrow> string option" where
  "undercut_cause env statuses targets =
     (case concat (map (\<lambda>t. map (\<lambda>e. (attacker e, t))
                     (filter (\<lambda>e. map_of statuses (attacker e) = Some IN) (undercuts_of env t))) targets) of
        [] \<Rightarrow> None
      | (a, t) # _ \<Rightarrow> Some (''undercut:'' @ a @ '':'' @ t))"

definition support_loss_cause :: "relabel_env \<Rightarrow> labelling \<Rightarrow> belief \<Rightarrow> string" where
  "support_loss_cause env statuses b =
     (if b_pramana b \<in> set basic_types then
        (case undercut_cause env statuses (map is_id (supports_of env (b_id b))) of
           Some c \<Rightarrow> c
         | None \<Rightarrow> ''invalid_or_missing_ingestion_support'')
      else let fallen = sort (filter (\<lambda>p. map_of statuses p \<noteq> Some IN)
                          (concat (map j_premises (justifications_of env (b_id b)))))
        in if fallen \<noteq> [] then ''premise_out:'' @ join_with '','' fallen
           else case undercut_cause env statuses (map j_id (justifications_of env (b_id b))) of
                  Some c \<Rightarrow> c
                | None \<Rightarrow> ''no_live_justification'')"

section \<open>One iteration\<close>

record sweep =
  sw_next :: labelling
  sw_causes :: "(string \<times> string) list"
  sw_conflicts :: "(string \<times> string) list"

definition supported_ids :: "relabel_env \<Rightarrow> labelling \<Rightarrow> (string \<times> bool) list" where
  "supported_ids env current =
     map (\<lambda>(i, b). (i, is_supported env current b)) (env_beliefs env)"

definition candidate_labels :: "relabel_env \<Rightarrow> (string \<times> bool) list \<Rightarrow> labelling" where
  "candidate_labels env supported =
     map (\<lambda>(i, b). (i, candidate_status b (dict_get supported i False))) (env_beliefs env)"

fun age_belief :: "relabel_env \<Rightarrow> string \<times> belief \<Rightarrow> sweep \<Rightarrow> sweep" where
  "age_belief env (i, b) sw =
     (case env_now env of
        None \<Rightarrow> sw
      | Some now \<Rightarrow>
          if is_stale b (env_config env) now \<and> map_of (sw_next sw) i = Some IN
          then sw\<lparr>sw_next := AList.update i PENDING (sw_next sw),
                  sw_causes := AList.update i (''stale:'' @ perishability_value (b_perishability b))
                                 (sw_causes sw)\<rparr>
          else sw)"

definition ordered_pair :: "string \<Rightarrow> string \<Rightarrow> string \<times> string" where
  "ordered_pair a b = (if a \<le> b then (a, b) else (b, a))"

text \<open>The two beliefs of a rebuttal with its comparison, where all three are known.\<close>

definition rebut_contest ::
  "relabel_env \<Rightarrow> defeat_edge \<Rightarrow> (belief \<times> belief \<times> priority_comparison) option" where
  "rebut_contest env e =
     (case (map_of (env_beliefs env) (attacker e), map_of (env_beliefs env) (target e),
            map_of (env_comparisons env) (d_id e)) of
        (Some a, Some t, Some c) \<Rightarrow> Some (a, t, c)
      | _ \<Rightarrow> None)"

definition admitted :: "belief \<Rightarrow> bool" where
  "admitted b = (admission_status b \<noteq> OUT \<and> admission_status b \<noteq> QUARANTINED)"

definition tie_rebut :: "relabel_env \<Rightarrow> (string \<times> bool) list \<Rightarrow> defeat_edge \<Rightarrow> sweep \<Rightarrow> sweep" where
  "tie_rebut env supported e sw =
     (case rebut_contest env e of
        None \<Rightarrow> sw
      | Some (a, t, c) \<Rightarrow>
          if pc_result c = 0 \<and> dict_get supported (b_id a) False \<and> dict_get supported (b_id t) False
             \<and> admitted a \<and> admitted t
          then sw\<lparr>sw_conflicts := List.insert (ordered_pair (b_id a) (b_id t)) (sw_conflicts sw),
                  sw_next := AList.update (b_id t) PENDING (AList.update (b_id a) PENDING (sw_next sw)),
                  sw_causes := AList.update (b_id t) (''samsaya:'' @ b_id a)
                                 (AList.update (b_id a) (''samsaya:'' @ b_id t) (sw_causes sw))\<rparr>
          else sw)"

definition defeat_rebut ::
  "relabel_env \<Rightarrow> labelling \<Rightarrow> (string \<times> bool) list \<Rightarrow> defeat_edge \<Rightarrow> sweep \<Rightarrow> sweep" where
  "defeat_rebut env current supported e sw =
     (case rebut_contest env e of
        None \<Rightarrow> sw
      | Some (a, t, c) \<Rightarrow>
          if (b_id a, b_id t) \<in> set (sw_conflicts sw)
             \<or> ordered_pair (b_id a) (b_id t) \<in> set (sw_conflicts sw) then sw
          else if 0 < pc_result c \<and> map_of current (b_id a) = Some IN
                  \<and> dict_get supported (b_id t) False
          then sw\<lparr>sw_next := AList.update (b_id t) OUT (sw_next sw),
                  sw_causes := AList.update (b_id t)
                    (''rebut:'' @ b_id a @ '':'' @ decisive_field c) (sw_causes sw)\<rparr>
          else sw)"

fun record_cause ::
  "relabel_env \<Rightarrow> labelling \<Rightarrow> (string \<times> bool) list \<Rightarrow> labelling \<Rightarrow> string \<times> belief
     \<Rightarrow> (string \<times> string) list \<Rightarrow> (string \<times> string) list" where
  "record_cause env current supported next_status (i, b) causes =
     (if \<not> dict_get supported i False
      then AList.update i (support_loss_cause env current b) causes
      else if map_of next_status i = Some IN \<and> map_of current i = Some OUT
      then AList.update i ''reinstated:live_support_no_winning_attacker'' causes
      else causes)"

definition iterate_labels ::
  "relabel_env \<Rightarrow> labelling \<Rightarrow> (string \<times> string) list \<Rightarrow> sweep" where
  "iterate_labels env current causes =
     (let supported = supported_ids env current;
          start = \<lparr>sw_next = candidate_labels env supported, sw_causes = causes, sw_conflicts = []\<rparr>;
          aged = fold (age_belief env) (env_beliefs env) start;
          tied = fold (tie_rebut env supported) (env_rebuts env) aged;
          beaten = fold (defeat_rebut env current supported) (env_rebuts env) tied
      in beaten\<lparr>sw_causes := fold (record_cause env current supported (sw_next beaten))
                               (env_beliefs env) (sw_causes beaten)\<rparr>)"

section \<open>The loop\<close>

definition edge_active :: "relabel_env \<Rightarrow> labelling \<Rightarrow> defeat_edge \<Rightarrow> bool" where
  "edge_active env statuses e =
     (if d_kind e = UNDERCUT then map_of statuses (attacker e) = Some IN
      else case (map_of (env_beliefs env) (attacker e), map_of (env_beliefs env) (target e)) of
             (Some a, Some t) \<Rightarrow>
               map_of statuses (attacker e) = Some IN
               \<and> (case map_of (env_comparisons env) (d_id e) of
                    None \<Rightarrow> False | Some c \<Rightarrow> 0 < pc_result c)
           | _ \<Rightarrow> False)"

definition active_edges :: "relabel_env \<Rightarrow> labelling \<Rightarrow> (string \<times> bool) list" where
  "active_edges env statuses =
     fold (\<lambda>e active. AList.update (d_id e) (edge_active env statuses e) active) (env_defeats env) []"

definition make_result ::
  "relabel_env \<Rightarrow> labelling \<Rightarrow> (string \<times> string) list \<Rightarrow> (string \<times> string) list \<Rightarrow> nat \<Rightarrow> bool
     \<Rightarrow> relabel_result" where
  "make_result env statuses conflicts causes n osc =
     \<lparr>rr_statuses = statuses, rr_active_edges = active_edges env statuses,
      rr_conflicts = sorted_set conflicts, rr_causes = causes, rr_iterations = n,
      rr_oscillation = osc\<rparr>"

text \<open>On an oscillation, every supported belief on a cycle of defeats becomes PENDING.\<close>

definition suspend ::
  "(string \<times> bool) list \<Rightarrow> string set \<Rightarrow> string \<Rightarrow> string list
     \<Rightarrow> labelling \<times> (string \<times> string) list \<Rightarrow> labelling \<times> (string \<times> string) list" where
  "suspend supported involved cause ids = fold (\<lambda>i (statuses, causes).
     if i \<in> involved \<and> dict_get supported i False
     then (AList.update i PENDING statuses, AList.update i cause causes)
     else (statuses, causes)) ids"

definition cycle_members :: "relabel_env \<Rightarrow> string set" where
  "cycle_members env = defeat_cycle_nodes (env_defeats env) (target_owners env)"

fun drop_unsupported ::
  "relabel_env \<Rightarrow> (string \<times> bool) list \<Rightarrow> string \<times> belief
     \<Rightarrow> labelling \<times> (string \<times> string) list \<Rightarrow> labelling \<times> (string \<times> string) list" where
  "drop_unsupported env supported (i, b) (statuses, causes) =
     (if dict_get supported i False then (statuses, causes)
      else let statuses' = AList.update i (candidate_status b False) statuses
           in (statuses', AList.update i (support_loss_cause env statuses' b) causes))"

text \<open>After the last allowed iteration.\<close>

definition at_ceiling ::
  "relabel_env \<Rightarrow> labelling \<Rightarrow> (string \<times> string) list \<Rightarrow> (string \<times> string) list \<Rightarrow> relabel_result" where
  "at_ceiling env current causes conflicts =
     (let supported = supported_ids env current;
          dropped = fold (drop_unsupported env supported) (env_beliefs env) (current, causes);
          involved = (if cycle_members env = {} then set (ordered_ids env) else cycle_members env);
          suspended = suspend supported involved ''samsaya:iteration_ceiling'' (ordered_ids env) dropped
      in make_result env (fst suspended) conflicts (snd suspended)
           (max_relabel_iterations (env_config env)) True)"

text \<open>
  The \<open>for iteration in range(1, max_iterations + 1)\<close> loop: the first argument counts the
  iterations that are left.
\<close>

fun relabel_loop ::
  "relabel_env \<Rightarrow> nat \<Rightarrow> nat \<Rightarrow> labelling \<Rightarrow> status list set \<Rightarrow> (string \<times> string) list
     \<Rightarrow> (string \<times> string) list \<Rightarrow> relabel_result" where
  "relabel_loop env 0 n current seen causes conflicts = at_ceiling env current causes conflicts"
| "relabel_loop env (Suc left) n current seen causes conflicts =
     (let seen' = insert (map snd current) seen;
          supported = supported_ids env current;
          sw = iterate_labels env current causes
      in if map snd (sw_next sw) = map snd current
         then make_result env (sw_next sw) (sw_conflicts sw) (sw_causes sw) n False
         else if map snd (sw_next sw) \<in> seen'
         then let (statuses, causes') = suspend supported (cycle_members env) ''samsaya:defeat_cycle''
                    (ordered_ids env) (sw_next sw, sw_causes sw)
              in make_result env statuses (sw_conflicts sw) causes' n True
         else relabel_loop env left (Suc n) (sw_next sw) seen' (sw_causes sw) (sw_conflicts sw))"

definition initial_labels :: "relabel_env \<Rightarrow> labelling" where
  "initial_labels env = map (\<lambda>(i, b). (i, b_status b)) (env_beliefs env)"

definition prepare ::
  "(string \<times> belief) list \<Rightarrow> justification list \<Rightarrow> ingestion_support list \<Rightarrow> defeat_edge list
     \<Rightarrow> (string \<times> source) list \<Rightarrow> engine_config \<Rightarrow> datetime option \<Rightarrow> relabel_env result" where
  "prepare beliefs justs supports defeats sources config now =
     (let defeat_list = sort_key d_id defeats
      in and_then (compare_rebuts beliefs sources config
                     (filter (\<lambda>e. d_kind e = REBUT) defeat_list)) (\<lambda>comps.
         Inr \<lparr>env_beliefs = map (\<lambda>i. (i, the (map_of beliefs i))) (sorted_set (map fst beliefs)),
              env_justifications = sort_key j_id justs,
              env_supports = sort_key is_id supports,
              env_defeats = defeat_list, env_comparisons = comps, env_config = config,
              env_now = now\<rparr>))"

definition relabel ::
  "(string \<times> belief) list \<Rightarrow> justification list \<Rightarrow> ingestion_support list \<Rightarrow> defeat_edge list
     \<Rightarrow> (string \<times> source) list \<Rightarrow> engine_config \<Rightarrow> datetime option \<Rightarrow> relabel_result result" where
  "relabel beliefs justs supports defeats sources config now =
     and_then (prepare beliefs justs supports defeats sources config now) (\<lambda>env.
       Inr (relabel_loop env (max_relabel_iterations config) 1 (initial_labels env) {} [] []))"

end
