(* ===== verification/Convergence.thy ===== *)
theory Convergence
  imports Defeat
begin

text \<open>
  What \<open>relabel\<close> computes. \<open>label\<close> is the declarative rule of one belief under a labelling;
  one sweep of the code is shown to apply it to every belief at once (\<open>sweep_is_next\<close>). A
  converged run is a stable labelling; where the beliefs a rule reads form no cycle the loop
  converges, within one iteration more than there are beliefs, to the only stable labelling.
\<close>

section \<open>The rule\<close>

definition tied :: "relabel_env \<Rightarrow> labelling \<Rightarrow> defeat_edge \<Rightarrow> belief \<Rightarrow> belief \<Rightarrow> bool" where
  "tied env L e a t =
     (\<exists>c. rebut_contest env e = Some (a, t, c) \<and> pc_result c = 0
        \<and> is_supported env L a \<and> is_supported env L t \<and> admitted a \<and> admitted t)"

definition conflict_pairs :: "relabel_env \<Rightarrow> labelling \<Rightarrow> (string \<times> string) set" where
  "conflict_pairs env L =
     {ordered_pair (b_id a) (b_id t) | a t. \<exists>e \<in> set (env_rebuts env). tied env L e a t}"

definition in_conflict :: "relabel_env \<Rightarrow> labelling \<Rightarrow> string \<Rightarrow> bool" where
  "in_conflict env L i =
     (\<exists>e \<in> set (env_rebuts env). \<exists>a t. tied env L e a t \<and> (b_id a = i \<or> b_id t = i))"

definition beaten_on ::
  "relabel_env \<Rightarrow> labelling \<Rightarrow> (string \<times> string) set \<Rightarrow> defeat_edge \<Rightarrow> string \<Rightarrow> bool" where
  "beaten_on env L K e i =
     (\<exists>a t c. rebut_contest env e = Some (a, t, c) \<and> b_id t = i \<and> 0 < pc_result c
        \<and> map_of L (b_id a) = Some IN \<and> is_supported env L t
        \<and> (b_id a, b_id t) \<notin> K \<and> ordered_pair (b_id a) (b_id t) \<notin> K)"

definition beaten :: "relabel_env \<Rightarrow> labelling \<Rightarrow> string \<Rightarrow> bool" where
  "beaten env L i = (\<exists>e \<in> set (env_rebuts env). beaten_on env L (conflict_pairs env L) e i)"

definition stale_now :: "relabel_env \<Rightarrow> belief \<Rightarrow> bool" where
  "stale_now env b = (\<exists>now. env_now env = Some now \<and> is_stale b (env_config env) now)"

definition label :: "relabel_env \<Rightarrow> labelling \<Rightarrow> belief \<Rightarrow> status" where
  "label env L b =
     (if beaten env L (b_id b) then OUT
      else if in_conflict env L (b_id b) then PENDING
      else if stale_now env b \<and> candidate_status b (is_supported env L b) = IN then PENDING
      else candidate_status b (is_supported env L b))"

definition next_labels :: "relabel_env \<Rightarrow> labelling \<Rightarrow> labelling" where
  "next_labels env L = map (\<lambda>(i, b). (i, label env L b)) (env_beliefs env)"

definition stable :: "relabel_env \<Rightarrow> labelling \<Rightarrow> bool" where
  "stable env L = (next_labels env L = L)"

definition wf_env :: "relabel_env \<Rightarrow> bool" where
  "wf_env env = (distinct (ordered_ids env) \<and> (\<forall>(i, b) \<in> set (env_beliefs env). b_id b = i))"

section \<open>A sweep applies the rule\<close>

lemma env_belief_id: "wf_env env \<Longrightarrow> map_of (env_beliefs env) i = Some b \<Longrightarrow> b_id b = i"
  by (auto simp: wf_env_def dest: map_of_SomeD)

lemma env_belief_unique:
  "wf_env env \<Longrightarrow> (i, b) \<in> set (env_beliefs env) \<Longrightarrow> map_of (env_beliefs env) i = Some b"
  by (simp add: wf_env_def ordered_ids_def)

lemma rebut_contest_ids:
  assumes "wf_env env" and "rebut_contest env e = Some (a, t, c)"
  shows "b_id a = attacker e \<and> b_id t = target e
    \<and> map_of (env_beliefs env) (b_id a) = Some a \<and> map_of (env_beliefs env) (b_id t) = Some t
    \<and> map_of (env_comparisons env) (d_id e) = Some c"
  using assms by (auto simp: rebut_contest_def env_belief_id split: option.splits)

lemma supported_ids_get:
  "wf_env env \<Longrightarrow> map_of (env_beliefs env) i = Some b \<Longrightarrow>
     dict_get (supported_ids env L) i False = is_supported env L b"
  by (simp add: dict_get_def supported_ids_def map_of_map)

lemma candidate_labels_eq:
  assumes "wf_env env"
  shows "candidate_labels env (supported_ids env L)
    = map (\<lambda>(i, b). (i, candidate_status b (is_supported env L b))) (env_beliefs env)"
  unfolding candidate_labels_def
  by (rule map_cong [OF refl])
     (auto simp: supported_ids_get [OF assms env_belief_unique [OF assms]])

lemma update_keys_known:
  "k \<in> set (map fst al) \<Longrightarrow> map fst (AList.update k v al) = map fst al"
  by (simp add: update_keys)

lemma fold_point:
  assumes "\<And>x s. map_of (get (f x s)) i = g x (map_of (get s) i)"
  shows "map_of (get (fold f xs s)) i = fold g xs (map_of (get s) i)"
  by (induction xs arbitrary: s) (simp_all add: assms)

lemma fold_mark:
  "fold (\<lambda>x v. if P x then w else v) xs v = (if \<exists>x \<in> set xs. P x then w else v)"
  by (induction xs arbitrary: v) auto

lemma fold_keys:
  assumes "\<And>x s. x \<in> set xs \<Longrightarrow> map fst (get s) = ks \<Longrightarrow> map fst (get (f x s)) = ks"
    and "map fst (get s) = ks"
  shows "map fst (get (fold f xs s)) = ks"
  using assms by (induction xs arbitrary: s) auto

text \<open>Ageing.\<close>

lemma age_belief_point:
  "map_of (sw_next (age_belief env x s)) i
   = (if fst x = i \<and> stale_now env (snd x) \<and> map_of (sw_next s) i = Some IN
      then Some PENDING else map_of (sw_next s) i)"
  by (cases x) (auto simp: stale_now_def split: option.splits)

lemma age_belief_keys:
  "map fst (sw_next (age_belief env x s)) = map fst (sw_next s)"
  by (cases x) (auto simp: update_keys image_iff split: option.splits dest!: map_of_SomeD)

lemma age_all_conflicts: "sw_conflicts (fold (age_belief env) xs s) = sw_conflicts s"
proof (induction xs arbitrary: s)
  case (Cons x xs)
  then show ?case by (cases x) (auto split: option.splits)
qed simp

lemma age_all_point:
  "map_of (sw_next (fold (age_belief env) xs s)) i
   = (if (\<exists>x \<in> set xs. fst x = i \<and> stale_now env (snd x)) \<and> map_of (sw_next s) i = Some IN
      then Some PENDING else map_of (sw_next s) i)"
proof -
  have "fold (\<lambda>x v. if fst x = i \<and> stale_now env (snd x) \<and> v = Some IN then Some PENDING else v) xs v
      = (if (\<exists>x \<in> set xs. fst x = i \<and> stale_now env (snd x)) \<and> v = Some IN
         then Some PENDING else v)" for v
    by (induction xs arbitrary: v) auto
  then show ?thesis
    using fold_point [of sw_next "age_belief env" i
      "\<lambda>x v. if fst x = i \<and> stale_now env (snd x) \<and> v = Some IN then Some PENDING else v" xs s]
    by (simp add: age_belief_point)
qed

text \<open>Ties.\<close>

lemma tie_rebut_supported:
  assumes "wf_env env"
  shows "tie_rebut env (supported_ids env L) e s =
    (case rebut_contest env e of
       None \<Rightarrow> s
     | Some (a, t, c) \<Rightarrow>
         if tied env L e a t
         then s\<lparr>sw_conflicts := List.insert (ordered_pair (b_id a) (b_id t)) (sw_conflicts s),
                sw_next := AList.update (b_id t) PENDING (AList.update (b_id a) PENDING (sw_next s)),
                sw_causes := AList.update (b_id t) (''samsaya:'' @ b_id a)
                               (AList.update (b_id a) (''samsaya:'' @ b_id t) (sw_causes s))\<rparr>
         else s)"
proof (cases "rebut_contest env e")
  case None
  then show ?thesis by (simp add: tie_rebut_def)
next
  case (Some x)
  obtain a t c where x: "x = (a, t, c)" by (cases x)
  from rebut_contest_ids [OF assms Some [unfolded x]] Some x show ?thesis
    by (auto simp: tie_rebut_def tied_def supported_ids_get [OF assms])
qed

lemma tie_rebut_point:
  assumes "wf_env env"
  shows "map_of (sw_next (tie_rebut env (supported_ids env L) e s)) i
    = (if \<exists>a t. tied env L e a t \<and> (b_id a = i \<or> b_id t = i) then Some PENDING
       else map_of (sw_next s) i)"
  unfolding tie_rebut_supported [OF assms]
  by (cases "rebut_contest env e") (auto simp: tied_def split: prod.splits)

lemma tie_rebut_keys:
  assumes "wf_env env" and "map fst (sw_next s) = ordered_ids env"
  shows "map fst (sw_next (tie_rebut env (supported_ids env L) e s)) = ordered_ids env"
proof (cases "rebut_contest env e")
  case (Some x)
  obtain a t c where x: "x = (a, t, c)" by (cases x)
  from rebut_contest_ids [OF assms(1) Some [unfolded x]]
  have "b_id a \<in> set (ordered_ids env)" "b_id t \<in> set (ordered_ids env)"
    by (auto simp: ordered_ids_def dest!: map_of_SomeD intro: rev_image_eqI)
  then have "map fst (AList.update (b_id t) PENDING (AList.update (b_id a) PENDING (sw_next s)))
      = ordered_ids env"
    using assms(2) by (simp add: update_keys image_set flip: set_map)
  with assms(2) show ?thesis
    by (simp add: tie_rebut_supported [OF assms(1)] Some x)
qed (simp add: tie_rebut_supported [OF assms(1)] assms(2))

lemma tie_rebut_conflicts:
  assumes "wf_env env"
  shows "set (sw_conflicts (fold (tie_rebut env (supported_ids env L)) es s))
    = {ordered_pair (b_id a) (b_id t) | a t. \<exists>e \<in> set es. tied env L e a t} \<union> set (sw_conflicts s)"
proof (induction es arbitrary: s)
  case (Cons e es)
  have "set (sw_conflicts (tie_rebut env (supported_ids env L) e s))
      = {ordered_pair (b_id a) (b_id t) | a t. tied env L e a t} \<union> set (sw_conflicts s)"
    unfolding tie_rebut_supported [OF assms]
    by (cases "rebut_contest env e") (auto simp: tied_def split: prod.splits)
  then show ?case by (auto simp: Cons.IH)
qed simp

text \<open>Defeats.\<close>

lemma defeat_rebut_point:
  assumes "wf_env env" and "set (sw_conflicts s) = K"
  shows "map_of (sw_next (defeat_rebut env L (supported_ids env L) e s)) i
      = (if beaten_on env L K e i then Some OUT else map_of (sw_next s) i)
    \<and> set (sw_conflicts (defeat_rebut env L (supported_ids env L) e s)) = K
    \<and> (map fst (sw_next s) = ordered_ids env \<longrightarrow>
        map fst (sw_next (defeat_rebut env L (supported_ids env L) e s)) = ordered_ids env)"
proof (cases "rebut_contest env e")
  case None
  with assms(2) show ?thesis by (simp add: defeat_rebut_def beaten_on_def)
next
  case (Some x)
  obtain a t c where x: "x = (a, t, c)" by (cases x)
  from rebut_contest_ids [OF assms(1) Some [unfolded x]]
  have t: "map_of (env_beliefs env) (b_id t) = Some t" by blast
  then have "b_id t \<in> set (ordered_ids env)"
    by (auto simp: ordered_ids_def dest!: map_of_SomeD intro: rev_image_eqI)
  then have "map fst (sw_next s) = ordered_ids env \<longrightarrow>
      map fst (AList.update (b_id t) OUT (sw_next s)) = ordered_ids env"
    by (simp add: update_keys flip: set_map)
  with assms(2) show ?thesis
    by (auto simp: defeat_rebut_def beaten_on_def Some x supported_ids_get [OF assms(1) t])
qed

lemma defeat_all_point:
  assumes "wf_env env" and "set (sw_conflicts s) = K"
  shows "map_of (sw_next (fold (defeat_rebut env L (supported_ids env L)) es s)) i
      = (if \<exists>e \<in> set es. beaten_on env L K e i then Some OUT else map_of (sw_next s) i)
    \<and> set (sw_conflicts (fold (defeat_rebut env L (supported_ids env L)) es s)) = K
    \<and> (map fst (sw_next s) = ordered_ids env \<longrightarrow>
        map fst (sw_next (fold (defeat_rebut env L (supported_ids env L)) es s)) = ordered_ids env)"
  using assms(2)
proof (induction es arbitrary: s)
  case (Cons e es)
  from defeat_rebut_point [OF assms(1) Cons.prems, of L e]
    Cons.IH [of "defeat_rebut env L (supported_ids env L) e s"]
  show ?case by auto
qed simp

lemma labels_ext:
  assumes "map fst xs = map fst ys" and "distinct (map fst xs)" and "map_of xs = map_of ys"
  shows "xs = ys"
proof -
  have rebuild: "zs = map (\<lambda>k. (k, the (map_of zs k))) (map fst zs)"
    if "distinct (map fst zs)" for zs :: "('a \<times> 'b) list"
    using that by (auto simp: o_def intro!: map_idI [symmetric])
  from rebuild [of xs] rebuild [of ys] assms show ?thesis by metis
qed

lemma next_labels_keys: "map fst (next_labels env L) = ordered_ids env"
  by (simp add: next_labels_def ordered_ids_def case_prod_beta o_def)

lemma next_labels_get: "map_of (next_labels env L) i = map_option (label env L) (map_of (env_beliefs env) i)"
  by (simp add: next_labels_def map_of_map)

lemma map_of_label:
  "wf_env env \<Longrightarrow> map_of (env_beliefs env) i = Some b \<Longrightarrow>
     (\<exists>x \<in> set (env_beliefs env). fst x = i \<and> stale_now env (snd x)) \<longleftrightarrow> stale_now env b"
  using env_belief_unique [of env i] map_of_SomeD [of "env_beliefs env" i b]
  by (metis fst_conv option.inject prod.collapse snd_conv)

text \<open>The refinement: a sweep of the code is one application of the rule.\<close>

lemma sweep_is_next:
  assumes "wf_env env"
  shows "sw_next (iterate_labels env L causes) = next_labels env L
    \<and> set (sw_conflicts (iterate_labels env L causes)) = conflict_pairs env L"
proof -
  let ?supp = "supported_ids env L"
  define start where "start = \<lparr>sw_next = candidate_labels env ?supp, sw_causes = causes, sw_conflicts = []\<rparr>"
  define aged where "aged = fold (age_belief env) (env_beliefs env) start"
  define ties where "ties = fold (tie_rebut env ?supp) (env_rebuts env) aged"
  define done' where "done' = fold (defeat_rebut env L ?supp) (env_rebuts env) ties"
  have eq: "sw_next (iterate_labels env L causes) = sw_next done'"
    "sw_conflicts (iterate_labels env L causes) = sw_conflicts done'"
    by (simp_all add: iterate_labels_def Let_def start_def aged_def ties_def done'_def)
  have c0: "sw_conflicts aged = []"
    by (simp add: aged_def start_def age_all_conflicts)
  have K: "set (sw_conflicts ties) = conflict_pairs env L"
    unfolding ties_def tie_rebut_conflicts [OF assms] by (simp add: c0 conflict_pairs_def)
  have "map fst (sw_next start) = ordered_ids env"
    by (simp add: start_def candidate_labels_def ordered_ids_def case_prod_beta o_def)
  then have "map fst (sw_next aged) = ordered_ids env"
    unfolding aged_def
    by (rule fold_keys [where get = sw_next, rotated]) (simp add: age_belief_keys)
  then have keys: "map fst (sw_next ties) = ordered_ids env"
    unfolding ties_def
    by (rule fold_keys [where get = sw_next, rotated]) (rule tie_rebut_keys [OF assms])
  note beaten_all = defeat_all_point [OF assms K, of L "env_rebuts env", folded done'_def]
  have point: "map_of (sw_next done') i = map_of (next_labels env L) i" for i
  proof (cases "map_of (env_beliefs env) i")
    case None
    then have "i \<notin> set (ordered_ids env)"
      by (simp add: ordered_ids_def map_of_eq_None_iff)
    moreover have "map fst (sw_next done') = ordered_ids env"
      using beaten_all keys by blast
    ultimately have "map_of (sw_next done') i = None"
      by (simp add: map_of_eq_None_iff flip: set_map)
    with None show ?thesis by (simp add: next_labels_get)
  next
    case (Some b)
    have "map_of (sw_next start) i = Some (candidate_status b (is_supported env L b))"
      by (simp add: start_def candidate_labels_eq [OF assms] map_of_map Some)
    moreover have "map_of (sw_next ties) i
        = (if in_conflict env L i then Some PENDING else map_of (sw_next aged) i)"
      unfolding ties_def in_conflict_def
      using fold_point [of sw_next "tie_rebut env ?supp" i
        "\<lambda>e v. if \<exists>a t. tied env L e a t \<and> (b_id a = i \<or> b_id t = i) then Some PENDING else v"
        "env_rebuts env" aged]
      by (simp add: tie_rebut_point [OF assms] fold_mark)
    ultimately show ?thesis
      using beaten_all map_of_label [OF assms Some] env_belief_id [OF assms Some]
      by (simp add: age_all_point aged_def next_labels_get Some label_def beaten_def)
  qed
  have "sw_next done' = next_labels env L"
  proof (rule labels_ext)
    show "map fst (sw_next done') = map fst (next_labels env L)"
      using beaten_all keys by (simp add: next_labels_keys)
    then show "distinct (map fst (sw_next done'))"
      using assms by (simp add: next_labels_keys wf_env_def)
    show "map_of (sw_next done') = map_of (next_labels env L)" using point by blast
  qed
  with beaten_all eq show ?thesis by simp
qed

section \<open>What a rule reads\<close>

text \<open>The beliefs whose label decides whether \<open>b\<close> is supported.\<close>

definition support_reads :: "relabel_env \<Rightarrow> belief \<Rightarrow> string set" where
  "support_reads env b =
     (if b_pramana b \<in> set basic_types then
        {attacker e | e s. s \<in> set (supports_of env (b_id b)) \<and> e \<in> set (undercuts_of env (is_id s))}
      else
        {p. \<exists>j \<in> set (justifications_of env (b_id b)). p \<in> set (j_premises j)}
        \<union> {attacker e | e j. j \<in> set (justifications_of env (b_id b))
                           \<and> e \<in> set (undercuts_of env (j_id j))})"

text \<open>
  The beliefs whose label decides the next label of \<open>b\<close>: those its support and the support of
  an equal rival rest on, and the attackers of rebuttals that win against it.
\<close>

definition reads :: "relabel_env \<Rightarrow> belief \<Rightarrow> string set" where
  "reads env b =
     support_reads env b
     \<union> {x. \<exists>e \<in> set (env_rebuts env). \<exists>a t c. rebut_contest env e = Some (a, t, c) \<and> pc_result c = 0
            \<and> (b_id a = b_id b \<or> b_id t = b_id b) \<and> x \<in> support_reads env a \<union> support_reads env t}
     \<union> {b_id a | a. \<exists>e \<in> set (env_rebuts env). \<exists>t c. rebut_contest env e = Some (a, t, c)
            \<and> 0 < pc_result c \<and> b_id t = b_id b}"

definition depends :: "relabel_env \<Rightarrow> (string \<times> string) set" where
  "depends env = {(x, i). \<exists>b. (i, b) \<in> set (env_beliefs env) \<and> x \<in> reads env b
                          \<and> x \<in> set (ordered_ids env)}"

definition agree :: "string set \<Rightarrow> labelling \<Rightarrow> labelling \<Rightarrow> bool" where
  "agree A L M = (\<forall>x \<in> A. map_of L x = map_of M x)"

lemma undercut_agree:
  "agree (attacker ` set (undercuts_of env t)) L M \<Longrightarrow>
     has_active_undercut env L t = has_active_undercut env M t"
  by (auto simp: has_active_undercut_def list_ex_iff agree_def)

lemma is_supported_agree:
  assumes "agree (support_reads env b) L M"
  shows "is_supported env L b = is_supported env M b"
proof (cases "b_pramana b \<in> set basic_types")
  case True
  have "has_active_undercut env L (is_id s) = has_active_undercut env M (is_id s)"
    if "s \<in> set (supports_of env (b_id b))" for s
    using assms that True by (intro undercut_agree) (auto simp: agree_def support_reads_def)
  with True show ?thesis by (auto simp: is_supported_def list_ex_iff)
next
  case False
  have "has_active_undercut env L (j_id j) = has_active_undercut env M (j_id j)
      \<and> (\<forall>p \<in> set (j_premises j). map_of L p = map_of M p)"
    if "j \<in> set (justifications_of env (b_id b))" for j
  proof
    show "has_active_undercut env L (j_id j) = has_active_undercut env M (j_id j)"
      using assms that False by (intro undercut_agree) (auto simp: agree_def support_reads_def)
    have "set (j_premises j) \<subseteq> support_reads env b"
      using that False by (auto simp: support_reads_def)
    with assms show "\<forall>p \<in> set (j_premises j). map_of L p = map_of M p"
      by (auto simp: agree_def)
  qed
  with False show ?thesis by (auto simp: is_supported_def list_ex_iff list_all_iff)
qed

lemma tied_agree:
  assumes "wf_env env" and "e \<in> set (env_rebuts env)" and "b_id a = b_id b \<or> b_id t = b_id b"
    and "agree (reads env b) L M"
  shows "tied env L e a t = tied env M e a t"
proof (cases "\<exists>c. rebut_contest env e = Some (a, t, c) \<and> pc_result c = 0")
  case True
  then have "support_reads env a \<union> support_reads env t \<subseteq> reads env b"
    using assms(2,3) by (auto simp: reads_def)
  with assms(4) have "agree (support_reads env a) L M" "agree (support_reads env t) L M"
    by (auto simp: agree_def)
  then show ?thesis by (simp add: tied_def is_supported_agree)
qed (auto simp: tied_def)

lemma in_conflict_agree:
  "wf_env env \<Longrightarrow> agree (reads env b) L M \<Longrightarrow> in_conflict env L (b_id b) = in_conflict env M (b_id b)"
  unfolding in_conflict_def using tied_agree [of env _ _ b] by meson

lemma ordered_pair_eq: "ordered_pair a b = ordered_pair c d \<longleftrightarrow> a = c \<and> b = d \<or> a = d \<and> b = c"
  by (auto simp: ordered_pair_def)

lemma conflict_pairs_members:
  assumes "p \<in> conflict_pairs env L" and "fst p = i \<or> snd p = i"
  shows "in_conflict env L i"
proof -
  from assms(1) obtain e a t where e: "e \<in> set (env_rebuts env)" "tied env L e a t"
    and p: "p = ordered_pair (b_id a) (b_id t)"
    unfolding conflict_pairs_def by blast
  from assms(2) p have "b_id a = i \<or> b_id t = i"
    by (simp add: ordered_pair_def split: if_splits) blast+
  with e show ?thesis unfolding in_conflict_def by blast
qed

lemma conflict_pairs_agree:
  assumes "wf_env env" and "agree (reads env b) L M"
    and "p = (x, b_id b) \<or> p = ordered_pair x (b_id b)"
  shows "p \<in> conflict_pairs env L \<longleftrightarrow> p \<in> conflict_pairs env M"
proof -
  have "p = ordered_pair (b_id a) (b_id t) \<Longrightarrow> b_id a = b_id b \<or> b_id t = b_id b" for a t
    using assms(3) by (auto simp: ordered_pair_def split: if_splits)
  with tied_agree [OF assms(1) _ _ assms(2)] show ?thesis
    unfolding conflict_pairs_def by blast
qed

lemma beaten_on_agree:
  assumes "wf_env env" and "agree (reads env b) L M" and "e \<in> set (env_rebuts env)"
    and "map_of (env_beliefs env) (b_id b) = Some b"
  shows "beaten_on env L (conflict_pairs env L) e (b_id b)
    = beaten_on env M (conflict_pairs env M) e (b_id b)"
proof -
  have "map_of L (b_id a) = map_of M (b_id a) \<and> is_supported env L t = is_supported env M t
      \<and> ((b_id a, b_id t) \<in> conflict_pairs env L \<longleftrightarrow> (b_id a, b_id t) \<in> conflict_pairs env M)
      \<and> (ordered_pair (b_id a) (b_id t) \<in> conflict_pairs env L
          \<longleftrightarrow> ordered_pair (b_id a) (b_id t) \<in> conflict_pairs env M)"
    if c: "rebut_contest env e = Some (a, t, c)" "b_id t = b_id b" "0 < pc_result c" for a t c
  proof -
    from rebut_contest_ids [OF assms(1) c(1)] c(2) assms(4) have t: "t = b" by simp
    have "b_id a \<in> reads env b" using assms(3) c by (auto simp: reads_def)
    moreover have "agree (support_reads env b) L M"
      using assms(2) by (auto simp: agree_def reads_def)
    ultimately show ?thesis
      using t assms(2) is_supported_agree [of env b L M]
        conflict_pairs_agree [OF assms(1,2), of "(b_id a, b_id b)" "b_id a"]
        conflict_pairs_agree [OF assms(1,2), of "ordered_pair (b_id a) (b_id b)" "b_id a"]
      by (simp add: agree_def)
  qed
  note same = this
  show ?thesis
  proof (cases "\<exists>a t c. rebut_contest env e = Some (a, t, c) \<and> b_id t = b_id b \<and> 0 < pc_result c")
    case True
    then obtain a t c where "rebut_contest env e = Some (a, t, c)" "b_id t = b_id b" "0 < pc_result c"
      by blast
    with same [OF this] show ?thesis by (simp add: beaten_on_def)
  qed (auto simp: beaten_on_def)
qed

lemma label_agree:
  assumes "wf_env env" and "map_of (env_beliefs env) (b_id b) = Some b"
    and "agree (reads env b) L M"
  shows "label env L b = label env M b"
proof -
  have "is_supported env L b = is_supported env M b"
    using assms(3) by (intro is_supported_agree) (auto simp: agree_def reads_def)
  moreover have "beaten env L (b_id b) = beaten env M (b_id b)"
    unfolding beaten_def using beaten_on_agree [OF assms(1,3) _ assms(2)] by blast
  ultimately show ?thesis
    by (simp add: label_def in_conflict_agree [OF assms(1,3)])
qed

section \<open>Iterating the rule\<close>

definition iterated :: "relabel_env \<Rightarrow> nat \<Rightarrow> labelling \<Rightarrow> labelling" where
  "iterated env n L = (next_labels env ^^ n) L"

lemma iterated_Suc: "iterated env (Suc n) L = next_labels env (iterated env n L)"
  by (simp add: iterated_def)

lemma iterated_0 [simp]: "iterated env 0 L = L"
  by (simp add: iterated_def)

lemma iterated_keys: "map fst L = ordered_ids env \<Longrightarrow> map fst (iterated env n L) = ordered_ids env"
  by (cases n) (simp_all add: iterated_Suc next_labels_keys)

lemma unknown_label: "map fst L = ordered_ids env \<Longrightarrow> x \<notin> set (ordered_ids env) \<Longrightarrow> map_of L x = None"
  by (metis map_of_eq_None_iff set_map)

definition ancestors :: "relabel_env \<Rightarrow> string \<Rightarrow> string set" where
  "ancestors env i = {x. (x, i) \<in> (depends env)\<^sup>+}"

lemma ancestors_subset:
  assumes "acyclic (depends env)"
  shows "ancestors env i \<subseteq> set (ordered_ids env) - {i}"
proof
  fix x assume "x \<in> ancestors env i"
  then have "(x, i) \<in> (depends env)\<^sup>+" by (simp add: ancestors_def)
  moreover from this have "x \<in> set (ordered_ids env)"
    by (induction rule: converse_trancl_induct) (auto simp: depends_def)
  ultimately show "x \<in> set (ordered_ids env) - {i}"
    using assms by (auto simp: acyclic_def)
qed

text \<open>
  From whatever labellings two runs start, a belief with fewer than \<open>m\<close> ancestors has the same
  label in both after \<open>m\<close> iterations or more.
\<close>

lemma iterates_agree:
  assumes "wf_env env" and "acyclic (depends env)"
    and "map fst L = ordered_ids env" and "map fst M = ordered_ids env"
    and "card (ancestors env i) < m" and "card (ancestors env i) < n"
  shows "map_of (iterated env m L) i = map_of (iterated env n M) i"
  using assms(5,6)
proof (induction "card (ancestors env i)" arbitrary: i m n rule: less_induct)
  case less
  show ?case
  proof (cases "map_of (env_beliefs env) i")
    case None
    then have "i \<notin> set (ordered_ids env)" by (simp add: ordered_ids_def map_of_eq_None_iff)
    with unknown_label iterated_keys assms(3,4) show ?thesis by metis
  next
    case (Some b)
    obtain m' n' where mn: "m = Suc m'" "n = Suc n'" using less.prems by (metis lessE)
    have fin: "finite (ancestors env i)"
      using ancestors_subset [OF assms(2)] by (meson List.finite_set finite_Diff finite_subset)
    have "map_of (iterated env m' L) x = map_of (iterated env n' M) x" if "x \<in> reads env b" for x
    proof (cases "x \<in> set (ordered_ids env)")
      case False
      with unknown_label iterated_keys assms(3,4) show ?thesis by metis
    next
      case True
      with that Some have dep: "(x, i) \<in> depends env" by (auto simp: depends_def dest: map_of_SomeD)
      then have "ancestors env x \<subset> ancestors env i"
        using ancestors_subset [OF assms(2), of x]
        by (auto simp: ancestors_def intro: trancl_into_trancl)
      then have "card (ancestors env x) < card (ancestors env i)" using fin by (rule psubset_card_mono [rotated])
      with less.hyps [of x m' n'] less.prems mn show ?thesis by simp
    qed
    then have "label env (iterated env m' L) b = label env (iterated env n' M) b"
      using assms(1) Some env_belief_id [OF assms(1) Some] by (intro label_agree) (auto simp: agree_def)
    with mn Some show ?thesis by (simp add: iterated_Suc next_labels_get)
  qed
qed

lemma iterates_equal:
  assumes "wf_env env" and "acyclic (depends env)"
    and "map fst L = ordered_ids env" and "map fst M = ordered_ids env"
    and "length (env_beliefs env) \<le> m" and "length (env_beliefs env) \<le> n"
  shows "iterated env m L = iterated env n M"
proof -
  have "map_of (iterated env m L) i = map_of (iterated env n M) i" for i
  proof (cases "i \<in> set (ordered_ids env)")
    case True
    have "card (ancestors env i) \<le> card (set (ordered_ids env) - {i})"
      using ancestors_subset [OF assms(2)] by (intro card_mono) auto
    also have "\<dots> < card (set (ordered_ids env))" using True by (intro psubset_card_mono) auto
    also have "\<dots> \<le> length (env_beliefs env)"
      by (metis card_length length_map ordered_ids_def)
    finally show ?thesis using assms by (intro iterates_agree) auto
  next
    case False
    with unknown_label iterated_keys assms(3,4) show ?thesis by metis
  qed
  then show ?thesis
    using iterated_keys assms by (intro labels_ext) (auto simp: wf_env_def)
qed

text \<open>So there is one stable labelling, and no other labelling recurs.\<close>

lemma stable_iterated:
  assumes "stable env L"
  shows "iterated env n L = L"
  using assms by (induction n) (simp_all add: iterated_Suc stable_def)

lemma recurring_is_stable:
  assumes "wf_env env" and "acyclic (depends env)" and "map fst L = ordered_ids env"
    and "iterated env (Suc p) L = L"
  shows "next_labels env L = L"
proof -
  let ?N = "length (env_beliefs env)"
  have rep: "iterated env (k * Suc p) L = L" for k
  proof (induction k)
    case (Suc k)
    have "iterated env (Suc k * Suc p) L = iterated env (Suc p) (iterated env (k * Suc p) L)"
      unfolding iterated_def mult_Suc funpow_add comp_apply by simp
    with Suc assms(4) show ?case by simp
  qed simp
  have "next_labels env L = iterated env (Suc (?N * Suc p)) L"
    using rep [of ?N] by (simp only: iterated_Suc)
  also have "\<dots> = iterated env (?N * Suc p) L"
    using assms by (intro iterates_equal) (auto simp: algebra_simps)
  also have "\<dots> = L" by (rule rep)
  finally show ?thesis .
qed

section \<open>The loop\<close>

text \<open>What the loop has computed when it has \<open>left\<close> iterations left and starts the \<open>n\<close>-th.\<close>

lemma labels_by_values:
  "map fst L = map fst M \<Longrightarrow> map snd L = map snd M \<Longrightarrow> L = M"
  by (metis zip_map_fst_snd)

lemma no_recurrence:
  assumes "wf_env env" and "acyclic (depends env)" and "map fst L = ordered_ids env"
    and "iterated env (Suc k) L = iterated env j L" and "j \<le> k"
  shows "iterated env (Suc k) L = iterated env k L"
proof -
  let ?M = "iterated env j L"
  have add: "iterated env (m + j) L = iterated env m ?M" for m
    by (simp add: iterated_def funpow_add)
  from add [of "Suc (k - j)"] assms(4,5) have "iterated env (Suc (k - j)) ?M = ?M" by simp
  then have "stable env ?M"
    using recurring_is_stable [OF assms(1,2)] iterated_keys [OF assms(3)] by (simp add: stable_def)
  with stable_iterated [of env ?M "k - j"] add [of "k - j"] assms(4,5) show ?thesis by simp
qed

lemma relabel_loop_converges:
  assumes wf: "wf_env env" and ac: "acyclic (depends env)" and keys: "map fst L = ordered_ids env"
    and "length (env_beliefs env) < left + k" and "k \<le> length (env_beliefs env)"
    and "current = iterated env k L" and "seen = (\<lambda>j. map snd (iterated env j L)) ` {..<k}"
  shows "\<not> rr_oscillation (relabel_loop env left n current seen causes conflicts)
    \<and> stable env (rr_statuses (relabel_loop env left n current seen causes conflicts))
    \<and> rr_iterations (relabel_loop env left n current seen causes conflicts) + k
        \<le> n + length (env_beliefs env)"
  using assms(4-7)
proof (induction left arbitrary: k n current seen causes conflicts)
  case 0
  then show ?case by simp
next
  case (Suc left)
  let ?sw = "iterate_labels env current causes"
  let ?N = "length (env_beliefs env)"
  have next_eq: "sw_next ?sw = iterated env (Suc k) L"
    using sweep_is_next [OF wf] Suc.prems(3) by (simp add: iterated_Suc)
  have keys': "map fst (iterated env j L) = ordered_ids env" for j
    by (rule iterated_keys [OF keys])
  show ?case
  proof (cases "map snd (sw_next ?sw) = map snd current")
    case True
    then have "sw_next ?sw = current"
      using next_eq Suc.prems(3) keys' by (intro labels_by_values) auto
    moreover from this have "stable env current"
      using next_eq Suc.prems(3) by (simp add: stable_def iterated_Suc)
    ultimately show ?thesis using Suc.prems(2) by (simp add: Let_def make_result_def)
  next
    case False
    have ne: "iterated env (Suc k) L \<noteq> iterated env k L"
      using False next_eq Suc.prems(3) by auto
    have "k < ?N"
      using iterates_equal [OF wf ac keys keys, of "Suc k" k] ne Suc.prems(2) by linarith
    moreover have "map snd (sw_next ?sw) \<notin> insert (map snd current) seen"
    proof
      assume "map snd (sw_next ?sw) \<in> insert (map snd current) seen"
      with False Suc.prems(4) obtain j where "j < k" "map snd (sw_next ?sw) = map snd (iterated env j L)"
        by auto
      then have "iterated env (Suc k) L = iterated env j L"
        using next_eq keys' by (intro labels_by_values) auto
      from no_recurrence [OF wf ac keys this] \<open>j < k\<close> ne show False by (meson less_imp_le)
    qed
    moreover have "insert (map snd current) seen = (\<lambda>j. map snd (iterated env j L)) ` {..<Suc k}"
      using Suc.prems(3,4) by (simp add: lessThan_Suc)
    ultimately show ?thesis
      using Suc.IH [of "Suc k" "sw_next ?sw" "insert (map snd current) seen" "Suc n" "sw_causes ?sw"
          "sw_conflicts ?sw"] False next_eq Suc.prems(1)
      by (simp add: Let_def)
  qed
qed

lemma stable_unique:
  assumes "wf_env env" and "acyclic (depends env)" and "stable env L" and "stable env M"
  shows "L = M"
proof -
  have "map fst L = ordered_ids env" "map fst M = ordered_ids env"
    using assms(3,4) next_labels_keys [of env L] next_labels_keys [of env M]
    by (simp_all add: stable_def)
  with iterates_equal [OF assms(1,2), of L M "length (env_beliefs env)" "length (env_beliefs env)"]
  show ?thesis by (simp add: stable_iterated [OF assms(3)] stable_iterated [OF assms(4)])
qed

text \<open>A run that reports no oscillation ends in a stable labelling, its ties as conflicts.\<close>

lemma relabel_loop_stable:
  assumes "wf_env env" and "map fst current = ordered_ids env"
    and "\<not> rr_oscillation (relabel_loop env left n current seen causes conflicts)"
  shows "stable env (rr_statuses (relabel_loop env left n current seen causes conflicts))
    \<and> set (rr_conflicts (relabel_loop env left n current seen causes conflicts))
        = conflict_pairs env (rr_statuses (relabel_loop env left n current seen causes conflicts))
    \<and> rr_active_edges (relabel_loop env left n current seen causes conflicts)
        = active_edges env (rr_statuses (relabel_loop env left n current seen causes conflicts))"
  using assms(2,3)
proof (induction left arbitrary: n current seen causes conflicts)
  case 0
  then show ?case by (simp add: at_ceiling_def make_result_def Let_def)
next
  case (Suc left)
  let ?sw = "iterate_labels env current causes"
  have sw: "sw_next ?sw = next_labels env current" "set (sw_conflicts ?sw) = conflict_pairs env current"
    using sweep_is_next [OF assms(1)] by auto
  then have keys: "map fst (sw_next ?sw) = ordered_ids env" by (simp add: next_labels_keys)
  consider "map snd (sw_next ?sw) = map snd current"
    | "map snd (sw_next ?sw) \<noteq> map snd current" "map snd (sw_next ?sw) \<in> insert (map snd current) seen"
    | "map snd (sw_next ?sw) \<noteq> map snd current" "map snd (sw_next ?sw) \<notin> insert (map snd current) seen"
    by blast
  then show ?case
  proof cases
    case 1
    then have "sw_next ?sw = current" using keys Suc.prems(1) by (intro labels_by_values) auto
    with sw show ?thesis by (simp add: Let_def make_result_def stable_def)
  next
    case 2
    with Suc.prems(2) show ?thesis by (simp add: Let_def make_result_def split: prod.splits)
  next
    case 3
    with Suc.IH [OF keys, of "Suc n" "insert (map snd current) seen" "sw_causes ?sw" "sw_conflicts ?sw"]
      Suc.prems(2) show ?thesis by (simp add: Let_def)
  qed
qed

section \<open>The prepared inputs\<close>

definition wf_beliefs :: "(string \<times> belief) list \<Rightarrow> bool" where
  "wf_beliefs beliefs = (\<forall>(i, b) \<in> set beliefs. b_id b = i)"

lemma prepare_env:
  assumes "prepare beliefs justs supports defeats sources config now = Inr env"
  shows "map_of (env_beliefs env) = map_of beliefs" and "wf_beliefs beliefs \<Longrightarrow> wf_env env"
    and "ordered_ids env = sorted_set (map fst beliefs)" and "env_config env = config"
proof -
  from assms have eb: "env_beliefs env = map (\<lambda>i. (i, the (map_of beliefs i))) (sorted_set (map fst beliefs))"
    and "env_config env = config"
    by (auto simp: prepare_def Let_def splits_result)
  then show "env_config env = config" by simp
  show ids: "ordered_ids env = sorted_set (map fst beliefs)"
    by (simp add: ordered_ids_def eb o_def)
  show "map_of (env_beliefs env) = map_of beliefs"
  proof
    fix i
    show "map_of (env_beliefs env) i = map_of beliefs i"
      by (cases "map_of beliefs i")
         (auto simp: eb map_of_eq_None_iff [symmetric] dest: map_of_SomeD intro: rev_image_eqI)
  qed
  show "wf_env env" if wf: "wf_beliefs beliefs"
  proof -
    have "b_id b = i" if "(i, b) \<in> set (env_beliefs env)" for i b
    proof -
      from that have "i \<in> fst ` set beliefs" and b: "b = the (map_of beliefs i)" by (auto simp: eb)
      then obtain b' where "map_of beliefs i = Some b'" by (metis map_of_eq_None_iff not_None_eq)
      with b wf show ?thesis by (auto simp: wf_beliefs_def dest: map_of_SomeD)
    qed
    with ids show ?thesis unfolding wf_env_def by fastforce
  qed
qed

lemma relabel_Inr:
  "relabel beliefs justs supports defeats sources config now = Inr r \<longleftrightarrow>
     (\<exists>env. prepare beliefs justs supports defeats sources config now = Inr env
        \<and> r = relabel_loop env (max_relabel_iterations config) 1 (initial_labels env) {} [] [])"
  by (auto simp: relabel_def splits_result)

lemma initial_keys: "map fst (initial_labels env) = ordered_ids env"
  by (simp add: initial_labels_def ordered_ids_def case_prod_beta o_def)

end
