(* ===== verification/Relabelling.thy ===== *)
theory Relabelling
  imports Convergence
begin

text \<open>
  The properties of \<open>relabel\<close>, with the concrete ledgers they are applied to, and the run in
  which the oscillation rule of \<open>engine/defeat.py\<close> leaves an inconsistent labelling.
\<close>

section \<open>Sample ledgers\<close>

definition claim_of :: "string \<Rightarrow> pramana \<Rightarrow> string \<Rightarrow> status \<Rightarrow> belief" where
  "claim_of i p src st = sample_belief\<lparr>b_id := i, b_pramana := p, b_source_id := src,
     b_perishability := STABLE, b_status := st, admission_status := IN\<rparr>"

definition support_of :: "string \<Rightarrow> string \<Rightarrow> ingestion_support" where
  "support_of i b = \<lparr>is_id = i, is_episode_id = ''e1'', is_belief_id = b, is_evidence_id = ''ev'',
     is_validity = [], is_active = True\<rparr>"

definition defeat_of :: "string \<Rightarrow> string \<Rightarrow> string \<Rightarrow> defeat_kind \<Rightarrow> defeat_edge" where
  "defeat_of i a t k = \<lparr>d_id = i, d_episode_id = ''e1'', attacker = a, target = t, d_kind = k,
     basis = ''b'', d_active = True\<rparr>"

definition sample_sources :: "(string \<times> source) list" where
  "sample_sources = [(''s1'', sample_source), (''s2'', sample_source\<lparr>src_id := ''s2'', src_integrity := TRUSTED\<rparr>)]"

text \<open>A remembered claim with an inference resting on it, rebutted by a trusted source.\<close>

definition rebutted_beliefs :: "(string \<times> belief) list" where
  "rebutted_beliefs = [(''a'', claim_of ''a'' SHABDA ''s2'' PENDING), (''b'', claim_of ''b'' SHABDA ''s1'' IN),
     (''c'', claim_of ''c'' ANUMANA ''s1'' IN)]"

text \<open>An inference that undercuts the support of its own premise.\<close>

definition liar_beliefs :: "(string \<times> belief) list" where
  "liar_beliefs = [(''a'', claim_of ''a'' SHABDA ''s1'' IN), (''b'', claim_of ''b'' ANUMANA ''s1'' PENDING)]"

definition liar_run :: "relabel_result result" where
  "liar_run = relabel liar_beliefs [chain_step ''j'' [''a''] ''b''] [support_of ''sa'' ''a'']
     [defeat_of ''d'' ''b'' ''sa'' UNDERCUT] sample_sources default_config None"

text \<open>Two testimonies that rebut each other.\<close>

definition duel_run :: "relabel_result result" where
  "duel_run = relabel (take 2 rebutted_beliefs) [] [support_of ''sa'' ''a'', support_of ''sb'' ''b'']
     [defeat_of ''d1'' ''a'' ''b'' REBUT, defeat_of ''d2'' ''b'' ''a'' REBUT]
     sample_sources default_config None"

definition rebutted_env :: "relabel_env result" where
  "rebutted_env = prepare rebutted_beliefs [chain_step ''j'' [''b''] ''c'']
     [support_of ''sa'' ''a'', support_of ''sb'' ''b'']
     [defeat_of ''d'' ''a'' ''b'' REBUT] sample_sources default_config None"

definition rebutted_run :: "relabel_result result" where
  "rebutted_run = relabel rebutted_beliefs [chain_step ''j'' [''b''] ''c'']
     [support_of ''sa'' ''a'', support_of ''sb'' ''b'']
     [defeat_of ''d'' ''a'' ''b'' REBUT] sample_sources default_config None"

text \<open>An executable test that what every belief reads comes before it in the order of ids.\<close>

definition support_reads_list :: "relabel_env \<Rightarrow> belief \<Rightarrow> string list" where
  "support_reads_list env b =
     (if b_pramana b \<in> set basic_types then
        concat (map (\<lambda>s. map attacker (undercuts_of env (is_id s))) (supports_of env (b_id b)))
      else concat (map (\<lambda>j. j_premises j @ map attacker (undercuts_of env (j_id j)))
             (justifications_of env (b_id b))))"

definition reads_list :: "relabel_env \<Rightarrow> belief \<Rightarrow> string list" where
  "reads_list env b =
     support_reads_list env b
     @ concat (map (\<lambda>e. case rebut_contest env e of
         None \<Rightarrow> []
       | Some (a, t, c) \<Rightarrow>
           (if pc_result c = 0 \<and> (b_id a = b_id b \<or> b_id t = b_id b)
            then support_reads_list env a @ support_reads_list env t else [])
           @ (if 0 < pc_result c \<and> b_id t = b_id b then [b_id a] else [])) (env_rebuts env))"

definition reads_upwards :: "relabel_env \<Rightarrow> bool" where
  "reads_upwards env = list_all (\<lambda>(i, b). list_all (\<lambda>x. x < i) (reads_list env b)) (env_beliefs env)"

lemma rebutted_env_checked:
  "succeeds rebutted_env (\<lambda>env. reads_upwards env \<and> length (env_beliefs env) = 3)"
  by code_simp

lemma rebutted_run_labels:
  "succeeds rebutted_run (\<lambda>r. \<not> rr_oscillation r \<and> map_of (rr_statuses r) ''a'' = Some IN
     \<and> map_of (rr_statuses r) ''b'' = Some OUT)"
  by code_simp

lemma liar_run_labels:
  "succeeds liar_run (\<lambda>r. rr_oscillation r \<and> map_of (rr_statuses r) ''a'' = Some IN
     \<and> map_of (rr_statuses r) ''b'' = Some IN \<and> map_of (rr_active_edges r) ''d'' = Some True)"
  by code_simp

lemma rebutted_wf: "wf_beliefs rebutted_beliefs"
  by code_simp

lemma support_reads_set: "set (support_reads_list env b) = support_reads env b"
  by (auto simp: support_reads_list_def support_reads_def)

lemma reads_set: "reads env b \<subseteq> set (reads_list env b)"
  by (fastforce simp: reads_def reads_list_def support_reads_set)

lemma reads_upwards_acyclic:
  assumes "reads_upwards env"
  shows "acyclic (depends env)"
proof -
  have "depends env \<subseteq> {(x, y). x < y}"
    using assms reads_set by (fastforce simp: depends_def reads_upwards_def list_all_iff)
  moreover have "acyclic {(x :: string, y). x < y}"
    by (subst acyclic_def, subst trancl_id) (auto intro: transI)
  ultimately show ?thesis by (rule acyclic_subset [rotated])
qed

section \<open>Every exit\<close>

text \<open>What no exit of the loop breaks: one label per belief, IN only for a belief admitted IN.\<close>

definition admitted_labels :: "relabel_env \<Rightarrow> labelling \<Rightarrow> bool" where
  "admitted_labels env L =
     (map fst L = ordered_ids env
      \<and> (\<forall>i b. map_of (env_beliefs env) i = Some b \<longrightarrow> map_of L i = Some IN \<longrightarrow> admission_status b = IN))"

lemma label_admitted: "label env L b = IN \<Longrightarrow> admission_status b = IN"
  by (cases "admission_status b") (auto simp: label_def candidate_status_def split: if_splits)

lemma next_admitted: "admitted_labels env (next_labels env L)"
  by (auto simp: admitted_labels_def next_labels_keys next_labels_get dest: label_admitted)

lemma update_admitted:
  assumes "admitted_labels env L" and "i \<in> set (ordered_ids env)" and "st \<noteq> IN"
  shows "admitted_labels env (AList.update i st L)"
  using assms by (auto simp: admitted_labels_def update_keys simp flip: set_map split: if_splits)

lemma suspend_admitted:
  "admitted_labels env L \<Longrightarrow> set ids \<subseteq> set (ordered_ids env) \<Longrightarrow>
     admitted_labels env (fst (suspend supported involved cause ids (L, causes)))"
  by (induction ids arbitrary: L causes) (auto simp: suspend_def update_admitted)

lemma drop_admitted:
  "admitted_labels env L \<Longrightarrow> fst ` set bs \<subseteq> set (ordered_ids env) \<Longrightarrow>
     admitted_labels env (fst (fold (drop_unsupported env supported) bs (L, causes)))"
proof (induction bs arbitrary: L causes)
  case (Cons x bs)
  obtain i b where x: "x = (i, b)" by (cases x)
  have "candidate_status b False \<noteq> IN" by (simp add: candidate_status_def)
  with Cons x show ?case by (simp add: Let_def update_admitted)
qed simp

lemma ceiling_admitted:
  assumes "admitted_labels env current"
  shows "admitted_labels env (rr_statuses (at_ceiling env current causes conflicts))"
proof -
  let ?s = "supported_ids env current"
  let ?d = "fold (drop_unsupported env ?s) (env_beliefs env) (current, causes)"
  have "admitted_labels env (fst ?d)"
    using assms by (intro drop_admitted) (auto simp: ordered_ids_def)
  then show ?thesis
    using suspend_admitted [of env "fst ?d" "ordered_ids env" ?s _ _ "snd ?d"]
    by (simp add: at_ceiling_def Let_def make_result_def)
qed

lemma relabel_loop_admitted:
  assumes "wf_env env" and "0 < left \<or> admitted_labels env current"
  shows "admitted_labels env (rr_statuses (relabel_loop env left n current seen causes conflicts))"
  using assms(2)
proof (induction left arbitrary: n current seen causes conflicts)
  case 0
  then show ?case by (simp add: ceiling_admitted)
next
  case (Suc left)
  let ?sw = "iterate_labels env current causes"
  have next_ok: "admitted_labels env (sw_next ?sw)"
    using sweep_is_next [OF assms(1)] next_admitted by simp
  then show ?case
    using Suc.IH [OF disjI2 [OF next_ok]]
      suspend_admitted [OF next_ok order_refl, of "supported_ids env current" _ _ "sw_causes ?sw"]
    by (auto simp: Let_def make_result_def split: prod.split) (metis fst_conv)+
qed

section \<open>Rebuttals alone\<close>

lemma compare_rebuts_get:
  assumes "compare_rebuts beliefs sources config rebuts = Inr comps" and "map_of comps i = Some c"
  shows "\<exists>e \<in> set rebuts. d_id e = i \<and> (\<exists>a t. map_of beliefs (attacker e) = Some a
    \<and> map_of beliefs (target e) = Some t \<and> compare_priority a t sources config = Inr c)"
proof -
  let ?P = "\<lambda>comps. \<forall>i c. map_of comps i = Some c \<longrightarrow> (\<exists>e \<in> set rebuts. d_id e = i
    \<and> (\<exists>a t. map_of beliefs (attacker e) = Some a \<and> map_of beliefs (target e) = Some t
        \<and> compare_priority a t sources config = Inr c))"
  have "?P comps"
    by (rule fold_result_invariant [OF assms(1) [unfolded compare_rebuts_def], where P = ?P])
       (auto simp: splits_result split: option.splits if_splits, blast)
  with assms(2) show ?thesis by blast
qed

lemma compare_priority_ranked:
  "compare_priority a t sources config = Inr c \<Longrightarrow>
     ranked config sources a \<and> ranked config sources t \<and> contest config sources a t = pc_result c"
  by (auto simp: compare_priority_def ranked_trace contest_def splits_result)

lemma acyclic_measure:
  assumes "R \<subseteq> inv_image S f" and "acyclic S" and "trans S"
  shows "acyclic R"
proof -
  have "(inv_image S f)\<^sup>+ = inv_image S f"
    using assms(3) by (intro trancl_id) (rule trans_inv_image)
  then have "acyclic (inv_image S f)"
    using assms(2) by (auto simp: acyclic_def)
  with assms(1) show ?thesis by (rule acyclic_subset [rotated])
qed

text \<open>
  With no undercut and only basic beliefs, a belief's label depends on the beliefs that win
  against it: the order of priority rules out a cycle.
\<close>

lemma rebuttals_acyclic:
  assumes env: "prepare beliefs justs supports defeats sources config now = Inr env"
    and wf: "wf_beliefs beliefs" and ids: "distinct (map d_id defeats)"
    and rebuts: "\<forall>e \<in> set defeats. d_kind e = REBUT"
    and basic: "\<forall>(i, b) \<in> set beliefs. b_pramana b \<in> set basic_types"
  shows "acyclic (depends env)"
proof (rule acyclic_measure)
  let ?b = "\<lambda>i. the (map_of beliefs i)"
  show "acyclic (engine.beats config sources)" by (rule engine.beats_acyclic)
  show "trans (engine.beats config sources)" by (auto intro: transI engine.beats_trans)
  from env have comps: "compare_rebuts beliefs sources config (filter (\<lambda>e. d_kind e = REBUT) (sort_key d_id defeats))
      = Inr (env_comparisons env)" and defeats: "env_defeats env = sort_key d_id defeats"
    by (auto simp: prepare_def Let_def splits_result)
  have none: "undercuts_of env t = []" for t
    using rebuts by (auto simp: undercuts_of_def defeats filter_empty_conv)
  have known: "map_of (env_beliefs env) = map_of beliefs" by (rule prepare_env(1) [OF env])
  have no_reads: "support_reads env b = {}" if "map_of beliefs i = Some b" for i b
    using basic none map_of_SomeD [OF that] by (auto simp: support_reads_def)
  show "depends env \<subseteq> inv_image (engine.beats config sources) ?b"
  proof (clarify, unfold in_inv_image)
    fix x i assume "(x, i) \<in> depends env"
    then obtain b where b: "(i, b) \<in> set (env_beliefs env)" "x \<in> reads env b"
      by (auto simp: depends_def)
    have wfe: "wf_env env" using env wf by (rule prepare_env(2))
    have ib: "map_of beliefs i = Some b" using env_belief_unique [OF wfe b(1)] known by simp
    have contest_reads: "support_reads env a \<union> support_reads env t = {}"
      if "rebut_contest env e = Some (a, t, c)" for e a t c
      using rebut_contest_ids [OF wfe that] no_reads known by (metis Un_empty)
    from b(2) obtain e a t c where e: "e \<in> set (env_rebuts env)" "rebut_contest env e = Some (a, t, c)"
      "0 < pc_result c" "b_id t = b_id b" "x = b_id a"
      unfolding reads_def no_reads [OF ib] using contest_reads by blast
    from rebut_contest_ids [OF wfe e(2)] known
    have a: "map_of beliefs x = Some a" "map_of beliefs (b_id t) = Some t"
      and c: "map_of (env_comparisons env) (d_id e) = Some c" and ats: "b_id a = attacker e" "b_id t = target e"
      using e(5) by auto
    from compare_rebuts_get [OF comps c] obtain e' a' t' where e': "e' \<in> set defeats" "d_id e' = d_id e"
      "map_of beliefs (attacker e') = Some a'" "map_of beliefs (target e') = Some t'"
      "compare_priority a' t' sources config = Inr c"
      by auto
    from e(1) have "e \<in> set defeats" by (simp add: env_rebuts_def defeats)
    with e'(1,2) ids have "e' = e" by (metis distinct_map inj_onD)
    with e' a ats e(5) have "compare_priority a t sources config = Inr c" by simp
    moreover have "t = b"
      using a(2) ib e(4) env_belief_id [OF wfe, of i b] known by simp
    ultimately show "(the (map_of beliefs x), the (map_of beliefs i)) \<in> engine.beats config sources"
      using compare_priority_ranked e(3) a(1) ib by (fastforce simp: engine.beats_def)
  qed
qed

section \<open>Properties\<close>

text \<open>
  C8. One pass of the relabelling loop, with its dictionaries updated edge by edge, computes
  the declarative rule for every belief at once: OUT when a strictly stronger rebuttal from an
  IN attacker outside an open conflict reaches it, else PENDING in a conflict of equals, else
  PENDING when stale, else by its admission and its support. The order of the edges is
  irrelevant.
\<close>

theorem relabel_pass_refines_rule:
  assumes "wf_env env"
  shows "sw_next (iterate_labels env current causes) = next_labels env current
    \<and> set (sw_conflicts (iterate_labels env current causes)) = conflict_pairs env current"
  using assms by (rule sweep_is_next)

theorem relabel_pass_refines_rule_witness:
  "\<exists>env. rebutted_env = Inr env
     \<and> sw_next (iterate_labels env (initial_labels env) []) = next_labels env (initial_labels env)"
proof -
  obtain env where env: "rebutted_env = Inr env"
    using rebutted_env_checked by (auto simp: succeeds_iff)
  then have "wf_env env" using prepare_env(2) rebutted_wf unfolding rebutted_env_def by blast
  from relabel_pass_refines_rule [OF this] env show ?thesis by blast
qed

text \<open>
  C9. A run of \<open>relabel\<close> that reports no oscillation returns a consistent labelling: it is a
  fixed point of the rule, a belief is IN only if it was admitted IN, has live support, is not
  stale and is not in conflict, and no active rebuttal points at a belief that is IN.
\<close>

theorem converged_relabel_consistent:
  assumes "relabel beliefs justs supports defeats sources config now = Inr r"
    and "\<not> rr_oscillation r" and "wf_beliefs beliefs"
  shows "\<exists>env. prepare beliefs justs supports defeats sources config now = Inr env
    \<and> stable env (rr_statuses r)
    \<and> (\<forall>i b. map_of beliefs i = Some b \<and> map_of (rr_statuses r) i = Some IN \<longrightarrow>
         admission_status b = IN \<and> is_supported env (rr_statuses r) b \<and> \<not> stale_now env b
         \<and> (\<forall>p \<in> set (rr_conflicts r). fst p \<noteq> i \<and> snd p \<noteq> i))
    \<and> (\<forall>e \<in> set (env_rebuts env). edge_active env (rr_statuses r) e \<longrightarrow>
         map_of (rr_statuses r) (target e) \<noteq> Some IN)"
proof -
  from assms(1) obtain env where env: "prepare beliefs justs supports defeats sources config now = Inr env"
    and r: "r = relabel_loop env (max_relabel_iterations config) 1 (initial_labels env) {} [] []"
    by (auto simp: relabel_Inr)
  note wf = prepare_env(2) [OF env assms(3)]
  let ?L = "rr_statuses r"
  have st: "stable env ?L" and conf: "set (rr_conflicts r) = conflict_pairs env ?L"
    using relabel_loop_stable [OF wf initial_keys] assms(2) unfolding r by blast+
  have get: "map_of ?L i = map_option (label env ?L) (map_of beliefs i)" for i
    using next_labels_get [of env ?L i] st prepare_env(1) [OF env] by (simp add: stable_def)
  have IN: "admission_status b = IN \<and> is_supported env ?L b \<and> \<not> stale_now env b
      \<and> \<not> in_conflict env ?L i \<and> \<not> beaten env ?L i"
    if "map_of beliefs i = Some b" "map_of ?L i = Some IN" for i b
  proof -
    have "b_id b = i" using env_belief_id [OF wf, of i b] prepare_env(1) [OF env] that(1) by simp
    moreover have "label env ?L b = IN" using get [of i] that by simp
    moreover have "admission_status b \<in> {IN, OUT, PENDING, QUARANTINED}"
      by (cases "admission_status b") auto
    ultimately show ?thesis
      by (auto simp: label_def candidate_status_def split: if_splits)
  qed
  have conflict: "fst p \<noteq> i \<and> snd p \<noteq> i" if "p \<in> set (rr_conflicts r)" "\<not> in_conflict env ?L i" for p i
    using that conflict_pairs_members unfolding conf by blast
  have rebut: "map_of ?L (target e) \<noteq> Some IN"
    if e: "e \<in> set (env_rebuts env)" and act: "edge_active env ?L e" for e
  proof
    assume tIN: "map_of ?L (target e) = Some IN"
    from e have "d_kind e = REBUT" by (simp add: env_rebuts_def)
    with act obtain a t c where c: "rebut_contest env e = Some (a, t, c)" "0 < pc_result c"
      and aIN: "map_of ?L (attacker e) = Some IN"
      by (auto simp: edge_active_def rebut_contest_def split: option.splits)
    from rebut_contest_ids [OF wf c(1)] prepare_env(1) [OF env]
    have ids: "b_id a = attacker e" "b_id t = target e" "map_of beliefs (attacker e) = Some a"
      "map_of beliefs (target e) = Some t" by auto
    from IN [OF ids(3) aIN] IN [OF ids(4) tIN]
    have not: "\<not> in_conflict env ?L (b_id a)" "is_supported env ?L t" "\<not> beaten env ?L (b_id t)"
      using ids by auto
    then have "(b_id a, b_id t) \<notin> conflict_pairs env ?L"
      "ordered_pair (b_id a) (b_id t) \<notin> conflict_pairs env ?L"
      using conflict_pairs_members [of "(b_id a, b_id t)" env ?L "b_id a"]
        conflict_pairs_members [of "ordered_pair (b_id a) (b_id t)" env ?L "b_id a"]
      by (auto simp: ordered_pair_def split: if_splits)
    then have "beaten_on env ?L (conflict_pairs env ?L) e (b_id t)"
      using c not(2) aIN ids by (auto simp: beaten_on_def)
    with e not(3) show False by (auto simp: beaten_def)
  qed
  show ?thesis
    by (intro exI [of _ env] conjI env st allI impI ballI)
       (use IN conflict rebut in blast)+
qed

theorem converged_relabel_consistent_witness:
  "\<exists>env r. rebutted_run = Inr r \<and> stable env (rr_statuses r) \<and> map_of (rr_statuses r) ''b'' = Some OUT"
proof -
  obtain r where r: "rebutted_run = Inr r" "\<not> rr_oscillation r" "map_of (rr_statuses r) ''b'' = Some OUT"
    using rebutted_run_labels by (auto simp: succeeds_iff)
  from converged_relabel_consistent [OF r(1) [unfolded rebutted_run_def] r(2) rebutted_wf] r
  show ?thesis by blast
qed

text \<open>
  C10. Where no belief's label depends on itself through premises, undercuts, winning rebuttals
  and ties, and the configured ceiling of iterations is above the number of beliefs, \<open>relabel\<close> never
  reports an oscillation, needs at most one iteration more than there are beliefs, and returns the
  only stable labelling.
\<close>

theorem relabel_converges_acyclic:
  assumes "prepare beliefs justs supports defeats sources config now = Inr env"
    and "wf_beliefs beliefs" and "acyclic (depends env)"
    and "length (env_beliefs env) < max_relabel_iterations config"
  shows "\<exists>r. relabel beliefs justs supports defeats sources config now = Inr r
    \<and> \<not> rr_oscillation r \<and> rr_iterations r \<le> Suc (length (env_beliefs env))
    \<and> stable env (rr_statuses r)
    \<and> (\<forall>L. stable env L \<longrightarrow> L = rr_statuses r)"
proof -
  let ?r = "relabel_loop env (max_relabel_iterations config) 1 (initial_labels env) {} [] []"
  have wf: "wf_env env" using assms(1,2) by (rule prepare_env(2))
  have "\<not> rr_oscillation ?r \<and> stable env (rr_statuses ?r) \<and> rr_iterations ?r + 0 \<le> 1 + length (env_beliefs env)"
    using assms(4) by (intro relabel_loop_converges [OF wf assms(3) initial_keys]) auto
  moreover have "relabel beliefs justs supports defeats sources config now = Inr ?r"
    using assms(1) by (auto simp: relabel_Inr)
  ultimately show ?thesis
    using stable_unique [OF wf assms(3)] by (intro exI [of _ ?r]) auto
qed

theorem relabel_converges_acyclic_witness:
  "\<exists>r. rebutted_run = Inr r \<and> \<not> rr_oscillation r \<and> rr_iterations r \<le> 4"
proof -
  obtain env where env: "rebutted_env = Inr env" "reads_upwards env" "length (env_beliefs env) = 3"
    using rebutted_env_checked by (auto simp: succeeds_iff)
  have "max_relabel_iterations default_config = 256" by (simp add: default_config_def)
  with relabel_converges_acyclic [OF env(1) [unfolded rebutted_env_def] rebutted_wf
      reads_upwards_acyclic [OF env(2)]] env(3)
  show ?thesis unfolding rebutted_run_def by (auto simp: eval_nat_numeral)
qed

text \<open>
  C18. Whatever way the loop ends (fixed point, oscillation or the ceiling of iterations), the
  result labels exactly the given beliefs and no belief whose admission was OUT, PENDING or
  QUARANTINED comes out IN.
\<close>

theorem relabel_never_admits:
  assumes "relabel beliefs justs supports defeats sources config now = Inr r"
    and "wf_beliefs beliefs" and "0 < max_relabel_iterations config"
  shows "map fst (rr_statuses r) = sorted_set (map fst beliefs)
    \<and> (\<forall>i b. map_of beliefs i = Some b \<and> admission_status b \<noteq> IN \<longrightarrow> map_of (rr_statuses r) i \<noteq> Some IN)"
proof -
  from assms(1) obtain env where env: "prepare beliefs justs supports defeats sources config now = Inr env"
    and r: "r = relabel_loop env (max_relabel_iterations config) 1 (initial_labels env) {} [] []"
    by (auto simp: relabel_Inr)
  have "admitted_labels env (rr_statuses r)"
    unfolding r using prepare_env(2) [OF env assms(2)] assms(3) by (intro relabel_loop_admitted) auto
  then show ?thesis
    using prepare_env(1,3) [OF env] by (auto simp: admitted_labels_def)
qed

theorem relabel_never_admits_witness:
  "\<exists>r. liar_run = Inr r \<and> map fst (rr_statuses r) = sorted_set (map fst liar_beliefs)"
proof -
  obtain r where r: "liar_run = Inr r"
    using liar_run_labels by (auto simp: succeeds_iff)
  have "wf_beliefs liar_beliefs" by code_simp
  moreover have "0 < max_relabel_iterations default_config" by (simp add: default_config_def)
  ultimately show ?thesis
    using relabel_never_admits [OF r [unfolded liar_run_def]] r by blast
qed

text \<open>
  C17. Among observed or testified beliefs that only rebut one another, fewer than the configured
  ceiling of iterations, relabelling settles: the order of priority has no cycle, so no oscillation
  is reported and the result is the only stable labelling, reached after at most one iteration more
  than there are beliefs.
\<close>

theorem rebuttals_always_settle:
  assumes "relabel beliefs justs supports defeats sources config now = Inr r"
    and "wf_beliefs beliefs" and "distinct (map d_id defeats)"
    and "\<forall>e \<in> set defeats. d_kind e = REBUT"
    and "\<forall>(i, b) \<in> set beliefs. b_pramana b \<in> set basic_types"
    and "length beliefs < max_relabel_iterations config"
  shows "\<not> rr_oscillation r \<and> rr_iterations r \<le> Suc (length beliefs)
    \<and> (\<exists>env. prepare beliefs justs supports defeats sources config now = Inr env
         \<and> stable env (rr_statuses r) \<and> (\<forall>L. stable env L \<longrightarrow> L = rr_statuses r))"
proof -
  from assms(1) obtain env where env: "prepare beliefs justs supports defeats sources config now = Inr env"
    and r: "r = relabel_loop env (max_relabel_iterations config) 1 (initial_labels env) {} [] []"
    by (auto simp: relabel_Inr)
  have "length (env_beliefs env) = card (set (map fst beliefs))"
    using prepare_env(3) [OF env] by (metis distinct_card distinct_sorted_set length_map ordered_ids_def set_sorted_set)
  also have "\<dots> \<le> length beliefs" by (metis card_length length_map)
  finally have len: "length (env_beliefs env) \<le> length beliefs" .
  have "\<not> rr_oscillation r \<and> stable env (rr_statuses r) \<and> rr_iterations r + 0 \<le> 1 + length (env_beliefs env)"
    unfolding r using assms(6) len
    by (intro relabel_loop_converges [OF prepare_env(2) [OF env assms(2)]
          rebuttals_acyclic [OF env assms(2-5)] initial_keys]) auto
  moreover have "\<forall>L. stable env L \<longrightarrow> L = rr_statuses r"
    using stable_unique [OF prepare_env(2) [OF env assms(2)] rebuttals_acyclic [OF env assms(2-5)]] calculation by blast
  ultimately show ?thesis using len env by auto
qed

theorem rebuttals_always_settle_witness:
  "\<exists>r. duel_run = Inr r \<and> \<not> rr_oscillation r"
proof -
  have "succeeds duel_run (\<lambda>r. map_of (rr_statuses r) ''b'' = Some OUT)" by code_simp
  then obtain r where r: "duel_run = Inr r" by (auto simp: succeeds_iff)
  have "wf_beliefs (take 2 rebutted_beliefs)" by code_simp
  then show ?thesis
    using rebuttals_always_settle [OF r [unfolded duel_run_def]] r
    by (auto simp: defeat_of_def rebutted_beliefs_def claim_of_def sample_belief_def basic_types_def
        default_config_def)
qed

text \<open>
  The oscillation rule overlooks premises: an inference that undercuts the support of its
  own premise makes the loop revisit a labelling, but premises are not edges of the defeat
  graph, so nothing is suspended and the returned labelling has both beliefs IN while the
  undercut of the only support of the first one is active.
\<close>

theorem liar_oscillation_inconsistent:
  "succeeds liar_run (\<lambda>r. rr_oscillation r \<and> map_of (rr_statuses r) ''a'' = Some IN
     \<and> map_of (rr_statuses r) ''b'' = Some IN \<and> map_of (rr_active_edges r) ''d'' = Some True)"
  by (rule liar_run_labels)

end
