(* ===== verification/Chain.thy ===== *)
theory Chain
  imports Models
begin

text \<open>
  Hash chains: the encoding \<open>events.py\<close> hashes, and the interface \<open>hash_chain\<close> that the ledger's
  event log and the authorization log both provide. SHA-256 is a parameter; what tampering
  cannot achieve is stated as the alternative of a collision of it.
\<close>

section \<open>Canonical text as hash input\<close>

definition GENESIS :: string where
  "GENESIS = replicate 64 (CHR ''0'')"

definition NUL :: char where
  "NUL = CHR 0x00"

lemma show_nat_no_nul: "NUL \<notin> set (show_nat n)"
  using show_nat_digits [of NUL n] by (auto simp: NUL_def)

lemma number_no_nul: "list_all number_char t \<Longrightarrow> NUL \<notin> set t"
  by (auto simp: list_all_iff NUL_def number_char_def Let_def)

lemma hex_digit_not_nul: "d < 16 \<Longrightarrow> hex_digit d \<noteq> NUL"
proof
  assume "d < 16" and "hex_digit d = NUL"
  then have "(of_char (hex_digit d) :: nat) = 0" by (simp add: NUL_def)
  with \<open>d < 16\<close> show False by (auto simp: hex_digit_def split: if_splits)
qed

lemma escape_char_no_nul: "NUL \<notin> set (escape_char c)"
proof -
  have "of_char c \<noteq> (0 :: nat) \<Longrightarrow> c \<noteq> NUL" by (auto simp: NUL_def)
  moreover have "(of_char c :: nat) < 32 \<Longrightarrow>
      hex_digit (of_char c div 16) \<noteq> NUL \<and> hex_digit (of_char c mod 16) \<noteq> NUL"
    by (intro conjI hex_digit_not_nul) auto
  ultimately show ?thesis
    by (auto simp: escape_char_def Let_def NUL_def)
qed

lemma quote_str_no_nul: "NUL \<notin> set (quote_str s)"
  using escape_char_no_nul by (auto simp: quote_str_def NUL_def)

lemma join_with_set: "set (join_with sep xs) \<subseteq> set sep \<union> \<Union> (set ` set xs)"
  by (induction sep xs rule: join_with.induct) auto

lemma join_with_no_nul:
  "NUL \<notin> set sep \<Longrightarrow> (\<And>x. x \<in> set xs \<Longrightarrow> NUL \<notin> set x) \<Longrightarrow> NUL \<notin> set (join_with sep xs)"
  using join_with_set [of sep xs] by blast

lemma print_json_no_nul: "wf_json v \<Longrightarrow> NUL \<notin> set (print_json v)"
proof (induction v)
  case (JInt i)
  then show ?case using number_no_nul [OF show_int_number_chars] by simp
next
  case (JFloat t)
  then show ?case by (auto simp: float_text_def dest: number_no_nul)
next
  case (JStr s)
  then show ?case by (simp add: quote_str_no_nul)
next
  case (JArr xs)
  then have "NUL \<notin> set (join_with '','' (map print_json xs))"
    by (intro join_with_no_nul) (auto simp: list_all_iff NUL_def)
  then show ?case by (simp add: NUL_def)
next
  case (JObj kvs)
  have "NUL \<notin> set (join_with '','' (map print_member kvs))"
  proof (rule join_with_no_nul)
    show "NUL \<notin> set '',''" by (simp add: NUL_def)
    fix x
    assume "x \<in> set (map print_member kvs)"
    then obtain kv where kv: "kv \<in> set kvs" "x = print_member kv" by auto
    then have "NUL \<notin> set (print_json (snd kv))"
      using JObj by (auto simp: list_all_iff snds.simps)
    with kv quote_str_no_nul [of "fst kv"] show "NUL \<notin> set x"
      by (simp add: print_member_def NUL_def)
  qed
  then show ?case by (simp add: print_json_Obj NUL_def del: print_json.simps(7))
qed (auto simp: NUL_def)

text \<open>A hash input: the previous hash, a zero byte, the canonical text of the body.\<close>

definition chain_material :: "string \<Rightarrow> json \<Rightarrow> string" where
  "chain_material previous body = previous @ [NUL] @ canonical_json body"

lemma split_last_unique:
  assumes "p @ [x] @ s = q @ [x] @ t" and "x \<notin> set s" and "x \<notin> set t"
  shows "p = q \<and> s = t"
proof -
  have *: "takeWhile (\<lambda>c. c \<noteq> x) (rev s @ x # rev p) = rev s" if "x \<notin> set s" for s p :: "'a list"
    using that by (simp add: takeWhile_append)
  from assms(1) have "rev s @ x # rev p = rev t @ x # rev q"
    by (metis append.assoc append_Cons append_Nil rev.simps(2) rev_append rev_rev_ident)
  then have "rev s = rev t" using * [OF assms(2), of p] * [OF assms(3), of q] by metis
  with assms(1) show ?thesis by simp
qed

lemma chain_material_inj:
  assumes "wf_json v" and "wf_json w" and "chain_material p v = chain_material q w"
  shows "p = q \<and> sort_keys v = sort_keys w"
proof -
  have "p = q \<and> canonical_json v = canonical_json w"
    using assms(3) print_json_no_nul [OF wf_sort_keys, OF assms(1)]
      print_json_no_nul [OF wf_sort_keys, OF assms(2)]
    by (intro split_last_unique [where x = NUL]) (simp_all add: chain_material_def canonical_json_def)
  with canonical_json_inj [OF assms(1,2)] show ?thesis by simp
qed

text \<open>Equal objects have equal members, whatever the order of their keys.\<close>

lemma map_of_filter: "map_of xs k = (case filter (\<lambda>x. fst x = k) xs of [] \<Rightarrow> None | x # _ \<Rightarrow> Some (snd x))"
  by (induction xs) auto

lemma map_of_sort_key: "map_of (sort_key fst xs) k = map_of xs k"
  by (simp add: map_of_filter sort_key_stable)

lemma sort_keys_member:
  assumes "sort_keys (JObj kvs) = sort_keys (JObj lvs)"
  shows "map_option sort_keys (map_of kvs k) = map_option sort_keys (map_of lvs k)"
proof -
  have "map_of (sort_key fst (map (map_prod id sort_keys) xs)) k = map_option sort_keys (map_of xs k)" for xs
    by (simp add: map_of_sort_key map_prod_def map_of_map id_def)
  from this [of kvs] this [of lvs] assms show ?thesis by simp
qed

section \<open>The interface\<close>

text \<open>
  \<open>material\<close> is what an entry's hash commits to; two entries with the same material and the same
  hash are the same entry.
\<close>

locale hash_chain =
  fixes seq_of :: "'e \<Rightarrow> nat"
    and prev_of :: "'e \<Rightarrow> string"
    and hash_of :: "'e \<Rightarrow> string"
    and material :: "'e \<Rightarrow> string"
    and sha :: "string \<Rightarrow> string"
    and canonical :: "'e \<Rightarrow> bool"
  assumes material_inj: "\<lbrakk>canonical e; canonical f; material e = material f; hash_of e = hash_of f\<rbrakk> \<Longrightarrow> e = f"
begin

fun linked :: "nat \<Rightarrow> string \<Rightarrow> 'e list \<Rightarrow> bool" where
  "linked n p [] = True"
| "linked n p (e # es) =
     (seq_of e = n \<and> prev_of e = p \<and> hash_of e = sha (material e) \<and> linked (Suc n) (hash_of e) es)"

definition head :: "string \<Rightarrow> 'e list \<Rightarrow> string" where
  "head p es = (if es = [] then p else hash_of (last es))"

lemma head_simps [simp]: "head p [] = p" "head p (es @ [e]) = hash_of e"
  by (simp_all add: head_def)

lemma head_Cons: "head p (e # es) = head (hash_of e) es"
  by (simp add: head_def)

lemma linked_append: "linked n p (es @ fs) \<longleftrightarrow> linked n p es \<and> linked (n + length es) (head p es) fs"
  by (induction n p es rule: linked.induct) (auto simp: head_Cons)

lemma linked_snoc:
  "linked n p (es @ [e]) \<longleftrightarrow> linked n p es \<and> seq_of e = n + length es \<and> prev_of e = head p es
     \<and> hash_of e = sha (material e)"
  by (simp add: linked_append)

lemma linked_prefix: "linked n p (es @ fs) \<Longrightarrow> linked n p es"
  by (simp add: linked_append)

lemma linked_seqs: "linked n p es \<Longrightarrow> map seq_of es = [n ..< n + length es]"
proof (induction n p es rule: linked.induct)
  case (2 n p e es)
  then have "map seq_of es = [Suc n ..< Suc n + length es]" and "seq_of e = n" by auto
  then show ?case by (simp add: upt_conv_Cons del: upt_Suc)
qed simp

definition collision :: "'e list \<Rightarrow> 'e list \<Rightarrow> bool" where
  "collision es fs =
     (\<exists>e \<in> set es. \<exists>f \<in> set fs. material e \<noteq> material f \<and> sha (material e) = sha (material f))"

text \<open>The head commits to the whole history: equal heads mean equal logs, or a collision.\<close>

lemma head_commits:
  assumes "linked n p es" and "linked n p fs" and "es \<noteq> []" and "fs \<noteq> []"
    and "\<forall>e \<in> set es \<union> set fs. canonical e" and "head p es = head p fs"
  shows "es = fs \<or> collision es fs"
  using assms
proof (induction es arbitrary: fs rule: rev_induct)
  case (snoc e es)
  from snoc.prems(4) obtain fs' f where fs: "fs = fs' @ [f]" by (metis rev_exhaust)
  with snoc.prems have e: "seq_of e = n + length es" "prev_of e = head p es" "hash_of e = sha (material e)"
    and f: "seq_of f = n + length fs'" "prev_of f = head p fs'" "hash_of f = sha (material f)"
    and l: "linked n p es" "linked n p fs'" and h: "hash_of e = hash_of f"
    by (auto simp: linked_snoc)
  show ?case
  proof (cases "material e = material f")
    case False
    with e f h fs show ?thesis by (auto simp: collision_def)
  next
    case True
    with snoc.prems(5) fs h have ef: "e = f" by (intro material_inj) auto
    with e f have len: "length es = length fs'" and hd: "head p es = head p fs'" by auto
    have "es = fs' \<or> collision es fs'"
    proof (cases "es = []")
      case False
      with snoc.IH [OF l False _ _ hd] snoc.prems(5) fs len show ?thesis by fastforce
    qed (use len in simp)
    with ef fs show ?thesis by (auto simp: collision_def)
  qed
qed simp

end

end
