(* ===== verification/Permits.thy ===== *)
theory Permits
  imports Chain "HOL-Library.Multiset"
begin

text \<open>
  \<open>enforcement.py\<close>: bound approvals and single-use action permits. The SQLite tables are lists of
  rows in the order of their rowids, the append-only event table is a list in the order of its
  sequence numbers. One operation is one transaction: it returns the new state with its result,
  and a rolled-back operation returns the old state with the error.

  SHA-256, the identifiers of the identity provider and the text of a timestamp come from
  outside the code; they are the fields of \<open>deps\<close>. One operation reads the clock once. A row
  keeps a binding as a record: \<open>json.loads\<close> of the canonical text of a binding is that binding.
\<close>

section \<open>Bindings\<close>

record approval_binding =
  ab_schema_version :: int
  ab_episode_id :: string
  ab_turn_id :: string
  ab_namespace :: string
  ab_tool_name :: string
  ab_arguments_hash :: string
  ab_target :: string
  ab_policy_id :: string
  ab_policy_revision :: string
  ab_scope :: string

record action_binding =
  ac_schema_version :: int
  ac_episode_id :: string
  ac_turn_id :: string
  ac_namespace :: string
  ac_tool_name :: string
  ac_arguments_hash :: string
  ac_target :: string
  ac_policy_id :: string
  ac_policy_revision :: string
  canonicalization_version :: int
  policy_content_digest :: string
  config_content_digest :: string
  ac_stakes :: string
  supporting_belief_ids :: "string list"
  blocking_conflict_ids :: "string list"
  approval_receipt_digest :: "string option"

definition json_of_strings :: "string list \<Rightarrow> json" where
  "json_of_strings xs = JArr (map JStr xs)"

definition json_of_option :: "string option \<Rightarrow> json" where
  "json_of_option v = (case v of None \<Rightarrow> JNull | Some s \<Rightarrow> JStr s)"

text \<open>\<open>asdict\<close> of the two bindings\<close>

definition approval_json :: "approval_binding \<Rightarrow> json" where
  "approval_json b = JObj
     [(''schema_version'', JInt (ab_schema_version b)), (''episode_id'', JStr (ab_episode_id b)),
      (''turn_id'', JStr (ab_turn_id b)), (''namespace'', JStr (ab_namespace b)),
      (''tool_name'', JStr (ab_tool_name b)), (''arguments_hash'', JStr (ab_arguments_hash b)),
      (''target'', JStr (ab_target b)), (''policy_id'', JStr (ab_policy_id b)),
      (''policy_revision'', JStr (ab_policy_revision b)), (''scope'', JStr (ab_scope b))]"

definition action_json :: "action_binding \<Rightarrow> json" where
  "action_json b = JObj
     [(''schema_version'', JInt (ac_schema_version b)), (''episode_id'', JStr (ac_episode_id b)),
      (''turn_id'', JStr (ac_turn_id b)), (''namespace'', JStr (ac_namespace b)),
      (''tool_name'', JStr (ac_tool_name b)), (''arguments_hash'', JStr (ac_arguments_hash b)),
      (''target'', JStr (ac_target b)), (''policy_id'', JStr (ac_policy_id b)),
      (''policy_revision'', JStr (ac_policy_revision b)),
      (''canonicalization_version'', JInt (canonicalization_version b)),
      (''policy_content_digest'', JStr (policy_content_digest b)),
      (''config_content_digest'', JStr (config_content_digest b)), (''stakes'', JStr (ac_stakes b)),
      (''supporting_belief_ids'', json_of_strings (supporting_belief_ids b)),
      (''blocking_conflict_ids'', json_of_strings (blocking_conflict_ids b)),
      (''approval_receipt_digest'', json_of_option (approval_receipt_digest b))]"

section \<open>State\<close>

datatype permit_state = Issued | Consumed | Expired | Revoked

fun permit_state_value :: "permit_state \<Rightarrow> string" where
  "permit_state_value Issued = ''issued''"
| "permit_state_value Consumed = ''consumed''"
| "permit_state_value Expired = ''expired''"
| "permit_state_value Revoked = ''revoked''"

text \<open>\<open>state.upper()\<close> behind its prefix.\<close>

fun state_upper :: "permit_state \<Rightarrow> string" where
  "state_upper Issued = ''ISSUED''"
| "state_upper Consumed = ''CONSUMED''"
| "state_upper Expired = ''EXPIRED''"
| "state_upper Revoked = ''REVOKED''"

record approval_row =
  ar_digest :: string
  ar_binding_digest :: string
  ar_binding :: approval_binding
  ar_issued_at :: string
  ar_expires_at :: string
  ar_state :: permit_state

record action_row =
  dr_token :: string
  dr_binding_digest :: string
  dr_binding :: action_binding
  dr_issued_at :: string
  dr_expires_at :: string
  dr_state :: permit_state

text \<open>The payload of an authorization event, one constructor per kind.\<close>

datatype permit_event =
    ApprovalDenied string string approval_binding nat
  | ApprovalIssued string string approval_binding string string
  | ApprovalRevoked string string
  | ApprovalConsumed string
  | ApprovalExpired string
  | ActionRejected string string "action_binding option"
  | ActionIssued string string action_binding string string
  | ActionExpired string string
  | ActionRevoked string string "string option"
  | ActionConsumed string string

record event_row =
  er_seq :: nat
  er_id :: string
  er_at :: string
  er_payload :: permit_event
  er_previous_hash :: string
  er_event_hash :: string

record permit_tables =
  receipts :: "approval_row list"
  decisions :: "action_row list"
  decision_episodes :: "(string \<times> string) list"
  decision_supports :: "(string \<times> string) list"

record permit_store = permit_tables +
  event_log :: "event_row list"

record deps =
  sha256 :: "string \<Rightarrow> string"
  event_id :: "nat \<Rightarrow> string"
  iso :: "int \<Rightarrow> string"

definition empty_store :: permit_store where
  "empty_store = \<lparr>receipts = [], decisions = [], decision_episodes = [], decision_supports = [],
     event_log = []\<rparr>"

definition approval_digest :: "deps \<Rightarrow> approval_binding \<Rightarrow> string" where
  "approval_digest d b = sha256 d (canonical_json (approval_json b))"

definition action_digest :: "deps \<Rightarrow> action_binding \<Rightarrow> string" where
  "action_digest d b = sha256 d (canonical_json (action_json b))"

definition receipt_digest :: "deps \<Rightarrow> string \<Rightarrow> approval_binding \<Rightarrow> string" where
  "receipt_digest d receipt_id b =
     sha256 d (canonical_json (JObj [(''id'', JStr receipt_id), (''binding'', approval_json b)]))"

section \<open>Events\<close>

fun event_kind :: "permit_event \<Rightarrow> string" where
  "event_kind (ApprovalDenied r bd b n) = ''APPROVAL_RECEIPT_DENIED''"
| "event_kind (ApprovalIssued r bd b i x) = ''APPROVAL_RECEIPT_ISSUED''"
| "event_kind (ApprovalRevoked r reason) = ''APPROVAL_RECEIPT_REVOKED''"
| "event_kind (ApprovalConsumed r) = ''APPROVAL_RECEIPT_CONSUMED''"
| "event_kind (ApprovalExpired r) = ''APPROVAL_RECEIPT_EXPIRED''"
| "event_kind (ActionRejected t reason b) = ''ACTION_DECISION_REJECTED''"
| "event_kind (ActionIssued t bd b i x) = ''ACTION_DECISION_ISSUED''"
| "event_kind (ActionExpired t reason) = ''ACTION_DECISION_EXPIRED''"
| "event_kind (ActionRevoked t reason b) = ''ACTION_DECISION_REVOKED''"
| "event_kind (ActionConsumed t bd) = ''ACTION_DECISION_CONSUMED''"

fun event_fields :: "permit_event \<Rightarrow> (string \<times> json) list" where
  "event_fields (ApprovalDenied r bd b n) =
     [(''receipt_digest'', JStr r), (''binding_digest'', JStr bd), (''binding'', approval_json b),
      (''revoked_prior_receipts'', JInt (int n))]"
| "event_fields (ApprovalIssued r bd b i x) =
     [(''receipt_digest'', JStr r), (''binding_digest'', JStr bd), (''binding'', approval_json b),
      (''issued_at'', JStr i), (''expires_at'', JStr x)]"
| "event_fields (ApprovalRevoked r reason) =
     [(''receipt_digest'', JStr r), (''reason_code'', JStr reason)]"
| "event_fields (ApprovalConsumed r) = [(''receipt_digest'', JStr r)]"
| "event_fields (ApprovalExpired r) = [(''receipt_digest'', JStr r)]"
| "event_fields (ActionRejected t reason b) =
     [(''token_digest'', JStr t), (''reason_code'', JStr reason)]
     @ (case b of None \<Rightarrow> [] | Some a \<Rightarrow> [(''binding'', action_json a)])"
| "event_fields (ActionIssued t bd b i x) =
     [(''token_digest'', JStr t), (''binding_digest'', JStr bd), (''binding'', action_json b),
      (''issued_at'', JStr i), (''expires_at'', JStr x),
      (''supporting_belief_ids'', json_of_strings (supporting_belief_ids b))]"
| "event_fields (ActionExpired t reason) =
     [(''token_digest'', JStr t), (''reason_code'', JStr reason)]"
| "event_fields (ActionRevoked t reason b) =
     [(''token_digest'', JStr t), (''reason_code'', JStr reason)]
     @ (case b of None \<Rightarrow> [] | Some i \<Rightarrow> [(''belief_id'', JStr i)])"
| "event_fields (ActionConsumed t bd) =
     [(''token_digest'', JStr t), (''binding_digest'', JStr bd)]"

definition payload_json :: "permit_event \<Rightarrow> json" where
  "payload_json p = JObj ((''payload_schema_version'', JInt 1) # event_fields p)"

definition event_body :: "nat \<Rightarrow> string \<Rightarrow> string \<Rightarrow> permit_event \<Rightarrow> string \<Rightarrow> json" where
  "event_body n i t p previous = JObj
     [(''seq'', JInt (int n)), (''id'', JStr i), (''at'', JStr t), (''kind'', JStr (event_kind p)),
      (''payload_schema_version'', JInt 1), (''payload'', payload_json p),
      (''previous_hash'', JStr previous)]"

definition event_material :: "event_row \<Rightarrow> string" where
  "event_material e = chain_material (er_previous_hash e)
     (event_body (er_seq e) (er_id e) (er_at e) (er_payload e) (er_previous_hash e))"

definition make_event :: "deps \<Rightarrow> string \<Rightarrow> event_row list \<Rightarrow> permit_event \<Rightarrow> event_row" where
  "make_event d at_text events p =
     (let n = (if events = [] then 1 else er_seq (last events) + 1);
          previous = (if events = [] then GENESIS else er_event_hash (last events));
          i = event_id d n
      in \<lparr>er_seq = n, er_id = i, er_at = at_text, er_payload = p, er_previous_hash = previous,
          er_event_hash = sha256 d (chain_material previous (event_body n i at_text p previous))\<rparr>)"

definition append_event :: "deps \<Rightarrow> int \<Rightarrow> permit_event \<Rightarrow> permit_store \<Rightarrow> permit_store" where
  "append_event d now p s =
     s\<lparr>event_log := event_log s @ [make_event d (iso d now) (event_log s) p]\<rparr>"

section \<open>Table updates\<close>

definition set_receipt :: "string \<Rightarrow> permit_state \<Rightarrow> approval_row list \<Rightarrow> approval_row list" where
  "set_receipt digest st rows =
     map (\<lambda>r. if ar_digest r = digest \<and> ar_state r = Issued then r\<lparr>ar_state := st\<rparr> else r) rows"

definition revoke_binding :: "string \<Rightarrow> approval_row list \<Rightarrow> approval_row list" where
  "revoke_binding bd rows =
     map (\<lambda>r. if ar_binding_digest r = bd \<and> ar_state r = Issued then r\<lparr>ar_state := Revoked\<rparr> else r) rows"

definition set_decision :: "string \<Rightarrow> permit_state \<Rightarrow> action_row list \<Rightarrow> action_row list" where
  "set_decision token st rows =
     map (\<lambda>r. if dr_token r = token \<and> dr_state r = Issued then r\<lparr>dr_state := st\<rparr> else r) rows"

definition find_receipt :: "string \<Rightarrow> approval_row list \<Rightarrow> approval_row option" where
  "find_receipt digest rows = find (\<lambda>r. ar_digest r = digest) rows"

definition find_decision :: "string \<Rightarrow> action_row list \<Rightarrow> action_row option" where
  "find_decision token rows = find (\<lambda>r. dr_token r = token) rows"

section \<open>Approvals\<close>

type_synonym 'a outcome_of = "permit_store \<times> 'a result"

definition issue_approval ::
  "deps \<Rightarrow> int \<Rightarrow> string \<Rightarrow> approval_binding \<Rightarrow> int \<Rightarrow> bool \<Rightarrow> permit_store
     \<Rightarrow> approval_row option outcome_of" where
  "issue_approval d now receipt_id b ttl_seconds approved s =
     (if ttl_seconds \<le> 0 then (s, Inl (ValueError ''approval ttl_seconds must be positive''))
      else
        let digest = receipt_digest d receipt_id b;
            bd = approval_digest d b;
            issued = iso d now;
            expires = iso d (now + ttl_seconds * 1000000)
        in if \<not> approved then
             let revoked = length (filter (\<lambda>r. ar_binding_digest r = bd \<and> ar_state r = Issued) (receipts s))
             in (append_event d now (ApprovalDenied digest bd b revoked)
                   (s\<lparr>receipts := revoke_binding bd (receipts s)\<rparr>), Inr None)
           else if digest \<in> set (map ar_digest (receipts s)) then
             (s, Inl (IntegrityError ''UNIQUE constraint failed: approval_receipts.digest''))
           else
             let row = \<lparr>ar_digest = digest, ar_binding_digest = bd, ar_binding = b,
                        ar_issued_at = issued, ar_expires_at = expires, ar_state = Issued\<rparr>
             in (append_event d now (ApprovalIssued digest bd b issued expires)
                   (s\<lparr>receipts := receipts s @ [row]\<rparr>), Inr (Some row)))"

definition revoke_approval :: "deps \<Rightarrow> int \<Rightarrow> string \<Rightarrow> string \<Rightarrow> permit_store \<Rightarrow> bool outcome_of" where
  "revoke_approval d now digest reason s =
     (let updated = list_ex (\<lambda>r. ar_digest r = digest \<and> ar_state r = Issued) (receipts s);
          s' = s\<lparr>receipts := set_receipt digest Revoked (receipts s)\<rparr>
      in (if updated then append_event d now (ApprovalRevoked digest reason) s' else s', Inr updated))"

definition current_approval :: "deps \<Rightarrow> int \<Rightarrow> approval_binding \<Rightarrow> permit_store \<Rightarrow> approval_row option" where
  "current_approval d now b s =
     (case find (\<lambda>r. ar_binding_digest r = approval_digest d b) (rev (receipts s)) of
        None \<Rightarrow> None
      | Some r \<Rightarrow>
          if ar_state r \<noteq> Issued then None
          else if iso d now \<ge> ar_expires_at r then None
          else Some r)"

definition expected_approval :: "action_binding \<Rightarrow> string \<Rightarrow> approval_binding" where
  "expected_approval b scope = \<lparr>ab_schema_version = 1, ab_episode_id = ac_episode_id b,
     ab_turn_id = ac_turn_id b, ab_namespace = ac_namespace b, ab_tool_name = ac_tool_name b,
     ab_arguments_hash = ac_arguments_hash b, ab_target = ac_target b, ab_policy_id = ac_policy_id b,
     ab_policy_revision = ac_policy_revision b, ab_scope = scope\<rparr>"

text \<open>\<open>_approval_reason\<close>: why the approval a binding names does not cover it, if it does not.\<close>

definition approval_reason ::
  "deps \<Rightarrow> int \<Rightarrow> action_binding \<Rightarrow> bool \<Rightarrow> permit_store \<Rightarrow> permit_store \<times> string option" where
  "approval_reason d now b allow_consumed s =
     (case approval_receipt_digest b of
        None \<Rightarrow> (s, None)
      | Some digest \<Rightarrow>
          if digest = [] then (s, None)
          else case find_receipt digest (receipts s) of
                 None \<Rightarrow> (s, Some ''APPROVAL_NOT_FOUND'')
               | Some row \<Rightarrow>
                   let st = (if ar_state row = Consumed \<and> allow_consumed then Issued else ar_state row)
                   in if st \<noteq> Issued then (s, Some (''APPROVAL_'' @ state_upper st))
                      else if iso d now \<ge> ar_expires_at row then
                        (append_event d now (ApprovalExpired digest)
                           (s\<lparr>receipts := set_receipt digest Expired (receipts s)\<rparr>),
                         Some ''APPROVAL_EXPIRED'')
                      else if ar_binding row = expected_approval b (ab_scope (ar_binding row))
                      then (s, None)
                      else (s, Some ''APPROVAL_BINDING_MISMATCH''))"

section \<open>Permits\<close>

record action_decision =
  ad_token :: string
  ad_token_digest :: string
  ad_binding :: action_binding
  ad_issued_at :: string
  ad_expires_at :: string

definition single_use_scopes :: "string list" where
  "single_use_scopes = [''single_use'', ''exact_action'']"

definition issue_action ::
  "deps \<Rightarrow> int \<Rightarrow> string \<Rightarrow> action_binding \<Rightarrow> int \<Rightarrow> permit_store \<Rightarrow> action_decision outcome_of" where
  "issue_action d now raw_token b ttl_seconds s =
     (if ttl_seconds \<le> 0 then (s, Inl (ValueError ''action ttl_seconds must be positive''))
      else
        let token = sha256 d raw_token;
            issued = iso d now;
            expires = iso d (now + ttl_seconds * 1000000);
            (s1, reason) = approval_reason d now b False s
        in case reason of
             Some why \<Rightarrow>
               (append_event d now (ActionRejected token why (Some b)) s1, Inl (ValueError why))
           | None \<Rightarrow>
               if token \<in> set (map dr_token (decisions s1)) then
                 (s, Inl (IntegrityError ''UNIQUE constraint failed: action_decisions.token_digest''))
               else if \<not> distinct (supporting_belief_ids b) then
                 (s, Inl (IntegrityError ''UNIQUE constraint failed: action_decision_supports''))
               else
                 let row = \<lparr>dr_token = token, dr_binding_digest = action_digest d b, dr_binding = b,
                            dr_issued_at = issued, dr_expires_at = expires, dr_state = Issued\<rparr>;
                     s2 = append_event d now (ActionIssued token (action_digest d b) b issued expires)
                       (s1\<lparr>decisions := decisions s1 @ [row],
                           decision_supports := decision_supports s1
                             @ map (\<lambda>i. (token, i)) (supporting_belief_ids b),
                           decision_episodes := decision_episodes s1 @ [(token, ac_episode_id b)]\<rparr>);
                     s3 = (case approval_receipt_digest b of
                             None \<Rightarrow> s2
                           | Some digest \<Rightarrow>
                               if digest = [] then s2
                               else case find_receipt digest (receipts s2) of
                                      None \<Rightarrow> s2
                                    | Some receipt \<Rightarrow>
                                        if ab_scope (ar_binding receipt) \<in> set single_use_scopes
                                        then append_event d now (ApprovalConsumed digest)
                                               (s2\<lparr>receipts := set_receipt digest Consumed (receipts s2)\<rparr>)
                                        else s2)
                 in (s3, Inr \<lparr>ad_token = raw_token, ad_token_digest = token, ad_binding = b,
                              ad_issued_at = issued, ad_expires_at = expires\<rparr>))"

text \<open>\<open>_binding_mismatch\<close>: the first field, in the order of the checks, that differs.\<close>

definition binding_checks :: "((action_binding \<Rightarrow> action_binding \<Rightarrow> bool) \<times> string) list" where
  "binding_checks =
     [(\<lambda>x y. ac_episode_id x = ac_episode_id y, ''EPISODE_MISMATCH''),
      (\<lambda>x y. ac_turn_id x = ac_turn_id y, ''TURN_MISMATCH''),
      (\<lambda>x y. ac_namespace x = ac_namespace y, ''TOOL_NAMESPACE_MISMATCH''),
      (\<lambda>x y. ac_tool_name x = ac_tool_name y, ''TOOL_NAME_MISMATCH''),
      (\<lambda>x y. ac_arguments_hash x = ac_arguments_hash y, ''ARGUMENTS_MISMATCH''),
      (\<lambda>x y. ac_target x = ac_target y, ''TARGET_MISMATCH''),
      (\<lambda>x y. ac_policy_id x = ac_policy_id y, ''POLICY_MISMATCH''),
      (\<lambda>x y. ac_policy_revision x = ac_policy_revision y, ''POLICY_REVISION_MISMATCH''),
      (\<lambda>x y. canonicalization_version x = canonicalization_version y, ''CANONICALIZATION_MISMATCH''),
      (\<lambda>x y. policy_content_digest x = policy_content_digest y, ''POLICY_CONTENT_DRIFT''),
      (\<lambda>x y. config_content_digest x = config_content_digest y, ''CONFIG_CONTENT_DRIFT''),
      (\<lambda>x y. ac_stakes x = ac_stakes y, ''STAKES_MISMATCH''),
      (\<lambda>x y. supporting_belief_ids x = supporting_belief_ids y, ''SUPPORT_BINDING_MISMATCH''),
      (\<lambda>x y. blocking_conflict_ids x = blocking_conflict_ids y, ''CONFLICT_BINDING_MISMATCH''),
      (\<lambda>x y. approval_receipt_digest x = approval_receipt_digest y, ''APPROVAL_RECEIPT_MISMATCH'')]"

definition binding_mismatch :: "action_binding \<Rightarrow> action_binding \<Rightarrow> string option" where
  "binding_mismatch x y = map_option snd (find (\<lambda>(same, reason). \<not> same x y) binding_checks)"

section \<open>Revalidation against the ledger\<close>

text \<open>
  The ledger projections a co-located database carries, read inside the same transaction: a
  missing table is None. \<open>colocated\<close> names those that were present when the store was opened.
\<close>

record ledger_view =
  lv_beliefs :: "(string \<times> string \<times> string) list option"
  lv_episodes :: "(string \<times> string) list option"
  lv_conflicts :: "(string \<times> string \<times> string) list option"
  colocated :: "string list"

definition projection_readable :: "bool \<Rightarrow> string \<Rightarrow> ledger_view \<Rightarrow> bool option" where
  "projection_readable present name lv =
     (if present then Some True else if name \<in> set (colocated lv) then Some False else None)"

definition stored_supports_are_active :: "ledger_view \<Rightarrow> action_binding \<Rightarrow> bool option" where
  "stored_supports_are_active lv b =
     (if supporting_belief_ids b = [] then Some True
      else case lv_beliefs lv of
             None \<Rightarrow> projection_readable False ''beliefs'' lv
           | Some rows \<Rightarrow>
               Some (length (filter (\<lambda>(i, ep, st). ep = ac_episode_id b \<and> st = ''in''
                        \<and> i \<in> set (supporting_belief_ids b)) rows) = length (supporting_belief_ids b)))"

definition stored_episode_is_active :: "ledger_view \<Rightarrow> action_binding \<Rightarrow> bool option" where
  "stored_episode_is_active lv b =
     (case lv_episodes lv of
        None \<Rightarrow> projection_readable False ''episodes'' lv
      | Some rows \<Rightarrow> Some (map_of rows (ac_episode_id b) = Some ''active''))"

definition stored_conflicts_are_closed :: "ledger_view \<Rightarrow> action_binding \<Rightarrow> bool option" where
  "stored_conflicts_are_closed lv b =
     (case lv_conflicts lv of
        None \<Rightarrow> projection_readable False ''conflicts'' lv
      | Some rows \<Rightarrow>
          if list_ex (\<lambda>(i, ep, st). ep = ac_episode_id b \<and> st = ''open'') rows then Some False
          else if blocking_conflict_ids b = [] then Some True
          else Some (length (filter (\<lambda>(i, ep, st). ep = ac_episode_id b
                       \<and> i \<in> set (blocking_conflict_ids b) \<and> st = ''open'') rows) = 0))"

definition resolve :: "bool option \<Rightarrow> bool option \<Rightarrow> bool" where
  "resolve stored answer =
     (if stored = Some False then False else case answer of Some v \<Rightarrow> v | None \<Rightarrow> True)"

section \<open>Consumption and revocation\<close>

record consume_result =
  consumed :: bool
  cr_reason_code :: string
  cr_token_digest :: string

definition reject :: "deps \<Rightarrow> int \<Rightarrow> permit_event \<Rightarrow> string \<Rightarrow> string \<Rightarrow> permit_store
    \<Rightarrow> permit_store \<times> consume_result" where
  "reject d now p token reason s =
     (append_event d now p s,
      \<lparr>consumed = False, cr_reason_code = reason, cr_token_digest = token\<rparr>)"

definition plain_reject :: "deps \<Rightarrow> int \<Rightarrow> string \<Rightarrow> string \<Rightarrow> permit_store \<Rightarrow> permit_store \<times> consume_result" where
  "plain_reject d now token reason s = reject d now (ActionRejected token reason None) token reason s"

definition revoke_reject :: "deps \<Rightarrow> int \<Rightarrow> string \<Rightarrow> string \<Rightarrow> permit_store \<Rightarrow> permit_store \<times> consume_result" where
  "revoke_reject d now token reason s =
     reject d now (ActionRevoked token reason None) token reason
       (s\<lparr>decisions := set_decision token Revoked (decisions s)\<rparr>)"

text \<open>
  The two callbacks answer for the ids of the stored binding; None when the caller gave none.
\<close>

definition consume_action ::
  "deps \<Rightarrow> int \<Rightarrow> ledger_view \<Rightarrow> (string list \<Rightarrow> bool) option \<Rightarrow> (string list \<Rightarrow> bool) option
     \<Rightarrow> string \<Rightarrow> action_binding \<Rightarrow> permit_store \<Rightarrow> permit_store \<times> consume_result" where
  "consume_action d now lv support_is_active conflicts_are_closed raw_token presented s =
     (let token = sha256 d raw_token in
      case find_decision token (decisions s) of
        None \<Rightarrow> plain_reject d now token ''TOKEN_NOT_FOUND'' s
      | Some row \<Rightarrow>
          if dr_state row \<noteq> Issued then plain_reject d now token (''TOKEN_'' @ state_upper (dr_state row)) s
          else if iso d now \<ge> dr_expires_at row then
            reject d now (ActionExpired token ''TOKEN_EXPIRED'') token ''TOKEN_EXPIRED''
              (s\<lparr>decisions := set_decision token Expired (decisions s)\<rparr>)
          else
            let stored = dr_binding row in
            case binding_mismatch stored presented of
              Some reason \<Rightarrow> plain_reject d now token reason s
            | None \<Rightarrow>
                let (s1, why) = approval_reason d now stored True s in
                case why of
                  Some reason \<Rightarrow> plain_reject d now token reason s1
                | None \<Rightarrow>
                    if \<not> resolve (stored_episode_is_active lv stored) None
                    then revoke_reject d now token ''EPISODE_FINALIZED'' s1
                    else if \<not> resolve (stored_supports_are_active lv stored)
                               (map_option (\<lambda>f. f (supporting_belief_ids stored)) support_is_active)
                    then revoke_reject d now token ''SUPPORT_RETRACTED'' s1
                    else if \<not> resolve (stored_conflicts_are_closed lv stored)
                               (map_option (\<lambda>f. f (blocking_conflict_ids stored)) conflicts_are_closed)
                    then revoke_reject d now token ''OPEN_CONFLICT'' s1
                    else if length (filter (\<lambda>r. dr_token r = token \<and> dr_state r = Issued) (decisions s1)) \<noteq> 1
                    then plain_reject d now token ''TOKEN_RACE_LOST''
                           (s1\<lparr>decisions := set_decision token Consumed (decisions s1)\<rparr>)
                    else (append_event d now (ActionConsumed token (action_digest d stored))
                            (s1\<lparr>decisions := set_decision token Consumed (decisions s1)\<rparr>),
                          \<lparr>consumed = True, cr_reason_code = ''CONSUMED'', cr_token_digest = token\<rparr>))"

text \<open>The join of the issued decisions with one of their index tables.\<close>

definition issued_joined :: "(string \<times> string) list \<Rightarrow> string \<Rightarrow> action_row list \<Rightarrow> string list" where
  "issued_joined index key rows =
     concat (map (\<lambda>r. if dr_state r = Issued
                     then map (\<lambda>_. dr_token r) (filter (\<lambda>p. p = (dr_token r, key)) index)
                     else []) rows)"

definition revoke_one :: "deps \<Rightarrow> int \<Rightarrow> string \<Rightarrow> string option \<Rightarrow> string \<Rightarrow> permit_store \<Rightarrow> permit_store" where
  "revoke_one d now reason belief_id token s =
     append_event d now (ActionRevoked token reason belief_id)
       (s\<lparr>decisions := set_decision token Revoked (decisions s)\<rparr>)"

definition revoke_for_support :: "deps \<Rightarrow> int \<Rightarrow> string \<Rightarrow> permit_store \<Rightarrow> permit_store \<times> nat" where
  "revoke_for_support d now belief_id s =
     (let tokens = issued_joined (decision_supports s) belief_id (decisions s)
      in (fold (revoke_one d now ''SUPPORT_RETRACTED'' (Some belief_id)) tokens s, length tokens))"

definition revoke_for_episode :: "deps \<Rightarrow> int \<Rightarrow> string \<Rightarrow> permit_store \<Rightarrow> permit_store \<times> nat" where
  "revoke_for_episode d now episode_id s =
     (let tokens = issued_joined (decision_episodes s) episode_id (decisions s)
      in (fold (revoke_one d now ''EPISODE_FINALIZED'' None) tokens s, length tokens))"

section \<open>Replay\<close>

text \<open>\<open>rebuild_enforcement_projection\<close>: the tables from the events alone.\<close>

fun apply_event :: "permit_event \<Rightarrow> permit_tables \<Rightarrow> permit_tables result" where
  "apply_event (ApprovalIssued digest bd b issued expires) t =
     (if digest \<in> set (map ar_digest (receipts t))
      then Inl (IntegrityError ''UNIQUE constraint failed: approval_receipts.digest'')
      else Inr (t\<lparr>receipts := receipts t @ [\<lparr>ar_digest = digest, ar_binding_digest = bd, ar_binding = b,
             ar_issued_at = issued, ar_expires_at = expires, ar_state = Issued\<rparr>]\<rparr>))"
| "apply_event (ApprovalDenied digest bd b n) t = Inr (t\<lparr>receipts := revoke_binding bd (receipts t)\<rparr>)"
| "apply_event (ApprovalConsumed digest) t = Inr (t\<lparr>receipts := set_receipt digest Consumed (receipts t)\<rparr>)"
| "apply_event (ApprovalExpired digest) t = Inr (t\<lparr>receipts := set_receipt digest Expired (receipts t)\<rparr>)"
| "apply_event (ApprovalRevoked digest reason) t =
     Inr (t\<lparr>receipts := set_receipt digest Revoked (receipts t)\<rparr>)"
| "apply_event (ActionIssued token bd b issued expires) t =
     (if token \<in> set (map dr_token (decisions t)) \<or> \<not> distinct (supporting_belief_ids b)
      then Inl (IntegrityError ''UNIQUE constraint failed: action_decisions.token_digest'')
      else Inr (t\<lparr>decisions := decisions t @ [\<lparr>dr_token = token, dr_binding_digest = bd, dr_binding = b,
                    dr_issued_at = issued, dr_expires_at = expires, dr_state = Issued\<rparr>],
                  decision_supports := decision_supports t
                    @ map (\<lambda>i. (token, i)) (supporting_belief_ids b),
                  decision_episodes := decision_episodes t @ [(token, ac_episode_id b)]\<rparr>))"
| "apply_event (ActionConsumed token bd) t =
     Inr (t\<lparr>decisions := set_decision token Consumed (decisions t)\<rparr>)"
| "apply_event (ActionExpired token reason) t =
     Inr (t\<lparr>decisions := set_decision token Expired (decisions t)\<rparr>)"
| "apply_event (ActionRevoked token reason belief_id) t =
     Inr (t\<lparr>decisions := set_decision token Revoked (decisions t)\<rparr>)"
| "apply_event (ActionRejected token reason b) t = Inr t"

text \<open>
  The three \<open>DELETE\<close>s empty all four tables: the episodes of the decisions go with them by
  \<open>ON DELETE CASCADE\<close>.
\<close>

definition empty_tables :: permit_tables where
  "empty_tables = \<lparr>receipts = [], decisions = [], decision_episodes = [], decision_supports = []\<rparr>"

definition rebuild_tables :: "event_row list \<Rightarrow> permit_tables result" where
  "rebuild_tables events = fold_result apply_event (map er_payload events) empty_tables"

definition tables_of :: "permit_store \<Rightarrow> permit_tables" where
  "tables_of s = permit_tables.truncate s"

text \<open>
  \<open>enforcement_projection_snapshot\<close> sorts the rows of each table, so it compares them as
  multisets; \<open>rebuild\<close> raises when the snapshots before and after differ.
\<close>

definition same_projection :: "permit_tables \<Rightarrow> permit_tables \<Rightarrow> bool" where
  "same_projection t u =
     (mset (receipts t) = mset (receipts u) \<and> mset (decisions t) = mset (decisions u)
      \<and> mset (decision_episodes t) = mset (decision_episodes u)
      \<and> mset (decision_supports t) = mset (decision_supports u))"

definition with_tables :: "permit_tables \<Rightarrow> permit_store \<Rightarrow> permit_store" where
  "with_tables t s = s\<lparr>receipts := receipts t, decisions := decisions t,
     decision_episodes := decision_episodes t, decision_supports := decision_supports t\<rparr>"

definition rebuild :: "permit_store \<Rightarrow> bool outcome_of" where
  "rebuild s =
     (case rebuild_tables (event_log s) of
        Inl e \<Rightarrow> (s, Inl e)
      | Inr t \<Rightarrow> if same_projection (tables_of s) t then (with_tables t s, Inr True)
                  else (s, Inl (RuntimeFailure ''enforcement projection replay mismatch'')))"

text \<open>\<open>verify_hash_chain\<close> of the authorization log.\<close>

fun verify_events :: "deps \<Rightarrow> nat \<Rightarrow> string \<Rightarrow> event_row list \<Rightarrow> string result" where
  "verify_events d n previous [] = Inr previous"
| "verify_events d n previous (e # es) =
     (if er_seq e \<noteq> n \<or> er_previous_hash e \<noteq> previous
      then Inl (RuntimeFailure ''authorization event chain sequence mismatch'')
      else if sha256 d (chain_material previous
                (event_body (er_seq e) (er_id e) (er_at e) (er_payload e) (er_previous_hash e)))
              \<noteq> er_event_hash e
      then Inl (RuntimeFailure ''authorization event hash mismatch'')
      else verify_events d (Suc n) (er_event_hash e) es)"

definition verify_hash_chain :: "deps \<Rightarrow> permit_store \<Rightarrow> string result" where
  "verify_hash_chain d s = verify_events d 1 GENESIS (event_log s)"

end
