(* ===== verification/Permit_Log.thy ===== *)
theory Permit_Log
  imports Permits
begin

text \<open>
  The authorization log as the source of truth: every operation of \<open>enforcement.py\<close> is a sequence
  of recorded updates, each of which appends the event that replay would turn into the same
  update. From this follow the exactness of replay and the validity of the hash chain in every
  reachable state; the log provides the interface \<open>hash_chain\<close>.
\<close>

section \<open>Events are determined by what is hashed\<close>

lemma strings_inj: "sort_keys (json_of_strings xs) = sort_keys (json_of_strings ys) \<Longrightarrow> xs = ys"
proof -
  have inj: "inj (sort_keys \<circ> JStr)" by (rule injI) simp
  assume "sort_keys (json_of_strings xs) = sort_keys (json_of_strings ys)"
  then have "map (sort_keys \<circ> JStr) xs = map (sort_keys \<circ> JStr) ys"
    by (simp add: json_of_strings_def)
  with inj show ?thesis by (metis inj_map_eq_map)
qed

lemma option_inj: "sort_keys (json_of_option x) = sort_keys (json_of_option y) \<Longrightarrow> x = y"
  by (auto simp: json_of_option_def split: option.splits)

lemma approval_json_inj: "sort_keys (approval_json a) = sort_keys (approval_json b) \<Longrightarrow> a = b"
proof -
  assume "sort_keys (approval_json a) = sort_keys (approval_json b)"
  note m = sort_keys_member [OF this [unfolded approval_json_def]]
  from m [of "''schema_version''"] m [of "''episode_id''"] m [of "''turn_id''"] m [of "''namespace''"]
    m [of "''tool_name''"] m [of "''arguments_hash''"] m [of "''target''"] m [of "''policy_id''"]
    m [of "''policy_revision''"] m [of "''scope''"]
  show "a = b" by (intro approval_binding.equality) simp_all
qed

lemma action_json_inj: "sort_keys (action_json a) = sort_keys (action_json b) \<Longrightarrow> a = b"
proof -
  assume "sort_keys (action_json a) = sort_keys (action_json b)"
  note m = sort_keys_member [OF this [unfolded action_json_def]]
  have "ac_schema_version a = ac_schema_version b" using m [of "''schema_version''"] by simp
  moreover have "ac_episode_id a = ac_episode_id b" using m [of "''episode_id''"] by simp
  moreover have "ac_turn_id a = ac_turn_id b" using m [of "''turn_id''"] by simp
  moreover have "ac_namespace a = ac_namespace b" using m [of "''namespace''"] by simp
  moreover have "ac_tool_name a = ac_tool_name b" using m [of "''tool_name''"] by simp
  moreover have "ac_arguments_hash a = ac_arguments_hash b" using m [of "''arguments_hash''"] by simp
  moreover have "ac_target a = ac_target b" using m [of "''target''"] by simp
  moreover have "ac_policy_id a = ac_policy_id b" using m [of "''policy_id''"] by simp
  moreover have "ac_policy_revision a = ac_policy_revision b" using m [of "''policy_revision''"] by simp
  moreover have "canonicalization_version a = canonicalization_version b" using m [of "''canonicalization_version''"] by simp
  moreover have "policy_content_digest a = policy_content_digest b" using m [of "''policy_content_digest''"] by simp
  moreover have "config_content_digest a = config_content_digest b" using m [of "''config_content_digest''"] by simp
  moreover have "ac_stakes a = ac_stakes b" using m [of "''stakes''"] by simp
  moreover have "supporting_belief_ids a = supporting_belief_ids b"
    using m [of "''supporting_belief_ids''"] by (intro strings_inj) simp
  moreover have "blocking_conflict_ids a = blocking_conflict_ids b"
    using m [of "''blocking_conflict_ids''"] by (intro strings_inj) simp
  moreover have "approval_receipt_digest a = approval_receipt_digest b"
    using m [of "''approval_receipt_digest''"] by (intro option_inj) simp
  ultimately show "a = b" by (intro action_binding.equality) simp_all
qed

lemma payload_inj:
  assumes "sort_keys (payload_json p) = sort_keys (payload_json q)" and "event_kind p = event_kind q"
  shows "p = q"
proof -
  note m = sort_keys_member [OF assms(1) [unfolded payload_json_def]]
  show ?thesis
  proof (cases p)
    case (ApprovalDenied r bd b n)
    with assms(2) m [of "''receipt_digest''"] m [of "''binding_digest''"] m [of "''binding''"]
      m [of "''revoked_prior_receipts''"] show ?thesis
      by (cases q) (auto dest: approval_json_inj)
  next
    case (ApprovalIssued r bd b i x)
    with assms(2) m [of "''receipt_digest''"] m [of "''binding_digest''"] m [of "''binding''"]
      m [of "''issued_at''"] m [of "''expires_at''"] show ?thesis
      by (cases q) (auto dest: approval_json_inj)
  next
    case (ApprovalRevoked r reason)
    with assms(2) m [of "''receipt_digest''"] m [of "''reason_code''"] show ?thesis
      by (cases q) auto
  next
    case (ApprovalConsumed r)
    with assms(2) m [of "''receipt_digest''"] show ?thesis by (cases q) auto
  next
    case (ApprovalExpired r)
    with assms(2) m [of "''receipt_digest''"] show ?thesis by (cases q) auto
  next
    case (ActionRejected t reason b)
    with assms(2) m [of "''token_digest''"] m [of "''reason_code''"] m [of "''binding''"] show ?thesis
      by (cases q) (auto dest: action_json_inj split: option.splits)
  next
    case (ActionIssued t bd b i x)
    with assms(2) m [of "''token_digest''"] m [of "''binding_digest''"] m [of "''binding''"]
      m [of "''issued_at''"] m [of "''expires_at''"] show ?thesis
      by (cases q) (auto dest: action_json_inj)
  next
    case (ActionExpired t reason)
    with assms(2) m [of "''token_digest''"] m [of "''reason_code''"] show ?thesis
      by (cases q) auto
  next
    case (ActionRevoked t reason b)
    with assms(2) m [of "''token_digest''"] m [of "''reason_code''"] m [of "''belief_id''"] show ?thesis
      by (cases q) (auto split: option.splits)
  next
    case (ActionConsumed t bd)
    with assms(2) m [of "''token_digest''"] m [of "''binding_digest''"] show ?thesis
      by (cases q) auto
  qed
qed

lemma wf_strings: "wf_json (json_of_strings xs)"
  by (auto simp: json_of_strings_def list_all_iff)

lemma wf_option: "wf_json (json_of_option x)"
  by (auto simp: json_of_option_def split: option.splits)

lemma wf_bindings: "wf_json (approval_json a)" "wf_json (action_json b)"
  by (simp_all add: approval_json_def action_json_def wf_strings wf_option)

lemma wf_event_body: "wf_json (event_body n i t p previous)"
  by (cases p) (auto simp: event_body_def payload_json_def wf_bindings wf_strings split: option.splits)

interpretation audit: hash_chain er_seq er_previous_hash er_event_hash event_material sha "\<lambda>_. True"
  for sha
proof unfold_locales
  fix e f :: event_row
  assume "event_material e = event_material f" and h: "er_event_hash e = er_event_hash f"
  then have prev: "er_previous_hash e = er_previous_hash f"
    and body: "sort_keys (event_body (er_seq e) (er_id e) (er_at e) (er_payload e) (er_previous_hash e))
      = sort_keys (event_body (er_seq f) (er_id f) (er_at f) (er_payload f) (er_previous_hash f))"
    by (auto simp: event_material_def dest: chain_material_inj [OF wf_event_body wf_event_body])
  note m = sort_keys_member [OF body [unfolded event_body_def]]
  from m [of "''kind''"] m [of "''payload''"] have "er_payload e = er_payload f"
    by (auto intro: payload_inj)
  with m [of "''seq''"] m [of "''id''"] m [of "''at''"] prev h show "e = f"
    by (intro event_row.equality) auto
qed

lemma verify_events_linked:
  "verify_events d n p es = Inr h \<longleftrightarrow> audit.linked (sha256 d) n p es \<and> h = audit.head p es"
proof (induction d n p es rule: verify_events.induct)
  case (2 d n p e es)
  show ?case
    unfolding verify_events.simps event_material_def [symmetric]
    using 2 by (auto simp: audit.head_Cons event_material_def [symmetric])
qed auto

section \<open>Recorded updates\<close>

text \<open>
  One recorded update: an event is appended, and the tables change as replay of it changes them.
  A consumption is only recorded for a permit that is outstanding.
\<close>

definition outstanding :: "string \<Rightarrow> permit_tables \<Rightarrow> bool" where
  "outstanding token t = (\<exists>r. find_decision token (decisions t) = Some r \<and> dr_state r = Issued)"

fun permitted :: "permit_event \<Rightarrow> permit_tables \<Rightarrow> bool" where
  "permitted (ActionConsumed token bd) t = outstanding token t"
| "permitted p t = True"

inductive recorded :: "deps \<Rightarrow> permit_store \<Rightarrow> permit_store \<Rightarrow> bool" for d where
  recorded: "\<lbrakk>apply_event p (tables_of s) = Inr (tables_of s'); permitted p (tables_of s);
     event_log s' = event_log s @ [make_event d t (event_log s) p]\<rbrakk> \<Longrightarrow> recorded d s s'"

abbreviation history :: "deps \<Rightarrow> permit_store \<Rightarrow> permit_store \<Rightarrow> bool" where
  "history d \<equiv> (recorded d)\<^sup>*\<^sup>*"

lemma tables_of_simps [simp]:
  "receipts (tables_of s) = receipts s" "decisions (tables_of s) = decisions s"
  "decision_episodes (tables_of s) = decision_episodes s"
  "decision_supports (tables_of s) = decision_supports s"
  by (simp_all add: tables_of_def permit_tables.truncate_def)

lemma append_event_simps [simp]:
  "receipts (append_event d now p s) = receipts s" "decisions (append_event d now p s) = decisions s"
  "decision_episodes (append_event d now p s) = decision_episodes s"
  "decision_supports (append_event d now p s) = decision_supports s"
  "event_log (append_event d now p s) = event_log s @ [make_event d (iso d now) (event_log s) p]"
  by (simp_all add: append_event_def)

lemma tables_of_append [simp]: "tables_of (append_event d now p s) = tables_of s"
  by (simp add: tables_of_def permit_tables.truncate_def)

text \<open>The tables an update leaves are those replay of its event gives.\<close>

lemma record_update:
  assumes "apply_event p (tables_of s) = Inr (tables_of u)" and "permitted p (tables_of s)"
    and "event_log u = event_log s"
  shows "history d s (append_event d now p u)"
proof -
  have "recorded d s (append_event d now p u)"
    by (rule recorded.intros [where p = p and t = "iso d now"]) (use assms in simp_all)
  then show ?thesis by blast
qed

lemma history_trans: "history d s t \<Longrightarrow> history d t u \<Longrightarrow> history d s u"
  by (rule rtranclp_trans)

section \<open>Every operation is a history\<close>

definition distinct_tokens :: "permit_store \<Rightarrow> bool" where
  "distinct_tokens s = distinct (map dr_token (decisions s))"

lemma set_receipt_none:
  "\<not> list_ex (\<lambda>r. ar_digest r = digest \<and> ar_state r = Issued) rows \<Longrightarrow> set_receipt digest st rows = rows"
  unfolding set_receipt_def by (rule map_idI) (auto simp: list_ex_iff)

lemma issue_approval_history: "history d s (fst (issue_approval d now rid b ttl approved s))"
proof -
  have "history d s (append_event d now (ApprovalDenied g bd b n)
      (s\<lparr>receipts := revoke_binding bd (receipts s)\<rparr>))" for g bd n
    by (rule record_update) (simp_all add: tables_of_def permit_tables.truncate_def)
  moreover have "history d s (append_event d now (ApprovalIssued g bd b i x) (s\<lparr>receipts := receipts s @
      [\<lparr>ar_digest = g, ar_binding_digest = bd, ar_binding = b, ar_issued_at = i, ar_expires_at = x,
        ar_state = Issued\<rparr>]\<rparr>))" if "g \<notin> set (map ar_digest (receipts s))" for g bd i x
    using that by (intro record_update) (simp_all add: tables_of_def permit_tables.truncate_def)
  ultimately show ?thesis by (auto simp: issue_approval_def Let_def)
qed

lemma set_receipt_history:
  assumes "p = ApprovalRevoked digest reason \<and> st = Revoked \<or> p = ApprovalConsumed digest \<and> st = Consumed
    \<or> p = ApprovalExpired digest \<and> st = Expired"
  shows "history d s (append_event d now p (s\<lparr>receipts := set_receipt digest st (receipts s)\<rparr>))"
  using assms by (intro record_update) (auto simp: tables_of_def permit_tables.truncate_def)

lemma set_decision_history:
  assumes "p = ActionRevoked token reason bid \<and> st = Revoked \<or> p = ActionExpired token reason' \<and> st = Expired
    \<or> p = ActionConsumed token bd \<and> st = Consumed \<and> outstanding token (tables_of s)"
  shows "history d s (append_event d now p (s\<lparr>decisions := set_decision token st (decisions s)\<rparr>))"
  using assms by (intro record_update) (auto simp: tables_of_def permit_tables.truncate_def)

lemma reject_history: "history d s (append_event d now (ActionRejected token reason b) s)"
  by (rule record_update) auto

lemma revoke_approval_history: "history d s (fst (revoke_approval d now digest reason s))"
  using set_receipt_history [of "ApprovalRevoked digest reason" digest reason Revoked d s now]
  by (auto simp: revoke_approval_def Let_def set_receipt_none)

lemma approval_reason_history: "history d s (fst (approval_reason d now b allow s))"
  using set_receipt_history [of "ApprovalExpired digest" digest _ Expired d s now for digest]
  by (auto simp: approval_reason_def Let_def split: option.splits)

lemma approval_reason_None: "approval_reason d now b allow s = (s', None) \<Longrightarrow> s' = s"
  by (auto simp: approval_reason_def Let_def split: option.splits if_splits)

lemma issue_action_history: "history d s (fst (issue_action d now raw b ttl s))"
proof (cases "approval_reason d now b False s")
  case (Pair s1 why)
  have h1: "history d s s1" using approval_reason_history [of d s now b False] Pair by simp
  show ?thesis
  proof (cases why)
    case (Some reason)
    with Pair history_trans [OF h1 reject_history] show ?thesis
      by (simp add: issue_action_def Let_def)
  next
    case None
    with Pair have s1: "s1 = s" by (simp add: approval_reason_None)
    let ?token = "sha256 d raw"
    let ?s2 = "append_event d now (ActionIssued ?token (action_digest d b) b (iso d now) (iso d (now + ttl * 1000000)))
      (s\<lparr>decisions := decisions s @ [\<lparr>dr_token = ?token, dr_binding_digest = action_digest d b, dr_binding = b,
            dr_issued_at = iso d now, dr_expires_at = iso d (now + ttl * 1000000), dr_state = Issued\<rparr>],
         decision_supports := decision_supports s @ map (\<lambda>i. (?token, i)) (supporting_belief_ids b),
         decision_episodes := decision_episodes s @ [(?token, ac_episode_id b)]\<rparr>)"
    have h2: "history d s ?s2"
      if "?token \<notin> set (map dr_token (decisions s))" "distinct (supporting_belief_ids b)"
      using that by (intro record_update) (simp_all add: tables_of_def permit_tables.truncate_def)
    have h3: "history d ?s2 (append_event d now (ApprovalConsumed g) (?s2\<lparr>receipts := set_receipt g Consumed (receipts ?s2)\<rparr>))"
      for g by (rule set_receipt_history [of _ g]) simp
    show ?thesis
      using Pair None s1 h2 history_trans [OF h2 h3]
      by (auto simp: issue_action_def Let_def split: option.splits)
  qed
qed

lemma set_decision_tokens [simp]: "map dr_token (set_decision token st rows) = map dr_token rows"
  by (simp add: set_decision_def)

lemma set_receipt_digests [simp]: "map ar_digest (set_receipt digest st rows) = map ar_digest rows"
  by (simp add: set_receipt_def)

lemma revoke_binding_digests [simp]: "map ar_digest (revoke_binding bd rows) = map ar_digest rows"
  by (simp add: revoke_binding_def)

lemma find_decision_Some:
  "find_decision token rows = Some r \<Longrightarrow> r \<in> set rows \<and> dr_token r = token"
  unfolding find_decision_def by (drule find_Some_iff_mem) simp

lemma find_decision_iff:
  "distinct (map dr_token rows) \<Longrightarrow>
     find_decision token rows = Some r \<longleftrightarrow> r \<in> set rows \<and> dr_token r = token"
proof (induction rows)
  case (Cons x rows)
  then show ?case by (auto simp: find_decision_def)
qed (simp add: find_decision_def)

lemma one_outstanding:
  assumes "distinct (map dr_token rows)" and "find_decision token rows = Some r" and "dr_state r = Issued"
  shows "filter (\<lambda>x. dr_token x = token \<and> dr_state x = Issued) rows = [r]"
  using assms
proof (induction rows)
  case (Cons x rows)
  show ?case
  proof (cases "dr_token x = token")
    case True
    with Cons.prems have "x = r" by (simp add: find_decision_def)
    moreover from Cons.prems(1) True have "token \<notin> dr_token ` set rows" by simp
    then have "filter (\<lambda>x. dr_token x = token \<and> dr_state x = Issued) rows = []"
      by (auto simp: filter_empty_conv)
    ultimately show ?thesis using True Cons.prems(3) by simp
  next
    case False
    with Cons show ?thesis by (simp add: find_decision_def)
  qed
qed (simp add: find_decision_def)

lemma consume_action_history:
  assumes "distinct_tokens s"
  shows "history d s (fst (consume_action d now lv sups cons raw presented s))"
proof -
  let ?token = "sha256 d raw"
  have reject: "history d s (fst (plain_reject d now ?token reason s))" for reason
    using reject_history by (simp add: plain_reject_def reject_def)
  have revoke: "history d s (fst (revoke_reject d now ?token reason s))" for reason
    using set_decision_history [of "ActionRevoked ?token reason None" ?token reason None Revoked]
    by (simp add: revoke_reject_def reject_def)
  show ?thesis
  proof (cases "find_decision ?token (decisions s)")
    case None
    with reject show ?thesis by (simp add: consume_action_def)
  next
    case (Some row)
    consider "dr_state row \<noteq> Issued" | "dr_state row = Issued" "iso d now \<ge> dr_expires_at row"
      | "dr_state row = Issued" "\<not> iso d now \<ge> dr_expires_at row" by blast
    then show ?thesis
    proof cases
      case 1
      with Some reject show ?thesis by (simp add: consume_action_def)
    next
      case 2
      with Some set_decision_history [of "ActionExpired ?token ''TOKEN_EXPIRED''" ?token _ _ Expired]
      show ?thesis by (simp add: consume_action_def reject_def Let_def)
    next
      case 3
      show ?thesis
      proof (cases "binding_mismatch (dr_binding row) presented")
        case (Some reason)
        with 3 \<open>find_decision ?token (decisions s) = Some row\<close> reject show ?thesis
          by (simp add: consume_action_def)
      next
        case None
        obtain s1 why where ar: "approval_reason d now (dr_binding row) True s = (s1, why)" by fastforce
        note h1 = approval_reason_history [of d s now "dr_binding row" True, unfolded ar fst_conv]
        have one: "length (filter (\<lambda>r. dr_token r = ?token \<and> dr_state r = Issued) (decisions s)) = 1"
          using one_outstanding assms \<open>find_decision ?token (decisions s) = Some row\<close> 3(1)
          by (simp add: distinct_tokens_def)
        have consume: "history d s (append_event d now (ActionConsumed ?token bd)
            (s\<lparr>decisions := set_decision ?token Consumed (decisions s)\<rparr>))" for bd
          using \<open>find_decision ?token (decisions s) = Some row\<close> 3(1)
          by (intro set_decision_history) (simp add: outstanding_def)
        show ?thesis
        proof (cases why)
          case (Some reason)
          have "history d s (fst (plain_reject d now ?token reason s1))"
            using history_trans [OF h1 reject_history] by (simp add: plain_reject_def reject_def)
          with 3 \<open>find_decision ?token (decisions s) = Some row\<close> None Some ar show ?thesis
            by (simp add: consume_action_def)
        next
          case None
          with ar have "s1 = s" by (simp add: approval_reason_None)
          with 3 \<open>find_decision ?token (decisions s) = Some row\<close>
            \<open>binding_mismatch (dr_binding row) presented = None\<close> None ar one revoke consume
          show ?thesis by (simp add: consume_action_def Let_def)
        qed
      qed
    qed
  qed
qed

lemma revoke_one_history: "history d s (revoke_one d now reason bid token s)"
  unfolding revoke_one_def by (rule set_decision_history) simp

lemma revoke_all_history: "history d s (fold (revoke_one d now reason bid) tokens s)"
  by (induction tokens arbitrary: s) (auto intro: history_trans [OF revoke_one_history])

section \<open>Reachable states\<close>

inductive permit_step :: "deps \<Rightarrow> permit_store \<Rightarrow> permit_store \<Rightarrow> bool" for d where
  approve: "permit_step d s (fst (issue_approval d now rid b ttl approved s))"
| revoke: "permit_step d s (fst (revoke_approval d now digest reason s))"
| issue: "permit_step d s (fst (issue_action d now raw b' ttl s))"
| consume: "permit_step d s (fst (consume_action d now lv sups cons raw presented s))"
| support: "permit_step d s (fst (revoke_for_support d now belief_id s))"
| episode: "permit_step d s (fst (revoke_for_episode d now episode_id s))"
| replayed: "permit_step d s (fst (rebuild s))"

abbreviation reachable :: "deps \<Rightarrow> permit_store \<Rightarrow> bool" where
  "reachable d s \<equiv> (permit_step d)\<^sup>*\<^sup>* empty_store s"

text \<open>What every recorded update keeps.\<close>

definition sound_store :: "deps \<Rightarrow> permit_store \<Rightarrow> bool" where
  "sound_store d s =
     (distinct_tokens s \<and> distinct (map ar_digest (receipts s))
      \<and> rebuild_tables (event_log s) = Inr (tables_of s)
      \<and> audit.linked (sha256 d) 1 GENESIS (event_log s))"

lemma make_event_simps [simp]: "er_payload (make_event d t es p) = p"
  by (simp add: make_event_def Let_def)

lemma make_event_linked:
  assumes "audit.linked (sha256 d) 1 GENESIS es"
  shows "audit.linked (sha256 d) 1 GENESIS (es @ [make_event d t es p])"
proof -
  have "es \<noteq> [] \<Longrightarrow> er_seq (last es) = length es"
    using audit.linked_seqs [OF assms] by (metis add_diff_cancel_left' last_map last_upt length_greater_0_conv
        less_add_same_cancel1 plus_1_eq_Suc diff_Suc_1)
  with assms show ?thesis
    by (simp add: audit.linked_snoc make_event_def Let_def audit.head_def event_material_def)
qed

lemma rebuild_snoc:
  "rebuild_tables (es @ [e]) = and_then (rebuild_tables es) (apply_event (er_payload e))"
proof (cases "rebuild_tables es")
  case (Inl x)
  then show ?thesis by (simp add: rebuild_tables_def fold_result_append)
next
  case (Inr t)
  then show ?thesis
    by (cases "apply_event (er_payload e) t") (simp_all add: rebuild_tables_def fold_result_append)
qed

lemma apply_event_distinct:
  assumes "apply_event p t = Inr u" and "distinct (map dr_token (decisions t))"
    and "distinct (map ar_digest (receipts t))"
  shows "distinct (map dr_token (decisions u)) \<and> distinct (map ar_digest (receipts u))"
  using assms by (cases p) (auto split: if_splits)

lemma recorded_sound: "recorded d s s' \<Longrightarrow> sound_store d s \<Longrightarrow> sound_store d s'"
proof (induction rule: recorded.induct)
  case (recorded p s s' t)
  then show ?case
    using apply_event_distinct [OF recorded.hyps(1)]
    by (simp add: sound_store_def distinct_tokens_def rebuild_snoc make_event_linked del: One_nat_def)
qed

lemma history_sound: "history d s s' \<Longrightarrow> sound_store d s \<Longrightarrow> sound_store d s'"
  by (induction rule: rtranclp_induct) (auto dest: recorded_sound)

lemma with_own_tables: "with_tables (tables_of s) s = s"
  by (simp add: with_tables_def)

lemma rebuild_sound: "sound_store d s \<Longrightarrow> rebuild s = (s, Inr True)"
  by (simp add: sound_store_def rebuild_def same_projection_def with_own_tables)

lemma permit_step_history:
  assumes "permit_step d s s'" and "sound_store d s"
  shows "history d s s'"
  using assms
  by (cases rule: permit_step.cases)
     (auto simp: issue_approval_history revoke_approval_history issue_action_history sound_store_def
       consume_action_history revoke_for_support_def revoke_for_episode_def revoke_all_history Let_def
       rebuild_sound [unfolded sound_store_def])

lemma empty_sound: "sound_store d empty_store"
  by (simp add: sound_store_def distinct_tokens_def empty_store_def rebuild_tables_def tables_of_def
      permit_tables.truncate_def empty_tables_def)

lemma reachable_sound_history: "reachable d s \<Longrightarrow> sound_store d s \<and> history d empty_store s"
proof (induction rule: rtranclp_induct)
  case base
  show ?case by (simp add: empty_sound)
next
  case (step s s')
  then have "history d s s'" by (blast intro: permit_step_history)
  with step show ?case by (meson history_sound history_trans)
qed

lemma steps_history:
  assumes "(permit_step d)\<^sup>*\<^sup>* s s'" and "sound_store d s"
  shows "history d s s' \<and> sound_store d s'"
  using assms
proof (induction rule: rtranclp_induct)
  case (step t u)
  then have "history d t u" by (blast intro: permit_step_history)
  with step show ?case by (meson history_sound history_trans)
qed auto

end
