(* ===== verification/Permit_Props.thy ===== *)
theory Permit_Props
  imports Permit_Log
begin

text \<open>
  What the authorization store guarantees: replay and hash chain, soundness of a consumption,
  single use of permits and of exact-action receipts, and the effect of a retraction.
\<close>

section \<open>Rows only move forward\<close>

lemma set_decision_settled:
  "find_decision token rows = Some r \<Longrightarrow> dr_state r \<noteq> Issued \<Longrightarrow>
     find_decision token (set_decision token' st rows) = Some r"
  by (induction rows) (auto simp: find_decision_def set_decision_def split: if_splits)

lemma set_decision_done:
  "find_decision token rows = Some r \<Longrightarrow> dr_state r = Issued \<Longrightarrow>
     find_decision token (set_decision token st rows) = Some (r\<lparr>dr_state := st\<rparr>)"
  by (induction rows) (auto simp: find_decision_def set_decision_def split: if_splits)

lemma find_decision_append:
  "find_decision token rows = Some r \<Longrightarrow> find_decision token (rows @ others) = Some r"
  unfolding find_decision_def by (induction rows) auto

definition settled :: "string \<Rightarrow> permit_tables \<Rightarrow> bool" where
  "settled token t = (\<exists>r. find_decision token (decisions t) = Some r \<and> dr_state r \<noteq> Issued)"

lemma settled_event: "apply_event p t = Inr u \<Longrightarrow> settled token t \<Longrightarrow> settled token u"
  unfolding settled_def
  by (cases p) (auto simp: set_decision_settled find_decision_append split: if_splits)

lemma settled_history: "history d s s' \<Longrightarrow> settled token (tables_of s) \<Longrightarrow> settled token (tables_of s')"
  by (induction rule: rtranclp_induct) (auto elim!: recorded.cases dest: settled_event)

definition consumptions :: "string \<Rightarrow> event_row list \<Rightarrow> nat" where
  "consumptions token events =
     length (filter (\<lambda>e. case er_payload e of ActionConsumed t bd \<Rightarrow> t = token | _ \<Rightarrow> False) events)"

definition used_once :: "string \<Rightarrow> permit_store \<Rightarrow> bool" where
  "used_once token s =
     (consumptions token (event_log s) \<le> 1
      \<and> (consumptions token (event_log s) = 1 \<longrightarrow> settled token (tables_of s)))"

lemma consumed_settles:
  "apply_event (ActionConsumed token bd) t = Inr u \<Longrightarrow> outstanding token t \<Longrightarrow> settled token u"
  by (auto simp: settled_def outstanding_def set_decision_done)

lemma recorded_used_once: "recorded d s s' \<Longrightarrow> used_once token s \<Longrightarrow> used_once token s'"
proof (induction rule: recorded.induct)
  case (recorded p s s' t)
  show ?case
  proof (cases "\<exists>bd. p = ActionConsumed token bd")
    case True
    then obtain bd where p: "p = ActionConsumed token bd" by blast
    with recorded.hyps(2) have "outstanding token (tables_of s)" by simp
    moreover from this have "\<not> settled token (tables_of s)"
      by (auto simp: outstanding_def settled_def)
    ultimately have "consumptions token (event_log s) = 0" "settled token (tables_of s')"
      using recorded p consumed_settles [of token bd "tables_of s" "tables_of s'"]
      by (auto simp: used_once_def)
    moreover have "consumptions token (event_log s') = Suc (consumptions token (event_log s))"
      using recorded.hyps(3) p by (simp add: consumptions_def)
    ultimately show ?thesis by (simp add: used_once_def)
  next
    case False
    then have "consumptions token (event_log s') = consumptions token (event_log s)"
      using recorded.hyps(3) by (auto simp: consumptions_def split: permit_event.splits)
    with recorded settled_event [OF recorded.hyps(1)] show ?thesis
      by (auto simp: used_once_def)
  qed
qed

lemma history_used_once: "history d s s' \<Longrightarrow> used_once token s \<Longrightarrow> used_once token s'"
  by (induction rule: rtranclp_induct) (auto dest: recorded_used_once)

lemma reachable_used_once: "reachable d s \<Longrightarrow> used_once token s"
  using reachable_sound_history [of d s] history_used_once [of d empty_store s token]
  by (simp add: used_once_def consumptions_def empty_store_def)

section \<open>Consumption\<close>

lemma binding_mismatch_None:
  "binding_mismatch x y = None \<Longrightarrow> y\<lparr>ac_schema_version := ac_schema_version x\<rparr> = x"
  by (intro action_binding.equality) (auto simp: binding_mismatch_def binding_checks_def split: if_splits)

lemma approval_reason_sound:
  assumes "approval_reason d now b True s = (s', None)" and "approval_receipt_digest b = Some g" and "g \<noteq> []"
  shows "\<exists>r. find_receipt g (receipts s) = Some r \<and> ar_state r \<in> {Issued, Consumed}
    \<and> iso d now < ar_expires_at r \<and> ar_binding r = expected_approval b (ab_scope (ar_binding r))"
  using assms by (auto simp: approval_reason_def Let_def split: option.splits if_splits)

lemma consume_action_cases:
  assumes "consume_action d now lv sups cons raw presented s = (s', r)" and "consumed r"
  obtains row where "find_decision (sha256 d raw) (decisions s) = Some row" "dr_state row = Issued"
    "iso d now < dr_expires_at row" "binding_mismatch (dr_binding row) presented = None"
    "approval_reason d now (dr_binding row) True s = (s, None)"
    "resolve (stored_episode_is_active lv (dr_binding row)) None"
    "resolve (stored_supports_are_active lv (dr_binding row))
       (map_option (\<lambda>f. f (supporting_belief_ids (dr_binding row))) sups)"
    "resolve (stored_conflicts_are_closed lv (dr_binding row))
       (map_option (\<lambda>f. f (blocking_conflict_ids (dr_binding row))) cons)"
    "decisions s' = set_decision (sha256 d raw) Consumed (decisions s)"
    "event_log s' = event_log s @ [make_event d (iso d now) (event_log s)
       (ActionConsumed (sha256 d raw) (action_digest d (dr_binding row)))]"
proof -
  obtain row where row: "find_decision (sha256 d raw) (decisions s) = Some row"
    using assms by (cases "find_decision (sha256 d raw) (decisions s)")
      (auto simp: consume_action_def plain_reject_def reject_def Let_def)
  obtain s1 why where ar: "approval_reason d now (dr_binding row) True s = (s1, why)" by fastforce
  have "why = None"
    using assms row ar
    by (auto simp: consume_action_def plain_reject_def revoke_reject_def reject_def Let_def
        split: option.splits if_splits)
  moreover from this ar have "s1 = s" by (simp add: approval_reason_None)
  ultimately show ?thesis
    using assms row ar that
    by (auto simp: consume_action_def plain_reject_def revoke_reject_def reject_def Let_def
        split: option.splits if_splits)
qed

lemma supports_counted:
  assumes "length (filter (\<lambda>(i, ep, st). P ep st \<and> i \<in> set ids) rows) = length ids"
    and "distinct (map fst rows)" and "i \<in> set ids"
  shows "\<exists>ep st. (i, ep, st) \<in> set rows \<and> P ep st"
proof -
  let ?f = "filter (\<lambda>(i, ep, st). P ep st \<and> i \<in> set ids) rows"
  have dist: "distinct (map fst ?f)" using assms(2) by (simp add: distinct_map_filter)
  have sub: "set (map fst ?f) \<subseteq> set ids" by auto
  have "card (set (map fst ?f)) = length ids"
    using distinct_card [OF dist] assms(1) by simp
  with card_length [of ids] have "set (map fst ?f) = set ids"
    by (intro card_seteq sub) simp_all
  with assms(3) have "i \<in> fst ` set ?f" by simp
  then show ?thesis by (auto simp del: set_filter) auto
qed

section \<open>Retraction of a support\<close>

text \<open>The index tables always list the supports and the episode of every decision.\<close>

definition bound_tokens :: "action_row list \<Rightarrow> (string \<times> action_binding) list" where
  "bound_tokens rows = map (\<lambda>r. (dr_token r, dr_binding r)) rows"

definition indexed :: "permit_tables \<Rightarrow> bool" where
  "indexed t =
     (decision_supports t
        = concat (map (\<lambda>(k, b). map (Pair k) (supporting_belief_ids b)) (bound_tokens (decisions t)))
      \<and> decision_episodes t = map (\<lambda>(k, b). (k, ac_episode_id b)) (bound_tokens (decisions t)))"

lemma bound_tokens_set [simp]: "bound_tokens (set_decision token st rows) = bound_tokens rows"
  by (simp add: bound_tokens_def set_decision_def)

lemma bound_tokens_append [simp]: "bound_tokens (xs @ ys) = bound_tokens xs @ bound_tokens ys"
  by (simp add: bound_tokens_def)

lemma indexed_event: "apply_event p t = Inr u \<Longrightarrow> indexed t \<Longrightarrow> indexed u"
  by (cases p) (auto simp: indexed_def bound_tokens_def [of "[x]" for x] split: if_splits)

lemma indexed_supports:
  "indexed t \<Longrightarrow> (token, i) \<in> set (decision_supports t) \<longleftrightarrow>
     (\<exists>r \<in> set (decisions t). dr_token r = token \<and> i \<in> set (supporting_belief_ids (dr_binding r)))"
  by (auto simp: indexed_def bound_tokens_def)

lemma indexed_history: "history d s s' \<Longrightarrow> indexed (tables_of s) \<Longrightarrow> indexed (tables_of s')"
  by (induction rule: rtranclp_induct) (auto elim!: recorded.cases dest: indexed_event)

lemma reachable_indexed: "reachable d s \<Longrightarrow> indexed (tables_of s)"
  using reachable_sound_history [of d s] indexed_history [of d empty_store s]
  by (simp add: indexed_def bound_tokens_def empty_store_def)

lemma issued_joined_iff:
  "token \<in> set (issued_joined index key rows) \<longleftrightarrow>
     (token, key) \<in> set index \<and> (\<exists>r \<in> set rows. dr_token r = token \<and> dr_state r = Issued)"
  by (auto simp: issued_joined_def)

lemma revoke_all_decisions:
  "decisions (fold (revoke_one d now reason bid) tokens s)
   = map (\<lambda>r. if dr_token r \<in> set tokens \<and> dr_state r = Issued then r\<lparr>dr_state := Revoked\<rparr> else r) (decisions s)"
proof (induction tokens arbitrary: s)
  case (Cons token tokens)
  have "decisions (revoke_one d now reason bid token s) = set_decision token Revoked (decisions s)"
    by (simp add: revoke_one_def)
  with Cons show ?case by (auto simp: set_decision_def)
qed simp

section \<open>Single use of a receipt\<close>

definition users :: "string \<Rightarrow> action_row list \<Rightarrow> action_binding list" where
  "users g rows = filter (\<lambda>b. approval_receipt_digest b = Some g) (map dr_binding rows)"

definition single_use_ok :: "permit_store \<Rightarrow> bool" where
  "single_use_ok s =
     (\<forall>g. g \<noteq> [] \<longrightarrow> users g (decisions s) \<noteq> [] \<longrightarrow>
        (\<exists>rc. find_receipt g (receipts s) = Some rc
          \<and> (ab_scope (ar_binding rc) \<in> set single_use_scopes \<longrightarrow>
               length (users g (decisions s)) \<le> 1 \<and> ar_state rc \<noteq> Issued)))"

text \<open>A receipt keeps its binding, and once it has left the state issued it does not return.\<close>

definition rows_kept :: "approval_row list \<Rightarrow> approval_row list \<Rightarrow> bool" where
  "rows_kept rows rows' =
     (\<forall>g rc. find_receipt g rows = Some rc \<longrightarrow>
        (\<exists>rc'. find_receipt g rows' = Some rc' \<and> ar_binding rc' = ar_binding rc
             \<and> (ar_state rc \<noteq> Issued \<longrightarrow> ar_state rc' \<noteq> Issued)))"

lemma rows_kept_refl [simp]: "rows_kept rows rows"
  by (auto simp: rows_kept_def)

lemma rows_kept_trans: "rows_kept a b \<Longrightarrow> rows_kept b c \<Longrightarrow> rows_kept a c"
  unfolding rows_kept_def by metis

lemma find_receipt_append:
  "find_receipt g rows = Some r \<Longrightarrow> find_receipt g (rows @ others) = Some r"
  unfolding find_receipt_def by (induction rows) auto

lemma find_receipt_set:
  "st \<noteq> Issued \<Longrightarrow> find_receipt g rows = Some rc \<Longrightarrow>
     \<exists>rc'. find_receipt g (set_receipt k st rows) = Some rc' \<and> ar_binding rc' = ar_binding rc
        \<and> (ar_state rc \<noteq> Issued \<or> g = k \<longrightarrow> ar_state rc' \<noteq> Issued)"
  by (induction rows) (auto simp: find_receipt_def set_receipt_def split: if_splits)

lemma find_receipt_revoke:
  "find_receipt g rows = Some rc \<Longrightarrow>
     \<exists>rc'. find_receipt g (revoke_binding bd rows) = Some rc' \<and> ar_binding rc' = ar_binding rc
        \<and> (ar_state rc \<noteq> Issued \<longrightarrow> ar_state rc' \<noteq> Issued)"
  by (induction rows) (auto simp: find_receipt_def revoke_binding_def split: if_splits)

lemma rows_kept_updates [simp]:
  "rows_kept rows (rows @ others)" "rows_kept rows (revoke_binding bd rows)"
  "st \<noteq> Issued \<Longrightarrow> rows_kept rows (set_receipt k st rows)"
  using find_receipt_append find_receipt_revoke find_receipt_set
  unfolding rows_kept_def by blast+

lemma rows_kept_event: "apply_event p t = Inr u \<Longrightarrow> rows_kept (receipts t) (receipts u)"
  by (cases p) (auto split: if_splits)

lemma rows_kept_history: "history d s s' \<Longrightarrow> rows_kept (receipts s) (receipts s')"
proof (induction rule: rtranclp_induct)
  case (step t u)
  from step.hyps(2) have "rows_kept (receipts t) (receipts u)"
    by (auto elim!: recorded.cases dest: rows_kept_event)
  with step.IH show ?case by (rule rows_kept_trans)
qed simp

lemma single_use_kept:
  assumes "single_use_ok s" and "rows_kept (receipts s) (receipts s')"
    and "map dr_binding (decisions s') = map dr_binding (decisions s)"
  shows "single_use_ok s'"
  using assms unfolding single_use_ok_def users_def rows_kept_def by metis

lemma approval_reason_decisions [simp]:
  "decisions (fst (approval_reason d now b allow s)) = decisions s"
  by (auto simp: approval_reason_def Let_def split: option.splits)

lemma approval_reason_keeps:
  "approval_reason d now b allow s = (s', why) \<Longrightarrow> decisions s' = decisions s"
  using approval_reason_decisions [of d now b allow s] by simp

lemma issue_action_failed:
  "issue_action d now raw b ttl s = (s', Inl e) \<Longrightarrow> decisions s' = decisions s"
  by (auto simp: issue_action_def Let_def dest: approval_reason_keeps
      split: option.splits if_splits prod.splits)

lemma issue_action_done:
  assumes "issue_action d now raw b ttl s = (s', Inr ad)"
  shows "0 < ttl" and "approval_reason d now b False s = (s, None)"
    and "sha256 d raw \<notin> set (map dr_token (decisions s))" and "distinct (supporting_belief_ids b)"
    and "ad_token_digest ad = sha256 d raw"
    and "decisions s' = decisions s @ [\<lparr>dr_token = sha256 d raw, dr_binding_digest = action_digest d b,
           dr_binding = b, dr_issued_at = iso d now, dr_expires_at = iso d (now + ttl * 1000000),
           dr_state = Issued\<rparr>]"
    and "receipts s' = (case approval_receipt_digest b of
           None \<Rightarrow> receipts s
         | Some g \<Rightarrow>
             if g = [] then receipts s
             else case find_receipt g (receipts s) of
                    None \<Rightarrow> receipts s
                  | Some rc \<Rightarrow> if ab_scope (ar_binding rc) \<in> set single_use_scopes
                               then set_receipt g Consumed (receipts s) else receipts s)"
proof -
  obtain s1 why where ar: "approval_reason d now b False s = (s1, why)" by fastforce
  have "why = None" using assms ar
    by (auto simp: issue_action_def Let_def split: option.splits if_splits)
  moreover from this ar have "s1 = s" by (simp add: approval_reason_None)
  ultimately have ar': "approval_reason d now b False s = (s, None)" using ar by simp
  then show "approval_reason d now b False s = (s, None)" .
  have ok: "0 < ttl" "sha256 d raw \<notin> set (map dr_token (decisions s))" "distinct (supporting_belief_ids b)"
    using assms by (auto simp: issue_action_def ar' Let_def split: if_splits)
  then show "0 < ttl" "sha256 d raw \<notin> set (map dr_token (decisions s))" "distinct (supporting_belief_ids b)"
    by blast+
  note unfolded = assms [unfolded issue_action_def Let_def ar' prod.case option.case]
  show "ad_token_digest ad = sha256 d raw" using unfolded ok by auto
  show "decisions s' = decisions s @ [\<lparr>dr_token = sha256 d raw, dr_binding_digest = action_digest d b,
           dr_binding = b, dr_issued_at = iso d now, dr_expires_at = iso d (now + ttl * 1000000),
           dr_state = Issued\<rparr>]"
    using unfolded ok by (auto split: option.splits if_splits)
  show "receipts s' = (case approval_receipt_digest b of
           None \<Rightarrow> receipts s
         | Some g \<Rightarrow>
             if g = [] then receipts s
             else case find_receipt g (receipts s) of
                    None \<Rightarrow> receipts s
                  | Some rc \<Rightarrow> if ab_scope (ar_binding rc) \<in> set single_use_scopes
                               then set_receipt g Consumed (receipts s) else receipts s)"
    using unfolded ok by (auto split: option.splits if_splits)
qed

lemma approval_reason_fresh:
  "approval_reason d now b False s = (s', None) \<Longrightarrow> approval_receipt_digest b = Some g \<Longrightarrow> g \<noteq> [] \<Longrightarrow>
     \<exists>rc. find_receipt g (receipts s) = Some rc \<and> ar_state rc = Issued"
  by (auto simp: approval_reason_def Let_def split: option.splits if_splits)

lemma issue_action_single:
  assumes "single_use_ok s"
  shows "single_use_ok (fst (issue_action d now raw b ttl s))"
proof (cases "issue_action d now raw b ttl s")
  case (Pair s' r)
  have kept: "rows_kept (receipts s) (receipts s')"
    using rows_kept_history [OF issue_action_history [of d s now raw b ttl]] Pair by simp
  show ?thesis
  proof (cases r)
    case (Inl e)
    with Pair issue_action_failed have "decisions s' = decisions s" by simp
    with assms kept Pair show ?thesis by (simp add: single_use_kept)
  next
    case (Inr ad)
    with Pair have ok: "issue_action d now raw b ttl s = (s', Inr ad)" by simp
    note done' = issue_action_done [OF ok]
    have "\<exists>rc. find_receipt g (receipts s') = Some rc
        \<and> (ab_scope (ar_binding rc) \<in> set single_use_scopes \<longrightarrow>
             length (users g (decisions s')) \<le> 1 \<and> ar_state rc \<noteq> Issued)"
      if g: "g \<noteq> []" and u: "users g (decisions s') \<noteq> []" for g
    proof (cases "approval_receipt_digest b = Some g")
      case False
      then have eq: "users g (decisions s') = users g (decisions s)"
        by (simp add: done'(6) users_def)
      with assms g u obtain rc where "find_receipt g (receipts s) = Some rc"
        "ab_scope (ar_binding rc) \<in> set single_use_scopes \<longrightarrow>
           length (users g (decisions s)) \<le> 1 \<and> ar_state rc \<noteq> Issued"
        unfolding single_use_ok_def by metis
      with kept eq show ?thesis unfolding rows_kept_def by metis
    next
      case True
      obtain rc where rc: "find_receipt g (receipts s) = Some rc" "ar_state rc = Issued"
        using approval_reason_fresh [OF done'(2) True g] by blast
      show ?thesis
      proof (cases "ab_scope (ar_binding rc) \<in> set single_use_scopes")
        case scope: True
        with assms g rc have "users g (decisions s) = []" unfolding single_use_ok_def by fastforce
        then have "length (users g (decisions s')) \<le> 1" by (simp add: done'(6) users_def)
        moreover have "receipts s' = set_receipt g Consumed (receipts s)"
          using done'(7) True g rc scope by simp
        ultimately show ?thesis using find_receipt_set [OF _ rc(1), of Consumed g] by auto
      next
        case False
        with done'(7) True g rc have "receipts s' = receipts s" by simp
        with rc False show ?thesis by auto
      qed
    qed
    with Pair show ?thesis by (simp add: single_use_ok_def)
  qed
qed

lemma consume_bindings:
  "map dr_binding (decisions (fst (consume_action d now lv sups cons raw presented s))) = map dr_binding (decisions s)"
proof -
  have set: "map dr_binding (set_decision token st rows) = map dr_binding rows" for token st rows
    by (simp add: set_decision_def)
  show ?thesis
    by (auto simp: consume_action_def plain_reject_def revoke_reject_def reject_def Let_def set
        dest: approval_reason_keeps split: option.splits prod.splits)
qed

lemma revoke_all_bindings:
  "map dr_binding (decisions (fold (revoke_one d now reason bid) tokens s)) = map dr_binding (decisions s)"
  by (simp add: revoke_all_decisions)

lemma approval_decisions:
  "decisions (fst (issue_approval d now rid b ttl approved s)) = decisions s"
  "decisions (fst (revoke_approval d now digest reason s)) = decisions s"
  by (simp_all add: issue_approval_def revoke_approval_def Let_def)

lemma permit_step_single:
  assumes "permit_step d s s'" and "sound_store d s" and "single_use_ok s"
  shows "single_use_ok s'"
proof -
  note kept = rows_kept_history [OF permit_step_history [OF assms(1,2)]]
  from assms(1) show ?thesis
  proof (cases rule: permit_step.cases)
    case (issue now raw b ttl)
    with issue_action_single [OF assms(3)] show ?thesis by simp
  next
    case (approve now rid b ttl approved)
    show ?thesis by (rule single_use_kept [OF assms(3) kept]) (simp add: approve approval_decisions)
  next
    case (revoke now digest reason)
    show ?thesis by (rule single_use_kept [OF assms(3) kept]) (simp add: revoke approval_decisions)
  next
    case (consume now lv sups cons raw presented)
    show ?thesis by (rule single_use_kept [OF assms(3) kept]) (simp add: consume consume_bindings)
  next
    case (support now belief_id)
    show ?thesis
      by (rule single_use_kept [OF assms(3) kept])
         (simp add: support revoke_for_support_def Let_def revoke_all_bindings)
  next
    case (episode now episode_id)
    show ?thesis
      by (rule single_use_kept [OF assms(3) kept])
         (simp add: episode revoke_for_episode_def Let_def revoke_all_bindings)
  next
    case replayed
    with rebuild_sound [OF assms(2)] assms(3) show ?thesis by simp
  qed
qed

lemma reachable_single: "reachable d s \<Longrightarrow> single_use_ok s"
proof (induction rule: rtranclp_induct)
  case base
  show ?case by (simp add: single_use_ok_def users_def empty_store_def)
next
  case (step s s')
  then show ?case using permit_step_single reachable_sound_history by blast
qed

section \<open>A sample run\<close>

text \<open>Stand-ins for what comes from outside, good enough to run the operations on.\<close>

definition sample_deps :: deps where
  "sample_deps = \<lparr>sha256 = (\<lambda>x. ''h''), event_id = (\<lambda>n. ''ev_'' @ show_nat n),
     iso = (\<lambda>t. if t < 1000000 then ''early'' else ''late'')\<rparr>"

definition sample_approval :: approval_binding where
  "sample_approval = \<lparr>ab_schema_version = 1, ab_episode_id = ''ep'', ab_turn_id = ''t1'',
     ab_namespace = ''fs'', ab_tool_name = ''write'', ab_arguments_hash = ''a'', ab_target = ''/x'',
     ab_policy_id = ''p'', ab_policy_revision = ''1'', ab_scope = ''exact_action''\<rparr>"

definition sample_action :: action_binding where
  "sample_action = \<lparr>ac_schema_version = 1, ac_episode_id = ''ep'', ac_turn_id = ''t1'',
     ac_namespace = ''fs'', ac_tool_name = ''write'', ac_arguments_hash = ''a'', ac_target = ''/x'',
     ac_policy_id = ''p'', ac_policy_revision = ''1'', canonicalization_version = 1,
     policy_content_digest = ''pd'', config_content_digest = ''cd'', ac_stakes = ''high'',
     supporting_belief_ids = [''b1''], blocking_conflict_ids = [''c1''],
     approval_receipt_digest = Some ''h''\<rparr>"

definition standalone :: ledger_view where
  "standalone = \<lparr>lv_beliefs = None, lv_episodes = None, lv_conflicts = None, colocated = []\<rparr>"

definition approved_store :: permit_store where
  "approved_store = fst (issue_approval sample_deps 1 ''r'' sample_approval 60 True empty_store)"

definition issued_store :: permit_store where
  "issued_store = fst (issue_action sample_deps 2 ''token'' sample_action 30 approved_store)"

definition sample_consumption :: "permit_store \<times> consume_result" where
  "sample_consumption = consume_action sample_deps 3 standalone None None ''token'' sample_action issued_store"

lemma approved_reachable: "reachable sample_deps approved_store"
  unfolding approved_store_def by (rule r_into_rtranclp) (rule permit_step.approve)

lemma issued_reachable: "reachable sample_deps issued_store"
  unfolding issued_store_def by (rule rtranclp.rtrancl_into_rtrancl [OF approved_reachable permit_step.issue])

lemma sample_deps_simps [simp]:
  "sha256 sample_deps x = ''h''" "approval_digest sample_deps a = ''h''"
  "action_digest sample_deps b = ''h''" "receipt_digest sample_deps i a = ''h''"
  by (simp_all add: sample_deps_def approval_digest_def action_digest_def receipt_digest_def)

lemma sample_iso [simp]: "iso sample_deps t = (if t < 1000000 then ''early'' else ''late'')"
  by (simp add: sample_deps_def)

lemma approved_store_simps [simp]:
  "receipts approved_store = [\<lparr>ar_digest = ''h'', ar_binding_digest = ''h'', ar_binding = sample_approval,
     ar_issued_at = ''early'', ar_expires_at = ''late'', ar_state = Issued\<rparr>]"
  "decisions approved_store = []" "length (event_log approved_store) = 1"
  by (simp_all add: approved_store_def issue_approval_def empty_store_def Let_def)

lemma sample_expected: "expected_approval sample_action ''exact_action'' = sample_approval"
  by (simp add: expected_approval_def sample_action_def sample_approval_def)

lemma sample_scope [simp]: "ab_scope sample_approval = ''exact_action''"
  by (simp add: sample_approval_def)

lemma sample_fields [simp]:
  "approval_receipt_digest sample_action = Some ''h''" "supporting_belief_ids sample_action = [''b1'']"
  "blocking_conflict_ids sample_action = [''c1'']"
  by (simp_all add: sample_action_def)

lemma sample_approved: "approval_reason sample_deps 2 sample_action False approved_store = (approved_store, None)"
  by (simp add: approval_reason_def find_receipt_def sample_expected Let_def)

lemma issued_store_simps [simp]:
  "receipts issued_store = [\<lparr>ar_digest = ''h'', ar_binding_digest = ''h'', ar_binding = sample_approval,
     ar_issued_at = ''early'', ar_expires_at = ''late'', ar_state = Consumed\<rparr>]"
  "decisions issued_store = [\<lparr>dr_token = ''h'', dr_binding_digest = ''h'', dr_binding = sample_action,
     dr_issued_at = ''early'', dr_expires_at = ''late'', dr_state = Issued\<rparr>]"
  "length (event_log issued_store) = 3"
  by (simp_all add: issued_store_def issue_action_def sample_approved find_receipt_def set_receipt_def
      single_use_scopes_def Let_def)

lemma sample_consumed: "consumed (snd sample_consumption)"
proof -
  have "approval_reason sample_deps 3 sample_action True issued_store = (issued_store, None)"
    by (simp add: approval_reason_def find_receipt_def sample_expected Let_def)
  moreover have "binding_mismatch sample_action sample_action = None"
    by (simp add: binding_mismatch_def binding_checks_def)
  ultimately show ?thesis
    by (simp add: sample_consumption_def consume_action_def find_decision_def resolve_def standalone_def
        stored_episode_is_active_def stored_supports_are_active_def stored_conflicts_are_closed_def
        projection_readable_def Let_def)
qed

section \<open>Properties\<close>

text \<open>
  C14. In every reachable state the authorization tables are exactly what replaying the log from
  nothing gives, so \<open>rebuild\<close> always succeeds and changes nothing, and the log's hash chain
  verifies.
\<close>

theorem permit_replay_exact:
  assumes "reachable d s"
  shows "rebuild s = (s, Inr True)
    \<and> rebuild_tables (event_log s) = Inr (tables_of s)
    \<and> verify_hash_chain d s = Inr (audit.head GENESIS (event_log s))"
  using reachable_sound_history [OF assms] rebuild_sound
  by (auto simp: sound_store_def verify_hash_chain_def verify_events_linked)

theorem permit_replay_exact_witness:
  "rebuild issued_store = (issued_store, Inr True) \<and> length (event_log issued_store) = 3"
  using permit_replay_exact [OF issued_reachable] by simp

text \<open>
  C15. The authorization log is tamper-evident: two nonempty logs that verify with the same head
  are the same log, event for event, unless they exhibit two different hash inputs with the
  same hash.
\<close>

theorem permit_log_tamper_evident:
  assumes "verify_events d 1 GENESIS es = Inr h" and "verify_events d 1 GENESIS fs = Inr h"
    and "es \<noteq> []" and "fs \<noteq> []"
  shows "es = fs \<or> (\<exists>e \<in> set es. \<exists>f \<in> set fs.
    event_material e \<noteq> event_material f \<and> sha256 d (event_material e) = sha256 d (event_material f))"
  using audit.head_commits [of "sha256 d" 1 GENESIS es fs] assms
  by (auto simp: verify_events_linked audit.collision_def)

theorem permit_log_tamper_evident_witness:
  "\<exists>es h. verify_events sample_deps 1 GENESIS es = Inr h \<and> es \<noteq> [] \<and> (\<forall>fs. fs \<noteq> [] \<longrightarrow>
     verify_events sample_deps 1 GENESIS fs = Inr h \<longrightarrow> es = fs \<or> (\<exists>e \<in> set es. \<exists>f \<in> set fs.
       event_material e \<noteq> event_material f
       \<and> sha256 sample_deps (event_material e) = sha256 sample_deps (event_material f)))"
proof -
  have v: "verify_events sample_deps 1 GENESIS (event_log issued_store)
      = Inr (audit.head GENESIS (event_log issued_store))"
    using reachable_sound_history [OF issued_reachable] by (simp add: sound_store_def verify_events_linked)
  have ne: "event_log issued_store \<noteq> []" using issued_store_simps(3) by force
  show ?thesis
    using permit_log_tamper_evident [OF v _ ne] v ne by blast
qed

text \<open>
  C13. A permit is only consumed when it is outstanding and unexpired, is presented with the action it
  is bound to (the same in every field but the schema version, which is not compared), and its approval
  (if any) is unexpired and for that very action. Where the tables of the ledger are in the database,
  the episode is active, every supporting belief is IN in the episode and no conflict of the episode is
  open; a table that was there when the store was opened is still there. A callback that is given has
  answered that the supports are active, or the conflicts closed. A store on a database of its own,
  with neither tables nor callbacks, checks the binding, the expiry and the single use alone.
\<close>

theorem consumption_sound:
  assumes "consume_action d now lv sups cons raw presented s = (s', r)" and "consumed r"
  shows "\<exists>row. find_decision (sha256 d raw) (decisions s) = Some row
    \<and> dr_state row = Issued \<and> iso d now < dr_expires_at row
    \<and> presented\<lparr>ac_schema_version := ac_schema_version (dr_binding row)\<rparr> = dr_binding row
    \<and> (\<forall>g. approval_receipt_digest (dr_binding row) = Some g \<and> g \<noteq> [] \<longrightarrow>
         (\<exists>rc. find_receipt g (receipts s) = Some rc \<and> iso d now < ar_expires_at rc
            \<and> ar_state rc \<in> {Issued, Consumed}
            \<and> ar_binding rc = expected_approval (dr_binding row) (ab_scope (ar_binding rc))))
    \<and> (\<forall>rows. lv_episodes lv = Some rows \<longrightarrow> map_of rows (ac_episode_id presented) = Some ''active'')
    \<and> (\<forall>rows i. lv_beliefs lv = Some rows \<and> distinct (map fst rows) \<and> i \<in> set (supporting_belief_ids presented)
         \<longrightarrow> (i, ac_episode_id presented, ''in'') \<in> set rows)
    \<and> (\<forall>rows i. lv_conflicts lv = Some rows \<longrightarrow> (i, ac_episode_id presented, ''open'') \<notin> set rows)
    \<and> (lv_episodes lv = None \<longrightarrow> ''episodes'' \<notin> set (colocated lv))
    \<and> (lv_beliefs lv = None \<and> supporting_belief_ids presented \<noteq> [] \<longrightarrow> ''beliefs'' \<notin> set (colocated lv))
    \<and> (lv_conflicts lv = None \<longrightarrow> ''conflicts'' \<notin> set (colocated lv))
    \<and> (\<forall>f. sups = Some f \<longrightarrow> f (supporting_belief_ids presented))
    \<and> (\<forall>f. cons = Some f \<longrightarrow> f (blocking_conflict_ids presented))
    \<and> decisions s' = set_decision (sha256 d raw) Consumed (decisions s)"
proof -
  obtain row where row: "find_decision (sha256 d raw) (decisions s) = Some row" "dr_state row = Issued"
    "iso d now < dr_expires_at row" and mm: "binding_mismatch (dr_binding row) presented = None"
    and ar: "approval_reason d now (dr_binding row) True s = (s, None)"
    and ep: "resolve (stored_episode_is_active lv (dr_binding row)) None"
    and su: "resolve (stored_supports_are_active lv (dr_binding row))
       (map_option (\<lambda>f. f (supporting_belief_ids (dr_binding row))) sups)"
    and co: "resolve (stored_conflicts_are_closed lv (dr_binding row))
       (map_option (\<lambda>f. f (blocking_conflict_ids (dr_binding row))) cons)"
    and s': "decisions s' = set_decision (sha256 d raw) Consumed (decisions s)"
    using consume_action_cases [OF assms] by metis
  note same = binding_mismatch_None [OF mm]
  then have fields: "ac_episode_id presented = ac_episode_id (dr_binding row)"
    "supporting_belief_ids presented = supporting_belief_ids (dr_binding row)"
    "blocking_conflict_ids presented = blocking_conflict_ids (dr_binding row)"
    by (metis action_binding.select_convs(2) action_binding.surjective action_binding.update_convs(1),
        metis action_binding.select_convs(14) action_binding.surjective action_binding.update_convs(1),
        metis action_binding.select_convs(15) action_binding.surjective action_binding.update_convs(1))
  have beliefs: "(i, ac_episode_id (dr_binding row), ''in'') \<in> set rows"
    if "lv_beliefs lv = Some rows" "distinct (map fst rows)" "i \<in> set (supporting_belief_ids (dr_binding row))"
    for rows i
  proof -
    from su that have "length (filter (\<lambda>(i, ep, st). (ep = ac_episode_id (dr_binding row) \<and> st = ''in'')
        \<and> i \<in> set (supporting_belief_ids (dr_binding row))) rows) = length (supporting_belief_ids (dr_binding row))"
      by (auto simp: resolve_def stored_supports_are_active_def conj_assoc split: if_splits)
    from supports_counted [OF this that(2,3)] show ?thesis by auto
  qed
  have conflicts: "(i, ac_episode_id (dr_binding row), ''open'') \<notin> set rows"
    if "lv_conflicts lv = Some rows" for rows i
    using co that by (auto simp: resolve_def stored_conflicts_are_closed_def list_ex_iff split: if_splits)
  have episodes: "map_of rows (ac_episode_id (dr_binding row)) = Some ''active''"
    if "lv_episodes lv = Some rows" for rows
    using ep that by (auto simp: resolve_def stored_episode_is_active_def split: if_splits)
  have tables: "lv_episodes lv = None \<longrightarrow> ''episodes'' \<notin> set (colocated lv)"
    "lv_beliefs lv = None \<and> supporting_belief_ids (dr_binding row) \<noteq> [] \<longrightarrow> ''beliefs'' \<notin> set (colocated lv)"
    "lv_conflicts lv = None \<longrightarrow> ''conflicts'' \<notin> set (colocated lv)"
    using ep su co
    by (auto simp: resolve_def stored_episode_is_active_def stored_supports_are_active_def
        stored_conflicts_are_closed_def projection_readable_def split: if_splits)
  have answers: "\<forall>f. sups = Some f \<longrightarrow> f (supporting_belief_ids (dr_binding row))"
    "\<forall>f. cons = Some f \<longrightarrow> f (blocking_conflict_ids (dr_binding row))"
    using su co by (auto simp: resolve_def split: if_splits)
  show ?thesis
    using row same approval_reason_sound [OF ar] beliefs conflicts episodes s' unfolding fields
    by - (intro exI [of _ row] conjI; (rule tables answers | blast))
qed

theorem consumption_sound_witness:
  "\<exists>row. find_decision ''h'' (decisions issued_store) = Some row \<and> dr_state row = Issued"
  using consumption_sound [of sample_deps 3 standalone None None "''token''" sample_action issued_store]
    sample_consumed unfolding sample_consumption_def sample_deps_simps by (metis prod.collapse)

text \<open>
  C12. A permit is used at most once: after a successful consumption, whatever operations follow,
  every further attempt with the same token is refused, and the log never holds a second
  consumption of it.
\<close>

theorem permit_used_at_most_once:
  assumes "reachable d s" and "consume_action d now lv sups cons raw presented s = (s1, r1)" and "consumed r1"
    and "(permit_step d)\<^sup>*\<^sup>* s1 s2"
    and "consume_action d now' lv' sups' cons' raw presented' s2 = (s3, r2)"
  shows "\<not> consumed r2 \<and> consumptions (sha256 d raw) (event_log s3) = 1"
proof -
  have step1: "permit_step d s s1" using permit_step.consume assms(2) by (metis fst_conv)
  have step2: "permit_step d s2 s3" using permit_step.consume assms(5) by (metis fst_conv)
  have r1: "reachable d s1" using assms(1) step1 by (rule rtranclp.rtrancl_into_rtrancl)
  then have r2: "reachable d s2" using assms(4) by (rule rtranclp_trans)
  then have r3: "reachable d s3" using step2 by (rule rtranclp.rtrancl_into_rtrancl)
  obtain row where row: "find_decision (sha256 d raw) (decisions s) = Some row" "dr_state row = Issued"
    and dec: "decisions s1 = set_decision (sha256 d raw) Consumed (decisions s)"
    and log: "event_log s1 = event_log s @ [make_event d (iso d now) (event_log s)
       (ActionConsumed (sha256 d raw) (action_digest d (dr_binding row)))]"
    using consume_action_cases [OF assms(2,3)] by metis
  have "settled (sha256 d raw) (tables_of s1)"
    using row dec by (simp add: settled_def set_decision_done)
  moreover have "history d s1 s2" using steps_history [OF assms(4)] reachable_sound_history [OF r1] by blast
  ultimately have settled: "settled (sha256 d raw) (tables_of s2)" by (rule settled_history [rotated])
  then have "\<not> consumed r2"
    using consume_action_cases [OF assms(5)] by (force simp: settled_def)
  moreover have "1 \<le> consumptions (sha256 d raw) (event_log s3)"
  proof -
    have "1 \<le> consumptions (sha256 d raw) (event_log s1)"
      by (simp add: log consumptions_def)
    moreover have "consumptions k (event_log u) \<le> consumptions k (event_log t)" if "history d u t" for u t k
      using that by (induction rule: rtranclp_induct)
        (auto simp: consumptions_def elim!: recorded.cases)
    moreover have "history d s1 s3"
      using steps_history [of d s1 s3] reachable_sound_history [OF r1] assms(4) step2
      by (meson rtranclp.rtrancl_into_rtrancl)
    ultimately show ?thesis by (meson le_trans)
  qed
  moreover have "consumptions (sha256 d raw) (event_log s3) \<le> 1"
    using reachable_used_once [OF r3] by (simp add: used_once_def)
  ultimately show ?thesis by (auto intro: le_antisym)
qed

theorem permit_used_at_most_once_witness:
  "\<not> consumed (snd (consume_action sample_deps 4 standalone None None ''token'' sample_action (fst sample_consumption)))"
  using permit_used_at_most_once [OF issued_reachable _ sample_consumed rtranclp.rtrancl_refl,
      of 3 standalone None None "''token''" sample_action]
  unfolding sample_consumption_def by (metis prod.collapse)

text \<open>
  Retracting a belief revokes exactly the outstanding permits that rest on it, leaves every
  other permit as it was, and none of the revoked ones can be consumed in any later state.
\<close>

theorem retraction_revokes_permits:
  assumes "reachable d s" and "revoke_for_support d now belief_id s = (s1, n)"
  shows "decisions s1 = map (\<lambda>r. if dr_state r = Issued \<and> belief_id \<in> set (supporting_belief_ids (dr_binding r))
                          then r\<lparr>dr_state := Revoked\<rparr> else r) (decisions s)
    \<and> (\<forall>row \<in> set (decisions s). belief_id \<in> set (supporting_belief_ids (dr_binding row)) \<longrightarrow>
         (\<forall>s2 now' lv sups cons raw presented. (permit_step d)\<^sup>*\<^sup>* s1 s2 \<longrightarrow> sha256 d raw = dr_token row \<longrightarrow>
            \<not> consumed (snd (consume_action d now' lv sups cons raw presented s2))))"
proof (intro conjI ballI impI allI)
  let ?tokens = "issued_joined (decision_supports s) belief_id (decisions s)"
  have dist: "distinct (map dr_token (decisions s))"
    using reachable_sound_history [OF assms(1)] by (simp add: sound_store_def distinct_tokens_def)
  have tokens: "dr_token r \<in> set ?tokens \<longleftrightarrow> belief_id \<in> set (supporting_belief_ids (dr_binding r))"
    if "r \<in> set (decisions s)" "dr_state r = Issued" for r
    using that dist indexed_supports [OF reachable_indexed [OF assms(1)], of "dr_token r" belief_id]
    by (auto simp: issued_joined_iff distinct_map inj_on_def)
  from assms(2) have "s1 = fold (revoke_one d now ''SUPPORT_RETRACTED'' (Some belief_id)) ?tokens s"
    by (simp add: revoke_for_support_def Let_def)
  with tokens show dec: "decisions s1 = map (\<lambda>r. if dr_state r = Issued \<and> belief_id \<in> set (supporting_belief_ids (dr_binding r))
                          then r\<lparr>dr_state := Revoked\<rparr> else r) (decisions s)"
    by (auto simp: revoke_all_decisions)
  have step1: "permit_step d s s1" using permit_step.support assms(2) by (metis fst_conv)
  have r1: "reachable d s1" using assms(1) step1 by (rule rtranclp.rtrancl_into_rtrancl)
  fix row s2 now' lv sups cons raw presented
  assume row: "row \<in> set (decisions s)" "belief_id \<in> set (supporting_belief_ids (dr_binding row))"
    and steps: "(permit_step d)\<^sup>*\<^sup>* s1 s2" and raw: "sha256 d raw = dr_token row"
  let ?row = "if dr_state row = Issued then row\<lparr>dr_state := Revoked\<rparr> else row"
  have "distinct (map dr_token (decisions s1))"
    using reachable_sound_history [OF r1] by (simp add: sound_store_def distinct_tokens_def)
  moreover have "?row \<in> set (decisions s1)" using row by (auto simp: dec)
  ultimately have "settled (dr_token row) (tables_of s1)"
    by (auto simp: settled_def find_decision_iff split: if_splits)
  moreover have "history d s1 s2" using steps_history [OF steps] reachable_sound_history [OF r1] by blast
  ultimately have "settled (dr_token row) (tables_of s2)" by (rule settled_history [rotated])
  then show "\<not> consumed (snd (consume_action d now' lv sups cons raw presented s2))"
    using consume_action_cases [of d now' lv sups cons raw presented s2] raw
    by (force simp: settled_def prod_eq_iff)
qed

theorem retraction_revokes_permits_witness:
  "\<not> consumed (snd (consume_action sample_deps 4 standalone None None ''token'' sample_action
      (fst (revoke_for_support sample_deps 3 ''b1'' issued_store))))"
  using retraction_revokes_permits [OF issued_reachable prod.collapse [symmetric], of 3 "''b1''"] by auto

text \<open>
  A receipt granted for a single use or an exact action authorises at most one permit in any
  history, whatever becomes of that permit.
\<close>

theorem receipt_authorises_once:
  assumes "reachable d s" and "find_receipt g (receipts s) = Some rc" and "g \<noteq> []"
    and "ab_scope (ar_binding rc) \<in> {''single_use'', ''exact_action''}"
  shows "length (filter (\<lambda>r. approval_receipt_digest (dr_binding r) = Some g) (decisions s)) \<le> 1"
proof -
  have "length (users g (decisions s)) \<le> 1"
  proof (cases "users g (decisions s) = []")
    case False
    with reachable_single [OF assms(1)] assms(2-4) show ?thesis
      unfolding single_use_ok_def by (fastforce simp: single_use_scopes_def)
  qed simp
  then show ?thesis by (simp add: users_def filter_map o_def)
qed

theorem receipt_authorises_once_witness:
  "length (filter (\<lambda>r. approval_receipt_digest (dr_binding r) = Some ''h'') (decisions issued_store)) \<le> 1"
  by (rule receipt_authorises_once [OF issued_reachable, of _ "hd (receipts issued_store)"])
     (simp_all add: find_receipt_def)

text \<open>
  A store on its own database consumes a permit that names a supporting belief and a
  blocking conflict when the caller passes no callback: the undetermined checks resolve to
  true. The comment in \<open>consume_action\<close> says an unanswered check resolves to False.
\<close>

theorem unanswered_checks_pass:
  "resolve None None
   \<and> supporting_belief_ids sample_action = [''b1''] \<and> blocking_conflict_ids sample_action = [''c1'']
   \<and> consumed (snd (consume_action sample_deps 3 standalone None None ''token'' sample_action issued_store))"
  using sample_consumed by (simp add: resolve_def sample_consumption_def)

end
