(* ===== verification/Regex.thy ===== *)
theory Regex
  imports Prelude
begin

text \<open>
  The part of Python's \<open>re\<close> the program uses, on ASCII text: an ordered backtracking matcher.
  A pattern maps a position to the list of the positions where a match may end, the preferred
  one first, which is how \<open>re\<close> explores a pattern with greedy and lazy repetition. A position
  keeps the text before it (reversed, for \<open>\b\<close>), the text after it and the captured groups.
  The body of a repetition is not matched again where it consumed nothing; no pattern of the
  program has a body that can be empty. \<open>compile\<close> reads the fragment of the syntax the action
  policies are written in.
\<close>

datatype re =
    Eps
  | Cls "char \<Rightarrow> bool"
  | Cat re re
  | Alt re re
  | Star bool re
  | Grp string re
  | Backref string
  | Bound
  | Ahead re
  | At_start
  | At_end
  | Line_start

record position =
  behind :: string
  ahead :: string
  groups :: "(string \<times> string) list"

definition start_of :: "string \<Rightarrow> position" where
  "start_of s = \<lparr>behind = [], ahead = s, groups = []\<rparr>"

definition step_over :: "nat \<Rightarrow> position \<Rightarrow> position" where
  "step_over n p = p\<lparr>behind := rev (take n (ahead p)) @ behind p, ahead := drop n (ahead p)\<rparr>"

definition at_boundary :: "position \<Rightarrow> bool" where
  "at_boundary p =
     ((case behind p of [] \<Rightarrow> False | c # _ \<Rightarrow> is_word_char c)
        \<noteq> (case ahead p of [] \<Rightarrow> False | c # _ \<Rightarrow> is_word_char c))"

text \<open>The text consumed between two positions.\<close>

definition between :: "position \<Rightarrow> position \<Rightarrow> string" where
  "between p q = take (length (ahead p) - length (ahead q)) (ahead p)"

fun star_runs :: "bool \<Rightarrow> (position \<Rightarrow> position list) \<Rightarrow> nat \<Rightarrow> position \<Rightarrow> position list" where
  "star_runs greedy f 0 p = [p]"
| "star_runs greedy f (Suc n) p =
     (let again = concat (map (star_runs greedy f n)
                    (filter (\<lambda>q. length (ahead q) < length (ahead p)) (f p)))
      in if greedy then again @ [p] else p # again)"

primrec runs :: "re \<Rightarrow> position \<Rightarrow> position list" where
  "runs Eps p = [p]"
| "runs (Cls f) p =
     (case ahead p of [] \<Rightarrow> [] | c # _ \<Rightarrow> if f c then [step_over 1 p] else [])"
| "runs (Cat a b) p = concat (map (runs b) (runs a p))"
| "runs (Alt a b) p = runs a p @ runs b p"
| "runs (Star greedy a) p = star_runs greedy (runs a) (length (ahead p)) p"
| "runs (Grp name a) p =
     map (\<lambda>q. q\<lparr>groups := AList.update name (between p q) (groups q)\<rparr>) (runs a p)"
| "runs (Backref name) p =
     (case map_of (groups p) name of
        None \<Rightarrow> []
      | Some t \<Rightarrow> if starts_with t (ahead p) then [step_over (length t) p] else [])"
| "runs Bound p = (if at_boundary p then [p] else [])"
| "runs (Ahead a) p = (if runs a p = [] then [] else [p])"
| "runs At_start p = (if behind p = [] then [p] else [])"
| "runs At_end p = (if ahead p = [] \<or> ahead p = [CHR 0x0A] then [p] else [])"
| "runs Line_start p =
     (if behind p = [] \<or> hd (behind p) = CHR 0x0A then [p] else [])"

section \<open>Building patterns\<close>

definition chr_ic :: "char \<Rightarrow> re" where
  "chr_ic c = Cls (\<lambda>d. to_lower d = to_lower c)"

text \<open>A literal, with \<open>re.IGNORECASE\<close> or without.\<close>

fun lit_ic :: "string \<Rightarrow> re" where
  "lit_ic [] = Eps"
| "lit_ic [c] = chr_ic c"
| "lit_ic (c # d # cs) = Cat (chr_ic c) (lit_ic (d # cs))"

fun lit :: "string \<Rightarrow> re" where
  "lit [] = Eps"
| "lit [c] = Cls (\<lambda>d. d = c)"
| "lit (c # d # cs) = Cat (Cls (\<lambda>x. x = c)) (lit (d # cs))"

fun alts :: "re list \<Rightarrow> re" where
  "alts [] = Cls (\<lambda>_. False)"
| "alts [r] = r"
| "alts (r # r' # rs) = Alt r (alts (r' # rs))"

fun cats :: "re list \<Rightarrow> re" where
  "cats [] = Eps"
| "cats [r] = r"
| "cats (r # r' # rs) = Cat r (cats (r' # rs))"

definition maybe :: "re \<Rightarrow> re" where
  "maybe r = Alt r Eps"

definition many1 :: "re \<Rightarrow> re" where
  "many1 r = Cat r (Star True r)"

fun times_of :: "nat \<Rightarrow> re \<Rightarrow> re" where
  "times_of 0 r = Eps"
| "times_of (Suc n) r = Cat r (times_of n r)"

text \<open>\<open>\b(w1|w2|...)\b\<close> ignoring case.\<close>

definition words_ic :: "string list \<Rightarrow> re" where
  "words_ic ws = cats [Bound, alts (map lit_ic ws), Bound]"

section \<open>The functions of the module\<close>

definition match_at :: "re \<Rightarrow> position \<Rightarrow> position option" where
  "match_at r p = (case runs r p of [] \<Rightarrow> None | q # _ \<Rightarrow> Some q)"

definition re_fullmatch :: "re \<Rightarrow> string \<Rightarrow> bool" where
  "re_fullmatch r s = list_ex (\<lambda>q. ahead q = []) (runs r (start_of s))"

function search_from :: "re \<Rightarrow> position \<Rightarrow> (position \<times> position) option" where
  "search_from r p =
     (case match_at r p of
        Some q \<Rightarrow> Some (p, q)
      | None \<Rightarrow> (if ahead p = [] then None else search_from r (step_over 1 p)))"
  by pat_completeness auto
termination
  by (relation "measure (\<lambda>(r, p). length (ahead p))") (auto simp: step_over_def)

declare search_from.simps [simp del]

definition re_search :: "re \<Rightarrow> string \<Rightarrow> bool" where
  "re_search r s = (search_from r (start_of s) \<noteq> None)"

text \<open>
  \<open>finditer\<close>: the matches from left to right, none overlapping another. After an empty match
  the search goes on one character later.
\<close>

definition fresh :: "position \<Rightarrow> position" where
  "fresh p = p\<lparr>groups := []\<rparr>"

function matches_from :: "re \<Rightarrow> position \<Rightarrow> (position \<times> position) list" where
  "matches_from r p =
     (case match_at r p of
        Some q \<Rightarrow>
          (p, q) # (if length (ahead q) < length (ahead p) then matches_from r (fresh q)
                    else if ahead p = [] then [] else matches_from r (step_over 1 p))
      | None \<Rightarrow> (if ahead p = [] then [] else matches_from r (step_over 1 p)))"
  by pat_completeness auto
termination
  by (relation "measure (\<lambda>(r, p). length (ahead p))") (auto simp: step_over_def fresh_def)

declare matches_from.simps [simp del]

definition finditer :: "re \<Rightarrow> string \<Rightarrow> (position \<times> position) list" where
  "finditer r s = matches_from r (start_of s)"

text \<open>\<open>sub\<close> with a function of the match; the program substitutes nonempty matches only.\<close>

function sub_from :: "re \<Rightarrow> (position \<Rightarrow> position \<Rightarrow> string) \<Rightarrow> position \<Rightarrow> string" where
  "sub_from r f p =
     (case match_at r p of
        Some q \<Rightarrow>
          (if length (ahead q) < length (ahead p) then f p q @ sub_from r f (fresh q)
           else f p q @ (case ahead p of [] \<Rightarrow> [] | c # _ \<Rightarrow> c # sub_from r f (step_over 1 p)))
      | None \<Rightarrow> (case ahead p of [] \<Rightarrow> [] | c # _ \<Rightarrow> c # sub_from r f (step_over 1 p)))"
  by pat_completeness auto
termination
  by (relation "measure (\<lambda>(r, f, p). length (ahead p))") (auto simp: step_over_def fresh_def)

declare sub_from.simps [simp del]

definition re_sub :: "re \<Rightarrow> (position \<Rightarrow> position \<Rightarrow> string) \<Rightarrow> string \<Rightarrow> string" where
  "re_sub r f s = sub_from r f (start_of s)"

section \<open>Compiling a pattern\<close>

text \<open>
  The syntax of the policies' patterns: literals, the dot, groups, \<open>|\<close> and the greedy
  quantifiers, anchored at the ends of a branch. \<open>None\<close> stands for a pattern \<open>re.compile\<close>
  refuses and for syntax beyond this fragment. One pass with a stack of open groups: a frame
  holds the finished branches and the atoms of the current one, each with the mark that it
  already has a quantifier; both lists are reversed.
\<close>

type_synonym frame = "re list \<times> (bool \<times> re) list"

definition close_branch :: "frame \<Rightarrow> re list" where
  "close_branch f = cats (map snd (rev (snd f))) # fst f"

definition close_frame :: "frame \<Rightarrow> re" where
  "close_frame f = alts (rev (close_branch f))"

definition special_chars :: string where
  "special_chars = [CHR 0x5C, CHR ''['', CHR '']'', CHR ''{'', CHR ''}'']"

definition quantified :: "char \<Rightarrow> re \<Rightarrow> re" where
  "quantified c r = (if c = CHR ''*'' then Star True r else if c = CHR ''+'' then many1 r else maybe r)"

fun compile_from :: "string \<Rightarrow> frame list \<Rightarrow> re option" where
  "compile_from cs [] = None"
| "compile_from [] [f] = Some (close_frame f)"
| "compile_from [] (f # g # fs) = None"
| "compile_from (c # cs) ((bs, atoms) # fs) =
     (if c = CHR ''('' then
        (case cs of d # _ \<Rightarrow> if d = CHR ''?'' then None else compile_from cs (([], []) # (bs, atoms) # fs)
         | [] \<Rightarrow> None)
      else if c = CHR '')'' then
        (case fs of [] \<Rightarrow> None
         | (bs', atoms') # rest \<Rightarrow>
             compile_from cs ((bs', (False, close_frame (bs, atoms)) # atoms') # rest))
      else if c = CHR ''|'' then compile_from cs ((close_branch (bs, atoms), []) # fs)
      else if c = CHR ''^'' then
        (if fs = [] \<and> atoms = [] then compile_from cs ((bs, [(True, At_start)]) # fs) else None)
      else if c = CHR ''$'' then
        (if fs = [] \<and> (cs = [] \<or> hd cs = CHR ''|'')
         then compile_from cs ((bs, (True, At_end) # atoms) # fs) else None)
      else if c \<in> {CHR ''*'', CHR ''+'', CHR ''?''} then
        (case atoms of [] \<Rightarrow> None
         | (done_already, r) # atoms' \<Rightarrow>
             if done_already then None
             else compile_from cs ((bs, (True, quantified c r) # atoms') # fs))
      else if c \<in> set special_chars then None
      else compile_from cs ((bs, (False, if c = CHR ''.'' then Cls (\<lambda>d. d \<noteq> CHR 0x0A)
                                         else Cls (\<lambda>d. d = c)) # atoms) # fs))"

definition re_compile :: "string \<Rightarrow> re option" where
  "re_compile s = compile_from s [([], [])]"

section \<open>The matcher only moves forward, and its fuel suffices\<close>

definition follows :: "position \<Rightarrow> position \<Rightarrow> bool" where
  "follows p q = (rev (behind q) @ ahead q = rev (behind p) @ ahead p
                  \<and> length (ahead q) \<le> length (ahead p))"

lemma follows_refl [simp]: "follows p p"
  by (simp add: follows_def)

lemma follows_trans: "follows p q \<Longrightarrow> follows q r \<Longrightarrow> follows p r"
  by (simp add: follows_def)

lemma follows_step_over [simp]: "follows p (step_over n p)"
  by (simp add: follows_def step_over_def)

lemma star_runs_follow:
  assumes "\<And>p q. q \<in> set (f p) \<Longrightarrow> follows p q" and "q \<in> set (star_runs g f n p)"
  shows "follows p q"
  using assms(2)
proof (induction n arbitrary: p)
  case 0
  then show ?case by simp
next
  case (Suc n)
  then have "q = p \<or> (\<exists>m. m \<in> set (f p) \<and> q \<in> set (star_runs g f n m))"
    by (auto simp: Let_def split: if_splits)
  with Suc.IH assms(1) show ?case by (auto intro: follows_trans)
qed

lemma runs_follow: "q \<in> set (runs r p) \<Longrightarrow> follows p q"
proof (induction r arbitrary: p q)
  case (Cat a b)
  from Cat.prems obtain m where "m \<in> set (runs a p)" and "q \<in> set (runs b m)" by auto
  with Cat.IH show ?case by (blast intro: follows_trans)
next
  case (Star g a)
  from Star.prems have "q \<in> set (star_runs g (runs a) (length (ahead p)) p)" by simp
  with Star.IH show ?case by (rule star_runs_follow)
next
  case (Grp name a)
  then show ?case by (fastforce simp: follows_def)
qed (auto split: list.splits option.splits if_splits)

text \<open>More fuel than characters left changes nothing: a repetition is its own unfolding.\<close>

lemma star_runs_enough:
  assumes "length (ahead p) \<le> n" and "length (ahead p) \<le> m"
  shows "star_runs g f n p = star_runs g f m p"
  using assms
proof (induction n arbitrary: m p)
  case 0
  then have "filter (\<lambda>q. length (ahead q) < length (ahead p)) (f p) = []"
    by (simp add: filter_empty_conv)
  then show ?case by (cases m) (simp_all add: Let_def)
next
  case (Suc n)
  show ?case
  proof (cases m)
    case 0
    with Suc.prems have "filter (\<lambda>q. length (ahead q) < length (ahead p)) (f p) = []"
      by (simp add: filter_empty_conv)
    with 0 show ?thesis by (simp add: Let_def)
  next
    case (Suc k)
    have "map (star_runs g f n) (filter (\<lambda>q. length (ahead q) < length (ahead p)) (f p))
        = map (star_runs g f k) (filter (\<lambda>q. length (ahead q) < length (ahead p)) (f p))"
      using Suc.IH [of _ k] Suc.prems \<open>m = Suc k\<close> by (intro map_cong) auto
    then show ?thesis by (simp only: Suc star_runs.simps)
  qed
qed

lemma runs_star_unfold:
  "runs (Star g a) p =
     (let again = concat (map (runs (Star g a))
                    (filter (\<lambda>q. length (ahead q) < length (ahead p)) (runs a p)))
      in if g then again @ [p] else p # again)"
proof -
  have "runs (Star g a) p = star_runs g (runs a) (Suc (length (ahead p))) p"
    by (simp add: star_runs_enough [of p "length (ahead p)" "Suc (length (ahead p))"] del: star_runs.simps)
  also have "\<dots> = (let again = concat (map (star_runs g (runs a) (length (ahead p)))
                    (filter (\<lambda>q. length (ahead q) < length (ahead p)) (runs a p)))
      in if g then again @ [p] else p # again)"
    by simp
  also have "map (star_runs g (runs a) (length (ahead p)))
                    (filter (\<lambda>q. length (ahead q) < length (ahead p)) (runs a p))
      = map (runs (Star g a)) (filter (\<lambda>q. length (ahead q) < length (ahead p)) (runs a p))"
    by (intro map_cong) (auto intro: star_runs_enough)
  finally show ?thesis .
qed

lemma compile_sample:
  "map_option (\<lambda>r. map (re_fullmatch r) [''rm_file'', ''delete_path'', ''remove_files'', ''rm''])
     (re_compile ''^(delete|remove|rm)_(file|directory|path)$'') = Some [True, True, False, False]"
  by code_simp

end
