(* ===== verification/Classify.thy ===== *)
theory Classify
  imports Models Regex
begin

text \<open>
  \<open>gate/classify.py\<close>: the action-policy registry read from its data file and the classification
  of a tool call. The main facts: a parsed rule is well formed (\<open>parse_rule_ok\<close>), every rule of
  a registry came from a well-formed entry, and in enforce mode a tool no rule names is effectful
  at high stakes.
\<close>

definition MUTATION_WORDS :: re where
  "MUTATION_WORDS = words_ic [''write'', ''delete'', ''remove'', ''send'', ''publish'', ''execute'',
     ''deploy'', ''approve'', ''purchase'', ''install'', ''enable'', ''disable'', ''update'',
     ''create'', ''submit'', ''upload'', ''patch'', ''mutat'', ''commit'', ''push'']"

record action_policy =
  ap_id :: string
  base_stakes :: stakes
  effectful :: bool
  minimum_priority :: string
  allow_human_approval :: bool
  target_fields :: "string list"
  preconditions :: "string list"
  exact :: "string list"
  ap_pattern :: "string option"

record action_classification =
  ac_policy :: action_policy
  known :: bool
  ac_reason :: string

section \<open>Reading a rule\<close>

fun stakes_of_value :: "string \<Rightarrow> stakes option" where
  "stakes_of_value s =
     (if s = ''low'' then Some LOW else if s = ''med'' then Some MED
      else if s = ''high'' then Some HIGH else if s = ''critical'' then Some CRITICAL else None)"

definition stakes_of_json :: "json \<Rightarrow> stakes result" where
  "stakes_of_json v =
     (case stakes_of_value (py_str v) of
        Some s \<Rightarrow> Inr s
      | None \<Rightarrow> Inl (ValueError (repr_str (py_str v) @ '' is not a valid Stakes'')))"

definition nonblank_text :: "json \<Rightarrow> string option" where
  "nonblank_text v = (case v of JStr s \<Rightarrow> if strip s \<noteq> [] then Some s else None | _ \<Rightarrow> None)"

fun all_some :: "'a option list \<Rightarrow> 'a list option" where
  "all_some [] = Some []"
| "all_some (None # xs) = None"
| "all_some (Some x # xs) = map_option ((#) x) (all_some xs)"

definition string_list :: "json \<Rightarrow> string \<Rightarrow> string \<Rightarrow> string list result" where
  "string_list v field identifier =
     (case (case v of JArr xs \<Rightarrow> all_some (map nonblank_text xs) | _ \<Rightarrow> None) of
        Some texts \<Rightarrow> Inr texts
      | None \<Rightarrow> Inl (ValueError (''action policy '' @ identifier @ '' '' @ field
                                 @ '' must be a list of non-empty strings'')))"

definition required_fields :: "string list" where
  "required_fields = [''id'', ''base_stakes'', ''effectful'', ''minimum_priority'',
     ''allow_human_approval'', ''target_fields'', ''preconditions'']"

definition unhashable :: "json \<Rightarrow> bool" where
  "unhashable v = (case v of JArr _ \<Rightarrow> True | JObj _ \<Rightarrow> True | _ \<Rightarrow> False)"

definition priority_names :: "string list" where
  "priority_names = [''untrusted'', ''semi'', ''trusted'']"

definition check_pattern :: "string \<Rightarrow> json \<Rightarrow> string option result" where
  "check_pattern name v =
     (case v of
        JNull \<Rightarrow> Inr None
      | JStr s \<Rightarrow>
          if \<not> starts_with ''^'' s \<or> last s \<noteq> CHR ''$''
          then Inl (ValueError (''action policy '' @ name @ '' regex must be anchored''))
          else if re_compile s = None then Inl (ReError s)
          else Inr (Some s)
      | _ \<Rightarrow> Inl (ValueError (''action policy '' @ name @ '' regex must be a string'')))"

definition check_identifier :: "json \<Rightarrow> string result" where
  "check_identifier v =
     (case nonblank_text v of
        Some s \<Rightarrow> Inr s
      | None \<Rightarrow> Inl (ValueError ''action policy id must be a non-empty string''))"

definition check_boolean :: "json \<Rightarrow> string \<Rightarrow> string \<Rightarrow> bool result" where
  "check_boolean v field identifier =
     (case v of JBool b \<Rightarrow> Inr b
      | _ \<Rightarrow> Inl (ValueError (''action policy '' @ identifier @ '' '' @ field @ '' must be a boolean'')))"

definition check_priority :: "json \<Rightarrow> string \<Rightarrow> string result" where
  "check_priority v identifier =
     (if unhashable v then Inl (TypeError ''unhashable type'')
      else case v of
        JStr s \<Rightarrow> if s \<in> set priority_names then Inr s
                  else Inl (ValueError (''action policy '' @ identifier @ '' minimum_priority is invalid''))
      | _ \<Rightarrow> Inl (ValueError (''action policy '' @ identifier @ '' minimum_priority is invalid'')))"

definition parse_fields :: "(string \<times> json) list \<Rightarrow> string option \<Rightarrow> action_policy result" where
  "parse_fields kvs pattern =
     (let get = (\<lambda>k. dict_get kvs k JNull) in
      and_then (check_identifier (get ''id'')) (\<lambda>i.
      and_then (check_boolean (get ''effectful'') ''effectful'' i) (\<lambda>eff.
      and_then (check_boolean (get ''allow_human_approval'') ''allow_human_approval'' i) (\<lambda>human.
      and_then (check_priority (get ''minimum_priority'') i) (\<lambda>prio.
      and_then (string_list (get ''target_fields'') ''target_fields'' i) (\<lambda>fields.
      and_then (string_list (get ''preconditions'') ''preconditions'' i) (\<lambda>pre.
      and_then (string_list (dict_get kvs ''exact'' (JArr [])) ''exact'' i) (\<lambda>ex.
      and_then (stakes_of_json (get ''base_stakes'')) (\<lambda>st.
        Inr \<lparr>ap_id = i, base_stakes = st, effectful = eff, minimum_priority = prio,
             allow_human_approval = human, target_fields = fields, preconditions = pre,
             exact = map casefold ex, ap_pattern = pattern\<rparr>)))))))))"

definition parse_rule :: "json \<Rightarrow> action_policy result" where
  "parse_rule v =
     (case v of
        JObj kvs \<Rightarrow>
          and_then (check_pattern (py_str (dict_get kvs ''id'' JNull)) (dict_get kvs ''pattern'' JNull))
            (\<lambda>pattern.
              let absent = sort (filter (\<lambda>f. f \<notin> fst ` set kvs) required_fields)
              in if absent \<noteq> []
                 then Inl (ValueError (''action policy rule is missing required fields: ''
                                       @ join_with '', '' absent))
                 else parse_fields kvs pattern)
      | _ \<Rightarrow> Inl (ValueError ''action policy rule must be a mapping''))"

text \<open>\<open>data.get("schema_version") != 1\<close>: \<open>True\<close> and \<open>1.0\<close> are equal to 1.\<close>

definition equals_one :: "json \<Rightarrow> bool" where
  "equals_one v = (v = JInt 1 \<or> v = JBool True \<or> v = JFloat ''1.0'')"

definition make_registry :: "(string \<times> json) list \<Rightarrow> action_policy list result" where
  "make_registry data =
     (case dict_get data ''rules'' JNull of
        JArr rules \<Rightarrow>
          if equals_one (dict_get data ''schema_version'' JNull) then map_result parse_rule rules
          else Inl (ValueError ''action policy registry schema is invalid'')
      | _ \<Rightarrow> Inl (ValueError ''action policy registry schema is invalid''))"

section \<open>Classifying a call\<close>

definition unknown_policy :: "stakes \<Rightarrow> bool \<Rightarrow> action_policy" where
  "unknown_policy st eff =
     \<lparr>ap_id = ''unknown'', base_stakes = st, effectful = eff,
      minimum_priority = (if eff then ''trusted'' else ''untrusted''),
      allow_human_approval = False, target_fields = [],
      preconditions = (if eff then [''operator_policy''] else []), exact = [], ap_pattern = None\<rparr>"

definition terminal_adjust :: "action_policy \<Rightarrow> action_classification" where
  "terminal_adjust rule =
     (if ap_id rule \<noteq> ''terminal''
      then \<lparr>ac_policy = rule, known = True, ac_reason = ''matched policy '' @ ap_id rule\<rparr>
      else \<lparr>ac_policy = rule, known = True,
            ac_reason = ''terminal command is conservatively effectful across shell backends''\<rparr>)"

definition pattern_matches :: "string \<Rightarrow> action_policy \<Rightarrow> bool" where
  "pattern_matches name rule =
     (case ap_pattern rule of
        None \<Rightarrow> False
      | Some s \<Rightarrow> s \<noteq> [] \<and> (case re_compile s of None \<Rightarrow> False | Some r \<Rightarrow> re_fullmatch r name))"

definition tool_key :: "string \<Rightarrow> string" where
  "tool_key tool_name = strip (casefold tool_name)"

definition find_rule :: "action_policy list \<Rightarrow> string \<Rightarrow> action_policy option" where
  "find_rule rules name =
     (case find (\<lambda>r. name \<in> set (exact r)) rules of
        Some r \<Rightarrow> Some r
      | None \<Rightarrow> find (pattern_matches name) rules)"

definition looks_effectful :: "string \<Rightarrow> string \<Rightarrow> (string \<times> json) list \<Rightarrow> bool" where
  "looks_effectful name description args =
     re_search MUTATION_WORDS (name @ '' '' @ description @ '' '' @ join_with '' '' (map fst args))"

definition classify ::
  "action_policy list \<Rightarrow> string \<Rightarrow> (string \<times> json) list \<Rightarrow> string \<Rightarrow> bool \<Rightarrow> string
     \<Rightarrow> action_classification" where
  "classify rules tool_name args description enforce unknown_tool_policy =
     (case find_rule rules (tool_key tool_name) of
        Some rule \<Rightarrow> terminal_adjust rule
      | None \<Rightarrow>
          if looks_effectful (tool_key tool_name) description args
          then \<lparr>ac_policy = unknown_policy HIGH True, known = False,
                ac_reason = ''unknown tool appears effectful''\<rparr>
          else \<lparr>ac_policy = unknown_policy (if enforce then HIGH else MED) enforce, known = False,
                ac_reason =
                  (if unknown_tool_policy = ''allow_read_only''
                   then ''unknown tools require an exact read-only policy entry; ''
                        @ ''name-based read-only inference is disabled''
                   else ''unknown tool is conservatively effectful'')\<rparr>)"

section \<open>Facts\<close>

lemma classify_known:
  "known (classify rules t args d e u) \<longleftrightarrow> find_rule rules (tool_key t) \<noteq> None"
  by (auto simp: classify_def terminal_adjust_def split: option.splits)

lemma classify_rule:
  "find_rule rules (tool_key t) = Some r \<Longrightarrow> ac_policy (classify rules t args d e u) = r"
  by (simp add: classify_def terminal_adjust_def)

lemma classify_unknown_enforced:
  "find_rule rules (tool_key t) = None \<Longrightarrow>
     ac_policy (classify rules t args d True u) = unknown_policy HIGH True"
  by (simp add: classify_def)

lemma find_rule_mem: "find_rule rules n = Some r \<Longrightarrow> r \<in> set rules"
  by (auto simp: find_rule_def dest: find_Some_iff_mem split: option.splits)

lemma find_rule_None:
  "find_rule rules n = None \<longleftrightarrow> (\<forall>r\<in>set rules. n \<notin> set (exact r) \<and> \<not> pattern_matches n r)"
  by (auto simp: find_rule_def find_None_iff dest: find_Some_iff_mem split: option.splits)

text \<open>What the validation of a rule guarantees about it.\<close>

definition wf_policy :: "action_policy \<Rightarrow> bool" where
  "wf_policy r =
     (strip (ap_id r) \<noteq> [] \<and> minimum_priority r \<in> set priority_names
      \<and> (\<forall>f\<in>set (target_fields r). strip f \<noteq> [])
      \<and> (\<forall>f\<in>set (preconditions r). strip f \<noteq> [])
      \<and> (\<forall>n\<in>set (exact r). casefold n = n \<and> n \<noteq> [])
      \<and> (\<forall>s. ap_pattern r = Some s \<longrightarrow>
            starts_with ''^'' s \<and> last s = CHR ''$'' \<and> re_compile s \<noteq> None))"

lemma all_some_iff: "all_some xs = Some ys \<longleftrightarrow> xs = map Some ys"
  by (induction xs arbitrary: ys rule: all_some.induct) auto

lemma string_list_Inr:
  "string_list v field i = Inr ys \<Longrightarrow> \<forall>y\<in>set ys. strip y \<noteq> []"
proof -
  assume "string_list v field i = Inr ys"
  then obtain xs where "v = JArr xs" and "all_some (map nonblank_text xs) = Some ys"
    by (auto simp: string_list_def split: option.splits json.splits)
  then have "map nonblank_text xs = map Some ys" by (simp add: all_some_iff)
  then have "Some y \<in> set (map nonblank_text xs)" if "y \<in> set ys" for y
    using that by simp
  then show ?thesis
    by (fastforce simp: nonblank_text_def split: json.splits if_splits)
qed

lemma check_pattern_Inr:
  "check_pattern name v = Inr (Some s) \<Longrightarrow>
     starts_with ''^'' s \<and> last s = CHR ''$'' \<and> re_compile s \<noteq> None"
  by (auto simp: check_pattern_def split: json.splits if_splits)

lemma strip_Nil [simp]: "strip [] = []"
  by (simp add: strip_def lstrip_def rstrip_chars_def)

lemma parse_rule_wf:
  assumes "parse_rule v = Inr r"
  shows "wf_policy r"
proof -
  from assms obtain kvs name where
    pat: "check_pattern name (dict_get kvs ''pattern'' JNull) = Inr (ap_pattern r)"
    and fields: "parse_fields kvs (ap_pattern r) = Inr r"
    by (auto simp: parse_rule_def parse_fields_def splits_result Let_def split: json.splits if_splits)
  from fields obtain i fs pre ex prio eff human st where
    r_eq: "r = \<lparr>ap_id = i, base_stakes = st, effectful = eff, minimum_priority = prio,
             allow_human_approval = human, target_fields = fs, preconditions = pre,
             exact = map casefold ex, ap_pattern = ap_pattern r\<rparr>"
    and i: "check_identifier (dict_get kvs ''id'' JNull) = Inr i"
    and p: "check_priority (dict_get kvs ''minimum_priority'' JNull) i = Inr prio"
    and fs: "string_list (dict_get kvs ''target_fields'' JNull) ''target_fields'' i = Inr fs"
    and pre: "string_list (dict_get kvs ''preconditions'' JNull) ''preconditions'' i = Inr pre"
    and ex: "string_list (dict_get kvs ''exact'' (JArr [])) ''exact'' i = Inr ex"
    unfolding parse_fields_def Let_def splits_result sum.inject by metis
  then have r: "ap_id r = i" "target_fields r = fs" "preconditions r = pre"
      "exact r = map casefold ex" "minimum_priority r = prio"
    by (metis action_policy.select_convs)+
  have "strip i \<noteq> []"
    using i by (auto simp: check_identifier_def nonblank_text_def split: option.splits json.splits if_splits)
  moreover have "minimum_priority r \<in> set priority_names"
    using p r by (auto simp: check_priority_def split: json.splits if_splits)
  moreover have "casefold n = n \<and> n \<noteq> []" if "n \<in> set (exact r)" for n
  proof -
    from that r obtain m where "m \<in> set ex" and n: "n = casefold m" by auto
    with string_list_Inr [OF ex] have "m \<noteq> []" by force
    with n show ?thesis by simp
  qed
  moreover have "\<forall>f\<in>set (target_fields r). strip f \<noteq> []" "\<forall>f\<in>set (preconditions r). strip f \<noteq> []"
    using string_list_Inr [OF fs] string_list_Inr [OF pre] r by simp_all
  moreover have "starts_with ''^'' s \<and> last s = CHR ''$'' \<and> re_compile s \<noteq> None"
    if "ap_pattern r = Some s" for s
    using pat that by (intro check_pattern_Inr [of name "dict_get kvs ''pattern'' JNull"]) simp
  ultimately show ?thesis
    unfolding wf_policy_def r(1) by blast
qed

text \<open>
  C25. A registry that loads is well formed: every rule has a name, a known minimum priority,
  nonblank fields, lower-case exact names and a pattern that compiles and is anchored at both ends.
\<close>

theorem registry_well_formed:
  assumes "make_registry data = Inr rules" and "r \<in> set rules"
  shows "wf_policy r"
  using assms map_result_Inr [of parse_rule] parse_rule_wf
  by (fastforce simp: make_registry_def split: json.splits if_splits)

definition sample_registry :: "(string \<times> json) list" where
  "sample_registry =
     [(''schema_version'', JInt 1),
      (''rules'', JArr [JObj
         [(''id'', JStr ''messaging''), (''pattern'', JStr ''^(send|post)_.*$''),
          (''base_stakes'', JStr ''high''), (''effectful'', JBool True),
          (''minimum_priority'', JStr ''semi''), (''allow_human_approval'', JBool True),
          (''target_fields'', JArr [JStr ''recipient'']),
          (''preconditions'', JArr [JStr ''resource_identity''])]])]"

lemma sample_registry_loads:
  "succeeds (make_registry sample_registry) (\<lambda>rules. map ap_id rules = [''messaging''])"
  by code_simp

theorem registry_well_formed_witness:
  "\<exists>r. ap_id r = ''messaging'' \<and> wf_policy r"
proof -
  obtain rules where rules: "make_registry sample_registry = Inr rules" and ids: "map ap_id rules = [''messaging'']"
    using sample_registry_loads unfolding succeeds_iff by (elim exE conjE)
  then obtain r where "rules = [r]" and id: "ap_id r = ''messaging''" by auto
  then have "r \<in> set rules" by simp
  from registry_well_formed [OF rules this] id show ?thesis by blast
qed

end
