(* ===== verification/Validity.thy ===== *)
theory Validity
  imports Models Regex
begin

text \<open>
  \<open>engine/validity.py\<close>: the normal form of a content, the discipline of contents and the
  conditions each kind of knowledge must meet. The main facts: normalisation is idempotent, and
  the checks of \<open>validate_belief\<close> accept exactly the beliefs that meet the declarative
  conditions \<open>well_formed_content\<close> and \<open>meets\<close>.
\<close>

section \<open>Contents\<close>

definition trailing :: "char \<Rightarrow> bool" where
  "trailing c = (c = CHR '' '' \<or> c = CHR ''.'')"

definition normalize_content :: "string \<Rightarrow> string" where
  "normalize_content s = casefold (rstrip_chars trailing (strip (collapse_spaces s)))"

definition DEICTIC :: re where
  "DEICTIC = words_ic [''this'', ''that'', ''these'', ''those'', ''it'', ''they'', ''above'',
     ''below'', ''previous'', ''former'', ''latter'', ''este'', ''esta'', ''eso'', ''anterior'']"

definition CONJUNCTION :: re where
  "CONJUNCTION = Alt (lit '';'') (words_ic [''and'', ''plus'', ''as well as'', ''y''])"

definition reason_if :: "bool \<Rightarrow> string \<Rightarrow> string list" where
  "reason_if b reason = (if b then [reason] else [])"

definition validate_content :: "string \<Rightarrow> int \<Rightarrow> int \<Rightarrow> string list" where
  "validate_content s max_words max_chars =
     (let stripped = strip (collapse_spaces s)
      in reason_if (stripped = []) ''content is empty''
         @ reason_if (int (length (split_words stripped)) > max_words)
             (''content exceeds '' @ show_int max_words @ '' words'')
         @ reason_if (int (length stripped) > max_chars)
             (''content exceeds '' @ show_int max_chars @ '' characters'')
         @ reason_if (re_search CONJUNCTION stripped) ''content appears non-atomic''
         @ reason_if (re_search DEICTIC stripped) ''content is not self-contained'')"

section \<open>\<open>float(value)\<close>\<close>

text \<open>
  The finite values are exact rationals: the rounding of a decimal text to binary64 is not
  represented.
\<close>

datatype py_float = Finite rat | Infinite bool | NaN

fun py_le :: "py_float \<Rightarrow> py_float \<Rightarrow> bool" where
  "py_le (Finite a) (Finite b) = (a \<le> b)"
| "py_le (Finite a) (Infinite neg) = (\<not> neg)"
| "py_le (Infinite neg) (Finite b) = neg"
| "py_le (Infinite neg) (Infinite neg') = (neg \<or> \<not> neg')"
| "py_le NaN _ = False"
| "py_le _ NaN = False"

definition is_digit :: "char \<Rightarrow> bool" where
  "is_digit c = (let n = of_char c :: nat in 48 \<le> n \<and> n \<le> 57)"

text \<open>Digits, with single underscores between them.\<close>

fun digit_run :: "string \<Rightarrow> bool" where
  "digit_run [] = False"
| "digit_run [c] = is_digit c"
| "digit_run (c # d # cs) = (is_digit c \<and> digit_run (if d = CHR ''_'' then cs else d # cs))"

definition digit_value :: "string \<Rightarrow> nat" where
  "digit_value s = foldl (\<lambda>a c. 10 * a + (of_char c - 48)) 0 (filter is_digit s)"

definition split_at :: "char \<Rightarrow> string \<Rightarrow> string \<times> string option" where
  "split_at c s =
     (takeWhile (\<lambda>d. d \<noteq> c) s,
      case dropWhile (\<lambda>d. d \<noteq> c) s of [] \<Rightarrow> None | _ # rest \<Rightarrow> Some rest)"

definition split_sign :: "string \<Rightarrow> bool \<times> string" where
  "split_sign s =
     (case s of c # cs \<Rightarrow> if c = CHR ''-'' then (True, cs) else if c = CHR ''+'' then (False, cs)
                          else (False, s)
      | [] \<Rightarrow> (False, s))"

definition read_exponent :: "string option \<Rightarrow> int option" where
  "read_exponent e =
     (case e of
        None \<Rightarrow> Some 0
      | Some t \<Rightarrow>
          (let (neg, ds) = split_sign t
           in if digit_run ds then Some (if neg then - int (digit_value ds) else int (digit_value ds))
              else None))"

definition read_mantissa :: "string \<Rightarrow> rat option" where
  "read_mantissa m =
     (case split_at (CHR ''.'') m of
        (ip, None) \<Rightarrow> if digit_run ip then Some (of_nat (digit_value ip)) else None
      | (ip, Some fp) \<Rightarrow>
          if (ip = [] \<or> digit_run ip) \<and> (fp = [] \<or> digit_run fp) \<and> (ip \<noteq> [] \<or> fp \<noteq> [])
          then Some (of_nat (digit_value ip)
                     + of_nat (digit_value fp) / 10 ^ length (filter is_digit fp))
          else None)"

definition read_float :: "string \<Rightarrow> py_float option" where
  "read_float text =
     (let (neg, s) = split_sign (casefold (strip text))
      in if s = ''inf'' \<or> s = ''infinity'' then Some (Infinite neg)
         else if s = ''nan'' then Some NaN
         else
           (let (m, e) = split_at (CHR ''e'') s
            in case (read_mantissa m, read_exponent e) of
                 (Some v, Some k) \<Rightarrow>
                   (let x = (if k < 0 then v / 10 ^ nat (- k) else v * 10 ^ nat k)
                    in Some (Finite (if neg then - x else x)))
               | _ \<Rightarrow> None))"

fun float_of :: "json \<Rightarrow> py_float option" where
  "float_of (JBool b) = Some (Finite (if b then 1 else 0))"
| "float_of (JInt i) = Some (Finite (of_int i))"
| "float_of (JFloat t) = read_float t"
| "float_of (JStr s) = read_float s"
| "float_of _ = None"

definition float_or_zero :: "json \<Rightarrow> py_float" where
  "float_or_zero v = (case float_of v of None \<Rightarrow> Finite 0 | Some x \<Rightarrow> x)"

section \<open>The checks\<close>

record validity_result =
  vr_valid :: bool
  vr_normalized_content :: string
  vr_reasons :: "string list"
  vr_checks :: "(string \<times> bool) list"

type_synonym check_state = "(string \<times> bool) list \<times> string list"

definition require_check :: "string \<Rightarrow> bool \<Rightarrow> string \<Rightarrow> check_state \<Rightarrow> check_state" where
  "require_check key condition reason st =
     (AList.update key condition (fst st),
      if condition then snd st else snd st @ [reason])"

text \<open>\<open>bool(validity.get(key))\<close>, with a default\<close>

definition flag :: "belief \<Rightarrow> string \<Rightarrow> bool \<Rightarrow> bool" where
  "flag b key v = truthy (dict_get (validity b) key (JBool v))"

definition premises_in :: "(string \<times> status) list \<Rightarrow> string list \<Rightarrow> bool" where
  "premises_in statuses ps = (ps \<noteq> [] \<and> list_all (\<lambda>p. map_of statuses p = Some IN) ps)"

definition validate_justification ::
  "(string \<times> status) list \<Rightarrow> justification \<Rightarrow> check_state \<Rightarrow> check_state" where
  "validate_justification statuses j st =
     require_check (''premises_'' @ j_id j) (premises_in statuses (j_premises j))
       ''all justification premises must be IN''
       (require_check (''warrant_'' @ j_id j) (strip (warrant j) \<noteq> [])
         ''justification warrant is empty'' st)"

definition validate_derived :: "belief \<Rightarrow> (string \<times> status) list \<Rightarrow> check_state \<Rightarrow> check_state" where
  "validate_derived b statuses st =
     fold (validate_justification statuses) (b_justifications b)
       (require_check ''justification_present'' (b_justifications b \<noteq> [])
         (pramana_value (b_pramana b) @ '' requires a justification'') st)"

definition span_ok :: "(string \<times> string option) list \<Rightarrow> evidence_ref \<Rightarrow> bool" where
  "span_ok payloads ref =
     (case (map_of payloads (evidence_id ref), span ref) of
        (Some (Some payload), Some (s, e)) \<Rightarrow> 0 \<le> s \<and> s < e \<and> e \<le> int (length payload)
      | _ \<Rightarrow> False)"

definition validate_spans ::
  "belief \<Rightarrow> (string \<times> string option) list \<Rightarrow> string \<Rightarrow> check_state \<Rightarrow> check_state" where
  "validate_spans b payloads evidence_mode st =
     (if evidence_mode = ''hash_only''
      then require_check ''recoverable_span'' False
             ''hash_only evidence cannot support content shabda'' st
      else fold (\<lambda>ref. require_check (''span_'' @ evidence_id ref) (span_ok payloads ref)
                         ''evidence span is not recoverable'') (b_evidence b) st)"

definition explanandum_in :: "belief \<Rightarrow> (string \<times> status) list \<Rightarrow> bool" where
  "explanandum_in b statuses =
     (let e = py_str (dict_get (validity b) ''explanandum'' (JStr []))
      in e \<noteq> [] \<and> map_of statuses e = Some IN)"

definition alternatives_recorded :: "belief \<Rightarrow> bool" where
  "alternatives_recorded b =
     (case dict_get (validity b) ''alternatives'' JNull of JArr xs \<Rightarrow> xs \<noteq> [] | _ \<Rightarrow> False)"

definition search_fields :: "string list" where
  "search_fields = [''corpus'', ''scope'', ''query'', ''parameters'']"

definition unit_range :: "py_float \<Rightarrow> bool" where
  "unit_range x = (py_le (Finite 0) x \<and> py_le x (Finite 1))"

definition validate_search :: "belief \<Rightarrow> rat \<Rightarrow> rat \<Rightarrow> check_state \<Rightarrow> check_state" where
  "validate_search b min_coverage min_recall st =
     (let st = require_check ''evidence_present'' (b_evidence b \<noteq> [])
                 ''anupalabdhi requires search evidence'' st;
          st = require_check ''search_succeeded'' (flag b ''search_succeeded'' False)
                 ''negative search failed'' st;
          st = require_check ''not_truncated'' (\<not> flag b ''truncated'' True)
                 ''negative search was truncated'' st;
          st = fold (\<lambda>f. require_check (''recorded_'' @ f) (flag b f False)
                           (''anupalabdhi requires recorded '' @ f)) search_fields st;
          coverage = float_or_zero (dict_get (validity b) ''coverage'' JNull);
          recall = float_or_zero (dict_get (validity b) ''recall'' JNull);
          st = require_check ''coverage_range'' (unit_range coverage)
                 ''search coverage must be in [0,1]'' st;
          st = require_check ''recall_range'' (unit_range recall)
                 ''search recall must be in [0,1]'' st;
          st = require_check ''coverage'' (py_le (Finite min_coverage) coverage)
                 ''search coverage is below yogyata threshold'' st
      in require_check ''recall'' (py_le (Finite min_recall) recall)
           ''search recall is below yogyata threshold'' st)"

record validation_settings =
  evidence_mode :: string
  max_words :: int
  max_chars :: int
  yogyata_min_coverage :: rat
  yogyata_min_recall :: rat

fun validate_kind ::
  "pramana \<Rightarrow> belief \<Rightarrow> (string \<times> status) list \<Rightarrow> (string \<times> string option) list
     \<Rightarrow> validation_settings \<Rightarrow> check_state \<Rightarrow> check_state" where
  "validate_kind PRATYAKSHA b statuses payloads cfg st =
     require_check ''environment_integrity'' (flag b ''environment_integrity'' True)
       ''tool environment integrity is not established''
       (require_check ''measured_only'' (flag b ''measured_only'' False)
         ''wrapper exceeds what the tool directly measured''
         (require_check ''parsed'' (flag b ''parsed'' True) ''tool output was not parsed''
           (require_check ''tool_ok'' (flag b ''tool_ok'' False)
             ''tool did not complete successfully''
             (require_check ''evidence_present'' (b_evidence b \<noteq> [])
               ''pratyaksha requires evidence'' st))))"
| "validate_kind SHABDA b statuses payloads cfg st =
     validate_spans b payloads (evidence_mode cfg)
       (require_check ''assertive'' (flag b ''assertive'' True) ''source span is not assertive''
         (require_check ''apta_calculable'' (dict_get (validity b) ''apta'' JNull \<noteq> JNull)
           ''source apta is not calculable''
           (require_check ''evidence_present'' (b_evidence b \<noteq> [])
             ''shabda requires cited evidence'' st)))"
| "validate_kind ANUMANA b statuses payloads cfg st = validate_derived b statuses st"
| "validate_kind ARTHAPATTI b statuses payloads cfg st =
     require_check ''alternatives_recorded'' (alternatives_recorded b)
       ''arthapatti requires recorded alternatives''
       (require_check ''explanandum_in'' (explanandum_in b statuses)
         ''arthapatti requires an IN explanandum'' (validate_derived b statuses st))"
| "validate_kind UPAMANA b statuses payloads cfg st =
     require_check ''similarity_basis'' (flag b ''similarity_basis'' False)
       ''upamana requires an explicit similarity basis'' (validate_derived b statuses st)"
| "validate_kind ANUPALABDHI b statuses payloads cfg st =
     validate_search b (yogyata_min_coverage cfg) (yogyata_min_recall cfg) st"

definition content_checks :: "string list \<Rightarrow> (string \<times> bool) list" where
  "content_checks reasons =
     [(''atomic'', \<not> list_ex (contains ''atomic'') reasons),
      (''self_contained'', \<not> list_ex (contains ''self-contained'') reasons),
      (''bounded_length'', \<not> list_ex (contains ''exceeds'') reasons)]"

definition validate_belief ::
  "belief \<Rightarrow> (string \<times> status) list \<Rightarrow> (string \<times> string option) list \<Rightarrow> validation_settings
     \<Rightarrow> validity_result" where
  "validate_belief b statuses payloads cfg =
     (let reasons = validate_content (content b) (max_words cfg) (max_chars cfg);
          (checks, reasons) =
            validate_kind (b_pramana b) b statuses payloads cfg (content_checks reasons, reasons)
      in \<lparr>vr_valid = (reasons = []), vr_normalized_content = normalize_content (content b),
          vr_reasons = reasons, vr_checks = checks\<rparr>)"

text \<open>The defaults of the signature.\<close>

definition default_validation :: validation_settings where
  "default_validation = \<lparr>evidence_mode = ''excerpt'', max_words = 40, max_chars = 2000,
     yogyata_min_coverage = 85/100, yogyata_min_recall = 85/100\<rparr>"

section \<open>Normal forms of contents\<close>

lemma trailing_to_lower [simp]: "trailing (to_lower c) = trailing c"
proof -
  have "d = CHR '' '' \<longleftrightarrow> (of_char d :: nat) = 32" "d = CHR ''.'' \<longleftrightarrow> (of_char d :: nat) = 46"
    for d :: char
    by (auto simp flip: of_char_eq_iff [where ?'a = nat])
  then show ?thesis by (auto simp: trailing_def to_lower_def Let_def)
qed

lemma to_lower_blank: "to_lower (CHR '' '') = CHR '' ''"
  by (simp add: to_lower_def)

text \<open>White space in the normal form is single blanks between other characters.\<close>

fun single_blanks :: "string \<Rightarrow> bool" where
  "single_blanks [] = True"
| "single_blanks [c] = (is_space c \<longrightarrow> c = CHR '' '')"
| "single_blanks (c # d # cs) =
     ((is_space c \<longrightarrow> c = CHR '' '' \<and> \<not> is_space d) \<and> single_blanks (d # cs))"

lemma collapse_after_spaces:
  "collapse_spaces (dropWhile is_space cs) = d # ds \<Longrightarrow> \<not> is_space d"
  by (cases "dropWhile is_space cs") (auto simp: dropWhile_eq_Cons_conv split: if_splits)

lemma single_blanks_Cons:
  "single_blanks (c # cs) \<longleftrightarrow>
     (is_space c \<longrightarrow> c = CHR '' '' \<and> (\<forall>d ds. cs = d # ds \<longrightarrow> \<not> is_space d)) \<and> single_blanks cs"
  by (cases cs) auto

lemma single_blanks_collapse: "single_blanks (collapse_spaces s)"
  by (induction s rule: collapse_spaces.induct)
     (auto simp: single_blanks_Cons dest: collapse_after_spaces)

lemma collapse_single_blanks: "single_blanks s \<Longrightarrow> collapse_spaces s = s"
proof (induction s)
  case Nil
  then show ?case by simp
next
  case (Cons c cs)
  then show ?case by (cases cs) (simp_all split: if_splits)
qed

lemma single_blanks_append: "single_blanks (xs @ ys) \<Longrightarrow> single_blanks xs \<and> single_blanks ys"
  by (induction xs) (auto simp: single_blanks_Cons Cons_eq_append_conv)

lemma single_blanks_last: "single_blanks s \<Longrightarrow> s \<noteq> [] \<Longrightarrow> is_space (last s) \<Longrightarrow> last s = CHR '' ''"
  by (induction s) (auto simp: single_blanks_Cons split: if_splits)

lemma single_blanks_casefold: "single_blanks s \<Longrightarrow> single_blanks (casefold s)"
proof (induction s rule: single_blanks.induct)
  case (3 c d cs)
  then show ?case by (auto simp: casefold_def to_lower_blank)
qed (auto simp: casefold_def to_lower_blank)

lemma rstrip_chars_prefix: "rstrip_chars p s @ rev (takeWhile p (rev s)) = s"
  unfolding rstrip_chars_def by (metis rev_append rev_rev_ident takeWhile_dropWhile_id)

lemma rstrip_chars_last: "rstrip_chars p s \<noteq> [] \<Longrightarrow> \<not> p (last (rstrip_chars p s))"
  unfolding rstrip_chars_def by (simp add: last_rev hd_dropWhile)

lemma rstrip_chars_fixed: "(s \<noteq> [] \<Longrightarrow> \<not> p (last s)) \<Longrightarrow> rstrip_chars p s = s"
  unfolding rstrip_chars_def by (cases s rule: rev_cases) auto

lemma rstrip_chars_hd: "rstrip_chars p s \<noteq> [] \<Longrightarrow> hd (rstrip_chars p s) = hd s"
  using rstrip_chars_prefix [of p s] by (metis hd_append2)

definition normal_text :: "string \<Rightarrow> bool" where
  "normal_text s = (single_blanks s \<and> casefold s = s
     \<and> (s \<noteq> [] \<longrightarrow> \<not> is_space (hd s) \<and> \<not> trailing (last s)))"

lemma rstrip_chars_single_blanks: "single_blanks s \<Longrightarrow> single_blanks (rstrip_chars p s)"
  using rstrip_chars_prefix [of p s] single_blanks_append by metis

lemma lstrip_single_blanks: "single_blanks s \<Longrightarrow> single_blanks (lstrip s)"
  unfolding lstrip_def using takeWhile_dropWhile_id [of is_space s] single_blanks_append by metis

lemma lstrip_hd: "lstrip s \<noteq> [] \<Longrightarrow> \<not> is_space (hd (lstrip s))"
  by (simp add: lstrip_def hd_dropWhile)

lemma casefold_hd_last:
  "casefold s = [] \<longleftrightarrow> s = []" "s \<noteq> [] \<Longrightarrow> hd (casefold s) = to_lower (hd s)"
  "s \<noteq> [] \<Longrightarrow> last (casefold s) = to_lower (last s)" "casefold (casefold s) = casefold s"
  by (simp_all add: casefold_def hd_map last_map)

lemma normalize_content_normal: "normal_text (normalize_content s)"
proof -
  let ?l = "lstrip (collapse_spaces s)"
  let ?t = "rstrip_chars is_space ?l"
  let ?u = "rstrip_chars trailing ?t"
  have "single_blanks ?u"
    by (intro rstrip_chars_single_blanks lstrip_single_blanks single_blanks_collapse)
  moreover have "\<not> is_space (hd ?u)" if "?u \<noteq> []"
  proof -
    from that have "?t \<noteq> []" by (auto simp only: rstrip_chars_def rev.simps dropWhile.simps)
    then have "?l \<noteq> []" by (auto simp only: rstrip_chars_def rev.simps dropWhile.simps)
    with that \<open>?t \<noteq> []\<close> show ?thesis by (simp add: rstrip_chars_hd lstrip_hd)
  qed
  moreover have "\<not> trailing (last ?u)" if "?u \<noteq> []"
    using that by (rule rstrip_chars_last)
  ultimately show ?thesis
    unfolding normal_text_def normalize_content_def strip_def
    by (auto simp: casefold_hd_last intro: single_blanks_casefold)
qed

lemma normal_text_fixed:
  assumes "normal_text s"
  shows "normalize_content s = s"
proof -
  have collapse: "collapse_spaces s = s"
    using assms by (simp add: normal_text_def collapse_single_blanks)
  have "lstrip s = s"
    using assms by (cases s) (auto simp: normal_text_def lstrip_def)
  moreover have "rstrip_chars is_space s = s"
    using assms single_blanks_last [of s]
    by (intro rstrip_chars_fixed) (auto simp: normal_text_def trailing_def)
  moreover have "rstrip_chars trailing s = s"
    using assms by (intro rstrip_chars_fixed) (simp add: normal_text_def)
  ultimately show ?thesis
    using assms by (simp add: normalize_content_def strip_def collapse normal_text_def)
qed

text \<open>
  Normalising a content is idempotent: the stored \<open>normalized_content\<close> of a belief is its own
  normal form, so the deduplication, entailment and citation checks that compare a stored normal
  form with a freshly normalised text compare like with like.
\<close>

theorem normalize_content_idempotent:
  "normalize_content (normalize_content s) = normalize_content s"
  by (rule normal_text_fixed [OF normalize_content_normal])

section \<open>The checks accept what the conditions describe\<close>

definition well_formed_content :: "validation_settings \<Rightarrow> string \<Rightarrow> bool" where
  "well_formed_content cfg s =
     (let t = strip (collapse_spaces s)
      in t \<noteq> [] \<and> int (length (split_words t)) \<le> max_words cfg
         \<and> int (length t) \<le> max_chars cfg
         \<and> \<not> re_search CONJUNCTION t \<and> \<not> re_search DEICTIC t)"

text \<open>An inference: reasons are given, each with a warrant and with premises that are all in.\<close>

definition well_derived :: "belief \<Rightarrow> (string \<times> status) list \<Rightarrow> bool" where
  "well_derived b statuses =
     (b_justifications b \<noteq> []
      \<and> (\<forall>j\<in>set (b_justifications b). strip (warrant j) \<noteq> [] \<and> j_premises j \<noteq> []
            \<and> (\<forall>p\<in>set (j_premises j). map_of statuses p = Some IN)))"

definition well_searched :: "belief \<Rightarrow> rat \<Rightarrow> rat \<Rightarrow> bool" where
  "well_searched b min_coverage min_recall =
     (flag b ''search_succeeded'' False \<and> \<not> flag b ''truncated'' True
      \<and> (\<forall>f\<in>{''corpus'', ''scope'', ''query'', ''parameters''}. flag b f False)
      \<and> (\<exists>c. float_or_zero (dict_get (validity b) ''coverage'' JNull) = Finite c
             \<and> 0 \<le> c \<and> min_coverage \<le> c \<and> c \<le> 1)
      \<and> (\<exists>r. float_or_zero (dict_get (validity b) ''recall'' JNull) = Finite r
             \<and> 0 \<le> r \<and> min_recall \<le> r \<and> r \<le> 1))"

fun meets ::
  "pramana \<Rightarrow> belief \<Rightarrow> (string \<times> status) list \<Rightarrow> (string \<times> string option) list
     \<Rightarrow> validation_settings \<Rightarrow> bool" where
  "meets PRATYAKSHA b statuses payloads cfg =
     (b_evidence b \<noteq> [] \<and> flag b ''tool_ok'' False \<and> flag b ''parsed'' True
      \<and> flag b ''measured_only'' False \<and> flag b ''environment_integrity'' True)"
| "meets SHABDA b statuses payloads cfg =
     (b_evidence b \<noteq> [] \<and> dict_get (validity b) ''apta'' JNull \<noteq> JNull
      \<and> flag b ''assertive'' True \<and> evidence_mode cfg \<noteq> ''hash_only''
      \<and> (\<forall>ref\<in>set (b_evidence b). \<exists>payload s e.
            map_of payloads (evidence_id ref) = Some (Some payload)
            \<and> span ref = Some (s, e) \<and> 0 \<le> s \<and> s < e \<and> e \<le> int (length payload)))"
| "meets ANUMANA b statuses payloads cfg = well_derived b statuses"
| "meets ARTHAPATTI b statuses payloads cfg =
     (well_derived b statuses \<and> explanandum_in b statuses \<and> alternatives_recorded b)"
| "meets UPAMANA b statuses payloads cfg =
     (well_derived b statuses \<and> flag b ''similarity_basis'' False)"
| "meets ANUPALABDHI b statuses payloads cfg =
     (b_evidence b \<noteq> [] \<and> well_searched b (yogyata_min_coverage cfg) (yogyata_min_recall cfg))"

lemma require_check_clean [simp]:
  "snd (require_check key c reason st) = [] \<longleftrightarrow> snd st = [] \<and> c"
  by (simp add: require_check_def)

lemma fold_clean:
  assumes "\<And>x st. snd (f x st) = [] \<longleftrightarrow> snd st = [] \<and> P x"
  shows "snd (fold f xs st) = [] \<longleftrightarrow> snd st = [] \<and> (\<forall>x\<in>set xs. P x)"
  by (induction xs arbitrary: st) (auto simp: assms)

lemma reason_if_clean [simp]: "reason_if c r = [] \<longleftrightarrow> \<not> c"
  by (simp add: reason_if_def)

lemma validate_content_clean:
  "validate_content s (max_words cfg) (max_chars cfg) = [] \<longleftrightarrow> well_formed_content cfg s"
  by (simp add: validate_content_def well_formed_content_def Let_def not_less)

lemma validate_derived_clean:
  "snd (validate_derived b statuses st) = [] \<longleftrightarrow> snd st = [] \<and> well_derived b statuses"
  unfolding validate_derived_def
  by (subst fold_clean
        [where P = "\<lambda>j. strip (warrant j) \<noteq> [] \<and> premises_in statuses (j_premises j)"])
     (auto simp: validate_justification_def well_derived_def premises_in_def list_all_iff)

lemma span_ok_iff:
  "span_ok payloads ref \<longleftrightarrow>
     (\<exists>payload s e. map_of payloads (evidence_id ref) = Some (Some payload)
        \<and> span ref = Some (s, e) \<and> 0 \<le> s \<and> s < e \<and> e \<le> int (length payload))"
  by (auto simp: span_ok_def split: option.splits)

lemma validate_spans_clean:
  "snd (validate_spans b payloads m st) = [] \<longleftrightarrow>
     snd st = [] \<and> m \<noteq> ''hash_only'' \<and> (\<forall>ref\<in>set (b_evidence b). span_ok payloads ref)"
proof (cases "m = ''hash_only''")
  case False
  then show ?thesis
    unfolding validate_spans_def if_not_P [OF False]
    by (subst fold_clean [where P = "span_ok payloads"]) simp_all
qed (simp add: validate_spans_def)

lemma unit_range_le:
  "unit_range x \<and> py_le (Finite m) x \<longleftrightarrow> (\<exists>c. x = Finite c \<and> 0 \<le> c \<and> m \<le> c \<and> c \<le> 1)"
  by (cases x) (auto simp: unit_range_def)

lemma validate_search_clean:
  "snd (validate_search b mc mr st) = [] \<longleftrightarrow>
     snd st = [] \<and> b_evidence b \<noteq> [] \<and> well_searched b mc mr"
proof -
  have "snd (fold (\<lambda>f. require_check (''recorded_'' @ f) (flag b f False) (r f)) search_fields st)
      = [] \<longleftrightarrow> snd st = [] \<and> (\<forall>f\<in>{''corpus'', ''scope'', ''query'', ''parameters''}. flag b f False)"
    for r st
    by (subst fold_clean [where P = "\<lambda>f. flag b f False"]) (simp_all add: search_fields_def)
  then show ?thesis
    unfolding validate_search_def well_searched_def Let_def
    by (simp flip: unit_range_le) blast
qed

lemma validate_kind_clean:
  "snd (validate_kind k b statuses payloads cfg st) = [] \<longleftrightarrow>
     snd st = [] \<and> meets k b statuses payloads cfg"
  by (cases k) (auto simp: validate_derived_clean validate_spans_clean span_ok_iff
      validate_search_clean)

text \<open>
  C24. \<open>validate_belief\<close> accepts a belief exactly when its content is well formed and it meets the
  conditions of its kind: a testimony has a recoverable span in every cited evidence, an inference
  has justifications whose warrants are stated and whose premises are all in, a negative search
  was complete with coverage and recall between the thresholds and one.
\<close>

theorem validate_belief_iff:
  "vr_valid (validate_belief b statuses payloads cfg)
   \<longleftrightarrow> well_formed_content cfg (content b) \<and> meets (b_pramana b) b statuses payloads cfg"
proof -
  let ?r = "validate_content (content b) (max_words cfg) (max_chars cfg)"
  have "vr_valid (validate_belief b statuses payloads cfg)
      \<longleftrightarrow> snd (validate_kind (b_pramana b) b statuses payloads cfg (content_checks ?r, ?r)) = []"
    by (simp add: validate_belief_def Let_def case_prod_unfold)
  then show ?thesis by (simp add: validate_kind_clean validate_content_clean)
qed

end
