(* ===== verification/Preconditions.thy ===== *)
theory Preconditions
  imports Validity
begin

text \<open>
  \<open>gate/preconditions.py\<close>: the preconditions of an action resolved against the ledger. The main
  facts: a satisfied proposition is backed by a belief that is in, says exactly the proposition,
  contains no negation and comes from a source of the required integrity
  (\<open>resolve_satisfied\<close>), and an explicit confirmation is never satisfied by a belief.
\<close>

record precondition_result =
  pc_name :: string
  pc_proposition :: string
  satisfied :: bool
  pc_belief_id :: "string option"
  pc_reason :: string
  suggestion :: string

text \<open>A dictionary built by a comprehension: a later item replaces an earlier one in place.\<close>

definition index_by :: "('a \<Rightarrow> string) \<Rightarrow> 'a list \<Rightarrow> (string \<times> 'a) list" where
  "index_by f xs = fold (\<lambda>x. AList.update (f x) x) xs []"

definition the_requested_target :: string where
  "the_requested_target = ''the requested target''"

fun target_of :: "(string \<times> json) list \<Rightarrow> string list \<Rightarrow> string" where
  "target_of args [] = the_requested_target"
| "target_of args (f # fs) =
     (let v = dict_get args f JNull
      in if v \<noteq> JNull \<and> strip (py_str v) \<noteq> [] then strip (py_str v) else target_of args fs)"

text \<open>\<open>str(PurePosixPath(s).parent)\<close>\<close>

function split_slashes :: "string \<Rightarrow> string list" where
  "split_slashes s =
     (case dropWhile (\<lambda>c. c \<noteq> CHR ''/'') s of
        [] \<Rightarrow> [s]
      | _ # rest \<Rightarrow> takeWhile (\<lambda>c. c \<noteq> CHR ''/'') s # split_slashes rest)"
  by pat_completeness auto
termination
proof (relation "measure length", simp)
  fix s :: string and c rest
  assume "dropWhile (\<lambda>c. c \<noteq> CHR ''/'') s = c # rest"
  then have "length (c # rest) \<le> length s" by (metis length_dropWhile_le)
  then show "(rest, s) \<in> measure length" by simp
qed

declare split_slashes.simps [simp del]

definition path_root :: "string \<Rightarrow> string" where
  "path_root s =
     (if \<not> starts_with ''/'' s then []
      else if starts_with ''//'' s \<and> \<not> starts_with ''///'' s then ''//'' else ''/'')"

definition path_parent :: "string \<Rightarrow> string" where
  "path_parent s =
     (let parts = filter (\<lambda>p. p \<noteq> [] \<and> p \<noteq> ''.'') (split_slashes s);
          text = path_root s @ join_with ''/'' (butlast parts)
      in if text = [] then ''.'' else text)"

definition proposition_of :: "string \<Rightarrow> string \<Rightarrow> string \<times> string" where
  "proposition_of name tgt =
     (if name = ''target_exists'' then
        (''Target '' @ tgt @ '' exists'', ''Use a read-only stat/list operation on '' @ tgt)
      else if name = ''parent_exists'' then
        (''Parent '' @ path_parent tgt @ '' exists'',
         ''Use a read-only stat/list operation on '' @ path_parent tgt)
      else if name = ''environment_known'' then
        (''The current execution environment is identified'',
         ''Use a read-only environment identity command'')
      else if name = ''resource_identity'' then
        (''Resource '' @ tgt @ '' is the intended target'',
         ''Read the identity of '' @ tgt @ '' without mutating it'')
      else if name = ''explicit_user_confirmation'' then
        (''The user explicitly confirmed the action on '' @ tgt,
         ''Ask the user for explicit confirmation'')
      else if name = ''operator_policy'' then
        (''The operator configured a policy for this tool'',
         ''Add an anchored action-policy rule and retry'')
      else if name = ''version_freshness'' then
        (''The version of '' @ tgt @ '' is current'',
         ''Use a read-only version query for '' @ tgt)
      else
        (''Precondition '' @ name @ '' holds for '' @ tgt,
         ''Obtain a read-only observation for '' @ name))"

definition NEGATION_WORDS :: "string list" where
  "NEGATION_WORDS = [''not'', ''no'', ''never'', ''without'', ''deny'', ''denied'', ''decline'',
     ''declined'', ''dont'', ''cannot'', ''cant'', ''unconfirm'']"

definition contains_negation :: "string \<Rightarrow> bool" where
  "contains_negation s =
     list_ex (\<lambda>w. w \<in> set NEGATION_WORDS)
       (split_words (filter (\<lambda>c. c \<noteq> CHR 0x27) (normalize_content s)))"

definition required_rank :: "string \<Rightarrow> int" where
  "required_rank m = (if m = ''untrusted'' then 0 else if m = ''semi'' then 1 else 2)"

definition entails :: "string \<Rightarrow> (string \<times> source) list \<Rightarrow> string \<Rightarrow> belief \<Rightarrow> bool" where
  "entails p sources minimum b =
     (b_status b = IN
      \<and> (case map_of sources (b_source_id b) of
           None \<Rightarrow> False
         | Some s \<Rightarrow> required_rank minimum \<le> integrity_rank (src_integrity s))
      \<and> \<not> contains_negation (normalized_content b)
      \<and> normalized_content b = normalize_content p)"

definition entailing_belief ::
  "string \<Rightarrow> belief list \<Rightarrow> (string \<times> source) list \<Rightarrow> string \<Rightarrow> belief option" where
  "entailing_belief p beliefs sources minimum =
     find (entails p sources minimum) (sort_key b_id beliefs)"

definition normal_words :: "string \<Rightarrow> string list" where
  "normal_words s = split_words (normalize_content s)"

definition belief_tokens :: "belief \<Rightarrow> string list" where
  "belief_tokens b =
     split_words (normalized_content b) @ concat (map (normal_words \<circ> snd) (qualifiers b))"

definition conflict_tokens :: "conflict \<Rightarrow> belief list \<Rightarrow> string list" where
  "conflict_tokens c beliefs =
     concat (map (normal_words \<circ> snd) (normalized_scope c))
     @ concat (map (\<lambda>i. case map_of (index_by b_id beliefs) i of
                          None \<Rightarrow> [] | Some b \<Rightarrow> belief_tokens b)
                 [left_belief_id c, right_belief_id c])"

definition conflict_affects_target :: "conflict \<Rightarrow> string \<Rightarrow> belief list \<Rightarrow> bool" where
  "conflict_affects_target c tgt beliefs =
     (if normal_words tgt = [] \<or> tgt = the_requested_target then True
      else list_ex (\<lambda>w. w \<in> set (conflict_tokens c beliefs)) (normal_words tgt))"

record resolution =
  rs_beliefs :: "belief list"
  rs_sources :: "(string \<times> source) list"
  rs_conflicts :: "conflict list"
  rs_minimum :: string

definition resolve_conflicts :: "resolution \<Rightarrow> string \<Rightarrow> string \<Rightarrow> precondition_result" where
  "resolve_conflicts rs name tgt =
     (let ok = (filter (\<lambda>c. conflict_affects_target c tgt (rs_beliefs rs)) (rs_conflicts rs) = [])
      in \<lparr>pc_name = name, pc_proposition = ''No open ledger conflict affects this action'',
          satisfied = ok, pc_belief_id = None,
          pc_reason = (if ok then ''no open conflicts'' else ''ledger has an open conflict''),
          suggestion = ''Resolve the listed conflict with a read-only observation''\<rparr>)"

definition resolve_one :: "resolution \<Rightarrow> string \<Rightarrow> string \<Rightarrow> precondition_result" where
  "resolve_one rs tgt name =
     (if name = ''no_open_conflict'' then resolve_conflicts rs name tgt
      else
        let (p, suggestion) = proposition_of name tgt;
            found = (if name = ''explicit_user_confirmation'' then None
                     else entailing_belief p (rs_beliefs rs) (rs_sources rs) (rs_minimum rs))
        in \<lparr>pc_name = name, pc_proposition = p, satisfied = (found \<noteq> None),
            pc_belief_id = map_option b_id found,
            pc_reason =
              (if name = ''explicit_user_confirmation'' then ''host-bound approval is required''
               else if found \<noteq> None then ''supported by an exact IN belief''
               else ''no qualifying exact IN belief''),
            suggestion = suggestion\<rparr>)"

definition resolve_preconditions ::
  "string list \<Rightarrow> (string \<times> json) list \<Rightarrow> string list \<Rightarrow> resolution \<Rightarrow> precondition_result list" where
  "resolve_preconditions names args fs rs = map (resolve_one rs (target_of args fs)) names"

section \<open>Facts\<close>

text \<open>What a satisfied precondition rests on.\<close>

definition backed :: "resolution \<Rightarrow> string \<Rightarrow> string \<Rightarrow> belief \<Rightarrow> bool" where
  "backed rs tgt name b =
     (b \<in> set (rs_beliefs rs) \<and> entails (fst (proposition_of name tgt)) (rs_sources rs) (rs_minimum rs) b)"

lemma resolve_one_name [simp]: "pc_name (resolve_one rs tgt name) = name"
  by (simp add: resolve_one_def resolve_conflicts_def Let_def case_prod_unfold)

lemma resolve_one_confirmation:
  "\<not> satisfied (resolve_one rs tgt ''explicit_user_confirmation'')"
  by (simp add: resolve_one_def Let_def case_prod_unfold)

lemma resolve_one_conflict:
  "satisfied (resolve_one rs tgt ''no_open_conflict'') \<longleftrightarrow>
     (\<forall>c\<in>set (rs_conflicts rs). \<not> conflict_affects_target c tgt (rs_beliefs rs))"
  "pc_belief_id (resolve_one rs tgt ''no_open_conflict'') = None"
  by (simp_all add: resolve_one_def resolve_conflicts_def Let_def filter_eq_Nil_iff)

lemma resolve_one_belief:
  assumes "name \<noteq> ''no_open_conflict''" and "satisfied (resolve_one rs tgt name)"
  obtains b where "pc_belief_id (resolve_one rs tgt name) = Some (b_id b)"
    and "backed rs tgt name b"
proof -
  from assms obtain b where
    "entailing_belief (fst (proposition_of name tgt)) (rs_beliefs rs) (rs_sources rs) (rs_minimum rs) = Some b"
    and id: "pc_belief_id (resolve_one rs tgt name) = Some (b_id b)"
    by (auto simp: resolve_one_def Let_def case_prod_unfold split: if_splits)
  then have "backed rs tgt name b"
    unfolding backed_def entailing_belief_def
    by (metis find_Some_iff_mem set_sort)
  with id that show ?thesis by blast
qed

end
