(* ===== verification/Events.thy ===== *)
theory Events
  imports Models Chain
begin

text \<open>
  \<open>events.py\<close>: the storage-neutral description of an event, the events themselves, and how an
  event is built and authenticated. SHA-256, HMAC, the identity provider and the text of a
  timestamp are parameters. An event keeps its timestamp as the text \<open>isoformat_utc\<close> gives it,
  the form in which it is stored and hashed.
\<close>

record event_draft =
  ed_kind :: string
  ed_aggregate_type :: string
  ed_aggregate_id :: string
  ed_payload :: json
  ed_causal_event_id :: "string option"

record event =
  ev_seq :: nat
  ev_id :: string
  ev_episode_id :: string
  ev_timestamp :: string
  ev_kind :: string
  ev_schema_version :: int
  ev_aggregate_type :: string
  ev_aggregate_id :: string
  ev_correlation :: json
  ev_causal_event_id :: "string option"
  ev_payload :: json
  ev_previous_hash :: string
  ev_event_hash :: string
  ev_auth_tag :: string

definition json_of_text :: "string option \<Rightarrow> json" where
  "json_of_text v = (case v of None \<Rightarrow> JNull | Some s \<Rightarrow> JStr s)"

definition correlation_json :: "(string \<times> string) list \<Rightarrow> json" where
  "correlation_json c = JObj (map (map_prod id JStr) c)"

text \<open>The body an event's hash commits to: every field but the hash and the authentication.\<close>

definition event_body :: "event \<Rightarrow> json" where
  "event_body e = JObj
     [(''seq'', JInt (int (ev_seq e))), (''id'', JStr (ev_id e)),
      (''episode_id'', JStr (ev_episode_id e)), (''timestamp'', JStr (ev_timestamp e)),
      (''kind'', JStr (ev_kind e)), (''schema_version'', JInt (ev_schema_version e)),
      (''aggregate_type'', JStr (ev_aggregate_type e)),
      (''aggregate_id'', JStr (ev_aggregate_id e)),
      (''correlation'', ev_correlation e),
      (''causal_event_id'', json_of_text (ev_causal_event_id e)),
      (''payload'', ev_payload e), (''previous_hash'', JStr (ev_previous_hash e))]"

definition event_hash_of :: "(string \<Rightarrow> string) \<Rightarrow> string \<Rightarrow> event \<Rightarrow> string" where
  "event_hash_of sha previous e = sha (chain_material previous (event_body e))"

definition build_event ::
  "(string \<Rightarrow> string) \<Rightarrow> nat \<Rightarrow> string \<Rightarrow> event_draft \<Rightarrow> string \<Rightarrow> (string \<times> string) list
     \<Rightarrow> string \<Rightarrow> string \<Rightarrow> event" where
  "build_event sha seq episode draft previous correlation timestamp event_id =
     (let e = \<lparr>ev_seq = seq, ev_id = event_id, ev_episode_id = episode, ev_timestamp = timestamp,
               ev_kind = ed_kind draft, ev_schema_version = 1,
               ev_aggregate_type = ed_aggregate_type draft,
               ev_aggregate_id = ed_aggregate_id draft, ev_correlation = correlation_json correlation,
               ev_causal_event_id = ed_causal_event_id draft, ev_payload = ed_payload draft,
               ev_previous_hash = previous, ev_event_hash = [], ev_auth_tag = []\<rparr>
      in e\<lparr>ev_event_hash := event_hash_of sha previous e\<rparr>)"

text \<open>
  The key is the text of its bytes; \<open>hmac\<close> stands for HMAC-SHA-256.
\<close>

definition compute_event_auth ::
  "(string \<Rightarrow> string \<Rightarrow> string) \<Rightarrow> string \<Rightarrow> string \<Rightarrow> string \<Rightarrow> string result" where
  "compute_event_auth hmac key event_id event_hash =
     (if length key < 32
      then Inl (ValueError ''ledger integrity key must contain at least 256 bits'')
      else Inr (hmac key (event_id @ [NUL] @ event_hash)))"

lemma event_body_hash_irrelevant [simp]:
  "event_body (e\<lparr>ev_event_hash := h\<rparr>) = event_body e"
  "event_body (e\<lparr>ev_auth_tag := a\<rparr>) = event_body e"
  by (simp_all add: event_body_def)

lemma build_event_simps [simp]:
  "ev_seq (build_event sha n ep d p c t i) = n"
  "ev_id (build_event sha n ep d p c t i) = i"
  "ev_episode_id (build_event sha n ep d p c t i) = ep"
  "ev_kind (build_event sha n ep d p c t i) = ed_kind d"
  "ev_payload (build_event sha n ep d p c t i) = ed_payload d"
  "ev_correlation (build_event sha n ep d p c t i) = correlation_json c"
  "ev_aggregate_id (build_event sha n ep d p c t i) = ed_aggregate_id d"
  "ev_timestamp (build_event sha n ep d p c t i) = t"
  "ev_previous_hash (build_event sha n ep d p c t i) = p"
  "ev_auth_tag (build_event sha n ep d p c t i) = []"
  by (simp_all add: build_event_def Let_def)

lemma build_event_hash:
  "ev_event_hash (build_event sha n ep d p c t i)
   = event_hash_of sha p (build_event sha n ep d p c t i)"
  by (simp add: build_event_def Let_def event_hash_of_def event_body_def)

end
