(* ===== verification/Gate.thy ===== *)
theory Gate
  imports Classify Preconditions Trust Events
begin

text \<open>
  \<open>gate/decision.py\<close>: the single action gate. One evaluation reads the episode's beliefs, sources
  and open conflicts once, classifies the call and decides; the record it appends is returned with
  the decision. The digest of the arguments (redaction and SHA-256) is a parameter of the record:
  no decision depends on it.
\<close>

record gate_config =
  gc_mode :: string
  gc_enabled :: bool
  gc_unknown_tool_policy :: string
  gc_allow_human_approval :: bool
  gc_critical_human_confirmation :: bool
  gc_engine :: engine_config

text \<open>What the reader port returns for an episode.\<close>

record gate_reader =
  rd_episode :: "episode option"
  rd_beliefs :: "belief list"
  rd_sources :: "source list"
  rd_conflicts :: "conflict list"

definition gate_block :: gate_decision where
  "gate_block = \<lparr>outcome = BLOCK, reason_code = ''EPISODE_UNAVAILABLE'',
     message = ''BLOCKED [EPISODE_UNAVAILABLE]: no ledger episode is available'',
     gd_stakes = HIGH, missing = [''ledger episode''],
     suggested_observation = Some ''Retry after session initialization'', rule_key = None\<rparr>"

definition gate_allow :: "string \<Rightarrow> string \<Rightarrow> stakes \<Rightarrow> gate_decision" where
  "gate_allow code msg st = \<lparr>outcome = ALLOW, reason_code = code, message = msg, gd_stakes = st,
     missing = [], suggested_observation = None, rule_key = None\<rparr>"

definition missing_rule :: string where
  "missing_rule = ''operator action-policy rule''"

definition gate_unknown :: "string \<Rightarrow> stakes \<Rightarrow> gate_decision" where
  "gate_unknown tool st =
     \<lparr>outcome = BLOCK, reason_code = ''UNKNOWN_EFFECTFUL_TOOL'',
      message = ''BLOCKED [UNKNOWN_EFFECTFUL_TOOL]: '' @ missing_rule @ '' is missing for '' @ tool,
      gd_stakes = st, missing = [missing_rule],
      suggested_observation = Some ''Add an exact or anchored action-policy rule, then retry'',
      rule_key = None\<rparr>"

definition downgrade :: "precondition_result \<Rightarrow> string \<Rightarrow> string \<Rightarrow> precondition_result" where
  "downgrade check reason hint =
     check\<lparr>satisfied := False, pc_reason := reason, suggestion := hint\<rparr>"

lemma downgrade_simps [simp]:
  "\<not> satisfied (downgrade c r h)" "pc_name (downgrade c r h) = pc_name c"
  "pc_proposition (downgrade c r h) = pc_proposition c"
  by (simp_all add: downgrade_def)

definition unavailable :: "precondition_result \<Rightarrow> precondition_result" where
  "unavailable check =
     downgrade check ''supporting belief or source is unavailable''
       ''Re-observe this precondition before retrying''"

text \<open>A check satisfied by a belief is admitted again at the stakes of the action.\<close>

definition elevate ::
  "gate_config \<Rightarrow> stakes \<Rightarrow> stakes \<Rightarrow> (string \<times> belief) list \<Rightarrow> (string \<times> source) list
     \<Rightarrow> precondition_result \<Rightarrow> precondition_result result" where
  "elevate cfg episode_stakes st beliefs sources check =
     (if satisfied check \<and> pc_belief_id check \<noteq> None \<and> pc_belief_id check \<noteq> Some []
      then
        (case map_of beliefs (the (pc_belief_id check)) of
           Some b \<Rightarrow>
             (case map_of sources (b_source_id b) of
                Some s \<Rightarrow>
                  and_then (determine_admission b s (gc_engine cfg) episode_stakes (Some st))
                    (\<lambda>admission. Inr
                      (if td_status admission \<noteq> IN
                       then downgrade check
                              (''belief requires '' @ td_mode admission @ '' at ''
                               @ stakes_value st @ '' stakes'')
                              ''Verify this precondition at the action's effective stakes''
                       else check))
              | None \<Rightarrow> Inr (unavailable check))
         | None \<Rightarrow> Inr (unavailable check))
      else Inr check)"

definition effective_preconditions :: "gate_config \<Rightarrow> stakes \<Rightarrow> string list \<Rightarrow> string list" where
  "effective_preconditions cfg st names =
     (if st = CRITICAL \<and> gc_critical_human_confirmation cfg
         \<and> ''explicit_user_confirmation'' \<notin> set names
      then names @ [''explicit_user_confirmation''] else names)"

definition decide :: "gate_config \<Rightarrow> action_policy \<Rightarrow> stakes \<Rightarrow> precondition_result list \<Rightarrow> gate_decision" where
  "decide cfg policy st checks =
     (case filter (\<lambda>c. \<not> satisfied c) checks of
        [] \<Rightarrow> gate_allow ''PRECONDITIONS_SATISFIED'' ''All action preconditions are IN'' st
      | first # others \<Rightarrow>
          if allow_human_approval policy \<and> gc_allow_human_approval cfg \<and> others = []
             \<and> pc_name first = ''explicit_user_confirmation''
          then \<lparr>outcome = APPROVE, reason_code = ''HUMAN_CONFIRMATION_REQUIRED'',
                message = ''Human confirmation required: '' @ pc_proposition first,
                gd_stakes = st, missing = [pc_proposition first],
                suggested_observation = Some ''Confirm or deny through the host approval surface'',
                rule_key = Some (''belief-ledger:'' @ ap_id policy)\<rparr>
          else \<lparr>outcome = BLOCK, reason_code = ''MISSING_PRECONDITION'',
                message = ''BLOCKED [MISSING_PRECONDITION]: '' @ pc_proposition first,
                gd_stakes = st, missing = map pc_proposition (first # others),
                suggested_observation = Some (suggestion first), rule_key = None\<rparr>)"

definition gate_checks ::
  "gate_config \<Rightarrow> gate_reader \<Rightarrow> episode \<Rightarrow> action_policy \<Rightarrow> stakes \<Rightarrow> (string \<times> json) list
     \<Rightarrow> precondition_result list result" where
  "gate_checks cfg rd ep policy st args =
     (let sources = index_by src_id (rd_sources rd);
          checks = resolve_preconditions (effective_preconditions cfg st (preconditions policy)) args
                     (target_fields policy)
                     \<lparr>rs_beliefs = rd_beliefs rd, rs_sources = sources,
                      rs_conflicts = rd_conflicts rd, rs_minimum = minimum_priority policy\<rparr>
      in map_result (elevate cfg (default_stakes ep) st (index_by b_id (rd_beliefs rd)) sources) checks)"

definition gate_stakes :: "episode \<Rightarrow> action_policy \<Rightarrow> stakes option \<Rightarrow> stakes" where
  "gate_stakes ep policy action =
     max_stakes [default_stakes ep, base_stakes policy, case action of None \<Rightarrow> LOW | Some a \<Rightarrow> a]"

definition decision_for ::
  "gate_config \<Rightarrow> gate_reader \<Rightarrow> episode \<Rightarrow> action_classification \<Rightarrow> string \<Rightarrow> (string \<times> json) list
     \<Rightarrow> stakes option \<Rightarrow> gate_decision result" where
  "decision_for cfg rd ep cls tool args action =
     (let policy = ac_policy cls; st = gate_stakes ep policy action in
      if \<not> gc_enabled cfg then Inr (gate_allow ''GATE_DISABLED'' ''Gate disabled by operator'' st)
      else if \<not> known cls \<and> effectful policy \<and> gc_mode cfg = ''enforce''
        then Inr (gate_unknown tool st)
      else if \<not> effectful policy then Inr (gate_allow ''READ_ONLY'' ''Known read-only action'' st)
      else and_then (gate_checks cfg rd ep policy st args) (\<lambda>checks. Inr (decide cfg policy st checks)))"

definition gate_record ::
  "(json \<Rightarrow> string) \<Rightarrow> string \<Rightarrow> (string \<times> json) list \<Rightarrow> gate_decision \<Rightarrow> string \<Rightarrow> event_draft" where
  "gate_record digest tool args d reason =
     \<lparr>ed_kind = ''GATE_DECIDED'', ed_aggregate_type = ''gate_decision'', ed_aggregate_id = tool,
      ed_payload = JObj
        [(''tool_name'', JStr tool), (''args_hash'', JStr (digest (JObj args))),
         (''outcome'', JStr (gate_outcome_value (outcome d))),
         (''reason_code'', JStr (reason_code d)),
         (''detail'', JObj
            [(''stakes'', JStr (stakes_value (gd_stakes d))),
             (''missing'', JArr (map JStr (missing d))),
             (''suggested_observation'', json_of_text (suggested_observation d)),
             (''classification'', JStr reason)])],
      ed_causal_event_id = None\<rparr>"

definition gate_classification ::
  "gate_config \<Rightarrow> action_policy list \<Rightarrow> string \<Rightarrow> (string \<times> json) list \<Rightarrow> string
     \<Rightarrow> action_classification" where
  "gate_classification cfg rules tool args description =
     classify rules tool args description (gc_mode cfg = ''enforce'') (gc_unknown_tool_policy cfg)"

definition evaluate ::
  "(json \<Rightarrow> string) \<Rightarrow> gate_config \<Rightarrow> action_policy list \<Rightarrow> gate_reader \<Rightarrow> string
     \<Rightarrow> (string \<times> json) list \<Rightarrow> string \<Rightarrow> stakes option
     \<Rightarrow> (gate_decision \<times> event_draft list) result" where
  "evaluate digest cfg rules rd tool args description action =
     (case rd_episode rd of
        None \<Rightarrow> Inr (gate_block, [])
      | Some ep \<Rightarrow>
          (let cls = gate_classification cfg rules tool args description
           in and_then (decision_for cfg rd ep cls tool args action) (\<lambda>d.
                Inr (d, [gate_record digest tool args d (ac_reason cls)]))))"

section \<open>When a precondition is cleared\<close>

text \<open>
  A precondition is cleared at stakes \<open>st\<close> when no conflict affects the target, or when the ledger
  belief found for its proposition is admitted as \<open>IN\<close> at those stakes.
\<close>

definition cleared ::
  "gate_config \<Rightarrow> gate_reader \<Rightarrow> episode \<Rightarrow> action_policy \<Rightarrow> stakes \<Rightarrow> (string \<times> json) list \<Rightarrow> string
     \<Rightarrow> bool" where
  "cleared cfg rd ep policy st args name =
     (let tgt = target_of args (target_fields policy) in
      if name = ''no_open_conflict''
      then \<forall>c\<in>set (rd_conflicts rd). \<not> conflict_affects_target c tgt (rd_beliefs rd)
      else name \<noteq> ''explicit_user_confirmation'' \<and>
        (\<exists>b s t. entailing_belief (fst (proposition_of name tgt)) (rd_beliefs rd)
                   (index_by src_id (rd_sources rd)) (minimum_priority policy) = Some b
           \<and> map_of (index_by src_id (rd_sources rd)) (b_source_id b) = Some s
           \<and> determine_admission b s (gc_engine cfg) (default_stakes ep) (Some st) = Inr t
           \<and> td_status t = IN))"

text \<open>The store's belief ids are a primary key and never empty.\<close>

definition keyed :: "gate_reader \<Rightarrow> bool" where
  "keyed rd = (distinct (map b_id (rd_beliefs rd)) \<and> (\<forall>b\<in>set (rd_beliefs rd). b_id b \<noteq> []))"

lemma fold_update_keep:
  "k \<notin> set (map f xs) \<Longrightarrow> map_of (fold (\<lambda>x. AList.update (f x) x) xs al) k = map_of al k"
  by (induction xs arbitrary: al) auto

lemma index_by_mem:
  assumes "distinct (map f xs)" and "x \<in> set xs"
  shows "map_of (index_by f xs) (f x) = Some x"
proof -
  have "map_of (fold (\<lambda>x. AList.update (f x) x) xs al) (f x) = Some x" for al
    using assms
  proof (induction xs arbitrary: al)
    case (Cons y ys)
    then show ?case by (cases "y = x") (auto simp: fold_update_keep)
  qed simp
  then show ?thesis by (simp add: index_by_def)
qed

text \<open>An elevated check keeps its proposition and its name.\<close>

lemma elevate_keeps:
  "elevate cfg es st bs ss c = Inr c' \<Longrightarrow> pc_name c' = pc_name c \<and> pc_proposition c' = pc_proposition c"
  by (auto simp: elevate_def unavailable_def splits_result split: if_splits option.splits)

lemma elevate_unsatisfied: "\<not> satisfied c \<Longrightarrow> elevate cfg es st bs ss c = Inr c"
  by (simp add: elevate_def)

lemma elevate_no_belief: "pc_belief_id c = None \<Longrightarrow> elevate cfg es st bs ss c = Inr c"
  by (simp add: elevate_def)

lemma elevate_belief:
  assumes "satisfied c" and "pc_belief_id c = Some (b_id b)" and "b_id b \<noteq> []"
    and "map_of bs (b_id b) = Some b" and "map_of ss (b_source_id b) = Some s"
  shows "elevate cfg es st bs ss c = Inr c' \<Longrightarrow>
    satisfied c' \<longleftrightarrow> (\<exists>t. determine_admission b s (gc_engine cfg) es (Some st) = Inr t \<and> td_status t = IN)"
proof -
  assume e: "elevate cfg es st bs ss c = Inr c'"
  then obtain t where t: "determine_admission b s (gc_engine cfg) es (Some st) = Inr t"
    using assms by (auto simp: elevate_def splits_result)
  with e assms show ?thesis by (cases "td_status t = IN") (auto simp: elevate_def)
qed

lemma entailing_belief_Some:
  assumes "entailing_belief p bs ss m = Some b"
  shows "b \<in> set bs" "entails p ss m b"
  using assms unfolding entailing_belief_def by (metis find_Some_iff_mem set_sort)+

lemma entails_source: "entails p ss m b \<Longrightarrow> \<exists>s. map_of ss (b_source_id b) = Some s"
  by (auto simp: entails_def split: option.splits)

abbreviation resolution_of :: "gate_reader \<Rightarrow> action_policy \<Rightarrow> resolution" where
  "resolution_of rd policy \<equiv>
     \<lparr>rs_beliefs = rd_beliefs rd, rs_sources = index_by src_id (rd_sources rd),
      rs_conflicts = rd_conflicts rd, rs_minimum = minimum_priority policy\<rparr>"

lemma elevated_satisfied:
  assumes "keyed rd"
    and "elevate cfg (default_stakes ep) st (index_by b_id (rd_beliefs rd))
           (index_by src_id (rd_sources rd))
           (resolve_one (resolution_of rd policy) (target_of args (target_fields policy)) name) = Inr c"
  shows "satisfied c \<longleftrightarrow> cleared cfg rd ep policy st args name"
proof -
  let ?tgt = "target_of args (target_fields policy)"
  let ?rs = "resolution_of rd policy"
  let ?ss = "index_by src_id (rd_sources rd)"
  let ?e = "entailing_belief (fst (proposition_of name ?tgt)) (rd_beliefs rd) ?ss (minimum_priority policy)"
  consider (conflict) "name = ''no_open_conflict''" | (confirm) "name = ''explicit_user_confirmation''"
    | (none) "name \<noteq> ''no_open_conflict''" "name \<noteq> ''explicit_user_confirmation''" "?e = None"
    | (some) b where "name \<noteq> ''no_open_conflict''" "name \<noteq> ''explicit_user_confirmation''" "?e = Some b"
    by blast
  then show ?thesis
  proof cases
    case conflict
    with assms(2) have "c = resolve_one ?rs ?tgt name"
      by (simp add: elevate_no_belief resolve_one_conflict)
    with conflict show ?thesis by (simp add: resolve_one_conflict cleared_def)
  next
    case confirm
    with assms(2) have "c = resolve_one ?rs ?tgt name"
      by (simp add: elevate_unsatisfied resolve_one_confirmation)
    with confirm show ?thesis by (simp add: resolve_one_confirmation cleared_def)
  next
    case none
    then have "\<not> satisfied (resolve_one ?rs ?tgt name)"
      by (simp add: resolve_one_def Let_def case_prod_unfold)
    with assms(2) have "\<not> satisfied c" by (simp add: elevate_unsatisfied)
    with none show ?thesis by (simp add: cleared_def)
  next
    case some
    note b = entailing_belief_Some [OF some(3)]
    from assms(1) b(1) have ne: "b_id b \<noteq> []" and m: "map_of (index_by b_id (rd_beliefs rd)) (b_id b) = Some b"
      by (auto simp: keyed_def intro: index_by_mem)
    from entails_source [OF b(2)] obtain s where s: "map_of ?ss (b_source_id b) = Some s" by blast
    from some have "satisfied (resolve_one ?rs ?tgt name)"
      and "pc_belief_id (resolve_one ?rs ?tgt name) = Some (b_id b)"
      by (simp_all add: resolve_one_def Let_def case_prod_unfold)
    from elevate_belief [OF this ne m s assms(2)] some s show ?thesis
      by (auto simp: cleared_def)
  qed
qed

text \<open>The checks of an evaluation, one per effective precondition, in order.\<close>

lemma gate_checks_cleared:
  assumes "keyed rd" and "gate_checks cfg rd ep policy st args = Inr checks"
  shows "list_all2 (\<lambda>name c. pc_name c = name \<and> (satisfied c \<longleftrightarrow> cleared cfg rd ep policy st args name))
           (effective_preconditions cfg st (preconditions policy)) checks"
proof -
  from assms(2) have "list_all2 (\<lambda>name c.
      elevate cfg (default_stakes ep) st (index_by b_id (rd_beliefs rd)) (index_by src_id (rd_sources rd))
        (resolve_one (resolution_of rd policy) (target_of args (target_fields policy)) name) = Inr c)
      (effective_preconditions cfg st (preconditions policy)) checks"
    by (simp add: gate_checks_def resolve_preconditions_def Let_def map_result_list_all2 list.rel_map)
  then show ?thesis
  proof (rule list_all2_mono)
    fix name c
    assume e: "elevate cfg (default_stakes ep) st (index_by b_id (rd_beliefs rd))
      (index_by src_id (rd_sources rd))
      (resolve_one (resolution_of rd policy) (target_of args (target_fields policy)) name) = Inr c"
    from elevate_keeps [OF e] elevated_satisfied [OF assms(1) e]
    show "pc_name c = name \<and> (satisfied c \<longleftrightarrow> cleared cfg rd ep policy st args name)" by simp
  qed
qed

lemma filter_names:
  assumes "list_all2 (\<lambda>name c. pc_name c = name \<and> (satisfied c \<longleftrightarrow> P name)) names checks"
  shows "map pc_name (filter (\<lambda>c. \<not> satisfied c) checks) = filter (\<lambda>n. \<not> P n) names"
  using assms by (induction rule: list_all2_induct) auto

end
