(* ===== verification/Gate_Props.thy ===== *)
theory Gate_Props
  imports Gate
begin

text \<open>
  What the action gate guarantees: the outcome of a known effectful action as a function of the
  cleared preconditions, what an allowed action rests on, the human confirmation, unknown tools,
  totality and the audit record. The samples are a file tool with one ledger belief.
\<close>

lemma evaluate_known:
  assumes "rd_episode rd = Some ep" and "gc_enabled cfg"
    and "find_rule rules (tool_key tool) = Some r" and "effectful r"
  shows "evaluate digest cfg rules rd tool args descr act = Inr (d, evs) \<longleftrightarrow>
    (\<exists>checks. gate_checks cfg rd ep r (gate_stakes ep r act) args = Inr checks
       \<and> d = decide cfg r (gate_stakes ep r act) checks
       \<and> evs = [gate_record digest tool args d (ac_reason (gate_classification cfg rules tool args descr))])"
  using assms
  by (auto simp: evaluate_def decision_for_def gate_classification_def classify_rule classify_known
      splits_result Let_def)

lemma decide_outcome:
  "outcome (decide cfg r st checks) =
     (let todo = map pc_name (filter (\<lambda>c. \<not> satisfied c) checks)
      in if todo = [] then ALLOW
         else if todo = [''explicit_user_confirmation''] \<and> allow_human_approval r
                 \<and> gc_allow_human_approval cfg then APPROVE else BLOCK)"
proof (cases "filter (\<lambda>c. \<not> satisfied c) checks")
  case Nil
  then show ?thesis by (simp add: decide_def gate_allow_def)
next
  case (Cons c cs)
  then show ?thesis by (cases cs) (simp_all add: decide_def)
qed

lemma decide_stakes: "gd_stakes (decide cfg r st checks) = st"
  by (simp add: decide_def gate_allow_def split: list.splits)

definition uncleared ::
  "gate_config \<Rightarrow> gate_reader \<Rightarrow> episode \<Rightarrow> action_policy \<Rightarrow> stakes \<Rightarrow> (string \<times> json) list \<Rightarrow> string list" where
  "uncleared cfg rd ep r st args =
     filter (\<lambda>n. \<not> cleared cfg rd ep r st args n) (effective_preconditions cfg st (preconditions r))"

lemma known_outcome:
  assumes "rd_episode rd = Some ep" and "gc_enabled cfg" and "keyed rd"
    and "find_rule rules (tool_key tool) = Some r" and "effectful r"
    and "evaluate digest cfg rules rd tool args descr act = Inr (d, evs)"
  shows "outcome d =
      (let todo = uncleared cfg rd ep r (gate_stakes ep r act) args
       in if todo = [] then ALLOW
          else if todo = [''explicit_user_confirmation''] \<and> allow_human_approval r
                  \<and> gc_allow_human_approval cfg then APPROVE else BLOCK)"
    and "gd_stakes d = gate_stakes ep r act"
proof -
  from assms(6) obtain checks where
    checks: "gate_checks cfg rd ep r (gate_stakes ep r act) args = Inr checks"
    and d: "d = decide cfg r (gate_stakes ep r act) checks"
    unfolding evaluate_known [OF assms(1,2,4,5)] by blast
  from filter_names [OF gate_checks_cleared [OF assms(3) checks]]
  have "map pc_name (filter (\<lambda>c. \<not> satisfied c) checks)
      = uncleared cfg rd ep r (gate_stakes ep r act) args"
    by (simp add: uncleared_def)
  then show "outcome d =
      (let todo = uncleared cfg rd ep r (gate_stakes ep r act) args
       in if todo = [] then ALLOW
          else if todo = [''explicit_user_confirmation''] \<and> allow_human_approval r
                  \<and> gc_allow_human_approval cfg then APPROVE else BLOCK)"
    by (simp add: d decide_outcome)
  show "gd_stakes d = gate_stakes ep r act" by (simp add: d decide_stakes)
qed

lemma confirmation_uncleared:
  "\<not> cleared cfg rd ep r st args ''explicit_user_confirmation''"
  by (simp add: cleared_def Let_def)

lemma gate_checks_total:
  assumes "wf_matrix (gc_engine cfg)"
  shows "\<exists>checks. gate_checks cfg rd ep r st args = Inr checks"
proof -
  have "\<exists>t. determine_admission b s (gc_engine cfg) es a = Inr t" for b s es a
  proof -
    obtain c where "trust_cell_of (gc_engine cfg) (trust_profile b s)
        (max_stakes [es, b_stakes b, case a of None \<Rightarrow> LOW | Some a \<Rightarrow> a]) = Inr c"
      using trust_cell_of_wf [OF assms] by blast
    then show ?thesis by (simp add: determine_admission_def Let_def)
  qed
  then have one: "\<exists>c'. elevate cfg es st' bs ss c = Inr c'" for es st' bs ss c
    unfolding elevate_def by (fastforce split: option.splits simp: splits_result)
  have "\<exists>ys. map_result (elevate cfg es st' bs ss) xs = Inr ys" for es st' bs ss xs
  proof (induction xs)
    case (Cons x xs)
    with one [of es st' bs ss x] show ?case by (force simp: splits_result)
  qed simp
  then show ?thesis by (simp add: gate_checks_def Let_def)
qed

section \<open>A sample ledger\<close>

definition file_rule :: action_policy where
  "file_rule = \<lparr>ap_id = ''file_tool'', base_stakes = HIGH, effectful = True,
     minimum_priority = ''semi'', allow_human_approval = True, target_fields = [''path''],
     preconditions = [''target_exists'', ''no_open_conflict''], exact = [''touch''], ap_pattern = None\<rparr>"

definition wipe_rule :: action_policy where
  "wipe_rule = file_rule\<lparr>exact := [''wipe''],
     preconditions := [''target_exists'', ''explicit_user_confirmation'']\<rparr>"

definition file_source :: source where
  "file_source = \<lparr>src_id = ''s'', src_episode_id = ''e'', src_kind = SK_TOOL,
     src_integrity = TRUSTED, src_name = ''stat'', src_root = ''fs'', src_competence = [],
     src_stats = \<lparr>confirmed = 0, defeated = 0, samples = 0\<rparr>\<rparr>"

definition file_belief :: belief where
  "file_belief = \<lparr>b_id = ''b1'', b_episode_id = ''e'', content = ''Target a.txt exists'',
     normalized_content = ''target a.txt exists'', b_pramana = PRATYAKSHA, b_source_id = ''s'',
     b_evidence = [], b_justifications = [], qualifiers = [], b_perishability = STABLE,
     observed_at = Aware 0, b_stakes = LOW, b_status = IN, admission_status = IN,
     domain = ''fs'', confidence = None, corroboration = 0, validity = []\<rparr>"

definition file_episode :: episode where
  "file_episode = \<lparr>ep_id = ''e'', ep_key = ''k'', session_id = '''', task_id = '''', platform = '''',
     ep_model = '''', default_stakes = MED, current_turn = 0, created_at = Aware 0,
     updated_at = Aware 0, llm_calls_used = 0, input_tokens_used = 0, output_tokens_used = 0,
     ep_state = ''active''\<rparr>"

definition file_reader :: gate_reader where
  "file_reader = \<lparr>rd_episode = Some file_episode, rd_beliefs = [file_belief],
     rd_sources = [file_source], rd_conflicts = []\<rparr>"

definition file_config :: gate_config where
  "file_config = \<lparr>gc_mode = ''enforce'', gc_enabled = True,
     gc_unknown_tool_policy = ''conservative'', gc_allow_human_approval = True,
     gc_critical_human_confirmation = True, gc_engine = default_config\<rparr>"

definition file_args :: "(string \<times> json) list" where
  "file_args = [(''path'', JStr ''a.txt'')]"

definition no_digest :: "json \<Rightarrow> string" where
  "no_digest v = []"

lemma file_reader_facts:
  "rd_episode file_reader = Some file_episode" "gc_enabled file_config" "keyed file_reader"
  "gc_mode file_config = ''enforce''"
  by (simp_all add: file_reader_def file_config_def keyed_def file_belief_def)

lemma file_rules:
  "find_rule [file_rule, wipe_rule] (tool_key ''Touch '') = Some file_rule"
  "find_rule [file_rule, wipe_rule] (tool_key ''wipe'') = Some wipe_rule"
  "find_rule [file_rule, wipe_rule] (tool_key ''erase'') = None"
  "effectful file_rule" "effectful wipe_rule"
  by code_simp+

definition sample_run :: "string \<Rightarrow> stakes option \<Rightarrow> (gate_decision \<times> event_draft list) result" where
  "sample_run tool act =
     evaluate no_digest file_config [file_rule, wipe_rule] file_reader tool file_args '''' act"

lemma touch_allowed: "succeeds (sample_run ''Touch '' None) (\<lambda>(d, evs). outcome d = ALLOW \<and> gd_stakes d = HIGH)"
  by code_simp

lemma wipe_approval: "succeeds (sample_run ''wipe'' None) (\<lambda>(d, evs). outcome d = APPROVE)"
  by code_simp

lemma touch_critical_blocked:
  "succeeds (sample_run ''Touch '' (Some CRITICAL)) (\<lambda>(d, evs). outcome d = BLOCK \<and> gd_stakes d = CRITICAL)"
  by code_simp

section \<open>Properties\<close>

lemma touch_stakes: "gate_stakes file_episode file_rule None = HIGH"
  by code_simp

lemma touch_run:
  obtains d evs where "sample_run ''Touch '' None = Inr (d, evs)" and "outcome d = ALLOW"
    and "gd_stakes d = HIGH"
  using touch_allowed by (auto simp: succeeds_iff)

lemma wipe_run:
  obtains d evs where "sample_run ''wipe'' None = Inr (d, evs)" and "outcome d = APPROVE"
  using wipe_approval by (auto simp: succeeds_iff)

text \<open>
  C22. The outcome for a known effectful action is a function of the preconditions that are not
  cleared at the action's effective stakes: none, and the action is allowed; exactly the explicit
  confirmation, where the policy and the operator permit human approval, and a human is asked;
  anything else, and it is blocked.
\<close>

theorem gate_decision_exact:
  assumes "rd_episode rd = Some ep" and "gc_enabled cfg" and "keyed rd"
    and "find_rule rules (tool_key tool) = Some r" and "effectful r"
    and "evaluate digest cfg rules rd tool args descr act = Inr (d, evs)"
  shows "outcome d =
    (let todo = uncleared cfg rd ep r (gate_stakes ep r act) args
     in if todo = [] then ALLOW
        else if todo = [''explicit_user_confirmation''] \<and> allow_human_approval r
                \<and> gc_allow_human_approval cfg then APPROVE else BLOCK)"
  using assms by (rule known_outcome)

theorem gate_decision_exact_witness:
  "uncleared file_config file_reader file_episode file_rule HIGH file_args = []"
proof -
  obtain d evs where run: "sample_run ''Touch '' None = Inr (d, evs)" and allow: "outcome d = ALLOW"
    by (rule touch_run)
  from gate_decision_exact [OF file_reader_facts(1-3) file_rules(1,4) run [unfolded sample_run_def]]
    allow touch_stakes
  show ?thesis by (auto simp: Let_def split: if_splits)
qed

text \<open>
  C23. What an allowed effectful action rests on: every precondition of its policy that is not the
  conflict check is stated, word for word after normalisation, by a belief of the ledger that is
  in, contains no negation, comes from a source of at least the policy's minimum integrity and is
  admitted as IN at the action's effective stakes; and no open conflict touches the target where
  the policy asks for that.
\<close>

theorem allowed_action_grounded:
  assumes "rd_episode rd = Some ep" and "gc_enabled cfg" and "keyed rd"
    and "find_rule rules (tool_key tool) = Some r" and "effectful r"
    and "evaluate digest cfg rules rd tool args descr act = Inr (d, evs)"
    and "outcome d = ALLOW" and "name \<in> set (preconditions r)"
  shows "if name = ''no_open_conflict''
    then \<forall>c\<in>set (rd_conflicts rd).
           \<not> conflict_affects_target c (target_of args (target_fields r)) (rd_beliefs rd)
    else \<exists>b s t. b \<in> set (rd_beliefs rd) \<and> b_status b = IN
      \<and> normalized_content b
          = normalize_content (fst (proposition_of name (target_of args (target_fields r))))
      \<and> \<not> contains_negation (normalized_content b)
      \<and> map_of (index_by src_id (rd_sources rd)) (b_source_id b) = Some s
      \<and> required_rank (minimum_priority r) \<le> integrity_rank (src_integrity s)
      \<and> determine_admission b s (gc_engine cfg) (default_stakes ep) (Some (gd_stakes d)) = Inr t
      \<and> td_status t = IN"
proof -
  note out = known_outcome [OF assms(1-6)]
  from out(1) assms(7) have "uncleared cfg rd ep r (gate_stakes ep r act) args = []"
    by (auto simp: Let_def split: if_splits)
  with assms(8) out(2) have "cleared cfg rd ep r (gd_stakes d) args name"
    by (auto simp: uncleared_def filter_eq_Nil_iff effective_preconditions_def split: if_splits)
  then show ?thesis
  proof (cases "name = ''no_open_conflict''")
    case False
    with \<open>cleared cfg rd ep r (gd_stakes d) args name\<close> obtain b s t where
      b: "entailing_belief (fst (proposition_of name (target_of args (target_fields r))))
            (rd_beliefs rd) (index_by src_id (rd_sources rd)) (minimum_priority r) = Some b"
      and s: "map_of (index_by src_id (rd_sources rd)) (b_source_id b) = Some s"
      and t: "determine_admission b s (gc_engine cfg) (default_stakes ep) (Some (gd_stakes d)) = Inr t"
        "td_status t = IN"
      by (auto simp: cleared_def Let_def)
    from entailing_belief_Some [OF b] s t False show ?thesis by (auto simp: entails_def)
  qed (simp add: cleared_def)
qed

theorem allowed_action_grounded_witness:
  "\<exists>b s. b \<in> set (rd_beliefs file_reader) \<and> b_status b = IN
     \<and> map_of (index_by src_id (rd_sources file_reader)) (b_source_id b) = Some s
     \<and> required_rank ''semi'' \<le> integrity_rank (src_integrity s)"
proof -
  obtain d evs where run: "sample_run ''Touch '' None = Inr (d, evs)" and allow: "outcome d = ALLOW"
    by (rule touch_run)
  have "''target_exists'' \<in> set (preconditions file_rule)" by (simp add: file_rule_def)
  from allowed_action_grounded [OF file_reader_facts(1-3) file_rules(1,4) run [unfolded sample_run_def]
      allow this]
  show ?thesis by (auto simp: file_rule_def)
qed

text \<open>
  A tool that no rule names is never let through in enforce mode: whatever its arguments, its
  description and the ledger, the gate blocks it as an unknown effectful tool.
\<close>

theorem unknown_tool_blocked:
  assumes "rd_episode rd = Some ep" and "gc_enabled cfg" and "gc_mode cfg = ''enforce''"
    and "find_rule rules (tool_key tool) = None"
  shows "\<exists>d ev. evaluate digest cfg rules rd tool args descr act = Inr (d, [ev])
     \<and> outcome d = BLOCK \<and> reason_code d = ''UNKNOWN_EFFECTFUL_TOOL'' \<and> HIGH \<le> gd_stakes d"
proof -
  let ?cls = "gate_classification cfg rules tool args descr"
  have pol: "ac_policy ?cls = unknown_policy HIGH True" and unk: "\<not> known ?cls"
    using assms by (simp_all add: gate_classification_def classify_unknown_enforced classify_known)
  have "HIGH \<le> gate_stakes ep (unknown_policy HIGH True) act"
    using max_stakes_ge by (auto simp: gate_stakes_def unknown_policy_def)
  moreover have "evaluate digest cfg rules rd tool args descr act
      = Inr (gate_unknown tool (gate_stakes ep (unknown_policy HIGH True) act),
             [gate_record digest tool args
                (gate_unknown tool (gate_stakes ep (unknown_policy HIGH True) act)) (ac_reason ?cls)])"
    using assms pol unk
    by (simp add: evaluate_def decision_for_def Let_def) (simp add: unknown_policy_def)
  ultimately show ?thesis by (simp add: gate_unknown_def)
qed

theorem unknown_tool_blocked_witness:
  "\<exists>d ev. sample_run ''erase'' None = Inr (d, [ev]) \<and> outcome d = BLOCK"
  using unknown_tool_blocked [OF file_reader_facts(1,2,4) file_rules(3),
      of no_digest file_args "[]" None]
  by (auto simp: sample_run_def)

text \<open>
  A human stays in the loop: an effectful action whose policy asks for the explicit
  confirmation, or that runs at critical stakes while the operator demands confirmation there, is
  never allowed by beliefs alone, whatever the ledger says.
\<close>

theorem confirmation_never_inferred:
  assumes "rd_episode rd = Some ep" and "gc_enabled cfg" and "keyed rd"
    and "find_rule rules (tool_key tool) = Some r" and "effectful r"
    and "evaluate digest cfg rules rd tool args descr act = Inr (d, evs)"
    and "''explicit_user_confirmation'' \<in> set (preconditions r)
         \<or> gd_stakes d = CRITICAL \<and> gc_critical_human_confirmation cfg"
  shows "outcome d \<noteq> ALLOW"
proof -
  note out = known_outcome [OF assms(1-6)]
  let ?st = "gate_stakes ep r act"
  from assms(7) out(2)
  have "''explicit_user_confirmation'' \<in> set (effective_preconditions cfg ?st (preconditions r))"
    by (auto simp: effective_preconditions_def)
  then have "''explicit_user_confirmation'' \<in> set (uncleared cfg rd ep r ?st args)"
    by (simp add: uncleared_def confirmation_uncleared)
  then have "uncleared cfg rd ep r ?st args \<noteq> []" by auto
  with out(1) show ?thesis by (auto simp: Let_def split: if_splits)
qed

theorem confirmation_never_inferred_witness:
  "\<exists>d evs. sample_run ''wipe'' None = Inr (d, evs) \<and> outcome d \<noteq> ALLOW"
proof -
  obtain d evs where run: "sample_run ''wipe'' None = Inr (d, evs)" by (rule wipe_run)
  have "''explicit_user_confirmation'' \<in> set (preconditions wipe_rule)
      \<or> gd_stakes d = CRITICAL \<and> gc_critical_human_confirmation file_config"
    by (simp add: wipe_rule_def)
  from confirmation_never_inferred [OF file_reader_facts(1-3) file_rules(2,5)
      run [unfolded sample_run_def] this] run
  show ?thesis by blast
qed

text \<open>
  The gate is total and leaves a trace: with a validated trust matrix an evaluation never
  raises, and where an episode exists it appends exactly one record, with the outcome, the reason
  and the stakes of the decision; the stakes are at least those of the episode and of the request.
\<close>

theorem gate_total_and_recorded:
  assumes "wf_matrix (gc_engine cfg)" and "rd_episode rd = Some ep"
  shows "\<exists>d ev. evaluate digest cfg rules rd tool args descr act = Inr (d, [ev])
    \<and> default_stakes ep \<le> gd_stakes d \<and> (\<forall>a. act = Some a \<longrightarrow> a \<le> gd_stakes d)
    \<and> ed_kind ev = ''GATE_DECIDED''
    \<and> (\<exists>reason. ev = gate_record digest tool args d reason)"
proof -
  let ?cls = "gate_classification cfg rules tool args descr"
  let ?st = "gate_stakes ep (ac_policy ?cls) act"
  obtain checks where checks: "gate_checks cfg rd ep (ac_policy ?cls) ?st args = Inr checks"
    using gate_checks_total [OF assms(1)] by blast
  then have "\<exists>d. decision_for cfg rd ep ?cls tool args act = Inr d \<and> gd_stakes d = ?st"
    by (simp add: decision_for_def Let_def gate_allow_def gate_unknown_def decide_stakes)
  then obtain d where d: "decision_for cfg rd ep ?cls tool args act = Inr d" and st: "gd_stakes d = ?st"
    by blast
  have "default_stakes ep \<le> ?st" and "\<forall>a. act = Some a \<longrightarrow> a \<le> ?st"
    by (auto simp: gate_stakes_def intro: max_stakes_ge)
  moreover have "evaluate digest cfg rules rd tool args descr act
      = Inr (d, [gate_record digest tool args d (ac_reason ?cls)])"
    using assms(2) d by (simp add: evaluate_def Let_def)
  ultimately show ?thesis using st by (auto simp: gate_record_def)
qed

theorem gate_total_and_recorded_witness:
  "\<exists>d ev. sample_run ''erase'' (Some CRITICAL) = Inr (d, [ev]) \<and> CRITICAL \<le> gd_stakes d"
proof -
  have "wf_matrix (gc_engine file_config)" by (simp add: file_config_def default_wf)
  from gate_total_and_recorded [OF this file_reader_facts(1),
      of no_digest "[file_rule, wipe_rule]" "''erase''" file_args "[]" "Some CRITICAL"]
  show ?thesis unfolding sample_run_def by blast
qed

lemma observed_unknown_allowed:
  assumes "rd_episode rd = Some ep" and "gc_enabled cfg" and "gc_mode cfg \<noteq> ''enforce''"
    and "find_rule rules (tool_key tool) = None"
    and "\<not> looks_effectful (tool_key tool) descr args"
  shows "\<exists>st ev. evaluate digest cfg rules rd tool args descr act
     = Inr (gate_allow ''READ_ONLY'' ''Known read-only action'' st, [ev])"
  using assms
  by (simp add: evaluate_def decision_for_def gate_classification_def classify_def Let_def)
     (auto simp: unknown_policy_def)

lemma push_words: "looks_effectful ''push'' [] []" "\<not> looks_effectful ''push_all'' [] []"
  by code_simp+

text \<open>
  Outside enforce mode the words that mark an unknown tool as effectful are looked for between
  word boundaries, and an underscore is a word character: an unknown \<open>push\<close> counts as effectful,
  but an unknown \<open>push_all\<close> is let through and recorded as a known read-only action.
\<close>

theorem snake_case_mutator_passes:
  "looks_effectful (tool_key ''push'') [] []
   \<and> (\<exists>d ev. evaluate no_digest (file_config\<lparr>gc_mode := ''observe''\<rparr>) [] file_reader
                ''push_all'' [] [] None = Inr (d, [ev])
        \<and> outcome d = ALLOW \<and> message d = ''Known read-only action'')"
proof -
  let ?cfg = "file_config\<lparr>gc_mode := ''observe''\<rparr>"
  have keys: "tool_key ''push'' = ''push''" "tool_key ''push_all'' = ''push_all''"
    by code_simp+
  have "gc_enabled ?cfg" "gc_mode ?cfg \<noteq> ''enforce''" "find_rule [] (tool_key ''push_all'') = None"
    by (simp_all add: file_config_def find_rule_def)
  from observed_unknown_allowed [OF file_reader_facts(1) this, of "[]" "[]" no_digest None] push_words
  show ?thesis unfolding keys by (auto simp: gate_allow_def)
qed

end
