(* ===== verification/Sql.thy ===== *)
theory Sql
  imports Json
begin

text \<open>
  The part of SQLite the ledger uses: tables of rows whose cells are SQL values, with the
  constraints of the schema. A value is a JSON scalar; \<open>sqlite3\<close> refuses to bind a list or an
  object and stores a boolean as an integer, and a column converts by its affinity: an integer in
  a TEXT column becomes its text, the text of an integer in an INTEGER column becomes the
  integer, an integer in a REAL column becomes a float. A statement either yields the new
  database or raises: NULL in a NOT NULL column, a repeated key (NULLs are distinct) and a
  reference to a missing row are \<open>IntegrityError\<close>.
\<close>

named_theorems sql_simps "definitions of the statements"

datatype affinity = TextCol | IntegerCol | RealCol

record column =
  col_name :: string
  col_affinity :: affinity
  col_not_null :: bool

text \<open>A key is a list of columns; a reference names a column and the table whose \<open>id\<close> it holds.\<close>

record table_schema =
  ts_columns :: "column list"
  ts_keys :: "string list list"
  ts_references :: "(string \<times> string) list"

type_synonym row = "(string \<times> json) list"
type_synonym db = "string \<Rightarrow> row list"
type_synonym schema = "string \<Rightarrow> table_schema"

section \<open>Values\<close>

fun sql_bind :: "json \<Rightarrow> json result" where
  "sql_bind (JArr xs) = Inl (ProgrammingError ''type 'list' is not supported'')"
| "sql_bind (JObj kvs) = Inl (ProgrammingError ''type 'dict' is not supported'')"
| "sql_bind (JBool b) = Inr (JInt (if b then 1 else 0))"
| "sql_bind v = Inr v"

definition integer_text :: "string \<Rightarrow> int option" where
  "integer_text s =
     (case s of
        [] \<Rightarrow> None
      | c # cs \<Rightarrow>
          (let ds = (if c = CHR ''-'' then cs else s) in
           if ds \<noteq> [] \<and> list_all (\<lambda>d. 48 \<le> (of_char d :: nat) \<and> (of_char d :: nat) \<le> 57) ds
           then Some (if c = CHR ''-'' then - int (digits_value ds) else int (digits_value ds))
           else None))"

fun convert :: "affinity \<Rightarrow> json \<Rightarrow> json" where
  "convert TextCol (JInt i) = JStr (show_int i)"
| "convert TextCol (JFloat t) = JStr t"
| "convert IntegerCol (JStr s) = (case integer_text s of Some i \<Rightarrow> JInt i | None \<Rightarrow> JStr s)"
| "convert RealCol (JInt i) = JFloat (show_int i @ ''.0'')"
| "convert _ v = v"

definition cell :: "row \<Rightarrow> string \<Rightarrow> json" where
  "cell r c = dict_get r c JNull"

section \<open>Constraints\<close>

definition key_cells :: "string list \<Rightarrow> row \<Rightarrow> json list" where
  "key_cells ks r = map (cell r) ks"

definition clash :: "string list \<Rightarrow> row \<Rightarrow> row \<Rightarrow> bool" where
  "clash ks r r' = (key_cells ks r = key_cells ks r' \<and> JNull \<notin> set (key_cells ks r))"

definition clashes :: "table_schema \<Rightarrow> row \<Rightarrow> row \<Rightarrow> bool" where
  "clashes ts r r' = list_ex (\<lambda>ks. clash ks r r') (ts_keys ts)"

definition not_null_ok :: "table_schema \<Rightarrow> row \<Rightarrow> bool" where
  "not_null_ok ts r = list_all (\<lambda>c. col_not_null c \<longrightarrow> cell r (col_name c) \<noteq> JNull) (ts_columns ts)"

definition references_ok :: "table_schema \<Rightarrow> db \<Rightarrow> row \<Rightarrow> bool" where
  "references_ok ts d r =
     list_all (\<lambda>(c, t). cell r c = JNull \<or> list_ex (\<lambda>r'. cell r' ''id'' = cell r c) (d t))
       (ts_references ts)"

fun no_clash :: "table_schema \<Rightarrow> row list \<Rightarrow> bool" where
  "no_clash ts [] = True"
| "no_clash ts (r # rs) = (list_all (\<lambda>r'. \<not> clashes ts r r') rs \<and> no_clash ts rs)"

section \<open>Statements\<close>

fun bind_all :: "(string \<times> json) list \<Rightarrow> (string \<times> json) list result" where
  "bind_all [] = Inr []"
| "bind_all ((c, v) # vs) =
     and_then (sql_bind v) (\<lambda>w. and_then (bind_all vs) (\<lambda>ws. Inr ((c, w) # ws)))"

definition make_row :: "table_schema \<Rightarrow> (string \<times> json) list \<Rightarrow> row" where
  "make_row ts vs =
     map (\<lambda>c. (col_name c, convert (col_affinity c) (dict_get vs (col_name c) JNull))) (ts_columns ts)"

definition insert_row :: "schema \<Rightarrow> string \<Rightarrow> row \<Rightarrow> db \<Rightarrow> db result" where
  "insert_row S t r d =
     (if not_null_ok (S t) r \<and> list_all (\<lambda>r'. \<not> clashes (S t) r' r) (d t)
         \<and> references_ok (S t) d r
      then Inr (d(t := d t @ [r])) else Inl (IntegrityError t))"

definition sql_insert :: "schema \<Rightarrow> string \<Rightarrow> (string \<times> json) list \<Rightarrow> db \<Rightarrow> db result" where
  "sql_insert S t vs d = and_then (bind_all vs) (\<lambda>ws. insert_row S t (make_row (S t) ws) d)"

text \<open>\<open>INSERT OR IGNORE\<close> skips a row that violates NOT NULL or a key, not a missing reference.\<close>

definition sql_insert_or_ignore ::
  "schema \<Rightarrow> string \<Rightarrow> (string \<times> json) list \<Rightarrow> db \<Rightarrow> db result" where
  "sql_insert_or_ignore S t vs d =
     and_then (bind_all vs) (\<lambda>ws.
       let r = make_row (S t) ws in
       if not_null_ok (S t) r \<and> list_all (\<lambda>r'. \<not> clashes (S t) r' r) (d t)
       then insert_row S t r d else Inr d)"

text \<open>\<open>INSERT OR REPLACE\<close> removes the rows the new one clashes with.\<close>

definition sql_insert_or_replace ::
  "schema \<Rightarrow> string \<Rightarrow> (string \<times> json) list \<Rightarrow> db \<Rightarrow> db result" where
  "sql_insert_or_replace S t vs d =
     and_then (bind_all vs) (\<lambda>ws.
       let r = make_row (S t) ws
       in insert_row S t r (d(t := filter (\<lambda>r'. \<not> clashes (S t) r' r) (d t))))"

text \<open>\<open>UPDATE t SET ... WHERE p\<close>; the program never updates a key it refers to or a reference.\<close>

definition assign :: "table_schema \<Rightarrow> (string \<times> json) list \<Rightarrow> row \<Rightarrow> row" where
  "assign ts ws r =
     map (\<lambda>(c, v). (c, case map_of ws c of
        None \<Rightarrow> v
      | Some w \<Rightarrow> (case find (\<lambda>k. col_name k = c) (ts_columns ts) of
                     None \<Rightarrow> w | Some k \<Rightarrow> convert (col_affinity k) w))) r"

definition update_rows :: "schema \<Rightarrow> string \<Rightarrow> (row \<Rightarrow> bool) \<Rightarrow> (row \<Rightarrow> row) \<Rightarrow> db \<Rightarrow> db result" where
  "update_rows S t p f d =
     (let rs = map (\<lambda>r. if p r then f r else r) (d t) in
      if list_all (\<lambda>r. p r \<longrightarrow> not_null_ok (S t) (f r)) (d t) \<and> no_clash (S t) rs
      then Inr (d(t := rs)) else Inl (IntegrityError t))"

definition sql_update ::
  "schema \<Rightarrow> string \<Rightarrow> (string \<times> json) list \<Rightarrow> (row \<Rightarrow> bool) \<Rightarrow> db \<Rightarrow> db result" where
  "sql_update S t vs p d =
     and_then (bind_all vs) (\<lambda>ws. update_rows S t p (assign (S t) ws) d)"

definition sql_delete :: "string \<Rightarrow> (row \<Rightarrow> bool) \<Rightarrow> db \<Rightarrow> db" where
  "sql_delete t p d = d(t := filter (\<lambda>r. \<not> p r) (d t))"

text \<open>\<open>SELECT ... FROM t WHERE id = ?\<close> and its like: the first row.\<close>

definition sql_first :: "string \<Rightarrow> (row \<Rightarrow> bool) \<Rightarrow> db \<Rightarrow> row option" where
  "sql_first t p d = find p (d t)"

definition has_id :: "string \<Rightarrow> row \<Rightarrow> bool" where
  "has_id i r = (cell r ''id'' = JStr i)"

section \<open>Invariants of the statements\<close>

lemma clash_sym: "clash ks r r' = clash ks r' r"
  by (auto simp: clash_def)

lemma clashes_sym: "clashes ts r r' = clashes ts r' r"
  by (simp add: clashes_def clash_sym)

lemma no_clash_append:
  "no_clash ts (xs @ ys) \<longleftrightarrow>
     no_clash ts xs \<and> no_clash ts ys \<and> (\<forall>x\<in>set xs. \<forall>y\<in>set ys. \<not> clashes ts x y)"
  by (induction xs) (auto simp: list_all_iff)

lemma no_clash_filter: "no_clash ts rs \<Longrightarrow> no_clash ts (filter p rs)"
  by (induction rs) (auto simp: list_all_iff)

text \<open>Two rows of a table with the same key are the same entry of the list.\<close>

lemma no_clash_nth:
  assumes "no_clash ts rs" and "i < length rs" and "j < length rs" and "clashes ts (rs ! i) (rs ! j)"
  shows "i = j"
  using assms
proof (induction rs arbitrary: i j)
  case (Cons r rs)
  then show ?case
    by (cases i; cases j) (auto simp: list_all_iff clashes_sym dest: nth_mem)
qed simp

definition consistent :: "schema \<Rightarrow> db \<Rightarrow> bool" where
  "consistent S d \<longleftrightarrow>
     (\<forall>t. no_clash (S t) (d t) \<and> (\<forall>r\<in>set (d t). not_null_ok (S t) r \<and> references_ok (S t) d r))"

lemma references_mono:
  assumes "references_ok ts d r" and "\<And>t r'. r' \<in> set (d t) \<Longrightarrow> \<exists>r''\<in>set (d' t). cell r'' ''id'' = cell r' ''id''"
  shows "references_ok ts d' r"
  using assms unfolding references_ok_def list_all_iff list_ex_iff by (fastforce split: prod.splits)

lemma insert_row_consistent:
  assumes "consistent S d" and "insert_row S t r d = Inr d'"
  shows "consistent S d'"
proof -
  from assms(2) have d': "d' = d(t := d t @ [r])"
    and ok: "not_null_ok (S t) r" "\<forall>r'\<in>set (d t). \<not> clashes (S t) r' r" "references_ok (S t) d r"
    by (auto simp: insert_row_def list_all_iff split: if_splits)
  have mono: "references_ok ts d r' \<Longrightarrow> references_ok ts d' r'" for ts r'
    by (rule references_mono) (auto simp: d')
  show ?thesis
    using assms(1) ok mono unfolding consistent_def by (auto simp: d' no_clash_append)
qed

lemma sql_insert_consistent:
  "consistent S d \<Longrightarrow> sql_insert S t vs d = Inr d' \<Longrightarrow> consistent S d'"
  by (auto simp: sql_insert_def splits_result intro: insert_row_consistent)

lemma sql_insert_or_ignore_consistent:
  "consistent S d \<Longrightarrow> sql_insert_or_ignore S t vs d = Inr d' \<Longrightarrow> consistent S d'"
  by (auto simp: sql_insert_or_ignore_def splits_result Let_def intro: insert_row_consistent split: if_splits)

text \<open>Removing rows keeps the invariant where no table refers to them.\<close>

definition unreferenced :: "schema \<Rightarrow> string \<Rightarrow> bool" where
  "unreferenced S t = (\<forall>u. t \<notin> snd ` set (ts_references (S u)))"

lemma references_unreferenced:
  assumes "unreferenced S t" and "references_ok (S u) d r"
  shows "references_ok (S u) (d(t := rs)) r"
proof -
  have "u' \<noteq> t" if "(c, u') \<in> set (ts_references (S u))" for c u'
    using assms(1) that unfolding unreferenced_def by force
  with assms(2) show ?thesis unfolding references_ok_def list_all_iff by fastforce
qed

lemma filter_consistent:
  assumes "consistent S d" and "unreferenced S t"
  shows "consistent S (d(t := filter p (d t)))"
  using assms references_unreferenced [OF assms(2)]
  unfolding consistent_def by (auto simp: no_clash_filter)

lemma sql_delete_consistent: "consistent S d \<Longrightarrow> unreferenced S t \<Longrightarrow> consistent S (sql_delete t p d)"
  unfolding sql_delete_def by (rule filter_consistent)

lemma sql_insert_or_replace_consistent:
  assumes "consistent S d" and "unreferenced S t" and "sql_insert_or_replace S t vs d = Inr d'"
  shows "consistent S d'"
  using assms(3) insert_row_consistent [OF filter_consistent [OF assms(1,2)]]
  by (auto simp: sql_insert_or_replace_def splits_result Let_def)

text \<open>An update that leaves the ids and the references alone keeps the invariant.\<close>

lemma cell_assign:
  "c \<notin> fst ` set ws \<Longrightarrow> cell (assign ts ws r) c = cell r c"
proof -
  assume "c \<notin> fst ` set ws"
  then have "map_of ws c = None" by (simp add: map_of_eq_None_iff)
  then have "map_of (assign ts ws r) c = map_of r c"
    by (induction r) (simp_all add: assign_def split: prod.splits)
  then show ?thesis by (simp add: cell_def dict_get_def)
qed

definition harmless :: "schema \<Rightarrow> string \<Rightarrow> string set \<Rightarrow> bool" where
  "harmless S t cs = (''id'' \<notin> cs \<and> cs \<inter> fst ` set (ts_references (S t)) = {})"

lemma update_rows_consistent:
  assumes "consistent S d" and "update_rows S t p f d = Inr d'"
    and "\<And>r. cell (f r) ''id'' = cell r ''id''"
    and "\<And>r c. c \<in> fst ` set (ts_references (S t)) \<Longrightarrow> cell (f r) c = cell r c"
  shows "consistent S d'"
proof -
  let ?f = "\<lambda>r. if p r then f r else r"
  from assms(2) have d': "d' = d(t := map ?f (d t))" and nn: "\<forall>r\<in>set (d t). p r \<longrightarrow> not_null_ok (S t) (f r)"
    and nc: "no_clash (S t) (map ?f (d t))"
    by (auto simp: update_rows_def Let_def list_all_iff split: if_splits)
  have mono: "references_ok ts d r' \<Longrightarrow> references_ok ts d' r'" for ts r'
  proof (rule references_mono)
    fix u r''
    assume "r'' \<in> set (d u)"
    then have "u = t \<Longrightarrow> ?f r'' \<in> set (d' u)" and "u \<noteq> t \<Longrightarrow> r'' \<in> set (d' u)"
      by (simp_all add: d')
    then show "\<exists>x\<in>set (d' u). cell x ''id'' = cell r'' ''id''"
      by (cases "u = t") (auto simp: assms(3) intro: bexI [of _ "?f r''"])
  qed
  have same: "references_ok (S t) d r \<Longrightarrow> references_ok (S t) d (f r)" for r
    unfolding references_ok_def list_all_iff
    using assms(4) by (fastforce simp: image_iff)
  show ?thesis
    using assms(1) nn nc mono same unfolding consistent_def by (auto simp: d')
qed

lemma sql_update_consistent:
  assumes "consistent S d" and "sql_update S t vs p d = Inr d'" and "harmless S t (fst ` set vs)"
  shows "consistent S d'"
proof -
  from assms(2) obtain ws where ws: "bind_all vs = Inr ws" and u: "update_rows S t p (assign (S t) ws) d = Inr d'"
    by (auto simp: sql_update_def splits_result)
  have "map fst ws = map fst vs"
    using ws by (induction vs arbitrary: ws rule: bind_all.induct) (auto simp: splits_result)
  then have "fst ` set ws = fst ` set vs" by (metis set_map)
  with assms(3) have "''id'' \<notin> fst ` set ws" "\<And>c. c \<in> fst ` set (ts_references (S t)) \<Longrightarrow> c \<notin> fst ` set ws"
    by (auto simp: harmless_def)
  then show ?thesis
    by (intro update_rows_consistent [OF assms(1) u]) (simp_all add: cell_assign)
qed

lemma consistent_empty: "consistent S (\<lambda>t. [])"
  by (simp add: consistent_def)

end
