(* ===== verification/Schema.thy ===== *)
theory Schema
  imports Sql
begin

text \<open>
  The projection tables of the ledger: the schema of \<open>migrations.py\<close> (\<open>SCHEMA_V1\<close> and the
  reservations of \<open>SCHEMA_V2\<close>) and the frozen manifest of columns that projection hashes cover.
  A \<open>TEXT PRIMARY KEY\<close> column may hold NULL in SQLite; the keys of a table are its primary key
  and its UNIQUE constraints. \<open>beliefs_fts\<close>, the full-text index, has no constraint.
\<close>

definition tcol :: "string \<Rightarrow> column" where
  "tcol n = \<lparr>col_name = n, col_affinity = TextCol, col_not_null = True\<rparr>"

definition tcol_null :: "string \<Rightarrow> column" where
  "tcol_null n = \<lparr>col_name = n, col_affinity = TextCol, col_not_null = False\<rparr>"

definition icol :: "string \<Rightarrow> column" where
  "icol n = \<lparr>col_name = n, col_affinity = IntegerCol, col_not_null = True\<rparr>"

definition rcol_null :: "string \<Rightarrow> column" where
  "rcol_null n = \<lparr>col_name = n, col_affinity = RealCol, col_not_null = False\<rparr>"

definition table_of ::
  "column list \<Rightarrow> string list list \<Rightarrow> (string \<times> string) list \<Rightarrow> table_schema" where
  "table_of cols ks refs = \<lparr>ts_columns = cols, ts_keys = ks, ts_references = refs\<rparr>"

definition in_episode :: "string \<times> string" where
  "in_episode = (''episode_id'', ''episodes'')"

definition SCHEMA_core :: "(string \<times> table_schema) list" where
  "SCHEMA_core =
     [(''event_heads'', table_of [tcol_null ''episode_id'', icol ''seq'', tcol ''event_hash'']
         [[''episode_id'']] []),
      (''episodes'', table_of
         [tcol_null ''id'', tcol ''episode_key'', tcol ''session_id'', tcol ''task_id'', tcol ''platform'',
          tcol ''model'', tcol ''default_stakes'', icol ''current_turn'', tcol ''created_at'',
          tcol ''updated_at'', tcol ''compatibility_mode'', icol ''llm_calls_used'',
          icol ''input_tokens_used'', icol ''output_tokens_used'', tcol ''state'']
         [[''id''], [''episode_key'']] []),
      (''sources'', table_of
         [tcol_null ''id'', tcol ''episode_id'', tcol ''kind'', tcol ''integrity'', tcol ''name'',
          tcol ''root'', tcol ''competence_json'', tcol ''stats_json'']
         [[''id''], [''episode_id'', ''root'', ''kind'']] [in_episode]),
      (''evidence'', table_of
         [tcol_null ''id'', tcol ''episode_id'', tcol ''kind'', tcol ''source_id'', tcol_null ''payload'',
          tcol ''content_hash'', tcol ''meta_json'', tcol ''observed_at'', icol ''redacted'']
         [[''id'']] [in_episode, (''source_id'', ''sources'')]),
      (''beliefs'', table_of
         [tcol_null ''id'', tcol ''episode_id'', tcol ''content'', tcol ''normalized_content'',
          tcol ''content_fingerprint'', tcol ''pramana'', tcol ''source_id'', tcol ''qualifiers_json'',
          tcol ''perishability'', tcol ''observed_at'', tcol ''stakes'', tcol ''status'',
          tcol ''admission_status'', tcol ''domain'', rcol_null ''confidence'',
          icol ''corroboration'', tcol ''validity_json'']
         [[''id'']] [in_episode, (''source_id'', ''sources'')]),
      (''belief_evidence'', table_of [tcol ''belief_id'', tcol ''evidence_id'', tcol_null ''span_json'']
         [[''belief_id'', ''evidence_id'', ''span_json'']]
         [(''belief_id'', ''beliefs''), (''evidence_id'', ''evidence'')]),
      (''ingestion_supports'', table_of
         [tcol_null ''id'', tcol ''episode_id'', tcol ''belief_id'', tcol ''evidence_id'',
          tcol ''validity_json'', icol ''active'']
         [[''id'']] [in_episode, (''belief_id'', ''beliefs''), (''evidence_id'', ''evidence'')]),
      (''justifications'', table_of
         [tcol_null ''id'', tcol ''episode_id'', tcol ''belief_id'', tcol ''warrant'',
          tcol_null ''audit_json'', tcol ''alternatives_json'']
         [[''id'']] [in_episode, (''belief_id'', ''beliefs'')]),
      (''justification_premises'', table_of
         [tcol ''justification_id'', icol ''ordinal'', tcol ''premise_belief_id'']
         [[''justification_id'', ''ordinal'']]
         [(''justification_id'', ''justifications''), (''premise_belief_id'', ''beliefs'')]),
      (''defeats'', table_of
         [tcol_null ''id'', tcol ''episode_id'', tcol ''attacker'', tcol ''target'', tcol ''kind'',
          tcol ''basis'', icol ''active'']
         [[''id'']] [in_episode, (''attacker'', ''beliefs'')]),
      (''verification_tasks'', table_of
         [tcol_null ''id'', tcol ''episode_id'', tcol ''belief_id'', tcol ''method'',
          icol ''k_required'', icol ''budget'', tcol_null ''result'', tcol ''state'']
         [[''id''], [''episode_id'', ''belief_id'', ''method'', ''state'']]
         [in_episode, (''belief_id'', ''beliefs'')]),
      (''conflicts'', table_of
         [tcol_null ''id'', tcol ''episode_id'', tcol ''left_belief_id'', tcol ''right_belief_id'',
          tcol ''normalized_scope_json'', tcol ''verification_task_id'', tcol ''state'']
         [[''id''], [''episode_id'', ''left_belief_id'', ''right_belief_id'', ''state'']]
         [in_episode, (''left_belief_id'', ''beliefs''), (''right_belief_id'', ''beliefs''),
          (''verification_task_id'', ''verification_tasks'')])]"

definition SCHEMA_more :: "(string \<times> table_schema) list" where
  "SCHEMA_more =
     [(''retraction_notices'', table_of
         [tcol_null ''id'', tcol ''episode_id'', tcol ''defeated_belief_id'', tcol ''cause'',
          tcol ''descendants_json'', icol ''created_turn'', icol ''ttl_turns'', tcol ''state'']
         [[''id'']] [in_episode, (''defeated_belief_id'', ''beliefs'')]),
      (''rendered_beliefs'', table_of
         [tcol ''episode_id'', tcol ''belief_id'', tcol ''request_id'', icol ''turn_number'',
          tcol ''rendered_at'']
         [[''episode_id'', ''belief_id'', ''request_id'']] [in_episode, (''belief_id'', ''beliefs'')]),
      (''source_roots'', table_of
         [tcol ''episode_id'', tcol ''belief_id'', tcol ''root'', tcol_null ''transport'']
         [[''episode_id'', ''belief_id'', ''root'']] [in_episode, (''belief_id'', ''beliefs'')]),
      (''content_fingerprints'', table_of
         [tcol ''episode_id'', tcol ''belief_id'', tcol ''source_root'', tcol ''fingerprint'']
         [[''episode_id'', ''belief_id'']] [in_episode, (''belief_id'', ''beliefs'')]),
      (''component_verdicts'', table_of
         [tcol_null ''id'', tcol ''episode_id'', tcol ''component'', tcol ''purpose'',
          tcol ''input_hash'', tcol ''outcome'', tcol_null ''belief_id'', tcol ''detail_json'']
         [[''id'']] [in_episode, (''belief_id'', ''beliefs'')]),
      (''llm_usage'', table_of
         [tcol_null ''id'', tcol ''episode_id'', tcol ''purpose'', tcol ''provider'', tcol ''model'',
          icol ''input_tokens'', icol ''output_tokens'', rcol_null ''cost'',
          icol ''latency_ms'', icol ''turn_number'', tcol ''outcome'']
         [[''id'']] [in_episode]),
      (''unpromoted_evidence'', table_of
         [tcol ''episode_id'', tcol ''evidence_id'', tcol ''source_profile'', tcol ''state'',
          tcol ''reason'']
         [[''episode_id'', ''evidence_id'']] [in_episode, (''evidence_id'', ''evidence'')]),
      (''lint_reports'', table_of
         [tcol_null ''event_id'', tcol ''episode_id'', tcol ''response_hash'', icol ''passed'',
          tcol ''report_json'']
         [[''event_id'']] [in_episode]),
      (''gate_decisions'', table_of
         [tcol_null ''event_id'', tcol ''episode_id'', tcol ''tool_name'', tcol ''args_hash'',
          tcol ''outcome'', tcol ''reason_code'', tcol ''detail_json'']
         [[''event_id'']] [in_episode]),
      (''assistant_responses'', table_of
         [tcol_null ''event_id'', tcol ''episode_id'', tcol ''turn_id'', tcol ''content_hash'',
          tcol ''content'']
         [[''event_id'']] [in_episode]),
      (''idempotency'', table_of
         [tcol_null ''idempotency_key'', tcol ''episode_id'', tcol ''event_ids_json'',
          tcol ''created_at'']
         [[''idempotency_key'']] []),
      (''llm_reservations'', table_of
         [tcol_null ''id'', tcol ''episode_id'', icol ''turn_number'', icol ''input_tokens'',
          icol ''output_tokens'', tcol ''created_at'']
         [[''id'']] [in_episode]),
      (''beliefs_fts'', table_of
         [tcol_null ''belief_id'', tcol_null ''episode_id'', tcol_null ''status'', tcol_null ''content'']
         [] [])]"

definition ledger_tables :: "(string \<times> table_schema) list" where
  "ledger_tables = SCHEMA_core @ SCHEMA_more"

definition ledger_schema :: schema where
  "ledger_schema t =
     (case map_of ledger_tables t of None \<Rightarrow> table_of [] [] [] | Some ts \<Rightarrow> ts)"

text \<open>
  \<open>PROJECTION_MANIFEST_V1\<close> lists the tables children first; its columns are the columns of the
  schema. The two authorization tables \<open>PROJECTION_MANIFEST_V2\<close> adds belong to the permit store.
\<close>

definition PROJECTION_MANIFEST_V1 :: "string list" where
  "PROJECTION_MANIFEST_V1 =
     [''assistant_responses'', ''gate_decisions'', ''lint_reports'', ''unpromoted_evidence'',
      ''llm_usage'', ''component_verdicts'', ''content_fingerprints'', ''source_roots'',
      ''rendered_beliefs'', ''retraction_notices'', ''conflicts'', ''verification_tasks'', ''defeats'',
      ''justification_premises'', ''justifications'', ''ingestion_supports'', ''belief_evidence'',
      ''beliefs'', ''evidence'', ''sources'', ''episodes'', ''idempotency'', ''event_heads'']"

definition row_json :: "row \<Rightarrow> json" where
  "row_json r = JObj r"

definition projection_state :: "db \<Rightarrow> json" where
  "projection_state d =
     JObj (map (\<lambda>t. (t, JArr (map row_json (sort_key (canonical_json \<circ> row_json) (d t)))))
            PROJECTION_MANIFEST_V1)"

definition projection_hash :: "(string \<Rightarrow> string) \<Rightarrow> db \<Rightarrow> string" where
  "projection_hash sha d = sha (canonical_json (projection_state d))"

section \<open>Facts about the schema\<close>

definition referenced_tables :: "string list" where
  "referenced_tables = [''episodes'', ''sources'', ''evidence'', ''beliefs'', ''justifications'',
     ''verification_tasks'']"

lemma ledger_reference_targets:
  "(c, u) \<in> set (ts_references (ledger_schema t)) \<Longrightarrow> u \<in> set referenced_tables"
proof -
  have known: "\<forall>x\<in>set ledger_tables. \<forall>y\<in>set (ts_references (snd x)). snd y \<in> set referenced_tables"
    by (simp add: ledger_tables_def SCHEMA_core_def SCHEMA_more_def table_of_def in_episode_def
        referenced_tables_def)
  assume ref: "(c, u) \<in> set (ts_references (ledger_schema t))"
  then obtain ts where "map_of ledger_tables t = Some ts" and "(c, u) \<in> set (ts_references ts)"
    by (cases "map_of ledger_tables t") (auto simp: ledger_schema_def table_of_def)
  with known show ?thesis using map_of_SomeD by fastforce
qed

lemma unreferenced_table: "t \<notin> set referenced_tables \<Longrightarrow> unreferenced ledger_schema t"
  unfolding unreferenced_def using ledger_reference_targets by fastforce

end
