(* ===== verification/Json_Parse.thy ===== *)
theory Json_Parse
  imports Json
begin

text \<open>
  \<open>json.loads\<close>, which the ledger applies to the columns it stored: blanks, literals, numbers,
  strings with their escapes, arrays and objects (of a repeated key the last value counts, at the
  place of the first). The text of a float is kept, an escape above 0xff has no character here.
  The main fact is that what \<open>canonical_json\<close> wrote is read back as the value with its keys
  sorted; the fuel is the length of the text, which suffices.
\<close>

section \<open>Tokens\<close>

definition json_blank :: "char \<Rightarrow> bool" where
  "json_blank c = (c = CHR '' '' \<or> c = CHR 0x0A \<or> c = CHR 0x0D \<or> c = CHR 0x09)"

definition skip_blanks :: "string \<Rightarrow> string" where
  "skip_blanks s = dropWhile json_blank s"

definition json_digit :: "char \<Rightarrow> bool" where
  "json_digit c = (48 \<le> (of_char c :: nat) \<and> (of_char c :: nat) \<le> 57)"

text \<open>\<open>(-?(?:0|[1-9][0-9]*))(\.[0-9]+)?([eE][-+]?[0-9]+)?\<close>, part by part\<close>

definition read_minus :: "string \<Rightarrow> string \<times> string" where
  "read_minus s = (case s of c # r \<Rightarrow> if c = CHR ''-'' then ([c], r) else ([], s) | [] \<Rightarrow> ([], []))"

definition read_whole :: "string \<Rightarrow> string \<times> string" where
  "read_whole s =
     (case s of
        c # r \<Rightarrow> if c = CHR ''0'' then ([c], r) else (takeWhile json_digit s, dropWhile json_digit s)
      | [] \<Rightarrow> ([], []))"

definition read_fraction :: "string \<Rightarrow> string \<times> string" where
  "read_fraction s =
     (case s of
        c # r \<Rightarrow> if c = CHR ''.'' \<and> takeWhile json_digit r \<noteq> []
                 then (c # takeWhile json_digit r, dropWhile json_digit r) else ([], s)
      | [] \<Rightarrow> ([], []))"

definition read_exponent :: "string \<Rightarrow> string \<times> string" where
  "read_exponent s =
     (case s of
        c # r \<Rightarrow>
          (let (sg, r') = (case r of d # r' \<Rightarrow> if d = CHR ''-'' \<or> d = CHR ''+'' then ([d], r') else ([], r)
                           | [] \<Rightarrow> ([], []))
           in if (c = CHR ''e'' \<or> c = CHR ''E'') \<and> takeWhile json_digit r' \<noteq> []
              then (c # sg @ takeWhile json_digit r', dropWhile json_digit r') else ([], s))
      | [] \<Rightarrow> ([], []))"

definition read_number :: "string \<Rightarrow> (json \<times> string) option" where
  "read_number s =
     (let (sg, s1) = read_minus s; (ds, s2) = read_whole s1;
          (fr, s3) = read_fraction s2; (ex, s4) = read_exponent s3
      in if ds = [] then None
         else if fr = [] \<and> ex = []
           then Some (JInt (if sg = [] then int (digits_value ds) else - int (digits_value ds)), s4)
         else Some (JFloat (sg @ ds @ fr @ ex), s4))"

definition hex_code :: "char \<Rightarrow> nat option" where
  "hex_code c =
     (let n = of_char c :: nat in
      if 48 \<le> n \<and> n \<le> 57 then Some (n - 48)
      else if 97 \<le> n \<and> n \<le> 102 then Some (n - 87)
      else if 65 \<le> n \<and> n \<le> 70 then Some (n - 55)
      else None)"

definition simple_escape :: "char \<Rightarrow> char option" where
  "simple_escape d =
     (if d = CHR 0x22 \<or> d = CHR 0x5C \<or> d = CHR ''/'' then Some d
      else if d = CHR ''n'' then Some (CHR 0x0A)
      else if d = CHR ''r'' then Some (CHR 0x0D)
      else if d = CHR ''t'' then Some (CHR 0x09)
      else if d = CHR ''b'' then Some (CHR 0x08)
      else if d = CHR ''f'' then Some (CHR 0x0C)
      else None)"

definition unicode_escape :: "string \<Rightarrow> char option" where
  "unicode_escape ds =
     (case those (map hex_code ds) of
        Some [0, 0, a, b] \<Rightarrow> Some (char_of (16 * a + b))
      | _ \<Rightarrow> None)"

definition cons_read :: "char \<Rightarrow> (string \<times> string) option \<Rightarrow> (string \<times> string) option" where
  "cons_read c = map_option (map_prod ((#) c) id)"

text \<open>The characters of a string up to its closing quote; a control character is refused.\<close>

function read_chars :: "string \<Rightarrow> (string \<times> string) option" where
  "read_chars s =
     (case s of
        [] \<Rightarrow> None
      | c # r \<Rightarrow>
          if c = CHR 0x22 then Some ([], r)
          else if c \<noteq> CHR 0x5C
            then (if (of_char c :: nat) < 32 then None else cons_read c (read_chars r))
          else (case r of
              [] \<Rightarrow> None
            | d # r' \<Rightarrow>
                if d = CHR ''u''
                then (case unicode_escape (take 4 r') of
                        None \<Rightarrow> None | Some k \<Rightarrow> cons_read k (read_chars (drop 4 r')))
                else (case simple_escape d of
                        None \<Rightarrow> None | Some k \<Rightarrow> cons_read k (read_chars r'))))"
  by pat_completeness auto
termination by (relation "measure length") auto

declare read_chars.simps [simp del]

section \<open>Values\<close>

definition dict_of_pairs :: "(string \<times> json) list \<Rightarrow> (string \<times> json) list" where
  "dict_of_pairs kvs = fold (\<lambda>(k, v). AList.update k v) kvs []"

text \<open>A literal and its value\<close>

definition json_literals :: "(string \<times> json) list" where
  "json_literals =
     [(''null'', JNull), (''true'', JBool True), (''false'', JBool False),
      (''NaN'', JFloat ''nan''), (''Infinity'', JFloat ''inf''), (''-Infinity'', JFloat ''-inf'')]"

definition read_atom :: "string \<Rightarrow> (json \<times> string) option" where
  "read_atom s =
     (case find (\<lambda>(t, v). starts_with t s) json_literals of
        Some (t, v) \<Rightarrow> Some (v, drop (length t) s)
      | None \<Rightarrow> read_number s)"

text \<open>What follows a value in an array or an object: the closing character or a comma.\<close>

definition after_comma :: "char \<Rightarrow> string \<Rightarrow> string option + string" where
  "after_comma close s =
     (case skip_blanks s of
        [] \<Rightarrow> Inl None
      | c # r \<Rightarrow> if c = close then Inl (Some r) else if c = CHR '','' then Inr (skip_blanks r)
                 else Inl None)"

fun read_value :: "nat \<Rightarrow> string \<Rightarrow> (json \<times> string) option"
  and read_items :: "nat \<Rightarrow> string \<Rightarrow> (json list \<times> string) option"
  and read_members :: "nat \<Rightarrow> string \<Rightarrow> ((string \<times> json) list \<times> string) option" where
  "read_value 0 s = None"
| "read_value (Suc n) s =
     (case s of
        [] \<Rightarrow> None
      | c # r \<Rightarrow>
          if c = CHR 0x22 then map_option (map_prod JStr id) (read_chars r)
          else if c = CHR ''['' then
            (case skip_blanks r of
               [] \<Rightarrow> None
             | d # r' \<Rightarrow> if d = CHR '']'' then Some (JArr [], r')
                         else map_option (map_prod JArr id) (read_items n (d # r')))
          else if c = CHR 0x7B then
            (case skip_blanks r of
               [] \<Rightarrow> None
             | d # r' \<Rightarrow> if d = CHR 0x7D then Some (JObj [], r')
                         else map_option (map_prod (JObj \<circ> dict_of_pairs) id) (read_members n (d # r')))
          else read_atom s)"
| "read_items 0 s = None"
| "read_items (Suc n) s =
     (case read_value n s of
        None \<Rightarrow> None
      | Some (v, r) \<Rightarrow>
          (case after_comma (CHR '']'') r of
             Inl (Some r') \<Rightarrow> Some ([v], r')
           | Inl None \<Rightarrow> None
           | Inr r' \<Rightarrow> map_option (map_prod ((#) v) id) (read_items n r')))"
| "read_members 0 s = None"
| "read_members (Suc n) s =
     (case s of
        [] \<Rightarrow> None
      | c # r \<Rightarrow>
          if c \<noteq> CHR 0x22 then None
          else (case read_chars r of
              None \<Rightarrow> None
            | Some (k, r1) \<Rightarrow>
                (case skip_blanks r1 of
                   [] \<Rightarrow> None
                 | d # r2 \<Rightarrow>
                     if d \<noteq> CHR '':'' then None
                     else (case read_value n (skip_blanks r2) of
                         None \<Rightarrow> None
                       | Some (v, r3) \<Rightarrow>
                           (case after_comma (CHR 0x7D) r3 of
                              Inl (Some r') \<Rightarrow> Some ([(k, v)], r')
                            | Inl None \<Rightarrow> None
                            | Inr r' \<Rightarrow> map_option (map_prod ((#) (k, v)) id) (read_members n r'))))))"

definition json_loads :: "string \<Rightarrow> json result" where
  "json_loads s =
     (case read_value (Suc (length s)) (skip_blanks s) of
        Some (v, r) \<Rightarrow> if skip_blanks r = [] then Inr v else Inl (ValueError ''Extra data'')
      | None \<Rightarrow> Inl (ValueError ''Expecting value''))"

section \<open>Reading back what was written\<close>

text \<open>What may follow a value inside a canonical text: nothing, a comma or a closing bracket.\<close>

definition closed :: "string \<Rightarrow> bool" where
  "closed r = (case r of [] \<Rightarrow> True | c # _ \<Rightarrow> c = CHR '','' \<or> c = CHR '']'' \<or> c = CHR 0x7D)"

lemma closed_simps [simp]:
  "closed []" "closed (c # r) = (c = CHR '','' \<or> c = CHR '']'' \<or> c = CHR 0x7D)"
  by (simp_all add: closed_def)

lemma closed_digits:
  "closed r \<Longrightarrow> takeWhile json_digit (s @ r) = takeWhile json_digit s"
  "closed r \<Longrightarrow> dropWhile json_digit (s @ r) = dropWhile json_digit s @ r"
  by (induction s) (cases r; auto simp: json_digit_def)+

lemma number_parts_closed:
  assumes "closed r"
  shows "read_minus (s @ r) = map_prod id (\<lambda>x. x @ r) (read_minus s)"
    and "read_whole (s @ r) = map_prod id (\<lambda>x. x @ r) (read_whole s)"
    and "read_fraction (s @ r) = map_prod id (\<lambda>x. x @ r) (read_fraction s)"
    and "read_exponent (s @ r) = map_prod id (\<lambda>x. x @ r) (read_exponent s)"
proof -
  have empty: "read_minus r = ([], r)" "read_whole r = ([], r)" "read_fraction r = ([], r)"
    "read_exponent r = ([], r)"
    using assms by (cases r; auto simp: read_minus_def read_whole_def read_fraction_def
        read_exponent_def json_digit_def Let_def split: prod.splits)+
  show "read_minus (s @ r) = map_prod id (\<lambda>x. x @ r) (read_minus s)"
    using empty by (cases s) (auto simp: read_minus_def)
  show "read_whole (s @ r) = map_prod id (\<lambda>x. x @ r) (read_whole s)"
  proof (cases s)
    case Nil
    then show ?thesis using empty by (simp add: read_whole_def)
  next
    case (Cons c s')
    then show ?thesis using closed_digits [OF assms, of s] by (simp add: read_whole_def)
  qed
  show "read_fraction (s @ r) = map_prod id (\<lambda>x. x @ r) (read_fraction s)"
    using empty closed_digits [OF assms] by (cases s) (auto simp: read_fraction_def)
  show "read_exponent (s @ r) = map_prod id (\<lambda>x. x @ r) (read_exponent s)"
  proof (cases s)
    case Nil
    then show ?thesis using empty by (simp add: read_exponent_def)
  next
    case s: (Cons c s')
    show ?thesis
    proof (cases s')
      case Nil
      then show ?thesis using s assms by (cases r) (auto simp: read_exponent_def json_digit_def)
    next
      case (Cons d s'')
      then show ?thesis using s closed_digits [OF assms, of "d # s''"] closed_digits [OF assms, of s'']
        by (simp add: read_exponent_def Let_def)
    qed
  qed
qed

lemma read_number_closed:
  "closed r \<Longrightarrow> read_number (s @ r) = map_option (map_prod id (\<lambda>x. x @ r)) (read_number s)"
  by (simp add: read_number_def number_parts_closed split_beta Let_def)

lemma show_nat_leading: "hd (show_nat n) = CHR ''0'' \<Longrightarrow> n = 0"
proof (induction n rule: show_nat.induct)
  case (1 n)
  show ?case
  proof (cases "n < 10")
    case True
    have "(of_char (digit_char n) :: nat) = 48 + n" by (rule of_char_digit) (rule True)
    moreover have "digit_char n = CHR ''0''" using 1(2) True by (simp add: show_nat.simps [of n])
    ultimately show ?thesis by simp
  next
    case False
    then have "hd (show_nat n) = hd (show_nat (n div 10))"
      by (simp add: show_nat.simps [of n] show_nat_not_Nil)
    with 1 False show ?thesis by simp
  qed
qed

lemma read_whole_show_nat: "read_whole (show_nat n) = (show_nat n, [])"
proof -
  have all: "\<forall>c\<in>set (show_nat n). json_digit c" using show_nat_digits by (auto simp: json_digit_def)
  obtain c s where s: "show_nat n = c # s" using show_nat_not_Nil by (cases "show_nat n") auto
  show ?thesis
  proof (cases "c = CHR ''0''")
    case True
    with s have "n = 0" using show_nat_leading by simp
    moreover have "read_whole (show_nat 0) = (show_nat 0, [])" by code_simp
    ultimately show ?thesis by simp
  next
    case False
    with s all show ?thesis by (simp add: read_whole_def)
  qed
qed

lemma read_number_show_int: "read_number (show_int i) = Some (JInt i, [])"
proof -
  obtain c s where s: "show_nat (nat i) = c # s" using show_nat_not_Nil by (cases "show_nat (nat i)") auto
  then have "c \<noteq> CHR ''-''" using show_nat_no_sign by metis
  with s have minus: "read_minus (show_nat (nat i)) = ([], show_nat (nat i))" by (simp add: read_minus_def)
  show ?thesis
    by (auto simp: show_int_def read_number_def minus read_whole_show_nat show_nat_not_Nil
        read_minus_def [of "CHR ''-'' # _"] read_fraction_def read_exponent_def digits_value_show_nat)
qed

lemma read_chars_plain:
  "c \<noteq> CHR 0x22 \<Longrightarrow> c \<noteq> CHR 0x5C \<Longrightarrow> 32 \<le> (of_char c :: nat) \<Longrightarrow>
    read_chars (c # r) = cons_read c (read_chars r)"
  by (subst read_chars.simps) simp

lemma read_chars_simple:
  "simple_escape d = Some k \<Longrightarrow> read_chars (CHR 0x5C # d # r) = cons_read k (read_chars r)"
  by (subst read_chars.simps) (auto simp: simple_escape_def)

lemma read_chars_unicode:
  "unicode_escape [a, b, x, y] = Some k \<Longrightarrow>
    read_chars (CHR 0x5C # CHR ''u'' # a # b # x # y # r) = cons_read k (read_chars r)"
  by (subst read_chars.simps) simp

lemma unicode_escape_control:
  assumes "n < 32"
  shows "unicode_escape [CHR ''0'', CHR ''0'', hex_digit (n div 16), hex_digit (n mod 16)] = Some (char_of n)"
proof -
  have hex: "d < 16 \<Longrightarrow> hex_code (hex_digit d) = Some d" for d
    by (auto simp: hex_code_def hex_digit_def)
  have "hex_code CHR ''0'' = Some 0" by (simp add: hex_code_def)
  moreover have "n div 16 < 16" "n mod 16 < 16" using assms by auto
  ultimately show ?thesis by (simp add: unicode_escape_def hex)
qed

lemma simple_escape_examples:
  "simple_escape CHR 0x22 = Some (CHR 0x22)" "simple_escape CHR 0x5C = Some (CHR 0x5C)"
  "simple_escape CHR ''n'' = Some (char_of (10::nat))" "simple_escape CHR ''r'' = Some (char_of (13::nat))"
  "simple_escape CHR ''t'' = Some (char_of (9::nat))" "simple_escape CHR ''b'' = Some (char_of (8::nat))"
  "simple_escape CHR ''f'' = Some (char_of (12::nat))"
  by code_simp+

lemma read_chars_escape: "read_chars (escape_char c @ r) = cons_read c (read_chars r)"
proof -
  define n where "n = (of_char c :: nat)"
  have c: "c = char_of n" by (simp add: n_def)
  consider "n = 34 \<or> n = 92" | "n = 10" | "n = 13" | "n = 9" | "n = 8" | "n = 12"
    | "n < 32" "n \<notin> {8, 9, 10, 12, 13}" | "32 \<le> n" "n \<noteq> 34" "n \<noteq> 92" by force
  then show ?thesis
  proof cases
    case 1
    then have "c = CHR 0x22 \<or> c = CHR 0x5C"
      by (simp add: n_def flip: of_char_eq_iff [where ?'a = nat])
    with 1 show ?thesis
      by (auto simp: escape_char_def n_def read_chars_simple [OF simple_escape_examples(1)]
          read_chars_simple [OF simple_escape_examples(2)])
  next
    case 7
    then show ?thesis
      using read_chars_unicode [OF unicode_escape_control [OF 7(1)]]
      by (simp add: escape_char_def n_def Let_def)
  next
    case 8
    then have "c \<noteq> CHR 0x22" "c \<noteq> CHR 0x5C" by (auto simp: n_def)
    with 8 show ?thesis by (simp add: escape_char_def n_def read_chars_plain)
  qed (simp_all add: escape_char_def n_def [symmetric] c read_chars_simple simple_escape_examples)
qed

lemma read_chars_quoted:
  "read_chars (concat (map escape_char t) @ CHR 0x22 # r) = Some (t, r)"
proof (induction t)
  case Nil
  show ?case by (subst read_chars.simps) simp
qed (simp add: read_chars_escape cons_read_def)

section \<open>Values\<close>

text \<open>A value \<open>json.dumps\<close> can have: keys are distinct and a float's text is a number.\<close>

primrec readable :: "json \<Rightarrow> bool" where
  "readable JNull = True"
| "readable (JBool b) = True"
| "readable (JInt i) = True"
| "readable (JFloat t) = (float_text t \<and> read_number t = Some (JFloat t, []))"
| "readable (JStr s) = True"
| "readable (JArr xs) = list_all id (map readable xs)"
| "readable (JObj kvs) = (distinct (map fst kvs) \<and> list_all snd (map (map_prod id readable) kvs))"

lemma readable_wf: "readable v \<Longrightarrow> wf_json v"
  by (induction v) (force simp: list_all_iff snds.simps)+

lemma readable_sort_keys: "readable v \<Longrightarrow> readable (sort_keys v)"
proof (induction v)
  case (JObj kvs)
  have "distinct (map fst (sort_key fst (map (map_prod id sort_keys) kvs)))"
    using JObj.prems by (simp add: distinct_map inj_on_def) (metis (no_types, lifting) fst_conv fst_map_prod id_apply)
  with JObj show ?case by (force simp: list_all_iff snds.simps)
qed (force simp: list_all_iff)+

lemma skip_blanks_simps [simp]:
  "skip_blanks [] = []"
  "skip_blanks (c # r) = (if json_blank c then skip_blanks r else c # r)"
  by (simp_all add: skip_blanks_def)

lemma blank_examples [simp]:
  "\<not> json_blank CHR '',''" "\<not> json_blank CHR '']''" "\<not> json_blank CHR 0x7D" "\<not> json_blank CHR '':''"
  "\<not> json_blank CHR 0x22"
  by (simp_all add: json_blank_def)

lemma char_kind_not_blank: "char_kind c < 7 \<Longrightarrow> \<not> json_blank c \<and> c \<noteq> CHR '']'' \<and> c \<noteq> CHR 0x7D"
proof -
  assume "char_kind c < 7"
  moreover have "char_kind CHR '' '' = 7" "char_kind CHR 0x0A = 7" "char_kind CHR 0x0D = 7"
    "char_kind CHR 0x09 = 7" "char_kind CHR '']'' = 7" "char_kind CHR 0x7D = 7"
    by code_simp+
  ultimately show ?thesis by (auto simp: json_blank_def)
qed

lemma print_json_head:
  assumes "readable v"
  obtains c s where "print_json v = c # s" and "\<not> json_blank c" and "c \<noteq> CHR '']''" and "c \<noteq> CHR 0x7D"
proof -
  obtain c s where "print_json v = c # s" and k: "char_kind c = json_kind v"
    using print_json_start [OF readable_wf [OF assms]] by blast
  moreover have "json_kind v < 7" by (cases v) auto
  with k char_kind_not_blank have "\<not> json_blank c \<and> c \<noteq> CHR '']'' \<and> c \<noteq> CHR 0x7D" by simp
  ultimately show thesis using that by blast
qed

text \<open>A number is no literal, and no string, array or object.\<close>

lemma number_head:
  assumes "read_number s = Some x"
  shows "\<exists>c r. s = c # r \<and> (json_digit c \<or> c = CHR ''-'' \<and> (\<exists>d r'. r = d # r' \<and> json_digit d))"
proof -
  have whole: "\<exists>c r. t = c # r \<and> json_digit c" if "fst (read_whole t) \<noteq> []" for t
    using that by (cases t) (auto simp: read_whole_def json_digit_def split: if_splits)
  have "fst (read_whole (snd (read_minus s))) \<noteq> []"
    using assms by (auto simp: read_number_def Let_def split_beta split: if_splits)
  from whole [OF this] show ?thesis
    by (cases s) (auto simp: read_minus_def split: if_splits)
qed

lemma literal_heads: "(t, v) \<in> set json_literals \<Longrightarrow> hd t \<in> set ''ntfNI'' \<or> t = ''-Infinity''"
  by (auto simp: json_literals_def)

lemma read_value_number:
  assumes "read_number s = Some x"
  shows "read_value (Suc n) s = Some x"
proof -
  obtain c r where s: "s = c # r"
    and c: "json_digit c \<or> c = CHR ''-'' \<and> (\<exists>d r'. r = d # r' \<and> json_digit d)"
    using number_head [OF assms] by blast
  then have other: "c \<notin> set ''ntfNI''" "c \<noteq> CHR 0x22" "c \<noteq> CHR ''[''" "c \<noteq> CHR 0x7B"
    by (auto simp: json_digit_def)
  have "find (\<lambda>(t, v). starts_with t s) json_literals = None"
  proof (rule ccontr)
    assume "\<not> ?thesis"
    then obtain t v where lit: "(t, v) \<in> set json_literals" and st: "starts_with t s"
      by (auto dest: find_Some_iff_mem)
    then have "hd t = c" "t \<noteq> []" by (cases t; auto simp: s json_literals_def)+
    with other literal_heads [OF lit] have t: "t = ''-Infinity''" by auto
    with \<open>hd t = c\<close> c obtain d r' where "r = d # r'" "json_digit d" by (auto simp: json_digit_def)
    with st t s show False by (auto simp: json_digit_def)
  qed
  with other assms show ?thesis
    by (simp add: s read_atom_def)
qed

lemma read_value_literal:
  "read_value (Suc n) (''null'' @ r) = Some (JNull, r)"
  "read_value (Suc n) (''true'' @ r) = Some (JBool True, r)"
  "read_value (Suc n) (''false'' @ r) = Some (JBool False, r)"
  by (simp_all add: read_atom_def json_literals_def)

definition reads_back :: "json \<Rightarrow> bool" where
  "reads_back v \<longleftrightarrow> (\<forall>n r. length (print_json v) \<le> n \<longrightarrow> closed r \<longrightarrow> read_value n (print_json v @ r) = Some (v, r))"

lemma reads_backD:
  "reads_back v \<Longrightarrow> length (print_json v) \<le> n \<Longrightarrow> closed r \<Longrightarrow> read_value n (print_json v @ r) = Some (v, r)"
  by (simp add: reads_back_def)

lemma after_comma_simps [simp]:
  "\<not> json_blank e \<Longrightarrow> after_comma e (e # r) = Inl (Some r)"
  "e \<noteq> CHR '','' \<Longrightarrow> after_comma e (CHR '','' # r) = Inr (skip_blanks r)"
  by (simp_all add: after_comma_def)

lemma read_items_print:
  assumes "xs \<noteq> []" and "\<forall>x\<in>set xs. readable x \<and> reads_back x"
    and "length (join_with '','' (map print_json xs)) < n"
  shows "read_items n (join_with '','' (map print_json xs) @ CHR '']'' # r) = Some (xs, r)"
  using assms
proof (induction xs arbitrary: n)
  case (Cons x xs)
  then obtain m where n: "n = Suc m" by (cases n) auto
  have rx: "readable x" "reads_back x" using Cons.prems(2) by auto
  show ?case
  proof (cases "xs = []")
    case True
    with Cons.prems(3) rx show ?thesis by (simp add: n reads_backD)
  next
    case False
    then obtain y ys where xs: "xs = y # ys" by (cases xs) auto
    let ?rest = "join_with '','' (map print_json xs) @ CHR '']'' # r"
    obtain c s where y: "print_json y = c # s" "\<not> json_blank c"
      using print_json_head Cons.prems(2) by (metis list.set_intros(1) list.set_intros(2) xs)
    then have skip: "skip_blanks ?rest = ?rest"
      by (simp add: xs join_with_Cons)
    have len: "length (print_json x) \<le> m" "length (join_with '','' (map print_json xs)) < m"
      using Cons.prems(3) False by (simp_all add: n join_with_Cons)
    have "read_value m (print_json x @ CHR '','' # ?rest) = Some (x, CHR '','' # ?rest)"
      using rx len(1) by (intro reads_backD) simp_all
    moreover have "read_items m ?rest = Some (xs, r)"
      using Cons.IH False Cons.prems(2) len(2) by simp
    moreover have "join_with '','' (map print_json (x # xs)) @ CHR '']'' # r = print_json x @ CHR '','' # ?rest"
      using False by (simp add: join_with_Cons)
    ultimately show ?thesis by (simp add: n skip)
  qed
qed simp

lemma read_members_print:
  assumes "kvs \<noteq> []" and "\<forall>kv\<in>set kvs. readable (snd kv) \<and> reads_back (snd kv)"
    and "length (join_with '','' (map print_member kvs)) < n"
  shows "read_members n (join_with '','' (map print_member kvs) @ CHR 0x7D # r) = Some (kvs, r)"
  using assms
proof (induction kvs arbitrary: n)
  case (Cons kv kvs)
  then obtain m where n: "n = Suc m" by (cases n) auto
  obtain k v where kv: "kv = (k, v)" by force
  have rv: "readable v" "reads_back v" using Cons.prems(2) kv by auto
  obtain c s where v: "print_json v = c # s" "\<not> json_blank c" using print_json_head [OF rv(1)] by metis
  have key: "read_chars (concat (map escape_char k) @ CHR 0x22 # t) = Some (k, t)" for t
    by (rule read_chars_quoted)
  show ?case
  proof (cases "kvs = []")
    case True
    with Cons.prems(3) rv v have "read_value m (c # s @ CHR 0x7D # r) = Some (v, CHR 0x7D # r)"
      using reads_backD [of v m "CHR 0x7D # r"] by (simp add: n kv print_member_def)
    with True key v show ?thesis
      by (simp add: n kv print_member_def quote_str_def)
  next
    case False
    let ?rest = "join_with '','' (map print_member kvs) @ CHR 0x7D # r"
    have skip: "skip_blanks ?rest = ?rest"
      using False by (cases kvs) (simp_all add: join_with_Cons print_member_def quote_str_def)
    have "length (print_json v) < length (print_member kv)" by (simp add: kv print_member_def)
    then have len: "length (print_json v) \<le> m" "length (join_with '','' (map print_member kvs)) < m"
      using Cons.prems(3) False by (simp_all add: n join_with_Cons)
    have "read_value m (c # s @ CHR '','' # ?rest) = Some (v, CHR '','' # ?rest)"
      using rv len(1) v reads_backD [of v m "CHR '','' # ?rest"] by simp
    moreover have "read_members m ?rest = Some (kvs, r)"
      using Cons.IH False Cons.prems(2) len(2) by simp
    moreover have "join_with '','' (map print_member (kv # kvs)) @ CHR 0x7D # r =
        CHR 0x22 # concat (map escape_char k) @ CHR 0x22 # CHR '':'' # c # s @ CHR '','' # ?rest"
      using False v by (simp add: join_with_Cons kv print_member_def quote_str_def)
    ultimately show ?thesis using key v by (simp add: n skip kv)
  qed
qed simp

lemma dict_of_pairs_distinct:
  assumes "distinct (map fst kvs)"
  shows "dict_of_pairs kvs = kvs"
proof -
  have "fold (\<lambda>(k, v). AList.update k v) kvs acc = acc @ kvs"
    if "distinct (map fst (acc @ kvs))" for acc
    using that
  proof (induction kvs arbitrary: acc)
    case (Cons kv kvs)
    have "AList.update (fst kv) (snd kv) acc = acc @ [kv]"
      using Cons.prems by (induction acc) auto
    with Cons show ?case by (simp add: split_beta)
  qed simp
  from this [of "[]"] assms show ?thesis by (simp add: dict_of_pairs_def)
qed

lemma readable_reads_back: "readable v \<Longrightarrow> reads_back v"
proof (induction v)
  case JNull
  then show ?case unfolding reads_back_def
    by (intro allI impI, rename_tac n r, case_tac n) (auto simp: read_value_literal [simplified])
next
  case (JBool b)
  then show ?case unfolding reads_back_def
    by (intro allI impI, rename_tac n r, case_tac n; cases b) (auto simp: read_value_literal [simplified])
next
  case (JInt i)
  have "read_number (show_int i @ r) = Some (JInt i, r)" if "closed r" for r
    using that by (simp add: read_number_closed read_number_show_int)
  then show ?case unfolding reads_back_def
    by (intro allI impI, rename_tac n r, case_tac n)
      (auto intro: read_value_number simp: show_int_not_Nil simp del: read_value.simps)
next
  case (JFloat t)
  have "read_number (t @ r) = Some (JFloat t, r)" if "closed r" for r
    using that JFloat by (simp add: read_number_closed)
  moreover have "t \<noteq> []" using JFloat by (simp add: float_text_def)
  ultimately show ?case unfolding reads_back_def
    by (intro allI impI, rename_tac n r, case_tac n)
      (auto intro: read_value_number simp del: read_value.simps)
next
  case (JStr t)
  then show ?case unfolding reads_back_def
    by (intro allI impI, rename_tac n r, case_tac n) (auto simp: quote_str_def read_chars_quoted)
next
  case (JArr xs)
  then have xs: "\<forall>x\<in>set xs. readable x \<and> reads_back x" by (auto simp: list_all_iff)
  show ?case unfolding reads_back_def
  proof (intro allI impI)
    fix n r
    assume len: "length (print_json (JArr xs)) \<le> n" and "closed r"
    then obtain m where n: "n = Suc m" by (cases n) auto
    show "read_value n (print_json (JArr xs) @ r) = Some (JArr xs, r)"
    proof (cases xs)
      case Nil
      then show ?thesis by (simp add: n)
    next
      case (Cons y ys)
      then have nonempty: "xs \<noteq> []" by simp
      from Cons obtain c s where "print_json y = c # s" "\<not> json_blank c" "c \<noteq> CHR '']''"
        using print_json_head xs by (metis list.set_intros(1))
      then obtain s' where s': "join_with '','' (map print_json xs) = c # s'" and c: "\<not> json_blank c" "c \<noteq> CHR '']''"
        using Cons by (simp add: join_with_Cons)
      have "read_items m (c # s' @ CHR '']'' # r) = Some (xs, r)"
        using read_items_print [OF nonempty xs, of m r] len s' by (simp add: n)
      with c s' show ?thesis by (simp add: n)
    qed
  qed
next
  case (JObj kvs)
  then have kvs: "\<forall>kv\<in>set kvs. readable (snd kv) \<and> reads_back (snd kv)" and dist: "distinct (map fst kvs)"
    by (auto simp: list_all_iff snds.simps)
  show ?case unfolding reads_back_def
  proof (intro allI impI)
    fix n r
    assume len: "length (print_json (JObj kvs)) \<le> n" and "closed r"
    then obtain m where n: "n = Suc m" by (cases n) auto
    show "read_value n (print_json (JObj kvs) @ r) = Some (JObj kvs, r)"
    proof (cases kvs)
      case Nil
      then show ?thesis by (simp add: n)
    next
      case (Cons y ys)
      then have nonempty: "kvs \<noteq> []" by simp
      from Cons obtain s' where s': "join_with '','' (map print_member kvs) = CHR 0x22 # s'"
        by (simp add: join_with_Cons print_member_def quote_str_def)
      have "read_members m (CHR 0x22 # s' @ CHR 0x7D # r) = Some (kvs, r)"
        using read_members_print [OF nonempty kvs, of m r] len
        by (simp add: n s' print_json_Obj del: print_json.simps(7))
      with s' show ?thesis
        by (simp add: n print_json_Obj dict_of_pairs_distinct [OF dist] del: print_json.simps(7))
    qed
  qed
qed

text \<open>Blanks around a canonical text do not matter; the text itself is read back.\<close>

lemma json_loads_print:
  assumes "readable v"
  shows "json_loads (print_json v) = Inr v"
proof -
  obtain c s where "print_json v = c # s" "\<not> json_blank c" using print_json_head [OF assms] by metis
  then have skip: "skip_blanks (print_json v) = print_json v" by simp
  have "read_value (Suc (length (print_json v))) (print_json v @ []) = Some (v, [])"
    by (rule reads_backD [OF readable_reads_back [OF assms]]) simp_all
  then show ?thesis by (simp add: json_loads_def skip)
qed

lemma sort_key_sorted: "sorted (map f xs) \<Longrightarrow> sort_key f xs = xs"
  by (induction xs) (simp_all add: insort_is_Cons)

lemma sort_keys_idem: "sort_keys (sort_keys v) = sort_keys v"
proof (induction v)
  case (JObj kvs)
  have "map (map_prod id sort_keys) (sort_key fst (map (map_prod id sort_keys) kvs)) =
      sort_key fst (map (map_prod id sort_keys) kvs)"
    using JObj by (intro map_idI) (auto simp: snds.simps)
  then show ?case by (simp add: sort_key_sorted)
qed simp_all

text \<open>
  C7. Reading back what the ledger stored: \<open>json.loads\<close> of the canonical text of a value is
  the value with its keys sorted, at every depth, and writing that again gives the same text, so a
  stored payload has the hash it was stored with. The value is one \<open>json.dumps\<close> can write: no
  repeated key, and a float's text is a number.
\<close>

theorem json_loads_canonical:
  assumes "readable v"
  shows "json_loads (canonical_json v) = Inr (sort_keys v) \<and>
    canonical_json (sort_keys v) = canonical_json v"
  using json_loads_print [OF readable_sort_keys [OF assms]]
  by (simp add: canonical_json_def sort_keys_idem)

theorem json_loads_canonical_witness:
  "json_loads (canonical_json (JObj [(''z'', JFloat ''-1.5e-05''), (''b'', JArr [JNull, JStr [CHR 0x22, CHR 0x0A], JInt (-7)])]))
   = Inr (JObj [(''b'', JArr [JNull, JStr [CHR 0x22, CHR 0x0A], JInt (-7)]), (''z'', JFloat ''-1.5e-05'')])"
proof -
  have "readable (JObj [(''z'', JFloat ''-1.5e-05''), (''b'', JArr [JNull, JStr [CHR 0x22, CHR 0x0A], JInt (-7)])])"
    by code_simp
  from json_loads_canonical [OF this] show ?thesis by simp
qed

end
