(* ===== verification/Projections.thy ===== *)
theory Projections
  imports Schema Events Validity Json_Parse
begin

text \<open>
  \<open>projections.py\<close>: the materialised projections as a function of the events. One definition per
  handler, in the order of the file; a handler reads the payload, checks the episode of what it
  refers to and runs its statements. \<open>apply_event\<close> dispatches on the kind and moves the head of
  the episode. Handlers raise \<open>KeyError\<close> for a missing field, \<open>ValueError\<close> for a reference outside
  the episode and \<open>IntegrityError\<close> for a violated constraint.
\<close>

section \<open>Reading a payload\<close>

type_synonym fields_of = "(string \<times> json) list"
type_synonym reading = "fields_of \<Rightarrow> json result"

definition payload :: "event \<Rightarrow> fields_of" where
  "payload e = (case ev_payload e of JObj kvs \<Rightarrow> kvs | _ \<Rightarrow> [])"

definition item :: "string \<Rightarrow> reading" where
  "item k kvs = dict_item kvs k"

definition get_or :: "string \<Rightarrow> json \<Rightarrow> reading" where
  "get_or k v kvs = Inr (dict_get kvs k v)"

definition just :: "json \<Rightarrow> reading" where
  "just v kvs = Inr v"

text \<open>\<open>str(...)\<close>, \<open>canonical_json(...)\<close> and \<open>int(bool(...))\<close> of a reading\<close>

definition as_text :: "reading \<Rightarrow> reading" where
  "as_text f kvs = and_then (f kvs) (\<lambda>v. Inr (JStr (py_str v)))"

definition as_canonical :: "reading \<Rightarrow> reading" where
  "as_canonical f kvs = and_then (f kvs) (\<lambda>v. Inr (JStr (canonical_json v)))"

definition as_flag :: "reading \<Rightarrow> reading" where
  "as_flag f kvs = and_then (f kvs) (\<lambda>v. Inr (JInt (if truthy v then 1 else 0)))"

text \<open>\<open>int(value)\<close>\<close>

definition truncate :: "rat \<Rightarrow> int" where
  "truncate q = (if q < 0 then - \<lfloor>- q\<rfloor> else \<lfloor>q\<rfloor>)"

fun py_int :: "json \<Rightarrow> int result" where
  "py_int (JInt i) = Inr i"
| "py_int (JBool b) = Inr (if b then 1 else 0)"
| "py_int (JFloat t) =
     (case read_float t of Some (Finite q) \<Rightarrow> Inr (truncate q)
      | _ \<Rightarrow> Inl (ValueError ''cannot convert float to integer''))"
| "py_int (JStr s) =
     (let (neg, ds) = split_sign (strip s) in
      if digit_run ds then Inr (if neg then - int (digit_value ds) else int (digit_value ds))
      else Inl (ValueError ''invalid literal for int() with base 10''))"
| "py_int v = Inl (TypeError ''int() argument must be a string or a number'')"

definition as_int :: "reading \<Rightarrow> reading" where
  "as_int f kvs = and_then (f kvs) (\<lambda>v. and_then (py_int v) (\<lambda>i. Inr (JInt i)))"

text \<open>A value that is NULL when the field is missing or null.\<close>

definition canonical_or_null :: "string \<Rightarrow> reading" where
  "canonical_or_null k kvs =
     Inr (if dict_get kvs k JNull = JNull then JNull else JStr (canonical_json (dict_get kvs k JNull)))"

fun read_columns :: "(string \<times> reading) list \<Rightarrow> fields_of \<Rightarrow> (string \<times> json) list result" where
  "read_columns [] kvs = Inr []"
| "read_columns ((c, f) # cs) kvs =
     and_then (f kvs) (\<lambda>v. and_then (read_columns cs kvs) (\<lambda>vs. Inr ((c, v) # vs)))"

text \<open>Iterating a field, and subscripting an element of it.\<close>

definition elements :: "json \<Rightarrow> json list result" where
  "elements v =
     (case v of
        JArr xs \<Rightarrow> Inr xs
      | JStr s \<Rightarrow> Inr (map (\<lambda>c. JStr [c]) s)
      | JObj kvs \<Rightarrow> Inr (map (JStr \<circ> fst) kvs)
      | _ \<Rightarrow> Inl (TypeError ''object is not iterable''))"

definition object_of :: "json \<Rightarrow> fields_of result" where
  "object_of v = (case v of JObj kvs \<Rightarrow> Inr kvs
     | _ \<Rightarrow> Inl (TypeError ''object is not subscriptable''))"

text \<open>A parameter compared with a TEXT column is converted like a value of the column.\<close>

definition text_param :: "json \<Rightarrow> json" where
  "text_param v = (case sql_bind v of Inr w \<Rightarrow> convert TextCol w | Inl _ \<Rightarrow> JNull)"

definition mapping_of :: "json \<Rightarrow> fields_of result" where
  "mapping_of v = (case v of JObj kvs \<Rightarrow> Inr kvs
     | _ \<Rightarrow> Inl (ValueError ''event record payload must be a mapping''))"

definition record_for_event :: "event \<Rightarrow> fields_of result" where
  "record_for_event e =
     and_then (mapping_of (dict_get (payload e) ''record'' JNull)) (\<lambda>r.
       if py_str (dict_get r ''episode_id'' (JStr [])) = ev_episode_id e then Inr r
       else Inl (ValueError ''event record does not belong to event episode''))"

section \<open>Checks\<close>

definition entity_in_episode :: "db \<Rightarrow> string \<Rightarrow> string \<Rightarrow> string \<Rightarrow> bool" where
  "entity_in_episode d t i ep =
     (case sql_first t (has_id i) d of
        None \<Rightarrow> False | Some r \<Rightarrow> py_str (cell r ''episode_id'') = ep)"

definition require_entity :: "string \<Rightarrow> string \<Rightarrow> string \<Rightarrow> db \<Rightarrow> db result" where
  "require_entity t i ep d =
     (if entity_in_episode d t i ep then Inr d
      else Inl (ValueError (t @ '' entity does not belong to event episode'')))"

text \<open>The entity named by a field of the record.\<close>

definition require_field :: "string \<Rightarrow> string \<Rightarrow> fields_of \<Rightarrow> string \<Rightarrow> db \<Rightarrow> db result" where
  "require_field t k r ep d = and_then (item k r) (\<lambda>v. require_entity t (py_str v) ep d)"

definition require_episode :: "string \<Rightarrow> db \<Rightarrow> db result" where
  "require_episode ep d =
     (if sql_first ''episodes'' (has_id ep) d = None
      then Inl (ValueError ''event episode does not exist'') else Inr d)"

abbreviation insert_into :: "string \<Rightarrow> (string \<times> json) list \<Rightarrow> db \<Rightarrow> db result" where
  "insert_into t vs d \<equiv> sql_insert ledger_schema t vs d"

definition insert_record :: "string \<Rightarrow> (string \<times> reading) list \<Rightarrow> fields_of \<Rightarrow> db \<Rightarrow> db result" where
  "insert_record t cols r d = and_then (read_columns cols r) (\<lambda>vs. sql_insert ledger_schema t vs d)"

definition update_where ::
  "string \<Rightarrow> (string \<times> reading) list \<Rightarrow> fields_of \<Rightarrow> (row \<Rightarrow> bool) \<Rightarrow> db \<Rightarrow> db result" where
  "update_where t cols r p d =
     and_then (read_columns cols r) (\<lambda>vs. sql_update ledger_schema t vs p d)"

definition columns_of :: "string list \<Rightarrow> (string \<times> reading) list" where
  "columns_of ks = map (\<lambda>k. (k, item k)) ks"

section \<open>Episodes\<close>

definition episode_created :: "fields_of \<Rightarrow> db \<Rightarrow> db result" where
  "episode_created =
     insert_record ''episodes''
       ([(''id'', item ''id''), (''episode_key'', item ''key'')]
        @ columns_of [''session_id'', ''task_id'', ''platform'', ''model'', ''default_stakes'',
            ''current_turn'', ''created_at'', ''updated_at'', ''compatibility_mode'']
        @ [(''llm_calls_used'', get_or ''llm_calls_used'' (JInt 0)),
           (''input_tokens_used'', get_or ''input_tokens_used'' (JInt 0)),
           (''output_tokens_used'', get_or ''output_tokens_used'' (JInt 0)),
           (''state'', get_or ''state'' (JStr ''active''))])"

definition apply_episode_created :: "event \<Rightarrow> db \<Rightarrow> db result" where
  "apply_episode_created e d =
     and_then (mapping_of (dict_get (payload e) ''record'' JNull)) (\<lambda>r.
       if py_str (dict_get r ''id'' (JStr [])) = ev_episode_id e then episode_created r d
       else Inl (ValueError ''episode record id does not match event episode''))"

definition apply_episode_turn_started :: "event \<Rightarrow> db \<Rightarrow> db result" where
  "apply_episode_turn_started e =
     update_where ''episodes''
       [(''current_turn'', as_int (item ''current_turn'')), (''updated_at'', as_text (item ''updated_at''))]
       (payload e) (has_id (ev_episode_id e))"

definition apply_episode_stakes_changed :: "event \<Rightarrow> db \<Rightarrow> db result" where
  "apply_episode_stakes_changed e =
     update_where ''episodes''
       [(''default_stakes'', as_text (item ''to'')), (''updated_at'', just (JStr (ev_timestamp e)))]
       (payload e) (has_id (ev_episode_id e))"

text \<open>\<open>COALESCE(?, episode_key)\<close> keeps the key unless a new one is given.\<close>

definition apply_episode_state_changed :: "event \<Rightarrow> db \<Rightarrow> db result" where
  "apply_episode_state_changed e =
     update_where ''episodes''
       ([(''state'', as_text (get_or ''state'' (JStr ''finalized''))),
         (''updated_at'', as_text (item ''updated_at''))]
        @ (if truthy (dict_get (payload e) ''episode_key'' JNull)
           then [(''episode_key'', as_text (item ''episode_key''))] else []))
       (payload e) (has_id (ev_episode_id e))"

section \<open>Sources and evidence\<close>

definition source_registered :: "fields_of \<Rightarrow> db \<Rightarrow> db result" where
  "source_registered =
     insert_record ''sources''
       (columns_of [''id'', ''episode_id'', ''kind'', ''integrity'', ''name'', ''root'']
        @ [(''competence_json'', as_canonical (get_or ''competence'' (JObj []))),
           (''stats_json'', as_canonical (get_or ''stats'' (JObj [])))])"

definition apply_source_registered :: "event \<Rightarrow> db \<Rightarrow> db result" where
  "apply_source_registered e d = and_then (record_for_event e) (\<lambda>r. source_registered r d)"

definition apply_source_stats_updated :: "event \<Rightarrow> db \<Rightarrow> db result" where
  "apply_source_stats_updated e d =
     and_then (require_entity ''sources'' (ev_aggregate_id e) (ev_episode_id e) d)
       (update_where ''sources''
          [(''stats_json'', as_canonical (item ''stats'')),
           (''competence_json'', as_canonical (item ''competence''))]
          (payload e) (has_id (ev_aggregate_id e)))"

definition evidence_ingested :: "fields_of \<Rightarrow> db \<Rightarrow> db result" where
  "evidence_ingested r d =
     and_then (item ''source_id'' r) (\<lambda>src. and_then (item ''episode_id'' r) (\<lambda>ep.
     and_then (require_entity ''sources'' (py_str src) (py_str ep) d)
       (insert_record ''evidence''
          (columns_of [''id'', ''episode_id'', ''kind'', ''source_id'']
           @ [(''payload'', get_or ''payload'' JNull), (''content_hash'', item ''content_hash''),
              (''meta_json'', as_canonical (get_or ''metadata'' (JObj []))),
              (''observed_at'', item ''observed_at''),
              (''redacted'', as_flag (get_or ''redacted'' (JBool False)))]) r)))"

definition apply_evidence_ingested :: "event \<Rightarrow> db \<Rightarrow> db result" where
  "apply_evidence_ingested e d = and_then (record_for_event e) (\<lambda>r. evidence_ingested r d)"

section \<open>Justifications\<close>

fun insert_premises :: "json \<Rightarrow> nat \<Rightarrow> json list \<Rightarrow> db \<Rightarrow> db result" where
  "insert_premises j n [] d = Inr d"
| "insert_premises j n (p # ps) d =
     and_then (insert_into ''justification_premises''
                 [(''justification_id'', j), (''ordinal'', JInt (int n)), (''premise_belief_id'', p)] d)
       (insert_premises j (Suc n) ps)"

definition justification_added :: "string \<Rightarrow> fields_of \<Rightarrow> db \<Rightarrow> db result" where
  "justification_added ep r d =
     and_then (require_field ''beliefs'' ''belief_id'' r ep d) (\<lambda>d.
     and_then (elements (dict_get r ''premises'' (JArr []))) (\<lambda>ps.
     and_then (fold_result (\<lambda>p. require_entity ''beliefs'' (py_str p) ep) ps d) (\<lambda>d.
     and_then (insert_record ''justifications''
                 [(''id'', item ''id''), (''episode_id'', just (JStr ep)),
                  (''belief_id'', item ''belief_id''), (''warrant'', item ''warrant''),
                  (''audit_json'', canonical_or_null ''audit''),
                  (''alternatives_json'', as_canonical (get_or ''alternatives'' (JArr [])))] r d) (\<lambda>d.
     and_then (item ''id'' r) (\<lambda>i. insert_premises i 0 ps d)))))"

definition apply_justification_added :: "event \<Rightarrow> db \<Rightarrow> db result" where
  "apply_justification_added e d =
     and_then (mapping_of (dict_get (payload e) ''record'' JNull))
       (\<lambda>r. justification_added (ev_episode_id e) r d)"

definition apply_justification_audited :: "event \<Rightarrow> db \<Rightarrow> db result" where
  "apply_justification_audited e d =
     and_then (require_entity ''justifications'' (ev_aggregate_id e) (ev_episode_id e) d)
       (update_where ''justifications'' [(''audit_json'', as_canonical (item ''audit''))]
          (payload e) (has_id (ev_aggregate_id e)))"

section \<open>Beliefs\<close>

definition fts_replace :: "bool \<Rightarrow> json \<Rightarrow> json \<Rightarrow> json \<Rightarrow> json \<Rightarrow> db \<Rightarrow> db result" where
  "fts_replace fts i ep st text d =
     (if \<not> fts then Inr d
      else insert_into ''beliefs_fts''
             [(''belief_id'', i), (''episode_id'', ep), (''status'', st), (''content'', text)]
             (sql_delete ''beliefs_fts'' (\<lambda>r. cell r ''belief_id'' = i) d))"

definition insert_evidence_ref :: "json \<Rightarrow> json \<Rightarrow> db \<Rightarrow> db result" where
  "insert_evidence_ref i ref d =
     and_then (object_of ref) (\<lambda>kvs. and_then (item ''evidence_id'' kvs) (\<lambda>ev.
     and_then (canonical_or_null ''span'' kvs) (\<lambda>sp.
       insert_into ''belief_evidence'' [(''belief_id'', i), (''evidence_id'', ev), (''span_json'', sp)] d)))"

definition require_evidence_ref :: "string \<Rightarrow> json \<Rightarrow> db \<Rightarrow> db result" where
  "require_evidence_ref ep ref d =
     and_then (object_of ref) (\<lambda>kvs. require_field ''evidence'' ''evidence_id'' kvs ep d)"

definition insert_belief :: "string \<Rightarrow> fields_of \<Rightarrow> db \<Rightarrow> db result" where
  "insert_belief fingerprint =
     insert_record ''beliefs''
       (columns_of [''id'', ''episode_id'', ''content'', ''normalized_content'']
        @ [(''content_fingerprint'', just (JStr fingerprint))]
        @ columns_of [''pramana'', ''source_id'']
        @ [(''qualifiers_json'', as_canonical (get_or ''qualifiers'' (JObj [])))]
        @ columns_of [''perishability'', ''observed_at'', ''stakes'', ''status'', ''admission_status'']
        @ [(''domain'', get_or ''domain'' (JStr ''general'')),
           (''confidence'', get_or ''confidence'' JNull),
           (''corroboration'', as_int (get_or ''corroboration'' (JInt 0))),
           (''validity_json'', as_canonical (get_or ''validity'' (JObj [])))])"

definition index_belief :: "string \<Rightarrow> fields_of \<Rightarrow> db \<Rightarrow> db result" where
  "index_belief fingerprint r d =
     (let root = (case sql_first ''sources'' (\<lambda>s. cell s ''id'' = text_param (dict_get r ''source_id'' JNull)) d of
                    None \<Rightarrow> JStr ''unknown'' | Some s \<Rightarrow> JStr (py_str (cell s ''root'')))
      in and_then (insert_record ''source_roots''
              [(''episode_id'', item ''episode_id''), (''belief_id'', item ''id''),
               (''root'', just root), (''transport'', get_or ''transport'' JNull)] r d)
           (insert_record ''content_fingerprints''
              [(''episode_id'', item ''episode_id''), (''belief_id'', item ''id''),
               (''source_root'', just root), (''fingerprint'', just (JStr fingerprint))] r))"

definition belief_admitted :: "(string \<Rightarrow> string) \<Rightarrow> bool \<Rightarrow> fields_of \<Rightarrow> db \<Rightarrow> db result" where
  "belief_admitted sha fts r d =
     and_then (item ''episode_id'' r) (\<lambda>ep.
     and_then (require_field ''sources'' ''source_id'' r (py_str ep) d) (\<lambda>d.
     and_then (elements (dict_get r ''evidence'' (JArr []))) (\<lambda>refs.
     and_then (fold_result (require_evidence_ref (py_str ep)) refs d) (\<lambda>d.
     and_then (item ''normalized_content'' r) (\<lambda>content.
     let fingerprint = sha (py_str content) in
     and_then (insert_belief fingerprint r d) (\<lambda>d.
     and_then (item ''id'' r) (\<lambda>i.
     and_then (fold_result (insert_evidence_ref i) refs d) (\<lambda>d.
     and_then (elements (dict_get r ''justifications'' (JArr []))) (\<lambda>js.
     and_then (fold_result (\<lambda>j d. and_then (object_of j) (\<lambda>kvs.
                 justification_added (py_str ep) kvs d)) js d) (\<lambda>d.
     and_then (index_belief fingerprint r d) (\<lambda>d.
     and_then (item ''status'' r) (\<lambda>st. and_then (item ''content'' r) (\<lambda>text.
       fts_replace fts i ep st text d)))))))))))))"

definition apply_belief_admitted :: "(string \<Rightarrow> string) \<Rightarrow> bool \<Rightarrow> event \<Rightarrow> db \<Rightarrow> db result" where
  "apply_belief_admitted sha fts e d =
     and_then (record_for_event e) (\<lambda>r. belief_admitted sha fts r d)"

definition belief_status_changed :: "bool \<Rightarrow> string \<Rightarrow> json \<Rightarrow> db \<Rightarrow> db result" where
  "belief_status_changed fts i st d =
     and_then (sql_update ledger_schema ''beliefs'' [(''status'', st)] (has_id i) d) (\<lambda>d.
       case sql_first ''beliefs'' (has_id i) d of
         None \<Rightarrow> Inr d
       | Some b \<Rightarrow> fts_replace fts (JStr i) (JStr (py_str (cell b ''episode_id''))) st
                     (JStr (py_str (cell b ''content''))) d)"

definition apply_belief_status_changed :: "bool \<Rightarrow> event \<Rightarrow> db \<Rightarrow> db result" where
  "apply_belief_status_changed fts e d =
     and_then (require_entity ''beliefs'' (ev_aggregate_id e) (ev_episode_id e) d) (\<lambda>d.
     and_then (as_text (item ''to'') (payload e)) (\<lambda>st.
       belief_status_changed fts (ev_aggregate_id e) st d))"

definition apply_belief_admission_changed :: "event \<Rightarrow> db \<Rightarrow> db result" where
  "apply_belief_admission_changed e d =
     and_then (require_entity ''beliefs'' (ev_aggregate_id e) (ev_episode_id e) d)
       (update_where ''beliefs'' [(''admission_status'', as_text (item ''to''))]
          (payload e) (has_id (ev_aggregate_id e)))"

definition apply_belief_observation_refreshed :: "event \<Rightarrow> db \<Rightarrow> db result" where
  "apply_belief_observation_refreshed e d =
     (let p = payload e; i = JStr (ev_aggregate_id e) in
      and_then (require_entity ''beliefs'' (ev_aggregate_id e) (ev_episode_id e) d) (\<lambda>d.
      and_then (require_field ''evidence'' ''evidence_id'' p (ev_episode_id e) d) (\<lambda>d.
      and_then (update_where ''beliefs'' [(''observed_at'', as_text (item ''observed_at''))] p
                  (has_id (ev_aggregate_id e)) d) (\<lambda>d.
      and_then (canonical_or_null ''span'' p) (\<lambda>sp.
      and_then (as_text (item ''evidence_id'') p) (\<lambda>ev.
        if list_ex (\<lambda>r. cell r ''belief_id'' = i \<and> cell r ''evidence_id'' = ev \<and> cell r ''span_json'' = sp)
             (d ''belief_evidence'')
        then Inr d
        else insert_into ''belief_evidence''
               [(''belief_id'', i), (''evidence_id'', ev), (''span_json'', sp)] d))))))"

definition apply_belief_corroboration_changed :: "event \<Rightarrow> db \<Rightarrow> db result" where
  "apply_belief_corroboration_changed e d =
     and_then (require_entity ''beliefs'' (ev_aggregate_id e) (ev_episode_id e) d)
       (update_where ''beliefs'' [(''corroboration'', as_int (item ''to''))]
          (payload e) (has_id (ev_aggregate_id e)))"

section \<open>Supports and defeats\<close>

definition support_added :: "fields_of \<Rightarrow> db \<Rightarrow> db result" where
  "support_added r d =
     and_then (item ''episode_id'' r) (\<lambda>ep.
     and_then (require_field ''beliefs'' ''belief_id'' r (py_str ep) d) (\<lambda>d.
     and_then (require_field ''evidence'' ''evidence_id'' r (py_str ep) d)
       (insert_record ''ingestion_supports''
          (columns_of [''id'', ''episode_id'', ''belief_id'', ''evidence_id'']
           @ [(''validity_json'', as_canonical (get_or ''validity'' (JObj []))),
              (''active'', as_flag (get_or ''active'' (JBool True)))]) r)))"

definition apply_support_added :: "event \<Rightarrow> db \<Rightarrow> db result" where
  "apply_support_added e d = and_then (record_for_event e) (\<lambda>r. support_added r d)"

definition apply_support_activity_changed :: "event \<Rightarrow> db \<Rightarrow> db result" where
  "apply_support_activity_changed e d =
     and_then (require_entity ''ingestion_supports'' (ev_aggregate_id e) (ev_episode_id e) d)
       (update_where ''ingestion_supports'' [(''active'', as_flag (item ''active''))]
          (payload e) (has_id (ev_aggregate_id e)))"

definition defeat_added :: "fields_of \<Rightarrow> db \<Rightarrow> db result" where
  "defeat_added r d =
     and_then (item ''episode_id'' r) (\<lambda>ep.
     and_then (require_field ''beliefs'' ''attacker'' r (py_str ep) d) (\<lambda>d.
     and_then (item ''target'' r) (\<lambda>tgt.
       if entity_in_episode d ''beliefs'' (py_str tgt) (py_str ep)
          \<or> entity_in_episode d ''justifications'' (py_str tgt) (py_str ep)
       then insert_record ''defeats''
              (columns_of [''id'', ''episode_id'', ''attacker'', ''target'', ''kind'', ''basis'']
               @ [(''active'', as_flag (get_or ''active'' (JBool False)))]) r d
       else Inl (ValueError ''defeat target does not belong to event episode''))))"

definition apply_defeat_added :: "event \<Rightarrow> db \<Rightarrow> db result" where
  "apply_defeat_added e d = and_then (record_for_event e) (\<lambda>r. defeat_added r d)"

definition apply_defeat_activity_changed :: "event \<Rightarrow> db \<Rightarrow> db result" where
  "apply_defeat_activity_changed e d =
     and_then (require_entity ''defeats'' (ev_aggregate_id e) (ev_episode_id e) d)
       (update_where ''defeats'' [(''active'', as_flag (item ''active''))]
          (payload e) (has_id (ev_aggregate_id e)))"

section \<open>Verification, conflicts and retractions\<close>

definition verification_created :: "fields_of \<Rightarrow> db \<Rightarrow> db result" where
  "verification_created r d =
     and_then (item ''belief_id'' r) (\<lambda>b. and_then (item ''episode_id'' r) (\<lambda>ep.
     and_then (require_entity ''beliefs'' (py_str b) (py_str ep) d)
       (insert_record ''verification_tasks''
          (columns_of [''id'', ''episode_id'', ''belief_id'', ''method'', ''k_required'', ''budget'']
           @ [(''result'', get_or ''result'' JNull), (''state'', get_or ''state'' (JStr ''open''))]) r)))"

definition apply_verification_created :: "event \<Rightarrow> db \<Rightarrow> db result" where
  "apply_verification_created e d = and_then (record_for_event e) (\<lambda>r. verification_created r d)"

definition apply_verification_completed :: "event \<Rightarrow> db \<Rightarrow> db result" where
  "apply_verification_completed e d =
     and_then (require_entity ''verification_tasks'' (ev_aggregate_id e) (ev_episode_id e) d)
       (update_where ''verification_tasks''
          [(''result'', get_or ''result'' JNull),
           (''state'', as_text (get_or ''state'' (JStr ''completed'')))]
          (payload e) (has_id (ev_aggregate_id e)))"

definition conflict_opened :: "fields_of \<Rightarrow> db \<Rightarrow> db result" where
  "conflict_opened r d =
     and_then (item ''episode_id'' r) (\<lambda>ep.
     and_then (require_field ''beliefs'' ''left_belief_id'' r (py_str ep) d) (\<lambda>d.
     and_then (require_field ''beliefs'' ''right_belief_id'' r (py_str ep) d) (\<lambda>d.
     and_then (require_field ''verification_tasks'' ''verification_task_id'' r (py_str ep) d)
       (insert_record ''conflicts''
          (columns_of [''id'', ''episode_id'', ''left_belief_id'', ''right_belief_id'']
           @ [(''normalized_scope_json'', as_canonical (get_or ''normalized_scope'' (JObj []))),
              (''verification_task_id'', item ''verification_task_id''),
              (''state'', get_or ''state'' (JStr ''open''))]) r))))"

definition apply_conflict_opened :: "event \<Rightarrow> db \<Rightarrow> db result" where
  "apply_conflict_opened e d = and_then (record_for_event e) (\<lambda>r. conflict_opened r d)"

definition apply_conflict_resolved :: "event \<Rightarrow> db \<Rightarrow> db result" where
  "apply_conflict_resolved e d =
     and_then (require_entity ''conflicts'' (ev_aggregate_id e) (ev_episode_id e) d)
       (sql_update ledger_schema ''conflicts'' [(''state'', JStr ''resolved'')]
          (has_id (ev_aggregate_id e)))"

definition retraction_created :: "fields_of \<Rightarrow> db \<Rightarrow> db result" where
  "retraction_created r d =
     and_then (item ''episode_id'' r) (\<lambda>ep.
     and_then (require_field ''beliefs'' ''defeated_belief_id'' r (py_str ep) d) (\<lambda>d.
     and_then (elements (dict_get r ''descendants'' (JArr []))) (\<lambda>ds.
     and_then (fold_result (\<lambda>x. require_entity ''beliefs'' (py_str x) (py_str ep)) ds d)
       (insert_record ''retraction_notices''
          (columns_of [''id'', ''episode_id'', ''defeated_belief_id'', ''cause'']
           @ [(''descendants_json'', as_canonical (get_or ''descendants'' (JArr [])))]
           @ columns_of [''created_turn'', ''ttl_turns'']
           @ [(''state'', get_or ''state'' (JStr ''active''))]) r))))"

definition apply_retraction_created :: "event \<Rightarrow> db \<Rightarrow> db result" where
  "apply_retraction_created e d = and_then (record_for_event e) (\<lambda>r. retraction_created r d)"

definition ends_with :: "string \<Rightarrow> string \<Rightarrow> bool" where
  "ends_with suffix s = starts_with (rev suffix) (rev s)"

definition apply_retraction_state_changed :: "event \<Rightarrow> db \<Rightarrow> db result" where
  "apply_retraction_state_changed e d =
     (let st = (if ends_with ''ACKNOWLEDGED'' (ev_kind e) then ''acknowledged'' else ''expired'') in
      and_then (require_entity ''retraction_notices'' (ev_aggregate_id e) (ev_episode_id e) d)
        (sql_update ledger_schema ''retraction_notices'' [(''state'', JStr st)]
           (has_id (ev_aggregate_id e))))"

section \<open>Audit tables\<close>

definition render_belief :: "string \<Rightarrow> json \<Rightarrow> db \<Rightarrow> db result" where
  "render_belief ep v d =
     and_then (object_of v) (\<lambda>r.
     and_then (require_field ''beliefs'' ''belief_id'' r ep d) (\<lambda>d.
     and_then (read_columns ((''episode_id'', just (JStr ep))
                 # columns_of [''belief_id'', ''request_id'', ''turn_number'', ''rendered_at'']) r)
       (\<lambda>vs. sql_insert_or_ignore ledger_schema ''rendered_beliefs'' vs d)))"

definition apply_context_compiled :: "event \<Rightarrow> db \<Rightarrow> db result" where
  "apply_context_compiled e d =
     and_then (elements (dict_get (payload e) ''rendered'' (JArr [])))
       (\<lambda>vs. fold_result (render_belief (ev_episode_id e)) vs d)"

definition component_verdict :: "fields_of \<Rightarrow> db \<Rightarrow> db result" where
  "component_verdict r d =
     and_then (if dict_get r ''belief_id'' JNull = JNull then Inr d
               else and_then (item ''episode_id'' r) (\<lambda>ep.
                      require_entity ''beliefs'' (py_str (dict_get r ''belief_id'' JNull)) (py_str ep) d))
       (insert_record ''component_verdicts''
          (columns_of [''id'', ''episode_id'', ''component'', ''purpose'', ''input_hash'', ''outcome'']
           @ [(''belief_id'', get_or ''belief_id'' JNull),
              (''detail_json'', as_canonical (get_or ''detail'' (JObj [])))]) r)"

definition apply_component_verdict_recorded :: "event \<Rightarrow> db \<Rightarrow> db result" where
  "apply_component_verdict_recorded e d = and_then (record_for_event e) (\<lambda>r. component_verdict r d)"

definition apply_unpromoted_evidence_added :: "event \<Rightarrow> db \<Rightarrow> db result" where
  "apply_unpromoted_evidence_added e d =
     (let p = payload e in
      and_then (require_field ''evidence'' ''evidence_id'' p (ev_episode_id e) d) (\<lambda>d.
      and_then (read_columns
                  [(''episode_id'', just (JStr (ev_episode_id e))),
                   (''evidence_id'', as_text (item ''evidence_id'')),
                   (''source_profile'', as_text (item ''source_profile'')),
                   (''state'', just (JStr ''open'')),
                   (''reason'', as_text (get_or ''reason'' (JStr ''lazy_extraction'')))] p)
        (\<lambda>vs. sql_insert_or_replace ledger_schema ''unpromoted_evidence'' vs d)))"

definition apply_unpromoted_evidence_finished :: "event \<Rightarrow> db \<Rightarrow> db result" where
  "apply_unpromoted_evidence_finished e d =
     (let st = (if ends_with ''RESOLVED'' (ev_kind e) then ''resolved'' else ''failed''); p = payload e in
      and_then (read_columns
                  [(''state'', just (JStr st)), (''reason'', as_text (get_or ''reason'' (JStr [])))] p)
        (\<lambda>vs. and_then (as_text (item ''evidence_id'') p) (\<lambda>ev.
          sql_update ledger_schema ''unpromoted_evidence'' vs
            (\<lambda>r. cell r ''episode_id'' = JStr (ev_episode_id e) \<and> cell r ''evidence_id'' = ev) d)))"

definition event_columns :: "event \<Rightarrow> (string \<times> reading) list" where
  "event_columns e =
     [(''event_id'', just (JStr (ev_id e))), (''episode_id'', just (JStr (ev_episode_id e)))]"

definition apply_lint_recorded :: "event \<Rightarrow> db \<Rightarrow> db result" where
  "apply_lint_recorded e =
     insert_record ''lint_reports''
       (event_columns e
        @ [(''response_hash'', as_text (item ''response_hash'')), (''passed'', as_flag (item ''passed'')),
           (''report_json'', as_canonical (item ''report''))]) (payload e)"

definition apply_gate_decided :: "event \<Rightarrow> db \<Rightarrow> db result" where
  "apply_gate_decided e =
     insert_record ''gate_decisions''
       (event_columns e
        @ map (\<lambda>k. (k, as_text (item k))) [''tool_name'', ''args_hash'', ''outcome'', ''reason_code'']
        @ [(''detail_json'', as_canonical (get_or ''detail'' (JObj [])))]) (payload e)"

definition apply_assistant_response_recorded :: "event \<Rightarrow> db \<Rightarrow> db result" where
  "apply_assistant_response_recorded e =
     insert_record ''assistant_responses''
       (event_columns e
        @ [(''turn_id'', as_text (get_or ''turn_id'' (JStr []))),
           (''content_hash'', as_text (item ''content_hash'')), (''content'', as_text (item ''content''))])
       (payload e)"

section \<open>Statistics of a source\<close>

text \<open>\<open>d.get(key, 0)\<close> of a value that may not be a dictionary, as an integer\<close>

definition get_int :: "json \<Rightarrow> string \<Rightarrow> int result" where
  "get_int v k =
     (case v of JObj kvs \<Rightarrow> py_int (dict_get kvs k (JInt 0))
      | _ \<Rightarrow> Inl (AttributeError ''get''))"

definition add_stats :: "json \<Rightarrow> json \<Rightarrow> json result" where
  "add_stats existing delta =
     and_then (fold_result (\<lambda>k acc.
         and_then (get_int existing k) (\<lambda>a. and_then (get_int delta k) (\<lambda>b.
           Inr (acc @ [(k, JInt (max 0 (a + b)))]))))
       [''confirmed'', ''defeated'', ''samples''] [])
     (\<lambda>kvs. Inr (JObj kvs))"

definition apply_source_stats_delta :: "event \<Rightarrow> db \<Rightarrow> db result" where
  "apply_source_stats_delta e d =
     and_then (require_entity ''sources'' (ev_aggregate_id e) (ev_episode_id e) d) (\<lambda>d.
       case sql_first ''sources'' (has_id (ev_aggregate_id e)) d of
         None \<Rightarrow> Inr d
       | Some s \<Rightarrow>
           and_then (json_loads (py_str (cell s ''stats_json''))) (\<lambda>existing.
           and_then (add_stats existing (dict_get (payload e) ''delta'' (JObj []))) (\<lambda>updated.
             sql_update ledger_schema ''sources'' [(''stats_json'', JStr (canonical_json updated))]
               (has_id (ev_aggregate_id e)) d)))"

section \<open>Use of the model\<close>

text \<open>\<open>add\<close> stands for the addition of SQLite, \<open>c = c + ?\<close>.\<close>

definition add_to ::
  "(json \<Rightarrow> json \<Rightarrow> json) \<Rightarrow> table_schema \<Rightarrow> string \<Rightarrow> json \<Rightarrow> row \<Rightarrow> row" where
  "add_to add ts c v r = assign ts [(c, add (cell r c) v)] r"

definition llm_usage :: "(json \<Rightarrow> json \<Rightarrow> json) \<Rightarrow> fields_of \<Rightarrow> db \<Rightarrow> db result" where
  "llm_usage add r d =
     and_then (insert_record ''llm_usage''
         (columns_of [''id'', ''episode_id'', ''purpose'', ''provider'', ''model'', ''input_tokens'',
            ''output_tokens'']
          @ [(''cost'', get_or ''cost'' JNull)]
          @ columns_of [''latency_ms'', ''turn_number'', ''outcome'']) r d) (\<lambda>d.
     and_then (item ''input_tokens'' r) (\<lambda>i. and_then (item ''output_tokens'' r) (\<lambda>out.
     and_then (item ''episode_id'' r) (\<lambda>ep.
     and_then (sql_bind i) (\<lambda>i. and_then (sql_bind out) (\<lambda>out.
     let ts = ledger_schema ''episodes'' in
       update_rows ledger_schema ''episodes'' (\<lambda>r. cell r ''id'' = text_param ep)
         (add_to add ts ''output_tokens_used'' out \<circ> add_to add ts ''input_tokens_used'' i
          \<circ> add_to add ts ''llm_calls_used'' (JInt 1)) d))))))"

definition apply_llm_usage_recorded :: "(json \<Rightarrow> json \<Rightarrow> json) \<Rightarrow> event \<Rightarrow> db \<Rightarrow> db result" where
  "apply_llm_usage_recorded add e d = and_then (record_for_event e) (\<lambda>r. llm_usage add r d)"

section \<open>One event\<close>

text \<open>
  What the handlers use of the outside: SHA-256, whether the SQLite build has the full-text index,
  and SQLite's addition.
\<close>

record storage =
  st_sha :: "string \<Rightarrow> string"
  st_fts :: bool
  st_plus :: "json \<Rightarrow> json \<Rightarrow> json"

definition EVENT_HANDLERS :: "(string \<times> (storage \<Rightarrow> event \<Rightarrow> db \<Rightarrow> db result)) list" where
  "EVENT_HANDLERS =
     [(''EPISODE_CREATED'', \<lambda>X. apply_episode_created),
      (''EPISODE_TURN_STARTED'', \<lambda>X. apply_episode_turn_started),
      (''EPISODE_STAKES_CHANGED'', \<lambda>X. apply_episode_stakes_changed),
      (''EPISODE_FINALIZED'', \<lambda>X. apply_episode_state_changed),
      (''EPISODE_RESET'', \<lambda>X. apply_episode_state_changed),
      (''SOURCE_REGISTERED'', \<lambda>X. apply_source_registered),
      (''SOURCE_STATS_UPDATED'', \<lambda>X. apply_source_stats_updated),
      (''SOURCE_STATS_DELTA'', \<lambda>X. apply_source_stats_delta),
      (''EVIDENCE_INGESTED'', \<lambda>X. apply_evidence_ingested),
      (''BELIEF_ADMITTED'', \<lambda>X. apply_belief_admitted (st_sha X) (st_fts X)),
      (''INGESTION_SUPPORT_ADDED'', \<lambda>X. apply_support_added),
      (''INGESTION_SUPPORT_ACTIVITY_CHANGED'', \<lambda>X. apply_support_activity_changed),
      (''JUSTIFICATION_ADDED'', \<lambda>X. apply_justification_added),
      (''JUSTIFICATION_AUDITED'', \<lambda>X. apply_justification_audited),
      (''DEFEAT_ADDED'', \<lambda>X. apply_defeat_added),
      (''DEFEAT_ACTIVITY_CHANGED'', \<lambda>X. apply_defeat_activity_changed),
      (''BELIEF_STATUS_CHANGED'', \<lambda>X. apply_belief_status_changed (st_fts X)),
      (''BELIEF_ADMISSION_CHANGED'', \<lambda>X. apply_belief_admission_changed),
      (''BELIEF_OBSERVATION_REFRESHED'', \<lambda>X. apply_belief_observation_refreshed),
      (''BELIEF_CORROBORATION_CHANGED'', \<lambda>X. apply_belief_corroboration_changed),
      (''VERIFICATION_TASK_CREATED'', \<lambda>X. apply_verification_created),
      (''VERIFICATION_TASK_COMPLETED'', \<lambda>X. apply_verification_completed),
      (''CONFLICT_OPENED'', \<lambda>X. apply_conflict_opened),
      (''CONFLICT_RESOLVED'', \<lambda>X. apply_conflict_resolved),
      (''RETRACTION_CREATED'', \<lambda>X. apply_retraction_created),
      (''RETRACTION_ACKNOWLEDGED'', \<lambda>X. apply_retraction_state_changed),
      (''RETRACTION_EXPIRED'', \<lambda>X. apply_retraction_state_changed),
      (''CONTEXT_COMPILED'', \<lambda>X. apply_context_compiled),
      (''COMPONENT_VERDICT_RECORDED'', \<lambda>X. apply_component_verdict_recorded),
      (''LLM_USAGE_RECORDED'', \<lambda>X. apply_llm_usage_recorded (st_plus X)),
      (''UNPROMOTED_EVIDENCE_ADDED'', \<lambda>X. apply_unpromoted_evidence_added),
      (''UNPROMOTED_EVIDENCE_RESOLVED'', \<lambda>X. apply_unpromoted_evidence_finished),
      (''UNPROMOTED_EVIDENCE_FAILED'', \<lambda>X. apply_unpromoted_evidence_finished),
      (''LINT_RECORDED'', \<lambda>X. apply_lint_recorded),
      (''GATE_DECIDED'', \<lambda>X. apply_gate_decided),
      (''ASSISTANT_RESPONSE_RECORDED'', \<lambda>X. apply_assistant_response_recorded)]"

definition advance_event_head :: "event \<Rightarrow> db \<Rightarrow> db result" where
  "advance_event_head e d =
     (let here = (\<lambda>r. cell r ''episode_id'' = JStr (ev_episode_id e));
          moved = [(''seq'', JInt (int (ev_seq e))), (''event_hash'', JStr (ev_event_hash e))] in
      if list_ex here (d ''event_heads'')
      then sql_update ledger_schema ''event_heads'' moved here d
      else insert_into ''event_heads'' ((''episode_id'', JStr (ev_episode_id e)) # moved) d)"

definition apply_event :: "storage \<Rightarrow> event \<Rightarrow> db \<Rightarrow> db result" where
  "apply_event X e d =
     and_then (if ev_kind e = ''EPISODE_CREATED'' then Inr d else require_episode (ev_episode_id e) d)
     (\<lambda>d. and_then (case map_of EVENT_HANDLERS (ev_kind e) of None \<Rightarrow> Inr d | Some h \<Rightarrow> h X e d)
       (advance_event_head e))"

end
