(* ===== verification/Ledger.thy ===== *)
theory Ledger
  imports Projections
begin

text \<open>
  \<open>store.py\<close>: the append-only event store. The tables \<open>events\<close> and \<open>event_auth\<close> hold what was
  appended, with payloads and correlations as canonical text; the projections are the database of
  \<open>Projections\<close>; \<open>idempotency\<close> and \<open>llm_reservations\<close>, which no projection handler touches, are
  components of their own. An operation is a function from a ledger to a result and a ledger, an
  error leaves the ledger as it was (the transaction is rolled back). Identifiers and timestamps
  are handed in; a timestamp is its text, on which formatting and parsing are inverse.
\<close>

named_theorems ledger_ops "definitions of the operations of the store"

section \<open>State\<close>

record stored_event =
  se_seq :: nat
  se_id :: string
  se_episode :: string
  se_ts :: string
  se_kind :: string
  se_schema_version :: int
  se_aggregate_type :: string
  se_aggregate_id :: string
  se_correlation :: string
  se_causal :: "string option"
  se_payload :: string
  se_previous_hash :: string
  se_event_hash :: string

record auth_row =
  au_event_id :: string
  au_event_hash :: string
  au_tag :: string

record idempotency_row =
  ir_key :: string
  ir_episode :: string
  ir_event_ids :: string
  ir_created_at :: string

record reservation =
  rv_id :: string
  rv_episode :: string
  rv_turn :: int
  rv_input :: int
  rv_output :: int
  rv_created_at :: string

record ledger =
  lg_events :: "stored_event list"
  lg_auth :: "auth_row list"
  lg_db :: db
  lg_idempotency :: "idempotency_row list"
  lg_reservations :: "reservation list"

text \<open>What a store is opened with, and what it uses of the outside.\<close>

record ledger_env =
  le_storage :: storage
  le_hmac :: "string \<Rightarrow> string \<Rightarrow> string"
  le_key :: string

abbreviation le_sha :: "ledger_env \<Rightarrow> string \<Rightarrow> string" where
  "le_sha E \<equiv> st_sha (le_storage E)"

definition ZERO_HASH :: string where
  "ZERO_HASH = replicate 64 (CHR ''0'')"

definition empty_ledger :: ledger where
  "empty_ledger = \<lparr>lg_events = [], lg_auth = [], lg_db = (\<lambda>t. []), lg_idempotency = [], lg_reservations = []\<rparr>"

section \<open>Events and their rows\<close>

definition stored_of :: "event \<Rightarrow> stored_event" where
  "stored_of e =
     \<lparr>se_seq = ev_seq e, se_id = ev_id e, se_episode = ev_episode_id e, se_ts = ev_timestamp e,
      se_kind = ev_kind e, se_schema_version = ev_schema_version e,
      se_aggregate_type = ev_aggregate_type e, se_aggregate_id = ev_aggregate_id e,
      se_correlation = canonical_json (ev_correlation e), se_causal = ev_causal_event_id e,
      se_payload = canonical_json (ev_payload e), se_previous_hash = ev_previous_hash e,
      se_event_hash = ev_event_hash e\<rparr>"

definition event_from_row :: "stored_event \<Rightarrow> event result" where
  "event_from_row r =
     and_then (json_loads (se_correlation r)) (\<lambda>c.
     and_then (json_loads (se_payload r)) (\<lambda>p. Inr
       \<lparr>ev_seq = se_seq r, ev_id = se_id r, ev_episode_id = se_episode r, ev_timestamp = se_ts r,
        ev_kind = se_kind r, ev_schema_version = se_schema_version r,
        ev_aggregate_type = se_aggregate_type r, ev_aggregate_id = se_aggregate_id r,
        ev_correlation = c, ev_causal_event_id = (if se_causal r = Some [] then None else se_causal r),
        ev_payload = p, ev_previous_hash = se_previous_hash r, ev_event_hash = se_event_hash r,
        ev_auth_tag = []\<rparr>))"

text \<open>The keys of the two tables: \<open>seq\<close>, \<open>id\<close> and \<open>event_hash\<close>, and \<open>event_id\<close>.\<close>

definition insert_event :: "event \<Rightarrow> ledger \<Rightarrow> ledger result" where
  "insert_event e l =
     (if list_ex (\<lambda>r. se_seq r = ev_seq e \<or> se_id r = ev_id e \<or> se_event_hash r = ev_event_hash e) (lg_events l)
      then Inl (IntegrityError ''events'')
      else if list_ex (\<lambda>a. au_event_id a = ev_id e) (lg_auth l) then Inl (IntegrityError ''event_auth'')
      else Inr (l\<lparr>lg_events := lg_events l @ [stored_of e],
                  lg_auth := lg_auth l @ [\<lparr>au_event_id = ev_id e, au_event_hash = ev_event_hash e,
                                            au_tag = ev_auth_tag e\<rparr>]\<rparr>))"

section \<open>Authentication and the hash chain\<close>

definition event_auth :: "ledger_env \<Rightarrow> event \<Rightarrow> string result" where
  "event_auth E e = compute_event_auth (le_hmac E) (le_key E) (ev_id e) (ev_event_hash e)"

definition authenticate :: "ledger_env \<Rightarrow> auth_row list \<Rightarrow> event \<Rightarrow> event result" where
  "authenticate E auths e =
     (case find (\<lambda>a. au_event_id a = ev_id e) auths of
        None \<Rightarrow> Inl (HashChainError (''event '' @ ev_id e @ '' authentication record is missing or stale''))
      | Some a \<Rightarrow>
          if au_event_hash a \<noteq> ev_event_hash e
          then Inl (HashChainError (''event '' @ ev_id e @ '' authentication record is missing or stale''))
          else and_then (event_auth E e) (\<lambda>tag.
            if au_tag a \<noteq> tag
            then Inl (HashChainError (''event '' @ ev_id e @ '' authentication mismatch''))
            else Inr (e\<lparr>ev_auth_tag := au_tag a\<rparr>)))"

definition authenticated_events :: "ledger_env \<Rightarrow> ledger \<Rightarrow> stored_event list \<Rightarrow> event list result" where
  "authenticated_events E l rows =
     and_then (map_result event_from_row rows) (map_result (authenticate E (lg_auth l)))"

definition rows_in_order :: "ledger \<Rightarrow> stored_event list" where
  "rows_in_order l = sort_key se_seq (lg_events l)"

definition events :: "ledger_env \<Rightarrow> string option \<Rightarrow> ledger \<Rightarrow> event list result" where
  "events E ep l =
     authenticated_events E l
       (case ep of
          None \<Rightarrow> rows_in_order l
        | Some i \<Rightarrow> if i = [] then rows_in_order l else filter (\<lambda>r. se_episode r = i) (rows_in_order l))"

definition events_by_ids :: "ledger_env \<Rightarrow> string list \<Rightarrow> ledger \<Rightarrow> event list result" where
  "events_by_ids E ids l =
     (if ids = [] then Inr []
      else authenticated_events E l (filter (\<lambda>r. se_id r \<in> set ids) (rows_in_order l)))"

text \<open>The heads found so far: for each episode the sequence number and the hash of its last event.\<close>

type_synonym heads = "(string \<times> nat \<times> string) list"

definition head_hash :: "heads \<Rightarrow> string \<Rightarrow> string" where
  "head_hash hs ep = (case map_of hs ep of None \<Rightarrow> ZERO_HASH | Some (n, h) \<Rightarrow> h)"

definition check_link :: "ledger_env \<Rightarrow> event \<Rightarrow> heads \<Rightarrow> heads result" where
  "check_link E e hs =
     (let previous = head_hash hs (ev_episode_id e) in
      if ev_previous_hash e \<noteq> previous
      then Inl (HashChainError (''event '' @ ev_id e @ '' previous hash mismatch for episode '' @ ev_episode_id e))
      else if event_hash_of (le_sha E) previous e \<noteq> ev_event_hash e
      then Inl (HashChainError (''event '' @ ev_id e @ '' hash mismatch''))
      else and_then (event_auth E e) (\<lambda>tag.
        if ev_auth_tag e \<noteq> tag
        then Inl (HashChainError (''event '' @ ev_id e @ '' authentication mismatch''))
        else Inr (AList.update (ev_episode_id e) (ev_seq e, ev_event_hash e) hs)))"

text \<open>One batch; the flag says that the height was passed and reading stops.\<close>

fun check_batch :: "ledger_env \<Rightarrow> nat option \<Rightarrow> event list \<Rightarrow> heads \<Rightarrow> (heads \<times> bool) result" where
  "check_batch E height [] hs = Inr (hs, False)"
| "check_batch E height (e # es) hs =
     (if (case height of None \<Rightarrow> False | Some n \<Rightarrow> n < ev_seq e) then Inr (hs, True)
      else and_then (check_link E e hs) (check_batch E height es))"

function check_batches ::
  "ledger_env \<Rightarrow> ledger \<Rightarrow> nat option \<Rightarrow> stored_event list \<Rightarrow> heads \<Rightarrow> heads result" where
  "check_batches E l height rows hs =
     (if rows = [] then Inr hs
      else and_then (authenticated_events E l (take 1000 rows)) (\<lambda>es.
           and_then (check_batch E height es hs) (\<lambda>(hs', stop).
             if stop then Inr hs' else check_batches E l height (drop 1000 rows) hs')))"
  by pat_completeness auto
termination by (relation "measure (\<lambda>(E, l, h, rows, hs). length rows)") auto

declare check_batches.simps [simp del]

definition verified_heads :: "ledger_env \<Rightarrow> nat option \<Rightarrow> ledger \<Rightarrow> heads result" where
  "verified_heads E height l = check_batches E l height (rows_in_order l) []"

definition head_json :: "nat \<times> string \<Rightarrow> json" where
  "head_json h = JArr [JInt (int (fst h)), JStr (snd h)]"

definition heads_json :: "heads \<Rightarrow> json" where
  "heads_json hs = JObj (map (map_prod id head_json) hs)"

text \<open>The table \<open>event_heads\<close> as a dictionary\<close>

definition projected_heads :: "db \<Rightarrow> (string \<times> json) list" where
  "projected_heads d =
     dict_of_pairs (map (\<lambda>r. (py_str (cell r ''episode_id''),
         JArr [cell r ''seq'', JStr (py_str (cell r ''event_hash''))])) (d ''event_heads''))"

definition verify_hash_chain :: "ledger_env \<Rightarrow> ledger \<Rightarrow> string result" where
  "verify_hash_chain E l =
     and_then (verified_heads E None l) (\<lambda>hs.
       if list_all (\<lambda>k. map_option head_json (map_of hs k) = map_of (projected_heads (lg_db l)) k)
            (map fst hs @ map fst (projected_heads (lg_db l)))
       then Inr (canonical_json (heads_json hs))
       else Inl (HashChainError ''event head projection does not match event history''))"

record chain_state =
  ch_height :: nat
  ch_root :: string
  ch_heads :: heads

definition chain_state_of :: "ledger_env \<Rightarrow> nat option \<Rightarrow> ledger \<Rightarrow> chain_state result" where
  "chain_state_of E height l =
     and_then (verified_heads E height l) (\<lambda>hs. Inr
       \<lparr>ch_height = fold max (map (fst \<circ> snd) hs) 0,
        ch_root = le_sha E (canonical_json (heads_json hs)),
        ch_heads = sort_key fst hs\<rparr>)"

section \<open>Appending\<close>

definition storage_key :: "string \<Rightarrow> string \<Rightarrow> string" where
  "storage_key ep key = ep @ '':'' @ key"

definition clean_correlation :: "(string \<times> string) list \<Rightarrow> string \<Rightarrow> (string \<times> string) list" where
  "clean_correlation c key =
     (let c' = filter (\<lambda>(k, v). v \<noteq> []) c in
      if key = [] then c' else AList.update ''idempotency_key'' key c')"

text \<open>\<open>correlation.get(key)\<close>\<close>

definition correlation_get :: "event \<Rightarrow> string \<Rightarrow> json result" where
  "correlation_get e k =
     (case ev_correlation e of JObj kvs \<Rightarrow> Inr (dict_get kvs k JNull) | _ \<Rightarrow> Inl (AttributeError ''get''))"

definition open_task :: "db \<Rightarrow> string \<Rightarrow> string \<Rightarrow> bool" where
  "open_task d ep i =
     (case sql_first ''verification_tasks'' (\<lambda>r. has_id i r \<and> cell r ''episode_id'' = JStr ep) d of
        None \<Rightarrow> False | Some r \<Rightarrow> py_str (cell r ''state'') = ''open'')"

definition idempotency_of :: "ledger \<Rightarrow> string \<Rightarrow> string \<Rightarrow> idempotency_row option" where
  "idempotency_of l ep key =
     find (\<lambda>r. ir_episode r = ep \<and> ir_key r = storage_key ep key) (lg_idempotency l)"

definition earlier_events ::
  "ledger_env \<Rightarrow> (string \<times> string) list \<Rightarrow> idempotency_row \<Rightarrow> ledger \<Rightarrow> event list result" where
  "earlier_events E c row l =
     and_then (json_loads (ir_event_ids row)) (\<lambda>v.
     and_then (elements v) (\<lambda>ids.
     and_then (events_by_ids E (map py_str ids) l) (\<lambda>es.
     and_then (case es of [] \<Rightarrow> Inr JNull | e # _ \<Rightarrow> correlation_get e ''idempotency_fingerprint'') (\<lambda>previous.
       case map_of c ''idempotency_fingerprint'' of
         None \<Rightarrow> Inr es
       | Some current \<Rightarrow>
           if truthy previous \<and> current \<noteq> [] \<and> previous \<noteq> JStr current
           then Inl (StoreError ''idempotency key was reused for a different request'')
           else Inr es))))"

definition next_seq :: "ledger \<Rightarrow> nat" where
  "next_seq l = Suc (fold max (map se_seq (lg_events l)) 0)"

definition stored_head :: "db \<Rightarrow> string \<Rightarrow> string" where
  "stored_head d ep =
     (case sql_first ''event_heads'' (\<lambda>r. cell r ''episode_id'' = JStr ep) d of
        None \<Rightarrow> ZERO_HASH | Some r \<Rightarrow> py_str (cell r ''event_hash''))"

text \<open>The identifier and the timestamp of the event at an offset of the batch.\<close>

type_synonym stamps = "nat \<Rightarrow> string \<times> string"

definition append_one ::
  "ledger_env \<Rightarrow> string \<Rightarrow> (string \<times> string) list \<Rightarrow> nat \<Rightarrow> stamps \<Rightarrow> nat \<times> event_draft
     \<Rightarrow> event list \<times> string \<times> ledger \<Rightarrow> (event list \<times> string \<times> ledger) result" where
  "append_one E ep c first stamps = (\<lambda>(offset, draft) (es, previous, l).
     let built = build_event (le_sha E) (first + offset) ep draft previous c
                   (snd (stamps offset)) (fst (stamps offset)) in
     and_then (event_auth E built) (\<lambda>tag.
     let e = built\<lparr>ev_auth_tag := tag\<rparr> in
     and_then (insert_event e l) (\<lambda>l.
     and_then (apply_event (le_storage E) e (lg_db l)) (\<lambda>d.
       Inr (es @ [e], ev_event_hash e, l\<lparr>lg_db := d\<rparr>)))))"

definition append_drafts ::
  "ledger_env \<Rightarrow> string \<Rightarrow> event_draft list \<Rightarrow> (string \<times> string) list \<Rightarrow> stamps \<Rightarrow> ledger
     \<Rightarrow> (event list \<times> ledger) result" where
  "append_drafts E ep drafts c stamps l =
     and_then (fold_result (append_one E ep c (next_seq l) stamps) (enumerate 0 drafts)
                 ([], stored_head (lg_db l) ep, l))
       (\<lambda>(es, h, l'). Inr (es, l'))"

definition event_ids_json :: "event list \<Rightarrow> string" where
  "event_ids_json es = canonical_json (JArr (map (JStr \<circ> ev_id) es))"

definition remember :: "string \<Rightarrow> string \<Rightarrow> event list \<Rightarrow> ledger \<Rightarrow> ledger result" where
  "remember ep key es l =
     (if list_ex (\<lambda>r. ir_key r = storage_key ep key) (lg_idempotency l)
      then Inl (IntegrityError ''idempotency'')
      else Inr (l\<lparr>lg_idempotency := lg_idempotency l @
        [\<lparr>ir_key = storage_key ep key, ir_episode = ep, ir_event_ids = event_ids_json es,
          ir_created_at = ev_timestamp (hd es)\<rparr>]\<rparr>))"

definition append_events ::
  "ledger_env \<Rightarrow> string \<Rightarrow> event_draft list \<Rightarrow> (string \<times> string) list \<Rightarrow> string \<Rightarrow> string \<Rightarrow> stamps
     \<Rightarrow> ledger \<Rightarrow> (event list \<times> ledger) result" where
  "append_events E ep drafts correlation key task stamps l =
     (let c = clean_correlation correlation key in
      if drafts = [] then Inr ([], l)
      else if task \<noteq> [] \<and> \<not> open_task (lg_db l) ep task then Inr ([], l)
      else case (if key = [] then None else idempotency_of l ep key) of
        Some row \<Rightarrow> and_then (earlier_events E c row l) (\<lambda>es. Inr (es, l))
      | None \<Rightarrow>
          and_then (append_drafts E ep drafts c stamps l) (\<lambda>(es, l').
            if key = [] then Inr (es, l')
            else and_then (remember ep key es l') (\<lambda>l''. Inr (es, l''))))"

end
