(* ===== verification/Ledger_Replay.thy ===== *)
theory Ledger_Replay
  imports Ledger "HOL-Library.Product_Lexorder"
begin

text \<open>
  \<open>store.py\<close>, the operations that rebuild projections from the log: the idempotency index,
  \<open>replay\<close>, and \<open>purge_episode\<close>, which compacts a ledger to the events of the other episodes. The
  authorization tables, which a replay rebuilds too, are the subject of \<open>Permits\<close>. Replacing the
  database file and writing the projection seal are left out.
\<close>

section \<open>The idempotency index\<close>

type_synonym batches = "((string \<times> string) \<times> event list) list"

text \<open>The key an event was appended under, if any.\<close>

definition batch_key :: "event \<Rightarrow> (string \<times> string) option result" where
  "batch_key e =
     and_then (correlation_get e ''idempotency_key'') (\<lambda>k.
       Inr (if truthy k then Some (ev_episode_id e, py_str k) else None))"

definition note_batch :: "event \<Rightarrow> batches \<Rightarrow> batches result" where
  "note_batch e bs =
     and_then (batch_key e) (\<lambda>k. Inr (case k of
       None \<Rightarrow> bs | Some k \<Rightarrow> AList.update k (dict_get bs k [] @ [e]) bs))"

definition idempotency_batches :: "event list \<Rightarrow> batches result" where
  "idempotency_batches es = fold_result note_batch es []"

definition idempotency_row_of :: "(string \<times> string) \<times> event list \<Rightarrow> idempotency_row" where
  "idempotency_row_of b =
     \<lparr>ir_key = storage_key (fst (fst b)) (snd (fst b)), ir_episode = fst (fst b),
      ir_event_ids = event_ids_json (snd b), ir_created_at = ev_timestamp (hd (snd b))\<rparr>"

definition restore_batch ::
  "(string \<times> string) \<times> event list \<Rightarrow> idempotency_row list \<Rightarrow> idempotency_row list result" where
  "restore_batch b rows =
     (if list_ex (\<lambda>r. ir_key r = ir_key (idempotency_row_of b)) rows
      then Inl (IntegrityError ''idempotency'') else Inr (rows @ [idempotency_row_of b]))"

definition restore_idempotency :: "batches \<Rightarrow> idempotency_row list result" where
  "restore_idempotency bs = fold_result restore_batch (sort_key fst bs) []"

section \<open>Projection hashes and replay\<close>

definition idempotency_cells :: "idempotency_row \<Rightarrow> row" where
  "idempotency_cells r =
     [(''idempotency_key'', JStr (ir_key r)), (''episode_id'', JStr (ir_episode r)),
      (''event_ids_json'', JStr (ir_event_ids r)), (''created_at'', JStr (ir_created_at r))]"

definition ledger_projection :: "ledger \<Rightarrow> db" where
  "ledger_projection l = (lg_db l)(''idempotency'' := map idempotency_cells (lg_idempotency l))"

definition ledger_hash :: "ledger_env \<Rightarrow> ledger \<Rightarrow> string" where
  "ledger_hash E l = projection_hash (le_sha E) (ledger_projection l)"

record replay_result =
  rr_events :: nat
  rr_before :: string
  rr_after :: string

definition deterministic :: "replay_result \<Rightarrow> bool" where
  "deterministic r = (rr_before r = rr_after r)"

definition replay_row ::
  "ledger_env \<Rightarrow> stored_event \<Rightarrow> db \<times> batches \<Rightarrow> (db \<times> batches) result" where
  "replay_row E r = (\<lambda>(d, bs).
     and_then (event_from_row r) (\<lambda>e.
     and_then (apply_event (le_storage E) e d) (\<lambda>d.
     and_then (note_batch e bs) (\<lambda>bs. Inr (d, bs)))))"

definition replay :: "ledger_env \<Rightarrow> ledger \<Rightarrow> (replay_result \<times> ledger) result" where
  "replay E l =
     and_then (verify_hash_chain E l) (\<lambda>_.
     and_then (fold_result (replay_row E) (rows_in_order l) ((\<lambda>t. []), [])) (\<lambda>(d, bs).
     and_then (restore_idempotency bs) (\<lambda>rows.
       let l' = l\<lparr>lg_db := d, lg_idempotency := rows, lg_reservations := []\<rparr>;
           before = ledger_hash E l; after = ledger_hash E l' in
       if before \<noteq> after
       then Inl (StoreError (''projection replay mismatch: v1='' @ before @ ''/'' @ after))
       else Inr (\<lparr>rr_events = length (lg_events l), rr_before = before, rr_after = after\<rparr>, l'))))"

section \<open>Purging an episode\<close>

record purge_result =
  pg_episode :: string
  pg_removed :: nat
  pg_preserved :: nat
  pg_hash :: string

definition copy_event :: "ledger_env \<Rightarrow> event \<Rightarrow> ledger \<Rightarrow> ledger result" where
  "copy_event E e l =
     and_then (insert_event e l) (\<lambda>l.
     and_then (apply_event (le_storage E) e (lg_db l)) (\<lambda>d. Inr (l\<lparr>lg_db := d\<rparr>)))"

definition purge_episode ::
  "ledger_env \<Rightarrow> string \<Rightarrow> string \<Rightarrow> ledger \<Rightarrow> (purge_result \<times> ledger) result" where
  "purge_episode E ep confirmation l =
     (if confirmation \<noteq> ep
      then Inl (ValueError ''purge confirmation must exactly match the episode id'')
      else if sql_first ''episodes'' (has_id ep) (lg_db l) = None
      then Inl (ValueError ''episode does not exist'')
      else
        and_then (verify_hash_chain E l) (\<lambda>_.
        and_then (events E None l) (\<lambda>all.
        let preserved = filter (\<lambda>e. ev_episode_id e \<noteq> ep) all in
        and_then (fold_result (copy_event E) preserved empty_ledger) (\<lambda>copied.
        and_then (idempotency_batches preserved) (\<lambda>bs.
        and_then (restore_idempotency bs) (\<lambda>rows.
        let replacement = copied\<lparr>lg_idempotency := rows\<rparr> in
        and_then (verify_hash_chain E replacement) (\<lambda>_.
          Inr (\<lparr>pg_episode = ep, pg_removed = length all - length preserved,
                pg_preserved = length preserved, pg_hash = ledger_hash E replacement\<rparr>,
               replacement))))))))"

end
