(* ===== verification/Projection_Writes.thy ===== *)
theory Projection_Writes
  imports Projections
begin

text \<open>
  What the handlers of \<open>projections.py\<close> promise. The abstract specification is a relation
  \<open>scoped_write D ts ep\<close> between databases: a row that belongs to episode \<open>ep\<close> is inserted, changed or
  removed. A row of a link table names no episode of its own: it belongs to the episode when the
  entities it links are entities of the episode in the database \<open>D\<close> that the writes lead to. The
  refinement theorem says that applying an event is a sequence of such writes for the event's episode;
  that constraints hold afterwards and that no other episode's row has changed follows by rule induction
  on the specification.
\<close>

section \<open>Rows of an episode\<close>

definition episode_column :: "string \<Rightarrow> string" where
  "episode_column t = (if t = ''episodes'' then ''id'' else ''episode_id'')"

definition row_episode :: "string \<Rightarrow> row \<Rightarrow> string" where
  "row_episode t r = py_str (cell r (episode_column t))"

text \<open>Link tables name no episode of their own, or (the full-text index) are keyed by a belief.\<close>

definition link_tables :: "string list" where
  "link_tables = [''belief_evidence'', ''justification_premises'', ''beliefs_fts'']"

definition scoped_tables :: "string list" where
  "scoped_tables =
     [''episodes'', ''sources'', ''evidence'', ''beliefs'', ''ingestion_supports'',
      ''justifications'', ''defeats'', ''verification_tasks'', ''conflicts'', ''retraction_notices'',
      ''rendered_beliefs'', ''source_roots'', ''content_fingerprints'', ''component_verdicts'',
      ''llm_usage'', ''unpromoted_evidence'', ''lint_reports'', ''gate_decisions'',
      ''assistant_responses'']"

text \<open>The handlers write these and the link tables; the head of the episode is moved separately.\<close>

definition handler_tables :: "string set" where
  "handler_tables = set scoped_tables \<union> set link_tables"

lemma in_handler_tables: "t \<in> handler_tables \<longleftrightarrow> t \<in> set scoped_tables \<or> t \<in> set link_tables"
  by (simp add: handler_tables_def)

definition episode_tables :: "string list" where
  "episode_tables = ''event_heads'' # scoped_tables"

definition rows_of :: "string \<Rightarrow> string \<Rightarrow> db \<Rightarrow> row list" where
  "rows_of ep t d = filter (\<lambda>r. row_episode t r = ep) (d t)"

section \<open>The abstract specification\<close>

text \<open>\<open>x\<close> is the id of a row of table \<open>t\<close> that belongs to the episode.\<close>

definition names :: "db \<Rightarrow> string \<Rightarrow> string \<Rightarrow> json \<Rightarrow> bool" where
  "names D ep t x \<longleftrightarrow> (\<exists>b\<in>set (D t). cell b ''id'' = x \<and> row_episode t b = ep)"

text \<open>
  The checks of the handlers compare \<open>str(value)\<close>, SQLite stores a boolean as \<open>1\<close> or \<open>0\<close>: an entity
  whose id is the text of a boolean could be checked and another one linked. No id that the program
  makes is such a text.
\<close>

definition linked_entities :: "string list" where
  "linked_entities = [''beliefs'', ''evidence'', ''justifications'']"

definition plain_ids :: "db \<Rightarrow> bool" where
  "plain_ids D \<longleftrightarrow> (\<forall>t\<in>set linked_entities. \<forall>b\<in>set (D t). cell b ''id'' \<noteq> JStr ''True'' \<and> cell b ''id'' \<noteq> JStr ''False'')"

definition owned :: "db \<Rightarrow> string \<Rightarrow> string \<Rightarrow> row \<Rightarrow> bool" where
  "owned D ep t r \<longleftrightarrow>
     (if t = ''belief_evidence''
      then plain_ids D \<longrightarrow> names D ep ''beliefs'' (cell r ''belief_id'') \<and> names D ep ''evidence'' (cell r ''evidence_id'')
      else if t = ''justification_premises''
      then plain_ids D \<longrightarrow> names D ep ''justifications'' (cell r ''justification_id'')
                            \<and> names D ep ''beliefs'' (cell r ''premise_belief_id'')
      else if t = ''beliefs_fts'' then names D ep ''beliefs'' (text_param (cell r ''belief_id''))
      else row_episode t r = ep)"

lemma owned_scoped [simp]: "t \<notin> set link_tables \<Longrightarrow> owned D ep t r \<longleftrightarrow> row_episode t r = ep"
  by (simp add: owned_def link_tables_def)

text \<open>The links between beliefs, evidence and premises are only ever added.\<close>

definition added_only :: "string set" where
  "added_only = {''belief_evidence'', ''justification_premises''}"

inductive scoped_write :: "db \<Rightarrow> string set \<Rightarrow> string \<Rightarrow> db \<Rightarrow> db \<Rightarrow> bool" for D ts ep where
  insert: "t \<in> ts \<Longrightarrow> owned D ep t r \<Longrightarrow> t = ''beliefs_fts'' \<longrightarrow> row_episode t r = ep \<Longrightarrow> insert_row ledger_schema t r d = Inr d'
    \<Longrightarrow> scoped_write D ts ep d d'"
| remove: "t \<in> ts \<Longrightarrow> unreferenced ledger_schema t \<Longrightarrow> t \<notin> added_only
    \<Longrightarrow> \<forall>r\<in>set (d t). \<not> p r \<longrightarrow> owned D ep t r
    \<Longrightarrow> scoped_write D ts ep d (d(t := filter p (d t)))"
| update: "t \<in> ts \<Longrightarrow> t \<notin> set link_tables \<Longrightarrow> \<forall>r\<in>set (d t). p r \<longrightarrow> row_episode t r = ep
    \<Longrightarrow> \<forall>r. \<forall>c\<in>{''id'', episode_column t} \<union> fst ` set (ts_references (ledger_schema t)).
          cell (f r) c = cell r c
    \<Longrightarrow> update_rows ledger_schema t p f d = Inr d' \<Longrightarrow> scoped_write D ts ep d d'"

inductive_cases scoped_writeE: "scoped_write D ts ep d d'"

lemma scoped_write_consistent:
  "scoped_write D ts ep d d' \<Longrightarrow> consistent ledger_schema d \<Longrightarrow> consistent ledger_schema d'"
proof (induction rule: scoped_write.induct)
  case (insert t r d d')
  then show ?case by (blast intro: insert_row_consistent)
next
  case (remove t d p)
  then show ?case using filter_consistent by blast
next
  case (update d t p f d')
  show ?case
    by (rule update_rows_consistent [OF update.prems update.hyps(5)]) (use update.hyps(4) in auto)
qed

lemma map_filter_same:
  assumes "\<forall>r\<in>set rs. p r \<longrightarrow> \<not> q r \<and> \<not> q (f r)"
  shows "filter q (map (\<lambda>r. if p r then f r else r) rs) = filter q rs"
  using assms by (induction rs) auto

lemma scoped_write_isolated:
  assumes "scoped_write D ts ep d d'" and "ep' \<noteq> ep" and "t \<notin> set link_tables"
  shows "rows_of ep' t d' = rows_of ep' t d"
  using assms(1)
proof cases
  case (insert u r)
  with assms(2,3) show ?thesis
    by (auto simp: insert_row_def rows_of_def split: if_splits)
next
  case (remove u p)
  have "filter (\<lambda>r. row_episode t r = ep') (filter p (d t)) = filter (\<lambda>r. row_episode t r = ep') (d t)"
    if "u = t" using remove that assms(2,3) by (auto simp: filter_filter intro!: filter_cong)
  with remove show ?thesis by (auto simp: rows_of_def)
next
  case (update u p f)
  from update(5) have d': "d' = d(u := map (\<lambda>r. if p r then f r else r) (d u))"
    by (auto simp: update_rows_def Let_def split: if_splits)
  show ?thesis
  proof (cases "u = t")
    case True
    have "row_episode t (f r) = row_episode t r" for r
      using update(4) True by (simp add: row_episode_def)
    with update(3) True assms(2) have "\<forall>r\<in>set (d t). p r \<longrightarrow> row_episode t r \<noteq> ep' \<and> row_episode t (f r) \<noteq> ep'"
      by auto
    with True show ?thesis by (simp add: d' rows_of_def map_filter_same)
  qed (simp add: d' rows_of_def)
qed

text \<open>
  \<open>writes D ts ep d d'\<close>: from a consistent database, \<open>d'\<close> is reached by writes of the episode to
  the tables \<open>ts\<close>; for a handler these are the projected tables and the link tables.
\<close>

definition writes :: "db \<Rightarrow> string set \<Rightarrow> string \<Rightarrow> db \<Rightarrow> db \<Rightarrow> bool" where
  "writes D ts ep d d' \<longleftrightarrow> (consistent ledger_schema d \<longrightarrow> (scoped_write D ts ep)\<^sup>*\<^sup>* d d')"

abbreviation scoped :: "db \<Rightarrow> string \<Rightarrow> db \<Rightarrow> db \<Rightarrow> bool" where
  "scoped D \<equiv> writes D handler_tables"

lemma scoped_writes_consistent:
  "(scoped_write D ts ep)\<^sup>*\<^sup>* d d' \<Longrightarrow> consistent ledger_schema d \<Longrightarrow> consistent ledger_schema d'"
  by (induction rule: rtranclp_induct) (auto intro: scoped_write_consistent)

lemma scoped_writes_isolated:
  "(scoped_write D ts ep)\<^sup>*\<^sup>* d d' \<Longrightarrow> ep' \<noteq> ep \<Longrightarrow> t \<notin> set link_tables \<Longrightarrow> rows_of ep' t d' = rows_of ep' t d"
  by (induction rule: rtranclp_induct) (auto simp: scoped_write_isolated)

lemma scoped_write_mono: "scoped_write D ts ep d d' \<Longrightarrow> ts \<subseteq> us \<Longrightarrow> scoped_write D us ep d d'"
  by (erule scoped_write.cases) (blast intro: scoped_write.intros)+

lemma scoped_write_frame: "scoped_write D ts ep d d' \<Longrightarrow> t \<notin> ts \<Longrightarrow> d' t = d t"
  by (erule scoped_write.cases) (auto simp: insert_row_def update_rows_def Let_def split: if_splits)

lemma scoped_writes_frame: "(scoped_write D ts ep)\<^sup>*\<^sup>* d d' \<Longrightarrow> t \<notin> ts \<Longrightarrow> d' t = d t"
  by (induction rule: rtranclp_induct) (auto simp: scoped_write_frame)

lemma scoped_writes_added:
  "(scoped_write D ts ep)\<^sup>*\<^sup>* d d' \<Longrightarrow> t \<in> added_only \<Longrightarrow> \<exists>new. d' t = d t @ new \<and> (\<forall>r\<in>set new. owned D ep t r)"
proof (induction rule: rtranclp_induct)
  case (step d1 d2)
  then obtain new where new: "d1 t = d t @ new" "\<forall>r\<in>set new. owned D ep t r" by blast
  from step.hyps(2) show ?case
  proof cases
    case (insert u r)
    then have "d2 = d1(u := d1 u @ [r])" by (auto simp: insert_row_def split: if_splits)
    with insert new show ?thesis by (cases "u = t") auto
  next
    case (remove u p)
    with step.prems new show ?thesis by auto
  next
    case (update u p f)
    moreover have "u \<noteq> t" using update(2) step.prems by (auto simp: added_only_def link_tables_def)
    ultimately show ?thesis using new by (auto simp: update_rows_def Let_def split: if_splits)
  qed
qed simp

lemma scoped_refl [simp]: "writes D ts ep d d"
  by (simp add: writes_def)

lemma writes_mono: "writes D ts ep d d' \<Longrightarrow> ts \<subseteq> us \<Longrightarrow> writes D us ep d d'"
  unfolding writes_def by (blast intro: rtranclp_mono [THEN predicate2D, rotated] scoped_write_mono)

lemma scoped_trans [trans]: "writes D ts ep d d' \<Longrightarrow> writes D ts ep d' d'' \<Longrightarrow> writes D ts ep d d''"
  unfolding writes_def by (meson rtranclp_trans scoped_writes_consistent)

lemma scoped_step: "(consistent ledger_schema d \<Longrightarrow> scoped_write D ts ep d d') \<Longrightarrow> writes D ts ep d d'"
  unfolding writes_def by blast

lemma scoped_fold:
  assumes "fold_result f xs d = Inr d'" and "\<And>x d d'. x \<in> set xs \<Longrightarrow> f x d = Inr d' \<Longrightarrow> writes D ts ep d d'"
  shows "writes D ts ep d d'"
  using assms
proof (induction xs arbitrary: d)
  case (Cons x xs)
  from Cons.prems(1) obtain d1 where "f x d = Inr d1" and "fold_result f xs d1 = Inr d'"
    by (auto simp: splits_result)
  with Cons.IH [of d1] Cons.prems(2) show ?case by (metis list.set_intros(1) list.set_intros(2) scoped_trans)
qed simp

section \<open>The statements implement the specification\<close>

lemma cell_make_row:
  "cell (make_row ts vs) c =
     (case find (\<lambda>k. col_name k = c) (ts_columns ts) of
        None \<Rightarrow> JNull | Some k \<Rightarrow> convert (col_affinity k) (dict_get vs c JNull))"
proof -
  have "map_of (map (\<lambda>k. (col_name k, convert (col_affinity k) (dict_get vs (col_name k) JNull))) cols) c
      = map_option (\<lambda>k. convert (col_affinity k) (dict_get vs c JNull)) (find (\<lambda>k. col_name k = c) cols)" for cols
    by (induction cols) auto
  from this [of "ts_columns ts"] show ?thesis unfolding cell_def make_row_def
    by (subst (1) dict_get_def [of _ c]) (auto split: option.splits)
qed

text \<open>Every table of an episode has its episode in a text column.\<close>

lemma episode_column_text:
  assumes "t \<in> set episode_tables"
  shows "\<exists>k. find (\<lambda>k. col_name k = episode_column t) (ts_columns (ledger_schema t)) = Some k
    \<and> col_affinity k = TextCol"
proof -
  have "list_all (\<lambda>t. case find (\<lambda>k. col_name k = episode_column t) (ts_columns (ledger_schema t)) of
      None \<Rightarrow> False | Some k \<Rightarrow> col_affinity k = TextCol) episode_tables"
    by code_simp
  then have "case find (\<lambda>k. col_name k = episode_column t) (ts_columns (ledger_schema t)) of
      None \<Rightarrow> False | Some k \<Rightarrow> col_affinity k = TextCol"
    using assms unfolding list_all_iff by (rule bspec)
  then show ?thesis by (auto split: option.splits)
qed

definition plain_name :: "string \<Rightarrow> bool" where
  "plain_name ep \<longleftrightarrow> ep \<noteq> ''True'' \<and> ep \<noteq> ''False''"

text \<open>Storing a value in a text column keeps its text, unless it is a boolean.\<close>

lemma py_str_stored:
  assumes "sql_bind v = Inr w" and "plain_name (py_str v)"
  shows "py_str (convert TextCol w) = py_str v"
  using assms by (cases v) (auto simp: plain_name_def)

lemma bind_all_map_of:
  "bind_all vs = Inr ws \<Longrightarrow> map_of vs c = Some v \<Longrightarrow> \<exists>w. map_of ws c = Some w \<and> sql_bind v = Inr w"
  by (induction vs arbitrary: ws rule: bind_all.induct) (auto simp: splits_result split: if_splits)

lemma stored_episode:
  assumes "t \<in> set episode_tables" and "bind_all vs = Inr ws"
    and "map_of vs (episode_column t) = Some v" and "plain_name (py_str v)"
  shows "row_episode t (make_row (ledger_schema t) ws) = py_str v"
proof -
  obtain w where "map_of ws (episode_column t) = Some w" and "sql_bind v = Inr w"
    using bind_all_map_of [OF assms(2,3)] by blast
  with episode_column_text [OF assms(1)] py_str_stored [OF _ assms(4)] show ?thesis
    by (auto simp: row_episode_def cell_make_row dict_get_def)
qed

lemma episode_table_owned: "t \<in> set episode_tables \<Longrightarrow> owned D ep t r \<longleftrightarrow> row_episode t r = ep"
  by (rule owned_scoped) (auto simp: episode_tables_def scoped_tables_def link_tables_def)

lemma episode_table_plain: "t \<in> set episode_tables \<Longrightarrow> t \<noteq> ''beliefs_fts'' \<and> t \<notin> set link_tables"
  by (auto simp: episode_tables_def scoped_tables_def link_tables_def)

lemma scoped_insert:
  assumes "sql_insert ledger_schema t vs d = Inr d'" and "t \<in> set episode_tables" and "t \<in> ts"
    and "map_of vs (episode_column t) = Some v" and "py_str v = ep" and "plain_name ep"
  shows "writes D ts ep d d'"
  using assms stored_episode [OF assms(2) _ assms(4)] episode_table_owned [OF assms(2)] episode_table_plain [OF assms(2)]
  by (intro scoped_step, unfold sql_insert_def splits_result) (blast intro: scoped_write.insert)

lemma scoped_insert_or_ignore:
  assumes "sql_insert_or_ignore ledger_schema t vs d = Inr d'" and "t \<in> set episode_tables" and "t \<in> ts"
    and "map_of vs (episode_column t) = Some v" and "py_str v = ep" and "plain_name ep"
  shows "writes D ts ep d d'"
proof -
  obtain ws where ws: "bind_all vs = Inr ws"
    and "d' = d \<or> insert_row ledger_schema t (make_row (ledger_schema t) ws) d = Inr d'"
    using assms(1) by (auto simp: sql_insert_or_ignore_def splits_result Let_def split: if_splits)
  with stored_episode [OF assms(2) ws assms(4)] assms(3,5,6) episode_table_owned [OF assms(2)] episode_table_plain [OF assms(2)]
  show ?thesis by (metis scoped_refl scoped_step scoped_write.insert)
qed

section \<open>Entities that stay\<close>

text \<open>\<open>D\<close> is a later database than \<open>d\<close>: it has the entities of \<open>d\<close>, in their episodes.\<close>

definition later :: "db \<Rightarrow> db \<Rightarrow> bool" where
  "later d D \<longleftrightarrow> (\<forall>t\<in>set linked_entities. \<forall>ep x. names d ep t x \<longrightarrow> names D ep t x)"

lemma later_refl [simp]: "later d d"
  by (simp add: later_def)

lemma later_trans: "later d d' \<Longrightarrow> later d' d'' \<Longrightarrow> later d d''"
  by (simp add: later_def)

lemma later_fold:
  assumes "fold_result f xs d = Inr d'" and "\<And>x d d'. f x d = Inr d' \<Longrightarrow> later d d'"
  shows "later d d'"
  by (rule fold_result_invariant [OF assms(1), of "later d"]) (use assms(2) later_trans in \<open>blast intro: later_refl\<close>)+

lemma later_more: "(\<And>t. set (d t) \<subseteq> set (d' t)) \<Longrightarrow> later d d'"
  by (auto simp: later_def names_def)

lemma later_insert: "sql_insert S t vs d = Inr d' \<Longrightarrow> later d d'"
  by (intro later_more) (auto simp: sql_insert_def insert_row_def splits_result split: if_splits)

lemma later_delete: "t \<notin> set linked_entities \<Longrightarrow> later d (sql_delete t p d)"
  by (auto simp: later_def names_def sql_delete_def)

lemma later_keeps: "later d D \<Longrightarrow> t \<in> set linked_entities \<Longrightarrow> names d ep t x \<Longrightarrow> names D ep t x"
  by (auto simp: later_def)

lemma entity_names:
  "entity_in_episode d t i ep \<Longrightarrow> t \<noteq> ''episodes'' \<Longrightarrow> names d ep t (JStr i)"
  by (auto simp: entity_in_episode_def sql_first_def names_def row_episode_def episode_column_def has_id_def
      dest!: find_Some_iff_mem split: option.splits)

text \<open>What is stored for a value whose text was checked.\<close>

lemma checked_names:
  assumes "entity_in_episode d t (py_str v) ep" and "sql_bind v = Inr w" and "w \<noteq> JNull" and "later d D" and "plain_ids D"
    and "t \<in> set linked_entities"
  shows "names D ep t (convert TextCol w)"
proof -
  have "t \<noteq> ''episodes''" using assms(6) by (auto simp: linked_entities_def)
  with assms have n: "names D ep t (JStr (py_str v))" by (blast intro: later_keeps entity_names)
  then have "py_str v \<noteq> ''True''" "py_str v \<noteq> ''False''"
    using assms(5,6) by (auto simp: names_def plain_ids_def)
  then have "convert TextCol w = JStr (py_str v)" using assms(2,3) by (cases v) auto
  with n show ?thesis by simp
qed

section \<open>Writes of link tables\<close>

lemma insert_cell:
  assumes "insert_row ledger_schema t (make_row (ledger_schema t) ws) d = Inr d'" and "bind_all vs = Inr ws"
    and "find (\<lambda>k. col_name k = c) (ts_columns (ledger_schema t)) = Some k" and "map_of vs c = Some v"
  obtains w where "sql_bind v = Inr w" and "cell (make_row (ledger_schema t) ws) c = convert (col_affinity k) w"
    and "col_not_null k \<longrightarrow> w \<noteq> JNull"
proof -
  obtain w where w: "map_of ws c = Some w" "sql_bind v = Inr w" using bind_all_map_of [OF assms(2,4)] by blast
  then have "cell (make_row (ledger_schema t) ws) c = convert (col_affinity k) w"
    by (simp add: cell_make_row assms(3) dict_get_def)
  moreover have "col_not_null k \<longrightarrow> w \<noteq> JNull"
  proof
    assume "col_not_null k"
    moreover have "k \<in> set (ts_columns (ledger_schema t))" "col_name k = c" using find_Some_iff_mem [OF assms(3)] by auto
    ultimately have "convert (col_affinity k) w \<noteq> JNull"
      using assms(1) \<open>cell _ c = _\<close> by (auto simp: insert_row_def not_null_ok_def list_all_iff split: if_splits)
    then show "w \<noteq> JNull" by (cases "col_affinity k") auto
  qed
  ultimately show thesis using that w(2) by blast
qed

lemma link_columns:
  "ts_columns (ledger_schema ''belief_evidence'') = [tcol ''belief_id'', tcol ''evidence_id'', tcol_null ''span_json'']"
  "ts_columns (ledger_schema ''justification_premises'') = [tcol ''justification_id'', icol ''ordinal'', tcol ''premise_belief_id'']"
  "ts_columns (ledger_schema ''beliefs_fts'') =
     [tcol_null ''belief_id'', tcol_null ''episode_id'', tcol_null ''status'', tcol_null ''content'']"
  by (simp_all add: ledger_schema_def ledger_tables_def SCHEMA_core_def SCHEMA_more_def table_of_def)

lemma scoped_evidence_link:
  assumes "sql_insert ledger_schema ''belief_evidence'' [(''belief_id'', b), (''evidence_id'', ev), (''span_json'', sp)] d = Inr d'"
    and "\<And>w. sql_bind b = Inr w \<Longrightarrow> w \<noteq> JNull \<Longrightarrow> plain_ids D \<Longrightarrow> names D ep ''beliefs'' (convert TextCol w)"
    and "\<And>w. sql_bind ev = Inr w \<Longrightarrow> w \<noteq> JNull \<Longrightarrow> plain_ids D \<Longrightarrow> names D ep ''evidence'' (convert TextCol w)"
  shows "scoped D ep d d'"
proof -
  obtain ws where ws: "bind_all [(''belief_id'', b), (''evidence_id'', ev), (''span_json'', sp)] = Inr ws"
    and ins: "insert_row ledger_schema ''belief_evidence'' (make_row (ledger_schema ''belief_evidence'') ws) d = Inr d'"
    using assms(1) by (auto simp: sql_insert_def splits_result simp del: bind_all.simps)
  obtain w1 where "sql_bind b = Inr w1" "w1 \<noteq> JNull" "cell (make_row (ledger_schema ''belief_evidence'') ws) ''belief_id'' = convert TextCol w1"
    by (rule insert_cell [OF ins ws, of "''belief_id''"]) (auto simp: link_columns tcol_def)
  moreover obtain w2 where "sql_bind ev = Inr w2" "w2 \<noteq> JNull" "cell (make_row (ledger_schema ''belief_evidence'') ws) ''evidence_id'' = convert TextCol w2"
    by (rule insert_cell [OF ins ws, of "''evidence_id''"]) (auto simp: link_columns tcol_def)
  ultimately have "owned D ep ''belief_evidence'' (make_row (ledger_schema ''belief_evidence'') ws)"
    using assms(2,3) by (simp add: owned_def)
  then show ?thesis
    by (intro scoped_step scoped_write.insert [OF _ _ _ ins]) (simp_all add: in_handler_tables link_tables_def)
qed

lemma scoped_premise_link:
  assumes "sql_insert ledger_schema ''justification_premises''
        [(''justification_id'', j), (''ordinal'', n), (''premise_belief_id'', p)] d = Inr d'"
    and "\<And>w. sql_bind j = Inr w \<Longrightarrow> w \<noteq> JNull \<Longrightarrow> plain_ids D \<Longrightarrow> names D ep ''justifications'' (convert TextCol w)"
    and "\<And>w. sql_bind p = Inr w \<Longrightarrow> w \<noteq> JNull \<Longrightarrow> plain_ids D \<Longrightarrow> names D ep ''beliefs'' (convert TextCol w)"
  shows "scoped D ep d d'"
proof -
  obtain ws where ws: "bind_all [(''justification_id'', j), (''ordinal'', n), (''premise_belief_id'', p)] = Inr ws"
    and ins: "insert_row ledger_schema ''justification_premises'' (make_row (ledger_schema ''justification_premises'') ws) d = Inr d'"
    using assms(1) by (auto simp: sql_insert_def splits_result simp del: bind_all.simps)
  obtain w1 where "sql_bind j = Inr w1" "w1 \<noteq> JNull"
    "cell (make_row (ledger_schema ''justification_premises'') ws) ''justification_id'' = convert TextCol w1"
    by (rule insert_cell [OF ins ws, of "''justification_id''"]) (auto simp: link_columns tcol_def icol_def)
  moreover obtain w2 where "sql_bind p = Inr w2" "w2 \<noteq> JNull"
    "cell (make_row (ledger_schema ''justification_premises'') ws) ''premise_belief_id'' = convert TextCol w2"
    by (rule insert_cell [OF ins ws, of "''premise_belief_id''"]) (auto simp: link_columns tcol_def icol_def)
  ultimately have "owned D ep ''justification_premises'' (make_row (ledger_schema ''justification_premises'') ws)"
    using assms(2,3) by (simp add: owned_def)
  then show ?thesis
    by (intro scoped_step scoped_write.insert [OF _ _ _ ins]) (simp_all add: in_handler_tables link_tables_def)
qed

text \<open>The index: the rows of a belief are removed, one row is added.\<close>

lemma text_param_bind: "sql_bind v = Inr w \<Longrightarrow> text_param v = convert TextCol w"
  by (simp add: text_param_def)

lemma text_param_stored: "sql_bind v = Inr w \<Longrightarrow> text_param (convert TextCol w) = convert TextCol w"
  by (cases v) (auto simp: text_param_def)

lemma scoped_index_removal:
  assumes "names D ep ''beliefs'' (text_param i)"
  shows "scoped D ep d (sql_delete ''beliefs_fts'' (\<lambda>r. cell r ''belief_id'' = i) d)"
proof -
  have "unreferenced ledger_schema ''beliefs_fts''"
    by (rule unreferenced_table) (simp add: referenced_tables_def)
  then show ?thesis unfolding sql_delete_def using assms
    by (intro scoped_step scoped_write.remove) (auto simp: in_handler_tables link_tables_def added_only_def owned_def)
qed

lemma scoped_index_row:
  assumes "sql_insert ledger_schema ''beliefs_fts'' [(''belief_id'', i), (''episode_id'', v), (''status'', st), (''content'', text)] d = Inr d'"
    and "names D ep ''beliefs'' (text_param i)" and "py_str v = ep" and "plain_name ep"
  shows "scoped D ep d d'"
proof -
  let ?t = "''beliefs_fts''" and ?vs = "[(''belief_id'', i), (''episode_id'', v), (''status'', st), (''content'', text)]"
  obtain ws where ws: "bind_all ?vs = Inr ws" and ins: "insert_row ledger_schema ?t (make_row (ledger_schema ?t) ws) d = Inr d'"
    using assms(1) by (auto simp: sql_insert_def splits_result simp del: bind_all.simps)
  obtain w1 where w1: "sql_bind i = Inr w1" "cell (make_row (ledger_schema ?t) ws) ''belief_id'' = convert TextCol w1"
    by (rule insert_cell [OF ins ws, of "''belief_id''"]) (auto simp: link_columns tcol_null_def)
  obtain w2 where "sql_bind v = Inr w2" "cell (make_row (ledger_schema ?t) ws) ''episode_id'' = convert TextCol w2"
    by (rule insert_cell [OF ins ws, of "''episode_id''"]) (auto simp: link_columns tcol_null_def)
  then have "row_episode ?t (make_row (ledger_schema ?t) ws) = ep"
    using py_str_stored [of v] assms(3,4) by (simp add: row_episode_def episode_column_def)
  moreover have "owned D ep ?t (make_row (ledger_schema ?t) ws)"
    using assms(2) w1 text_param_stored [OF w1(1)] by (simp add: owned_def text_param_def)
  ultimately show ?thesis
    by (intro scoped_step scoped_write.insert [OF _ _ _ ins]) (simp_all add: in_handler_tables link_tables_def)
qed

text \<open>An update of columns that are neither ids nor references.\<close>

definition safe_columns :: "string \<Rightarrow> string list \<Rightarrow> bool" where
  "safe_columns t cs =
     list_all (\<lambda>c. c \<noteq> ''id'' \<and> c \<noteq> episode_column t \<and> c \<notin> set (map fst (ts_references (ledger_schema t)))) cs"

lemma bind_all_keys: "bind_all vs = Inr ws \<Longrightarrow> map fst ws = map fst vs"
  by (induction vs arbitrary: ws rule: bind_all.induct) (auto simp: splits_result)

lemma scoped_update_rows:
  assumes "update_rows ledger_schema t p f d = Inr d'"
    and "consistent ledger_schema d \<Longrightarrow> \<forall>r\<in>set (d t). p r \<longrightarrow> row_episode t r = ep"
    and "\<And>r c. safe_columns t cs \<Longrightarrow> c \<notin> set cs \<Longrightarrow> cell (f r) c = cell r c" and "safe_columns t cs" and "t \<in> ts"
    and "t \<notin> set link_tables"
  shows "writes D ts ep d d'"
proof (rule scoped_step)
  assume "consistent ledger_schema d"
  moreover have "\<forall>r. \<forall>c\<in>{''id'', episode_column t} \<union> fst ` set (ts_references (ledger_schema t)).
      cell (f r) c = cell r c"
    using assms(3,4) unfolding safe_columns_def list_all_iff by (metis (no_types, lifting) Un_iff empty_iff insert_iff set_map)
  ultimately show "scoped_write D ts ep d d'" using assms(1,2,5,6) by (blast intro: scoped_write.update)
qed

lemma scoped_update:
  assumes "sql_update ledger_schema t vs p d = Inr d'" and "safe_columns t (map fst vs)"
    and "consistent ledger_schema d \<Longrightarrow> \<forall>r\<in>set (d t). p r \<longrightarrow> row_episode t r = ep"
    and "t \<in> ts" and "t \<notin> set link_tables"
  shows "writes D ts ep d d'"
proof -
  obtain ws where ws: "bind_all vs = Inr ws"
    and u: "update_rows ledger_schema t p (assign (ledger_schema t) ws) d = Inr d'"
    using assms(1) by (auto simp: sql_update_def splits_result)
  show ?thesis
  proof (rule scoped_update_rows [OF u assms(3) _ assms(2,4,5)])
    fix r c
    assume "c \<notin> set (map fst vs)"
    then have "c \<notin> fst ` set ws" using bind_all_keys [OF ws] by (metis set_map)
    then show "cell (assign (ledger_schema t) ws r) c = cell r c" by (rule cell_assign)
  qed
qed

lemma no_clash_unique:
  "no_clash ts rs \<Longrightarrow> r \<in> set rs \<Longrightarrow> r' \<in> set rs \<Longrightarrow> clashes ts r r' \<Longrightarrow> r = r'"
  by (metis in_set_conv_nth no_clash_nth)

text \<open>Ids are keys: the entity an event names is the only row with its id.\<close>

definition keyed_by_id :: "string \<Rightarrow> bool" where
  "keyed_by_id t = ([''id''] \<in> set (ts_keys (ledger_schema t)))"

lemma entity_rows:
  assumes "consistent ledger_schema d" and "keyed_by_id t" and "entity_in_episode d t i ep"
    and "t \<noteq> ''episodes''"
  shows "\<forall>r\<in>set (d t). has_id i r \<longrightarrow> row_episode t r = ep"
proof (intro ballI impI)
  fix r
  assume r: "r \<in> set (d t)" "has_id i r"
  obtain r0 where r0: "r0 \<in> set (d t)" "has_id i r0" and ep: "py_str (cell r0 ''episode_id'') = ep"
    using assms(3) by (auto simp: entity_in_episode_def sql_first_def dest: find_Some_iff_mem split: option.splits)
  have "clash [''id''] r r0" using r(2) r0(2) by (simp add: clash_def key_cells_def has_id_def)
  with assms(2) have "clashes (ledger_schema t) r r0"
    by (auto simp: clashes_def keyed_by_id_def list_ex_iff)
  moreover have "no_clash (ledger_schema t) (d t)" using assms(1) by (simp add: consistent_def)
  ultimately have "r = r0" using r(1) r0(1) by (blast intro: no_clash_unique)
  with ep assms(4) show "row_episode t r = ep" by (simp add: row_episode_def episode_column_def)
qed

lemma keyed_tables:
  "keyed_by_id ''sources''" "keyed_by_id ''evidence''" "keyed_by_id ''beliefs''"
  "keyed_by_id ''ingestion_supports''" "keyed_by_id ''justifications''" "keyed_by_id ''defeats''"
  "keyed_by_id ''verification_tasks''" "keyed_by_id ''conflicts''" "keyed_by_id ''retraction_notices''"
  by code_simp+

end
