(* ===== verification/Projection_Props.thy ===== *)
theory Projection_Props
  imports Projection_Writes
begin

text \<open>
  Every handler performs writes of the event's episode only (\<open>apply_event_scoped\<close>); the
  constraints of the schema and the isolation of the other episodes follow. The last section runs
  the handlers on a small episode whose second completed verification is refused.
\<close>

section \<open>Readings and checks\<close>

lemmas tables = scoped_tables_def link_tables_def in_handler_tables episode_tables_def columns_of_def event_columns_def

lemma require_entity_iff [splits_result]:
  "require_entity t i ep d = Inr d' \<longleftrightarrow> d' = d \<and> entity_in_episode d t i ep"
  by (auto simp: require_entity_def)

lemma require_field_iff [splits_result]:
  "require_field t k r ep d = Inr d' \<longleftrightarrow> (\<exists>v. item k r = Inr v \<and> d' = d \<and> entity_in_episode d t (py_str v) ep)"
  by (auto simp: require_field_def splits_result)

lemma require_episode_iff [splits_result]:
  "require_episode ep d = Inr d' \<longleftrightarrow> d' = d \<and> sql_first ''episodes'' (has_id ep) d \<noteq> None"
  by (auto simp: require_episode_def)

definition of_episode :: "fields_of \<Rightarrow> string \<Rightarrow> bool" where
  "of_episode r ep \<longleftrightarrow> py_str (dict_get r ''episode_id'' (JStr [])) = ep"

lemma of_episode_item: "of_episode r ep \<Longrightarrow> item ''episode_id'' r = Inr v \<Longrightarrow> py_str v = ep"
  by (auto simp: of_episode_def item_def dict_item_def dict_get_def split: option.splits)

lemma record_for_event_iff [splits_result]:
  "record_for_event e = Inr r \<longleftrightarrow>
     mapping_of (dict_get (payload e) ''record'' JNull) = Inr r \<and> of_episode r (ev_episode_id e)"
  by (auto simp: record_for_event_def of_episode_def splits_result)

lemma read_columns_map_of:
  "read_columns cols r = Inr vs \<Longrightarrow> map_of cols c = Some f \<Longrightarrow> \<exists>v. map_of vs c = Some v \<and> f r = Inr v"
  by (induction cols arbitrary: vs) (auto simp: splits_result split: if_splits)

lemma read_columns_keys: "read_columns cols r = Inr vs \<Longrightarrow> map fst vs = map fst cols"
  by (induction cols arbitrary: vs) (auto simp: splits_result)

lemma insert_record_scoped:
  assumes "insert_record t cols r d = Inr d'" and "t \<in> set scoped_tables"
    and "map_of cols (episode_column t) = Some f" and "\<And>v. f r = Inr v \<Longrightarrow> py_str v = ep" and "plain_name ep"
  shows "scoped D ep d d'"
proof -
  obtain vs where vs: "read_columns cols r = Inr vs" and ins: "sql_insert ledger_schema t vs d = Inr d'"
    using assms(1) by (auto simp: insert_record_def splits_result)
  obtain v where "map_of vs (episode_column t) = Some v" and "f r = Inr v"
    using read_columns_map_of [OF vs assms(3)] by blast
  with assms(2,4) show ?thesis
    by (intro scoped_insert [OF ins _ _ _ _ assms(5)]) (auto simp: handler_tables_def episode_tables_def)
qed

lemma insert_record_binds:
  assumes "insert_record t cols r d = Inr d'" and "map_of cols c = Some f"
  shows "\<exists>v w. f r = Inr v \<and> sql_bind v = Inr w"
proof -
  obtain vs ws where vs: "read_columns cols r = Inr vs" and ws: "bind_all vs = Inr ws"
    using assms(1) by (auto simp: insert_record_def sql_insert_def splits_result)
  obtain v where "map_of vs c = Some v" and "f r = Inr v"
    using read_columns_map_of [OF vs assms(2)] by blast
  with bind_all_map_of [OF ws] show ?thesis by blast
qed

text \<open>The two forms of a record's episode: the field of the record, or the event's episode.\<close>

lemma record_scoped:
  assumes "insert_record t cols r d = Inr d'" and "of_episode r ep" and "plain_name ep"
    and "t \<in> set scoped_tables" and "t \<noteq> ''episodes''"
    and "map_of cols ''episode_id'' = Some (item ''episode_id'')"
  shows "scoped D ep d d'"
  using assms by (intro insert_record_scoped [OF assms(1)]) (auto simp: episode_column_def dest: of_episode_item)

lemma event_row_scoped:
  assumes "insert_record t cols r d = Inr d'" and "plain_name ep"
    and "t \<in> set scoped_tables" and "t \<noteq> ''episodes''"
    and "map_of cols ''episode_id'' = Some (just (JStr ep))"
  shows "scoped D ep d d'"
  using assms by (intro insert_record_scoped [OF assms(1)]) (auto simp: episode_column_def just_def)

lemma update_where_scoped:
  assumes "update_where t cols r p d = Inr d'" and "safe_columns t (map fst cols)"
    and "consistent ledger_schema d \<Longrightarrow> \<forall>r\<in>set (d t). p r \<longrightarrow> row_episode t r = ep"
    and "t \<in> set scoped_tables"
  shows "scoped D ep d d'"
proof -
  obtain vs where "read_columns cols r = Inr vs" and "sql_update ledger_schema t vs p d = Inr d'"
    using assms(1) by (auto simp: update_where_def splits_result)
  with assms(2-4) show ?thesis
    by (intro scoped_update [of t vs p]) (auto simp: read_columns_keys handler_tables_def scoped_tables_def link_tables_def)
qed

lemma entity_update_scoped:
  assumes "update_where t cols r (has_id i) d = Inr d'" and "entity_in_episode d t i ep"
    and "keyed_by_id t" and "t \<noteq> ''episodes''" and "safe_columns t (map fst cols)"
    and "t \<in> set scoped_tables"
  shows "scoped D ep d d'"
  using update_where_scoped [OF assms(1,5) _ assms(6)] entity_rows [OF _ assms(3,2,4)] by blast

lemma entity_set_scoped:
  assumes "sql_update ledger_schema t vs (has_id i) d = Inr d'" and "entity_in_episode d t i ep"
    and "keyed_by_id t" and "t \<noteq> ''episodes''" and "safe_columns t (map fst vs)"
    and "t \<in> set scoped_tables"
  shows "scoped D ep d d'"
proof (rule scoped_update [OF assms(1,5)])
  show "t \<in> handler_tables" "t \<notin> set link_tables" using assms(6) by (auto simp: tables)
qed (use entity_rows [OF _ assms(3,2,4)] in blast)

lemma entity_then_update:
  assumes "and_then (require_entity t i ep d) (update_where t cols r (has_id i)) = Inr d'"
    and "keyed_by_id t" and "t \<noteq> ''episodes''" and "safe_columns t (map fst cols)"
    and "t \<in> set scoped_tables"
  shows "scoped D ep d d'"
  using assms by (auto simp: splits_result intro: entity_update_scoped)

lemma entity_then_set:
  assumes "and_then (require_entity t i ep d) (sql_update ledger_schema t vs (has_id i)) = Inr d'"
    and "keyed_by_id t" and "t \<noteq> ''episodes''" and "safe_columns t (map fst vs)"
    and "t \<in> set scoped_tables"
  shows "scoped D ep d d'"
  using assms by (auto simp: splits_result intro: entity_set_scoped)

lemma episode_update_scoped:
  assumes "update_where ''episodes'' cols r (has_id ep) d = Inr d'" and "safe_columns ''episodes'' (map fst cols)"
  shows "scoped D ep d d'"
  by (rule update_where_scoped [OF assms]) (auto simp: row_episode_def episode_column_def has_id_def scoped_tables_def)

section \<open>Episodes, sources and evidence\<close>

lemma safe_episode_columns:
  "safe_columns ''episodes'' [''current_turn'', ''updated_at'']"
  "safe_columns ''episodes'' [''default_stakes'', ''updated_at'']"
  "safe_columns ''episodes'' [''state'', ''updated_at'']"
  "safe_columns ''episodes'' [''state'', ''updated_at'', ''episode_key'']"
  "safe_columns ''episodes'' [''llm_calls_used'', ''input_tokens_used'', ''output_tokens_used'']"
  by code_simp+

lemma episode_handlers_scoped:
  "plain_name (ev_episode_id e) \<Longrightarrow> apply_episode_created e d = Inr d' \<Longrightarrow> scoped D (ev_episode_id e) d d'"
  "apply_episode_turn_started e d = Inr d' \<Longrightarrow> scoped D (ev_episode_id e) d d'"
  "apply_episode_stakes_changed e d = Inr d' \<Longrightarrow> scoped D (ev_episode_id e) d d'"
  "apply_episode_state_changed e d = Inr d' \<Longrightarrow> scoped D (ev_episode_id e) d d'"
proof -
  show "scoped D (ev_episode_id e) d d'"
    if plain: "plain_name (ev_episode_id e)" and created: "apply_episode_created e d = Inr d'"
  proof -
    obtain r where "py_str (dict_get r ''id'' (JStr [])) = ev_episode_id e" and "episode_created r d = Inr d'"
      using created by (auto simp: apply_episode_created_def splits_result split: if_splits)
    with plain show ?thesis unfolding episode_created_def
      by (elim insert_record_scoped [where f = "item ''id''"])
        (auto simp: tables episode_column_def item_def dict_item_def dict_get_def split: option.splits)
  qed
  show "apply_episode_turn_started e d = Inr d' \<Longrightarrow> scoped D (ev_episode_id e) d d'"
    unfolding apply_episode_turn_started_def by (erule episode_update_scoped) (simp add: safe_episode_columns)
  show "apply_episode_stakes_changed e d = Inr d' \<Longrightarrow> scoped D (ev_episode_id e) d d'"
    unfolding apply_episode_stakes_changed_def by (erule episode_update_scoped) (simp add: safe_episode_columns)
  show "apply_episode_state_changed e d = Inr d' \<Longrightarrow> scoped D (ev_episode_id e) d d'"
    unfolding apply_episode_state_changed_def by (erule episode_update_scoped) (simp add: safe_episode_columns)
qed

lemma source_registered_scoped:
  "source_registered r d = Inr d' \<Longrightarrow> of_episode r ep \<Longrightarrow> plain_name ep \<Longrightarrow> scoped D ep d d'"
  unfolding source_registered_def by (erule record_scoped) (simp_all add: tables)

lemma evidence_ingested_scoped:
  assumes "evidence_ingested r d = Inr d'" and "of_episode r ep" and "plain_name ep"
  shows "scoped D ep d d'"
  using assms unfolding evidence_ingested_def splits_result
  by (elim exE conjE) (hypsubst, erule record_scoped, simp_all add: tables)

lemma safe_source_columns:
  "safe_columns ''sources'' [''stats_json'', ''competence_json'']" "safe_columns ''sources'' [''stats_json'']"
  by code_simp+

lemma source_stats_scoped:
  "apply_source_stats_updated e d = Inr d' \<Longrightarrow> scoped D (ev_episode_id e) d d'"
  "apply_source_stats_delta e d = Inr d' \<Longrightarrow> scoped D (ev_episode_id e) d d'"
proof -
  show "apply_source_stats_updated e d = Inr d' \<Longrightarrow> scoped D (ev_episode_id e) d d'"
    unfolding apply_source_stats_updated_def by (erule entity_then_update) (simp_all add: tables keyed_tables safe_source_columns)
  show "apply_source_stats_delta e d = Inr d' \<Longrightarrow> scoped D (ev_episode_id e) d d'"
    by (auto simp: apply_source_stats_delta_def splits_result tables keyed_tables safe_source_columns
        split: option.splits elim!: entity_set_scoped)
qed

section \<open>Justifications and beliefs\<close>

text \<open>What was checked stays: the entities that are linked are those of the episode in the end.\<close>

lemma later_insert_record: "insert_record t cols r d = Inr d' \<Longrightarrow> later d d'"
  by (auto simp: insert_record_def splits_result dest: later_insert)

lemma later_insert_premises: "insert_premises j n ps d = Inr d' \<Longrightarrow> later d d'"
proof (induction j n ps d rule: insert_premises.induct)
  case (2 j n p ps d)
  from "2.prems" obtain d1 where d1: "insert_into ''justification_premises''
      [(''justification_id'', j), (''ordinal'', JInt (int n)), (''premise_belief_id'', p)] d = Inr d1"
    and rest: "insert_premises j (Suc n) ps d1 = Inr d'"
    by (auto simp: splits_result)
  from later_insert [OF d1] "2.IH" [OF d1 rest] show ?case by (rule later_trans)
qed simp

lemma later_fts_replace: "fts_replace fts i ep st text d = Inr d' \<Longrightarrow> later d d'"
proof -
  assume f: "fts_replace fts i ep st text d = Inr d'"
  have "later d (sql_delete ''beliefs_fts'' p d)" for p by (rule later_delete) (simp add: linked_entities_def)
  with f show ?thesis unfolding fts_replace_def by (auto intro: later_trans later_insert split: if_splits)
qed

lemma later_evidence_ref: "insert_evidence_ref i ref d = Inr d' \<Longrightarrow> later d d'"
  by (auto simp: insert_evidence_ref_def splits_result dest: later_insert)

lemma later_justification_added: "justification_added ep r d = Inr d' \<Longrightarrow> later d d'"
proof -
  assume "justification_added ep r d = Inr d'"
  then obtain ps d1 d2 i cols where "fold_result (\<lambda>p. require_entity ''beliefs'' (py_str p) ep) ps d = Inr d1"
    and "insert_record ''justifications'' cols r d1 = Inr d2" and "insert_premises i 0 ps d2 = Inr d'"
    unfolding justification_added_def splits_result by blast
  moreover from this(1) have "later d d1" by (rule later_fold) (simp add: splits_result)
  ultimately show "later d d'" by (meson later_insert_record later_insert_premises later_trans)
qed

lemma later_index_belief: "index_belief h r d = Inr d' \<Longrightarrow> later d d'"
  by (auto simp: index_belief_def splits_result Let_def dest: later_insert_record later_trans)

text \<open>The entity a record adds, under the id that is stored for it.\<close>

lemma inserted_names:
  assumes "insert_record t cols r d = Inr d'" and "t \<in> set linked_entities" and "map_of cols ''id'' = Some (item ''id'')"
    and "map_of cols ''episode_id'' = Some f" and "\<And>v. f r = Inr v \<Longrightarrow> py_str v = ep" and "plain_name ep"
    and "item ''id'' r = Inr i"
  shows "names d' ep t (text_param i)"
proof -
  obtain vs ws where vs: "read_columns cols r = Inr vs" and ws: "bind_all vs = Inr ws"
    and ins: "insert_row ledger_schema t (make_row (ledger_schema t) ws) d = Inr d'"
    using assms(1) by (auto simp: insert_record_def sql_insert_def splits_result)
  have col: "find (\<lambda>k. col_name k = ''id'') (ts_columns (ledger_schema t)) = Some (tcol_null ''id'')"
    using assms(2) unfolding linked_entities_def list.set by (elim insertE emptyE; hypsubst; code_simp)
  have t: "t \<in> set episode_tables" "episode_column t = ''episode_id''"
    using assms(2) by (auto simp: linked_entities_def episode_tables_def scoped_tables_def episode_column_def)
  have "map_of vs ''id'' = Some i" using read_columns_map_of [OF vs assms(3)] assms(7) by auto
  then obtain w where "sql_bind i = Inr w" and "cell (make_row (ledger_schema t) ws) ''id'' = convert (col_affinity (tcol_null ''id'')) w"
    by (rule insert_cell [OF ins ws col])
  then have id: "cell (make_row (ledger_schema t) ws) ''id'' = text_param i"
    by (simp add: tcol_null_def text_param_def)
  obtain v where "map_of vs ''episode_id'' = Some v" "f r = Inr v" using read_columns_map_of [OF vs assms(4)] by blast
  with stored_episode [OF t(1) ws, of v] assms(5,6) t(2) have "row_episode t (make_row (ledger_schema t) ws) = ep" by simp
  with id ins show ?thesis by (auto simp: names_def insert_row_def split: if_splits)
qed

lemma insert_premises_scoped:
  assumes "insert_premises j n ps d = Inr d'" and "names D ep ''justifications'' (text_param j)" and "later d0 D"
    and "\<forall>p\<in>set ps. entity_in_episode d0 ''beliefs'' (py_str p) ep"
  shows "scoped D ep d d'"
  using assms(1,2,4)
proof (induction j n ps d rule: insert_premises.induct)
  case (2 j n p ps d)
  from "2.prems"(1) obtain d1 where d1: "insert_into ''justification_premises''
      [(''justification_id'', j), (''ordinal'', JInt (int n)), (''premise_belief_id'', p)] d = Inr d1"
    and rest: "insert_premises j (Suc n) ps d1 = Inr d'"
    by (auto simp: splits_result)
  have "names D ep ''beliefs'' (convert TextCol w)" if "sql_bind p = Inr w" "w \<noteq> JNull" "plain_ids D" for w
    using that "2.prems"(3) assms(3) by (intro checked_names [where d = d0 and v = p]) (simp_all add: linked_entities_def)
  moreover have "names D ep ''justifications'' (convert TextCol w)" if "sql_bind j = Inr w" for w
    using "2.prems"(2) by (simp add: text_param_bind [OF that])
  ultimately have "scoped D ep d d1" using d1 by (intro scoped_premise_link)
  from this "2.IH" [OF d1 rest] "2.prems"(2,3) show ?case by (auto intro: scoped_trans)
qed simp

lemma checks_same:
  assumes "fold_result f xs d = Inr d'" and "\<And>x d d'. f x d = Inr d' \<Longrightarrow> d' = d"
  shows "d' = d"
  using fold_result_invariant [OF assms(1), of "\<lambda>x. x = d"] assms(2) by blast

lemma justification_added_scoped:
  assumes "justification_added ep r d = Inr d'" and "plain_name ep" and "later d' D"
  shows "scoped D ep d d'"
proof -
  let ?cols = "[(''id'', item ''id''), (''episode_id'', just (JStr ep)),
                  (''belief_id'', item ''belief_id''), (''warrant'', item ''warrant''),
                  (''audit_json'', canonical_or_null ''audit''),
                  (''alternatives_json'', as_canonical (get_or ''alternatives'' (JArr [])))]"
  obtain ps d1 d2 i where checks: "fold_result (\<lambda>p. require_entity ''beliefs'' (py_str p) ep) ps d = Inr d1"
    and row: "insert_record ''justifications'' ?cols r d1 = Inr d2"
    and i: "item ''id'' r = Inr i" and prems: "insert_premises i 0 ps d2 = Inr d'"
    using assms(1) unfolding justification_added_def splits_result by blast
  have "d1 = d" by (rule checks_same [OF checks]) (simp add: splits_result)
  with checks have entities: "\<forall>p\<in>set ps. entity_in_episode d ''beliefs'' (py_str p) ep"
    by (induction ps arbitrary: d) (auto simp: splits_result)
  have later: "later d2 D" "later d D"
    using later_insert_premises [OF prems] later_insert_record [OF row] assms(3) \<open>d1 = d\<close> by (blast intro: later_trans)+
  have "names d2 ep ''justifications'' (text_param i)"
    by (rule inserted_names [OF row _ _ _ _ assms(2) i]) (auto simp: linked_entities_def just_def)
  then have "names D ep ''justifications'' (text_param i)"
    by (rule later_keeps [OF later(1), rotated]) (simp add: linked_entities_def)
  then have "scoped D ep d2 d'" by (rule insert_premises_scoped [OF prems _ later(2) entities])
  moreover have "scoped D ep d1 d2" by (rule event_row_scoped [OF row assms(2)]) (simp_all add: tables)
  ultimately show ?thesis using \<open>d1 = d\<close> scoped_trans by blast
qed

lemma safe_other_columns:
  "safe_columns ''justifications'' [''audit_json'']" "safe_columns ''beliefs'' [''status'']"
  "safe_columns ''beliefs'' [''admission_status'']" "safe_columns ''beliefs'' [''observed_at'']"
  "safe_columns ''beliefs'' [''corroboration'']" "safe_columns ''ingestion_supports'' [''active'']"
  "safe_columns ''defeats'' [''active'']" "safe_columns ''verification_tasks'' [''result'', ''state'']"
  "safe_columns ''conflicts'' [''state'']" "safe_columns ''retraction_notices'' [''state'']"
  "safe_columns ''unpromoted_evidence'' [''state'', ''reason'']"
  "safe_columns ''event_heads'' [''seq'', ''event_hash'']"
  by code_simp+

lemma justification_handlers_scoped:
  "plain_name (ev_episode_id e) \<Longrightarrow> apply_justification_added e d = Inr d' \<Longrightarrow> later d' D \<Longrightarrow> scoped D (ev_episode_id e) d d'"
  "apply_justification_audited e d = Inr d' \<Longrightarrow> scoped D (ev_episode_id e) d d'"
proof -
  show "plain_name (ev_episode_id e) \<Longrightarrow> apply_justification_added e d = Inr d' \<Longrightarrow> later d' D \<Longrightarrow> scoped D (ev_episode_id e) d d'"
    unfolding apply_justification_added_def splits_result by (blast intro: justification_added_scoped)
  show "apply_justification_audited e d = Inr d' \<Longrightarrow> scoped D (ev_episode_id e) d d'"
    unfolding apply_justification_audited_def by (erule entity_then_update) (simp_all add: tables keyed_tables safe_other_columns)
qed

lemma fts_replace_scoped:
  assumes "fts_replace fts i v st text d = Inr d'" and "names D ep ''beliefs'' (text_param i)" and "py_str v = ep"
    and "plain_name ep"
  shows "scoped D ep d d'"
proof (cases fts)
  case True
  with assms(1) have "insert_into ''beliefs_fts''
      [(''belief_id'', i), (''episode_id'', v), (''status'', st), (''content'', text)]
      (sql_delete ''beliefs_fts'' (\<lambda>r. cell r ''belief_id'' = i) d) = Inr d'"
    by (simp add: fts_replace_def)
  from scoped_index_row [OF this assms(2-4)] scoped_index_removal [OF assms(2)] show ?thesis
    by (blast intro: scoped_trans)
qed (use assms(1) in \<open>simp add: fts_replace_def\<close>)

lemma belief_rows_scoped:
  "insert_belief h r d = Inr d' \<Longrightarrow> of_episode r ep \<Longrightarrow> plain_name ep \<Longrightarrow> scoped D ep d d'"
  "index_belief h r d = Inr d' \<Longrightarrow> of_episode r ep \<Longrightarrow> plain_name ep \<Longrightarrow> scoped D ep d d'"
proof -
  show "insert_belief h r d = Inr d' \<Longrightarrow> of_episode r ep \<Longrightarrow> plain_name ep \<Longrightarrow> scoped D ep d d'"
    unfolding insert_belief_def by (erule record_scoped) (simp_all add: tables)
  show "scoped D ep d d'" if idx: "index_belief h r d = Inr d'" and ep: "of_episode r ep" "plain_name ep"
  proof -
    obtain d1 root where roots: "insert_record ''source_roots''
              [(''episode_id'', item ''episode_id''), (''belief_id'', item ''id''),
               (''root'', just root), (''transport'', get_or ''transport'' JNull)] r d = Inr d1"
      and prints: "insert_record ''content_fingerprints''
              [(''episode_id'', item ''episode_id''), (''belief_id'', item ''id''),
               (''source_root'', just root), (''fingerprint'', just (JStr h))] r d1 = Inr d'"
      using idx unfolding index_belief_def splits_result Let_def by blast
    from roots ep have "scoped D ep d d1" by (elim record_scoped) (simp_all add: tables)
    moreover from prints ep have "scoped D ep d1 d'" by (elim record_scoped) (simp_all add: tables)
    ultimately show ?thesis by (rule scoped_trans)
  qed
qed

lemma evidence_refs_scoped:
  assumes "fold_result (insert_evidence_ref i) refs d = Inr d'" and "names D ep ''beliefs'' (text_param i)" and "later d0 D"
    and "fold_result (require_evidence_ref ep) refs d0 = Inr d1"
  shows "scoped D ep d d'"
proof (rule scoped_fold [OF assms(1)])
  fix ref d d'
  assume ref: "ref \<in> set refs" and "insert_evidence_ref i ref d = Inr d'"
  then obtain kvs ev sp where kvs: "object_of ref = Inr kvs" "item ''evidence_id'' kvs = Inr ev"
    and ins: "insert_into ''belief_evidence'' [(''belief_id'', i), (''evidence_id'', ev), (''span_json'', sp)] d = Inr d'"
    by (auto simp: insert_evidence_ref_def splits_result)
  have same: "require_evidence_ref ep x d2 = Inr d3 \<Longrightarrow> d3 = d2" for x d2 d3
    by (auto simp: require_evidence_ref_def splits_result)
  have "\<forall>ref\<in>set refs. require_evidence_ref ep ref d0 = Inr d0"
    using assms(4) by (induction refs arbitrary: d0) (auto simp: splits_result dest: same)
  with ref kvs have "entity_in_episode d0 ''evidence'' (py_str ev) ep"
    by (fastforce simp: require_evidence_ref_def splits_result)
  then have "names D ep ''evidence'' (convert TextCol w)" if "sql_bind ev = Inr w" "w \<noteq> JNull" "plain_ids D" for w
    using that assms(3) by (intro checked_names [where d = d0 and v = ev]) (simp_all add: linked_entities_def)
  moreover have "names D ep ''beliefs'' (convert TextCol w)" if "sql_bind i = Inr w" for w
    using assms(2) by (simp add: text_param_bind [OF that])
  ultimately show "scoped D ep d d'" using ins by (intro scoped_evidence_link)
qed

lemma belief_admitted_scoped:
  assumes "belief_admitted sha fts r d = Inr d'" and "of_episode r ep" and "plain_name ep" and "later d' D"
  shows "scoped D ep d d'"
proof -
  obtain v refs d1 words d2 i d3 js d4 d5 st body where v: "item ''episode_id'' r = Inr v"
    and checks: "fold_result (require_evidence_ref (py_str v)) refs d = Inr d1"
    and belief: "insert_belief (sha (py_str words)) r d1 = Inr d2" and i: "item ''id'' r = Inr i"
    and ev: "fold_result (insert_evidence_ref i) refs d2 = Inr d3"
    and justs: "fold_result (\<lambda>j d. and_then (object_of j) (\<lambda>kvs. justification_added (py_str v) kvs d)) js d3 = Inr d4"
    and idx: "index_belief (sha (py_str words)) r d4 = Inr d5"
    and fts: "fts_replace fts i v st body d5 = Inr d'"
    using assms(1) unfolding belief_admitted_def splits_result Let_def by blast
  have ep: "py_str v = ep" using of_episode_item [OF assms(2) v] .
  have same: "d1 = d" using checks
    by (rule checks_same) (unfold require_evidence_ref_def splits_result, blast)
  have later: "later d5 D" "later d4 D" "later d2 D" "later d D"
  proof -
    show d5: "later d5 D" using later_fts_replace [OF fts] assms(4) by (rule later_trans)
    show d4: "later d4 D" using later_index_belief [OF idx] d5 by (rule later_trans)
    have "later d3 d4" using justs by (rule later_fold) (auto simp: splits_result dest: later_justification_added)
    moreover have "later d2 d3" using ev by (rule later_fold) (rule later_evidence_ref)
    ultimately show d2: "later d2 D" using d4 by (blast intro: later_trans)
    have "later d1 d2" using belief unfolding insert_belief_def by (rule later_insert_record)
    with d2 same show "later d D" by (blast intro: later_trans)
  qed
  have "names d2 ep ''beliefs'' (text_param i)"
    using belief unfolding insert_belief_def
    by (rule inserted_names [OF _ _ _ _ _ assms(3) i, where f = "item ''episode_id''"])
      (auto simp: linked_entities_def columns_of_def dest: of_episode_item [OF assms(2)])
  then have own: "names D ep ''beliefs'' (text_param i)"
    by (rule later_keeps [OF later(3), rotated]) (simp add: linked_entities_def)
  have "scoped D ep d d2" using belief_rows_scoped(1) [OF belief assms(2,3)] same by simp
  also have "scoped D ep d2 d3" by (rule evidence_refs_scoped [OF ev own later(4) checks [unfolded ep]])
  also have "scoped D ep d3 d4"
    using justs later(2)
  proof (induction js arbitrary: d3)
    case (Cons j js)
    then obtain dj kvs where j: "justification_added ep kvs d3 = Inr dj"
      and rest: "fold_result (\<lambda>j d. and_then (object_of j) (\<lambda>kvs. justification_added (py_str v) kvs d)) js dj = Inr d4"
      by (auto simp: splits_result ep)
    have "later dj d4" using rest by (rule later_fold) (auto simp: splits_result dest: later_justification_added)
    then have "later dj D" using Cons.prems(2) by (rule later_trans)
    with j have "scoped D ep d3 dj" by (intro justification_added_scoped [OF j assms(3)])
    with Cons.IH [OF rest Cons.prems(2)] show ?case by (blast intro: scoped_trans)
  qed simp
  also have "scoped D ep d4 d5" by (rule belief_rows_scoped(2) [OF idx assms(2,3)])
  also have "scoped D ep d5 d'" by (rule fts_replace_scoped [OF fts own ep assms(3)])
  finally show ?thesis .
qed

text \<open>A belief keeps its id and its episode when its status changes.\<close>

lemma update_names:
  assumes "sql_update ledger_schema t vs p d = Inr d'" and "safe_columns t (map fst vs)" and "r' \<in> set (d' t)"
  obtains r where "r \<in> set (d t)" and "cell r' ''id'' = cell r ''id''" and "row_episode t r' = row_episode t r"
proof -
  obtain ws where ws: "bind_all vs = Inr ws" and "update_rows ledger_schema t p (assign (ledger_schema t) ws) d = Inr d'"
    using assms(1) by (auto simp: sql_update_def splits_result)
  then obtain r where r: "r \<in> set (d t)" "r' = (if p r then assign (ledger_schema t) ws r else r)"
    using assms(3) by (auto simp: update_rows_def Let_def split: if_splits)
  have "fst ` set ws = fst ` set vs" using bind_all_keys [OF ws] by (metis set_map)
  then have "''id'' \<notin> fst ` set ws" "episode_column t \<notin> fst ` set ws"
    using assms(2) by (auto simp: safe_columns_def list_all_iff)
  with r that show thesis by (auto simp: row_episode_def cell_assign)
qed

lemma later_update:
  assumes "sql_update ledger_schema t vs p d = Inr d'" and "safe_columns t (map fst vs)"
  shows "later d d'"
proof -
  obtain ws where ws: "bind_all vs = Inr ws" and u: "update_rows ledger_schema t p (assign (ledger_schema t) ws) d = Inr d'"
    using assms(1) by (auto simp: sql_update_def splits_result)
  have "fst ` set ws = fst ` set vs" using bind_all_keys [OF ws] by (metis set_map)
  then have "''id'' \<notin> fst ` set ws" "episode_column t \<notin> fst ` set ws"
    using assms(2) by (auto simp: safe_columns_def list_all_iff)
  then have same: "cell (assign (ledger_schema t) ws r) ''id'' = cell r ''id''"
    "row_episode t (assign (ledger_schema t) ws r) = row_episode t r" for r
    by (simp_all add: row_episode_def cell_assign)
  have "\<exists>b'\<in>set (d' u). cell b' ''id'' = cell b ''id'' \<and> row_episode u b' = row_episode u b" if "b \<in> set (d u)" for u b
    using u that same by (intro bexI [of _ "if u = t \<and> p b then assign (ledger_schema t) ws b else b"])
      (auto simp: update_rows_def Let_def split: if_splits)
  then show ?thesis by (fastforce simp: later_def names_def)
qed

lemma belief_handlers_scoped:
  "plain_name (ev_episode_id e) \<Longrightarrow> apply_belief_admitted sha fts e d = Inr d' \<Longrightarrow> later d' D \<Longrightarrow> scoped D (ev_episode_id e) d d'"
  "plain_name (ev_episode_id e) \<Longrightarrow> apply_belief_status_changed fts e d = Inr d' \<Longrightarrow> later d' D \<Longrightarrow> scoped D (ev_episode_id e) d d'"
  "apply_belief_admission_changed e d = Inr d' \<Longrightarrow> scoped D (ev_episode_id e) d d'"
  "apply_belief_corroboration_changed e d = Inr d' \<Longrightarrow> scoped D (ev_episode_id e) d d'"
proof -
  show "plain_name (ev_episode_id e) \<Longrightarrow> apply_belief_admitted sha fts e d = Inr d' \<Longrightarrow> later d' D \<Longrightarrow> scoped D (ev_episode_id e) d d'"
    unfolding apply_belief_admitted_def splits_result by (blast intro: belief_admitted_scoped)
  show "scoped D (ev_episode_id e) d d'" if plain: "plain_name (ev_episode_id e)"
    and changed: "apply_belief_status_changed fts e d = Inr d'" and later: "later d' D"
  proof -
    let ?i = "ev_aggregate_id e"
    obtain st d1 where ent: "entity_in_episode d ''beliefs'' ?i (ev_episode_id e)"
      and set: "sql_update ledger_schema ''beliefs'' [(''status'', st)] (has_id ?i) d = Inr d1"
      and rest: "(case sql_first ''beliefs'' (has_id ?i) d1 of
         None \<Rightarrow> Inr d1
       | Some b \<Rightarrow> fts_replace fts (JStr ?i) (JStr (py_str (cell b ''episode_id''))) st
                     (JStr (py_str (cell b ''content''))) d1) = Inr d'"
      using changed unfolding apply_belief_status_changed_def belief_status_changed_def splits_result by blast
    from set ent have first: "scoped D (ev_episode_id e) d d1"
      by (rule entity_set_scoped) (simp_all add: tables keyed_tables safe_other_columns)
    have second: "scoped D (ev_episode_id e) d1 d'" if cons: "consistent ledger_schema d"
    proof (cases "sql_first ''beliefs'' (has_id ?i) d1")
      case (Some b)
      then have b: "b \<in> set (d1 ''beliefs'')" "has_id ?i b"
        by (auto simp: sql_first_def dest: find_Some_iff_mem)
      obtain b0 where b0: "b0 \<in> set (d ''beliefs'')" "cell b ''id'' = cell b0 ''id''"
        "row_episode ''beliefs'' b = row_episode ''beliefs'' b0"
        by (rule update_names [OF set _ b(1)]) (simp add: safe_other_columns)
      moreover have "row_episode ''beliefs'' b0 = ev_episode_id e"
        using entity_rows [OF cons keyed_tables(3) ent] b0(1,2) b(2) by (simp add: has_id_def)
      ultimately have own: "row_episode ''beliefs'' b = ev_episode_id e" by simp
      have "later d1 d'" using rest Some by (auto dest: later_fts_replace)
      then have "later d1 D" using later by (rule later_trans)
      moreover have "names d1 (ev_episode_id e) ''beliefs'' (JStr ?i)"
        using b own by (auto simp: names_def has_id_def)
      ultimately have "names D (ev_episode_id e) ''beliefs'' (JStr ?i)"
        by (auto simp: linked_entities_def intro: later_keeps)
      moreover have "fts_replace fts (JStr ?i) (JStr (py_str (cell b ''episode_id''))) st (JStr (py_str (cell b ''content''))) d1 = Inr d'"
        using rest Some by simp
      ultimately show ?thesis
        using own plain by (elim fts_replace_scoped) (simp_all add: text_param_def row_episode_def episode_column_def)
    qed (use rest in simp)
    show ?thesis unfolding writes_def
    proof
      assume "consistent ledger_schema d"
      from scoped_trans [OF first second [OF this]] this show "(scoped_write D handler_tables (ev_episode_id e))\<^sup>*\<^sup>* d d'"
        by (simp add: writes_def)
    qed
  qed
  show "apply_belief_admission_changed e d = Inr d' \<Longrightarrow> scoped D (ev_episode_id e) d d'"
    unfolding apply_belief_admission_changed_def by (erule entity_then_update) (simp_all add: tables keyed_tables safe_other_columns)
  show "apply_belief_corroboration_changed e d = Inr d' \<Longrightarrow> scoped D (ev_episode_id e) d d'"
    unfolding apply_belief_corroboration_changed_def by (erule entity_then_update) (simp_all add: tables keyed_tables safe_other_columns)
qed

lemma observation_refreshed_scoped:
  assumes "apply_belief_observation_refreshed e d = Inr d'" and "later d' D"
  shows "scoped D (ev_episode_id e) d d'"
proof -
  let ?i = "ev_aggregate_id e"
  obtain d1 b v sp where ent: "entity_in_episode d ''beliefs'' ?i (ev_episode_id e)"
    and v: "item ''evidence_id'' (payload e) = Inr v" "entity_in_episode d ''evidence'' (py_str v) (ev_episode_id e)"
    and upd: "update_where ''beliefs'' [(''observed_at'', as_text (item ''observed_at''))] (payload e)
          (has_id ?i) d = Inr d1"
    and rest: "(if b then Inr d1 else insert_into ''belief_evidence''
        [(''belief_id'', JStr ?i), (''evidence_id'', JStr (py_str v)), (''span_json'', sp)] d1) = Inr d'"
    using assms(1) unfolding apply_belief_observation_refreshed_def splits_result Let_def as_text_def by auto
  from upd ent have "scoped D (ev_episode_id e) d d1"
    by (rule entity_update_scoped) (simp_all add: tables keyed_tables safe_other_columns)
  moreover have "later d1 D" using rest assms(2) by (cases b) (auto dest: later_insert intro: later_trans)
  obtain vs where vs: "read_columns [(''observed_at'', as_text (item ''observed_at''))] (payload e) = Inr vs"
    and set: "sql_update ledger_schema ''beliefs'' vs (has_id ?i) d = Inr d1"
    using upd by (auto simp: update_where_def splits_result simp del: read_columns.simps)
  have keys: "map fst vs = [''observed_at'']" using read_columns_keys [OF vs] by simp
  have "later d d1"
    by (rule later_update [OF set]) (simp add: keys safe_other_columns)
  then have later: "later d D" using \<open>later d1 D\<close> by (rule later_trans)
  have "names D (ev_episode_id e) ''beliefs'' (JStr ?i)" "names D (ev_episode_id e) ''evidence'' (JStr (py_str v))"
    using entity_names [OF ent] entity_names [OF v(2)] later_keeps [OF later] by (auto simp: linked_entities_def)
  then have "scoped D (ev_episode_id e) d1 d'" if "\<not> b"
    using rest that by (intro scoped_evidence_link [where b = "JStr ?i" and ev = "JStr (py_str v)" and sp = sp]) auto
  then have "scoped D (ev_episode_id e) d1 d'" using rest by (cases b) auto
  ultimately show ?thesis by (blast intro: scoped_trans)
qed

section \<open>Supports, defeats and tasks\<close>

lemma graph_records_scoped:
  assumes "of_episode r ep" and "plain_name ep"
  shows "support_added r d = Inr d' \<Longrightarrow> scoped D ep d d'"
    and "defeat_added r d = Inr d' \<Longrightarrow> scoped D ep d d'"
    and "verification_created r d = Inr d' \<Longrightarrow> scoped D ep d d'"
    and "conflict_opened r d = Inr d' \<Longrightarrow> scoped D ep d d'"
proof -
  show "support_added r d = Inr d' \<Longrightarrow> scoped D ep d d'"
    using assms unfolding support_added_def splits_result
    by (elim exE conjE) (hypsubst, erule record_scoped, simp_all add: tables)
  show "scoped D ep d d'" if added: "defeat_added r d = Inr d'"
  proof -
    obtain cols where "insert_record ''defeats''
              (columns_of [''id'', ''episode_id'', ''attacker'', ''target'', ''kind'', ''basis''] @ cols) r d = Inr d'"
      using added unfolding defeat_added_def splits_result by (elim exE conjE) (auto split: if_splits)
    then show ?thesis using assms by (elim record_scoped) (simp_all add: tables)
  qed
  show "verification_created r d = Inr d' \<Longrightarrow> scoped D ep d d'"
    using assms unfolding verification_created_def splits_result
    by (elim exE conjE) (hypsubst, erule record_scoped, simp_all add: tables)
  show "conflict_opened r d = Inr d' \<Longrightarrow> scoped D ep d d'"
    using assms unfolding conflict_opened_def splits_result
    by (elim exE conjE) (hypsubst, erule record_scoped, simp_all add: tables)
qed

lemma retraction_created_scoped:
  assumes "retraction_created r d = Inr d'" and "of_episode r ep" and "plain_name ep"
  shows "scoped D ep d d'"
proof -
  obtain ds d1 v cols where checks: "fold_result (\<lambda>x. require_entity ''beliefs'' (py_str x) (py_str v)) ds d = Inr d1"
    and row: "insert_record ''retraction_notices''
        (columns_of [''id'', ''episode_id'', ''defeated_belief_id'', ''cause''] @ cols) r d1 = Inr d'"
    using assms(1) unfolding retraction_created_def splits_result by blast
  from checks have "d1 = d" by (rule checks_same) (simp add: splits_result)
  moreover from row assms(2,3) have "scoped D ep d1 d'" by (elim record_scoped) (simp_all add: tables)
  ultimately show ?thesis by simp
qed

lemma entity_setters_scoped:
  "apply_support_activity_changed e d = Inr d' \<Longrightarrow> scoped D (ev_episode_id e) d d'"
  "apply_defeat_activity_changed e d = Inr d' \<Longrightarrow> scoped D (ev_episode_id e) d d'"
  "apply_verification_completed e d = Inr d' \<Longrightarrow> scoped D (ev_episode_id e) d d'"
  "apply_conflict_resolved e d = Inr d' \<Longrightarrow> scoped D (ev_episode_id e) d d'"
  "apply_retraction_state_changed e d = Inr d' \<Longrightarrow> scoped D (ev_episode_id e) d d'"
  unfolding apply_support_activity_changed_def apply_defeat_activity_changed_def
    apply_verification_completed_def apply_conflict_resolved_def apply_retraction_state_changed_def Let_def
  by (erule entity_then_update entity_then_set; simp add: tables keyed_tables safe_other_columns)+

section \<open>Audit tables\<close>

lemma context_compiled_scoped:
  assumes "apply_context_compiled e d = Inr d'" and "plain_name (ev_episode_id e)"
  shows "scoped D (ev_episode_id e) d d'"
proof -
  obtain vs where rows: "fold_result (render_belief (ev_episode_id e)) vs d = Inr d'"
    using assms(1) by (auto simp: apply_context_compiled_def splits_result)
  show ?thesis
  proof (rule scoped_fold [OF rows])
    fix x d d'
    assume "render_belief (ev_episode_id e) x d = Inr d'"
    then obtain r vs where vs: "read_columns ((''episode_id'', just (JStr (ev_episode_id e)))
                 # columns_of [''belief_id'', ''request_id'', ''turn_number'', ''rendered_at'']) r = Inr vs"
      and ins: "sql_insert_or_ignore ledger_schema ''rendered_beliefs'' vs d = Inr d'"
      unfolding render_belief_def splits_result by blast
    obtain v where "map_of vs ''episode_id'' = Some v" and "just (JStr (ev_episode_id e)) r = Inr v"
      using read_columns_map_of [OF vs, of "''episode_id''"] by auto
    with ins assms(2) show "scoped D (ev_episode_id e) d d'"
      by (intro scoped_insert_or_ignore [OF ins, where v = v]) (auto simp: tables episode_column_def just_def)
  qed
qed

lemma component_verdict_scoped:
  assumes "component_verdict r d = Inr d'" and "of_episode r ep" and "plain_name ep"
  shows "scoped D ep d d'"
proof -
  obtain d1 cols where "d1 = d" and "insert_record ''component_verdicts''
      (columns_of [''id'', ''episode_id'', ''component'', ''purpose'', ''input_hash'', ''outcome''] @ cols) r d1 = Inr d'"
    using assms(1) unfolding component_verdict_def splits_result
    by (elim exE conjE) (auto simp: splits_result split: if_splits)
  moreover from this(2) assms(2,3) have "scoped D ep d1 d'" by (elim record_scoped) (simp_all add: tables)
  ultimately show ?thesis by simp
qed

lemma llm_usage_scoped:
  assumes "llm_usage add r d = Inr d'" and "of_episode r ep" and "plain_name ep"
  shows "scoped D ep d d'"
proof -
  obtain d1 cols v i out where row: "insert_record ''llm_usage''
         (columns_of [''id'', ''episode_id'', ''purpose'', ''provider'', ''model'', ''input_tokens'',
            ''output_tokens''] @ cols) r d = Inr d1"
    and v: "item ''episode_id'' r = Inr v"
    and upd: "update_rows ledger_schema ''episodes'' (\<lambda>r. cell r ''id'' = text_param v)
         (add_to add (ledger_schema ''episodes'') ''output_tokens_used'' out
          \<circ> add_to add (ledger_schema ''episodes'') ''input_tokens_used'' i
          \<circ> add_to add (ledger_schema ''episodes'') ''llm_calls_used'' (JInt 1)) d1 = Inr d'"
    using assms(1) unfolding llm_usage_def splits_result Let_def by blast
  have ep: "py_str v = ep" using of_episode_item [OF assms(2) v] .
  from row assms(2,3) have "scoped D ep d d1" by (elim record_scoped) (simp_all add: tables)
  moreover have "scoped D ep d1 d'"
  proof (rule scoped_update_rows [OF upd _ _ safe_episode_columns(5)])
    show "\<forall>r\<in>set (d1 ''episodes''). cell r ''id'' = text_param v \<longrightarrow> row_episode ''episodes'' r = ep"
    proof (intro ballI impI)
      fix r :: row
      assume "cell r ''id'' = text_param v"
      moreover have "\<exists>w. sql_bind v = Inr w"
        using insert_record_binds [OF row, of "''episode_id''" "item ''episode_id''"] v
        by (simp add: columns_of_def)
      ultimately show "row_episode ''episodes'' r = ep"
        using py_str_stored [of v] ep assms(3)
        by (auto simp: row_episode_def episode_column_def text_param_def)
    qed
  next
    fix r c
    assume "c \<notin> set [''llm_calls_used'', ''input_tokens_used'', ''output_tokens_used'']"
    then show "cell ((add_to add (ledger_schema ''episodes'') ''output_tokens_used'' out
          \<circ> add_to add (ledger_schema ''episodes'') ''input_tokens_used'' i
          \<circ> add_to add (ledger_schema ''episodes'') ''llm_calls_used'' (JInt 1)) r) c = cell r c"
      by (simp add: add_to_def cell_assign)
  qed (simp_all add: tables)
  ultimately show ?thesis by (rule scoped_trans)
qed

lemma unpromoted_added_scoped:
  assumes "apply_unpromoted_evidence_added e d = Inr d'" and "plain_name (ev_episode_id e)"
  shows "scoped D (ev_episode_id e) d d'"
proof -
  let ?t = "''unpromoted_evidence''"
  obtain vs where vs: "read_columns
                  [(''episode_id'', just (JStr (ev_episode_id e))),
                   (''evidence_id'', as_text (item ''evidence_id'')),
                   (''source_profile'', as_text (item ''source_profile'')),
                   (''state'', just (JStr ''open'')),
                   (''reason'', as_text (get_or ''reason'' (JStr ''lazy_extraction'')))] (payload e) = Inr vs"
    and "sql_insert_or_replace ledger_schema ?t vs d = Inr d'"
    using assms(1) unfolding apply_unpromoted_evidence_added_def Let_def splits_result by blast
  then obtain ws where ws: "bind_all vs = Inr ws"
    and ins: "insert_row ledger_schema ?t (make_row (ledger_schema ?t) ws)
      (d(?t := filter (\<lambda>r'. \<not> clashes (ledger_schema ?t) r' (make_row (ledger_schema ?t) ws)) (d ?t))) = Inr d'"
    by (auto simp: sql_insert_or_replace_def splits_result Let_def)
  have "map_of vs ''episode_id'' = Some (JStr (ev_episode_id e))"
    using read_columns_map_of [OF vs, of "''episode_id''" "just (JStr (ev_episode_id e))"] by (simp add: just_def)
  then have ep: "row_episode ?t (make_row (ledger_schema ?t) ws) = ev_episode_id e"
    using stored_episode [OF _ ws, of ?t "JStr (ev_episode_id e)"] assms(2) by (simp add: tables episode_column_def)
  have keys: "ts_keys (ledger_schema ?t) = [[''episode_id'', ''evidence_id'']]" by code_simp
  have "scoped_write D handler_tables (ev_episode_id e) d
      (d(?t := filter (\<lambda>r'. \<not> clashes (ledger_schema ?t) r' (make_row (ledger_schema ?t) ws)) (d ?t)))"
  proof (rule scoped_write.remove)
    show "?t \<in> handler_tables" by (simp add: tables)
    show "unreferenced ledger_schema ?t" by (rule unreferenced_table) (simp add: referenced_tables_def)
    show "?t \<notin> added_only" by (simp add: added_only_def)
    show "\<forall>r\<in>set (d ?t). \<not> \<not> clashes (ledger_schema ?t) r (make_row (ledger_schema ?t) ws) \<longrightarrow>
        owned D (ev_episode_id e) ?t r"
      using ep by (simp add: link_tables_def clashes_def keys clash_def key_cells_def row_episode_def episode_column_def)
  qed
  moreover have "scoped_write D handler_tables (ev_episode_id e)
      (d(?t := filter (\<lambda>r'. \<not> clashes (ledger_schema ?t) r' (make_row (ledger_schema ?t) ws)) (d ?t))) d'"
    by (rule scoped_write.insert [OF _ _ _ ins]) (simp_all add: tables ep)
  ultimately show ?thesis unfolding writes_def by (meson r_into_rtranclp rtranclp_trans)
qed

lemma unpromoted_finished_scoped:
  assumes "apply_unpromoted_evidence_finished e d = Inr d'"
  shows "scoped D (ev_episode_id e) d d'"
proof -
  obtain st vs ev where vs: "read_columns
      [(''state'', just (JStr st)), (''reason'', as_text (get_or ''reason'' (JStr [])))] (payload e) = Inr vs"
    and upd: "sql_update ledger_schema ''unpromoted_evidence'' vs
            (\<lambda>r. cell r ''episode_id'' = JStr (ev_episode_id e) \<and> cell r ''evidence_id'' = ev) d = Inr d'"
    using assms unfolding apply_unpromoted_evidence_finished_def Let_def splits_result by blast
  show ?thesis
    by (rule scoped_update [OF upd])
      (simp_all add: read_columns_keys [OF vs] safe_other_columns row_episode_def episode_column_def tables)
qed

lemma event_rows_scoped:
  assumes "plain_name (ev_episode_id e)"
  shows "apply_lint_recorded e d = Inr d' \<Longrightarrow> scoped D (ev_episode_id e) d d'"
    and "apply_gate_decided e d = Inr d' \<Longrightarrow> scoped D (ev_episode_id e) d d'"
    and "apply_assistant_response_recorded e d = Inr d' \<Longrightarrow> scoped D (ev_episode_id e) d d'"
  using assms
  by (unfold apply_lint_recorded_def apply_gate_decided_def apply_assistant_response_recorded_def)
    (erule event_row_scoped, simp_all add: tables)+

section \<open>One event\<close>

lemma advance_event_head_writes:
  assumes "advance_event_head e d = Inr d'" and "plain_name (ev_episode_id e)"
  shows "writes D {''event_heads''} (ev_episode_id e) d d'"
proof (cases "list_ex (\<lambda>r. cell r ''episode_id'' = JStr (ev_episode_id e)) (d ''event_heads'')")
  case True
  with assms(1) have upd: "sql_update ledger_schema ''event_heads''
      [(''seq'', JInt (int (ev_seq e))), (''event_hash'', JStr (ev_event_hash e))]
      (\<lambda>r. cell r ''episode_id'' = JStr (ev_episode_id e)) d = Inr d'"
    by (simp add: advance_event_head_def Let_def)
  show ?thesis
    by (rule scoped_update [OF upd]) (simp_all add: safe_other_columns row_episode_def episode_column_def link_tables_def)
next
  case False
  with assms(1) have ins: "insert_into ''event_heads'' [(''episode_id'', JStr (ev_episode_id e)),
      (''seq'', JInt (int (ev_seq e))), (''event_hash'', JStr (ev_event_hash e))] d = Inr d'"
    by (simp add: advance_event_head_def Let_def)
  show ?thesis
    by (rule scoped_insert [OF ins, where v = "JStr (ev_episode_id e)"])
      (simp_all add: tables episode_column_def assms(2))
qed

lemma record_handlers_scoped:
  assumes "plain_name (ev_episode_id e)"
  shows "apply_source_registered e d = Inr d' \<Longrightarrow> scoped D (ev_episode_id e) d d'"
    and "apply_evidence_ingested e d = Inr d' \<Longrightarrow> scoped D (ev_episode_id e) d d'"
    and "apply_support_added e d = Inr d' \<Longrightarrow> scoped D (ev_episode_id e) d d'"
    and "apply_defeat_added e d = Inr d' \<Longrightarrow> scoped D (ev_episode_id e) d d'"
    and "apply_verification_created e d = Inr d' \<Longrightarrow> scoped D (ev_episode_id e) d d'"
    and "apply_conflict_opened e d = Inr d' \<Longrightarrow> scoped D (ev_episode_id e) d d'"
    and "apply_retraction_created e d = Inr d' \<Longrightarrow> scoped D (ev_episode_id e) d d'"
    and "apply_component_verdict_recorded e d = Inr d' \<Longrightarrow> scoped D (ev_episode_id e) d d'"
    and "apply_llm_usage_recorded add e d = Inr d' \<Longrightarrow> scoped D (ev_episode_id e) d d'"
  using assms
  by (unfold apply_source_registered_def apply_evidence_ingested_def apply_support_added_def
      apply_defeat_added_def apply_verification_created_def apply_conflict_opened_def
      apply_retraction_created_def apply_component_verdict_recorded_def apply_llm_usage_recorded_def
      splits_result)
    (blast intro: source_registered_scoped evidence_ingested_scoped graph_records_scoped
      retraction_created_scoped component_verdict_scoped llm_usage_scoped)+

lemmas handlers_scoped =
  episode_handlers_scoped source_stats_scoped justification_handlers_scoped belief_handlers_scoped
  observation_refreshed_scoped entity_setters_scoped context_compiled_scoped unpromoted_added_scoped
  unpromoted_finished_scoped event_rows_scoped record_handlers_scoped

lemma handler_scoped:
  assumes "(k, h) \<in> set EVENT_HANDLERS" and "h X e d = Inr d'" and "plain_name (ev_episode_id e)" and "later d' D"
  shows "scoped D (ev_episode_id e) d d'"
  using assms unfolding EVENT_HANDLERS_def list.set
  by (elim insertE emptyE) (simp_all only: prod.inject, (blast intro: handlers_scoped)+)

abbreviation event_tables :: "string set" where
  "event_tables \<equiv> insert ''event_heads'' handler_tables"

lemma later_advance: "advance_event_head e d = Inr d' \<Longrightarrow> later d d'"
  by (auto simp: advance_event_head_def Let_def safe_other_columns dest: later_insert later_update split: if_splits)

lemma apply_event_parts:
  assumes "apply_event X e d = Inr d'" and "plain_name (ev_episode_id e)" and "later d' D"
  obtains d1 where "scoped D (ev_episode_id e) d d1" and "advance_event_head e d1 = Inr d'"
proof -
  obtain d1 where handled: "(case map_of EVENT_HANDLERS (ev_kind e) of None \<Rightarrow> Inr d | Some h \<Rightarrow> h X e d) = Inr d1"
    and head: "advance_event_head e d1 = Inr d'"
    using assms(1) unfolding apply_event_def splits_result by (auto simp: splits_result split: if_splits)
  have later: "later d1 D" using later_advance [OF head] assms(3) by (rule later_trans)
  have "scoped D (ev_episode_id e) d d1"
  proof (cases "map_of EVENT_HANDLERS (ev_kind e)")
    case (Some h)
    with handled assms(2) later show ?thesis by (auto intro: handler_scoped dest: map_of_SomeD)
  qed (use handled in simp)
  with head show thesis by (rule that [rotated])
qed

lemma apply_event_writes:
  assumes "apply_event X e d = Inr d'" and "plain_name (ev_episode_id e)" and "later d' D"
  shows "writes D event_tables (ev_episode_id e) d d'"
proof -
  obtain d1 where d1: "scoped D (ev_episode_id e) d d1" and head: "advance_event_head e d1 = Inr d'"
    using apply_event_parts [OF assms] .
  from d1 have "writes D event_tables (ev_episode_id e) d d1" by (rule writes_mono) blast
  also have "writes D event_tables (ev_episode_id e) d1 d'"
    using advance_event_head_writes [OF head assms(2)] by (rule writes_mono) blast
  finally show ?thesis .
qed

text \<open>A sequence of events, as the replay of a ledger applies them.\<close>

lemma apply_events_consistent:
  assumes "fold_result (apply_event X) es d = Inr d'" and "consistent ledger_schema d"
    and "\<forall>e\<in>set es. plain_name (ev_episode_id e)"
  shows "consistent ledger_schema d'"
  using fold_result_invariant [OF assms(1), of "consistent ledger_schema"] assms(2,3)
  by (metis apply_event_writes later_refl writes_def scoped_writes_consistent)

lemma apply_events_isolated:
  assumes "fold_result (apply_event X) es d = Inr d'" and "consistent ledger_schema d"
    and "\<forall>e\<in>set es. plain_name (ev_episode_id e) \<and> ev_episode_id e \<noteq> ep" and "t \<notin> set link_tables"
  shows "rows_of ep t d' = rows_of ep t d"
proof -
  have "consistent ledger_schema d' \<and> rows_of ep t d' = rows_of ep t d"
  proof (rule fold_result_invariant [OF assms(1), of "\<lambda>x. consistent ledger_schema x \<and> rows_of ep t x = rows_of ep t d"])
    fix e x y
    assume "e \<in> set es" and inv: "consistent ledger_schema x \<and> rows_of ep t x = rows_of ep t d"
      and "apply_event X e x = Inr y"
    with assms(3) have "writes y event_tables (ev_episode_id e) x y" and "ep \<noteq> ev_episode_id e"
      by (auto intro: apply_event_writes)
    with inv assms(4) show "consistent ledger_schema y \<and> rows_of ep t y = rows_of ep t d"
      by (auto simp: writes_def intro: scoped_writes_consistent dest: scoped_writes_isolated)
  qed (simp add: assms(2))
  then show ?thesis ..
qed

section \<open>A small ledger\<close>

definition sample_event :: "string \<Rightarrow> string \<Rightarrow> json \<Rightarrow> event" where
  "sample_event k i p =
     \<lparr>ev_seq = 1, ev_id = ''e1'', ev_episode_id = ''ep'', ev_timestamp = ''2026-01-01T00:00:00.000000Z'',
      ev_kind = k, ev_schema_version = 1, ev_aggregate_type = ''any'', ev_aggregate_id = i,
      ev_correlation = JObj [], ev_causal_event_id = None, ev_payload = p, ev_previous_hash = [],
      ev_event_hash = ''h'', ev_auth_tag = []\<rparr>"

definition sample_storage :: storage where
  "sample_storage = \<lparr>st_sha = (\<lambda>s. ''#'' @ s), st_fts = True, st_plus = (\<lambda>a b. a)\<rparr>"

definition text_fields :: "string list \<Rightarrow> (string \<times> json) list" where
  "text_fields ks = map (\<lambda>k. (k, JStr k)) ks"

definition sample_history :: "event list" where
  "sample_history =
     [sample_event ''EPISODE_CREATED'' ''ep'' (JObj [(''record'', JObj ((''id'', JStr ''ep'')
        # (''current_turn'', JInt 0) # text_fields [''key'', ''session_id'', ''task_id'', ''platform'',
          ''model'', ''default_stakes'', ''created_at'', ''updated_at'', ''compatibility_mode'']))]),
      sample_event ''SOURCE_REGISTERED'' ''src'' (JObj [(''record'', JObj ((''id'', JStr ''src'')
        # (''episode_id'', JStr ''ep'') # text_fields [''kind'', ''integrity'', ''name'', ''root'']))])]"

definition sample_db :: "db \<Rightarrow> bool" where
  "sample_db d = (length (d ''episodes'') = 1 \<and> length (d ''sources'') = 1 \<and> length (d ''event_heads'') = 1)"

lemma sample_history_runs: "succeeds (fold_result (apply_event sample_storage) sample_history (\<lambda>t. [])) sample_db"
  by code_simp

lemma sample_creation_runs: "succeeds (apply_event sample_storage (sample_history ! 0) (\<lambda>t. []))
   (\<lambda>d. length (d ''episodes'') = 1 \<and> d ''beliefs'' = [] \<and> d ''evidence'' = [] \<and> d ''justifications'' = [])"
  by code_simp

lemma sample_names: "plain_name (ev_episode_id (sample_history ! 0))" "\<forall>e\<in>set sample_history. ev_episode_id e = ''ep''"
  by (simp_all add: plain_name_def sample_history_def sample_event_def)

section \<open>What applying events promises\<close>

text \<open>
  C4. Applying an event is a sequence of writes of the event's own episode: each of them adds,
  changes or removes a row of that episode, adds a link between a belief and an evidence, or a
  justification and a premise, that are both of the episode afterwards, or replaces full-text rows of
  a belief of the episode. Links are never removed. The database meets the constraints of the schema
  before, the episode is not named after a boolean, and no entity has the text of a boolean as its id.
\<close>

theorem apply_event_scoped:
  assumes "apply_event X e d = Inr d'" and "consistent ledger_schema d" and "plain_name (ev_episode_id e)" and "plain_ids d'"
  shows "(scoped_write d' event_tables (ev_episode_id e))\<^sup>*\<^sup>* d d'
    \<and> (\<forall>t\<in>added_only. \<exists>new. d' t = d t @ new \<and> (\<forall>r\<in>set new. owned d' (ev_episode_id e) t r))"
proof
  show writes: "(scoped_write d' event_tables (ev_episode_id e))\<^sup>*\<^sup>* d d'"
    using apply_event_writes [OF assms(1,3) later_refl] assms(2) by (simp add: writes_def)
  show "\<forall>t\<in>added_only. \<exists>new. d' t = d t @ new \<and> (\<forall>r\<in>set new. owned d' (ev_episode_id e) t r)"
    by (rule ballI) (rule scoped_writes_added [OF writes])
qed

theorem apply_event_scoped_witness:
  "\<exists>d'. apply_event sample_storage (sample_history ! 0) (\<lambda>t. []) = Inr d' \<and>
     (scoped_write d' event_tables ''ep'')\<^sup>*\<^sup>* (\<lambda>t. []) d'"
proof -
  obtain d' where d': "apply_event sample_storage (sample_history ! 0) (\<lambda>t. []) = Inr d'"
    "d' ''beliefs'' = []" "d' ''evidence'' = []" "d' ''justifications'' = []"
    using sample_creation_runs unfolding succeeds_iff by blast
  then have "plain_ids d'" by (simp add: plain_ids_def linked_entities_def)
  from apply_event_scoped [OF d'(1) consistent_empty sample_names(1) this] d' show ?thesis
    by (auto simp: sample_history_def sample_event_def)
qed

text \<open>
  Whatever events a ledger holds, if they can be applied then the projections they build
  satisfy every constraint of the schema: no NULL in a NOT NULL column, no repeated key, and no
  reference to a missing row.
\<close>

theorem projections_consistent:
  assumes "fold_result (apply_event X) es (\<lambda>t. []) = Inr d" and "\<forall>e\<in>set es. plain_name (ev_episode_id e)"
  shows "consistent ledger_schema d"
  by (rule apply_events_consistent [OF assms(1) consistent_empty assms(2)])

theorem projections_consistent_witness:
  "\<exists>d. fold_result (apply_event sample_storage) sample_history (\<lambda>t. []) = Inr d
     \<and> consistent ledger_schema d \<and> length (d ''sources'') = 1"
proof -
  obtain d where d: "fold_result (apply_event sample_storage) sample_history (\<lambda>t. []) = Inr d" "sample_db d"
    using sample_history_runs unfolding succeeds_iff by blast
  have "\<forall>e\<in>set sample_history. plain_name (ev_episode_id e)"
    using sample_names(2) by (simp add: plain_name_def)
  from projections_consistent [OF d(1) this] d show ?thesis by (auto simp: sample_db_def)
qed

text \<open>
  Episodes are isolated: applying the events of some episodes leaves the rows of every other
  episode in every projected table as they were, in the same order.
\<close>

theorem other_episodes_untouched:
  assumes "fold_result (apply_event X) es d = Inr d'" and "consistent ledger_schema d"
    and "\<forall>e\<in>set es. plain_name (ev_episode_id e) \<and> ev_episode_id e \<noteq> ep"
  shows "\<forall>t\<in>set episode_tables. rows_of ep t d' = rows_of ep t d"
proof
  fix t
  assume "t \<in> set episode_tables"
  then have "t \<notin> set link_tables" by (auto simp: tables)
  with assms show "rows_of ep t d' = rows_of ep t d" by (rule apply_events_isolated)
qed

theorem other_episodes_untouched_witness:
  "\<exists>d. fold_result (apply_event sample_storage) sample_history (\<lambda>t. []) = Inr d \<and> length (d ''sources'') = 1
     \<and> (\<forall>t\<in>set episode_tables. rows_of ''other'' t d = [])"
proof -
  obtain d where d: "fold_result (apply_event sample_storage) sample_history (\<lambda>t. []) = Inr d" "sample_db d"
    using sample_history_runs unfolding succeeds_iff by blast
  have "\<forall>e\<in>set sample_history. plain_name (ev_episode_id e) \<and> ev_episode_id e \<noteq> ''other''"
    using sample_names(2) by (simp add: plain_name_def)
  from other_episodes_untouched [OF d(1) consistent_empty this] d show ?thesis
    by (auto simp: rows_of_def sample_db_def)
qed

text \<open>
  A conflict between the same two beliefs can be resolved only once: when a resolved conflict
  of the pair is on record, resolving another one violates the key of the table (episode, left,
  right, state) and raises \<open>IntegrityError\<close>. Opening the pair again is allowed, so a conflict
  that comes back can never be closed.
\<close>

theorem second_resolution_refused:
  assumes "entity_in_episode d ''conflicts'' (ev_aggregate_id e) (ev_episode_id e)"
    and "old \<in> set (d ''conflicts'')" and "again \<in> set (d ''conflicts'')"
    and "has_id (ev_aggregate_id e) again" and "\<not> has_id (ev_aggregate_id e) old"
    and "list_all (\<lambda>c. cell old c = cell again c \<and> cell old c \<noteq> JNull)
           [''episode_id'', ''left_belief_id'', ''right_belief_id'']"
    and "cell old ''state'' = JStr ''resolved''" and "map_of again ''state'' \<noteq> None"
  shows "apply_conflict_resolved e d = Inl (IntegrityError ''conflicts'')"
proof -
  let ?ts = "ledger_schema ''conflicts''"
  define f where "f = assign ?ts [(''state'', JStr ''resolved'')]"
  let ?rows = "map (\<lambda>r. if has_id (ev_aggregate_id e) r then f r else r) (d ''conflicts'')"
  have column: "find (\<lambda>k. col_name k = ''state'') (ts_columns ?ts) = Some (tcol ''state'')" by code_simp
  have key: "[''episode_id'', ''left_belief_id'', ''right_belief_id'', ''state''] \<in> set (ts_keys ?ts)" by code_simp
  have same: "c \<noteq> ''state'' \<Longrightarrow> cell (f r) c = cell r c" for r c by (simp add: f_def cell_assign)
  have "map_of (f again) ''state'' = Some (JStr ''resolved'')"
    using assms(8) column by (induction again) (auto simp: f_def assign_def tcol_def split: if_splits)
  then have state: "cell (f again) ''state'' = JStr ''resolved''" by (simp add: cell_def dict_get_def)
  have "clash [''episode_id'', ''left_belief_id'', ''right_belief_id'', ''state''] (f again) old"
    using assms(6,7) state by (auto simp: clash_def key_cells_def same)
  with key have clash: "clashes ?ts (f again) old" by (auto simp: clashes_def list_ex_iff)
  have "f again \<in> set ?rows" and "old \<in> set ?rows" using assms(2-5) by (force simp: image_iff)+
  then have "no_clash ?ts ?rows \<Longrightarrow> f again = old" using clash by (rule no_clash_unique [rotated])
  moreover have "f again \<noteq> old"
  proof
    assume "f again = old"
    then have "cell old ''id'' = cell again ''id''" using same [of "''id''" again] by simp
    with assms(4,5) show False by (simp add: has_id_def)
  qed
  ultimately have "\<not> no_clash ?ts ?rows" by blast
  then have "sql_update ledger_schema ''conflicts'' [(''state'', JStr ''resolved'')]
      (has_id (ev_aggregate_id e)) d = Inl (IntegrityError ''conflicts'')"
    by (simp add: sql_update_def update_rows_def Let_def f_def [symmetric] cong: if_cong)
  with assms(1) show ?thesis by (simp add: apply_conflict_resolved_def require_entity_def)
qed

definition sample_conflict :: "string \<Rightarrow> string \<Rightarrow> row" where
  "sample_conflict i st =
     make_row (ledger_schema ''conflicts'')
       [(''id'', JStr i), (''episode_id'', JStr ''ep''), (''left_belief_id'', JStr ''a''),
        (''right_belief_id'', JStr ''b''), (''normalized_scope_json'', JStr ''{}''),
        (''verification_task_id'', JStr ''t''), (''state'', JStr st)]"

theorem second_resolution_refused_witness:
  "apply_conflict_resolved (sample_event ''CONFLICT_RESOLVED'' ''c2'' (JObj []))
     ((\<lambda>t. [])(''conflicts'' := [sample_conflict ''c1'' ''resolved'', sample_conflict ''c2'' ''open'']))
   = Inl (IntegrityError ''conflicts'')"
proof -
  let ?d = "(\<lambda>t. [])(''conflicts'' := [sample_conflict ''c1'' ''resolved'', sample_conflict ''c2'' ''open''])"
  let ?e = "sample_event ''CONFLICT_RESOLVED'' ''c2'' (JObj [])"
  have facts: "entity_in_episode ?d ''conflicts'' (ev_aggregate_id ?e) (ev_episode_id ?e)"
    "has_id (ev_aggregate_id ?e) (sample_conflict ''c2'' ''open'')"
    "\<not> has_id (ev_aggregate_id ?e) (sample_conflict ''c1'' ''resolved'')"
    "list_all (\<lambda>c. cell (sample_conflict ''c1'' ''resolved'') c = cell (sample_conflict ''c2'' ''open'') c
            \<and> cell (sample_conflict ''c1'' ''resolved'') c \<noteq> JNull)
           [''episode_id'', ''left_belief_id'', ''right_belief_id'']"
    "cell (sample_conflict ''c1'' ''resolved'') ''state'' = JStr ''resolved''"
    "map_of (sample_conflict ''c2'' ''open'') ''state'' \<noteq> None"
    by code_simp+
  have rows: "sample_conflict ''c1'' ''resolved'' \<in> set (?d ''conflicts'')"
    "sample_conflict ''c2'' ''open'' \<in> set (?d ''conflicts'')"
    by simp_all
  show ?thesis by (rule second_resolution_refused [OF facts(1) rows facts(2-6)])
qed

end
