(* ===== verification/Payload_Order.thy ===== *)
theory Payload_Order
  imports Projections
begin

text \<open>
  A payload is stored as canonical text and read back with sorted keys. The handlers do not see the
  difference: they look fields up, bind scalars, write canonical text again and iterate lists. The
  exceptions are \<open>str\<close> of an object and iterating one. A payload is \<open>ordinary\<close> when every field a
  handler reads as text (\<open>read_as_text\<close>) holds a scalar and every field a handler iterates is a list;
  every other field is free. Only the kinds in \<open>EVENT_HANDLERS\<close> are read at all: an event of another
  kind (\<open>HOST_CAPABILITIES_RECORDED\<close>, \<open>ACTION_AUTHORIZATION_EVALUATED\<close>, \<open>CLAIM_REJECTED\<close>,
  \<open>LLM_CALL_ATTRIBUTION\<close>, ...) may carry any payload (\<open>replayable\<close>).
\<close>

section \<open>Ordinary payloads\<close>

fun scalar :: "json \<Rightarrow> bool" where
  "scalar (JArr xs) = False"
| "scalar (JObj kvs) = False"
| "scalar v = True"

definition read_as_text :: "string list" where
  "read_as_text =
     [''id'', ''episode_id'', ''belief_id'', ''source_id'', ''evidence_id'', ''attacker'', ''target'',
      ''left_belief_id'', ''right_belief_id'', ''verification_task_id'', ''defeated_belief_id'',
      ''content'', ''normalized_content'', ''status'', ''input_tokens'', ''output_tokens'',
      ''to'', ''state'', ''episode_key'', ''updated_at'', ''observed_at'', ''source_profile'', ''reason'',
      ''response_hash'', ''tool_name'', ''args_hash'', ''outcome'', ''reason_code'', ''turn_id'',
      ''content_hash'']"

definition ordinary_fields :: "fields_of \<Rightarrow> bool" where
  "ordinary_fields kvs =
     (distinct (map fst kvs) \<and> list_all (\<lambda>(k, v). k \<in> set read_as_text \<longrightarrow> scalar v) kvs)"

definition list_field :: "string \<Rightarrow> (json \<Rightarrow> bool) \<Rightarrow> fields_of \<Rightarrow> bool" where
  "list_field k P kvs = (case dict_get kvs k (JArr []) of JArr xs \<Rightarrow> list_all P xs | _ \<Rightarrow> False)"

definition object_with :: "(fields_of \<Rightarrow> bool) \<Rightarrow> json \<Rightarrow> bool" where
  "object_with P v = (case v of JObj kvs \<Rightarrow> P kvs | _ \<Rightarrow> True)"

definition ordinary_justification :: "fields_of \<Rightarrow> bool" where
  "ordinary_justification r = (ordinary_fields r \<and> list_field ''premises'' scalar r)"

definition ordinary_record :: "fields_of \<Rightarrow> bool" where
  "ordinary_record r =
     (ordinary_fields r \<and> list_field ''premises'' scalar r \<and> list_field ''descendants'' scalar r
      \<and> list_field ''evidence'' (object_with ordinary_fields) r
      \<and> list_field ''justifications'' (object_with ordinary_justification) r)"

definition ordinary :: "fields_of \<Rightarrow> bool" where
  "ordinary p =
     (ordinary_fields p \<and> list_field ''rendered'' (object_with ordinary_fields) p
      \<and> object_with ordinary_record (dict_get p ''record'' JNull))"

definition replayable :: "string \<Rightarrow> fields_of \<Rightarrow> bool" where
  "replayable kind p = (kind \<in> set (map fst EVENT_HANDLERS) \<longrightarrow> ordinary p)"

section \<open>Readings of sorted fields\<close>

definition sorted_fields :: "fields_of \<Rightarrow> fields_of" where
  "sorted_fields kvs = sort_key fst (map (map_prod id sort_keys) kvs)"

lemma map_of_sorted_fields: "map_of (sorted_fields kvs) k = map_option sort_keys (map_of kvs k)"
proof -
  have "map_of (map (map_prod id sort_keys) kvs) k = map_option sort_keys (map_of kvs k)"
    by (induction kvs) auto
  then show ?thesis by (simp add: sorted_fields_def map_of_sort_key)
qed

lemma sort_keys_Obj: "sort_keys (JObj kvs) = JObj (sorted_fields kvs)"
  by (simp add: sorted_fields_def)

lemma dict_get_sorted: "dict_get (sorted_fields kvs) k v = (case map_of kvs k of None \<Rightarrow> v | Some x \<Rightarrow> sort_keys x)"
  by (simp add: dict_get_def map_of_sorted_fields split: option.splits)

lemma item_sorted: "item k (sorted_fields kvs) = and_then (item k kvs) (\<lambda>v. Inr (sort_keys v))"
  by (simp add: item_def dict_item_def map_of_sorted_fields split: option.splits)

lemma sort_keys_scalar [simp]: "scalar v \<Longrightarrow> sort_keys v = v"
  by (cases v) auto

lemma sort_key_Nil [simp]: "sort_key f xs = [] \<longleftrightarrow> xs = []"
  by (metis set_empty set_sort)

lemma sort_keys_kind [simp]:
  "sql_bind (sort_keys v) = sql_bind v" "truthy (sort_keys v) = truthy v" "py_int (sort_keys v) = py_int v"
  "(sort_keys v = JNull) = (v = JNull)"
  by (cases v; simp del: sort_key_simps)+

lemma canonical_json_sorted [simp]: "canonical_json (sort_keys v) = canonical_json v"
  by (simp add: canonical_json_def sort_keys_idem)

lemma ordinary_field:
  "ordinary_fields kvs \<Longrightarrow> k \<in> set read_as_text \<Longrightarrow> map_of kvs k = Some v \<Longrightarrow> scalar v"
  by (auto simp: ordinary_fields_def list_all_iff dest!: map_of_SomeD)

text \<open>Two readings agree when they fail alike or bind alike.\<close>

definition agree :: "reading \<Rightarrow> fields_of \<Rightarrow> bool" where
  "agree f kvs \<longleftrightarrow>
     and_then (f (sorted_fields kvs)) (\<lambda>v. Inr (sql_bind v)) = and_then (f kvs) (\<lambda>v. Inr (sql_bind v))"

lemma agree_item [simp]: "agree (item k) kvs"
  by (cases "item k kvs") (simp_all add: agree_def item_sorted)

lemma agree_get_or [simp]: "scalar v \<Longrightarrow> agree (get_or k v) kvs"
  by (cases "map_of kvs k") (simp_all add: agree_def get_or_def dict_get_def map_of_sorted_fields)

lemma agree_just [simp]: "agree (just v) kvs"
  by (simp add: agree_def just_def)

lemma canonical_sorted:
  "as_canonical (item k) (sorted_fields kvs) = as_canonical (item k) kvs"
  "as_canonical (get_or k v) (sorted_fields kvs) = as_canonical (get_or k v) kvs"
  "as_flag (item k) (sorted_fields kvs) = as_flag (item k) kvs"
  "as_flag (get_or k v) (sorted_fields kvs) = as_flag (get_or k v) kvs"
  "as_int (item k) (sorted_fields kvs) = as_int (item k) kvs"
  "as_int (get_or k v) (sorted_fields kvs) = as_int (get_or k v) kvs"
  "canonical_or_null k (sorted_fields kvs) = canonical_or_null k kvs"
  by (cases "map_of kvs k"; simp add: as_canonical_def as_flag_def as_int_def canonical_or_null_def
      get_or_def item_def dict_item_def dict_get_def map_of_sorted_fields)+

lemma agree_same: "f (sorted_fields kvs) = f kvs \<Longrightarrow> agree f kvs"
  by (simp add: agree_def)

lemma agree_structured [simp]:
  "agree (as_canonical (item k)) kvs" "agree (as_canonical (get_or k v)) kvs"
  "agree (as_flag (item k)) kvs" "agree (as_flag (get_or k v)) kvs"
  "agree (as_int (item k)) kvs" "agree (as_int (get_or k v)) kvs" "agree (canonical_or_null k) kvs"
  by (intro agree_same canonical_sorted)+

lemma item_ordinary:
  assumes "ordinary_fields kvs" and "k \<in> set read_as_text"
  shows "item k (sorted_fields kvs) = item k kvs"
proof (cases "map_of kvs k")
  case (Some v)
  with ordinary_field [OF assms this] show ?thesis by (simp add: item_def dict_item_def map_of_sorted_fields)
qed (simp add: item_def dict_item_def map_of_sorted_fields)

lemma dict_get_ordinary:
  assumes "ordinary_fields kvs" and "k \<in> set read_as_text"
  shows "dict_get (sorted_fields kvs) k v = dict_get kvs k v"
proof (cases "map_of kvs k")
  case (Some x)
  with ordinary_field [OF assms this] show ?thesis by (simp add: dict_get_def map_of_sorted_fields)
qed (simp add: dict_get_def map_of_sorted_fields)

lemma text_sorted:
  assumes "ordinary_fields kvs" and "k \<in> set read_as_text"
  shows "as_text (item k) (sorted_fields kvs) = as_text (item k) kvs"
    and "as_text (get_or k v) (sorted_fields kvs) = as_text (get_or k v) kvs"
  using assms by (simp_all add: as_text_def get_or_def item_ordinary dict_get_ordinary)

lemma agree_text [simp]:
  assumes "ordinary_fields kvs" and "k \<in> set read_as_text"
  shows "agree (as_text (item k)) kvs" and "agree (as_text (get_or k v)) kvs"
  using assms by (auto intro: agree_same simp: text_sorted)

section \<open>Statements over sorted fields\<close>

fun same_bound :: "(string \<times> json) list result \<Rightarrow> (string \<times> json) list result \<Rightarrow> bool" where
  "same_bound (Inl e) r = (r = Inl e)"
| "same_bound (Inr vs) r = (\<exists>ws. r = Inr ws \<and> list_all2 (\<lambda>(c, v) (c', w). c = c' \<and> sql_bind v = sql_bind w) vs ws)"

lemma read_columns_agree:
  "\<forall>(c, f)\<in>set cols. agree f kvs \<Longrightarrow> same_bound (read_columns cols kvs) (read_columns cols (sorted_fields kvs))"
proof (induction cols)
  case (Cons cf cols)
  obtain c f where cf: "cf = (c, f)" by force
  from Cons have IH: "same_bound (read_columns cols kvs) (read_columns cols (sorted_fields kvs))" and a: "agree f kvs"
    by (auto simp: cf)
  show ?case
  proof (cases "f kvs")
    case (Inl e)
    with a show ?thesis by (cases "f (sorted_fields kvs)") (simp_all add: agree_def cf)
  next
    case (Inr v)
    with a obtain w where "f (sorted_fields kvs) = Inr w" "sql_bind w = sql_bind v"
      by (cases "f (sorted_fields kvs)") (simp_all add: agree_def)
    with Inr IH show ?thesis by (cases "read_columns cols kvs") (auto simp: cf)
  qed
qed simp

lemma bind_all_same:
  "list_all2 (\<lambda>(c, v) (c', w). c = c' \<and> sql_bind v = sql_bind w) vs ws \<Longrightarrow> bind_all vs = bind_all ws"
  by (induction vs ws rule: list_all2_induct) (auto split: prod.splits)

lemma read_then_sorted:
  assumes "\<forall>(c, f)\<in>set cols. agree f kvs" and "\<And>vs ws. bind_all vs = bind_all ws \<Longrightarrow> g vs = g ws"
  shows "and_then (read_columns cols (sorted_fields kvs)) g = and_then (read_columns cols kvs) g"
  using read_columns_agree [OF assms(1)]
  by (cases "read_columns cols kvs") (auto dest!: bind_all_same intro: assms(2) [symmetric])

lemma insert_record_sorted:
  "\<forall>(c, f)\<in>set cols. agree f kvs \<Longrightarrow> insert_record t cols (sorted_fields kvs) = insert_record t cols kvs"
  unfolding insert_record_def by (intro ext read_then_sorted) (simp_all add: sql_insert_def)

lemma update_where_sorted:
  "\<forall>(c, f)\<in>set cols. agree f kvs \<Longrightarrow> update_where t cols (sorted_fields kvs) = update_where t cols kvs"
  unfolding update_where_def by (intro ext read_then_sorted) (simp_all add: sql_update_def)

lemma require_field_sorted:
  "ordinary_fields kvs \<Longrightarrow> k \<in> set read_as_text \<Longrightarrow>
    require_field t k (sorted_fields kvs) = require_field t k kvs"
  by (intro ext) (simp add: require_field_def item_ordinary)

lemma fold_result_map_cong:
  "(\<And>x d. x \<in> set xs \<Longrightarrow> f (g x) d = f x d) \<Longrightarrow> fold_result f (map g xs) d = fold_result f xs d"
proof (induction xs arbitrary: d)
  case (Cons x xs)
  then show ?case by (cases "f x d") simp_all
qed simp

lemma list_field_sorted:
  assumes "list_field k P kvs"
  obtains xs where "dict_get kvs k (JArr []) = JArr xs"
    and "dict_get (sorted_fields kvs) k (JArr []) = JArr (map sort_keys xs)" and "list_all P xs"
proof (cases "map_of kvs k")
  case None
  with that [of "[]"] show thesis by (simp add: dict_get_def map_of_sorted_fields)
next
  case (Some v)
  with assms obtain xs where "v = JArr xs" "list_all P xs"
    by (auto simp: list_field_def dict_get_def split: json.splits)
  with Some that [of xs] show thesis by (simp add: dict_get_def map_of_sorted_fields)
qed

lemma map_sort_scalars: "list_all scalar xs \<Longrightarrow> map sort_keys xs = xs"
  by (induction xs) simp_all

lemma object_of_sorted: "object_of (sort_keys v) = and_then (object_of v) (\<lambda>r. Inr (sorted_fields r))"
  by (cases v) (simp_all add: object_of_def sorted_fields_def)

lemma mapping_of_sorted: "mapping_of (sort_keys v) = and_then (mapping_of v) (\<lambda>r. Inr (sorted_fields r))"
  by (cases v) (simp_all add: mapping_of_def sorted_fields_def)

lemmas sorted_reads =
  item_ordinary dict_get_ordinary insert_record_sorted update_where_sorted require_field_sorted
  columns_of_def read_as_text_def

section \<open>Records\<close>

lemma episode_created_sorted: "ordinary_fields r \<Longrightarrow> episode_created (sorted_fields r) = episode_created r"
  by (simp add: episode_created_def sorted_reads)

lemma source_registered_sorted: "ordinary_fields r \<Longrightarrow> source_registered (sorted_fields r) = source_registered r"
  by (simp add: source_registered_def sorted_reads)

lemma evidence_ingested_sorted: "ordinary_fields r \<Longrightarrow> evidence_ingested (sorted_fields r) = evidence_ingested r"
  by (intro ext) (simp add: evidence_ingested_def sorted_reads)

lemma graph_records_sorted:
  assumes "ordinary_fields r"
  shows "support_added (sorted_fields r) = support_added r"
    and "defeat_added (sorted_fields r) = defeat_added r"
    and "verification_created (sorted_fields r) = verification_created r"
    and "conflict_opened (sorted_fields r) = conflict_opened r"
    and "component_verdict (sorted_fields r) = component_verdict r"
    and "llm_usage add (sorted_fields r) = llm_usage add r"
  using assms
  by (intro ext; simp add: support_added_def defeat_added_def verification_created_def conflict_opened_def
      component_verdict_def llm_usage_def sorted_reads cong: if_cong)+

lemma justification_added_sorted:
  assumes "ordinary_justification r"
  shows "justification_added ep (sorted_fields r) = justification_added ep r"
proof
  fix d
  have r: "ordinary_fields r" and "list_field ''premises'' scalar r"
    using assms by (simp_all add: ordinary_justification_def)
  from this(2) obtain ps where "dict_get r ''premises'' (JArr []) = JArr ps"
    and "dict_get (sorted_fields r) ''premises'' (JArr []) = JArr (map sort_keys ps)" and "list_all scalar ps"
    by (rule list_field_sorted)
  with r show "justification_added ep (sorted_fields r) d = justification_added ep r d"
    by (simp add: justification_added_def elements_def map_sort_scalars sorted_reads)
qed

lemma retraction_created_sorted:
  assumes "ordinary_record r"
  shows "retraction_created (sorted_fields r) = retraction_created r"
proof
  fix d
  have r: "ordinary_fields r" and "list_field ''descendants'' scalar r"
    using assms by (simp_all add: ordinary_record_def)
  from this(2) obtain ps where "dict_get r ''descendants'' (JArr []) = JArr ps"
    and "dict_get (sorted_fields r) ''descendants'' (JArr []) = JArr (map sort_keys ps)" and "list_all scalar ps"
    by (rule list_field_sorted)
  with r show "retraction_created (sorted_fields r) d = retraction_created r d"
    by (simp add: retraction_created_def elements_def map_sort_scalars sorted_reads)
qed

lemma evidence_ref_sorted:
  assumes "object_with ordinary_fields v"
  shows "require_evidence_ref ep (sort_keys v) d = require_evidence_ref ep v d"
    and "insert_evidence_ref i (sort_keys v) d = insert_evidence_ref i v d"
  using assms unfolding require_evidence_ref_def insert_evidence_ref_def object_of_sorted
  by (cases v; simp add: object_of_def object_with_def canonical_sorted sorted_reads)+

lemma belief_admitted_sorted:
  assumes "ordinary_record r"
  shows "belief_admitted sha fts (sorted_fields r) = belief_admitted sha fts r"
proof
  fix d
  have r: "ordinary_fields r" and ev: "list_field ''evidence'' (object_with ordinary_fields) r"
    and js: "list_field ''justifications'' (object_with ordinary_justification) r"
    using assms by (simp_all add: ordinary_record_def)
  from ev obtain refs where refs: "dict_get r ''evidence'' (JArr []) = JArr refs"
    "dict_get (sorted_fields r) ''evidence'' (JArr []) = JArr (map sort_keys refs)"
    "list_all (object_with ordinary_fields) refs"
    by (rule list_field_sorted)
  from js obtain justs where justs: "dict_get r ''justifications'' (JArr []) = JArr justs"
    "dict_get (sorted_fields r) ''justifications'' (JArr []) = JArr (map sort_keys justs)"
    "list_all (object_with ordinary_justification) justs"
    by (rule list_field_sorted)
  have checks: "fold_result (require_evidence_ref ep) (map sort_keys refs) x = fold_result (require_evidence_ref ep) refs x"
    and links: "fold_result (insert_evidence_ref i) (map sort_keys refs) x = fold_result (insert_evidence_ref i) refs x" for ep i x
    using refs(3) by (auto intro!: fold_result_map_cong evidence_ref_sorted simp: list_all_iff)
  have added: "fold_result (\<lambda>j d. and_then (object_of j) (\<lambda>kvs. justification_added ep kvs d)) (map sort_keys justs) x =
      fold_result (\<lambda>j d. and_then (object_of j) (\<lambda>kvs. justification_added ep kvs d)) justs x" for ep x
  proof (rule fold_result_map_cong)
    fix j d
    assume "j \<in> set justs"
    with justs(3) have "object_with ordinary_justification j" by (auto simp: list_all_iff)
    then show "and_then (object_of (sort_keys j)) (\<lambda>kvs. justification_added ep kvs d) =
        and_then (object_of j) (\<lambda>kvs. justification_added ep kvs d)"
      unfolding object_of_sorted by (cases j) (simp_all add: object_of_def object_with_def justification_added_sorted)
  qed
  have rows: "insert_belief h (sorted_fields r) = insert_belief h r"
    "index_belief h (sorted_fields r) = index_belief h r" for h
    using r by (intro ext; simp add: insert_belief_def index_belief_def sorted_reads Let_def)+
  show "belief_admitted sha fts (sorted_fields r) d = belief_admitted sha fts r d"
    using r by (simp add: belief_admitted_def elements_def refs(1,2) justs(1,2) checks links added rows sorted_reads)
qed

section \<open>Events\<close>

text \<open>\<open>e'\<close> is \<open>e\<close> as it is read back: what the handlers use of it is the same, the payload is sorted.\<close>

definition restored :: "event \<Rightarrow> event \<Rightarrow> bool" where
  "restored e e' \<longleftrightarrow>
     ev_seq e' = ev_seq e \<and> ev_id e' = ev_id e \<and> ev_episode_id e' = ev_episode_id e
     \<and> ev_timestamp e' = ev_timestamp e \<and> ev_kind e' = ev_kind e
     \<and> ev_aggregate_id e' = ev_aggregate_id e \<and> ev_event_hash e' = ev_event_hash e
     \<and> payload e' = sorted_fields (payload e)"

lemma restored_simps:
  assumes "restored e e'"
  shows "ev_seq e' = ev_seq e" "ev_id e' = ev_id e" "ev_episode_id e' = ev_episode_id e"
    "ev_timestamp e' = ev_timestamp e" "ev_kind e' = ev_kind e" "ev_aggregate_id e' = ev_aggregate_id e"
    "ev_event_hash e' = ev_event_hash e" "payload e' = sorted_fields (payload e)"
  using assms by (simp_all add: restored_def)

lemma record_field_sorted:
  "dict_get (sorted_fields p) ''record'' JNull = sort_keys (dict_get p ''record'' JNull)"
  by (cases "map_of p ''record''") (simp_all add: dict_get_def map_of_sorted_fields)

lemma ordinary_recordD:
  "ordinary p \<Longrightarrow> mapping_of (dict_get p ''record'' JNull) = Inr r \<Longrightarrow> ordinary_record r \<and> ordinary_fields r"
  by (cases "dict_get p ''record'' JNull") (auto simp: ordinary_def object_with_def mapping_of_def ordinary_record_def)

lemma ordinary_record_parts: "ordinary_record r \<Longrightarrow> ordinary_fields r" "ordinary_record r \<Longrightarrow> ordinary_justification r"
  by (simp_all add: ordinary_record_def ordinary_justification_def)

lemma record_for_event_sorted:
  assumes "restored e e'" and "ordinary (payload e)"
    and "\<And>r. ordinary_record r \<Longrightarrow> f (sorted_fields r) = f r"
  shows "and_then (record_for_event e') f = and_then (record_for_event e) f"
proof (cases "mapping_of (dict_get (payload e) ''record'' JNull)")
  case (Inr r)
  with ordinary_recordD [OF assms(2)] have r: "ordinary_record r" "ordinary_fields r" by auto
  then have "dict_get (sorted_fields r) ''episode_id'' (JStr []) = dict_get r ''episode_id'' (JStr [])"
    by (simp add: dict_get_ordinary read_as_text_def)
  with Inr assms(3) [OF r(1)] show ?thesis
    by (simp add: record_for_event_def restored_simps [OF assms(1)] record_field_sorted mapping_of_sorted)
qed (simp add: record_for_event_def restored_simps [OF assms(1)] record_field_sorted mapping_of_sorted)

lemma mapping_sorted:
  assumes "restored e e'" and "ordinary (payload e)"
    and "\<And>r. ordinary_record r \<Longrightarrow> f (sorted_fields r) = f r"
  shows "and_then (mapping_of (dict_get (payload e') ''record'' JNull)) f =
    and_then (mapping_of (dict_get (payload e) ''record'' JNull)) f"
proof (cases "mapping_of (dict_get (payload e) ''record'' JNull)")
  case (Inr r)
  with ordinary_recordD [OF assms(2)] assms(3) show ?thesis
    by (simp add: restored_simps [OF assms(1)] record_field_sorted mapping_of_sorted)
qed (simp add: restored_simps [OF assms(1)] record_field_sorted mapping_of_sorted)

lemma record_handlers_sorted:
  assumes e: "restored e e'" and p: "ordinary (payload e)"
  shows "apply_episode_created e' = apply_episode_created e"
    and "apply_source_registered e' = apply_source_registered e"
    and "apply_evidence_ingested e' = apply_evidence_ingested e"
    and "apply_belief_admitted sha fts e' = apply_belief_admitted sha fts e"
    and "apply_support_added e' = apply_support_added e"
    and "apply_justification_added e' = apply_justification_added e"
    and "apply_defeat_added e' = apply_defeat_added e"
    and "apply_verification_created e' = apply_verification_created e"
    and "apply_conflict_opened e' = apply_conflict_opened e"
    and "apply_retraction_created e' = apply_retraction_created e"
    and "apply_component_verdict_recorded e' = apply_component_verdict_recorded e"
    and "apply_llm_usage_recorded add e' = apply_llm_usage_recorded add e"
proof -
  show "apply_episode_created e' = apply_episode_created e"
    unfolding apply_episode_created_def restored_simps(3) [OF e]
    by (intro ext mapping_sorted [OF e p])
      (simp add: episode_created_sorted ordinary_record_parts dict_get_ordinary read_as_text_def)
  show "apply_justification_added e' = apply_justification_added e"
    unfolding apply_justification_added_def restored_simps(3) [OF e]
    by (intro ext mapping_sorted [OF e p]) (simp add: justification_added_sorted ordinary_record_parts)
  show "apply_source_registered e' = apply_source_registered e"
    "apply_evidence_ingested e' = apply_evidence_ingested e"
    "apply_belief_admitted sha fts e' = apply_belief_admitted sha fts e"
    "apply_support_added e' = apply_support_added e"
    "apply_defeat_added e' = apply_defeat_added e"
    "apply_verification_created e' = apply_verification_created e"
    "apply_conflict_opened e' = apply_conflict_opened e"
    "apply_retraction_created e' = apply_retraction_created e"
    "apply_component_verdict_recorded e' = apply_component_verdict_recorded e"
    "apply_llm_usage_recorded add e' = apply_llm_usage_recorded add e"
    unfolding apply_source_registered_def apply_evidence_ingested_def apply_belief_admitted_def
      apply_support_added_def apply_defeat_added_def apply_verification_created_def
      apply_conflict_opened_def apply_retraction_created_def apply_component_verdict_recorded_def
      apply_llm_usage_recorded_def
    by (intro ext record_for_event_sorted [OF e p];
        simp add: source_registered_sorted evidence_ingested_sorted belief_admitted_sorted
          graph_records_sorted retraction_created_sorted ordinary_record_parts)+
qed

lemma field_handlers_sorted:
  assumes e: "restored e e'" and "ordinary (payload e)"
  shows "apply_episode_turn_started e' = apply_episode_turn_started e"
    and "apply_episode_stakes_changed e' = apply_episode_stakes_changed e"
    and "apply_episode_state_changed e' = apply_episode_state_changed e"
    and "apply_source_stats_updated e' = apply_source_stats_updated e"
    and "apply_support_activity_changed e' = apply_support_activity_changed e"
    and "apply_justification_audited e' = apply_justification_audited e"
    and "apply_defeat_activity_changed e' = apply_defeat_activity_changed e"
    and "apply_belief_status_changed fts e' = apply_belief_status_changed fts e"
    and "apply_belief_admission_changed e' = apply_belief_admission_changed e"
    and "apply_belief_corroboration_changed e' = apply_belief_corroboration_changed e"
    and "apply_verification_completed e' = apply_verification_completed e"
    and "apply_conflict_resolved e' = apply_conflict_resolved e"
    and "apply_retraction_state_changed e' = apply_retraction_state_changed e"
    and "apply_lint_recorded e' = apply_lint_recorded e"
    and "apply_gate_decided e' = apply_gate_decided e"
    and "apply_assistant_response_recorded e' = apply_assistant_response_recorded e"
proof -
  have p: "ordinary_fields (payload e)" using assms(2) by (simp add: ordinary_def)
  note rw = restored_simps [OF e] sorted_reads text_sorted event_columns_def
  show "apply_episode_turn_started e' = apply_episode_turn_started e"
    "apply_episode_stakes_changed e' = apply_episode_stakes_changed e"
    "apply_episode_state_changed e' = apply_episode_state_changed e"
    using p by (simp_all add: apply_episode_turn_started_def apply_episode_stakes_changed_def
        apply_episode_state_changed_def rw)
  show "apply_source_stats_updated e' = apply_source_stats_updated e"
    "apply_support_activity_changed e' = apply_support_activity_changed e"
    "apply_justification_audited e' = apply_justification_audited e"
    "apply_defeat_activity_changed e' = apply_defeat_activity_changed e"
    using p by (intro ext; simp add: apply_source_stats_updated_def apply_support_activity_changed_def
        apply_justification_audited_def apply_defeat_activity_changed_def rw)+
  show "apply_belief_status_changed fts e' = apply_belief_status_changed fts e"
    "apply_belief_admission_changed e' = apply_belief_admission_changed e"
    "apply_belief_corroboration_changed e' = apply_belief_corroboration_changed e"
    "apply_verification_completed e' = apply_verification_completed e"
    using p by (intro ext; simp add: apply_belief_status_changed_def apply_belief_admission_changed_def
        apply_belief_corroboration_changed_def apply_verification_completed_def rw)+
  show "apply_conflict_resolved e' = apply_conflict_resolved e"
    "apply_retraction_state_changed e' = apply_retraction_state_changed e"
    by (intro ext; simp add: apply_conflict_resolved_def apply_retraction_state_changed_def restored_simps [OF e])+
  show "apply_lint_recorded e' = apply_lint_recorded e"
    "apply_gate_decided e' = apply_gate_decided e"
    "apply_assistant_response_recorded e' = apply_assistant_response_recorded e"
    using p by (simp_all add: apply_lint_recorded_def apply_gate_decided_def
        apply_assistant_response_recorded_def rw)
qed

lemma stats_delta_sorted:
  assumes e: "restored e e'"
  shows "apply_source_stats_delta e' = apply_source_stats_delta e"
proof -
  have "get_int (sort_keys v) k = get_int v k" for v k
    by (cases v) (auto simp: get_int_def sort_keys_Obj dict_get_def map_of_sorted_fields
        simp del: sort_keys.simps(7) split: option.splits)
  then have "add_stats x (sort_keys v) = add_stats x v" for x v by (simp add: add_stats_def)
  moreover have "dict_get (sorted_fields p) ''delta'' (JObj []) = sort_keys (dict_get p ''delta'' (JObj []))" for p
    by (cases "map_of p ''delta''") (simp_all add: dict_get_def map_of_sorted_fields)
  ultimately show ?thesis
    by (intro ext) (simp add: apply_source_stats_delta_def restored_simps [OF e] cong: option.case_cong)
qed

lemma other_handlers_sorted:
  assumes e: "restored e e'" and "ordinary (payload e)"
  shows "apply_belief_observation_refreshed e' = apply_belief_observation_refreshed e"
    and "apply_context_compiled e' = apply_context_compiled e"
    and "apply_unpromoted_evidence_added e' = apply_unpromoted_evidence_added e"
    and "apply_unpromoted_evidence_finished e' = apply_unpromoted_evidence_finished e"
proof -
  have p: "ordinary_fields (payload e)" and rendered: "list_field ''rendered'' (object_with ordinary_fields) (payload e)"
    using assms(2) by (simp_all add: ordinary_def)
  show "apply_belief_observation_refreshed e' = apply_belief_observation_refreshed e"
    using p by (intro ext) (simp add: apply_belief_observation_refreshed_def Let_def restored_simps [OF e]
        canonical_sorted text_sorted sorted_reads)
  show "apply_context_compiled e' = apply_context_compiled e"
  proof
    fix d
    from rendered obtain xs where xs: "dict_get (payload e) ''rendered'' (JArr []) = JArr xs"
      "dict_get (sorted_fields (payload e)) ''rendered'' (JArr []) = JArr (map sort_keys xs)"
      "list_all (object_with ordinary_fields) xs"
      by (rule list_field_sorted)
    have "render_belief ep (sort_keys x) d = render_belief ep x d" if x: "object_with ordinary_fields x" for ep x d
    proof (cases x)
      case (JObj r)
      with x have r: "ordinary_fields r" by (simp add: object_with_def)
      have "and_then (read_columns cols (sorted_fields r)) (\<lambda>vs. sql_insert_or_ignore ledger_schema t vs d) =
          and_then (read_columns cols r) (\<lambda>vs. sql_insert_or_ignore ledger_schema t vs d)"
        if "\<forall>(c, f)\<in>set cols. agree f r" for cols t d
        using that by (rule read_then_sorted) (simp add: sql_insert_or_ignore_def)
      with r show ?thesis unfolding JObj render_belief_def object_of_sorted
        by (simp add: object_of_def sorted_reads del: read_columns.simps)
    qed (simp_all add: render_belief_def object_of_def)
    then have "fold_result (render_belief ep) (map sort_keys xs) d = fold_result (render_belief ep) xs d" for ep
      using xs(3) by (intro fold_result_map_cong) (simp add: list_all_iff)
    with xs show "apply_context_compiled e' d = apply_context_compiled e d"
      by (simp add: apply_context_compiled_def restored_simps [OF e] elements_def)
  qed
  have replace: "and_then (read_columns cols (sorted_fields (payload e))) (\<lambda>vs. sql_insert_or_replace ledger_schema t vs d) =
      and_then (read_columns cols (payload e)) (\<lambda>vs. sql_insert_or_replace ledger_schema t vs d)"
    if "\<forall>(c, f)\<in>set cols. agree f (payload e)" for cols t d
    using that by (rule read_then_sorted) (simp add: sql_insert_or_replace_def)
  show "apply_unpromoted_evidence_added e' = apply_unpromoted_evidence_added e"
    using p by (intro ext) (simp add: apply_unpromoted_evidence_added_def Let_def restored_simps [OF e] replace sorted_reads
        del: read_columns.simps)
  have update: "and_then (read_columns cols (sorted_fields (payload e))) (\<lambda>vs. and_then x (\<lambda>ev. sql_update ledger_schema t vs (q ev) d)) =
      and_then (read_columns cols (payload e)) (\<lambda>vs. and_then x (\<lambda>ev. sql_update ledger_schema t vs (q ev) d))"
    if "\<forall>(c, f)\<in>set cols. agree f (payload e)" for cols t x q d
    using that by (rule read_then_sorted) (simp add: sql_update_def)
  show "apply_unpromoted_evidence_finished e' = apply_unpromoted_evidence_finished e"
    using p by (intro ext) (simp add: apply_unpromoted_evidence_finished_def Let_def restored_simps [OF e] update
        text_sorted sorted_reads del: read_columns.simps)
qed

lemmas handlers_sorted =
  record_handlers_sorted field_handlers_sorted other_handlers_sorted

lemma handler_sorted:
  assumes "(k, h) \<in> set EVENT_HANDLERS" and "restored e e'" and "ordinary (payload e)"
  shows "h X e' = h X e"
  using assms(1) unfolding EVENT_HANDLERS_def list.set
  by (elim insertE emptyE) (simp_all only: prod.inject, simp_all add: handlers_sorted [OF assms(2,3)] stats_delta_sorted [OF assms(2)])

lemma apply_event_restored:
  assumes "restored e e'" and "replayable (ev_kind e) (payload e)"
  shows "apply_event X e' d = apply_event X e d"
proof -
  have "advance_event_head e' = advance_event_head e"
    by (intro ext) (simp add: advance_event_head_def restored_simps [OF assms(1)] cong: if_cong)
  moreover have handled: "h X e' = h X e" if h: "(ev_kind e, h) \<in> set EVENT_HANDLERS" for h
    using assms(2) imageI [OF h, of fst] by (intro handler_sorted [OF h assms(1)]) (simp add: replayable_def)
  have "(case map_of EVENT_HANDLERS (ev_kind e) of None \<Rightarrow> Inr x | Some h \<Rightarrow> h X e' x) =
      (case map_of EVENT_HANDLERS (ev_kind e) of None \<Rightarrow> Inr x | Some h \<Rightarrow> h X e x)" for x
    by (auto split: option.splits dest!: map_of_SomeD simp: handled)
  ultimately show ?thesis by (simp add: apply_event_def restored_simps [OF assms(1)])
qed

end
