(* ===== verification/Ledger_Chain.thy ===== *)
theory Ledger_Chain
  imports Ledger_Replay Projection_Props Payload_Order
begin

text \<open>
  The invariant of the ledger: the tables hold a history of events that are chained per episode,
  authenticated, numbered in increasing order, and whose projections are what the handlers make of
  them. Every append keeps it, so the chain verifies and a replay reproduces the projections.
\<close>

section \<open>Events as they are read back\<close>

text \<open>An event the store can write: its values are JSON the codec reads back.\<close>

definition writable :: "event \<Rightarrow> bool" where
  "writable e \<longleftrightarrow> readable (ev_payload e) \<and> readable (ev_correlation e) \<and> ev_causal_event_id e \<noteq> Some []"

definition resorted :: "event \<Rightarrow> event" where
  "resorted e = e\<lparr>ev_payload := sort_keys (ev_payload e), ev_correlation := sort_keys (ev_correlation e)\<rparr>"

definition untagged :: "event \<Rightarrow> event" where
  "untagged e = e\<lparr>ev_auth_tag := []\<rparr>"

lemma resorted_simps [simp]:
  "ev_seq (resorted e) = ev_seq e" "ev_id (resorted e) = ev_id e"
  "ev_episode_id (resorted e) = ev_episode_id e" "ev_kind (resorted e) = ev_kind e"
  "ev_timestamp (resorted e) = ev_timestamp e" "ev_aggregate_id (resorted e) = ev_aggregate_id e"
  "ev_previous_hash (resorted e) = ev_previous_hash e" "ev_event_hash (resorted e) = ev_event_hash e"
  "ev_auth_tag (resorted e) = ev_auth_tag e"
  "ev_payload (resorted e) = sort_keys (ev_payload e)"
  "ev_correlation (resorted e) = sort_keys (ev_correlation e)"
  by (simp_all add: resorted_def)

lemma untagged_simps [simp]:
  "ev_seq (untagged e) = ev_seq e" "ev_id (untagged e) = ev_id e"
  "ev_episode_id (untagged e) = ev_episode_id e" "ev_event_hash (untagged e) = ev_event_hash e"
  "(untagged e)\<lparr>ev_auth_tag := t\<rparr> = e\<lparr>ev_auth_tag := t\<rparr>"
  by (simp_all add: untagged_def)

lemma event_from_stored: "writable e \<Longrightarrow> event_from_row (stored_of e) = Inr (untagged (resorted e))"
  using json_loads_print [OF readable_sort_keys]
  by (cases e) (auto simp: event_from_row_def stored_of_def writable_def canonical_json_def
      untagged_def resorted_def)

lemma event_body_resorted: "canonical_json (event_body (resorted e)) = canonical_json (event_body e)"
  by (simp add: canonical_json_def event_body_def resorted_def sort_keys_idem del: sort_key_simps)

lemma event_hash_resorted [simp]: "event_hash_of sha p (resorted e) = event_hash_of sha p e"
  by (simp add: event_hash_of_def chain_material_def event_body_resorted)

lemma event_hash_untagged [simp]:
  "event_hash_of sha p (e\<lparr>ev_auth_tag := t\<rparr>) = event_hash_of sha p e"
  by (simp add: event_hash_of_def)

lemma payload_simps [simp]:
  "payload (resorted e) = sorted_fields (payload e)" "payload (e\<lparr>ev_auth_tag := t\<rparr>) = payload e"
  by (cases "ev_payload e"; simp add: payload_def sorted_fields_def)+

lemma restored_resorted: "restored e (resorted e)" "restored e (untagged (resorted e))"
  by (simp_all add: restored_def untagged_def)

section \<open>The invariant\<close>

definition auth_of :: "event \<Rightarrow> auth_row" where
  "auth_of e = \<lparr>au_event_id = ev_id e, au_event_hash = ev_event_hash e, au_tag = ev_auth_tag e\<rparr>"

definition head_row :: "string \<times> nat \<times> string \<Rightarrow> row" where
  "head_row = (\<lambda>(ep, n, h). [(''episode_id'', JStr ep), (''seq'', JInt (int n)), (''event_hash'', JStr h)])"

definition sound_event :: "ledger_env \<Rightarrow> event \<Rightarrow> bool" where
  "sound_event E e \<longleftrightarrow>
     writable e \<and> replayable (ev_kind e) (payload e) \<and> plain_name (ev_episode_id e) \<and> event_auth E e = Inr (ev_auth_tag e)"

definition ledger_holds :: "ledger_env \<Rightarrow> event list \<Rightarrow> heads \<Rightarrow> ledger \<Rightarrow> bool" where
  "ledger_holds E es hs l \<longleftrightarrow>
     lg_events l = map stored_of es \<and> lg_auth l = map auth_of es
     \<and> sorted_wrt (<) (map ev_seq es) \<and> distinct (map ev_id es) \<and> (\<forall>e\<in>set es. sound_event E e)
     \<and> fold_result (check_link E) es [] = Inr hs
     \<and> lg_db l ''event_heads'' = map head_row hs
     \<and> fold_result (apply_event (le_storage E)) es (\<lambda>t. []) = Inr (lg_db l)"

lemma ledger_holdsD:
  assumes "ledger_holds E es hs l"
  shows "lg_events l = map stored_of es" "lg_auth l = map auth_of es" "sorted_wrt (<) (map ev_seq es)"
    "distinct (map ev_id es)" "\<And>e. e \<in> set es \<Longrightarrow> sound_event E e"
    "fold_result (check_link E) es [] = Inr hs" "lg_db l ''event_heads'' = map head_row hs"
    "fold_result (apply_event (le_storage E)) es (\<lambda>t. []) = Inr (lg_db l)"
  using assms by (auto simp: ledger_holds_def)

lemma ledger_holds_empty: "ledger_holds E [] [] empty_ledger"
  by (simp add: ledger_holds_def empty_ledger_def)

lemma holds_consistent: "ledger_holds E es hs l \<Longrightarrow> consistent ledger_schema (lg_db l)"
  by (rule apply_events_consistent [OF ledger_holdsD(8) consistent_empty])
    (auto dest: ledger_holdsD(5) simp: sound_event_def)

lemma find_auth:
  "distinct (map ev_id es) \<Longrightarrow> e \<in> set es \<Longrightarrow> find (\<lambda>a. au_event_id a = ev_id e) (map auth_of es) = Some (auth_of e)"
  by (induction es) (auto simp: auth_of_def)

lemma map_result_map: "(\<And>x. x \<in> set xs \<Longrightarrow> f (g x) = Inr (h x)) \<Longrightarrow> map_result f (map g xs) = Inr (map h xs)"
  by (induction xs) auto

lemma authenticated_stored:
  assumes "ledger_holds E es hs l" and "set fs \<subseteq> set es"
  shows "authenticated_events E l (map stored_of fs) = Inr (map resorted fs)"
proof -
  have sound: "sound_event E e" "find (\<lambda>a. au_event_id a = ev_id e) (lg_auth l) = Some (auth_of e)"
    if "e \<in> set fs" for e
    using that assms ledger_holdsD [OF assms(1)] find_auth by auto
  have "map_result event_from_row (map stored_of fs) = Inr (map (\<lambda>e. untagged (resorted e)) fs)"
    by (rule map_result_map) (use sound(1) event_from_stored in \<open>auto simp: sound_event_def\<close>)
  moreover have "map_result (authenticate E (lg_auth l)) (map (\<lambda>e. untagged (resorted e)) fs) = Inr (map resorted fs)"
  proof (rule map_result_map)
    fix e
    assume e: "e \<in> set fs"
    with sound(1) have "event_auth E (untagged (resorted e)) = Inr (ev_auth_tag e)"
      by (auto simp: sound_event_def event_auth_def)
    with sound(2) [OF e] show "authenticate E (lg_auth l) (untagged (resorted e)) = Inr (resorted e)"
      by (simp add: authenticate_def auth_of_def)
  qed
  ultimately show ?thesis by (simp add: authenticated_events_def)
qed

lemma check_link_resorted [simp]: "check_link E (resorted e) hs = check_link E e hs"
  by (simp add: check_link_def event_auth_def Let_def cong: if_cong)

lemma check_batch_all:
  "check_batch E None (map resorted es) hs = and_then (fold_result (check_link E) es hs) (\<lambda>h. Inr (h, False))"
proof (induction es arbitrary: hs)
  case (Cons e es)
  then show ?case by (cases "check_link E e hs") simp_all
qed simp

lemma check_batches_all:
  assumes "ledger_holds E es hs l"
  shows "set fs \<subseteq> set es \<Longrightarrow> check_batches E l None (map stored_of fs) hs0 = fold_result (check_link E) fs hs0"
proof (induction fs arbitrary: hs0 rule: length_induct)
  case (1 fs)
  show ?case
  proof (cases "fs = []")
    case True
    then show ?thesis by (simp add: check_batches.simps)
  next
    case False
    have sub: "set (take 1000 fs) \<subseteq> set es" "set (drop 1000 fs) \<subseteq> set es"
      using 1(2) by (meson order_trans set_drop_subset set_take_subset)+
    have "fold_result (check_link E) (take 1000 fs @ drop 1000 fs) hs0 =
        and_then (fold_result (check_link E) (take 1000 fs) hs0) (fold_result (check_link E) (drop 1000 fs))"
      by (rule fold_result_append)
    moreover have "check_batches E l None (map stored_of (drop 1000 fs)) h = fold_result (check_link E) (drop 1000 fs) h" for h
      using 1(1) False sub(2) by simp
    ultimately show ?thesis
      using False authenticated_stored [OF assms sub(1)]
      by (cases "fold_result (check_link E) (take 1000 fs) hs0")
        (simp_all add: check_batches.simps [of E l None "map stored_of fs"] take_map drop_map check_batch_all)
  qed
qed

lemma rows_in_order_holds: "ledger_holds E es hs l \<Longrightarrow> rows_in_order l = map stored_of es"
proof -
  assume h: "ledger_holds E es hs l"
  have eq: "map se_seq (map stored_of es) = map ev_seq es" by (simp add: stored_of_def)
  have "sorted (map se_seq (map stored_of es))"
    unfolding eq using ledger_holdsD(3) [OF h] by (simp add: strict_sorted_iff)
  then show ?thesis unfolding rows_in_order_def ledger_holdsD(1) [OF h] by (rule sort_key_sorted)
qed

lemma check_link_keys: "check_link E e hs = Inr hs' \<Longrightarrow>
    hs' = AList.update (ev_episode_id e) (ev_seq e, ev_event_hash e) hs"
  by (auto simp: check_link_def Let_def splits_result split: if_splits)

lemma chained_distinct: "fold_result (check_link E) es hs0 = Inr hs \<Longrightarrow> distinct (map fst hs0) \<Longrightarrow> distinct (map fst hs)"
  by (erule fold_result_invariant) (auto dest!: check_link_keys simp: distinct_update)

lemma projected_heads_holds:
  assumes "d ''event_heads'' = map head_row hs" and "distinct (map fst hs)"
  shows "projected_heads d = map (map_prod id head_json) hs"
proof -
  have heads: "map (\<lambda>r. (py_str (cell r ''episode_id''), JArr [cell r ''seq'', JStr (py_str (cell r ''event_hash''))]))
      (map head_row hs) = map (map_prod id head_json) hs"
    by (auto simp: head_row_def head_json_def cell_def dict_get_def)
  show ?thesis unfolding projected_heads_def assms(1) heads
    by (rule dict_of_pairs_distinct) (use assms(2) in simp)
qed

lemma verified_heads_holds: "ledger_holds E es hs l \<Longrightarrow> verified_heads E None l = Inr hs"
  by (simp add: verified_heads_def rows_in_order_holds check_batches_all ledger_holdsD(6))

lemma map_of_heads: "map_of (map (map_prod id f) hs) k = map_option f (map_of hs k)"
  by (induction hs) auto

lemma verify_holds:
  assumes "ledger_holds E es hs l"
  shows "verify_hash_chain E l = Inr (canonical_json (heads_json hs))"
proof -
  have "distinct (map fst hs)" using chained_distinct [OF ledger_holdsD(6) [OF assms]] by simp
  then show ?thesis
    using verified_heads_holds [OF assms] projected_heads_holds [of "lg_db l" hs] ledger_holdsD(7) [OF assms]
    by (simp add: verify_hash_chain_def map_of_heads list_all_iff)
qed

section \<open>The head of an episode\<close>

lemma event_heads_schema:
  "ts_columns (ledger_schema ''event_heads'') = [tcol_null ''episode_id'', icol ''seq'', tcol ''event_hash'']"
  by code_simp

lemma make_head_row:
  "make_row (ledger_schema ''event_heads'')
     [(''episode_id'', JStr ep), (''seq'', JInt (int n)), (''event_hash'', JStr h)] = head_row (ep, n, h)"
  by (simp add: make_row_def event_heads_schema head_row_def dict_get_def tcol_null_def tcol_def icol_def)

lemma assign_head_row:
  "assign (ledger_schema ''event_heads'') [(''seq'', JInt (int n)), (''event_hash'', JStr h)] (head_row (ep, m, g))
   = head_row (ep, n, h)"
  by (simp add: assign_def event_heads_schema head_row_def tcol_null_def tcol_def icol_def)

lemma map_update_row:
  "distinct (map fst hs) \<Longrightarrow> ep \<in> fst ` set hs \<Longrightarrow>
    map (\<lambda>x. if fst x = ep then (ep, v) else x) hs = AList.update ep v hs"
proof (induction hs)
  case (Cons x hs)
  have "ep \<notin> fst ` set hs \<Longrightarrow> map (\<lambda>x. if fst x = ep then (ep, v) else x) hs = hs"
    by (rule map_idI) auto
  with Cons show ?case by (cases x) auto
qed simp

lemma update_new: "k \<notin> fst ` set xs \<Longrightarrow> AList.update k v xs = xs @ [(k, v)]"
  by (induction xs) auto

lemma cell_head_row: "(cell (head_row x) ''episode_id'' = JStr ep) = (fst x = ep)"
  by (cases x) (simp add: head_row_def cell_def dict_get_def)

lemma advance_event_head_rows:
  assumes "advance_event_head e d = Inr d'" and "d ''event_heads'' = map head_row hs" and "distinct (map fst hs)"
  shows "d' ''event_heads'' = map head_row (AList.update (ev_episode_id e) (ev_seq e, ev_event_hash e) hs)"
proof (cases "ev_episode_id e \<in> fst ` set hs")
  case True
  let ?here = "\<lambda>r. cell r ''episode_id'' = JStr (ev_episode_id e)"
  let ?f = "assign (ledger_schema ''event_heads'') [(''seq'', JInt (int (ev_seq e))), (''event_hash'', JStr (ev_event_hash e))]"
  have "list_ex ?here (d ''event_heads'')"
    using True by (force simp: assms(2) list_ex_iff cell_head_row)
  with assms(1) have "d' ''event_heads'' = map (\<lambda>r. if ?here r then ?f r else r) (map head_row hs)"
    by (auto simp: advance_event_head_def Let_def sql_update_def update_rows_def assms(2) [symmetric] split: if_splits)
  also have "\<dots> = map head_row (map (\<lambda>x. if fst x = ev_episode_id e then (ev_episode_id e, ev_seq e, ev_event_hash e) else x) hs)"
    by (auto simp: cell_head_row assign_head_row)
  finally show ?thesis by (simp only: map_update_row [OF assms(3) True])
next
  case False
  then have "\<not> list_ex (\<lambda>r. cell r ''episode_id'' = JStr (ev_episode_id e)) (d ''event_heads'')"
    by (force simp: assms(2) list_ex_iff cell_head_row)
  with assms(1) have "d' ''event_heads'' = d ''event_heads'' @ [head_row (ev_episode_id e, ev_seq e, ev_event_hash e)]"
    by (auto simp: advance_event_head_def Let_def sql_insert_def insert_row_def make_head_row split: if_splits)
  with False show ?thesis by (simp add: assms(2) update_new)
qed

lemma apply_event_heads:
  assumes "apply_event X e d = Inr d'" and "plain_name (ev_episode_id e)" and "consistent ledger_schema d"
    and "d ''event_heads'' = map head_row hs" and "distinct (map fst hs)"
  shows "d' ''event_heads'' = map head_row (AList.update (ev_episode_id e) (ev_seq e, ev_event_hash e) hs)"
proof -
  obtain d1 where d1: "scoped d' (ev_episode_id e) d d1" and head: "advance_event_head e d1 = Inr d'"
    using apply_event_parts [OF assms(1,2) later_refl] .
  have "''event_heads'' \<notin> handler_tables" by (simp add: tables)
  then have "d1 ''event_heads'' = d ''event_heads''"
    using scoped_writes_frame [OF d1 [unfolded writes_def, rule_format, OF assms(3)]] by blast
  with assms(4,5) show ?thesis by (intro advance_event_head_rows [OF head]) simp_all
qed

section \<open>Appending keeps the invariant\<close>

lemma stored_head_holds:
  assumes "d ''event_heads'' = map head_row hs" and "distinct (map fst hs)"
  shows "stored_head d ep = head_hash hs ep"
proof -
  have "find (\<lambda>r. cell r ''episode_id'' = JStr ep) (map head_row hs) = map_option (\<lambda>v. head_row (ep, v)) (map_of hs ep)"
    by (induction hs) (auto simp: cell_head_row)
  with assms show ?thesis
    by (auto simp: stored_head_def sql_first_def head_hash_def head_row_def cell_def dict_get_def split: option.splits)
qed

lemma insert_event_iff:
  "insert_event e l = Inr l' \<longleftrightarrow>
     (\<forall>r\<in>set (lg_events l). se_seq r \<noteq> ev_seq e \<and> se_id r \<noteq> ev_id e \<and> se_event_hash r \<noteq> ev_event_hash e)
     \<and> (\<forall>a\<in>set (lg_auth l). au_event_id a \<noteq> ev_id e)
     \<and> l' = l\<lparr>lg_events := lg_events l @ [stored_of e], lg_auth := lg_auth l @ [auth_of e]\<rparr>"
  by (auto simp: insert_event_def list_ex_iff auth_of_def)

text \<open>One event more: it is sound, numbered above the others, and continues its episode's chain.\<close>

lemma holds_extend:
  assumes h: "ledger_holds E es hs l" and sound: "sound_event E e"
    and next_seq: "\<forall>x\<in>set es. ev_seq x < ev_seq e" and prev: "ev_previous_hash e = head_hash hs (ev_episode_id e)"
    and hash: "event_hash_of (le_sha E) (head_hash hs (ev_episode_id e)) e = ev_event_hash e"
    and ins: "insert_event e l = Inr l1" and app: "apply_event (le_storage E) e (lg_db l1) = Inr d"
  shows "ledger_holds E (es @ [e]) (AList.update (ev_episode_id e) (ev_seq e, ev_event_hash e) hs) (l1\<lparr>lg_db := d\<rparr>)"
proof -
  note H = ledger_holdsD [OF h]
  from ins have l1: "l1 = l\<lparr>lg_events := lg_events l @ [stored_of e], lg_auth := lg_auth l @ [auth_of e]\<rparr>"
    and new: "ev_id e \<notin> ev_id ` set es"
    by (auto simp: insert_event_iff H(1) stored_of_def)
  have plain: "plain_name (ev_episode_id e)" and tag: "event_auth E e = Inr (ev_auth_tag e)"
    using sound by (simp_all add: sound_event_def)
  have "distinct (map fst hs)" using chained_distinct [OF H(6)] by simp
  then have heads: "d ''event_heads'' = map head_row (AList.update (ev_episode_id e) (ev_seq e, ev_event_hash e) hs)"
    using apply_event_heads [OF app plain, of hs] holds_consistent [OF h] H(7) by (simp add: l1)
  have "check_link E e hs = Inr (AList.update (ev_episode_id e) (ev_seq e, ev_event_hash e) hs)"
    using prev hash tag by (simp add: check_link_def Let_def)
  then have chain: "fold_result (check_link E) (es @ [e]) [] = Inr (AList.update (ev_episode_id e) (ev_seq e, ev_event_hash e) hs)"
    by (simp add: fold_result_append H(6))
  have "fold_result (apply_event (le_storage E)) (es @ [e]) (\<lambda>t. []) = Inr d"
    using app H(8) by (simp add: fold_result_append l1)
  with heads chain new next_seq sound H show ?thesis
    by (auto simp: ledger_holds_def l1 sorted_wrt_append)
qed

definition draft_ok :: "event_draft \<Rightarrow> bool" where
  "draft_ok d \<longleftrightarrow>
     readable (ed_payload d) \<and> replayable (ed_kind d) (case ed_payload d of JObj kvs \<Rightarrow> kvs | _ \<Rightarrow> [])
     \<and> ed_causal_event_id d \<noteq> Some []"

text \<open>What the events of one batch share.\<close>

definition of_batch :: "string \<Rightarrow> (string \<times> string) list \<Rightarrow> event \<Rightarrow> bool" where
  "of_batch ep c e \<longleftrightarrow> ev_episode_id e = ep \<and> ev_correlation e = correlation_json c"

definition extends ::
  "ledger_env \<Rightarrow> string \<Rightarrow> (string \<times> string) list \<Rightarrow> event list \<Rightarrow> ledger \<Rightarrow> event list \<times> string \<times> ledger \<Rightarrow> bool" where
  "extends E ep c es l = (\<lambda>(new, previous, l').
     \<exists>hs. ledger_holds E (es @ new) hs l' \<and> previous = head_hash hs ep \<and> (\<forall>e\<in>set new. of_batch ep c e)
       \<and> lg_idempotency l' = lg_idempotency l \<and> lg_reservations l' = lg_reservations l)"

lemma build_event_causal: "ev_causal_event_id (build_event sha n ep d p c t i) = ed_causal_event_id d"
  by (simp add: build_event_def Let_def)

lemma append_one_extends:
  assumes "extends E ep c es l (new, previous, l1)"
    and "append_one E ep c first stamps (offset, draft) (new, previous, l1) = Inr (new', previous', l2)"
    and "draft_ok draft" and "plain_name ep" and "readable (correlation_json c)"
    and "\<forall>e\<in>set (es @ new). ev_seq e < first + offset"
  shows "extends E ep c es l (new', previous', l2) \<and> (\<exists>e. new' = new @ [e] \<and> ev_seq e = first + offset)"
proof -
  obtain hs where h: "ledger_holds E (es @ new) hs l1" and p: "previous = head_hash hs ep"
    and batch: "\<forall>e\<in>set new. of_batch ep c e"
    and same: "lg_idempotency l1 = lg_idempotency l" "lg_reservations l1 = lg_reservations l"
    using assms(1) by (auto simp: extends_def)
  define b where "b = build_event (le_sha E) (first + offset) ep draft previous c (snd (stamps offset)) (fst (stamps offset))"
  obtain tag l' d where tag: "event_auth E b = Inr tag" and ins: "insert_event (b\<lparr>ev_auth_tag := tag\<rparr>) l1 = Inr l'"
    and app: "apply_event (le_storage E) (b\<lparr>ev_auth_tag := tag\<rparr>) (lg_db l') = Inr d"
    and res: "new' = new @ [b\<lparr>ev_auth_tag := tag\<rparr>]" "previous' = ev_event_hash b" "l2 = l'\<lparr>lg_db := d\<rparr>"
    using assms(2) by (auto simp: append_one_def b_def [symmetric] Let_def splits_result)
  define e where "e = b\<lparr>ev_auth_tag := tag\<rparr>"
  have e: "ev_episode_id e = ep" "ev_seq e = first + offset" "ev_previous_hash e = previous"
    "ev_correlation e = correlation_json c" "ev_event_hash e = ev_event_hash b" "ev_auth_tag e = tag"
    "ev_payload e = ed_payload draft" "ev_kind e = ed_kind draft" "ev_causal_event_id e = ed_causal_event_id draft"
    by (simp_all add: e_def b_def build_event_causal)
  have "event_auth E e = Inr tag" using tag by (simp add: e_def event_auth_def)
  with assms(3-5) have sound: "sound_event E e"
    by (auto simp: sound_event_def writable_def draft_ok_def payload_def e)
  have hash: "event_hash_of (le_sha E) previous e = ev_event_hash e"
    by (simp add: e_def b_def build_event_hash [symmetric])
  let ?hs = "AList.update (ev_episode_id e) (ev_seq e, ev_event_hash e) hs"
  have "ledger_holds E ((es @ new) @ [e]) ?hs (l'\<lparr>lg_db := d\<rparr>)"
    using assms(6) hash ins app unfolding e_def [symmetric]
    by (intro holds_extend [OF h sound]) (simp_all add: e p)
  moreover have "previous' = head_hash ?hs ep"
    by (simp add: res e head_hash_def)
  moreover have "lg_idempotency l' = lg_idempotency l" "lg_reservations l' = lg_reservations l"
    using ins same by (simp_all add: insert_event_iff)
  ultimately show ?thesis
    using batch e(1,2,4) unfolding extends_def prod.case res e_def [symmetric]
    by (intro conjI exI [of _ ?hs] exI [of _ e]) (simp_all add: of_batch_def)
qed

lemma append_fold_extends:
  assumes "fold_result (append_one E ep c first stamps) (enumerate n drafts) (new, previous, l1) = Inr (new', previous', l2)"
    and "extends E ep c es l (new, previous, l1)" and "\<forall>d\<in>set drafts. draft_ok d" and "plain_name ep"
    and "readable (correlation_json c)" and "\<forall>e\<in>set (es @ new). ev_seq e < first + n"
  shows "extends E ep c es l (new', previous', l2) \<and> length new' = length new + length drafts"
  using assms
proof (induction drafts arbitrary: n new previous l1)
  case (Cons d drafts)
  obtain s where s: "append_one E ep c first stamps (n, d) (new, previous, l1) = Inr s"
    and rest: "fold_result (append_one E ep c first stamps) (enumerate (Suc n) drafts) s = Inr (new', previous', l2)"
    using Cons.prems(1) by (auto simp: splits_result)
  obtain new1 prev1 l1' where s': "s = (new1, prev1, l1')" by (cases s) auto
  have step: "extends E ep c es l (new1, prev1, l1')" "\<exists>e. new1 = new @ [e] \<and> ev_seq e = first + n"
    using append_one_extends [OF Cons.prems(2) s [unfolded s']] Cons.prems(3-6) by auto
  have "\<forall>e\<in>set (es @ new1). ev_seq e < first + Suc n"
    using step(2) Cons.prems(6) by (fastforce intro: less_SucI)
  from Cons.IH [OF rest [unfolded s'] step(1) _ Cons.prems(4,5) this] Cons.prems(3) step(2)
  show ?case by auto
qed simp

lemma fold_max_start: "(a::nat) \<le> fold max xs a"
proof (induction xs arbitrary: a)
  case (Cons x xs)
  have "a \<le> max x a" by simp
  with Cons [of "max x a"] show ?case by simp
qed simp

lemma fold_max_ge: "x \<in> set xs \<Longrightarrow> x \<le> fold max xs (a::nat)"
proof (induction xs arbitrary: a)
  case (Cons y xs)
  have "y \<le> fold max xs (max y a)" by (rule order_trans [OF max.cobounded1 fold_max_start])
  with Cons show ?case by auto
qed simp

lemma append_drafts_extends:
  assumes "append_drafts E ep drafts c stamps l = Inr (new, l')" and h: "ledger_holds E es hs l"
    and "\<forall>d\<in>set drafts. draft_ok d" and "plain_name ep" and "readable (correlation_json c)"
  shows "\<exists>hs'. ledger_holds E (es @ new) hs' l' \<and> (\<forall>e\<in>set new. of_batch ep c e)
     \<and> length new = length drafts \<and> lg_idempotency l' = lg_idempotency l \<and> lg_reservations l' = lg_reservations l"
proof -
  obtain p where f: "fold_result (append_one E ep c (next_seq l) stamps) (enumerate 0 drafts)
      ([], stored_head (lg_db l) ep, l) = Inr (new, p, l')"
    using assms(1) by (auto simp: append_drafts_def splits_result)
  have "distinct (map fst hs)" using chained_distinct [OF ledger_holdsD(6) [OF h]] by simp
  then have start: "extends E ep c es l ([], stored_head (lg_db l) ep, l)"
    using h stored_head_holds [of "lg_db l" hs] ledger_holdsD(7) [OF h] by (auto simp: extends_def)
  have "\<forall>e\<in>set es. ev_seq e \<le> fold max (map se_seq (lg_events l)) 0"
    unfolding ledger_holdsD(1) [OF h] by (intro ballI fold_max_ge) (force simp: stored_of_def)
  then have "\<forall>e\<in>set (es @ []). ev_seq e < next_seq l + 0" by (auto simp: next_seq_def less_Suc_eq_le)
  from append_fold_extends [OF f start assms(3-5) this] show ?thesis by (auto simp: extends_def)
qed

end
