(* ===== verification/Ledger_Index.thy ===== *)
theory Ledger_Index
  imports Ledger_Chain "HOL-Library.Multiset"
begin

text \<open>
  The idempotency index: for every key an event was appended under, the events of that key in the
  order of the log. \<open>append_events\<close> keeps the table equal to what \<open>_idempotency_batches\<close> computes from
  the log, so a replay restores it, and a repeated request finds its events.
\<close>

section \<open>Batches\<close>

lemma map_of_map_snd: "map_of (map (map_prod id f) xs) k = map_option f (map_of xs k)"
  by (induction xs) auto

lemma update_map_snd: "AList.update k (f v) (map (map_prod id f) xs) = map (map_prod id f) (AList.update k v xs)"
  by (induction xs) auto

definition of_key :: "string \<times> string \<Rightarrow> event list \<Rightarrow> event list" where
  "of_key k es = filter (\<lambda>e. batch_key e = Inr (Some k)) es"

lemma of_key_append: "of_key k (es @ fs) = of_key k es @ of_key k fs"
  by (simp add: of_key_def)

lemma note_batch_some: "batch_key e = Inr (Some k) \<Longrightarrow> note_batch e bs = Inr (AList.update k (dict_get bs k [] @ [e]) bs)"
  by (simp add: note_batch_def)

lemma note_batch_none: "batch_key e = Inr None \<Longrightarrow> note_batch e bs = Inr bs"
  by (simp add: note_batch_def)

text \<open>The index holds, under every key, the events of that key.\<close>

lemma idempotency_batches_of_key:
  "idempotency_batches es = Inr bs \<Longrightarrow>
     distinct (map fst bs) \<and> (\<forall>k. map_of bs k = (if of_key k es = [] then None else Some (of_key k es)))"
proof (induction es arbitrary: bs rule: rev_induct)
  case Nil
  then show ?case by (simp add: idempotency_batches_def of_key_def)
next
  case (snoc e es)
  obtain bs0 where bs0: "idempotency_batches es = Inr bs0" and step: "note_batch e bs0 = Inr bs"
    using snoc.prems by (auto simp: idempotency_batches_def fold_result_append splits_result)
  note IH = snoc.IH [OF bs0]
  obtain key where key: "batch_key e = Inr key" using step by (auto simp: note_batch_def splits_result)
  show ?case
  proof (cases key)
    case None
    with step key have "bs = bs0" by (simp add: note_batch_none)
    with IH None key show ?thesis by (simp add: of_key_append) (simp add: of_key_def)
  next
    case (Some k)
    with step key have bs: "bs = AList.update k (dict_get bs0 k [] @ [e]) bs0" by (simp add: note_batch_some)
    have "dict_get bs0 k [] = of_key k es" using IH by (cases k) (simp add: dict_get_def)
    with IH Some key show ?thesis
      by (auto simp: bs of_key_append update_conv' distinct_update) (auto simp: of_key_def)
  qed
qed

lemma note_more:
  "\<forall>e\<in>set new. batch_key e = Inr (Some k) \<Longrightarrow> k \<notin> fst ` set bs \<Longrightarrow>
     fold_result note_batch new (bs @ [(k, b)]) = Inr (bs @ [(k, b @ new)])"
proof (induction new arbitrary: b)
  case (Cons e new)
  have "map_of bs k = None" using Cons.prems(2) by (simp add: map_of_eq_None_iff)
  then have "dict_get (bs @ [(k, b)]) k [] = b" by (simp add: dict_get_def map_add_def)
  moreover have "AList.update k c (bs @ [(k, b)]) = bs @ [(k, c)]" for c
    using Cons.prems(2) by (induction bs) auto
  ultimately show ?case using Cons by (simp add: note_batch_some)
qed simp

lemma note_new_batch:
  assumes "\<forall>e\<in>set new. batch_key e = Inr (Some k)" and "k \<notin> fst ` set bs" and "new \<noteq> []"
  shows "fold_result note_batch new bs = Inr (bs @ [(k, new)])"
proof (cases new)
  case (Cons e rest)
  have "map_of bs k = None" using assms(2) by (simp add: map_of_eq_None_iff)
  with assms Cons note_more [of rest k bs "[e]"] show ?thesis
    by (simp add: note_batch_some dict_get_def update_new)
qed (use assms in simp)

lemma note_unkeyed: "\<forall>e\<in>set new. batch_key e = Inr None \<Longrightarrow> fold_result note_batch new bs = Inr bs"
  by (induction new) (simp_all add: note_batch_none)

text \<open>Reading an event back changes neither its key nor what the index keeps of it.\<close>

abbreviation back_batches :: "(event \<Rightarrow> event) \<Rightarrow> batches \<Rightarrow> batches" where
  "back_batches f \<equiv> map (map_prod id (map f))"

lemma note_batch_back:
  assumes "batch_key (f e) = batch_key e"
  shows "note_batch (f e) (back_batches f bs) = and_then (note_batch e bs) (\<lambda>bs. Inr (back_batches f bs))"
proof (cases "batch_key e")
  case (Inr k)
  have "dict_get (back_batches f bs) k [] = map f (dict_get bs k [])" for k
    by (simp add: dict_get_def map_of_map_snd split: option.splits)
  then have "AList.update k (dict_get (back_batches f bs) k [] @ [f e]) (back_batches f bs) =
      back_batches f (AList.update k (dict_get bs k [] @ [e]) bs)" for k
    by (simp flip: update_map_snd)
  with Inr assms show ?thesis by (simp add: note_batch_def split: option.splits)
qed (simp add: note_batch_def assms)

section \<open>Correlations\<close>

definition text_correlation :: "event \<Rightarrow> bool" where
  "text_correlation e \<longleftrightarrow> (\<exists>c. ev_correlation e = correlation_json c)"

lemma correlation_get_json:
  "ev_correlation e = correlation_json c \<Longrightarrow>
     correlation_get e k = Inr (case map_of c k of None \<Rightarrow> JNull | Some v \<Rightarrow> JStr v)"
  by (simp add: correlation_get_def correlation_json_def dict_get_def map_of_map_snd split: option.splits)

lemma correlation_get_resorted:
  assumes "text_correlation e"
  shows "correlation_get (resorted e) k = correlation_get e k" "correlation_get (untagged e) k = correlation_get e k"
proof -
  obtain c where c: "ev_correlation e = correlation_json c" using assms by (auto simp: text_correlation_def)
  have "map_option sort_keys (map_of (map (map_prod id JStr) c) k) = map_of (map (map_prod id JStr) c) k"
    by (simp add: map_of_map_snd option.map_comp comp_def)
  then show "correlation_get (resorted e) k = correlation_get e k"
    by (simp add: correlation_get_def c correlation_json_def sort_keys_Obj dict_get_def map_of_sorted_fields
        del: sort_keys.simps)
qed (simp add: correlation_get_def untagged_def)

lemma batch_key_back:
  assumes "text_correlation e"
  shows "batch_key (untagged (resorted e)) = batch_key e" "batch_key (resorted e) = batch_key e"
proof -
  have "correlation_get (untagged (resorted e)) k = correlation_get (resorted e) k" for k
    by (simp add: correlation_get_def untagged_def)
  then show "batch_key (untagged (resorted e)) = batch_key e" "batch_key (resorted e) = batch_key e"
    by (simp_all add: batch_key_def correlation_get_resorted [OF assms] cong: if_cong)
qed

lemma batch_key_json:
  assumes "ev_correlation e = correlation_json c"
  shows "batch_key e = Inr (case map_of c ''idempotency_key'' of None \<Rightarrow> None
     | Some k \<Rightarrow> if k = [] then None else Some (ev_episode_id e, k))"
  by (simp add: batch_key_def correlation_get_json [OF assms] split: option.splits)

lemma map_of_filter_keys:
  "distinct (map fst c) \<Longrightarrow>
     map_of (filter (\<lambda>(k, v). v \<noteq> []) c) k = (case map_of c k of Some (x # xs) \<Rightarrow> Some (x # xs) | _ \<Rightarrow> None)"
  by (induction c) (auto simp: map_of_eq_None_iff split: option.splits list.splits)

text \<open>The key of the events is the key of the request: it overwrites the one of the correlation.\<close>

lemma clean_correlation_key:
  assumes "distinct (map fst c)"
  shows "map_of (clean_correlation c key) ''idempotency_key'' =
    (if key \<noteq> [] then Some key else if dict_get c ''idempotency_key'' [] \<noteq> [] then map_of c ''idempotency_key'' else None)"
  using assms by (auto simp: clean_correlation_def update_conv' map_of_filter_keys dict_get_def Let_def split: option.splits list.splits)

lemma clean_correlation_readable:
  assumes "distinct (map fst c)"
  shows "readable (correlation_json (clean_correlation c key))"
proof -
  have "distinct (map fst (filter P c))" for P using assms by (rule distinct_map_filter)
  then have "distinct (map fst (clean_correlation c key))" by (simp add: clean_correlation_def Let_def distinct_update)
  then show ?thesis by (auto simp: correlation_json_def list_all_iff)
qed

section \<open>The invariant with the index\<close>

definition ledger_ok :: "ledger_env \<Rightarrow> event list \<Rightarrow> heads \<Rightarrow> batches \<Rightarrow> ledger \<Rightarrow> bool" where
  "ledger_ok E es hs bs l \<longleftrightarrow>
     ledger_holds E es hs l \<and> (\<forall>e\<in>set es. text_correlation e)
     \<and> idempotency_batches es = Inr bs \<and> mset (lg_idempotency l) = mset (map idempotency_row_of bs)
     \<and> distinct (map ir_key (lg_idempotency l))"

lemma ledger_okD:
  assumes "ledger_ok E es hs bs l"
  shows "ledger_holds E es hs l" "\<And>e. e \<in> set es \<Longrightarrow> text_correlation e"
    "idempotency_batches es = Inr bs" "mset (lg_idempotency l) = mset (map idempotency_row_of bs)"
    "distinct (map ir_key (lg_idempotency l))"
  using assms by (auto simp: ledger_ok_def)

lemma ledger_ok_empty: "ledger_ok E [] [] [] empty_ledger"
  by (simp add: ledger_ok_def ledger_holds_empty idempotency_batches_def) (simp add: empty_ledger_def)

text \<open>
  A request with a key may carry any correlation, also one that holds the key itself, as those of the
  public API do. A request without a key does not smuggle one in through its correlation.
\<close>

definition request_ok :: "string \<Rightarrow> event_draft list \<Rightarrow> (string \<times> string) list \<Rightarrow> string \<Rightarrow> bool" where
  "request_ok ep drafts c key \<longleftrightarrow>
     plain_name ep \<and> distinct (map fst c) \<and> (key = [] \<longrightarrow> dict_get c ''idempotency_key'' [] = [])
     \<and> (\<forall>d\<in>set drafts. draft_ok d)"

lemma drafts_batch_key:
  assumes "of_batch ep (clean_correlation c key) e" and "distinct (map fst c)"
    and "key = [] \<longrightarrow> dict_get c ''idempotency_key'' [] = []"
  shows "batch_key e = Inr (if key = [] then None else Some (ep, key))" and "text_correlation e"
  using assms batch_key_json [of e "clean_correlation c key"]
  by (auto simp: of_batch_def clean_correlation_key text_correlation_def)

text \<open>
  What the condition on unkeyed requests excludes: the events carry a key that is not in the table, but
  would be in the index computed from the log.
\<close>

lemma stray_key_batched:
  assumes "of_batch ep (clean_correlation c []) e" and "distinct (map fst c)"
    and "map_of c ''idempotency_key'' = Some k" and "k \<noteq> []"
  shows "batch_key e = Inr (Some (ep, k))"
  using assms batch_key_json [of e "clean_correlation c []"]
  by (simp add: of_batch_def clean_correlation_key dict_get_def)

text \<open>What a successful append does: nothing, or one batch at the end of the log.\<close>

lemma append_events_cases:
  assumes "append_events E ep drafts c key task st l = Inr (es, l')"
  obtains (skipped) "l' = l" "es = []" "drafts = [] \<or> task \<noteq> []"
    | (repeated) row where "l' = l" "key \<noteq> []" "idempotency_of l ep key = Some row"
        "earlier_events E (clean_correlation c key) row l = Inr es"
    | (unkeyed) "key = []" "append_drafts E ep drafts (clean_correlation c key) st l = Inr (es, l')"
    | (keyed) l1 where "key \<noteq> []" "idempotency_of l ep key = None" "drafts \<noteq> []"
        "append_drafts E ep drafts (clean_correlation c key) st l = Inr (es, l1)" "remember ep key es l1 = Inr l'"
  using assms unfolding append_events_def Let_def
  by (auto split: if_splits option.splits simp: splits_result)

lemma append_events_ok:
  assumes "append_events E ep drafts c key task st l = Inr (res, l')" and ok: "ledger_ok E es hs bs l"
    and req: "request_ok ep drafts c key"
  obtains new hs' bs' where "ledger_ok E (es @ new) hs' (bs @ bs') l'" and "lg_reservations l' = lg_reservations l"
    and "l' = l \<and> new = [] \<and> bs' = [] \<or> new = res \<and> length res = length drafts
           \<and> (\<forall>e\<in>set res. of_batch ep (clean_correlation c key) e) \<and> bs' = (if key = [] then [] else [((ep, key), res)])"
proof -
  note K = ledger_okD [OF ok]
  from req have plain: "plain_name ep" and c: "distinct (map fst c)" "key = [] \<longrightarrow> dict_get c ''idempotency_key'' [] = []"
    and drafts: "\<forall>d\<in>set drafts. draft_ok d" by (auto simp: request_ok_def)
  note drafted = append_drafts_extends [OF _ K(1) drafts plain clean_correlation_readable [OF c(1)]]
  from assms(1) show thesis
  proof (cases rule: append_events_cases)
    case skipped
    with ok that [of "[]" hs "[]"] show thesis by simp
  next
    case (repeated row)
    with ok that [of "[]" hs "[]"] show thesis by simp
  next
    case unkeyed
    then obtain hs' where h: "ledger_holds E (es @ res) hs' l'" "\<forall>e\<in>set res. of_batch ep (clean_correlation c key) e"
      "length res = length drafts" "lg_idempotency l' = lg_idempotency l" "lg_reservations l' = lg_reservations l"
      using drafted by blast
    with unkeyed(1) drafts_batch_key [OF _ c]
    have "\<forall>e\<in>set res. batch_key e = Inr None" "\<forall>e\<in>set res. text_correlation e" by auto
    with unkeyed(1) h K show thesis
      by (intro that [of res hs' "[]"]) (auto simp: ledger_ok_def idempotency_batches_def fold_result_append note_unkeyed)
  next
    case (keyed l1)
    then obtain hs' where h: "ledger_holds E (es @ res) hs' l1" "\<forall>e\<in>set res. of_batch ep (clean_correlation c key) e"
      "length res = length drafts" "lg_idempotency l1 = lg_idempotency l" "lg_reservations l1 = lg_reservations l"
      using drafted by blast
    let ?row = "idempotency_row_of ((ep, key), res)"
    have l': "l' = l1\<lparr>lg_idempotency := lg_idempotency l1 @ [?row]\<rparr>" and unused: "storage_key ep key \<notin> ir_key ` set (lg_idempotency l)"
      using keyed(5) h(4) by (auto simp: remember_def idempotency_row_of_def list_ex_iff split: if_splits)
    have "set (lg_idempotency l) = idempotency_row_of ` set bs" using mset_eq_setD [OF K(4)] by simp
    then have "(ep, key) \<notin> fst ` set bs"
      using unused by (force simp: idempotency_row_of_def)
    moreover have "\<forall>e\<in>set res. batch_key e = Inr (Some (ep, key))" "\<forall>e\<in>set res. text_correlation e"
      using keyed(1) h(2) drafts_batch_key [OF _ c] by auto
    moreover have "res \<noteq> []" using keyed(3) h(3) by auto
    ultimately have "idempotency_batches (es @ res) = Inr (bs @ [((ep, key), res)])"
      using K(3) by (simp add: idempotency_batches_def fold_result_append note_new_batch)
    moreover have "ledger_holds E (es @ res) hs' l'" using h(1) by (simp add: l' ledger_holds_def)
    moreover have "ir_key ?row = storage_key ep key" by (simp add: idempotency_row_of_def)
    ultimately show thesis
      using keyed(1) h K unused \<open>\<forall>e\<in>set res. text_correlation e\<close>
      by (intro that [of res hs' "[((ep, key), res)]"]) (auto simp: ledger_ok_def l')
  qed
qed

lemma ledger_ok_reserved: "ledger_ok E es hs bs l \<Longrightarrow> ledger_ok E es hs bs (l\<lparr>lg_reservations := rs\<rparr>)"
  by (auto simp: ledger_ok_def ledger_holds_def)

text \<open>The row of a batch is found under its key.\<close>

lemma find_unique:
  "x \<in> set xs \<Longrightarrow> P x \<Longrightarrow> (\<And>y. y \<in> set xs \<Longrightarrow> P y \<Longrightarrow> y = x) \<Longrightarrow> find P xs = Some x"
proof (induction xs)
  case (Cons a xs)
  show ?case
  proof (cases "P a")
    case True
    with Cons.prems(3) [of a] show ?thesis by simp
  next
    case False
    with Cons.prems(1,2) have "x \<in> set xs" by auto
    then have "find P xs = Some x"
      by (rule Cons.IH [OF _ Cons.prems(2)]) (rule Cons.prems(3), simp_all)
    with False show ?thesis by simp
  qed
qed simp

lemma idempotency_of_batch:
  assumes "ledger_ok E es hs bs l" and "((ep, key), b) \<in> set bs"
  shows "idempotency_of l ep key = Some (idempotency_row_of ((ep, key), b))"
proof -
  note K = ledger_okD [OF assms(1)]
  have "idempotency_row_of ((ep, key), b) \<in> set (lg_idempotency l)"
    using mset_eq_setD [OF K(4)] assms(2) by simp
  moreover have "inj_on ir_key (set (lg_idempotency l))" using K(5) by (simp add: distinct_map)
  ultimately show ?thesis unfolding idempotency_of_def
    by (intro find_unique) (auto simp: idempotency_row_of_def elim: inj_onD)
qed

text \<open>A row of the table belongs to the batch of its key.\<close>

lemma idempotency_of_Some:
  assumes "ledger_ok E es hs bs l" and "idempotency_of l ep key = Some row"
  obtains b where "((ep, key), b) \<in> set bs" and "row = idempotency_row_of ((ep, key), b)"
proof -
  from assms(2) have "row \<in> set (lg_idempotency l)" and row: "ir_episode row = ep" "ir_key row = storage_key ep key"
    by (auto simp: idempotency_of_def find_Some_iff)
  then obtain x where x: "x \<in> set bs" "row = idempotency_row_of x"
    using mset_eq_setD [OF ledger_okD(4) [OF assms(1)]] by auto
  obtain ep' key' b where b: "x = ((ep', key'), b)" by (metis surj_pair)
  with x(2) row have "ep' = ep" "key' = key" by (auto simp: idempotency_row_of_def storage_key_def)
  with x b that show thesis by blast
qed

end
