(* ===== verification/Ledger_Rebuild.thy ===== *)
theory Ledger_Rebuild
  imports Ledger_Index
begin

text \<open>
  Rebuilding a ledger from its log: a replay gives the same projections and the same idempotency
  rows, purging an episode gives a ledger of the other episodes that satisfies the invariant again.
\<close>

section \<open>The projection hash is a function of the sets of rows\<close>

lemma insort_key_map: "insort_key f (g x) (map g xs) = map g (insort_key (f \<circ> g) x xs)"
  by (induction xs) (auto simp: comp_def)

lemma sort_key_map: "sort_key f (map g xs) = map g (sort_key (f \<circ> g) xs)"
  by (induction xs) (simp_all add: insort_key_map comp_def)

lemma map_sort_key: "map f (sort_key f xs) = sort (map f xs)"
  by (rule properties_for_sort [symmetric]) simp_all

lemma canonical_rows:
  assumes "mset rs = mset rs'"
  shows "map print_json (map sort_keys (map row_json (sort_key (canonical_json \<circ> row_json) rs))) =
    map print_json (map sort_keys (map row_json (sort_key (canonical_json \<circ> row_json) rs')))"
proof -
  have "map print_json (map sort_keys (map row_json xs)) = map (canonical_json \<circ> row_json) xs" for xs
    by (simp add: canonical_json_def)
  moreover have "sort (map f rs) = sort (map f rs')" for f :: "row \<Rightarrow> string"
    using assms by (intro properties_for_sort) simp_all
  ultimately show ?thesis by (simp add: map_sort_key del: map_map)
qed

lemma projection_hash_rows:
  assumes "\<And>t. mset (d t) = mset (d' t)"
  shows "projection_hash sha d = projection_hash sha d'"
proof -
  let ?rows = "\<lambda>d t. sort_keys (JArr (map row_json (sort_key (canonical_json \<circ> row_json) (d t))))"
  have member: "print_member (t, ?rows d t) = print_member (t, ?rows d' t)" for t
    using canonical_rows [OF assms [of t]] by (simp add: print_member_def del: map_map)
  have "sort_keys (projection_state x) = JObj (map (\<lambda>t. (t, ?rows x t)) (sort PROJECTION_MANIFEST_V1))" for x
    by (simp add: projection_state_def sort_keys_Obj sorted_fields_def comp_def sort_key_map [of fst "\<lambda>t. (t, ?rows x t)", simplified comp_def]
        del: sort_keys.simps)
  then have "canonical_json (projection_state d) = canonical_json (projection_state d')"
    using member by (simp add: canonical_json_def print_json_Obj comp_def del: print_json.simps sort_keys.simps)
  then show ?thesis by (simp add: projection_hash_def)
qed

section \<open>Replay\<close>

abbreviation as_read :: "event \<Rightarrow> event" where
  "as_read e \<equiv> untagged (resorted e)"

lemma replay_rows:
  assumes "\<And>e. e \<in> set es \<Longrightarrow> sound_event E e" and "\<And>e. e \<in> set es \<Longrightarrow> text_correlation e"
    and "fold_result (apply_event (le_storage E)) es d = Inr d'" and "fold_result note_batch es bs = Inr bs'"
  shows "fold_result (replay_row E) (map stored_of es) (d, back_batches as_read bs) = Inr (d', back_batches as_read bs')"
  using assms
proof (induction es arbitrary: d bs)
  case (Cons e es)
  obtain d1 bs1 where app: "apply_event (le_storage E) e d = Inr d1" "fold_result (apply_event (le_storage E)) es d1 = Inr d'"
    and noted: "note_batch e bs = Inr bs1" "fold_result note_batch es bs1 = Inr bs'"
    using Cons.prems(3,4) by (auto simp: splits_result)
  have sound: "sound_event E e" and tc: "text_correlation e" using Cons.prems(1,2) by auto
  have "apply_event (le_storage E) (as_read e) d = Inr d1"
    using sound app(1) apply_event_restored [OF restored_resorted(2)] by (simp add: sound_event_def)
  then have "replay_row E (stored_of e) (d, back_batches as_read bs) = Inr (d1, back_batches as_read bs1)"
    using sound noted(1) note_batch_back [of as_read, OF batch_key_back(1) [OF tc]]
    by (simp add: replay_row_def event_from_stored sound_event_def)
  moreover have "fold_result (replay_row E) (map stored_of es) (d1, back_batches as_read bs1) = Inr (d', back_batches as_read bs')"
    using Cons.prems(1,2) by (intro Cons.IH [OF _ _ app(2) noted(2)]) auto
  ultimately show ?case by (simp only: list.map fold_result.simps and_then.simps)
qed simp

lemma restore_batches:
  "distinct (map (ir_key \<circ> idempotency_row_of) bs) \<Longrightarrow>
     \<forall>b\<in>set bs. ir_key (idempotency_row_of b) \<notin> ir_key ` set rows \<Longrightarrow>
     fold_result restore_batch bs rows = Inr (rows @ map idempotency_row_of bs)"
proof (induction bs arbitrary: rows)
  case (Cons b bs)
  have "restore_batch b rows = Inr (rows @ [idempotency_row_of b])"
    using Cons.prems(2) by (simp add: restore_batch_def list_ex_iff image_iff) metis
  moreover have "\<forall>b'\<in>set bs. ir_key (idempotency_row_of b') \<notin> ir_key ` set (rows @ [idempotency_row_of b])"
    using Cons.prems by (auto simp: image_iff)
  ultimately show ?case using Cons by simp
qed simp

lemma restore_idempotency_rows:
  assumes "distinct (map (ir_key \<circ> idempotency_row_of) bs)"
  shows "restore_idempotency bs = Inr (map idempotency_row_of (sort_key fst bs))"
proof -
  have "distinct (map (ir_key \<circ> idempotency_row_of) (sort_key fst bs))"
    using assms by (simp add: distinct_map)
  then show ?thesis by (simp add: restore_idempotency_def restore_batches)
qed

lemma row_of_back:
  assumes "\<And>e. ev_id (f e) = ev_id e" and "\<And>e. ev_timestamp (f e) = ev_timestamp e" and "snd b \<noteq> []"
  shows "idempotency_row_of (map_prod id (map f) b) = idempotency_row_of b"
  using assms by (cases b) (simp add: idempotency_row_of_def event_ids_json_def comp_def hd_map)

text \<open>The index rebuilt from events as they are read is the table, sorted by key.\<close>

lemma restored_index:
  assumes "idempotency_batches es = Inr bs" and "distinct (map ir_key (map idempotency_row_of bs))"
    and f: "\<And>e. ev_id (f e) = ev_id e" "\<And>e. ev_timestamp (f e) = ev_timestamp e"
  shows "restore_idempotency (back_batches f bs) = Inr (map idempotency_row_of (sort_key fst bs))"
proof -
  have "snd b \<noteq> []" if "b \<in> set bs" for b
  proof -
    from that idempotency_batches_of_key [OF assms(1)] have "map_of bs (fst b) = Some (snd b)"
      by (simp add: map_of_is_SomeI)
    moreover have "map_of bs (fst b) = (if of_key (fst b) es = [] then None else Some (of_key (fst b) es))"
      using idempotency_batches_of_key [OF assms(1)] by (cases "fst b") blast
    ultimately show ?thesis by (auto split: if_splits)
  qed
  then have rows: "\<forall>b\<in>set bs. idempotency_row_of (map_prod id (map f) b) = idempotency_row_of b"
    using row_of_back f by blast
  then have "map (ir_key \<circ> idempotency_row_of) (back_batches f bs) = map ir_key (map idempotency_row_of bs)"
    by simp
  then have "distinct (map (ir_key \<circ> idempotency_row_of) (back_batches f bs))" using assms(2) by (simp only:)
  then have r: "restore_idempotency (back_batches f bs) = Inr (map idempotency_row_of (sort_key fst (back_batches f bs)))"
    by (rule restore_idempotency_rows)
  have "fst \<circ> map_prod id (map f) = (fst :: (string \<times> string) \<times> event list \<Rightarrow> _)" by auto
  then have "sort_key fst (back_batches f bs) = back_batches f (sort_key fst bs)" by (simp only: sort_key_map)
  also have "map idempotency_row_of (back_batches f (sort_key fst bs)) = map idempotency_row_of (sort_key fst bs)"
    using rows by (simp only: map_map comp_def map_eq_conv set_sort)
  finally show ?thesis by (simp only: r)
qed

lemma as_read_simps: "ev_id (as_read e) = ev_id e" "ev_timestamp (as_read e) = ev_timestamp e"
  by (simp_all add: untagged_def)

lemma ledger_hash_rows:
  assumes "lg_db l' = lg_db l" and "mset (lg_idempotency l') = mset (lg_idempotency l)"
  shows "ledger_hash E l' = ledger_hash E l"
  unfolding ledger_hash_def ledger_projection_def assms(1)
  by (rule projection_hash_rows) (simp add: assms(2))

lemma replay_ok:
  assumes ok: "ledger_ok E es hs bs l"
  obtains rows where "mset rows = mset (lg_idempotency l)"
    and "ledger_ok E es hs bs (l\<lparr>lg_idempotency := rows, lg_reservations := []\<rparr>)"
    and "replay E l = Inr (\<lparr>rr_events = length (lg_events l), rr_before = ledger_hash E l, rr_after = ledger_hash E l\<rparr>,
           l\<lparr>lg_idempotency := rows, lg_reservations := []\<rparr>)"
proof -
  note K = ledger_okD [OF ok] and H = ledger_holdsD [OF ledger_okD(1) [OF ok]]
  have "fold_result (replay_row E) (map stored_of es) ((\<lambda>t. []), back_batches as_read [])
      = Inr (lg_db l, back_batches as_read bs)"
    using H(5,8) K(2,3) by (intro replay_rows) (simp_all add: idempotency_batches_def)
  then have read: "fold_result (replay_row E) (rows_in_order l) ((\<lambda>t. []), []) = Inr (lg_db l, back_batches as_read bs)"
    by (simp add: rows_in_order_holds [OF K(1)])
  define rows where "rows = map idempotency_row_of (sort_key fst bs)"
  have mrows: "mset rows = mset (lg_idempotency l)" by (simp add: rows_def K(4))
  have keys: "mset (map ir_key (lg_idempotency l)) = mset (map ir_key (map idempotency_row_of bs))"
    unfolding mset_map K(4) ..
  have "distinct (map ir_key (map idempotency_row_of bs))"
    using mset_eq_imp_distinct_iff [OF keys] K(5) by simp
  then have restored: "restore_idempotency (back_batches as_read bs) = Inr rows"
    unfolding rows_def by (rule restored_index [OF K(3) _ as_read_simps])
  let ?l = "l\<lparr>lg_idempotency := rows, lg_reservations := []\<rparr>"
  have "ledger_hash E ?l = ledger_hash E l" by (rule ledger_hash_rows) (simp_all add: mrows)
  then have "replay E l = Inr (\<lparr>rr_events = length (lg_events l), rr_before = ledger_hash E l, rr_after = ledger_hash E l\<rparr>, ?l)"
    by (simp add: replay_def verify_holds [OF K(1)] read restored Let_def)
  moreover have "mset (map ir_key rows) = mset (map ir_key (lg_idempotency l))" unfolding mset_map mrows ..
  then have "distinct (map ir_key rows)" using K(5) mset_eq_imp_distinct_iff by blast
  then have "ledger_ok E es hs bs ?l" using ok mrows by (auto simp: ledger_ok_def ledger_holds_def)
  ultimately show thesis using mrows by (intro that)
qed

section \<open>Events that are read are events\<close>

lemma scalar_sorted: "scalar v \<Longrightarrow> scalar (sort_keys v)"
  by simp

lemma sorted_fields_keys: "distinct (map fst (sorted_fields kvs)) = distinct (map fst kvs)"
proof -
  have "mset (map fst (sorted_fields kvs)) = mset (map fst kvs)"
    unfolding mset_map sorted_fields_def mset_sort by (induction kvs) simp_all
  then show ?thesis by (rule mset_eq_imp_distinct_iff)
qed

lemma ordinary_fields_sorted:
  assumes "ordinary_fields kvs"
  shows "ordinary_fields (sorted_fields kvs)"
proof -
  have "k \<in> set read_as_text \<longrightarrow> scalar v" if kv: "(k, v) \<in> set (sorted_fields kvs)" for k v
  proof -
    from kv obtain w where "(k, w) \<in> set kvs" "v = sort_keys w" unfolding sorted_fields_def by fastforce
    with assms scalar_sorted show ?thesis unfolding ordinary_fields_def list_all_iff by fast
  qed
  with assms show ?thesis
    unfolding ordinary_fields_def sorted_fields_keys list_all_iff by fast
qed

lemma list_field_sorted_all:
  assumes "list_field k P kvs" and "\<And>v. P v \<Longrightarrow> P (sort_keys v)"
  shows "list_field k P (sorted_fields kvs)"
proof -
  obtain xs where "dict_get (sorted_fields kvs) k (JArr []) = JArr (map sort_keys xs)" "list_all P xs"
    using list_field_sorted [OF assms(1)] .
  moreover have "list_all P (map sort_keys xs)" using \<open>list_all P xs\<close> assms(2) by (simp add: list_all_iff)
  ultimately show ?thesis by (simp add: list_field_def)
qed

lemma object_with_sorted:
  "object_with P v \<Longrightarrow> (\<And>kvs. P kvs \<Longrightarrow> P (sorted_fields kvs)) \<Longrightarrow> object_with P (sort_keys v)"
  by (cases v) (simp_all add: object_with_def sort_keys_Obj del: sort_keys.simps(7))

lemma ordinary_justification_sorted: "ordinary_justification r \<Longrightarrow> ordinary_justification (sorted_fields r)"
  by (simp add: ordinary_justification_def ordinary_fields_sorted list_field_sorted_all)

lemma ordinary_record_sorted: "ordinary_record r \<Longrightarrow> ordinary_record (sorted_fields r)"
  unfolding ordinary_record_def
  by (auto intro: ordinary_fields_sorted list_field_sorted_all object_with_sorted ordinary_justification_sorted)

lemma ordinary_sorted: "ordinary p \<Longrightarrow> ordinary (sorted_fields p)"
  unfolding ordinary_def record_field_sorted
  by (auto intro: ordinary_fields_sorted list_field_sorted_all object_with_sorted ordinary_record_sorted)

lemma replayable_sorted: "replayable k p \<Longrightarrow> replayable k (sorted_fields p)"
  by (simp add: replayable_def ordinary_sorted)

lemma sound_resorted: "sound_event E e \<Longrightarrow> sound_event E (resorted e)"
  by (simp add: sound_event_def writable_def readable_sort_keys replayable_sorted event_auth_def)
     (simp add: resorted_def)

lemma text_correlation_resorted: "text_correlation e \<Longrightarrow> text_correlation (resorted e)"
proof -
  assume "text_correlation e"
  then obtain c where c: "ev_correlation e = correlation_json c" by (auto simp: text_correlation_def)
  have "sort_keys (correlation_json c) = correlation_json (sort_key fst c)"
    by (auto simp: correlation_json_def sort_key_map comp_def)
  with c show ?thesis unfolding text_correlation_def by auto
qed

lemma stored_resorted [simp]: "stored_of (resorted e) = stored_of e"
  by (simp add: stored_of_def) (simp add: resorted_def)

section \<open>Purging an episode\<close>

lemma events_holds: "ledger_holds E es hs l \<Longrightarrow> events E None l = Inr (map resorted es)"
  using authenticated_stored [of E es hs l es] by (simp add: events_def rows_in_order_holds)

lemma copy_events_hold:
  assumes "ledger_holds E es hs l" and "fold_result (copy_event E) fs l = Inr l'"
    and "fold_result (check_link E) fs hs = Inr hs'" and "\<forall>e\<in>set fs. sound_event E e"
    and "sorted_wrt (<) (map ev_seq (es @ fs))"
  shows "ledger_holds E (es @ fs) hs' l' \<and> lg_idempotency l' = lg_idempotency l"
  using assms
proof (induction fs arbitrary: es hs l)
  case (Cons e fs)
  let ?hs = "AList.update (ev_episode_id e) (ev_seq e, ev_event_hash e) hs"
  obtain l2 where "copy_event E e l = Inr l2" and rest2: "fold_result (copy_event E) fs l2 = Inr l'"
    using Cons.prems(2) by (auto simp: splits_result)
  then obtain l1 d where ins: "insert_event e l = Inr l1" and app: "apply_event (le_storage E) e (lg_db l1) = Inr d"
    and l2: "l2 = l1\<lparr>lg_db := d\<rparr>"
    by (auto simp: copy_event_def splits_result)
  note rest = rest2 [unfolded l2]
  have link: "check_link E e hs = Inr ?hs" "fold_result (check_link E) fs ?hs = Inr hs'"
    using Cons.prems(3) by (auto simp: splits_result dest: check_link_keys)
  then have prev: "ev_previous_hash e = head_hash hs (ev_episode_id e)"
    "event_hash_of (le_sha E) (head_hash hs (ev_episode_id e)) e = ev_event_hash e"
    by (simp_all add: check_link_def Let_def split: if_splits)
  have "ledger_holds E (es @ [e]) ?hs (l1\<lparr>lg_db := d\<rparr>)"
    using Cons.prems(4,5) by (intro holds_extend [OF Cons.prems(1) _ _ prev ins app]) (auto simp: sorted_wrt_append)
  from Cons.IH [OF this rest link(2)] Cons.prems(4,5) ins show ?case by (simp add: insert_event_iff)
qed simp

lemma chain_filter:
  assumes "fold_result (check_link E) es hs = Inr hs'" and "\<forall>k. k \<noteq> ep \<longrightarrow> map_of gs k = map_of hs k"
  shows "\<exists>gs'. fold_result (check_link E) (filter (\<lambda>e. ev_episode_id e \<noteq> ep) es) gs = Inr gs'
     \<and> (\<forall>k. k \<noteq> ep \<longrightarrow> map_of gs' k = map_of hs' k)"
  using assms
proof (induction es arbitrary: hs gs)
  case (Cons e es)
  let ?u = "AList.update (ev_episode_id e) (ev_seq e, ev_event_hash e)"
  have link: "check_link E e hs = Inr (?u hs)" and rest: "fold_result (check_link E) es (?u hs) = Inr hs'"
    using Cons.prems(1) by (auto simp: splits_result dest: check_link_keys)
  show ?case
  proof (cases "ev_episode_id e = ep")
    case True
    with Cons.prems(2) have "\<forall>k. k \<noteq> ep \<longrightarrow> map_of gs k = map_of (?u hs) k" by (simp add: update_conv')
    from Cons.IH [OF rest this] True show ?thesis by simp
  next
    case False
    with Cons.prems(2) have "head_hash gs (ev_episode_id e) = head_hash hs (ev_episode_id e)"
      by (simp add: head_hash_def)
    with link have "check_link E e gs = Inr (?u gs)"
      by (auto simp: check_link_def Let_def splits_result split: if_splits)
    moreover have "\<forall>k. k \<noteq> ep \<longrightarrow> map_of (?u gs) k = map_of (?u hs) k"
      using Cons.prems(2) by (simp add: update_conv')
    ultimately show ?thesis using Cons.IH [OF rest] False by simp
  qed
qed auto

lemma restored_rows:
  "fold_result restore_batch bs rows = Inr rows' \<Longrightarrow> distinct (map ir_key rows) \<Longrightarrow>
     rows' = rows @ map idempotency_row_of bs \<and> distinct (map ir_key rows')"
proof (induction bs arbitrary: rows)
  case (Cons b bs)
  obtain rows1 where r1: "restore_batch b rows = Inr rows1" and rest: "fold_result restore_batch bs rows1 = Inr rows'"
    using Cons.prems(1) by (auto simp: splits_result)
  from r1 have "rows1 = rows @ [idempotency_row_of b] \<and> \<not> list_ex (\<lambda>r. ir_key r = ir_key (idempotency_row_of b)) rows"
    by (simp add: restore_batch_def split: if_splits)
  then have rows1: "rows1 = rows @ [idempotency_row_of b]" and "\<forall>x\<in>set rows. ir_key (idempotency_row_of b) \<noteq> ir_key x"
    by (auto simp: list_ex_iff)
  then have "distinct (map ir_key rows1)" using Cons.prems(2) by (auto simp: image_iff)
  from Cons.IH [OF rest this] show ?case by (auto simp only: rows1 append.assoc append_Cons append_Nil list.map)
qed simp

lemma purge_ok:
  assumes ok: "ledger_ok E es hs bs l" and "purge_episode E ep confirmation l = Inr (r, l')"
  defines "kept \<equiv> filter (\<lambda>e. ev_episode_id e \<noteq> ep) es"
  obtains hs' bs' where "ledger_ok E (map resorted kept) hs' bs' l'" and "pg_preserved r = length kept"
    and "pg_removed r = length es - length kept"
proof -
  note K = ledger_okD [OF ok] and H = ledger_holdsD [OF ledger_okD(1) [OF ok]]
  have kept: "filter (\<lambda>e. ev_episode_id e \<noteq> ep) (map resorted es) = map resorted kept"
    by (simp add: kept_def filter_map comp_def)
  obtain copied bs' rows where copied: "fold_result (copy_event E) (map resorted kept) empty_ledger = Inr copied"
    and index: "idempotency_batches (map resorted kept) = Inr bs'" and rows: "restore_idempotency bs' = Inr rows"
    and l': "l' = copied\<lparr>lg_idempotency := rows\<rparr>" and r: "pg_preserved r = length kept" "pg_removed r = length es - length kept"
    using assms(2) unfolding purge_episode_def events_holds [OF K(1)] Let_def
    by (auto simp: splits_result kept split: if_splits)
  obtain hs1 where "fold_result (check_link E) kept [] = Inr hs1"
    using chain_filter [OF H(6), of ep "[]"] by (auto simp: kept_def)
  moreover have "fold_result (check_link E) (map resorted fs) h = fold_result (check_link E) fs h" for fs h
    by (rule fold_result_map_cong) simp
  ultimately have "fold_result (check_link E) (map resorted kept) [] = Inr hs1" by simp
  moreover have "sorted_wrt (<) (map ev_seq (map resorted kept))"
    using H(3) unfolding kept_def by (simp add: sorted_wrt_map sorted_wrt_filter comp_def)
  moreover have "\<forall>e\<in>set (map resorted kept). sound_event E e"
    using H(5) by (auto simp: kept_def intro: sound_resorted)
  ultimately have "ledger_holds E (map resorted kept) hs1 copied"
    using copy_events_hold [OF ledger_holds_empty copied] by simp
  moreover have "\<forall>e\<in>set (map resorted kept). text_correlation e"
    using K(2) by (auto simp: kept_def intro: text_correlation_resorted)
  moreover have "rows = [] @ map idempotency_row_of (sort_key fst bs') \<and> distinct (map ir_key rows)"
    by (rule restored_rows [OF rows [unfolded restore_idempotency_def]]) simp
  ultimately have "ledger_ok E (map resorted kept) hs1 bs' l'"
    using index by (auto simp: ledger_ok_def ledger_holds_def l')
  with r show thesis by (intro that)
qed

end
