(* ===== verification/Ledger_Props.thy ===== *)
theory Ledger_Props
  imports Ledger_Rebuild
begin

text \<open>
  What the ledger promises of every reachable state: its chain verifies, a replay rebuilds exactly
  its projections, a request that is repeated under its key has its first result again, and a
  purge removes one episode and nothing else.
\<close>

section \<open>Reachable ledgers\<close>

text \<open>
  The ledger grows: well-formed requests are appended, token reservations are made and released,
  the projections are rebuilt.
\<close>

inductive grows :: "ledger_env \<Rightarrow> ledger \<Rightarrow> ledger \<Rightarrow> bool" for E where
  appended: "request_ok ep drafts c key \<Longrightarrow> append_events E ep drafts c key task st l = Inr (es, l') \<Longrightarrow> grows E l l'"
| reserved: "grows E l (l\<lparr>lg_reservations := rs\<rparr>)"
| replayed: "replay E l = Inr (r, l') \<Longrightarrow> grows E l l'"

inductive reachable :: "ledger_env \<Rightarrow> ledger \<Rightarrow> bool" for E where
  opened: "reachable E empty_ledger"
| grown: "reachable E l \<Longrightarrow> grows E l l' \<Longrightarrow> reachable E l'"
| purged: "reachable E l \<Longrightarrow> purge_episode E ep confirmation l = Inr (r, l') \<Longrightarrow> reachable E l'"

inductive_cases growsE: "grows E l l'"

lemma grows_ok:
  assumes "grows E l l'" and "ledger_ok E es hs bs l"
  obtains new hs' more where "ledger_ok E (es @ new) hs' (bs @ more) l'"
  using assms(1)
proof cases
  case (appended ep drafts c key task st res)
  obtain new hs' more where "ledger_ok E (es @ new) hs' (bs @ more) l'"
    by (rule append_events_ok [OF appended(2) assms(2) appended(1)])
  then show thesis by (rule that)
next
  case (reserved rs)
  with ledger_ok_reserved [OF assms(2)] that [of "[]" hs "[]"] show thesis by simp
next
  case (replayed r)
  from replay_ok [OF assms(2)] obtain rows where "ledger_ok E es hs bs (l\<lparr>lg_idempotency := rows, lg_reservations := []\<rparr>)"
    "replay E l = Inr (\<lparr>rr_events = length (lg_events l), rr_before = ledger_hash E l, rr_after = ledger_hash E l\<rparr>,
           l\<lparr>lg_idempotency := rows, lg_reservations := []\<rparr>)" .
  with replayed that [of "[]" hs "[]"] show thesis by simp
qed

lemma grows_many_ok:
  "(grows E)\<^sup>*\<^sup>* l l' \<Longrightarrow> ledger_ok E es hs bs l \<Longrightarrow> \<exists>new hs' more. ledger_ok E (es @ new) hs' (bs @ more) l'"
proof (induction rule: rtranclp_induct)
  case base
  then show ?case by (intro exI [of _ "[]"] exI [of _ hs]) simp
next
  case (step l1 l2)
  then obtain new hs' more where "ledger_ok E (es @ new) hs' (bs @ more) l1" by blast
  from grows_ok [OF step.hyps(2) this] obtain new2 hs2 more2
    where "ledger_ok E ((es @ new) @ new2) hs2 ((bs @ more) @ more2) l2" .
  then show ?case by (intro exI) simp
qed

lemma reachable_ok: "reachable E l \<Longrightarrow> \<exists>es hs bs. ledger_ok E es hs bs l"
proof (induction rule: reachable.induct)
  case opened
  show ?case using ledger_ok_empty by blast
next
  case (grown l l')
  then obtain es hs bs where "ledger_ok E es hs bs l" by blast
  from grows_ok [OF grown.hyps(2) this] show ?case by blast
next
  case (purged l ep confirmation r l')
  then obtain es hs bs where "ledger_ok E es hs bs l" by blast
  from purge_ok [OF this purged.hyps(2)] show ?case by blast
qed

section \<open>The events of a key\<close>

lemma batch_events:
  assumes "ledger_ok E es hs bs l" and "(k, b) \<in> set bs"
  shows "filter (\<lambda>e. ev_id e \<in> set (map ev_id b)) es = b" and "b \<noteq> []" and "set b \<subseteq> set es"
proof -
  note K = ledger_okD [OF assms(1)]
  have index: "distinct (map fst bs)" "map_of bs k = (if of_key k es = [] then None else Some (of_key k es))"
    using idempotency_batches_of_key [OF K(3)] by (cases k; blast)+
  then have b: "b = of_key k es" "b \<noteq> []" using map_of_is_SomeI [OF index(1) assms(2)] by (auto split: if_splits)
  have "inj_on ev_id (set es)" using ledger_holdsD(4) [OF K(1)] by (simp add: distinct_map)
  then have "ev_id e \<in> set (map ev_id b) \<longleftrightarrow> batch_key e = Inr (Some k)" if "e \<in> set es" for e
    using that by (auto simp: b(1) of_key_def dest: inj_onD)
  then have "filter (\<lambda>e. ev_id e \<in> set (map ev_id b)) es = filter (\<lambda>e. batch_key e = Inr (Some k)) es"
    by (intro filter_cong) auto
  then show "filter (\<lambda>e. ev_id e \<in> set (map ev_id b)) es = b" by (simp add: b(1) of_key_def)
  show "b \<noteq> []" by (fact b(2))
  show "set b \<subseteq> set es" by (auto simp: b(1) of_key_def)
qed

lemma events_by_ids_batch:
  assumes "ledger_ok E es hs bs l" and "(k, b) \<in> set bs"
  shows "events_by_ids E (map ev_id b) l = Inr (map resorted b)"
proof -
  note K = ledger_okD [OF assms(1)] and B = batch_events [OF assms]
  have "filter (\<lambda>r. se_id r \<in> set (map ev_id b)) (map stored_of es) = map stored_of (filter (\<lambda>e. ev_id e \<in> set (map ev_id b)) es)"
    by (simp add: filter_map comp_def stored_of_def)
  then have "events_by_ids E (map ev_id b) l = authenticated_events E l (map stored_of b)"
    using B(2) by (simp only: events_by_ids_def rows_in_order_holds [OF K(1)] B(1) map_is_Nil_conv if_False)
  then show ?thesis by (simp only: authenticated_stored [OF K(1) B(3)])
qed

lemma event_ids_loads: "json_loads (event_ids_json b) = Inr (JArr (map (JStr \<circ> ev_id) b))"
proof -
  have sorted: "sort_keys (JArr (map (JStr \<circ> ev_id) b)) = JArr (map (JStr \<circ> ev_id) b)" by simp
  have "readable (JArr (map (JStr \<circ> ev_id) b))" by (simp add: list_all_iff)
  then show ?thesis using json_loads_print by (simp only: event_ids_json_def canonical_json_def sorted)
qed

lemma earlier_events_batch:
  assumes "ledger_ok E es hs bs l" and "(k, b) \<in> set bs" and c0: "ev_correlation (hd b) = correlation_json c0"
  shows "earlier_events E c (idempotency_row_of (k, b)) l =
    (case (map_of c0 ''idempotency_fingerprint'', map_of c ''idempotency_fingerprint'') of
       (Some p, Some q) \<Rightarrow>
         if p \<noteq> [] \<and> q \<noteq> [] \<and> p \<noteq> q then Inl (StoreError ''idempotency key was reused for a different request'')
         else Inr (map resorted b)
     | _ \<Rightarrow> Inr (map resorted b))"
proof -
  note B = batch_events [OF assms(1,2)]
  obtain e b' where b: "b = e # b'" using B(2) by (cases b) auto
  have "text_correlation e" using c0 by (auto simp: text_correlation_def b)
  then have previous: "correlation_get (resorted e) ''idempotency_fingerprint''
      = Inr (case map_of c0 ''idempotency_fingerprint'' of None \<Rightarrow> JNull | Some v \<Rightarrow> JStr v)"
    using c0 correlation_get_resorted(1) correlation_get_json by (simp add: b)
  have ids: "map py_str (map (JStr \<circ> ev_id) b) = map ev_id b" by simp
  show ?thesis
    using previous unfolding earlier_events_def idempotency_row_of_def fst_conv snd_conv idempotency_row.simps
      event_ids_loads and_then.simps elements_def json.case ids events_by_ids_batch [OF assms(1,2)]
    by (simp add: b split: option.splits)
qed

text \<open>What is on record after a request with a key: a batch that answers the same request.\<close>

lemma append_leaves_batch:
  assumes append: "append_events E ep drafts c key [] st l = Inr (res, l1)" and ok: "ledger_ok E es hs bs l"
    and req: "request_ok ep drafts c key" and "key \<noteq> []" and "drafts \<noteq> []"
  obtains es1 hs1 bs1 b where "ledger_ok E es1 hs1 bs1 l1" and "((ep, key), b) \<in> set bs1"
    and "map resorted res = map resorted b"
    and "earlier_events E (clean_correlation c key) (idempotency_row_of ((ep, key), b)) l1 = Inr (map resorted b)"
    and "idempotency_of l ep key = None \<Longrightarrow> ev_correlation (hd b) = correlation_json (clean_correlation c key)"
proof -
  obtain new hs1 more where ok1: "ledger_ok E (es @ new) hs1 (bs @ more) l1"
    and new: "l1 = l \<and> new = [] \<and> more = [] \<or> new = res \<and> length res = length drafts
      \<and> (\<forall>e\<in>set res. of_batch ep (clean_correlation c key) e) \<and> more = (if key = [] then [] else [((ep, key), res)])"
    by (rule append_events_ok [OF append ok req])
  from append show thesis
  proof (cases rule: append_events_cases)
    case (repeated row)
    obtain b where b: "((ep, key), b) \<in> set bs" "row = idempotency_row_of ((ep, key), b)"
      using idempotency_of_Some [OF ok repeated(3)] .
    have hd: "hd b \<in> set es" using batch_events(2,3) [OF ok b(1)] by auto
    with ledger_okD(2) [OF ok] obtain c0 where "ev_correlation (hd b) = correlation_json c0"
      by (auto simp: text_correlation_def)
    from earlier_events_batch [OF ok b(1) this] repeated(4) b(2) have res: "res = map resorted b"
      by (auto split: option.splits if_splits)
    have "resorted (resorted e) = resorted e" for e by (simp add: resorted_def sort_keys_idem)
    then have "map resorted res = map resorted b" by (simp add: res)
    with that [OF ok [folded repeated(1)] b(1)] repeated res b(2) show thesis by simp
  next
    case (keyed l1')
    have "idempotency_row_of ((ep, key), res) \<in> set (lg_idempotency l1)"
      using keyed(5) by (auto simp: remember_def idempotency_row_of_def split: if_splits)
    then have "l1 \<noteq> l" using keyed(2) by (force simp: idempotency_of_def find_None_iff idempotency_row_of_def)
    with new have n: "length res = length drafts" "\<forall>e\<in>set res. of_batch ep (clean_correlation c key) e"
      "more = [((ep, key), res)]" using assms(4) by (auto split: if_splits)
    then have mem: "((ep, key), res) \<in> set (bs @ more)" and "hd res \<in> set res" using assms(5) by (auto intro!: hd_in_set)
    with n(2) have hd: "ev_correlation (hd res) = correlation_json (clean_correlation c key)" by (simp add: of_batch_def)
    have "earlier_events E (clean_correlation c key) (idempotency_row_of ((ep, key), res)) l1 = Inr (map resorted res)"
      using earlier_events_batch [OF ok1 mem hd] by (simp split: option.splits)
    with that [OF ok1 mem _ _ hd] show thesis by simp
  qed (use assms in auto)
qed

lemma repeated_request:
  assumes "ledger_ok E es hs bs l" and "((ep, key), b) \<in> set bs" and "key \<noteq> []" and "drafts \<noteq> []"
  shows "append_events E ep drafts c key [] st l =
    and_then (earlier_events E (clean_correlation c key) (idempotency_row_of ((ep, key), b)) l) (\<lambda>es. Inr (es, l))"
  using assms idempotency_of_batch [OF assms(1,2)] by (simp add: append_events_def Let_def)

text \<open>
  A ledger answers a request with certain events when the batch of its key holds them. It keeps
  doing so while it grows and while other episodes are purged: a purge copies the events that stay as
  they were read, and the index is computed from them again.
\<close>

inductive keeps_episode :: "ledger_env \<Rightarrow> string \<Rightarrow> ledger \<Rightarrow> ledger \<Rightarrow> bool" for E ep where
  kept_growing: "grows E l l' \<Longrightarrow> keeps_episode E ep l l'"
| other_purged: "other \<noteq> ep \<Longrightarrow> purge_episode E other confirmation l = Inr (r, l') \<Longrightarrow> keeps_episode E ep l l'"

definition answers :: "ledger_env \<Rightarrow> string \<Rightarrow> string \<Rightarrow> (string \<times> string) list \<Rightarrow> event list \<Rightarrow> ledger \<Rightarrow> bool" where
  "answers E ep key c res l \<longleftrightarrow>
     (\<exists>es hs bs b. ledger_ok E es hs bs l \<and> ((ep, key), b) \<in> set bs \<and> res = map resorted b
        \<and> earlier_events E c (idempotency_row_of ((ep, key), b)) l = Inr res)"

lemma resorted_twice [simp]: "resorted (resorted e) = resorted e"
  by (simp add: resorted_def sort_keys_idem)

lemma correlation_resorted:
  "ev_correlation e = correlation_json c \<Longrightarrow> ev_correlation (resorted e) = correlation_json (sort_key fst c)"
  by (auto simp: resorted_def correlation_json_def sort_key_map comp_def)

lemma answers_grown:
  assumes "answers E ep key c res l" and "grows E l l'"
  shows "answers E ep key c res l'"
proof -
  obtain es hs bs b where ok: "ledger_ok E es hs bs l" and b: "((ep, key), b) \<in> set bs" and res: "res = map resorted b"
    and answer: "earlier_events E c (idempotency_row_of ((ep, key), b)) l = Inr res"
    using assms(1) by (auto simp: answers_def)
  obtain new hs' more where ok': "ledger_ok E (es @ new) hs' (bs @ more) l'"
    using grows_ok [OF assms(2) ok] .
  have "hd b \<in> set es" using batch_events(2,3) [OF ok b] by auto
  then obtain c0 where c0: "ev_correlation (hd b) = correlation_json c0"
    using ledger_okD(2) [OF ok] by (auto simp: text_correlation_def)
  have b': "((ep, key), b) \<in> set (bs @ more)" using b by simp
  have "earlier_events E c (idempotency_row_of ((ep, key), b)) l' = Inr res"
    using answer by (simp only: earlier_events_batch [OF ok b c0] earlier_events_batch [OF ok' b' c0])
  with ok' b' res show ?thesis unfolding answers_def by blast
qed

lemma batch_purged:
  assumes "ledger_ok E es hs bs l" and "((ep, key), b) \<in> set bs"
    and "ledger_ok E (map resorted (filter (\<lambda>e. ev_episode_id e \<noteq> other) es)) hs' bs' l'" and "other \<noteq> ep"
  shows "((ep, key), map resorted b) \<in> set bs'"
proof -
  note K = ledger_okD [OF assms(1)] and K' = ledger_okD [OF assms(3)]
  have index: "distinct (map fst bs)" "map_of bs (ep, key) = (if of_key (ep, key) es = [] then None else Some (of_key (ep, key) es))"
    using idempotency_batches_of_key [OF K(3)] by blast+
  then have b: "b = of_key (ep, key) es" "b \<noteq> []" using map_of_is_SomeI [OF index(1) assms(2)] by (auto split: if_splits)
  have own: "ev_episode_id e = ep" if "batch_key e = Inr (Some (ep, key))" for e
    using that by (auto simp: batch_key_def splits_result split: if_splits option.splits)
  have "of_key (ep, key) (map resorted (filter (\<lambda>e. ev_episode_id e \<noteq> other) es))
      = map resorted (filter (\<lambda>e. batch_key (resorted e) = Inr (Some (ep, key)) \<and> ev_episode_id e \<noteq> other) es)"
    by (simp add: of_key_def filter_map comp_def conj_commute)
  also have "filter (\<lambda>e. batch_key (resorted e) = Inr (Some (ep, key)) \<and> ev_episode_id e \<noteq> other) es = of_key (ep, key) es"
    unfolding of_key_def by (rule filter_cong [OF refl]) (use K(2) batch_key_back(2) own assms(4) in auto)
  finally have "map_of bs' (ep, key) = Some (map resorted b)"
    using idempotency_batches_of_key [OF K'(3)] b by simp
  then show ?thesis by (rule map_of_SomeD)
qed

lemma answers_purged:
  assumes "answers E ep key c res l" and "purge_episode E other confirmation l = Inr (r, l')" and "other \<noteq> ep"
  shows "answers E ep key c res l'"
proof -
  obtain es hs bs b where ok: "ledger_ok E es hs bs l" and b: "((ep, key), b) \<in> set bs" and res: "res = map resorted b"
    and answer: "earlier_events E c (idempotency_row_of ((ep, key), b)) l = Inr res"
    using assms(1) by (auto simp: answers_def)
  obtain hs' bs' where ok': "ledger_ok E (map resorted (filter (\<lambda>e. ev_episode_id e \<noteq> other) es)) hs' bs' l'"
    using purge_ok [OF ok assms(2)] .
  note b' = batch_purged [OF ok b ok' assms(3)]
  have "b \<noteq> []" "hd b \<in> set es" using batch_events(2,3) [OF ok b] by auto
  then obtain c0 where c0: "ev_correlation (hd b) = correlation_json c0"
    using ledger_okD(2) [OF ok] by (auto simp: text_correlation_def)
  have c1: "ev_correlation (hd (map resorted b)) = correlation_json (sort_key fst c0)"
    unfolding list.map_sel(1) [OF \<open>b \<noteq> []\<close>] by (rule correlation_resorted [OF c0])
  have twice: "map resorted (map resorted b) = map resorted b" by simp
  have "earlier_events E c (idempotency_row_of ((ep, key), map resorted b)) l' = Inr res"
    using answer unfolding earlier_events_batch [OF ok b c0] earlier_events_batch [OF ok' b' c1] twice map_of_sort_key .
  with ok' b' res show ?thesis unfolding answers_def by (intro exI conjI) (auto simp: comp_def)
qed

lemma answers_kept:
  "(keeps_episode E ep)\<^sup>*\<^sup>* l l' \<Longrightarrow> answers E ep key c res l \<Longrightarrow> answers E ep key c res l'"
proof (induction rule: rtranclp_induct)
  case (step l1 l2)
  from step.hyps(2) step.IH [OF step.prems] show ?case
    by cases (auto intro: answers_grown answers_purged)
qed

section \<open>What the ledger promises\<close>

text \<open>
  C1. Replay is exact: in every reachable ledger the chain verifies and rebuilding the projections of
  the ledger from the log succeeds, reads every event, leaves the log alone and gives the same tables
  and the same idempotency rows, so it reports the replay as deterministic. Reachable are the ledgers
  that grow by requests, reservations, replays and purges, where in the events of a kind that has a
  handler the fields read as text hold scalars and the fields iterated are lists, and where a request
  without a key has no key in its correlation either.
\<close>

theorem ledger_replay_exact:
  assumes "reachable E l"
  shows "\<exists>r l'. replay E l = Inr (r, l') \<and> deterministic r \<and> rr_events r = length (lg_events l)
    \<and> lg_db l' = lg_db l \<and> lg_events l' = lg_events l \<and> lg_auth l' = lg_auth l
    \<and> mset (lg_idempotency l') = mset (lg_idempotency l)"
proof -
  obtain es hs bs where "ledger_ok E es hs bs l" using reachable_ok [OF assms] by blast
  from replay_ok [OF this] obtain rows where rows: "mset rows = mset (lg_idempotency l)"
    "replay E l = Inr (\<lparr>rr_events = length (lg_events l), rr_before = ledger_hash E l, rr_after = ledger_hash E l\<rparr>,
       l\<lparr>lg_idempotency := rows, lg_reservations := []\<rparr>)" .
  show ?thesis unfolding rows(2) deterministic_def using rows(1) by simp
qed

text \<open>
  C2. A request is idempotent: once a request with a key has succeeded, repeating it later, whatever
  was appended, reserved or rebuilt in between and whatever other episodes were purged, appends
  nothing and returns the same events as they are read back from the log.
\<close>

theorem append_idempotent:
  assumes "reachable E l" and "request_ok ep drafts c key" and "key \<noteq> []" and "drafts \<noteq> []"
    and "append_events E ep drafts c key [] st l = Inr (es, l1)" and "(keeps_episode E ep)\<^sup>*\<^sup>* l1 l2" and "drafts' \<noteq> []"
  shows "append_events E ep drafts' c key [] st' l2 = Inr (map resorted es, l2)"
proof -
  obtain es0 hs0 bs0 where ok: "ledger_ok E es0 hs0 bs0 l" using reachable_ok [OF assms(1)] by blast
  have "answers E ep key (clean_correlation c key) (map resorted es) l1"
    by (rule append_leaves_batch [OF assms(5) ok assms(2-4)]) (auto simp: answers_def)
  from answers_kept [OF assms(6) this] obtain es2 hs2 bs2 b where ok2: "ledger_ok E es2 hs2 bs2 l2"
    and b: "((ep, key), b) \<in> set bs2" and "map resorted es = map resorted b"
    and "earlier_events E (clean_correlation c key) (idempotency_row_of ((ep, key), b)) l2 = Inr (map resorted b)"
    by (auto simp: answers_def)
  with repeated_request [OF ok2 b assms(3,7)] show ?thesis by simp
qed

text \<open>
  A key is bound to its request: after a request with a fingerprint was first recorded under a
  key, a request of the same episode and key with another fingerprint is refused, and nothing is
  appended.
\<close>

theorem reused_key_refused:
  assumes "reachable E l" and "request_ok ep drafts c key" and "key \<noteq> []" and "drafts \<noteq> []"
    and "append_events E ep drafts c key [] st l = Inr (es, l1)" and "idempotency_of l ep key = None"
    and "(grows E)\<^sup>*\<^sup>* l1 l2" and "request_ok ep drafts' c' key" and "drafts' \<noteq> []"
    and "map_of c ''idempotency_fingerprint'' = Some p" and "map_of c' ''idempotency_fingerprint'' = Some q"
    and "p \<noteq> []" and "q \<noteq> []" and "p \<noteq> q"
  shows "append_events E ep drafts' c' key [] st' l2
    = Inl (StoreError ''idempotency key was reused for a different request'')"
proof -
  obtain es0 hs0 bs0 where ok: "ledger_ok E es0 hs0 bs0 l" using reachable_ok [OF assms(1)] by blast
  obtain es1 hs1 bs1 b where ok1: "ledger_ok E es1 hs1 bs1 l1" and b: "((ep, key), b) \<in> set bs1"
    and hd: "ev_correlation (hd b) = correlation_json (clean_correlation c key)"
    using append_leaves_batch [OF assms(5) ok assms(2-4)] assms(6) by metis
  obtain es2 hs2 more where ok2: "ledger_ok E es2 hs2 (bs1 @ more) l2"
    using grows_many_ok [OF assms(7) ok1] by blast
  have b2: "((ep, key), b) \<in> set (bs1 @ more)" using b by simp
  have "map_of (clean_correlation c key) ''idempotency_fingerprint'' = Some p"
    "map_of (clean_correlation c' key) ''idempotency_fingerprint'' = Some q"
    using assms(2,8,10-13) by (auto simp: clean_correlation_def Let_def update_conv' request_ok_def map_of_filter_keys
        split: list.splits)
  then show ?thesis
    using repeated_request [OF ok2 b2 assms(3,9)] earlier_events_batch [OF ok2 b2 hd] assms(12-14) by simp
qed

text \<open>
  C3. A purge removes one episode: when purging an episode of a reachable ledger succeeds, the ledger
  it leaves holds the events of the other episodes and no others, in their order and unchanged; its
  chain verifies, replaying it gives its projections again, and the counts it reports are right.
\<close>

theorem purge_keeps_others:
  assumes "reachable E l" and "purge_episode E ep confirmation l = Inr (r, l')"
  shows "lg_events l' = filter (\<lambda>x. se_episode x \<noteq> ep) (lg_events l)
    \<and> (\<exists>h. verify_hash_chain E l' = Inr h) \<and> (\<exists>x l''. replay E l' = Inr (x, l'') \<and> lg_db l'' = lg_db l')
    \<and> pg_preserved r = length (lg_events l') \<and> pg_removed r + pg_preserved r = length (lg_events l)"
proof -
  obtain es hs bs where ok: "ledger_ok E es hs bs l" using reachable_ok [OF assms(1)] by blast
  let ?kept = "filter (\<lambda>e. ev_episode_id e \<noteq> ep) es"
  obtain hs' bs' where ok': "ledger_ok E (map resorted ?kept) hs' bs' l'"
    and r: "pg_preserved r = length ?kept" "pg_removed r = length es - length ?kept"
    using purge_ok [OF ok assms(2)] .
  note H = ledger_holdsD [OF ledger_okD(1) [OF ok]] and H' = ledger_holdsD [OF ledger_okD(1) [OF ok']]
  have "lg_events l' = map stored_of ?kept" by (simp add: H'(1))
  also have "\<dots> = filter (\<lambda>x. se_episode x \<noteq> ep) (lg_events l)" by (simp add: H(1) filter_map comp_def stored_of_def)
  finally have "lg_events l' = filter (\<lambda>x. se_episode x \<noteq> ep) (lg_events l)" .
  moreover have "\<exists>x l''. replay E l' = Inr (x, l'') \<and> lg_db l'' = lg_db l'"
    by (rule replay_ok [OF ok']) (intro exI conjI, assumption, simp)
  moreover have "length ?kept \<le> length es" by (rule length_filter_le)
  moreover have "length (lg_events l') = length ?kept" "length (lg_events l) = length es" by (simp_all add: H(1) H'(1))
  moreover have "\<exists>h. verify_hash_chain E l' = Inr h" using verify_holds [OF ledger_okD(1) [OF ok']] by blast
  ultimately show ?thesis using r by simp
qed

section \<open>A ledger\<close>

definition sample_env :: ledger_env where
  "sample_env = \<lparr>le_storage = sample_storage\<lparr>st_sha := (\<lambda>s. ''#'' @ take 8 s)\<rparr>, le_hmac = (\<lambda>k m. ''tag'' @ m), le_key = replicate 32 (CHR ''k'')\<rparr>"

definition sample_draft :: "string \<Rightarrow> event_draft" where
  "sample_draft i =
     \<lparr>ed_kind = ''EPISODE_CREATED'', ed_aggregate_type = ''episode'', ed_aggregate_id = i,
      ed_payload = JObj [(''record'', JObj ((''id'', JStr i) # (''current_turn'', JInt 0)
        # text_fields [''key'', ''session_id'', ''task_id'', ''platform'', ''model'', ''default_stakes'',
            ''created_at'', ''updated_at'', ''compatibility_mode'']))],
      ed_causal_event_id = None\<rparr>"

definition sample_stamps :: stamps where
  "sample_stamps n = (''id'' @ show_nat n, ''2026-01-01T00:00:00.000000Z'')"

definition sample_correlation :: "string \<Rightarrow> (string \<times> string) list" where
  "sample_correlation f = [(''idempotency_fingerprint'', f), (''turn_id'', [])]"

abbreviation sample_append :: "string \<Rightarrow> string \<Rightarrow> ledger \<Rightarrow> (event list \<times> ledger) result" where
  "sample_append ep f l \<equiv>
     append_events sample_env ep [sample_draft ep] (sample_correlation f) ''k'' [] sample_stamps l"

lemma sample_request: "request_ok ''ep'' [sample_draft ''ep''] (sample_correlation f) ''k''"
proof -
  have "readable (ed_payload (sample_draft ''ep''))" by code_simp
  moreover have "ordinary (case ed_payload (sample_draft ''ep'') of JObj kvs \<Rightarrow> kvs | _ \<Rightarrow> [])" by code_simp
  ultimately show ?thesis
    by (simp add: request_ok_def draft_ok_def plain_name_def sample_correlation_def) (simp add: sample_draft_def replayable_def)
qed

text \<open>
  The requests of the public API are among those: what \<open>start_episode\<close> records of the host, and an
  observation whose correlation holds the key it is appended under.
\<close>

definition host_draft :: event_draft where
  "host_draft =
     \<lparr>ed_kind = ''HOST_CAPABILITIES_RECORDED'', ed_aggregate_type = ''episode'', ed_aggregate_id = ''ep'',
      ed_payload = JObj [(''capabilities'', JObj [(''tool_gate'', JBool True)]), (''requested_profile'', JStr ''auto''),
        (''effective_profile'', JStr ''embedded''), (''reason_codes'', JArr [JStr ''HOST_LIMITED''])],
      ed_causal_event_id = None\<rparr>"

lemma public_requests_ok:
  "request_ok ''ep'' [host_draft] [] []"
  "request_ok ''ep'' [sample_draft ''ep''] [(''idempotency_key'', k), (''idempotency_fingerprint'', f)] k"
proof -
  have "readable (ed_payload host_draft)" by code_simp
  moreover have "''HOST_CAPABILITIES_RECORDED'' \<notin> set (map fst EVENT_HANDLERS)" by code_simp
  ultimately show "request_ok ''ep'' [host_draft] [] []"
    by (simp add: request_ok_def draft_ok_def plain_name_def dict_get_def) (simp add: host_draft_def replayable_def)
  show "request_ok ''ep'' [sample_draft ''ep''] [(''idempotency_key'', k), (''idempotency_fingerprint'', f)] k"
    using sample_request [of f] by (simp add: request_ok_def dict_get_def)
qed

definition sample_appended :: "string \<Rightarrow> string \<Rightarrow> event" where
  "sample_appended ep f =
     (build_event (le_sha sample_env) 1 ep (sample_draft ep) ZERO_HASH (clean_correlation (sample_correlation f) ''k'')
        ''2026-01-01T00:00:00.000000Z'' ''id0'')\<lparr>ev_auth_tag := ''tagid0'' @ [NUL, CHR ''#''] @ replicate 8 (CHR ''0'')\<rparr>"

lemma sample_apply_runs:
  "succeeds (apply_event (le_storage sample_env) (sample_appended ''ep'' ''f'') (\<lambda>t. [])) (\<lambda>d. length (d ''episodes'') = 1 \<and> sql_first ''episodes'' (has_id ''ep'') d \<noteq> None)"
  by code_simp

lemma show_nat_zero: "show_nat 0 = ''0''"
  by code_simp

lemma sample_auth:
  "event_auth sample_env (build_event (le_sha sample_env) 1 ''ep'' (sample_draft ''ep'') ZERO_HASH c t ''id0'')
     = Inr (''tagid0'' @ [NUL, CHR ''#''] @ replicate 8 (CHR ''0''))"
  by (simp add: event_auth_def compute_event_auth_def build_event_hash event_hash_of_def chain_material_def
      ZERO_HASH_def sample_env_def numeral_eq_Suc)

lemma append_one_run:
  assumes "event_auth E (build_event (le_sha E) (first + n) ep draft p c (snd (stamps n)) (fst (stamps n))) = Inr tag"
    and "e = (build_event (le_sha E) (first + n) ep draft p c (snd (stamps n)) (fst (stamps n)))\<lparr>ev_auth_tag := tag\<rparr>"
    and "insert_event e l = Inr l1" and "apply_event (le_storage E) e (lg_db l1) = Inr d"
  shows "append_one E ep c first stamps (n, draft) (es, p, l) = Inr (es @ [e], ev_event_hash e, l1\<lparr>lg_db := d\<rparr>)"
  using assms by (simp add: append_one_def Let_def)

lemma sample_append_runs:
  obtains l where "sample_append ''ep'' ''f'' empty_ledger = Inr ([sample_appended ''ep'' ''f''], l)"
    and "lg_events l = [stored_of (sample_appended ''ep'' ''f'')]" and "length (lg_db l ''episodes'') = 1"
    and "sql_first ''episodes'' (has_id ''ep'') (lg_db l) \<noteq> None"
proof -
  obtain d where d: "apply_event (le_storage sample_env) (sample_appended ''ep'' ''f'') (\<lambda>t. []) = Inr d"
    "length (d ''episodes'') = 1" "sql_first ''episodes'' (has_id ''ep'') d \<noteq> None"
    using sample_apply_runs unfolding succeeds_iff by blast
  let ?e = "sample_appended ''ep'' ''f''" and ?c = "clean_correlation (sample_correlation ''f'') ''k''"
  let ?l = "empty_ledger\<lparr>lg_events := [stored_of ?e], lg_auth := [auth_of ?e], lg_db := d\<rparr>"
  have start: "next_seq empty_ledger + 0 = 1" "stored_head (lg_db empty_ledger) ''ep'' = ZERO_HASH"
    "fst (sample_stamps 0) = ''id0''" "snd (sample_stamps 0) = ''2026-01-01T00:00:00.000000Z''"
    by (simp_all add: next_seq_def empty_ledger_def stored_head_def sql_first_def sample_stamps_def show_nat_zero)
  have "append_one sample_env ''ep'' ?c (next_seq empty_ledger) sample_stamps (0, sample_draft ''ep'') ([], ZERO_HASH, empty_ledger)
      = Inr ([] @ [?e], ev_event_hash ?e, (empty_ledger\<lparr>lg_events := [stored_of ?e], lg_auth := [auth_of ?e]\<rparr>)\<lparr>lg_db := d\<rparr>)"
  proof (rule append_one_run, unfold start)
    show "insert_event ?e empty_ledger = Inr (empty_ledger\<lparr>lg_events := [stored_of ?e], lg_auth := [auth_of ?e]\<rparr>)"
      by (simp add: insert_event_iff empty_ledger_def)
    show "apply_event (le_storage sample_env) ?e (lg_db (empty_ledger\<lparr>lg_events := [stored_of ?e], lg_auth := [auth_of ?e]\<rparr>)) = Inr d"
      using d(1) by (simp add: empty_ledger_def)
  qed (rule sample_auth, rule sample_appended_def)
  then have "append_drafts sample_env ''ep'' [sample_draft ''ep''] ?c sample_stamps empty_ledger = Inr ([?e], ?l)"
    by (simp add: append_drafts_def start)
  then have "sample_append ''ep'' ''f'' empty_ledger
      = Inr ([?e], ?l\<lparr>lg_idempotency := [idempotency_row_of ((''ep'', ''k''), [?e])]\<rparr>)"
    by (simp add: append_events_def idempotency_of_def remember_def idempotency_row_of_def empty_ledger_def)
  from that [OF this] d(2,3) show thesis by (simp add: empty_ledger_def)
qed

theorem ledger_replay_exact_witness:
  "\<exists>es l r l'. sample_append ''ep'' ''f'' empty_ledger = Inr (es, l) \<and> length (lg_events l) = 1
     \<and> replay sample_env l = Inr (r, l') \<and> deterministic r \<and> rr_events r = 1 \<and> lg_db l' = lg_db l"
proof -
  obtain es l where l: "sample_append ''ep'' ''f'' empty_ledger = Inr (es, l)" "length (lg_events l) = 1"
    by (rule sample_append_runs) auto
  have "reachable sample_env l"
    by (rule reachable.grown [OF reachable.opened grows.appended [OF sample_request l(1)]])
  from ledger_replay_exact [OF this] l show ?thesis by auto
qed

theorem append_idempotent_witness:
  "\<exists>es l. sample_append ''ep'' ''f'' empty_ledger = Inr (es, l) \<and> length es = 1
     \<and> sample_append ''ep'' ''f'' l = Inr (map resorted es, l)"
proof -
  obtain es l where l: "sample_append ''ep'' ''f'' empty_ledger = Inr (es, l)" "length es = 1"
    by (rule sample_append_runs) auto
  from append_idempotent [OF reachable.opened sample_request _ _ l(1) rtranclp.rtrancl_refl,
      where drafts' = "[sample_draft ''ep'']" and st' = sample_stamps] l
  show ?thesis by auto
qed

theorem reused_key_refused_witness:
  "\<exists>es l. sample_append ''ep'' ''f'' empty_ledger = Inr (es, l)
     \<and> sample_append ''ep'' ''g'' l = Inl (StoreError ''idempotency key was reused for a different request'')"
proof -
  obtain es l where l: "sample_append ''ep'' ''f'' empty_ledger = Inr (es, l)"
    by (rule sample_append_runs) auto
  have "idempotency_of empty_ledger ''ep'' ''k'' = None" by (simp add: idempotency_of_def empty_ledger_def)
  from reused_key_refused [OF reachable.opened sample_request _ _ l this rtranclp.rtrancl_refl sample_request,
      where p = "''f''" and q = "''g''" and st' = sample_stamps] l
  show ?thesis by (simp add: sample_correlation_def)
qed

theorem purge_keeps_others_witness:
  "\<exists>es l r l'. sample_append ''ep'' ''f'' empty_ledger = Inr (es, l)
     \<and> purge_episode sample_env ''ep'' ''ep'' l = Inr (r, l') \<and> pg_removed r = 1
     \<and> lg_events l' = filter (\<lambda>x. se_episode x \<noteq> ''ep'') (lg_events l) \<and> pg_preserved r = length (lg_events l')"
proof -
  obtain l where l: "sample_append ''ep'' ''f'' empty_ledger = Inr ([sample_appended ''ep'' ''f''], l)"
    "lg_events l = [stored_of (sample_appended ''ep'' ''f'')]" "sql_first ''episodes'' (has_id ''ep'') (lg_db l) \<noteq> None"
    by (rule sample_append_runs)
  have reach: "reachable sample_env l"
    by (rule reachable.grown [OF reachable.opened grows.appended [OF sample_request l(1)]])
  obtain es hs bs where ok: "ledger_ok sample_env es hs bs l" using reachable_ok [OF reach] by blast
  note holds = ledger_okD(1) [OF ok]
  obtain e where es: "es = [e]" "stored_of e = stored_of (sample_appended ''ep'' ''f'')"
    using ledger_holdsD(1) [OF holds] l(2) by (cases es) auto
  then have "se_episode (stored_of e) = ''ep''" by (simp add: stored_of_def sample_appended_def)
  then have "ev_episode_id e = ''ep''" by (simp add: stored_of_def)
  moreover have "verify_hash_chain sample_env (empty_ledger\<lparr>lg_idempotency := []\<rparr>) = Inr (canonical_json (heads_json []))"
    using verify_holds [OF ledger_holds_empty] by (simp add: empty_ledger_def)
  ultimately obtain r l' where p: "purge_episode sample_env ''ep'' ''ep'' l = Inr (r, l')" "pg_removed r = 1"
    using l(3) by (simp add: purge_episode_def verify_holds [OF holds] events_holds [OF holds] es(1) idempotency_batches_def
        restore_idempotency_def Let_def)
  from purge_keeps_others [OF reach p(1)] l p show ?thesis by auto
qed

end
