(* ===== verification/Buffering.thy ===== *)
theory Buffering
  imports Prelude "HOL-Library.Word"
begin

text \<open>
  \<open>buffering.py\<close>: a response is collected chunk by chunk in a bounded buffer and handed to its
  sink only after the linter has seen all of it; anything that goes wrong delivers the report of
  the block instead. Text is a list of code points, bytes are words of eight bits, and UTF-8 is
  written out. The sink is the interface \<open>delivery_sink\<close>, provided by \<open>MemorySink\<close>.
\<close>

section \<open>UTF-8\<close>

type_synonym byte = "8 word"

definition byte_of :: "nat \<Rightarrow> byte" where
  "byte_of n = word_of_nat n"

lemma unat_byte_of [simp]: "n < 256 \<Longrightarrow> unat (byte_of n) = n"
  by (simp add: byte_of_def unat_of_nat)

lemma byte_of_unat [simp]: "byte_of (unat b) = b"
  by (simp add: byte_of_def)

lemma unat_byte_lt: "unat (b :: byte) < 256"
  using unsigned_less [of b] by simp

definition scalar_value :: "nat \<Rightarrow> bool" where
  "scalar_value n \<longleftrightarrow> n < 0xD800 \<or> 0xDFFF < n \<and> n \<le> 0x10FFFF"

definition encode_char :: "nat \<Rightarrow> byte list" where
  "encode_char n =
     (if n < 0x80 then [byte_of n]
      else if n < 0x800 then [byte_of (0xC0 + n div 64), byte_of (0x80 + n mod 64)]
      else if n < 0x10000 then
        [byte_of (0xE0 + n div 4096), byte_of (0x80 + n div 64 mod 64), byte_of (0x80 + n mod 64)]
      else [byte_of (0xF0 + n div 262144), byte_of (0x80 + n div 4096 mod 64),
            byte_of (0x80 + n div 64 mod 64), byte_of (0x80 + n mod 64)])"

text \<open>A surrogate has no encoding: \<open>str.encode\<close> raises.\<close>

definition utf8_encode :: "nat list \<Rightarrow> byte list option" where
  "utf8_encode cs = (if list_all scalar_value cs then Some (concat (map encode_char cs)) else None)"

definition continuation :: "byte \<Rightarrow> bool" where
  "continuation b \<longleftrightarrow> 0x80 \<le> unat b \<and> unat b < 0xC0"

definition six :: "byte \<Rightarrow> nat" where
  "six b = unat b - 0x80"

definition cons_char :: "nat \<Rightarrow> nat list option \<Rightarrow> nat list option" where
  "cons_char n = map_option ((#) n)"

fun utf8_decode :: "byte list \<Rightarrow> nat list option" where
  "utf8_decode [] = Some []"
| "utf8_decode (a # bs) =
     (if unat a < 0x80 then cons_char (unat a) (utf8_decode bs)
      else if unat a < 0xC2 then None
      else if unat a < 0xE0 then
        (case bs of
           b # r \<Rightarrow> if continuation b then cons_char ((unat a - 0xC0) * 64 + six b) (utf8_decode r) else None
         | _ \<Rightarrow> None)
      else if unat a < 0xF0 then
        (case bs of
           b # c # r \<Rightarrow>
             (let n = (unat a - 0xE0) * 4096 + six b * 64 + six c in
              if continuation b \<and> continuation c \<and> 0x800 \<le> n \<and> scalar_value n
              then cons_char n (utf8_decode r) else None)
         | _ \<Rightarrow> None)
      else if unat a < 0xF5 then
        (case bs of
           b # c # d # r \<Rightarrow>
             (let n = (unat a - 0xF0) * 262144 + six b * 4096 + six c * 64 + six d in
              if continuation b \<and> continuation c \<and> continuation d \<and> 0x10000 \<le> n \<and> scalar_value n
              then cons_char n (utf8_decode r) else None)
         | _ \<Rightarrow> None)
      else None)"

lemma six_byte [simp]: "n < 64 \<Longrightarrow> six (byte_of (0x80 + n)) = n"
  and continuation_byte [simp]: "n < 64 \<Longrightarrow> continuation (byte_of (0x80 + n))"
  by (simp_all add: six_def continuation_def)

lemma digits64_2: "(n :: nat) div 64 * 64 + n mod 64 = n"
  by simp

lemma digits64_3: "(n :: nat) div 4096 * 4096 + n div 64 mod 64 * 64 + n mod 64 = n"
proof -
  have "n div 4096 = n div 64 div 64" by (simp add: div_mult2_eq [symmetric])
  then show ?thesis using div_mult_mod_eq [of n 64] div_mult_mod_eq [of "n div 64" 64] by linarith
qed

lemma digits64_4:
  "(n :: nat) div 262144 * 262144 + n div 4096 mod 64 * 4096 + n div 64 mod 64 * 64 + n mod 64 = n"
proof -
  have "n div 262144 = n div 4096 div 64" by (simp add: div_mult2_eq [symmetric])
  then show ?thesis using div_mult_mod_eq [of "n div 4096" 64] digits64_3 [of n] by linarith
qed

lemma decode_encode_char: "scalar_value n \<Longrightarrow> utf8_decode (encode_char n @ r) = cons_char n (utf8_decode r)"
proof -
  assume s: "scalar_value n"
  then have le: "n \<le> 0x10FFFF" by (auto simp: scalar_value_def)
  consider "n < 0x80" | "0x80 \<le> n" "n < 0x800" | "0x800 \<le> n" "n < 0x10000" | "0x10000 \<le> n" by linarith
  then show ?thesis
  proof cases
    case 1
    then show ?thesis by (simp add: encode_char_def)
  next
    case 2
    define q where "q = n div 64"
    from 2 have "q < 32" "2 \<le> q" by (auto simp: q_def)
    with 2 show ?thesis using digits64_2 [of n] by (simp add: encode_char_def flip: q_def)
  next
    case 3
    then have "n div 4096 < 16" by auto
    with 3 s show ?thesis using digits64_3 [of n] by (simp add: encode_char_def Let_def)
  next
    case 4
    then have "n div 262144 < 5" using le by auto
    with 4 s show ?thesis using digits64_4 [of n] by (simp add: encode_char_def Let_def)
  qed
qed

lemma utf8_decode_encode: "list_all scalar_value cs \<Longrightarrow> utf8_decode (concat (map encode_char cs)) = Some cs"
  by (induction cs) (simp_all add: decode_encode_char cons_char_def)

text \<open>Text in pieces: a code point is never split by encoding each piece on its own.\<close>

lemma utf8_encode_append: "utf8_encode cs = Some bs \<Longrightarrow> utf8_encode ds = Some es \<Longrightarrow> utf8_encode (cs @ ds) = Some (bs @ es)"
  by (auto simp: utf8_encode_def split: if_splits)

section \<open>The gate\<close>

datatype chunk = Text "nat list" | Raw "byte list"

definition chunk_bytes :: "chunk \<Rightarrow> byte list option" where
  "chunk_bytes c = (case c of Text cs \<Rightarrow> utf8_encode cs | Raw bs \<Rightarrow> Some bs)"

record response_gate =
  rg_max_bytes :: nat
  rg_report :: "byte list"
  rg_buffer :: "byte list"
  rg_next_index :: int
  rg_failed_reason :: "string option"
  rg_finalized :: bool

definition make_gate :: "int \<Rightarrow> nat list \<Rightarrow> response_gate result" where
  "make_gate max_bytes report =
     (if max_bytes \<le> 0 then Inl (ValueError ''max_bytes must be positive'')
      else case utf8_encode report of
        None \<Rightarrow> Inl (ValueError ''surrogates not allowed'')
      | Some bs \<Rightarrow>
          if 4096 < length bs then Inl (ValueError ''block_report exceeds 4096 bytes'')
          else Inr \<lparr>rg_max_bytes = nat max_bytes, rg_report = bs, rg_buffer = [], rg_next_index = 0,
                    rg_failed_reason = None, rg_finalized = False\<rparr>)"

text \<open>\<open>self._failed_reason = self._failed_reason or reason\<close>\<close>

definition fail :: "string \<Rightarrow> response_gate \<Rightarrow> response_gate" where
  "fail reason g = g\<lparr>rg_failed_reason := (case rg_failed_reason g of None \<Rightarrow> Some reason | Some r \<Rightarrow> Some r)\<rparr>"

text \<open>A surrogate raises out of \<open>append\<close> after the index has moved on; the flag says that it did.\<close>

definition append_chunk :: "int \<Rightarrow> chunk \<Rightarrow> response_gate \<Rightarrow> response_gate \<times> bool" where
  "append_chunk index c g =
     (if rg_finalized g then (fail ''MULTIPLE_FINAL'' g, True)
      else if index \<noteq> rg_next_index g then (fail ''INVALID_CHUNK_ORDER'' g, True)
      else let g = g\<lparr>rg_next_index := rg_next_index g + 1\<rparr> in
        case chunk_bytes c of
          None \<Rightarrow> (g, False)
        | Some payload \<Rightarrow>
            if rg_max_bytes g < length (rg_buffer g) + length payload then (fail ''BUFFER_OVERFLOW'' g, True)
            else (g\<lparr>rg_buffer := rg_buffer g @ payload\<rparr>, True))"

definition cancel :: "response_gate \<Rightarrow> response_gate" where
  "cancel g = fail ''CANCELLED'' g"

record buffer_result =
  br_schema_version :: int
  br_accepted :: bool
  br_reason_code :: string
  br_delivered_bytes :: nat

definition buffer_result_of :: "bool \<Rightarrow> string \<Rightarrow> nat \<Rightarrow> buffer_result" where
  "buffer_result_of ok reason n = \<lparr>br_schema_version = 1, br_accepted = ok, br_reason_code = reason, br_delivered_bytes = n\<rparr>"

text \<open>The linter answers or raises. The reason not to accept the buffer, if there is one:\<close>

type_synonym linter = "nat list \<Rightarrow> bool option"

definition verdict :: "linter \<Rightarrow> response_gate \<Rightarrow> string option" where
  "verdict lint g =
     (case rg_failed_reason g of
        Some r \<Rightarrow> Some r
      | None \<Rightarrow>
          (case utf8_decode (rg_buffer g) of
             None \<Rightarrow> Some ''INVALID_UTF8''
           | Some t \<Rightarrow>
               (case lint t of
                  None \<Rightarrow> Some ''LINTER_ERROR''
                | Some ok \<Rightarrow> if ok then None else Some ''LINT_BLOCKED'')))"

text \<open>
  A sink is a state with \<open>prepare\<close> and \<open>deliver\<close>; the flag of each says whether it returned or
  raised.
\<close>

definition hand_over ::
  "(byte list \<Rightarrow> 's \<Rightarrow> bool \<times> 's) \<Rightarrow> byte list \<Rightarrow> bool \<Rightarrow> string \<Rightarrow> 's \<Rightarrow> buffer_result \<times> 's" where
  "hand_over deliver payload accepted reason s =
     (case deliver payload s of
        (False, s') \<Rightarrow> (buffer_result_of False ''SINK_DELIVERY_FAILED'' 0, s')
      | (True, s') \<Rightarrow> (buffer_result_of accepted reason (length payload), s'))"

definition finalize ::
  "(nat \<Rightarrow> 's \<Rightarrow> bool \<times> 's) \<Rightarrow> (byte list \<Rightarrow> 's \<Rightarrow> bool \<times> 's) \<Rightarrow> linter
     \<Rightarrow> response_gate \<Rightarrow> 's \<Rightarrow> buffer_result \<times> response_gate \<times> 's" where
  "finalize prepare deliver lint g s =
     (if rg_finalized g then (buffer_result_of False ''MULTIPLE_FINAL'' 0, g, s)
      else
        let g = g\<lparr>rg_finalized := True\<rparr>;
            reason = verdict lint g;
            accepted = (reason = None);
            payload = (if accepted then rg_buffer g else rg_report g);
            code = (case reason of None \<Rightarrow> ''ACCEPTED'' | Some r \<Rightarrow> r) in
        case prepare (length payload) s of
          (True, s1) \<Rightarrow> (case hand_over deliver payload accepted code s1 of (r, s2) \<Rightarrow> (r, g, s2))
        | (False, s1) \<Rightarrow>
            if \<not> accepted then (buffer_result_of False ''SINK_PREPARE_FAILED'' 0, g, s1)
            else (case prepare (length (rg_report g)) s1 of
                (False, s2) \<Rightarrow> (buffer_result_of False ''SINK_PREPARE_FAILED'' 0, g, s2)
              | (True, s2) \<Rightarrow> (case hand_over deliver (rg_report g) False ''SINK_PREPARE_FAILED'' s2 of (r, s3) \<Rightarrow> (r, g, s3))))"

end
