(* ===== verification/Buffering_Props.thy ===== *)
theory Buffering_Props
  imports Buffering
begin

text \<open>
  What a response gate delivers: at most one payload, and the response itself only when the linter
  accepted the text it encodes. The sink is an interface; \<open>MemorySink\<close> provides it.
\<close>

section \<open>Sinks\<close>

text \<open>A sink delivers a payload whole or not at all, and preparing delivers nothing.\<close>

locale delivery_sink =
  fixes prepare :: "nat \<Rightarrow> 's \<Rightarrow> bool \<times> 's"
    and deliver :: "byte list \<Rightarrow> 's \<Rightarrow> bool \<times> 's"
    and deliveries :: "'s \<Rightarrow> byte list list"
  assumes prepare_nothing: "prepare n s = (ok, s') \<Longrightarrow> deliveries s' = deliveries s"
    and deliver_whole: "deliver p s = (ok, s') \<Longrightarrow> deliveries s' = deliveries s @ (if ok then [p] else [])"
begin

lemma hand_over_delivers:
  "hand_over deliver p ok reason s = (r, s') \<Longrightarrow>
     deliveries s' = deliveries s \<and> \<not> br_accepted r \<or> deliveries s' = deliveries s @ [p] \<and> br_accepted r = ok"
  by (auto simp: hand_over_def buffer_result_of_def split: prod.splits bool.splits dest: deliver_whole)

text \<open>Finalizing delivers nothing, the report, or a buffer without a reason against it.\<close>

lemma finalize_delivers:
  assumes "finalize prepare deliver lint g s = (r, g', s')"
  shows "deliveries s' = deliveries s \<and> \<not> br_accepted r
    \<or> \<not> rg_finalized g \<and> deliveries s' = deliveries s @ [rg_report g] \<and> \<not> br_accepted r
    \<or> \<not> rg_finalized g \<and> verdict lint (g\<lparr>rg_finalized := True\<rparr>) = None
        \<and> deliveries s' = deliveries s @ [rg_buffer g] \<and> br_accepted r"
proof (cases "rg_finalized g")
  case True
  with assms show ?thesis by (auto simp: finalize_def buffer_result_of_def)
next
  case False
  let ?g = "g\<lparr>rg_finalized := True\<rparr>"
  show ?thesis
  proof (cases "verdict lint ?g")
    case None
    obtain ok s1 where p: "prepare (length (rg_buffer g)) s = (ok, s1)" by fastforce
    obtain ok2 s2 where p2: "prepare (length (rg_report g)) s1 = (ok2, s2)" by fastforce
    note prepared = prepare_nothing [OF p] prepare_nothing [OF p2]
    from assms False None p p2 consider (buffer) "hand_over deliver (rg_buffer g) True ''ACCEPTED'' s1 = (r, s')"
      | (report) "hand_over deliver (rg_report g) False ''SINK_PREPARE_FAILED'' s2 = (r, s')"
      | (nothing) "s' = s2" "\<not> br_accepted r"
      by (cases ok; cases ok2) (auto simp: finalize_def Let_def buffer_result_of_def split: prod.splits)
    then show ?thesis
      using False None prepared by cases (auto dest: hand_over_delivers)
  next
    case (Some reason)
    obtain ok s1 where p: "prepare (length (rg_report g)) s = (ok, s1)" by fastforce
    from assms False Some p consider (report) "hand_over deliver (rg_report g) False reason s1 = (r, s')"
      | (nothing) "s' = s1" "\<not> br_accepted r"
      by (cases ok) (auto simp: finalize_def Let_def buffer_result_of_def split: prod.splits)
    then show ?thesis
      using False prepare_nothing [OF p] by cases (auto dest: hand_over_delivers)
  qed
qed

end

text \<open>\<open>finalize\<close> marks the gate and changes nothing else of it.\<close>

lemma finalize_gate: "finalize prepare deliver lint g s = (r, g', s') \<Longrightarrow> g' = g\<lparr>rg_finalized := True\<rparr>"
  by (auto simp: finalize_def Let_def split: prod.splits bool.splits if_splits)

record memory_sink =
  ms_prepared :: "nat list"
  ms_deliveries :: "byte list list"

definition ms_prepare :: "nat \<Rightarrow> memory_sink \<Rightarrow> bool \<times> memory_sink" where
  "ms_prepare n s = (True, s\<lparr>ms_prepared := ms_prepared s @ [n]\<rparr>)"

definition ms_deliver :: "byte list \<Rightarrow> memory_sink \<Rightarrow> bool \<times> memory_sink" where
  "ms_deliver p s = (True, s\<lparr>ms_deliveries := ms_deliveries s @ [p]\<rparr>)"

definition empty_sink :: memory_sink where
  "empty_sink = \<lparr>ms_prepared = [], ms_deliveries = []\<rparr>"

interpretation memory: delivery_sink ms_prepare ms_deliver ms_deliveries
  by unfold_locales (auto simp: ms_prepare_def ms_deliver_def)

section \<open>Sessions\<close>

datatype operation = Append int chunk | Cancel | Finalize

definition perform ::
  "(nat \<Rightarrow> 's \<Rightarrow> bool \<times> 's) \<Rightarrow> (byte list \<Rightarrow> 's \<Rightarrow> bool \<times> 's) \<Rightarrow> linter
     \<Rightarrow> operation \<Rightarrow> response_gate \<times> 's \<Rightarrow> response_gate \<times> 's" where
  "perform prepare deliver lint op = (\<lambda>(g, s).
     case op of
       Append i c \<Rightarrow> (fst (append_chunk i c g), s)
     | Cancel \<Rightarrow> (cancel g, s)
     | Finalize \<Rightarrow> (case finalize prepare deliver lint g s of (r, g', s') \<Rightarrow> (g', s')))"

definition session ::
  "(nat \<Rightarrow> 's \<Rightarrow> bool \<times> 's) \<Rightarrow> (byte list \<Rightarrow> 's \<Rightarrow> bool \<times> 's) \<Rightarrow> linter
     \<Rightarrow> operation list \<Rightarrow> response_gate \<times> 's \<Rightarrow> response_gate \<times> 's" where
  "session prepare deliver lint ops st = fold (perform prepare deliver lint) ops st"

text \<open>What was handed to the gate before it was finalized.\<close>

definition before_final :: "operation list \<Rightarrow> operation list" where
  "before_final ops = takeWhile (\<lambda>op. op \<noteq> Finalize) ops"

lemma before_final_split: "ops = before_final ops \<or> (\<exists>post. ops = before_final ops @ Finalize # post)"
  by (induction ops) (auto simp: before_final_def)

definition appended :: "operation list \<Rightarrow> (int \<times> chunk) list" where
  "appended ops = List.map_filter (\<lambda>op. case op of Append i c \<Rightarrow> Some (i, c) | _ \<Rightarrow> None) ops"

definition sent :: "operation list \<Rightarrow> byte list" where
  "sent ops = concat (map (\<lambda>(i, c). case chunk_bytes c of None \<Rightarrow> [] | Some bs \<Rightarrow> bs) (appended ops))"

definition in_order :: "operation list \<Rightarrow> bool" where
  "in_order ops \<longleftrightarrow> Cancel \<notin> set ops \<and> map fst (appended ops) = map int [0..<length (appended ops)]"

lemma appended_simps [simp]:
  "appended [] = []" "appended (ops @ [Append i c]) = appended ops @ [(i, c)]"
  "appended (ops @ [Cancel]) = appended ops"
  by (simp_all add: appended_def map_filter_def)

text \<open>As long as nothing failed the buffer is what was sent, in order and within the bound.\<close>

definition collected :: "response_gate \<Rightarrow> operation list \<Rightarrow> response_gate \<Rightarrow> bool" where
  "collected g0 ops g \<longleftrightarrow>
     \<not> rg_finalized g \<and> rg_report g = rg_report g0 \<and> rg_max_bytes g = rg_max_bytes g0
     \<and> (rg_failed_reason g = None \<longrightarrow>
          in_order ops \<and> rg_buffer g = sent ops \<and> length (rg_buffer g) \<le> rg_max_bytes g
          \<and> rg_next_index g = int (length (appended ops)))"

lemma fail_failed [simp]: "rg_failed_reason (fail r g) \<noteq> None"
  "rg_report (fail r g) = rg_report g" "rg_max_bytes (fail r g) = rg_max_bytes g" "rg_finalized (fail r g) = rg_finalized g"
  by (simp_all add: fail_def split: option.splits)

lemma collected_append:
  assumes "collected g0 ops g"
  shows "collected g0 (ops @ [Append i c]) (fst (append_chunk i c g))"
proof -
  have sent: "sent (ops @ [Append i c]) = sent ops @ (case chunk_bytes c of None \<Rightarrow> [] | Some bs \<Rightarrow> bs)"
    by (simp add: sent_def)
  have order: "in_order ops \<Longrightarrow> i = int (length (appended ops)) \<Longrightarrow> in_order (ops @ [Append i c])"
    by (simp add: in_order_def)
  show ?thesis
    using assms order by (auto simp: collected_def append_chunk_def Let_def sent split: option.splits)
qed

lemma collected_cancel: "collected g0 ops g \<Longrightarrow> collected g0 (ops @ [Cancel]) (cancel g)"
  by (auto simp: collected_def cancel_def)

lemma session_collects:
  assumes "Finalize \<notin> set ops" and "collected g0 [] g0"
  shows "\<exists>g. session prepare deliver lint ops (g0, s) = (g, s) \<and> collected g0 ops g"
  using assms
proof (induction ops rule: rev_induct)
  case (snoc op ops)
  then obtain g where "session prepare deliver lint ops (g0, s) = (g, s)" "collected g0 ops g" by auto
  moreover have "op = Cancel \<or> (\<exists>i c. op = Append i c)" using snoc.prems(1) by (cases op) auto
  ultimately show ?case
    by (auto simp: session_def perform_def intro: collected_append collected_cancel)
qed (simp add: session_def)

text \<open>After the gate was finalized nothing more is delivered.\<close>

lemma session_finalized:
  assumes "rg_finalized g"
  shows "snd (session prepare deliver lint ops (g, s)) = s"
  using assms
proof (induction ops arbitrary: g)
  case (Cons op ops)
  have "\<exists>g'. perform prepare deliver lint op (g, s) = (g', s) \<and> rg_finalized g'"
    using Cons.prems by (cases op) (auto simp: perform_def append_chunk_def cancel_def finalize_def)
  with Cons.IH show ?case by (auto simp: session_def)
qed (simp add: session_def)

context delivery_sink begin

text \<open>What a session delivers, for any sink of the interface.\<close>

lemma session_delivers:
  assumes "collected g0 [] g0" and "deliveries s0 = []"
    and run: "session prepare deliver lint ops (g0, s0) = (g, s)"
  shows "deliveries s \<in> {[], [rg_report g0]}
    \<or> deliveries s = [sent (before_final ops)] \<and> in_order (before_final ops)
      \<and> length (sent (before_final ops)) \<le> rg_max_bytes g0
      \<and> (\<exists>t. utf8_decode (sent (before_final ops)) = Some t \<and> lint t = Some True)"
proof -
  let ?pre = "before_final ops"
  have pre: "Finalize \<notin> set ?pre" unfolding before_final_def by (auto dest: set_takeWhileD)
  obtain g1 where g1: "session prepare deliver lint ?pre (g0, s0) = (g1, s0)" "collected g0 ?pre g1"
    using session_collects [OF pre assms(1), of prepare deliver lint s0] by blast
  show ?thesis
  proof (cases "ops = ?pre")
    case True
    then have "s = s0" using g1(1) run by (metis prod.inject)
    with assms(2) show ?thesis by simp
  next
    case False
    then obtain post where ops: "ops = ?pre @ Finalize # post"
      using before_final_split [of ops] by blast
    obtain r g2 s2 where fin: "finalize prepare deliver lint g1 s0 = (r, g2, s2)" by (metis surj_pair)
    have "session prepare deliver lint ops (g0, s0) = session prepare deliver lint post (g2, s2)"
      using g1(1) fin by (subst ops) (simp add: session_def perform_def)
    moreover have "rg_finalized g2" using finalize_gate [OF fin] by simp
    ultimately have s: "s = s2" using session_finalized [of g2 prepare deliver lint post s2] run by (metis snd_conv)
    have "verdict lint (g1\<lparr>rg_finalized := True\<rparr>) = None \<Longrightarrow>
        in_order ?pre \<and> rg_buffer g1 = sent ?pre \<and> length (sent ?pre) \<le> rg_max_bytes g0
        \<and> (\<exists>t. utf8_decode (sent ?pre) = Some t \<and> lint t = Some True)"
      using g1(2) by (auto simp: verdict_def collected_def split: option.splits if_splits)
    with finalize_delivers [OF fin] assms(2) g1(2) s show ?thesis by (auto simp: collected_def)
  qed
qed

end

lemma new_gate_collected: "make_gate m report = Inr g \<Longrightarrow> collected g [] g \<and> rg_max_bytes g = nat m \<and> rg_finalized g = False"
  by (auto simp: make_gate_def collected_def in_order_def sent_def split: if_splits option.splits)

section \<open>The property\<close>

text \<open>
  C26. Whatever is done to a response gate, in whatever order, its sink receives at most one payload:
  the report of the block, or exactly the bytes of the chunks sent before it was finalized; the
  latter only when the chunks came in order, nothing was cancelled, they fit the bound, are valid
  UTF-8 and the linter accepted the whole text they encode.
\<close>

theorem delivered_response_verified:
  assumes "make_gate m report = Inr g0" and "session ms_prepare ms_deliver lint ops (g0, empty_sink) = (g, s)"
  shows "ms_deliveries s \<in> {[], [rg_report g0]}
    \<or> ms_deliveries s = [sent (before_final ops)] \<and> in_order (before_final ops)
      \<and> length (sent (before_final ops)) \<le> nat m
      \<and> (\<exists>t. utf8_decode (sent (before_final ops)) = Some t \<and> lint t = Some True)"
  using memory.session_delivers [OF _ _ assms(2)] new_gate_collected [OF assms(1)]
  by (simp add: empty_sink_def)

text \<open>A response in two pieces, the first of which is longer than one byte for a code point.\<close>

definition sample_ops :: "operation list" where
  "sample_ops = [Append 0 (Text [0x53, 0x15A]), Append 1 (Raw [0x21]), Finalize, Append 2 (Text [0x41]), Finalize]"

definition sample_linter :: linter where
  "sample_linter t = Some (t = [0x53, 0x15A, 0x21])"

lemma sample_gate: "make_gate 8 [0x4E] = Inr \<lparr>rg_max_bytes = 8, rg_report = [0x4E], rg_buffer = [], rg_next_index = 0,
    rg_failed_reason = None, rg_finalized = False\<rparr>"
  by (simp add: make_gate_def utf8_encode_def scalar_value_def encode_char_def byte_of_def)

lemma sample_chunks:
  "chunk_bytes (Text [0x53, 0x15A]) = Some [0x53, 0xC5, 0x9A]" "chunk_bytes (Raw [0x21]) = Some [0x21]"
  by (simp_all add: chunk_bytes_def utf8_encode_def scalar_value_def encode_char_def byte_of_def)

lemma sample_text: "utf8_decode [0x53, 0xC5, 0x9A, 0x21] = Some [0x53, 0x15A, 0x21]"
  by (simp add: continuation_def six_def cons_char_def)

theorem delivered_response_verified_witness:
  "\<exists>g0 g s. make_gate 8 [0x4E] = Inr g0 \<and> session ms_prepare ms_deliver sample_linter sample_ops (g0, empty_sink) = (g, s)
     \<and> ms_deliveries s = [[0x53, 0xC5, 0x9A, 0x21]] \<and> ms_deliveries s = [sent (before_final sample_ops)]"
proof -
  obtain g s where run: "session ms_prepare ms_deliver sample_linter sample_ops
      (\<lparr>rg_max_bytes = 8, rg_report = [0x4E], rg_buffer = [], rg_next_index = 0,
        rg_failed_reason = None, rg_finalized = False\<rparr>, empty_sink) = (g, s)"
    by (metis surj_pair)
  have "ms_deliveries s = [[0x53, 0xC5, 0x9A, 0x21]]"
    using run by (auto simp: session_def sample_ops_def perform_def append_chunk_def sample_chunks finalize_def
        verdict_def sample_text sample_linter_def hand_over_def ms_prepare_def ms_deliver_def empty_sink_def
        buffer_result_of_def fail_def Let_def simp del: utf8_decode.simps)
  with run delivered_response_verified [OF sample_gate run] sample_gate show ?thesis by auto
qed

end
