(* ===== verification/Contracts.thy ===== *)
theory Contracts
  imports Validity Json
begin

text \<open>
  \<open>contracts.py\<close>: enforcement profiles, the capabilities a host declares, and the choice of the
  profile that takes effect. The order of the profiles is that of the source's enumeration.
\<close>

datatype enforcement_profile = OBSERVE | ACTION_ENFORCE | ACCEPTED_FINAL | STRICT

definition profiles :: "enforcement_profile list" where
  "profiles = [OBSERVE, ACTION_ENFORCE, ACCEPTED_FINAL, STRICT]"

record host_capabilities =
  hc_schema_version :: int
  hc_per_request_context :: bool
  hc_pre_action_gate :: bool
  hc_atomic_action_token_consume :: bool
  hc_accepted_final_transform :: bool
  hc_exclusive_final_output_gate :: bool
  hc_buffered_stream_delivery :: bool
  hc_bound_approval :: bool
  hc_tool_inventory :: bool

datatype capability =
    Per_Request_Context | Pre_Action_Gate | Atomic_Action_Token_Consume | Accepted_Final_Transform
  | Exclusive_Final_Output_Gate | Buffered_Stream_Delivery | Bound_Approval | Tool_Inventory

fun capability_name :: "capability \<Rightarrow> string" where
  "capability_name Per_Request_Context = ''per_request_context''"
| "capability_name Pre_Action_Gate = ''pre_action_gate''"
| "capability_name Atomic_Action_Token_Consume = ''atomic_action_token_consume''"
| "capability_name Accepted_Final_Transform = ''accepted_final_transform''"
| "capability_name Exclusive_Final_Output_Gate = ''exclusive_final_output_gate''"
| "capability_name Buffered_Stream_Delivery = ''buffered_stream_delivery''"
| "capability_name Bound_Approval = ''bound_approval''"
| "capability_name Tool_Inventory = ''tool_inventory''"

text \<open>\<open>getattr(self, name)\<close>\<close>

fun has_capability :: "host_capabilities \<Rightarrow> capability \<Rightarrow> bool" where
  "has_capability h Per_Request_Context = hc_per_request_context h"
| "has_capability h Pre_Action_Gate = hc_pre_action_gate h"
| "has_capability h Atomic_Action_Token_Consume = hc_atomic_action_token_consume h"
| "has_capability h Accepted_Final_Transform = hc_accepted_final_transform h"
| "has_capability h Exclusive_Final_Output_Gate = hc_exclusive_final_output_gate h"
| "has_capability h Buffered_Stream_Delivery = hc_buffered_stream_delivery h"
| "has_capability h Bound_Approval = hc_bound_approval h"
| "has_capability h Tool_Inventory = hc_tool_inventory h"

fun required_capabilities :: "enforcement_profile \<Rightarrow> capability list" where
  "required_capabilities OBSERVE = []"
| "required_capabilities ACTION_ENFORCE = [Pre_Action_Gate]"
| "required_capabilities ACCEPTED_FINAL = [Pre_Action_Gate, Per_Request_Context, Accepted_Final_Transform]"
| "required_capabilities STRICT =
     [Pre_Action_Gate, Tool_Inventory, Per_Request_Context, Accepted_Final_Transform,
      Atomic_Action_Token_Consume, Exclusive_Final_Output_Gate, Buffered_Stream_Delivery, Bound_Approval]"

definition missing_for :: "host_capabilities \<Rightarrow> enforcement_profile \<Rightarrow> capability list" where
  "missing_for h p = filter (\<lambda>c. \<not> has_capability h c) (required_capabilities p)"

definition maximum_profile :: "host_capabilities \<Rightarrow> enforcement_profile" where
  "maximum_profile h =
     (case find (\<lambda>p. missing_for h p = []) (rev profiles) of None \<Rightarrow> OBSERVE | Some p \<Rightarrow> p)"

record profile_selection =
  ps_schema_version :: int
  ps_requested :: enforcement_profile
  ps_effective :: enforcement_profile
  ps_missing :: "capability list"
  ps_reason_codes :: "string list"
  ps_downgraded :: bool

definition missing_reasons :: "capability list \<Rightarrow> string list" where
  "missing_reasons cs = map (\<lambda>c. ''MISSING_CAPABILITY:'' @ capability_name c) cs"

definition selection ::
  "enforcement_profile \<Rightarrow> enforcement_profile \<Rightarrow> capability list \<Rightarrow> string list \<Rightarrow> bool \<Rightarrow> profile_selection" where
  "selection requested effective lacking reasons downgraded =
     \<lparr>ps_schema_version = 1, ps_requested = requested, ps_effective = effective, ps_missing = lacking,
      ps_reason_codes = reasons, ps_downgraded = downgraded\<rparr>"

definition negotiate_profile ::
  "host_capabilities \<Rightarrow> enforcement_profile \<Rightarrow> bool \<Rightarrow> bool \<Rightarrow> profile_selection" where
  "negotiate_profile h requested allow_diagnostic_downgrade observe_only =
     (let lacking = missing_for h requested; reasons = missing_reasons lacking in
      if observe_only then
        selection requested OBSERVE lacking (''OBSERVE_MODE'' # reasons) (requested \<noteq> OBSERVE)
      else if lacking = [] then selection requested requested [] [''PROFILE_SUPPORTED''] False
      else if requested = OBSERVE then selection requested requested lacking reasons False
      else if \<not> allow_diagnostic_downgrade then
        selection requested OBSERVE lacking (''CAPABILITY_SHORTFALL'' # reasons) True
      else let effective = maximum_profile h in
        selection requested effective lacking (''PROFILE_DOWNGRADED'' # reasons) (effective \<noteq> requested))"

section \<open>What negotiation promises\<close>

definition profile_rank :: "enforcement_profile \<Rightarrow> nat" where
  "profile_rank p = (case p of OBSERVE \<Rightarrow> 0 | ACTION_ENFORCE \<Rightarrow> 1 | ACCEPTED_FINAL \<Rightarrow> 2 | STRICT \<Rightarrow> 3)"

lemma required_mono:
  "profile_rank p \<le> profile_rank q \<Longrightarrow> set (required_capabilities p) \<subseteq> set (required_capabilities q)"
  by (cases p; cases q) (simp_all add: profile_rank_def)

lemma missing_for_Nil: "missing_for h p = [] \<longleftrightarrow> (\<forall>c\<in>set (required_capabilities p). has_capability h c)"
  by (auto simp: missing_for_def filter_empty_conv)

lemma maximum_profile_supported: "missing_for h (maximum_profile h) = []"
  by (auto simp: maximum_profile_def find_Some_iff missing_for_def split: option.splits)

lemma maximum_profile_maximal: "missing_for h p = [] \<Longrightarrow> profile_rank p \<le> profile_rank (maximum_profile h)"
  by (cases p) (auto simp: maximum_profile_def profiles_def profile_rank_def split: option.splits)

text \<open>A profile a host supports it also supports below, so a downgrade is below the request.\<close>

lemma unsupported_below:
  assumes "missing_for h p \<noteq> []" and "missing_for h q = []"
  shows "profile_rank q < profile_rank p"
  using assms required_mono [of p q] by (metis missing_for_Nil not_le subsetD)

text \<open>
  The profile that takes effect is always one the host can enforce: it declares every
  capability the profile requires. It never exceeds the request; it is the request exactly when
  that is supported and the host does not only observe; a permitted downgrade is to the strongest
  supported profile; and the selection says it is a downgrade exactly when the two differ.
\<close>

theorem effective_profile_supported:
  assumes "sel = negotiate_profile h requested allow observe_only"
  shows "(\<forall>c\<in>set (required_capabilities (ps_effective sel)). has_capability h c)
    \<and> profile_rank (ps_effective sel) \<le> profile_rank requested
    \<and> ps_downgraded sel = (ps_effective sel \<noteq> requested)
    \<and> (ps_effective sel = requested) = (missing_for h requested = [] \<and> (observe_only \<longrightarrow> requested = OBSERVE))
    \<and> (\<not> observe_only \<and> allow \<longrightarrow> (\<forall>p. missing_for h p = [] \<and> profile_rank p \<le> profile_rank requested
          \<longrightarrow> profile_rank p \<le> profile_rank (ps_effective sel)))"
proof (cases "observe_only \<or> missing_for h requested = [] \<or> requested = OBSERVE \<or> \<not> allow")
  case True
  moreover have "missing_for h OBSERVE = []" by (simp add: missing_for_def)
  ultimately show ?thesis
    using assms by (auto simp: negotiate_profile_def Let_def selection_def missing_for_Nil profile_rank_def)
next
  case False
  then have "ps_effective sel = maximum_profile h" "ps_downgraded sel = (maximum_profile h \<noteq> requested)"
    using assms by (simp_all add: negotiate_profile_def Let_def selection_def)
  moreover have "profile_rank (maximum_profile h) < profile_rank requested"
    using unsupported_below maximum_profile_supported False by blast
  ultimately show ?thesis
    using False maximum_profile_supported [of h] maximum_profile_maximal [of h] by (auto simp: missing_for_Nil)
qed

definition sample_host :: host_capabilities where
  "sample_host =
     \<lparr>hc_schema_version = 1, hc_per_request_context = True, hc_pre_action_gate = True,
      hc_atomic_action_token_consume = False, hc_accepted_final_transform = True,
      hc_exclusive_final_output_gate = False, hc_buffered_stream_delivery = False,
      hc_bound_approval = True, hc_tool_inventory = True\<rparr>"

theorem effective_profile_supported_witness:
  "\<exists>sel. sel = negotiate_profile sample_host STRICT True False \<and> ps_effective sel = ACCEPTED_FINAL
     \<and> list_all (has_capability sample_host) (required_capabilities (ps_effective sel)) \<and> ps_downgraded sel"
proof -
  have "ps_effective (negotiate_profile sample_host STRICT True False) = ACCEPTED_FINAL" by code_simp
  with effective_profile_supported [of "negotiate_profile sample_host STRICT True False" sample_host STRICT True False]
  show ?thesis by (auto simp: list_all_iff)
qed

section \<open>Episode contexts\<close>

record episode_context =
  ec_schema_version :: int
  ec_session_id :: "string option"
  ec_turn_id :: "string option"
  ec_task_id :: "string option"
  ec_platform :: string
  ec_model :: string
  ec_correlation :: "(string \<times> string) list"

text \<open>\<open>str(value or "").strip() or None\<close>\<close>

definition optional_text :: "json \<Rightarrow> string option" where
  "optional_text v = (let s = strip (if truthy v then py_str v else []) in if s = [] then None else Some s)"

definition or_else :: "string option \<Rightarrow> string \<Rightarrow> string" where
  "or_else v d = (case v of None \<Rightarrow> d | Some s \<Rightarrow> s)"

text \<open>The keys of a mapping are distinct, so sorting the pairs is sorting by key.\<close>

definition normalize_context ::
  "json \<Rightarrow> json \<Rightarrow> json \<Rightarrow> json \<Rightarrow> json \<Rightarrow> (string \<times> json) list \<Rightarrow> episode_context" where
  "normalize_context session turn task plat mdl correlation =
     \<lparr>ec_schema_version = 1, ec_session_id = optional_text session, ec_turn_id = optional_text turn,
      ec_task_id = optional_text task, ec_platform = or_else (optional_text plat) ''unknown'',
      ec_model = or_else (optional_text mdl) ''unknown'',
      ec_correlation = sort_key fst (map (map_prod id py_str)
        (filter (\<lambda>(k, v). v \<noteq> JNull \<and> py_str v \<noteq> []) correlation))\<rparr>"

definition stable_turn_id :: "episode_context \<Rightarrow> string" where
  "stable_turn_id c = (case ec_turn_id c of None \<Rightarrow> ''unidentified-turn'' | Some s \<Rightarrow> if s = [] then ''unidentified-turn'' else s)"

definition persisted_session_id :: "episode_context \<Rightarrow> string" where
  "persisted_session_id c = (case ec_session_id c of None \<Rightarrow> ''unidentified-session'' | Some s \<Rightarrow> if s = [] then ''unidentified-session'' else s)"

definition persisted_task_id :: "episode_context \<Rightarrow> string" where
  "persisted_task_id c = (case ec_task_id c of None \<Rightarrow> ''unidentified-task'' | Some s \<Rightarrow> if s = [] then ''unidentified-task'' else s)"

section \<open>Tool invocations\<close>

record tool_invocation =
  ti_schema_version :: int
  ti_context :: episode_context
  ti_namespace :: string
  ti_name :: string
  ti_arguments :: "(string \<times> json) list"
  ti_description :: string

text \<open>\<open>__post_init__\<close>; freezing a JSON value leaves the value.\<close>

definition make_invocation :: "tool_invocation \<Rightarrow> tool_invocation result" where
  "make_invocation t =
     (if ti_name t = [] \<or> list_ex (\<lambda>c. c = CHR 0x00 \<or> c = CHR 0x0A \<or> c = CHR 0x0D) (ti_name t)
      then Inl (ValueError ''tool name must be a non-empty single-line string'') else Inr t)"

definition normalize_invocation ::
  "episode_context \<Rightarrow> json \<Rightarrow> json \<Rightarrow> json \<Rightarrow> json \<Rightarrow> tool_invocation result" where
  "normalize_invocation ctx name arguments namespace description =
     (case (name, namespace, description) of
        (JStr n, JStr ns, JStr d) \<Rightarrow>
          (case arguments of
             JObj kvs \<Rightarrow>
               make_invocation \<lparr>ti_schema_version = 1, ti_context = ctx, ti_namespace = strip ns, ti_name = strip n,
                 ti_arguments = sort_key fst kvs, ti_description = strip d\<rparr>
           | _ \<Rightarrow> Inl (ValueError ''tool arguments must be a mapping''))
      | _ \<Rightarrow> Inl (ValueError ''tool name, namespace, and description must be strings''))"

text \<open>A normalised invocation has a single-line name without surrounding blanks; normalising what
  it was normalised to changes nothing.\<close>

lemma strip_edges:
  assumes "strip s \<noteq> []"
  shows "\<not> is_space (hd (strip s))" and "\<not> is_space (last (strip s))"
proof -
  have "lstrip s \<noteq> []" using assms by (auto simp: strip_def rstrip_chars_def)
  then show "\<not> is_space (hd (strip s))"
    using assms rstrip_chars_hd [of is_space "lstrip s"] hd_dropWhile [of is_space s] by (simp add: strip_def lstrip_def)
  show "\<not> is_space (last (strip s))" using assms rstrip_chars_last by (simp add: strip_def)
qed

lemma strip_strip [simp]: "strip (strip s) = strip s"
proof (cases "strip s")
  case (Cons c cs)
  then have "lstrip (strip s) = strip s" using strip_edges(1) [of s] by (simp add: lstrip_def)
  moreover have "rstrip_chars is_space (strip s) = strip s" using strip_edges(2) [of s] by (intro rstrip_chars_fixed)
  ultimately show ?thesis by (simp add: strip_def [of "strip s"])
next
  case Nil
  show ?thesis unfolding Nil by (simp add: strip_def lstrip_def rstrip_chars_def)
qed

lemma normalize_invocation_stable:
  assumes "normalize_invocation ctx name arguments namespace description = Inr t"
  shows "normalize_invocation (ti_context t) (JStr (ti_name t)) (JObj (ti_arguments t)) (JStr (ti_namespace t))
    (JStr (ti_description t)) = Inr t"
proof -
  obtain n where n: "name = JStr n" using assms by (cases name) (simp_all add: normalize_invocation_def)
  obtain ns where ns: "namespace = JStr ns" using assms by (cases namespace) (simp_all add: normalize_invocation_def n)
  obtain d where d: "description = JStr d" using assms by (cases description) (simp_all add: normalize_invocation_def n ns)
  obtain kvs where kvs: "arguments = JObj kvs" using assms by (cases arguments) (simp_all add: normalize_invocation_def n ns d)
  have "sort_key fst (sort_key fst kvs) = sort_key fst kvs" by (rule sort_key_id_if_sorted) simp
  with assms n ns d kvs show ?thesis by (auto simp: normalize_invocation_def make_invocation_def split: if_splits)
qed

end
