(* ===== verification/Lint.thy ===== *)
theory Lint
  imports Validity
begin

text \<open>
  \<open>lint/\<close>: the claims of a response (\<open>extract.py\<close>), the beliefs that support them (\<open>match.py\<close>), the
  report (\<open>report.py\<close>) and the policy applied to it (\<open>enforce.py\<close>). The regular expressions are
  written out as scanners over ASCII text: what they match is stated with each.
\<close>

section \<open>Extraction\<close>

text \<open>Covering text with blanks of the same length; a newline is covered too.\<close>

definition blanks :: "nat \<Rightarrow> string" where
  "blanks n = replicate n (CHR '' '')"

text \<open>The length of the text up to and including the first occurrence of \<open>sub\<close>.\<close>

fun through :: "string \<Rightarrow> string \<Rightarrow> nat option" where
  "through sub [] = (if sub = [] then Some 0 else None)"
| "through sub (c # cs) = (if starts_with sub (c # cs) then Some (length sub) else map_option Suc (through sub cs))"

definition FENCE :: string where
  "FENCE = replicate 3 (CHR 0x60)"

text \<open>\<open>```.*?```\<close> with \<open>DOTALL\<close>: how much a fence that starts here covers.\<close>

definition fence_length :: "string \<Rightarrow> nat option" where
  "fence_length s =
     (if starts_with FENCE s then map_option (\<lambda>n. 3 + n) (through FENCE (drop 3 s)) else None)"

text \<open>\<open>`[^`]+`\<close>\<close>

definition inline_length :: "string \<Rightarrow> nat option" where
  "inline_length s =
     (case s of
        [] \<Rightarrow> None
      | c # cs \<Rightarrow>
          let body = takeWhile (\<lambda>d. d \<noteq> CHR 0x60) cs in
          if c = CHR 0x60 \<and> body \<noteq> [] \<and> length body < length cs then Some (length body + 2) else None)"

function mask :: "(string \<Rightarrow> nat option) \<Rightarrow> string \<Rightarrow> string" where
  "mask pattern s =
     (case s of
        [] \<Rightarrow> []
      | c # cs \<Rightarrow>
          (case pattern s of
             Some (Suc n) \<Rightarrow> blanks (Suc n) @ mask pattern (drop (Suc n) s)
           | _ \<Rightarrow> c # mask pattern cs))"
  by pat_completeness auto
termination by (relation "measure (length \<circ> snd)") auto

declare mask.simps [simp del]

text \<open>
  \<open>[^\n]+?(?:[.!?](?=\s|$)|$)\<close>: the rest of a sentence after its first character. Without
  \<open>MULTILINE\<close> the dollar matches at the end of the text and before a newline that ends it, and
  nowhere else.
\<close>

definition terminator :: "char \<Rightarrow> bool" where
  "terminator c = (c = CHR ''.'' \<or> c = CHR ''!'' \<or> c = CHR ''?'')"

fun sentence_tail :: "string \<Rightarrow> nat option" where
  "sentence_tail [] = Some 0"
| "sentence_tail (c # cs) =
     (if terminator c \<and> (cs = [] \<or> is_space (hd cs)) then Some 1
      else if c = CHR 0x0A then (if cs = [] then Some 0 else None)
      else map_option Suc (sentence_tail cs))"

definition sentence_length :: "string \<Rightarrow> nat option" where
  "sentence_length s =
     (case s of [] \<Rightarrow> None | c # cs \<Rightarrow> if c = CHR 0x0A then None else map_option Suc (sentence_tail cs))"

text \<open>\<open>finditer\<close>: the start and the end of every sentence.\<close>

function sentences_from :: "nat \<Rightarrow> string \<Rightarrow> (nat \<times> nat) list" where
  "sentences_from i s =
     (case s of
        [] \<Rightarrow> []
      | c # cs \<Rightarrow>
          (case sentence_length s of
             Some (Suc n) \<Rightarrow> (i, i + Suc n) # sentences_from (i + Suc n) (drop (Suc n) s)
           | _ \<Rightarrow> sentences_from (Suc i) cs))"
  by pat_completeness auto
termination by (relation "measure (length \<circ> snd)") auto

declare sentences_from.simps [simp del]

definition FACTUAL :: "string list" where
  "FACTUAL =
     [''is'', ''are'', ''was'', ''were'', ''has'', ''have'', ''will'', ''does'', ''did'', ''requires'',
      ''supports'', ''contains'', ''exists'', ''equals'', ''implemented'', ''created'', ''updated'', ''fixed'',
      ''passes'', ''uses'', ''runs'', ''depends'', ''depends on'', ''installed'', ''available'', ''failed'',
      ''succeeded'', ''es'', ''son'', ''tiene'', ''requiere'', ''contiene'', ''existe'']"

definition factual :: "string \<Rightarrow> bool" where
  "factual t = list_ex (\<lambda>w. word_search w t) FACTUAL"

definition SPECULATION :: "string list" where
  "SPECULATION = [''speculation'', ''possibly'', ''perhaps'', ''maybe'', ''hypothesis'', ''unverified'']"

text \<open>\<open>^\s*(?:[-*]\s*)?\<close>\<close>

definition skip_bullet :: "string \<Rightarrow> string" where
  "skip_bullet s =
     (case lstrip s of
        [] \<Rightarrow> []
      | c # cs \<Rightarrow> if c = CHR ''-'' \<or> c = CHR ''*'' then lstrip cs else c # cs)"

definition speculative :: "string \<Rightarrow> bool" where
  "speculative t =
     (let s = casefold (skip_bullet t) in
      list_ex (\<lambda>w. starts_with w s \<and> starts_with '':'' (lstrip (drop (length w) s))) SPECULATION)"

text \<open>\<open>\[(b_[A-Za-z0-9_-]+)\]\<close>: the identifier of a citation that starts here.\<close>

definition citation_char :: "char \<Rightarrow> bool" where
  "citation_char c = (is_word_char c \<or> c = CHR ''-'')"

definition citation_at :: "string \<Rightarrow> string option" where
  "citation_at s =
     (if starts_with ''[b_'' s
      then let name = takeWhile citation_char (drop 3 s) in
        if name \<noteq> [] \<and> starts_with '']'' (drop (3 + length name) s) then Some (''b_'' @ name) else None
      else None)"

function citations :: "string \<Rightarrow> string list" where
  "citations s =
     (case s of
        [] \<Rightarrow> []
      | c # cs \<Rightarrow> (case citation_at s of None \<Rightarrow> citations cs | Some b \<Rightarrow> b # citations (drop (length b + 1) cs)))"
  by pat_completeness auto
termination by (relation "measure length") auto

function drop_citations :: "string \<Rightarrow> string" where
  "drop_citations s =
     (case s of
        [] \<Rightarrow> []
      | c # cs \<Rightarrow>
          (case citation_at s of None \<Rightarrow> c # drop_citations cs | Some b \<Rightarrow> drop_citations (drop (length b + 1) cs)))"
  by pat_completeness auto
termination by (relation "measure length") auto

declare citations.simps [simp del] drop_citations.simps [simp del]

text \<open>\<open>tuple(dict.fromkeys(xs))\<close>\<close>

definition first_occurrences :: "'a list \<Rightarrow> 'a list" where
  "first_occurrences xs = rev (remdups (rev xs))"

lemma set_first_occurrences [simp]: "set (first_occurrences xs) = set xs"
  by (simp add: first_occurrences_def)

definition looks_substantive :: "string \<Rightarrow> bool" where
  "looks_substantive t =
     (let clean = strip (skip_bullet (drop_citations t)) in
      find_tokens clean \<noteq> []
      \<and> casefold clean \<notin> set [''thanks'', ''thank you'', ''ok'', ''okay'', ''done'', ''hello'', ''goodbye''])"

record extracted_claim =
  xc_text :: string
  xc_start :: nat
  xc_end :: nat
  xc_cited_beliefs :: "string list"
  xc_pending_marked :: bool

definition slice :: "string \<Rightarrow> nat \<times> nat \<Rightarrow> string" where
  "slice s ij = take (snd ij - fst ij) (drop (fst ij) s)"

definition claim_at :: "string \<Rightarrow> string \<Rightarrow> bool \<Rightarrow> nat \<times> nat \<Rightarrow> extracted_claim option" where
  "claim_at response marker coverage ij =
     (let t = strip (slice response ij) in
      if t = [] \<or> last t = CHR ''?'' \<or> hd t = CHR ''#'' \<or> speculative t then None
      else if \<not> factual t \<and> \<not> (coverage \<and> looks_substantive t) then None
      else Some \<lparr>xc_text = t, xc_start = fst ij, xc_end = snd ij,
                 xc_cited_beliefs = first_occurrences (citations t),
                 xc_pending_marked = contains (casefold marker) (casefold t)\<rparr>)"

definition masked :: "string \<Rightarrow> bool \<Rightarrow> string" where
  "masked response coverage = mask inline_length (if coverage then response else mask fence_length response)"

definition extract_claims :: "string \<Rightarrow> string \<Rightarrow> bool \<Rightarrow> extracted_claim list" where
  "extract_claims response marker coverage =
     List.map_filter (claim_at response marker coverage) (sentences_from 0 (masked response coverage))"

text \<open>Removing every occurrence of the marker, ignoring case\<close>

function drop_marker :: "string \<Rightarrow> string \<Rightarrow> string" where
  "drop_marker m s =
     (case s of
        [] \<Rightarrow> []
      | c # cs \<Rightarrow>
          if m \<noteq> [] \<and> starts_with (casefold m) (casefold s) then drop_marker m (drop (length m) s)
          else c # drop_marker m cs)"
  by pat_completeness auto
termination by (relation "measure (length \<circ> snd)") auto

declare drop_marker.simps [simp del]

definition strip_citations :: "string \<Rightarrow> string \<Rightarrow> string" where
  "strip_citations t marker =
     rstrip_chars trailing (dropWhile trailing (collapse_spaces (drop_marker marker (drop_citations t))))"

section \<open>Matching\<close>

definition deterministic_entailment :: "string \<Rightarrow> string \<Rightarrow> bool" where
  "deterministic_entailment claim held =
     (let left = normalize_content claim; right = normalize_content held in
      if left = [] \<or> right = [] then False
      else if left = right then True
      else find_tokens left \<noteq> [] \<and> find_tokens left = find_tokens right)"

text \<open>Why a citation does not count, if it does not.\<close>

definition citation_problem :: "(string \<times> belief) list \<Rightarrow> bool \<Rightarrow> string \<Rightarrow> string \<Rightarrow> string option" where
  "citation_problem beliefs pending_marked marker i =
     (case map_of beliefs i of
        None \<Rightarrow> Some (''missing citation '' @ i)
      | Some b \<Rightarrow>
          if b_status b = OUT \<or> b_status b = QUARANTINED
          then Some (''citation '' @ i @ '' is '' @ status_value (b_status b))
          else if b_status b = PENDING \<and> \<not> pending_marked
          then Some (''pending citation '' @ i @ '' lacks '' @ marker)
          else None)"

definition vikalpa :: "extracted_claim \<Rightarrow> string list \<Rightarrow> string \<Rightarrow> lint_claim" where
  "vikalpa x supporting reason =
     \<lparr>claim_text = xc_text x, disposition = VIKALPA, cited_beliefs = xc_cited_beliefs x,
      supporting_beliefs = supporting, claim_reason = reason\<rparr>"

definition uncited_support :: "extracted_claim \<Rightarrow> string \<Rightarrow> belief \<Rightarrow> string option" where
  "uncited_support x claim b =
     (if b_status b = IN \<and> deterministic_entailment claim (content b)
      then Some ''active belief entails claim but its required citation was omitted''
      else if b_status b = PENDING \<and> xc_pending_marked x \<and> deterministic_entailment claim (content b)
      then Some ''pending belief entails claim but its required citation was omitted''
      else None)"

definition match_claim :: "extracted_claim \<Rightarrow> (string \<times> belief) list \<Rightarrow> string \<Rightarrow> lint_claim" where
  "match_claim x beliefs marker =
     (let problem = citation_problem beliefs (xc_pending_marked x) marker;
          valid = List.map_filter (\<lambda>i. if problem i = None then map_option (Pair i) (map_of beliefs i) else None)
                    (xc_cited_beliefs x);
          clean = strip_citations (xc_text x) marker in
      case find (\<lambda>(i, b). deterministic_entailment clean (content b)) valid of
        Some (i, b) \<Rightarrow>
          \<lparr>claim_text = xc_text x, disposition = (if b_status b = PENDING then PENDING_MARKED else GROUNDED),
           cited_beliefs = xc_cited_beliefs x, supporting_beliefs = [i],
           claim_reason = ''valid citation deterministically entails claim''\<rparr>
      | None \<Rightarrow>
          (case find (\<lambda>b. uncited_support x clean b \<noteq> None) (sort_key b_id (map snd beliefs)) of
             Some b \<Rightarrow> vikalpa x [b_id b] (case uncited_support x clean b of Some r \<Rightarrow> r | None \<Rightarrow> [])
           | None \<Rightarrow>
               (let reasons = List.map_filter problem (xc_cited_beliefs x) in
                vikalpa x [] (if reasons = [] then ''no active belief entails claim'' else join_with ''; '' reasons))))"

section \<open>The report\<close>

text \<open>A dictionary by id: a later belief of an id replaces an earlier one.\<close>

definition beliefs_by_id :: "belief list \<Rightarrow> (string \<times> belief) list" where
  "beliefs_by_id bs = fold (\<lambda>b. AList.update (b_id b) b) bs []"

definition lint_response :: "string \<Rightarrow> belief list \<Rightarrow> string \<Rightarrow> bool \<Rightarrow> lint_report" where
  "lint_response response beliefs marker coverage =
     (let cs = map (\<lambda>x. match_claim x (beliefs_by_id beliefs) marker) (extract_claims response marker coverage) in
      \<lparr>claims = cs,
       passed = list_all (\<lambda>c. disposition c = GROUNDED \<or> disposition c = PENDING_MARKED) cs
                \<and> \<not> (coverage \<and> strip response \<noteq> [] \<and> cs = []),
       replacement = None, warnings = []\<rparr>)"

section \<open>Enforcement\<close>

definition unsupported :: "lint_report \<Rightarrow> lint_claim list" where
  "unsupported r = filter (\<lambda>c. disposition c = VIKALPA) (claims r)"

text \<open>\<open>result.replace(old, new, 1)\<close>\<close>

fun replace_first :: "string \<Rightarrow> string \<Rightarrow> string \<Rightarrow> string" where
  "replace_first old new [] = (if old = [] then new else [])"
| "replace_first old new (c # cs) =
     (if starts_with old (c # cs) then new @ drop (length old) (c # cs) else c # replace_first old new cs)"

definition mark_unsupported :: "string \<Rightarrow> lint_report \<Rightarrow> string" where
  "mark_unsupported response r =
     fold (\<lambda>t s. replace_first t (''speculation: '' @ t) s) (first_occurrences (map claim_text (unsupported r))) response"

definition NEWLINE :: string where
  "NEWLINE = [CHR 0x0A]"

definition blocked_report :: "lint_report \<Rightarrow> lint_report" where
  "blocked_report r =
     (let lacking = map (\<lambda>c. ''- unsupported candidate: '' @ take 240 (claim_text c)) (unsupported r) in
      \<lparr>claims = claims r, passed = False,
       replacement = Some (''Response blocked by belief-ledger grounding policy.'' @ NEWLINE @ NEWLINE
         @ (if lacking = [] then ''- grounding evaluation failed'' else join_with NEWLINE lacking)
         @ NEWLINE @ NEWLINE
         @ ''Safe next step: obtain read-only evidence for each candidate, then answer from IN beliefs.''),
       warnings = [''high-stakes response blocked'']\<rparr>)"

definition accepted :: "lint_claim list \<Rightarrow> string option \<Rightarrow> string \<Rightarrow> lint_report" where
  "accepted cs t warning = \<lparr>claims = cs, passed = True, replacement = t, warnings = [warning]\<rparr>"

definition marked_or_blocked :: "lint_report \<Rightarrow> string \<Rightarrow> string \<Rightarrow> lint_report" where
  "marked_or_blocked checked marked warning =
     (if \<not> passed checked then blocked_report checked else accepted (claims checked) (Some marked) warning)"

text \<open>
  The re-lint and the rewrite may be absent; a rewrite that raises is \<open>None\<close>.
\<close>

definition enforce_report ::
  "string \<Rightarrow> lint_report \<Rightarrow> stakes \<Rightarrow> (string \<times> string) list \<Rightarrow> (string \<Rightarrow> lint_report) option
     \<Rightarrow> (string \<Rightarrow> string option) option \<Rightarrow> int \<Rightarrow> lint_report result" where
  "enforce_report response r st policy relint rewrite_once max_attempts =
     (if passed r then Inr r
      else and_then (dict_item policy (stakes_value st)) (\<lambda>action.
        if action = ''allow'' \<or> action = ''annotate'' then
          (let warning = ''Grounding warning: '' @ show_nat (length (unsupported r)) @ '' unsupported factual claim(s).'' in
           Inr (accepted (claims r)
             (if action = ''annotate'' then Some (response @ NEWLINE @ NEWLINE @ warning) else None) warning))
        else case relint of
          None \<Rightarrow> Inr (blocked_report r)
        | Some lint \<Rightarrow>
            if action \<noteq> ''rewrite_once'' then Inr (blocked_report r)
            else case (if 0 < max_attempts then rewrite_once else None) of
              None \<Rightarrow>
                (let fallback = mark_unsupported response r in
                 Inr (marked_or_blocked (lint fallback) fallback ''unsupported clauses marked''))
            | Some rewrite \<Rightarrow>
                (case rewrite response of
                   None \<Rightarrow>
                     (let fallback = mark_unsupported response r in
                      Inr (marked_or_blocked (lint fallback) fallback
                        ''rewrite unavailable; unsupported clauses marked''))
                 | Some rewritten \<Rightarrow>
                     (let second = lint rewritten in
                      if passed second then Inr (accepted (claims second) (Some rewritten) ''response rewritten once'')
                      else let fallback = mark_unsupported rewritten second in
                        Inr (marked_or_blocked (lint fallback) fallback
                          ''unsupported clauses marked after one rewrite'')))))"

definition linter_failure_response :: "stakes \<Rightarrow> string \<Rightarrow> string" where
  "linter_failure_response st original =
     (if st = HIGH \<or> st = CRITICAL
      then ''Response blocked because the grounding linter was unavailable. ''
        @ ''No high-stakes factual answer was accepted; retry after ledger diagnostics pass.''
      else original @ NEWLINE @ NEWLINE @ ''Grounding warning: the belief-ledger linter was unavailable.'')"

end
