(* ===== verification/Lint_Props.thy ===== *)
theory Lint_Props
  imports Lint
begin

text \<open>
  What the linter promises: a response that passes rests, claim by claim, on cited beliefs that
  hold; enforcement returns nothing it has not checked. And what it does not see: a line that ends
  without a full stop and is not the last.
\<close>

section \<open>Grounded claims\<close>

lemma map_of_fold_update: "map_of (fold (\<lambda>b. AList.update (k b) b) bs xs) i = Some b \<Longrightarrow>
    b \<in> set bs \<and> k b = i \<or> map_of xs i = Some b"
proof (induction bs arbitrary: xs)
  case (Cons a bs)
  from Cons.IH [of "AList.update (k a) a xs"] Cons.prems
  consider "b \<in> set bs" "k b = i" | "map_of (AList.update (k a) a xs) i = Some b" by auto
  then show ?case by cases (auto simp: update_conv' split: if_splits)
qed simp

lemma beliefs_by_id_Some: "map_of (beliefs_by_id bs) i = Some b \<Longrightarrow> b \<in> set bs \<and> b_id b = i"
  using map_of_fold_update [of b_id bs "[]" i b] by (simp add: beliefs_by_id_def)

lemma entailment_tokens:
  "deterministic_entailment s t \<Longrightarrow> find_tokens (normalize_content s) = find_tokens (normalize_content t)"
  by (auto simp: deterministic_entailment_def Let_def split: if_splits)

text \<open>A belief that supports a claim: cited by it, holding, and saying the same.\<close>

definition cites_support :: "belief list \<Rightarrow> string \<Rightarrow> extracted_claim \<Rightarrow> bool" where
  "cites_support bs marker x \<longleftrightarrow>
     (\<exists>b\<in>set bs. b_id b \<in> set (xc_cited_beliefs x)
        \<and> (b_status b = IN \<or> b_status b = PENDING \<and> xc_pending_marked x)
        \<and> find_tokens (normalize_content (strip_citations (xc_text x) marker)) = find_tokens (normalize_content (content b)))"

lemma set_map_filter: "set (List.map_filter f xs) = {y. \<exists>x\<in>set xs. f x = Some y}"
  by (force simp: List.map_filter_def)

lemma match_claim_grounded:
  assumes "disposition (match_claim x (beliefs_by_id bs) marker) \<in> {GROUNDED, PENDING_MARKED}"
  shows "cites_support bs marker x"
proof -
  let ?problem = "citation_problem (beliefs_by_id bs) (xc_pending_marked x) marker"
  let ?valid = "List.map_filter (\<lambda>i. if ?problem i = None then map_option (Pair i) (map_of (beliefs_by_id bs) i) else None)
      (xc_cited_beliefs x)"
  let ?clean = "strip_citations (xc_text x) marker"
  have "find (\<lambda>(i, b). deterministic_entailment ?clean (content b)) ?valid \<noteq> None"
    using assms by (auto simp: match_claim_def vikalpa_def Let_def split: option.splits if_splits)
  then obtain i b where "(i, b) \<in> set ?valid" and same: "deterministic_entailment ?clean (content b)"
    by (auto simp: find_None_iff)
  then have i: "i \<in> set (xc_cited_beliefs x)" "?problem i = None" "map_of (beliefs_by_id bs) i = Some b"
    by (auto simp: set_map_filter split: if_splits)
  then have "b_status b = IN \<or> b_status b = PENDING \<and> xc_pending_marked x"
    by (cases "b_status b") (auto simp: citation_problem_def split: if_splits)
  with i(1) beliefs_by_id_Some [OF i(3)] entailment_tokens [OF same] show ?thesis
    unfolding cites_support_def by blast
qed

lemma passed_grounded:
  "passed (lint_response response bs marker coverage) \<Longrightarrow> x \<in> set (extract_claims response marker coverage)
     \<Longrightarrow> cites_support bs marker x"
  by (intro match_claim_grounded) (auto simp: lint_response_def Let_def list_all_iff)

section \<open>Lines the linter does not see\<close>

lemma mask_skip:
  "\<forall>c\<in>set line. c \<noteq> CHR 0x60 \<Longrightarrow> (\<And>c s. c \<noteq> CHR 0x60 \<Longrightarrow> pattern (c # s) = None) \<Longrightarrow>
     mask pattern (line @ s) = line @ mask pattern s"
  by (induction line) (simp_all add: mask.simps [of pattern "_ # _"])

lemma patterns_need_backtick:
  "c \<noteq> CHR 0x60 \<Longrightarrow> fence_length (c # s) = None" "c \<noteq> CHR 0x60 \<Longrightarrow> inline_length (c # s) = None"
  by (simp_all add: fence_length_def FENCE_def inline_length_def numeral_3_eq_3)

lemma masked_skip: "\<forall>c\<in>set line. c \<noteq> CHR 0x60 \<Longrightarrow> masked (line @ s) coverage = line @ masked s coverage"
  by (simp add: masked_def mask_skip patterns_need_backtick)

lemma mask_Nil: "mask pattern s = [] \<longleftrightarrow> s = []"
  by (simp add: mask.simps [of pattern s] blanks_def split: list.splits option.splits nat.splits)

lemma extract_claims_Nil [simp]: "extract_claims [] marker coverage = []"
  by (simp add: extract_claims_def masked_def mask.simps [of _ "[]"] sentences_from.simps [of 0 "[]"] List.map_filter_def)

definition plain_line :: "string \<Rightarrow> bool" where
  "plain_line line \<longleftrightarrow> (\<forall>c\<in>set line. \<not> terminator c \<and> c \<noteq> CHR 0x0A \<and> c \<noteq> CHR 0x60)"

lemma sentence_tail_plain: "plain_line line \<Longrightarrow> s \<noteq> [] \<Longrightarrow> sentence_tail (line @ CHR 0x0A # s) = None"
  by (induction line) (simp_all add: plain_line_def terminator_def)

lemma sentences_skip:
  "plain_line line \<Longrightarrow> s \<noteq> [] \<Longrightarrow>
     sentences_from i (line @ CHR 0x0A # s) = sentences_from (i + length line + 1) s"
proof (induction line arbitrary: i)
  case Nil
  then show ?case by (simp add: sentences_from.simps [of i "CHR 0x0A # s"] sentence_length_def)
next
  case (Cons c line)
  then have "sentence_length ((c # line) @ CHR 0x0A # s) = None"
    using sentence_tail_plain [of line s] by (simp add: sentence_length_def plain_line_def)
  then have "sentences_from i ((c # line) @ CHR 0x0A # s) = sentences_from (Suc i) (line @ CHR 0x0A # s)"
    by (simp add: sentences_from.simps [of i "c # line @ CHR 0x0A # s"])
  with Cons show ?case by (simp add: plain_line_def)
qed

lemma sentences_shift: "sentences_from (i + k) s = map (\<lambda>(a, b). (a + k, b + k)) (sentences_from i s)"
proof (induction s arbitrary: i rule: length_induct)
  case (1 s)
  show ?case
  proof (cases s)
    case (Cons c cs)
    have IH: "length t < length s \<Longrightarrow> sentences_from (j + k) t = map (\<lambda>(a, b). (a + k, b + k)) (sentences_from j t)" for t j
      using 1 by blast
    show ?thesis
    proof (cases "sentence_length s")
      case None
      with IH [of cs "Suc i"] Cons show ?thesis
        by (simp add: sentences_from.simps [of "i + k" "c # cs"] sentences_from.simps [of i "c # cs"])
    next
      case (Some n)
      show ?thesis
      proof (cases n)
        case 0
        with Some IH [of cs "Suc i"] Cons show ?thesis
          by (simp add: sentences_from.simps [of "i + k" "c # cs"] sentences_from.simps [of i "c # cs"])
      next
        case (Suc m)
        with Some IH [of "drop (Suc m) s" "i + Suc m"] Cons show ?thesis
          by (simp add: sentences_from.simps [of "i + k" "c # cs"] sentences_from.simps [of i "c # cs"] ac_simps)
      qed
    qed
  qed (simp add: sentences_from.simps)
qed

lemma slice_shift: "slice (xs @ s) (a + length xs, b + length xs) = slice s (a, b)"
  by (simp add: slice_def)

text \<open>What a claim says does not depend on where it stands.\<close>

definition claim_body :: "extracted_claim \<Rightarrow> string \<times> string list \<times> bool" where
  "claim_body x = (xc_text x, xc_cited_beliefs x, xc_pending_marked x)"

lemma map_filter_map: "List.map_filter f (map g xs) = List.map_filter (f \<circ> g) xs"
  by (simp add: List.map_filter_def filter_map comp_def)

lemma map_map_filter: "map g (List.map_filter f xs) = List.map_filter (map_option g \<circ> f) xs"
  by (induction xs) (auto simp: List.map_filter_def)

lemma claim_at_shift:
  "map_option claim_body (claim_at (xs @ s) marker coverage (a + length xs, b + length xs)) =
   map_option claim_body (claim_at s marker coverage (a, b))"
  by (simp add: claim_at_def slice_shift Let_def claim_body_def)

lemma extract_claims_skip:
  assumes "plain_line line" and "s \<noteq> []"
  shows "map claim_body (extract_claims (line @ CHR 0x0A # s) marker coverage) = map claim_body (extract_claims s marker coverage)"
proof -
  let ?n = "length (line @ [CHR 0x0A])"
  have "\<forall>c\<in>set (line @ [CHR 0x0A]). c \<noteq> CHR 0x60" using assms(1) by (auto simp: plain_line_def)
  then have "masked (line @ CHR 0x0A # s) coverage = line @ CHR 0x0A # masked s coverage"
    using masked_skip [of "line @ [CHR 0x0A]" s coverage] by simp
  moreover have "masked s coverage \<noteq> []" using assms(2) by (simp add: masked_def mask_Nil)
  ultimately have "sentences_from 0 (masked (line @ CHR 0x0A # s) coverage) =
      map (\<lambda>(a, b). (a + ?n, b + ?n)) (sentences_from 0 (masked s coverage))"
    using sentences_skip [OF assms(1), of "masked s coverage" 0] sentences_shift [of 0 ?n "masked s coverage"] by simp
  moreover have "map_option claim_body \<circ> claim_at (line @ CHR 0x0A # s) marker coverage \<circ> (\<lambda>(a, b). (a + ?n, b + ?n)) =
      map_option claim_body \<circ> claim_at s marker coverage"
    using claim_at_shift [of "line @ [CHR 0x0A]" s marker coverage] by (auto simp: fun_eq_iff)
  ultimately show ?thesis
    by (simp only: extract_claims_def map_map_filter map_filter_map comp_assoc)
qed

lemma match_claim_body: "claim_body x = claim_body y \<Longrightarrow> match_claim x beliefs marker = match_claim y beliefs marker"
proof -
  assume "claim_body x = claim_body y"
  then have eq: "xc_text x = xc_text y" "xc_cited_beliefs x = xc_cited_beliefs y"
    "xc_pending_marked x = xc_pending_marked y"
    by (simp_all add: claim_body_def)
  have "vikalpa x = vikalpa y" "uncited_support x = uncited_support y"
    by (intro ext; simp add: vikalpa_def uncited_support_def eq)+
  then show ?thesis by (simp only: match_claim_def eq)
qed

lemma map_match_claim:
  "map claim_body xs = map claim_body ys \<Longrightarrow> map (\<lambda>x. match_claim x beliefs marker) xs = map (\<lambda>x. match_claim x beliefs marker) ys"
  by (induction xs ys rule: list_induct2') (simp_all, blast intro: match_claim_body)

section \<open>Enforcement\<close>

lemma marked_or_blocked_cases:
  "marked_or_blocked (lint t) t w = out \<Longrightarrow>
     passed (lint t) \<and> out = accepted (claims (lint t)) (Some t) w \<or> (\<exists>r. out = blocked_report r)"
  by (metis marked_or_blocked_def)

text \<open>Under a policy that neither allows nor annotates, a failed report is answered by checked text or a block.\<close>

lemma enforce_report_cases:
  assumes "enforce_report response r st policy relint rewrite n = Inr out" and "\<not> passed r"
    and "dict_item policy (stakes_value st) = Inr action" and "action \<notin> {''allow'', ''annotate''}"
  obtains lint t w where "relint = Some lint" "passed (lint t)" "out = accepted (claims (lint t)) (Some t) w"
    | r' where "out = blocked_report r'"
proof (cases relint)
  case None
  with assms have "out = blocked_report r" by (simp add: enforce_report_def)
  then show thesis by (rule that(2))
next
  case (Some lint)
  from assms Some consider r' where "out = blocked_report r'"
    | t w where "marked_or_blocked (lint t) t w = out"
    | t w where "passed (lint t)" "out = accepted (claims (lint t)) (Some t) w"
    by (simp add: enforce_report_def Let_def split: if_splits option.splits) blast+
  then show thesis
    using that Some marked_or_blocked_cases [of lint] by cases blast+
qed

lemma blocked_text:
  "\<exists>more. replacement (blocked_report r) = Some (''Response blocked by belief-ledger grounding policy.'' @ more)
     \<and> \<not> passed (blocked_report r)"
  by (simp add: blocked_report_def Let_def)

text \<open>
  C27. A response that passes the linter is grounded: every claim extracted from it cites a belief of
  the ledger that is IN, or PENDING and marked as such, and whose content has the same tokens in the
  same order; with coverage required, a response with text in it has at least one claim.
\<close>

theorem passed_response_grounded:
  assumes "passed (lint_response response bs marker coverage)"
  shows "(\<forall>x\<in>set (extract_claims response marker coverage). cites_support bs marker x)
    \<and> (coverage \<and> strip response \<noteq> [] \<longrightarrow> extract_claims response marker coverage \<noteq> [])"
  using passed_grounded [OF assms] assms by (auto simp: lint_response_def Let_def)

definition sample_belief :: "string \<Rightarrow> status \<Rightarrow> string \<Rightarrow> belief" where
  "sample_belief i st t =
     \<lparr>b_id = i, b_episode_id = ''ep'', content = t, normalized_content = normalize_content t,
      b_pramana = PRATYAKSHA, b_source_id = ''s'', b_evidence = [], b_justifications = [], qualifiers = [],
      b_perishability = SLOW, observed_at = Aware 0, b_stakes = LOW, b_status = st,
      admission_status = st, domain = ''d'', confidence = None, corroboration = 0, validity = []\<rparr>"

lemma sample_passes: "passed (lint_response ''The cache is up [b_1].'' [sample_belief ''b_1'' IN ''the cache is up''] ''(unverified)'' True)"
  by code_simp

lemma sample_claim: "map xc_cited_beliefs (extract_claims ''The cache is up [b_1].'' ''(unverified)'' True) = [[''b_1'']]"
  by code_simp

theorem passed_response_grounded_witness:
  "\<exists>x. extract_claims ''The cache is up [b_1].'' ''(unverified)'' True = [x] \<and> xc_cited_beliefs x = [''b_1'']
     \<and> cites_support [sample_belief ''b_1'' IN ''the cache is up''] ''(unverified)'' x"
proof -
  obtain x where "extract_claims ''The cache is up [b_1].'' ''(unverified)'' True = [x]" "xc_cited_beliefs x = [''b_1'']"
    using sample_claim by auto
  with passed_response_grounded [OF sample_passes] show ?thesis by auto
qed

text \<open>
  Enforcement returns nothing unchecked: for a report that failed, under a policy that neither
  allows nor annotates, the text that is delivered instead either passes the linter itself, so that
  each of its claims is grounded, or is the message of the block.
\<close>

theorem enforced_text_checked:
  assumes "enforce_report response r st policy (Some (\<lambda>t. lint_response t bs marker coverage)) rewrite n = Inr out"
    and "\<not> passed r" and "dict_item policy (stakes_value st) = Inr action" and "action \<notin> {''allow'', ''annotate''}"
  shows "\<exists>t. replacement out = Some t
    \<and> (if passed out then \<forall>x\<in>set (extract_claims t marker coverage). cites_support bs marker x
       else \<exists>more. t = ''Response blocked by belief-ledger grounding policy.'' @ more)"
  using assms
proof (cases rule: enforce_report_cases)
  case (1 lint t w)
  then have "lint = (\<lambda>t. lint_response t bs marker coverage)" by simp
  with 1 passed_grounded [of t bs marker coverage] show ?thesis by (auto simp: accepted_def)
next
  case (2 r')
  with blocked_text [of r'] show ?thesis by auto
qed

theorem enforced_text_checked_witness:
  "\<exists>out t. enforce_report ''The cache is up.'' (lint_response ''The cache is up.'' [] ''(unverified)'' True) HIGH
       [(''high'', ''rewrite_once'')] (Some (\<lambda>t. lint_response t [] ''(unverified)'' True)) None 1 = Inr out
     \<and> replacement out = Some t
     \<and> (passed out \<or> (\<exists>more. t = ''Response blocked by belief-ledger grounding policy.'' @ more))"
proof -
  let ?r = "lint_response ''The cache is up.'' [] ''(unverified)'' True"
  have p: "dict_item [(''high'', ''rewrite_once'')] (stakes_value HIGH) = Inr ''rewrite_once''" by (simp add: dict_item_def)
  have "\<not> passed ?r" by code_simp
  then have "\<exists>out. enforce_report ''The cache is up.'' ?r HIGH
       [(''high'', ''rewrite_once'')] (Some (\<lambda>t. lint_response t [] ''(unverified)'' True)) None 1 = Inr out"
    by (simp add: enforce_report_def p Let_def del: stakes_value.simps)
  then obtain out where "enforce_report ''The cache is up.'' ?r HIGH
       [(''high'', ''rewrite_once'')] (Some (\<lambda>t. lint_response t [] ''(unverified)'' True)) None 1 = Inr out" ..
  from enforced_text_checked [OF this \<open>\<not> passed ?r\<close> p] this show ?thesis by (auto split: if_splits)
qed

text \<open>
  A line the linter does not see: what stands before a line break is read as a claim only when a
  full stop, exclamation or question mark ends it there. A line without one adds no claim, so a
  response passes with it exactly when it passes without, however it is cited, also when coverage of
  all prose is required.
\<close>

theorem unterminated_line_unseen:
  assumes "plain_line line" and "claims (lint_response rest bs marker coverage) \<noteq> []"
  shows "lint_response (line @ CHR 0x0A # rest) bs marker coverage = lint_response rest bs marker coverage"
proof -
  have "rest \<noteq> []"
    using assms(2) by (auto simp: lint_response_def Let_def extract_claims_Nil)
  from map_match_claim [OF extract_claims_skip [OF assms(1) this]] assms(2)
  show ?thesis by (cases coverage) (simp_all add: lint_response_def Let_def)
qed

theorem unterminated_line_unseen_witness:
  "passed (lint_response (''- The database is down'' @ CHR 0x0A # ''The cache is up [b_1].'')
     [sample_belief ''b_1'' IN ''the cache is up''] ''(unverified)'' True)"
proof -
  have "plain_line ''- The database is down''" by code_simp
  moreover have "claims (lint_response ''The cache is up [b_1].'' [sample_belief ''b_1'' IN ''the cache is up''] ''(unverified)'' True) \<noteq> []"
    by code_simp
  ultimately have "lint_response (''- The database is down'' @ CHR 0x0A # ''The cache is up [b_1].'')
      [sample_belief ''b_1'' IN ''the cache is up''] ''(unverified)'' True
    = lint_response ''The cache is up [b_1].'' [sample_belief ''b_1'' IN ''the cache is up''] ''(unverified)'' True"
    by (rule unterminated_line_unseen)
  with sample_passes show ?thesis by simp
qed

end
