(* ===== verification/Context.thy ===== *)
theory Context
  imports Priority Validity "HOL-Library.Product_Lexorder"
begin

text \<open>
  \<open>context/\<close>: the beliefs a request sees (\<open>select.py\<close>), the budget of characters (\<open>budget.py\<close>) and
  the text (\<open>render.py\<close>). The texts of floats and timestamps are parameters. The few characters
  outside ASCII the text has are single characters of the model, named below.
\<close>

section \<open>Budget\<close>

record budget =
  bg_maximum :: int
  bg_parts :: "string list"
  bg_used :: nat
  bg_truncated :: bool

definition new_budget :: "int \<Rightarrow> budget" where
  "new_budget m = \<lparr>bg_maximum = m, bg_parts = [], bg_used = 0, bg_truncated = False\<rparr>"

definition NL :: string where
  "NL = [CHR 0x0A]"

text \<open>Whether the text is mandatory makes no difference to what happens.\<close>

definition budget_add :: "string \<Rightarrow> budget \<Rightarrow> bool \<times> budget" where
  "budget_add t w =
     (let separator = (if bg_parts w = [] then [] else NL);
          needed = length separator + length t in
      if int (bg_used w + needed) \<le> bg_maximum w
      then (True, w\<lparr>bg_parts := bg_parts w @ (if separator = [] then [] else [separator]) @ [t],
                    bg_used := bg_used w + needed\<rparr>)
      else (False, w\<lparr>bg_truncated := True\<rparr>))"

definition budget_render :: "budget \<Rightarrow> string" where
  "budget_render w = concat (bg_parts w)"

section \<open>Selection\<close>

record retraction_notice =
  rn_id :: string
  rn_episode_id :: string
  rn_defeated_belief_id :: string
  rn_cause :: string
  rn_descendants :: "string list"
  rn_created_turn :: int
  rn_ttl_turns :: int
  rn_state :: string

record context_config =
  cx_max_beliefs :: int
  cx_max_graph_depth :: int
  cx_pending_only_when_relevant :: bool
  cx_max_chars :: int
  cx_pending_marker :: string

record selection =
  sl_beliefs :: "belief list"
  sl_conflicts :: "conflict list"
  sl_retractions :: "retraction_notice list"
  sl_relevance :: "(string \<times> rat) list"

definition tokens :: "string \<Rightarrow> string list" where
  "tokens t = remdups (filter (\<lambda>w. 1 < length w) (find_tokens (normalize_content t)))"

definition lexical_score :: "string list \<Rightarrow> string list \<Rightarrow> rat" where
  "lexical_score q c =
     (if q = [] \<or> c = [] then 0
      else of_nat (length (filter (\<lambda>w. w \<in> set c) q)) / of_nat (max 1 (length (remdups (q @ c)))))"

definition retrieval_bonus :: "nat \<times> string \<Rightarrow> (string \<times> rat) list \<Rightarrow> (string \<times> rat) list" where
  "retrieval_bonus ri scores =
     (case map_of scores (snd ri) of
        None \<Rightarrow> scores
      | Some x \<Rightarrow> AList.update (snd ri) (x + max 0 (1 - of_nat (fst ri) / 1000)) scores)"

definition belief_scores :: "(string \<times> belief) list \<Rightarrow> string \<Rightarrow> string list \<Rightarrow> (string \<times> rat) list" where
  "belief_scores bm query retrieved =
     fold retrieval_bonus (enumerate 0 retrieved)
       (map (\<lambda>(i, b). (i, lexical_score (tokens query) (tokens (content b)))) bm)"

definition usable :: "belief \<Rightarrow> bool" where
  "usable b \<longleftrightarrow> b_status b = IN \<or> b_status b = PENDING"

definition is_candidate :: "context_config \<Rightarrow> string list \<Rightarrow> (string \<times> rat) list \<Rightarrow> belief \<Rightarrow> bool" where
  "is_candidate cfg mandatory scores b =
     (let relevant = b_id b \<in> set mandatory \<or> 0 < dict_get scores (b_id b) 0 in
      b_status b \<noteq> OUT \<and> b_status b \<noteq> QUARANTINED
      \<and> (domain b = ''monitoring'' \<longrightarrow> relevant)
      \<and> (b_status b = PENDING \<and> cx_pending_only_when_relevant cfg \<longrightarrow> relevant))"

definition premise_ids :: "belief \<Rightarrow> string list" where
  "premise_ids b = sorted_set (concat (map j_premises (b_justifications b)))"

text \<open>
  \<open>path\<close> holds the beliefs being visited. The loop of the source breaks when the premises have
  filled their share; no premise is added after that, so going on over the rest changes nothing.
\<close>

function add_with_premises ::
  "(string \<times> belief) list \<Rightarrow> int \<Rightarrow> int \<Rightarrow> int \<Rightarrow> string list \<Rightarrow> belief \<Rightarrow> belief list \<Rightarrow> belief list" where
  "add_with_premises bm max_depth limit depth path b chosen =
     (if b_id b \<in> b_id ` set chosen \<or> limit \<le> int (length chosen) \<or> b_id b \<in> set path then chosen
      else
        let chosen' =
          fold (\<lambda>p acc. case map_of bm p of
                  None \<Rightarrow> acc
                | Some q \<Rightarrow>
                    if usable q \<and> int (length acc) < limit - 1
                    then add_with_premises bm max_depth (limit - 1) (depth + 1) (b_id b # path) q acc
                    else acc)
            (if max_depth \<le> depth then [] else premise_ids b) chosen in
        if b_id b \<notin> b_id ` set chosen' \<and> int (length chosen') < limit then chosen' @ [b] else chosen')"
  by pat_completeness auto
termination
  by (relation "measure (\<lambda>(bm, md, l, d, p, b, c). nat (md - d))") (auto split: if_splits)

declare add_with_premises.simps [simp del]

definition choose_beliefs :: "(string \<times> belief) list \<Rightarrow> int \<Rightarrow> int \<Rightarrow> belief list \<Rightarrow> belief list" where
  "choose_beliefs bm max_depth limit candidates =
     fold (\<lambda>b chosen. if limit \<le> int (length chosen) then chosen
             else add_with_premises bm max_depth limit 0 [] b chosen) candidates []"

text \<open>\<open>candidates.sort(key=..., reverse=True)\<close>\<close>

definition rank_order :: "string list \<Rightarrow> (string \<times> rat) list \<Rightarrow> (belief \<times> int list) list \<Rightarrow> belief list" where
  "rank_order mandatory scores cs =
     map fst (rev (sort_key (\<lambda>(b, v). (if b_id b \<in> set mandatory then 1 else 0 :: nat, dict_get scores (b_id b) 0, v, b_id b))
       (rev cs)))"

definition belief_map_of :: "belief list \<Rightarrow> (string \<times> belief) list" where
  "belief_map_of bs = fold (\<lambda>b. AList.update (b_id b) b) bs []"

definition select_beliefs ::
  "engine_config \<Rightarrow> context_config \<Rightarrow> belief list \<Rightarrow> (string \<times> source) list \<Rightarrow> string \<Rightarrow> conflict list
     \<Rightarrow> retraction_notice list \<Rightarrow> string list \<Rightarrow> string list \<Rightarrow> selection result" where
  "select_beliefs engine cfg beliefs sources query conflicts retractions preconditions retrieved =
     (let bm = belief_map_of beliefs;
          scores = belief_scores bm query retrieved;
          conflict_list = sort_key cf_id conflicts;
          mandatory = preconditions @ concat (map (\<lambda>c. [left_belief_id c, right_belief_id c]) conflict_list);
          candidates = filter (\<lambda>b. is_candidate cfg mandatory scores b \<and> map_of sources (b_source_id b) \<noteq> None) (map snd bm) in
      and_then (map_result (\<lambda>b. and_then (priority_trace_of b (the (map_of sources (b_source_id b))) engine)
                                  (\<lambda>t. Inr (b, trace_value t))) candidates) (\<lambda>cs.
        Inr \<lparr>sl_beliefs = choose_beliefs bm (cx_max_graph_depth cfg) (cx_max_beliefs cfg) (rank_order mandatory scores cs),
             sl_conflicts = conflict_list,
             sl_retractions = sort_key (\<lambda>r. (rn_created_turn r, rn_id r)) retractions,
             sl_relevance = scores\<rparr>))"

section \<open>Rendering\<close>

datatype health = HEALTHY | DEGRADED | UNAVAILABLE

fun health_value :: "health \<Rightarrow> string" where
  "health_value HEALTHY = ''healthy''"
| "health_value DEGRADED = ''degraded''"
| "health_value UNAVAILABLE = ''unavailable''"

text \<open>The characters U+015A, U+00AC, U+2203, U+0101, U+00B7, U+2190, U+2713 and U+2014.\<close>

definition "S_ACUTE = CHR 0x81"
definition "NOT_SIGN = CHR 0x82"
definition "THERE_EXISTS = CHR 0x83"
definition "A_MACRON = CHR 0x84"
definition "MIDDLE_DOT = CHR 0x85"
definition "LEFT_ARROW = CHR 0x86"
definition "CHECK_MARK = CHR 0x87"
definition "EM_DASH = CHR 0x88"

text \<open>\<open>f"{x:.2f}"\<close> and \<open>isoformat_utc\<close>\<close>

record text_of =
  tx_fixed2 :: "py_float \<Rightarrow> string"
  tx_iso :: "datetime \<Rightarrow> string"

fun type_code :: "bool \<Rightarrow> pramana \<Rightarrow> string" where
  "type_code ascii PRATYAKSHA = ''P''"
| "type_code ascii SHABDA = (if ascii then ''S'' else [S_ACUTE])"
| "type_code ascii ANUMANA = ''A''"
| "type_code ascii ARTHAPATTI = ''Ap''"
| "type_code ascii UPAMANA = ''U''"
| "type_code ascii ANUPALABDHI = (if ascii then ''NOT-EXISTS'' else [NOT_SIGN, THERE_EXISTS])"

fun float_less :: "py_float \<Rightarrow> py_float \<Rightarrow> bool" where
  "float_less (Finite a) (Finite b) = (a < b)"
| "float_less (Finite a) (Infinite neg) = (\<not> neg)"
| "float_less (Infinite neg) (Finite b) = neg"
| "float_less (Infinite m) (Infinite n) = (m \<and> \<not> n)"
| "float_less _ _ = False"

definition validity_float :: "belief \<Rightarrow> string \<Rightarrow> py_float result" where
  "validity_float b k =
     (case float_of (dict_get (validity b) k (JInt 0)) of
        None \<Rightarrow> Inl (ValueError ''could not convert to float'') | Some x \<Rightarrow> Inr x)"

definition belief_metadata :: "text_of \<Rightarrow> belief \<Rightarrow> source \<Rightarrow> engine_config \<Rightarrow> bool \<Rightarrow> string result" where
  "belief_metadata tx b s cfg ascii =
     (if b_pramana b = PRATYAKSHA then
        Inr (src_name s @ '' '' @ [MIDDLE_DOT] @ '' '' @ tx_iso tx (observed_at b))
      else if b_pramana b = SHABDA then
        (let competence = tx_fixed2 tx (Finite (effective_competence s (domain b) cfg)) in
         Inr (src_name s @ (if ascii then '' apta='' else '' '' @ [A_MACRON] @ ''='') @ competence))
      else if b_pramana b \<noteq> ANUPALABDHI then
        (let premises = join_with '','' (premise_ids b);
             audited = list_ex audit_passed (b_justifications b) in
         Inr (if ascii then ''<- '' @ premises @ (if audited then '' audit-ok'' else [])
              else [LEFT_ARROW] @ '' '' @ premises
                @ (if audited then '' '' @ [MIDDLE_DOT] @ '' audit'' @ [CHECK_MARK] else [])))
      else
        and_then (validity_float b ''coverage'') (\<lambda>c.
        and_then (validity_float b ''recall'') (\<lambda>r.
          let score = tx_fixed2 tx (if float_less r c then r else c);
              query = py_str (dict_get (validity b) ''query'' (JStr [])) in
          Inr ((if ascii then ''yogyata-ok '' else ''yogyat'' @ [A_MACRON, CHECK_MARK] @ '' '') @ score
               @ '' '' @ [MIDDLE_DOT] @ '' '' @ query))))"

definition render_belief_line :: "text_of \<Rightarrow> belief \<Rightarrow> source \<Rightarrow> engine_config \<Rightarrow> bool \<Rightarrow> string result" where
  "render_belief_line tx b s cfg ascii =
     and_then (belief_metadata tx b s cfg ascii) (\<lambda>meta.
       Inr (''['' @ b_id b @ '']['' @ type_code ascii (b_pramana b) @ '']['' @ meta @ ''] '' @ content b
            @ (if qualifiers b = [] then []
               else '' {'' @ join_with '', '' (map (\<lambda>(k, v). k @ '': '' @ v) (sort_key fst (qualifiers b))) @ ''}'')
            @ (if b_status b = PENDING then '' (UNVERIFIED)'' else [])))"

definition generation_contract :: "context_config \<Rightarrow> health \<Rightarrow> string" where
  "generation_contract cfg h =
     ''### GENERATION CONTRACT'' @ NL
     @ ''- Ledger component health: '' @ health_value h @ ''.'' @ NL
     @ ''- Cite [b_...] for every factual assertion or prefix it with '' @ [CHR 0x22] @ ''speculation:'' @ [CHR 0x22] @ ''.'' @ NL
     @ ''- Never cite OUT or QUARANTINED beliefs.'' @ NL
     @ ''- Cite PENDING beliefs only with '' @ cx_pending_marker cfg @ ''.'' @ NL
     @ ''- If a needed fact is absent, say so and propose a safe observation or search.''"

definition SAFETY_TRUNCATION :: string where
  "SAFETY_TRUNCATION = ''SAFETY_CONTEXT_INCOMPLETE: assume omitted conflicts and retractions remain open.''"

record rendered_context =
  rc_text :: string
  rc_belief_ids :: "string list"
  rc_truncated :: bool

definition retraction_line :: "retraction_notice \<Rightarrow> string" where
  "retraction_line r =
     rn_defeated_belief_id r @ '' DEFEATED ('' @ rn_cause r @ ''); descendants retracted: ''
     @ (if rn_descendants r = [] then ''none'' else let ds = join_with '','' (rn_descendants r) in if ds = [] then ''none'' else ds) @ ''.''"

definition conflict_line :: "conflict \<Rightarrow> string" where
  "conflict_line c =
     left_belief_id c @ '' <-> '' @ right_belief_id c @ '' '' @ [EM_DASH] @ '' verification ''
     @ verification_task_id c @ '' open; assume neither.''"

text \<open>The mandatory lines, in order\<close>

definition mandatory_lines :: "selection \<Rightarrow> health \<Rightarrow> string list" where
  "mandatory_lines sel h =
     (if sl_retractions sel = [] then [] else ''### RETRACTIONS'' # map retraction_line (sl_retractions sel))
     @ (if sl_conflicts sel = [] then [] else (NL @ ''### OPEN CONFLICTS (samsaya)'') # map conflict_line (sl_conflicts sel))
     @ [(if sl_retractions sel \<noteq> [] \<or> sl_conflicts sel \<noteq> [] then NL else [])
        @ ''### LEDGER '' @ [EM_DASH] @ '' active relevant beliefs ['' @ health_value h @ '']'']"

definition add_belief_line ::
  "text_of \<Rightarrow> (string \<times> source) list \<Rightarrow> engine_config \<Rightarrow> bool \<Rightarrow> belief \<Rightarrow> budget \<times> string list
     \<Rightarrow> (budget \<times> string list) result" where
  "add_belief_line tx sources cfg ascii b = (\<lambda>(w, ids).
     and_then (dict_item sources (b_source_id b)) (\<lambda>s.
     and_then (render_belief_line tx b s cfg ascii) (\<lambda>line.
       case budget_add line w of (ok, w') \<Rightarrow> Inr (w', if ok then ids @ [b_id b] else ids))))"

definition render_context ::
  "text_of \<Rightarrow> selection \<Rightarrow> (string \<times> source) list \<Rightarrow> engine_config \<Rightarrow> context_config \<Rightarrow> health \<Rightarrow> bool
     \<Rightarrow> rendered_context result" where
  "render_context tx sel sources engine cfg h ascii =
     (let maximum = min 8000 (cx_max_chars cfg);
          contract = generation_contract cfg h;
          content_budget = max 0 (maximum - int (length contract) - 2);
          writer = new_budget (max 0 (content_budget - (int (length SAFETY_TRUNCATION) + 1)));
          w1 = fold (\<lambda>t w. snd (budget_add t w)) (mandatory_lines sel h) writer in
      and_then (fold_result (add_belief_line tx sources engine ascii) (sl_beliefs sel) (w1, [])) (\<lambda>(w, ids).
        let body = budget_render w;
            body' = (if bg_truncated w then (if body = [] then SAFETY_TRUNCATION else body @ NL @ SAFETY_TRUNCATION) else body);
            text = (if body' = [] then contract else body' @ NL @ NL @ contract) in
        Inr \<lparr>rc_text = (if maximum < int (length text) then (if maximum < 0 then take (length text - nat (- maximum)) text
                         else take (nat maximum) text) else text),
             rc_belief_ids = ids, rc_truncated = bg_truncated w\<rparr>))"

end
