(* ===== verification/Context_Props.thy ===== *)
theory Context_Props
  imports Context "HOL-Library.Sublist"
begin

text \<open>
  What the context of a request promises: the selection is bounded, names a belief once and leaves out
  what is labelled OUT or QUARANTINED, and no premise takes the place of a candidate; the text keeps
  within its budget, ends in the generation contract and says so when something is missing from it.
\<close>

section \<open>Selection\<close>

definition chosen_ok :: "int \<Rightarrow> (string \<times> belief) list \<Rightarrow> belief list \<Rightarrow> bool" where
  "chosen_ok limit bm bs \<longleftrightarrow>
     int (length bs) \<le> max 0 limit \<and> distinct (map b_id bs) \<and> (\<forall>b\<in>set bs. usable b \<and> b \<in> snd ` set bm)"

lemma chosen_ok_mono: "chosen_ok l bm bs \<Longrightarrow> l \<le> l' \<Longrightarrow> chosen_ok l' bm bs"
  by (auto simp: chosen_ok_def)

lemma chosen_ok_add:
  "\<lbrakk>chosen_ok l bm bs; usable b; b \<in> snd ` set bm; b_id b \<notin> b_id ` set bs; int (length bs) < l\<rbrakk>
     \<Longrightarrow> chosen_ok l bm (bs @ [b])"
  by (auto simp: chosen_ok_def)

text \<open>Within the limit, only what is in the path of the recursion is never added by it.\<close>

lemma add_with_premises_step:
  assumes "chosen_ok limit bm chosen" and "usable b" and "b \<in> snd ` set bm"
    and "\<And>p q. map_of bm p = Some q \<Longrightarrow> b_id q = p"
  shows "chosen_ok limit bm (add_with_premises bm md limit d path b chosen)
     \<and> (\<exists>new. add_with_premises bm md limit d path b chosen = chosen @ new \<and> (\<forall>x\<in>set new. b_id x \<notin> set path))"
  using assms
proof (induction bm md limit d path b chosen rule: add_with_premises.induct)
  case (1 bm md limit d path b chosen)
  show ?case
  proof (cases "b_id b \<in> b_id ` set chosen \<or> limit \<le> int (length chosen) \<or> b_id b \<in> set path")
    case True
    then show ?thesis
      using "1.prems" by (subst (1 2) add_with_premises.simps) auto
  next
    case False
    define step where "step = (\<lambda>p acc. case map_of bm p of None \<Rightarrow> acc
        | Some q \<Rightarrow> if usable q \<and> int (length acc) < limit - 1
            then add_with_premises bm md (limit - 1) (d + 1) (b_id b # path) q acc else acc)"
    define ps where "ps = (if md \<le> d then [] else premise_ids b)"
    let ?good = "\<lambda>acc. chosen_ok (limit - 1) bm acc \<and> (\<exists>new. acc = chosen @ new \<and> (\<forall>x\<in>set new. b_id x \<notin> set (b_id b # path)))"
    have start: "?good chosen"
      using "1.prems"(1) False by (auto simp: chosen_ok_def)
    have one: "?good (step p acc)" if p: "p \<in> set ps" and acc: "?good acc" for p acc
    proof (cases "map_of bm p")
      case None
      then show ?thesis using acc by (simp add: step_def)
    next
      case (Some q)
      then have q: "q \<in> snd ` set bm" by (force dest: map_of_SomeD)
      show ?thesis
      proof (cases "usable q \<and> int (length acc) < limit - 1")
        case True
        have "chosen_ok (limit - 1) bm (add_with_premises bm md (limit - 1) (d + 1) (b_id b # path) q acc)
          \<and> (\<exists>new. add_with_premises bm md (limit - 1) (d + 1) (b_id b # path) q acc = acc @ new
                \<and> (\<forall>x\<in>set new. b_id x \<notin> set (b_id b # path)))"
          using "1.IH" [OF False p [unfolded ps_def] Some True] acc True q "1.prems"(4) by blast
        then show ?thesis using acc True Some by (fastforce simp: step_def)
      qed (use acc Some in \<open>auto simp: step_def\<close>)
    qed
    have "?good (fold step ps chosen)"
      by (rule fold_invariant [where Q = "\<lambda>p. p \<in> set ps" and P = ?good]) (use start one in auto)
    then show ?thesis
      using False "1.prems"
      by (subst (1 2) add_with_premises.simps)
         (auto simp: Let_def step_def ps_def intro!: chosen_ok_add intro: chosen_ok_mono [where l = "limit - 1"])
  qed
qed

lemma add_with_premises_chosen:
  assumes "b_id b \<notin> b_id ` set chosen" and "int (length chosen) < limit"
    and "chosen_ok limit bm chosen" and "usable b" and "b \<in> snd ` set bm"
    and "\<And>p q. map_of bm p = Some q \<Longrightarrow> b_id q = p"
  shows "b_id b \<in> b_id ` set (add_with_premises bm md limit d [] b chosen)"
proof -
  let ?step = "\<lambda>p acc. case map_of bm p of None \<Rightarrow> acc
      | Some q \<Rightarrow> if usable q \<and> int (length acc) < limit - 1
          then add_with_premises bm md (limit - 1) (d + 1) [b_id b] q acc else acc"
  have "chosen_ok (limit - 1) bm (fold ?step ps chosen)" for ps
  proof (rule fold_invariant [where Q = "\<lambda>p. True" and P = "chosen_ok (limit - 1) bm"])
    show "chosen_ok (limit - 1) bm chosen" using assms(2,3) by (auto simp: chosen_ok_def)
    show "chosen_ok (limit - 1) bm (?step p acc)" if "chosen_ok (limit - 1) bm acc" for p acc
    proof (cases "map_of bm p")
      case (Some q)
      then have "q \<in> snd ` set bm" by (force dest: map_of_SomeD)
      with Some that assms(6) show ?thesis by (auto intro: add_with_premises_step [THEN conjunct1])
    qed (use that in simp)
  qed simp
  then have "int (length (fold ?step ps chosen)) < limit" for ps
    using assms(2) by (fastforce simp: chosen_ok_def)
  then show ?thesis using assms(1,2) by (subst add_with_premises.simps) (auto simp: Let_def)
qed

lemma choose_beliefs_ok:
  assumes "\<forall>b\<in>set cs. usable b \<and> b \<in> snd ` set bm" and "\<And>p q. map_of bm p = Some q \<Longrightarrow> b_id q = p"
  shows "chosen_ok limit bm (choose_beliefs bm md limit cs)
     \<and> (limit \<le> int (length (choose_beliefs bm md limit cs)) \<or> b_id ` set cs \<subseteq> b_id ` set (choose_beliefs bm md limit cs))"
  using assms(1)
proof (induction cs rule: rev_induct)
  case Nil
  show ?case by (simp add: choose_beliefs_def chosen_ok_def)
next
  case (snoc c cs)
  let ?old = "choose_beliefs bm md limit cs"
  have eq: "choose_beliefs bm md limit (cs @ [c]) =
      (if limit \<le> int (length ?old) then ?old else add_with_premises bm md limit 0 [] c ?old)"
    by (simp add: choose_beliefs_def)
  have old: "chosen_ok limit bm ?old"
    and all: "limit \<le> int (length ?old) \<or> b_id ` set cs \<subseteq> b_id ` set ?old" using snoc by auto
  show ?case
  proof (cases "limit \<le> int (length ?old)")
    case False
    have c: "usable c" "c \<in> snd ` set bm" using snoc.prems by auto
    note step = add_with_premises_step [OF old c assms(2), of md 0 "[]"]
    have "b_id c \<in> b_id ` set (add_with_premises bm md limit 0 [] c ?old)"
    proof (cases "b_id c \<in> b_id ` set ?old")
      case True
      then show ?thesis using step by auto
    next
      case fresh: False
      then show ?thesis using add_with_premises_chosen [OF fresh _ old c assms(2)] False by simp
    qed
    then show ?thesis using False all step by (auto simp: eq)
  qed (use old in \<open>simp add: eq\<close>)
qed

lemma belief_map_of_ids: "map_of (belief_map_of bs) p = Some b \<Longrightarrow> b_id b = p"
proof (induction bs arbitrary: b rule: rev_induct)
  case (snoc x xs)
  have "map_of (belief_map_of (xs @ [x])) = (map_of (belief_map_of xs))(b_id x \<mapsto> x)"
    by (simp add: belief_map_of_def)
  then show ?case using snoc.prems snoc.IH [of b] by (cases "p = b_id x") simp_all
qed (simp add: belief_map_of_def)

lemma belief_map_of_members: "snd ` set (belief_map_of bs) \<subseteq> set bs"
proof (induction bs rule: rev_induct)
  case (snoc x xs)
  have "snd ` set (AList.update (b_id x) x m) \<subseteq> insert x (snd ` set m)" for m
    by (induction m) auto
  with snoc show ?case by (fastforce simp: belief_map_of_def)
qed (simp add: belief_map_of_def)

lemma set_rank_order [simp]: "set (rank_order mandatory scores cs) = fst ` set cs"
  by (simp add: rank_order_def)

definition selectable ::
  "context_config \<Rightarrow> belief list \<Rightarrow> (string \<times> source) list \<Rightarrow> string \<Rightarrow> conflict list \<Rightarrow> string list
     \<Rightarrow> string list \<Rightarrow> belief list" where
  "selectable cfg beliefs sources query conflicts preconditions retrieved =
     (let bm = belief_map_of beliefs;
          scores = belief_scores bm query retrieved;
          mandatory = preconditions @ concat (map (\<lambda>c. [left_belief_id c, right_belief_id c]) (sort_key cf_id conflicts)) in
      filter (\<lambda>b. is_candidate cfg mandatory scores b \<and> map_of sources (b_source_id b) \<noteq> None) (map snd bm))"

lemma selectable_usable: "b \<in> set (selectable cfg bs s q c p r) \<Longrightarrow> usable b \<and> b \<in> snd ` set (belief_map_of bs)"
  by (cases "b_status b") (auto simp: selectable_def Let_def is_candidate_def usable_def)

lemma selection_facts:
  assumes "select_beliefs engine cfg beliefs sources query conflicts retractions preconditions retrieved = Inr sel"
  shows "int (length (sl_beliefs sel)) \<le> max 0 (cx_max_beliefs cfg)"
    and "distinct (map b_id (sl_beliefs sel))"
    and "\<forall>b\<in>set (sl_beliefs sel). b \<in> set beliefs \<and> (b_status b = IN \<or> b_status b = PENDING)"
    and "cx_max_beliefs cfg \<le> int (length (sl_beliefs sel))
      \<or> (\<forall>b\<in>set (selectable cfg beliefs sources query conflicts preconditions retrieved). b_id b \<in> b_id ` set (sl_beliefs sel))"
proof -
  let ?bm = "belief_map_of beliefs"
  let ?cands = "selectable cfg beliefs sources query conflicts preconditions retrieved"
  obtain cs scores mandatory where cs: "map_result (\<lambda>b. and_then (priority_trace_of b (the (map_of sources (b_source_id b))) engine)
        (\<lambda>t. Inr (b, trace_value t))) ?cands = Inr cs"
    and sel: "sl_beliefs sel = choose_beliefs ?bm (cx_max_graph_depth cfg) (cx_max_beliefs cfg) (rank_order mandatory scores cs)"
    using assms by (auto simp: select_beliefs_def selectable_def Let_def splits_result)
  have "list_all2 (\<lambda>b c. fst c = b) ?cands cs"
    using cs unfolding map_result_list_all2 by (rule list_all2_mono) (auto simp: splits_result)
  then have "map fst cs = ?cands" by (induction rule: list_all2_induct) auto
  then have ids: "fst ` set cs = set ?cands" by (metis list.set_map)
  have "\<forall>b\<in>set (rank_order mandatory scores cs). usable b \<and> b \<in> snd ` set ?bm"
    using selectable_usable by (auto simp: ids)
  then have ok: "chosen_ok (cx_max_beliefs cfg) ?bm (sl_beliefs sel)
      \<and> (cx_max_beliefs cfg \<le> int (length (sl_beliefs sel))
           \<or> b_id ` set (rank_order mandatory scores cs) \<subseteq> b_id ` set (sl_beliefs sel))"
    unfolding sel by (rule choose_beliefs_ok) (rule belief_map_of_ids)
  show "int (length (sl_beliefs sel)) \<le> max 0 (cx_max_beliefs cfg)" "distinct (map b_id (sl_beliefs sel))"
    using ok by (simp_all add: chosen_ok_def)
  show "\<forall>b\<in>set (sl_beliefs sel). b \<in> set beliefs \<and> (b_status b = IN \<or> b_status b = PENDING)"
  proof
    fix b assume "b \<in> set (sl_beliefs sel)"
    with ok have "usable b" "b \<in> snd ` set ?bm" by (simp_all add: chosen_ok_def)
    with belief_map_of_members [of beliefs] show "b \<in> set beliefs \<and> (b_status b = IN \<or> b_status b = PENDING)"
      unfolding usable_def by blast
  qed
  show "cx_max_beliefs cfg \<le> int (length (sl_beliefs sel)) \<or> (\<forall>b\<in>set ?cands. b_id b \<in> b_id ` set (sl_beliefs sel))"
    using ok by (auto simp: ids)
qed

text \<open>
  C28. The selection for a request has no more beliefs than configured, names no belief twice and has
  only beliefs of the episode that are labelled IN or PENDING. It contains every candidate, unless it
  is full: premises enrich the selection and never take the last place of what was selected.
\<close>
theorem selection_bounded_and_complete:
  assumes "select_beliefs engine cfg beliefs sources query conflicts retractions preconditions retrieved = Inr sel"
  shows "int (length (sl_beliefs sel)) \<le> max 0 (cx_max_beliefs cfg)
    \<and> distinct (map b_id (sl_beliefs sel))
    \<and> (\<forall>b\<in>set (sl_beliefs sel). b \<in> set beliefs \<and> (b_status b = IN \<or> b_status b = PENDING))
    \<and> (cx_max_beliefs cfg \<le> int (length (sl_beliefs sel))
      \<or> (\<forall>b\<in>set (selectable cfg beliefs sources query conflicts preconditions retrieved). b_id b \<in> b_id ` set (sl_beliefs sel)))"
  using selection_facts [OF assms] by blast

definition premise_belief :: belief where
  "premise_belief = sample_belief\<lparr>b_id := ''b_1'', content := ''disk is full'', b_status := IN\<rparr>"

definition conclusion_belief :: belief where
  "conclusion_belief = sample_belief\<lparr>b_id := ''b_2'', content := ''write fails'', b_status := IN,
     b_justifications := [\<lparr>j_id = ''j'', j_belief_id = ''b_2'', j_premises = [''b_1''], warrant = ''w'', audit = None, alternatives = []\<rparr>]\<rparr>"

definition small_context :: "int \<Rightarrow> context_config" where
  "small_context n = \<lparr>cx_max_beliefs = n, cx_max_graph_depth = 2, cx_pending_only_when_relevant = True, cx_max_chars = 2000,
     cx_pending_marker = ''(unverified)''\<rparr>"

lemma sample_selected:
  "succeeds (select_beliefs default_config (small_context 1) [premise_belief, conclusion_belief] [(''s1'', sample_source)]
      ''why fails the write'' [] [] [] []) (\<lambda>sel. map b_id (sl_beliefs sel) = [''b_2''])"
  by code_simp

theorem selection_bounded_and_complete_witness:
  "\<exists>sel. select_beliefs default_config (small_context 1) [premise_belief, conclusion_belief] [(''s1'', sample_source)]
       ''why fails the write'' [] [] [] [] = Inr sel
     \<and> int (length (sl_beliefs sel)) \<le> 1 \<and> map b_id (sl_beliefs sel) = [''b_2'']"
proof -
  obtain sel where sel: "select_beliefs default_config (small_context 1)
      [premise_belief, conclusion_belief] [(''s1'', sample_source)] ''why fails the write'' [] [] [] [] = Inr sel"
    and "map b_id (sl_beliefs sel) = [''b_2'']"
    using sample_selected [unfolded succeeds_iff] by (elim exE conjE) (rule that)
  moreover have "int (length (sl_beliefs sel)) \<le> 1"
    using selection_bounded_and_complete [OF sel] by (simp add: small_context_def)
  ultimately show ?thesis using sel by (intro exI [of _ sel] conjI)
qed

section \<open>The budget\<close>

definition budget_ok :: "budget \<Rightarrow> bool" where
  "budget_ok w \<longleftrightarrow> bg_used w = length (budget_render w) \<and> int (bg_used w) \<le> bg_maximum w"

text \<open>What a budget becomes: it keeps its parts, and without truncation all texts are added to it.\<close>

definition extends :: "budget \<Rightarrow> string set \<Rightarrow> budget \<Rightarrow> bool" where
  "extends w ts w' \<longleftrightarrow>
     budget_ok w' \<and> bg_maximum w' = bg_maximum w \<and> (\<exists>ps. bg_parts w' = bg_parts w @ ps)
     \<and> (bg_truncated w \<longrightarrow> bg_truncated w')
     \<and> (bg_truncated w' \<or> (\<forall>t\<in>ts. t \<in> set (bg_parts w')))"

lemma extends_trans: "\<lbrakk>extends w ts w'; extends w' us w''\<rbrakk> \<Longrightarrow> extends w (ts \<union> us) w''"
  by (fastforce simp: extends_def)

lemma extends_refl: "budget_ok w \<Longrightarrow> extends w {} w"
  by (simp add: extends_def)

lemma budget_add_extends: "budget_ok w \<Longrightarrow> extends w {t} (snd (budget_add t w))"
  by (auto simp: budget_add_def Let_def extends_def budget_ok_def budget_render_def NL_def)

lemma budget_add_fst: "budget_add t w = (True, w') \<Longrightarrow> t \<in> set (bg_parts w')"
  by (auto simp: budget_add_def Let_def split: if_splits)

lemma budget_adds_extend: "budget_ok w \<Longrightarrow> extends w (set ts) (fold (\<lambda>t w. snd (budget_add t w)) ts w)"
proof (induction ts arbitrary: w)
  case (Cons t ts)
  let ?w = "snd (budget_add t w)"
  have "extends w {t} ?w" using Cons.prems by (rule budget_add_extends)
  moreover then have "extends ?w (set ts) (fold (\<lambda>t w. snd (budget_add t w)) ts ?w)"
    by (intro Cons.IH) (simp add: extends_def)
  ultimately show ?case using extends_trans by fastforce
qed (simp add: extends_refl)

definition shown :: "text_of \<Rightarrow> (string \<times> source) list \<Rightarrow> engine_config \<Rightarrow> bool \<Rightarrow> budget \<Rightarrow> belief \<Rightarrow> bool" where
  "shown tx sources cfg ascii w b \<longleftrightarrow>
     (\<exists>s line. map_of sources (b_source_id b) = Some s \<and> render_belief_line tx b s cfg ascii = Inr line \<and> line \<in> set (bg_parts w))"

lemma shown_extends: "\<lbrakk>shown tx sources cfg ascii w b; extends w ts w'\<rbrakk> \<Longrightarrow> shown tx sources cfg ascii w' b"
  by (fastforce simp: shown_def extends_def)

lemma add_belief_line_Inr:
  "add_belief_line tx sources cfg ascii b (w, ids) = Inr r \<longleftrightarrow>
     (\<exists>s line. map_of sources (b_source_id b) = Some s \<and> render_belief_line tx b s cfg ascii = Inr line
        \<and> r = (snd (budget_add line w), if fst (budget_add line w) then ids @ [b_id b] else ids))"
  by (cases "map_of sources (b_source_id b)")
     (auto simp: add_belief_line_def splits_result dict_item_def case_prod_beta)

lemma add_belief_lines:
  assumes "fold_result (add_belief_line tx sources cfg ascii) bs (w, ids) = Inr (w', ids')" and "budget_ok w"
  shows "extends w {} w'"
    and "\<exists>new. ids' = ids @ new \<and> subseq new (map b_id bs) \<and> (bg_truncated w' \<or> new = map b_id bs)
      \<and> (\<forall>i\<in>set new. \<exists>b\<in>set bs. b_id b = i \<and> shown tx sources cfg ascii w' b)"
proof -
  have "extends w {} w' \<and> (\<exists>new. ids' = ids @ new \<and> subseq new (map b_id bs) \<and> (bg_truncated w' \<or> new = map b_id bs)
      \<and> (\<forall>i\<in>set new. \<exists>b\<in>set bs. b_id b = i \<and> shown tx sources cfg ascii w' b))"
    using assms
  proof (induction bs arbitrary: w ids)
    case Nil
    then show ?case by (auto simp: extends_refl)
  next
    case (Cons b bs)
    from Cons.prems(1) obtain s line ok v where s: "map_of sources (b_source_id b) = Some s"
      and line: "render_belief_line tx b s cfg ascii = Inr line" and v: "budget_add line w = (ok, v)"
      and rest: "fold_result (add_belief_line tx sources cfg ascii) bs (v, if ok then ids @ [b_id b] else ids) = Inr (w', ids')"
      by (cases "add_belief_line tx sources cfg ascii b (w, ids)") (auto simp: add_belief_line_Inr prod_eq_iff)
    have e: "extends w {line} v" using budget_add_extends [OF Cons.prems(2), of line] v by simp
    then have "budget_ok v" by (simp add: extends_def)
    from Cons.IH [OF rest this] obtain new where vw: "extends v {} w'"
      and new: "ids' = (if ok then ids @ [b_id b] else ids) @ new" "subseq new (map b_id bs)"
        "bg_truncated w' \<or> new = map b_id bs"
        "\<forall>i\<in>set new. \<exists>b\<in>set bs. b_id b = i \<and> shown tx sources cfg ascii w' b" by blast
    have w: "extends w {} w'" using extends_trans [OF e vw] by (auto simp: extends_def)
    show ?case
    proof (cases ok)
      case True
      have "shown tx sources cfg ascii v b" using s line v True budget_add_fst by (auto simp: shown_def)
      then have "shown tx sources cfg ascii w' b" using vw by (rule shown_extends)
      with w new True show ?thesis by (intro conjI exI [of _ "b_id b # new"]) auto
    next
      case False
      then have "bg_truncated v" using v by (auto simp: budget_add_def Let_def split: if_splits)
      then have "bg_truncated w'" using vw by (simp add: extends_def)
      with w new False show ?thesis by (intro conjI exI [of _ new]) auto
    qed
  qed
  then show "extends w {} w'" "\<exists>new. ids' = ids @ new \<and> subseq new (map b_id bs) \<and> (bg_truncated w' \<or> new = map b_id bs)
      \<and> (\<forall>i\<in>set new. \<exists>b\<in>set bs. b_id b = i \<and> shown tx sources cfg ascii w' b)" by simp_all
qed

lemma part_of_render: "t \<in> set (bg_parts w) \<Longrightarrow> sublist t (budget_render w)"
proof -
  assume "t \<in> set (bg_parts w)"
  then obtain ps qs where "bg_parts w = ps @ t # qs" by (blast dest: split_list)
  then have "budget_render w = concat ps @ t @ concat qs" by (simp add: budget_render_def)
  then show "sublist t (budget_render w)" by (auto simp only: sublist_def)
qed

section \<open>The text of a request\<close>

definition room :: "context_config \<Rightarrow> health \<Rightarrow> int" where
  "room cfg h = min 8000 (cx_max_chars cfg) - int (length (generation_contract cfg h)) - 2 - (int (length SAFETY_TRUNCATION) + 1)"

lemma ledger_header: "\<exists>t\<in>set (mandatory_lines sel h). t \<noteq> []"
  by (auto simp: mandatory_lines_def)

lemma rendered_facts:
  assumes "render_context tx sel sources engine cfg h ascii = Inr r" and "0 \<le> room cfg h"
  shows "int (length (rc_text r)) \<le> min 8000 (cx_max_chars cfg)"
    and "suffix (generation_contract cfg h) (rc_text r)"
    and "if rc_truncated r then suffix (SAFETY_TRUNCATION @ NL @ NL @ generation_contract cfg h) (rc_text r)
         else (\<forall>t\<in>set (mandatory_lines sel h). sublist t (rc_text r)) \<and> rc_belief_ids r = map b_id (sl_beliefs sel)"
    and "subseq (rc_belief_ids r) (map b_id (sl_beliefs sel))"
    and "\<forall>i\<in>set (rc_belief_ids r). \<exists>b\<in>set (sl_beliefs sel). \<exists>s line. b_id b = i
          \<and> map_of sources (b_source_id b) = Some s \<and> render_belief_line tx b s engine ascii = Inr line
          \<and> sublist line (rc_text r)"
proof -
  let ?contract = "generation_contract cfg h"
  let ?start = "new_budget (room cfg h)"
  let ?w1 = "fold (\<lambda>t w. snd (budget_add t w)) (mandatory_lines sel h) ?start"
  have start: "budget_ok ?start"
    using assms(2) by (simp add: budget_ok_def new_budget_def budget_render_def)
  have m: "extends ?start (set (mandatory_lines sel h)) ?w1"
    using start by (rule budget_adds_extend)
  then have w1: "budget_ok ?w1" by (simp add: extends_def)
  have "max 0 (max 0 (min 8000 (cx_max_chars cfg) - int (length ?contract) - 2) - (int (length SAFETY_TRUNCATION) + 1)) = room cfg h"
    using assms(2) by (simp add: room_def)
  then obtain w ids where lines: "fold_result (add_belief_line tx sources engine ascii) (sl_beliefs sel) (?w1, []) = Inr (w, ids)"
    and r: "r = (let body = budget_render w;
            body' = (if bg_truncated w then (if body = [] then SAFETY_TRUNCATION else body @ NL @ SAFETY_TRUNCATION) else body);
            text = (if body' = [] then ?contract else body' @ NL @ NL @ ?contract);
            maximum = min 8000 (cx_max_chars cfg) in
        \<lparr>rc_text = (if maximum < int (length text) then (if maximum < 0 then take (length text - nat (- maximum)) text
                         else take (nat maximum) text) else text),
             rc_belief_ids = ids, rc_truncated = bg_truncated w\<rparr>)"
    using assms(1) unfolding render_context_def Let_def by (auto simp: splits_result simp del: split_paired_Ex)
  note added = add_belief_lines [OF lines w1]
  obtain new where ids: "ids = new" "subseq new (map b_id (sl_beliefs sel))" "bg_truncated w \<or> new = map b_id (sl_beliefs sel)"
    "\<forall>i\<in>set new. \<exists>b\<in>set (sl_beliefs sel). b_id b = i \<and> shown tx sources engine ascii w b"
    using added(2) by auto
  have e: "extends ?start (set (mandatory_lines sel h)) w"
    using extends_trans [OF m added(1)] by simp
  have len: "int (length (budget_render w)) \<le> room cfg h"
    using e by (auto simp: extends_def budget_ok_def new_budget_def)
  have body: "budget_render w \<noteq> []" if "\<not> bg_truncated w"
    using that e ledger_header [of sel h] part_of_render [of _ w] by (auto simp: extends_def)
  let ?tail = "if bg_truncated w then (if budget_render w = [] then [] else NL) @ SAFETY_TRUNCATION else []"
  have shape: "rc_text r = budget_render w @ ?tail @ NL @ NL @ ?contract"
    using len body assms(2) by (auto simp: r Let_def room_def NL_def SAFETY_TRUNCATION_def)
  show "int (length (rc_text r)) \<le> min 8000 (cx_max_chars cfg)"
    using len assms(2) by (auto simp: shape room_def NL_def)
  show "suffix ?contract (rc_text r)"
    by (simp add: shape suffix_def)
  have part: "sublist t (rc_text r)" if "t \<in> set (bg_parts w)" for t
    unfolding shape using part_of_render [OF that] sublist_append_rightI by (rule sublist_order.order_trans)
  show "subseq (rc_belief_ids r) (map b_id (sl_beliefs sel))"
    using ids by (simp add: r Let_def)
  show "if rc_truncated r then suffix (SAFETY_TRUNCATION @ NL @ NL @ ?contract) (rc_text r)
         else (\<forall>t\<in>set (mandatory_lines sel h). sublist t (rc_text r)) \<and> rc_belief_ids r = map b_id (sl_beliefs sel)"
  proof (cases "bg_truncated w")
    case True
    then have "suffix (SAFETY_TRUNCATION @ NL @ NL @ ?contract) (rc_text r)"
      by (auto simp: shape intro: suffixI)
    with True show ?thesis by (simp add: r Let_def)
  next
    case False
    then have "\<forall>t\<in>set (mandatory_lines sel h). sublist t (rc_text r)"
      using e part by (simp add: extends_def)
    with False ids(1,3) show ?thesis by (simp add: r Let_def)
  qed
  show "\<forall>i\<in>set (rc_belief_ids r). \<exists>b\<in>set (sl_beliefs sel). \<exists>s line. b_id b = i
          \<and> map_of sources (b_source_id b) = Some s \<and> render_belief_line tx b s engine ascii = Inr line
          \<and> sublist line (rc_text r)"
  proof
    fix i assume "i \<in> set (rc_belief_ids r)"
    then have "i \<in> set new" using ids(1) by (simp add: r Let_def)
    then obtain b s line where "b \<in> set (sl_beliefs sel)" "b_id b = i" "map_of sources (b_source_id b) = Some s"
      "render_belief_line tx b s engine ascii = Inr line" "line \<in> set (bg_parts w)"
      using ids(4) unfolding shown_def by blast
    then show "\<exists>b\<in>set (sl_beliefs sel). \<exists>s line. b_id b = i \<and> map_of sources (b_source_id b) = Some s
        \<and> render_belief_line tx b s engine ascii = Inr line \<and> sublist line (rc_text r)"
      using part by blast
  qed
qed

text \<open>
  C29. The text given to the model never exceeds its budget of characters, and when the budget has room
  for it the generation contract stands at its end. Either every retraction, every open conflict and
  every selected belief is in the text, or the text says before the contract that it is incomplete.
  The identifiers reported as shown are of selected beliefs, in their order, whose lines are in it.
\<close>
theorem rendered_context_within_budget:
  assumes "render_context tx sel sources engine cfg h ascii = Inr r" and "0 \<le> room cfg h"
  shows "int (length (rc_text r)) \<le> min 8000 (cx_max_chars cfg)
    \<and> suffix (generation_contract cfg h) (rc_text r)
    \<and> (if rc_truncated r then suffix (SAFETY_TRUNCATION @ NL @ NL @ generation_contract cfg h) (rc_text r)
         else (\<forall>t\<in>set (mandatory_lines sel h). sublist t (rc_text r)) \<and> rc_belief_ids r = map b_id (sl_beliefs sel))
    \<and> subseq (rc_belief_ids r) (map b_id (sl_beliefs sel))
    \<and> (\<forall>i\<in>set (rc_belief_ids r). \<exists>b\<in>set (sl_beliefs sel). \<exists>s line. b_id b = i
          \<and> map_of sources (b_source_id b) = Some s \<and> render_belief_line tx b s engine ascii = Inr line
          \<and> sublist line (rc_text r))"
  by (intro conjI rendered_facts [OF assms])

definition plain_text :: text_of where
  "plain_text = \<lparr>tx_fixed2 = (\<lambda>x. ''0.90''), tx_iso = (\<lambda>d. ''1970-01-01T00:00:00+00:00'')\<rparr>"

definition small_selection :: selection where
  "small_selection = \<lparr>sl_beliefs = [premise_belief], sl_conflicts = [], sl_retractions = [], sl_relevance = []\<rparr>"

lemma sample_rendered:
  "succeeds (render_context plain_text small_selection [(''s1'', sample_source)] default_config (small_context 1) HEALTHY True)
     (\<lambda>r. rc_belief_ids r = [''b_1''])"
  by code_simp

theorem rendered_context_within_budget_witness:
  "\<exists>r. render_context plain_text small_selection [(''s1'', sample_source)] default_config (small_context 1) HEALTHY True = Inr r
     \<and> int (length (rc_text r)) \<le> 2000 \<and> suffix (generation_contract (small_context 1) HEALTHY) (rc_text r)
     \<and> rc_belief_ids r = [''b_1'']"
proof -
  obtain r where r: "render_context plain_text small_selection [(''s1'', sample_source)] default_config (small_context 1) HEALTHY True = Inr r"
    and ids: "rc_belief_ids r = [''b_1'']"
    using sample_rendered [unfolded succeeds_iff] by (elim exE conjE) (rule that)
  have room: "0 \<le> room (small_context 1) HEALTHY" by code_simp
  from rendered_context_within_budget [OF r room] have "int (length (rc_text r)) \<le> 2000"
    and "suffix (generation_contract (small_context 1) HEALTHY) (rc_text r)"
    by (simp_all add: small_context_def)
  with r ids show ?thesis by (intro exI [of _ r] conjI)
qed

text \<open>
  What the selection does not check: candidates whose source cannot be read are left out, their
  premises are not. Here the premise of a candidate has no source; it is selected, and the text of the
  selection fails for all of it.
\<close>
theorem premise_without_source_selected:
  "\<exists>sel. select_beliefs default_config (small_context 2) [premise_belief\<lparr>b_source_id := ''s2''\<rparr>, conclusion_belief]
       [(''s1'', sample_source)] ''why fails the write'' [] [] [] [] = Inr sel
     \<and> map b_id (sl_beliefs sel) = [''b_1'', ''b_2'']
     \<and> render_context plain_text sel [(''s1'', sample_source)] default_config (small_context 2) HEALTHY True
         = Inl (KeyError ''s2'')"
proof -
  have "succeeds (select_beliefs default_config (small_context 2) [premise_belief\<lparr>b_source_id := ''s2''\<rparr>, conclusion_belief]
       [(''s1'', sample_source)] ''why fails the write'' [] [] [] [])
     (\<lambda>sel. map b_id (sl_beliefs sel) = [''b_1'', ''b_2'']
       \<and> render_context plain_text sel [(''s1'', sample_source)] default_config (small_context 2) HEALTHY True
         = Inl (KeyError ''s2''))"
    by code_simp
  then show ?thesis unfolding succeeds_iff .
qed

end
