(* ===== verification/Ledger_History.thy ===== *)
theory Ledger_History
  imports Ledger_Props
begin

text \<open>
  What the root of a chain commits to. The chains of the ledger link events by hash alone, one chain
  per episode and without contiguous numbers; \<open>hash_links\<close> is what such chains promise, and the root
  of a ledger, the hash of the heads of its episodes, commits to the histories of all of them.
\<close>

section \<open>Chains linked by hash\<close>

text \<open>
  \<open>material\<close> is what an entry's hash commits to. Two entries of the same material continue the same
  hash and say the same.
\<close>

locale hash_links =
  fixes prev_of :: "'e \<Rightarrow> string"
    and hash_of :: "'e \<Rightarrow> string"
    and material :: "'e \<Rightarrow> string"
    and canonical :: "'e \<Rightarrow> bool"
    and same :: "'e \<Rightarrow> 'e \<Rightarrow> bool"
    and sha :: "string \<Rightarrow> string"
  assumes commits: "\<lbrakk>canonical e; canonical f; material e = material f\<rbrakk> \<Longrightarrow> prev_of e = prev_of f \<and> same e f"
begin

fun linked :: "string \<Rightarrow> 'e list \<Rightarrow> bool" where
  "linked p [] = True"
| "linked p (e # es) = (prev_of e = p \<and> hash_of e = sha (material e) \<and> linked (hash_of e) es)"

definition tip :: "string \<Rightarrow> 'e list \<Rightarrow> string" where
  "tip p es = (if es = [] then p else hash_of (last es))"

lemma tip_simps [simp]: "tip p [] = p" "tip p (es @ [e]) = hash_of e"
  by (simp_all add: tip_def)

lemma linked_snoc: "linked p (es @ [e]) \<longleftrightarrow> linked p es \<and> prev_of e = tip p es \<and> hash_of e = sha (material e)"
  by (induction p es rule: linked.induct) (auto simp: tip_def)

definition collide :: "'e list \<Rightarrow> 'e list \<Rightarrow> bool" where
  "collide es fs \<longleftrightarrow> (\<exists>e\<in>set es. \<exists>f\<in>set fs. material e \<noteq> material f \<and> sha (material e) = sha (material f))"

text \<open>Chains with the same tip say the same, unless two materials collide or an entry hashes to the start.\<close>

lemma tip_commits:
  assumes "linked p es" and "linked p fs" and "\<forall>e\<in>set es \<union> set fs. canonical e" and "tip p es = tip p fs"
  shows "list_all2 same es fs \<or> collide es fs \<or> (\<exists>e\<in>set es \<union> set fs. sha (material e) = p)"
  using assms
proof (induction es arbitrary: fs rule: rev_induct)
  case Nil
  then show ?case by (cases fs rule: rev_cases) (auto simp: linked_snoc)
next
  case (snoc e es)
  show ?case
  proof (cases fs rule: rev_cases)
    case Nil
    with snoc.prems show ?thesis by (auto simp: linked_snoc)
  next
    case (snoc fs' f)
    with snoc.prems have l: "linked p es" "linked p fs'" and p: "prev_of e = tip p es" "prev_of f = tip p fs'"
      and h: "sha (material e) = sha (material f)"
      by (auto simp: linked_snoc)
    show ?thesis
    proof (cases "material e = material f")
      case False
      with h snoc show ?thesis by (auto simp: collide_def)
    next
      case True
      have "prev_of e = prev_of f \<and> same e f"
        by (rule commits) (use True snoc snoc.prems(3) in auto)
      moreover from this p have "list_all2 same es fs' \<or> collide es fs' \<or> (\<exists>x\<in>set es \<union> set fs'. sha (material x) = p)"
        by (intro snoc.IH [OF l]) (use snoc snoc.prems(3) in auto)
      ultimately show ?thesis using snoc by (auto simp: collide_def intro: list_all2_appendI)
    qed
  qed
qed

end

section \<open>The events of the ledger\<close>

definition link_material :: "event \<Rightarrow> string" where
  "link_material e = chain_material (ev_previous_hash e) (event_body e)"

definition wf_event :: "event \<Rightarrow> bool" where
  "wf_event e \<longleftrightarrow> wf_json (ev_payload e) \<and> wf_json (ev_correlation e)"

text \<open>
  The same event in every field of its body, payload and correlation up to the order of their keys.
  The body leaves out the hash, which is computed from it, and the authentication tag.
\<close>

definition same_event :: "event \<Rightarrow> event \<Rightarrow> bool" where
  "same_event e f \<longleftrightarrow>
     ev_seq e = ev_seq f \<and> ev_id e = ev_id f \<and> ev_episode_id e = ev_episode_id f
     \<and> ev_timestamp e = ev_timestamp f \<and> ev_kind e = ev_kind f \<and> ev_schema_version e = ev_schema_version f
     \<and> ev_aggregate_type e = ev_aggregate_type f \<and> ev_aggregate_id e = ev_aggregate_id f
     \<and> sort_keys (ev_correlation e) = sort_keys (ev_correlation f)
     \<and> ev_causal_event_id e = ev_causal_event_id f \<and> sort_keys (ev_payload e) = sort_keys (ev_payload f)
     \<and> ev_previous_hash e = ev_previous_hash f"

lemma json_of_text_inj: "sort_keys (json_of_text v) = sort_keys (json_of_text w) \<longleftrightarrow> v = w"
  by (cases v; cases w) (simp_all add: json_of_text_def)

lemma wf_linked_body: "wf_event e \<Longrightarrow> wf_json (event_body e)"
  by (auto simp: event_body_def wf_event_def json_of_text_def split: option.splits)

interpretation history: hash_links ev_previous_hash ev_event_hash link_material wf_event same_event sha
  for sha :: "string \<Rightarrow> string"
proof
  fix e f :: event
  assume wf: "wf_event e" "wf_event f" and m: "link_material e = link_material f"
  have "ev_previous_hash e = ev_previous_hash f" and body: "sort_keys (event_body e) = sort_keys (event_body f)"
    using chain_material_inj [OF wf_linked_body wf_linked_body, OF wf m [unfolded link_material_def]] by simp_all
  note member = sort_keys_member [OF body [unfolded event_body_def]]
  have "same_event e f"
    using member [of "''seq''"] member [of "''id''"] member [of "''episode_id''"] member [of "''timestamp''"]
      member [of "''kind''"] member [of "''schema_version''"] member [of "''aggregate_type''"] member [of "''aggregate_id''"]
      member [of "''correlation''"] member [of "''causal_event_id''"] member [of "''payload''"]
      member [of "''previous_hash''"]
    by (simp add: same_event_def json_of_text_inj)
  with \<open>ev_previous_hash e = ev_previous_hash f\<close> show "ev_previous_hash e = ev_previous_hash f \<and> same_event e f" by simp
qed

section \<open>What verifying the heads reads\<close>

definition up_to :: "nat option \<Rightarrow> nat \<Rightarrow> bool" where
  "up_to height n \<longleftrightarrow> (case height of None \<Rightarrow> True | Some h \<Rightarrow> n \<le> h)"

text \<open>The rows up to a height\<close>

definition rows_up_to :: "nat option \<Rightarrow> ledger \<Rightarrow> stored_event list" where
  "rows_up_to height l = filter (\<lambda>r. up_to height (se_seq r)) (rows_in_order l)"

definition read_as :: "ledger_env \<Rightarrow> ledger \<Rightarrow> stored_event \<Rightarrow> event \<Rightarrow> bool" where
  "read_as E l r e \<longleftrightarrow> (\<exists>x. event_from_row r = Inr x \<and> authenticate E (lg_auth l) x = Inr e)"

lemma read_as_seq: "read_as E l r e \<Longrightarrow> ev_seq e = se_seq r \<and> ev_episode_id e = se_episode r"
  by (auto simp: read_as_def event_from_row_def authenticate_def splits_result split: option.splits if_splits)

lemma authenticated_events_Inr: "authenticated_events E l rows = Inr es \<longleftrightarrow> list_all2 (read_as E l) rows es"
proof -
  have "authenticated_events E l rows = Inr es \<longleftrightarrow>
      (\<exists>xs. list_all2 (\<lambda>r x. event_from_row r = Inr x) rows xs \<and> list_all2 (\<lambda>x e. authenticate E (lg_auth l) x = Inr e) xs es)"
    by (auto simp: authenticated_events_def splits_result map_result_list_all2)
  also have "\<dots> \<longleftrightarrow> list_all2 (read_as E l) rows es"
  proof -
    have "read_as E l = (\<lambda>r x. event_from_row r = Inr x) OO (\<lambda>x e. authenticate E (lg_auth l) x = Inr e)"
      by (auto simp: fun_eq_iff read_as_def OO_def)
    then have "list_all2 (read_as E l) = list_all2 (\<lambda>r x. event_from_row r = Inr x) OO list_all2 (\<lambda>x e. authenticate E (lg_auth l) x = Inr e)"
      by (simp only: list.rel_compp)
    then show ?thesis by (simp add: relcompp_apply)
  qed
  finally show ?thesis .
qed

lemma check_batch_reads:
  "check_batch E height es hs = Inr (hs', stop) \<Longrightarrow>
     fold_result (check_link E) (takeWhile (\<lambda>e. up_to height (ev_seq e)) es) hs = Inr hs'
     \<and> stop = (\<exists>e\<in>set es. \<not> up_to height (ev_seq e))"
proof (induction es arbitrary: hs)
  case (Cons e es)
  have "(case height of None \<Rightarrow> False | Some n \<Rightarrow> n < ev_seq e) = (\<not> up_to height (ev_seq e))"
    by (auto simp: up_to_def split: option.splits)
  with Cons show ?case by (auto simp: splits_result split: if_splits)
qed simp

lemma up_to_mono: "up_to height n \<Longrightarrow> m \<le> n \<Longrightarrow> up_to height m"
  by (auto simp: up_to_def split: option.splits)

lemma takeWhile_sorted:
  assumes "sorted (map f xs)" and "\<And>x y. Q (f y) \<Longrightarrow> f x \<le> f y \<Longrightarrow> Q (f x)"
  shows "takeWhile (\<lambda>x. Q (f x)) xs = filter (\<lambda>x. Q (f x)) xs"
  using assms(1)
proof (induction xs)
  case (Cons x xs)
  then show ?case using assms(2) [of _ x] by (auto intro!: filter_False [symmetric])
qed simp

lemma read_as_seqs: "list_all2 (read_as E l) rows es \<Longrightarrow> map ev_seq es = map se_seq rows"
  by (induction rule: list_all2_induct) (auto dest: read_as_seq)

lemma filter_list_all2: "list_all2 R xs ys \<Longrightarrow> (\<And>x y. R x y \<Longrightarrow> P x = Q y) \<Longrightarrow> list_all2 R (filter P xs) (filter Q ys)"
  by (induction rule: list_all2_induct) auto

lemma check_batches_reads:
  "\<lbrakk>check_batches E l height rows hs = Inr hs'; sorted (map se_seq rows)\<rbrakk> \<Longrightarrow>
     \<exists>es. list_all2 (read_as E l) (filter (\<lambda>r. up_to height (se_seq r)) rows) es \<and> fold_result (check_link E) es hs = Inr hs'"
proof (induction E l height rows hs rule: check_batches.induct)
  case (1 E l height rows hs)
  show ?case
  proof (cases "rows = []")
    case False
    let ?in = "\<lambda>r. up_to height (se_seq r)" and ?ev_in = "\<lambda>e. up_to height (ev_seq e)"
    obtain es hs1 stop where es: "authenticated_events E l (take 1000 rows) = Inr es"
      and batch: "check_batch E height es hs = Inr (hs1, stop)"
      and rest: "if stop then hs' = hs1 else check_batches E l height (drop 1000 rows) hs1 = Inr hs'"
      using "1.prems"(1) False by (subst (asm) check_batches.simps) (auto simp: splits_result split: if_splits)
    have read: "list_all2 (read_as E l) (take 1000 rows) es" using es by (simp add: authenticated_events_Inr)
    have "sorted (map se_seq (take 1000 rows @ drop 1000 rows))" using "1.prems"(2) by simp
    then have s: "sorted (map se_seq (take 1000 rows))" "sorted (map se_seq (drop 1000 rows))"
      and cross: "\<forall>r\<in>set (take 1000 rows). \<forall>q\<in>set (drop 1000 rows). se_seq r \<le> se_seq q"
      unfolding map_append sorted_append by auto
    then have "takeWhile ?ev_in es = filter ?ev_in es"
      by (intro takeWhile_sorted) (auto simp: read_as_seqs [OF read] intro: up_to_mono)
    with check_batch_reads [OF batch] have link: "fold_result (check_link E) (filter ?ev_in es) hs = Inr hs1"
      and stop: "stop = (\<exists>e\<in>set es. \<not> ?ev_in e)" by simp_all
    have first: "list_all2 (read_as E l) (filter ?in (take 1000 rows)) (filter ?ev_in es)"
      using read by (rule filter_list_all2) (simp add: read_as_seq)
    have split: "filter ?in rows = filter ?in (take 1000 rows) @ filter ?in (drop 1000 rows)"
      by (metis append_take_drop_id filter_append)
    show ?thesis
    proof (cases stop)
      case True
      then obtain e where "e \<in> set es" "\<not> ?ev_in e" using stop by blast
      then obtain r where "r \<in> set (take 1000 rows)" "\<not> ?in r"
        using read_as_seqs [OF read] by (metis (no_types, lifting) image_iff list.set_map)
      then have "filter ?in (drop 1000 rows) = []"
        using cross up_to_mono by (fastforce simp: filter_eq_Nil_iff)
      with first link rest True split show ?thesis by auto
    next
      case cont: False
      from "1.IH" [OF False es batch _ cont] rest cont s(2) obtain fs
        where "list_all2 (read_as E l) (filter ?in (drop 1000 rows)) fs" "fold_result (check_link E) fs hs1 = Inr hs'"
        by auto
      with first link show ?thesis
        by (intro exI [of _ "filter ?ev_in es @ fs"]) (simp add: split fold_result_append list_all2_appendI)
    qed
  qed (use "1.prems" in \<open>auto simp: check_batches.simps\<close>)
qed

lemma verified_heads_reads:
  assumes "verified_heads E height l = Inr hs"
  obtains es where "authenticated_events E l (rows_up_to height l) = Inr es" and "fold_result (check_link E) es [] = Inr hs"
proof -
  have "sorted (map se_seq (rows_in_order l))" by (simp add: rows_in_order_def)
  from check_batches_reads [OF assms [unfolded verified_heads_def] this] that show thesis
    by (auto simp: authenticated_events_Inr rows_up_to_def)
qed

text \<open>The links that were checked are a chain for each episode, the heads are their last events.\<close>

lemma checked_links:
  "fold_result (check_link E) es [] = Inr hs \<Longrightarrow>
     history.linked (le_sha E) ZERO_HASH (filter (\<lambda>e. ev_episode_id e = ep) es)
     \<and> map_of hs ep = (let own = filter (\<lambda>e. ev_episode_id e = ep) es in
         if own = [] then None else Some (ev_seq (last own), ev_event_hash (last own)))"
proof (induction es arbitrary: hs rule: rev_induct)
  case (snoc e es)
  then obtain hs0 where old: "fold_result (check_link E) es [] = Inr hs0" and new: "check_link E e hs0 = Inr hs"
    by (auto simp: fold_result_append splits_result)
  note IH = snoc.IH [OF old]
  show ?case
  proof (cases "ev_episode_id e = ep")
    case False
    with IH check_link_keys [OF new] show ?thesis by simp
  next
    case True
    let ?own = "filter (\<lambda>e. ev_episode_id e = ep) es"
    have "head_hash hs0 ep = history.tip ZERO_HASH ?own"
      using IH by (auto simp: head_hash_def history.tip_def Let_def)
    then have "ev_previous_hash e = history.tip ZERO_HASH ?own" "ev_event_hash e = le_sha E (link_material e)"
      using new True by (auto simp: check_link_def Let_def link_material_def event_hash_of_def split: if_splits)
    with IH True check_link_keys [OF new] show ?thesis by (simp add: history.linked_snoc)
  qed
qed simp

section \<open>What a root commits to\<close>

text \<open>
  The texts that were hashed for a root: the heads, and for every event the material of its link. The
  hash is broken on two such lists when texts of them collide or one hashes to the hash of no event.
\<close>

definition hashed_texts :: "heads \<Rightarrow> event list \<Rightarrow> string list" where
  "hashed_texts hs es = canonical_json (heads_json hs) # map link_material es"

definition hash_broken :: "(string \<Rightarrow> string) \<Rightarrow> string list \<Rightarrow> string list \<Rightarrow> bool" where
  "hash_broken sha xs ys \<longleftrightarrow>
     (\<exists>x\<in>set xs. \<exists>y\<in>set ys. x \<noteq> y \<and> sha x = sha y) \<or> (\<exists>x\<in>set xs \<union> set ys. sha x = ZERO_HASH)"

text \<open>Histories are the same when every episode has the same events in the same order.\<close>

definition same_history :: "event list \<Rightarrow> event list \<Rightarrow> bool" where
  "same_history es fs \<longleftrightarrow>
     (\<forall>ep. list_all2 same_event (filter (\<lambda>e. ev_episode_id e = ep) es) (filter (\<lambda>e. ev_episode_id e = ep) fs))"

lemma wf_heads_json: "wf_json (heads_json hs)"
  by (induction hs) (auto simp: heads_json_def head_json_def)

lemma heads_json_inj:
  assumes "canonical_json (heads_json hs) = canonical_json (heads_json gs)"
  shows "map_of hs ep = map_of gs ep"
proof -
  have "sort_keys (heads_json hs) = sort_keys (heads_json gs)"
    using assms by (simp add: canonical_json_inj wf_heads_json)
  then have "map_option sort_keys (map_of (map (map_prod id head_json) hs) ep)
      = map_option sort_keys (map_of (map (map_prod id head_json) gs) ep)"
    unfolding heads_json_def by (rule sort_keys_member)
  then show ?thesis
    by (auto simp: map_of_heads head_json_def map_option_case prod_eq_iff split: option.splits)
qed

lemma heads_commit:
  assumes "fold_result (check_link E) es [] = Inr hs" and "fold_result (check_link E') fs [] = Inr gs"
    and "le_sha E' = le_sha E" and "\<forall>e\<in>set es \<union> set fs. wf_event e"
    and "le_sha E (canonical_json (heads_json hs)) = le_sha E (canonical_json (heads_json gs))"
  shows "same_history es fs \<or> hash_broken (le_sha E) (hashed_texts hs es) (hashed_texts gs fs)"
proof (cases "canonical_json (heads_json hs) = canonical_json (heads_json gs)")
  case False
  with assms(5) show ?thesis by (auto simp: hash_broken_def hashed_texts_def)
next
  case True
  show ?thesis
  proof (intro disjCI)
    assume sound: "\<not> hash_broken (le_sha E) (hashed_texts hs es) (hashed_texts gs fs)"
    show "same_history es fs"
      unfolding same_history_def
    proof
      fix ep
      let ?es = "filter (\<lambda>e. ev_episode_id e = ep) es" and ?fs = "filter (\<lambda>e. ev_episode_id e = ep) fs"
      note l1 = checked_links [OF assms(1), of ep] and l2 = checked_links [OF assms(2), of ep]
      have "(let own = ?es in if own = [] then None else Some (ev_seq (last own), ev_event_hash (last own)))
          = (let own = ?fs in if own = [] then None else Some (ev_seq (last own), ev_event_hash (last own)))"
        using l1 l2 heads_json_inj [OF True, of ep] by simp
      then have "history.tip ZERO_HASH ?es = history.tip ZERO_HASH ?fs"
        by (simp add: history.tip_def Let_def split: if_splits)
      moreover have "\<forall>e\<in>set ?es \<union> set ?fs. wf_event e" using assms(4) by auto
      ultimately have "list_all2 same_event ?es ?fs \<or> history.collide (le_sha E) ?es ?fs
          \<or> (\<exists>e\<in>set ?es \<union> set ?fs. le_sha E (link_material e) = ZERO_HASH)"
        using l1 l2 assms(3) by (intro history.tip_commits) simp_all
      then show "list_all2 same_event ?es ?fs"
        using sound by (auto simp: hash_broken_def hashed_texts_def history.collide_def)
    qed
  qed
qed

lemma root_commits:
  assumes "chain_state_of E h l = Inr c" and "chain_state_of E' h' l' = Inr c'"
    and "le_sha E' = le_sha E" and "ch_root c = ch_root c'"
  obtains hs es gs fs where "authenticated_events E l (rows_up_to h l) = Inr es"
    and "authenticated_events E' l' (rows_up_to h' l') = Inr fs"
    and "(\<forall>e\<in>set es \<union> set fs. wf_event e)
      \<Longrightarrow> same_history es fs \<or> hash_broken (le_sha E) (hashed_texts hs es) (hashed_texts gs fs)"
proof -
  obtain hs where hs: "verified_heads E h l = Inr hs" and c: "ch_root c = le_sha E (canonical_json (heads_json hs))"
    using assms(1) by (auto simp: chain_state_of_def splits_result)
  obtain gs where gs: "verified_heads E' h' l' = Inr gs" and c': "ch_root c' = le_sha E' (canonical_json (heads_json gs))"
    using assms(2) by (auto simp: chain_state_of_def splits_result)
  obtain es where es: "authenticated_events E l (rows_up_to h l) = Inr es" "fold_result (check_link E) es [] = Inr hs"
    by (rule verified_heads_reads [OF hs])
  obtain fs where fs: "authenticated_events E' l' (rows_up_to h' l') = Inr fs" "fold_result (check_link E') fs [] = Inr gs"
    by (rule verified_heads_reads [OF gs])
  have "le_sha E (canonical_json (heads_json hs)) = le_sha E (canonical_json (heads_json gs))"
    using assms(3,4) c c' by simp
  from that [OF es(1) fs(1)] heads_commit [OF es(2) fs(2) assms(3) _ this] show thesis by blast
qed

section \<open>Earlier heights of a ledger that has grown\<close>

lemma check_batch_succeeds:
  "fold_result (check_link E) es hs = Inr hs1 \<Longrightarrow>
     \<exists>hs' stop. check_batch E height es hs = Inr (hs', stop) \<and> (\<not> stop \<longrightarrow> hs' = hs1)"
  by (induction es arbitrary: hs) (auto simp: splits_result)

lemma check_batches_succeed:
  assumes "ledger_holds E es hs l"
  shows "set fs \<subseteq> set es \<Longrightarrow> fold_result (check_link E) fs hs0 = Inr hs1 \<Longrightarrow>
     \<exists>hs'. check_batches E l height (map stored_of fs) hs0 = Inr hs'"
proof (induction fs arbitrary: hs0 rule: length_induct)
  case (1 fs)
  show ?case
  proof (cases "fs = []")
    case False
    have sub: "set (take 1000 fs) \<subseteq> set es" "set (drop 1000 fs) \<subseteq> set es"
      using 1(2) by (meson order_trans set_drop_subset set_take_subset)+
    have "fold_result (check_link E) (take 1000 fs @ drop 1000 fs) hs0 = Inr hs1" using 1(3) by simp
    then obtain hs2 where link: "fold_result (check_link E) (take 1000 fs) hs0 = Inr hs2"
      and rest: "fold_result (check_link E) (drop 1000 fs) hs2 = Inr hs1"
      unfolding fold_result_append by (auto simp: splits_result)
    have "fold_result (check_link E) (map resorted xs) h = fold_result (check_link E) xs h" for xs h
      by (induction xs arbitrary: h) (auto intro: and_then_cong)
    with link check_batch_succeeds obtain hs3 stop
      where "check_batch E height (map resorted (take 1000 fs)) hs0 = Inr (hs3, stop)" "\<not> stop \<longrightarrow> hs3 = hs2" by metis
    moreover have "\<exists>hs'. check_batches E l height (map stored_of (drop 1000 fs)) hs2 = Inr hs'"
      using 1(1) False sub(2) rest by simp
    ultimately show ?thesis
      using False authenticated_stored [OF assms sub(1)]
      by (subst check_batches.simps) (auto simp: take_map drop_map)
  qed (simp add: check_batches.simps)
qed

text \<open>The height of a ledger, and what is read up to it later\<close>

lemma sorted_last: "sorted (map f xs) \<Longrightarrow> x \<in> set xs \<Longrightarrow> f x \<le> f (last xs)"
  by (cases xs rule: rev_cases) (auto simp: sorted_append)

lemma fold_max_in: "fold max xs (a::nat) = a \<or> fold max xs a \<in> set xs"
proof (induction xs arbitrary: a)
  case (Cons x xs)
  from Cons [of "max x a"] show ?case by (auto simp: max_def)
qed simp

lemma height_of_holds:
  assumes "ledger_holds E es hs l" and "chain_state_of E None l = Inr c" and "es \<noteq> []"
  shows "ch_root c = le_sha E (canonical_json (heads_json hs))" and "\<forall>e\<in>set es. ev_seq e \<le> ch_height c"
    and "\<exists>e\<in>set es. ev_seq e = ch_height c"
proof -
  have c: "c = \<lparr>ch_height = fold max (map (fst \<circ> snd) hs) 0, ch_root = le_sha E (canonical_json (heads_json hs)),
      ch_heads = sort_key fst hs\<rparr>"
    using assms(2) verified_heads_holds [OF assms(1)] by (simp add: chain_state_of_def)
  then show "ch_root c = le_sha E (canonical_json (heads_json hs))" by simp
  have height: "ch_height c = fold max (map (fst \<circ> snd) hs) 0" by (simp add: c)
  note links = checked_links [OF ledger_holdsD(6) [OF assms(1)]]
  show le: "\<forall>e\<in>set es. ev_seq e \<le> ch_height c"
  proof
    fix e assume e: "e \<in> set es"
    let ?own = "filter (\<lambda>x. ev_episode_id x = ev_episode_id e) es"
    have own: "?own \<noteq> []" "e \<in> set ?own" using e by (auto simp: filter_eq_Nil_iff)
    have "sorted (map ev_seq ?own)"
      using ledger_holdsD(3) [OF assms(1)] by (simp add: strict_sorted_iff sorted_filter)
    then have "ev_seq e \<le> ev_seq (last ?own)" using own(2) by (rule sorted_last)
    moreover have "(ev_episode_id e, ev_seq (last ?own), ev_event_hash (last ?own)) \<in> set hs"
      using links [of "ev_episode_id e"] own(1) by (auto simp: Let_def dest: map_of_SomeD)
    then have "ev_seq (last ?own) \<le> ch_height c" unfolding height by (intro fold_max_ge) force
    ultimately show "ev_seq e \<le> ch_height c" by simp
  qed
  have "distinct (map fst hs)" using chained_distinct [OF ledger_holdsD(6) [OF assms(1)]] by simp
  moreover have "fold max (map (fst \<circ> snd) hs) 0 = 0 \<or> fold max (map (fst \<circ> snd) hs) 0 \<in> set (map (fst \<circ> snd) hs)"
    by (rule fold_max_in)
  ultimately consider "ch_height c = 0" | ep h where "map_of hs ep = Some (ch_height c, h)"
    unfolding height by fastforce
  then show "\<exists>e\<in>set es. ev_seq e = ch_height c"
  proof cases
    case 1
    with le assms(3) show ?thesis by (cases es) auto
  next
    case 2
    let ?own = "filter (\<lambda>x. ev_episode_id x = ep) es"
    from 2 have "?own \<noteq> []" "ev_seq (last ?own) = ch_height c"
      using links [of ep] by (auto simp: Let_def split: if_splits)
    moreover from this have "last ?own \<in> set es" using last_in_set [of ?own] by auto
    ultimately show ?thesis by blast
  qed
qed

text \<open>A ledger that holds more events has at the old height the state it had then.\<close>

lemma chain_state_grown:
  assumes "ledger_holds E es hs l" and "ledger_holds E (es @ new) hs' l'" and "es \<noteq> []"
    and "chain_state_of E None l = Inr c"
  shows "chain_state_of E (Some (ch_height c)) l' = Inr c"
proof -
  note height = height_of_holds [OF assms(1,4,3)]
  have "\<forall>e\<in>set new. ch_height c < ev_seq e"
    using height(3) ledger_holdsD(3) [OF assms(2)] by (auto simp: sorted_wrt_append)
  then have "filter (\<lambda>e. up_to (Some (ch_height c)) (ev_seq e)) (es @ new) = es"
    using height(2) by (auto simp: up_to_def filter_eq_Nil_iff intro: filter_True)
  then have rows: "rows_up_to (Some (ch_height c)) l' = map stored_of es"
    by (simp add: rows_up_to_def rows_in_order_holds [OF assms(2)] filter_map comp_def stored_of_def del: filter_append map_append)
  have read: "authenticated_events E l' (rows_up_to (Some (ch_height c)) l') = Inr (map resorted es)"
    unfolding rows by (rule authenticated_stored [OF assms(2)]) simp
  obtain gs where gs: "verified_heads E (Some (ch_height c)) l' = Inr gs"
    using check_batches_succeed [OF assms(2) order_refl ledger_holdsD(6) [OF assms(2)]]
    by (auto simp: verified_heads_def rows_in_order_holds [OF assms(2)])
  have "fold_result (check_link E) (map resorted es) [] = Inr gs"
    using verified_heads_reads [OF gs] read by auto
  moreover have "fold_result (check_link E) (map resorted xs) h = fold_result (check_link E) xs h" for xs h
    by (induction xs arbitrary: h) (auto intro: and_then_cong)
  ultimately have "gs = hs" using ledger_holdsD(6) [OF assms(1)] by simp
  with gs verified_heads_holds [OF assms(1)] assms(4) show ?thesis by (simp add: chain_state_of_def)
qed

end
