(* ===== verification/Anchors.thy ===== *)
theory Anchors
  imports Ledger_History
begin

text \<open>
  \<open>verification/anchors.py\<close>: copies of the root of the chain in an append-only file outside the ledger,
  and their comparison with the roots of the chain as it stands. The sink is the text of its file;
  timestamps are their texts, and \<open>parse\<close> is \<open>parse_datetime\<close> followed by \<open>isoformat_utc\<close>. The checks
  of the path of the sink are not modelled.
\<close>

section \<open>Records\<close>

record anchor_record =
  an_ledger_id :: string
  an_scope :: string
  an_chain_height :: int
  an_root_hash :: string
  an_hash_algorithm :: string
  an_created_at :: string
  an_package_version :: string
  an_record_version :: int

definition ANCHOR_RECORD_VERSION :: int where
  "ANCHOR_RECORD_VERSION = 1"

definition anchor_json :: "anchor_record \<Rightarrow> json" where
  "anchor_json r = JObj
     [(''chain_height'', JInt (an_chain_height r)), (''created_at'', JStr (an_created_at r)),
      (''hash_algorithm'', JStr (an_hash_algorithm r)), (''ledger_id'', JStr (an_ledger_id r)),
      (''package_version'', JStr (an_package_version r)), (''record_version'', JInt (an_record_version r)),
      (''root_hash'', JStr (an_root_hash r)), (''scope'', JStr (an_scope r))]"

definition ANCHOR_MALFORMED :: py_error where
  "ANCHOR_MALFORMED = RuntimeFailure ''malformed anchor record''"

text \<open>\<open>str(value[key])\<close> and \<open>int(value[key])\<close>\<close>

definition str_item :: "(string \<times> json) list \<Rightarrow> string \<Rightarrow> string result" where
  "str_item kvs k = and_then (dict_item kvs k) (\<lambda>v. Inr (py_str v))"

definition int_item :: "(string \<times> json) list \<Rightarrow> string \<Rightarrow> int result" where
  "int_item kvs k = and_then (dict_item kvs k) py_int"

definition anchor_fields :: "(string \<Rightarrow> string result) \<Rightarrow> (string \<times> json) list \<Rightarrow> anchor_record result" where
  "anchor_fields parse kvs =
     and_then (str_item kvs ''ledger_id'') (\<lambda>ledger.
     and_then (str_item kvs ''scope'') (\<lambda>scope.
     and_then (int_item kvs ''chain_height'') (\<lambda>height.
     and_then (str_item kvs ''root_hash'') (\<lambda>chain_root.
     and_then (str_item kvs ''hash_algorithm'') (\<lambda>algorithm.
     and_then (and_then (str_item kvs ''created_at'') parse) (\<lambda>created.
     and_then (str_item kvs ''package_version'') (\<lambda>package.
     and_then (py_int (dict_get kvs ''record_version'' (JInt ANCHOR_RECORD_VERSION))) (\<lambda>version.
       Inr \<lparr>an_ledger_id = ledger, an_scope = scope, an_chain_height = height, an_root_hash = chain_root,
            an_hash_algorithm = algorithm, an_created_at = created, an_package_version = package,
            an_record_version = version\<rparr>))))))))"

definition anchor_of_json :: "(string \<Rightarrow> string result) \<Rightarrow> json \<Rightarrow> anchor_record result" where
  "anchor_of_json parse v =
     (case v of
        JObj kvs \<Rightarrow> (case anchor_fields parse kvs of Inl e \<Rightarrow> Inl ANCHOR_MALFORMED | Inr r \<Rightarrow> Inr r)
      | _ \<Rightarrow> Inl (RuntimeFailure ''anchor record must be an object''))"

section \<open>The file\<close>

text \<open>\<open>str.splitlines\<close> on the characters of the model\<close>

definition line_break :: "char \<Rightarrow> bool" where
  "line_break c = (let n = of_char c :: nat in 10 \<le> n \<and> n \<le> 13 \<or> 28 \<le> n \<and> n \<le> 30 \<or> n = 133)"

fun splitlines_from :: "string \<Rightarrow> string \<Rightarrow> string list" where
  "splitlines_from line [] = (if line = [] then [] else [line])"
| "splitlines_from line (c # cs) =
     (if c = CHR 0x0D then line # (case cs of d # ds \<Rightarrow> if d = CHR 0x0A then splitlines_from [] ds else splitlines_from [] cs
                                           | [] \<Rightarrow> [])
      else if line_break c then line # splitlines_from [] cs
      else splitlines_from (line @ [c]) cs)"

definition splitlines :: "string \<Rightarrow> string list" where
  "splitlines s = splitlines_from [] s"

text \<open>A line is \<open>json.dumps(record.as_json(), sort_keys=True)\<close>; on ASCII text that is the canonical text.\<close>

definition publish :: "anchor_record \<Rightarrow> string \<Rightarrow> string" where
  "publish r file = file @ canonical_json (anchor_json r) @ [CHR 0x0A]"

definition fetch_line :: "(string \<Rightarrow> string result) \<Rightarrow> string \<Rightarrow> anchor_record result" where
  "fetch_line parse line =
     (case json_loads line of
        Inl e \<Rightarrow> Inl (RuntimeFailure ''not valid JSON'')
      | Inr v \<Rightarrow> anchor_of_json parse v)"

definition fetch :: "(string \<Rightarrow> string result) \<Rightarrow> int \<Rightarrow> string \<Rightarrow> anchor_record list result" where
  "fetch parse since file =
     and_then (map_result (fetch_line parse) (filter (\<lambda>line. strip line \<noteq> []) (splitlines file))) (\<lambda>rs.
       Inr (filter (\<lambda>r. since \<le> an_chain_height r) rs))"

section \<open>Comparison\<close>

record anchor_comparison =
  cm_chain_height :: int
  cm_anchored_root :: string
  cm_local_root :: "string option"
  cm_status :: string

definition CHAIN_ROOT_ALGORITHM :: string where
  "CHAIN_ROOT_ALGORITHM = ''sha256-canonical-json-heads''"

definition build_record :: "chain_state \<Rightarrow> string \<Rightarrow> string \<Rightarrow> string \<Rightarrow> string \<Rightarrow> anchor_record" where
  "build_record c ledger scope created package =
     \<lparr>an_ledger_id = ledger, an_scope = scope, an_chain_height = int (ch_height c), an_root_hash = ch_root c,
      an_hash_algorithm = CHAIN_ROOT_ALGORITHM, an_created_at = created, an_package_version = package,
      an_record_version = ANCHOR_RECORD_VERSION\<rparr>"

definition compare_anchor :: "(int \<Rightarrow> string result) \<Rightarrow> int \<Rightarrow> anchor_record \<Rightarrow> anchor_comparison result" where
  "compare_anchor local_root_at current r =
     (if current < an_chain_height r
      then Inr \<lparr>cm_chain_height = an_chain_height r, cm_anchored_root = an_root_hash r, cm_local_root = None,
                cm_status = ''unreachable''\<rparr>
      else and_then (local_root_at (an_chain_height r)) (\<lambda>local_root.
        Inr \<lparr>cm_chain_height = an_chain_height r, cm_anchored_root = an_root_hash r,
             cm_local_root = Some local_root,
             cm_status = (if local_root = an_root_hash r then ''match'' else ''mismatch'')\<rparr>))"

definition compare_against_anchors ::
  "(int \<Rightarrow> string result) \<Rightarrow> int \<Rightarrow> anchor_record list \<Rightarrow> anchor_comparison list result" where
  "compare_against_anchors local_root_at current rs =
     map_result (compare_anchor local_root_at current) (sort_key an_chain_height rs)"

text \<open>
  \<open>store.chain_state(up_to_height=height).root_hash\<close>; sequence numbers begin at 1, so a negative height
  reads what the height 0 reads.
\<close>

definition local_root :: "ledger_env \<Rightarrow> ledger \<Rightarrow> int \<Rightarrow> string result" where
  "local_root E l height = and_then (chain_state_of E (Some (nat height)) l) (\<lambda>c. Inr (ch_root c))"

end
