(* ===== verification/Anchor_Props.thy ===== *)
theory Anchor_Props
  imports Anchors
begin

text \<open>
  What an anchor outside the ledger is worth: while the ledger only grows it matches, and when it
  matches the history up to its height is the one that was anchored, unless the hash is broken.
\<close>

section \<open>The file\<close>

definition ascii_text :: "string \<Rightarrow> bool" where
  "ascii_text s \<longleftrightarrow> list_all (\<lambda>c. (of_char c :: nat) < 128) s"

definition plain_record :: "anchor_record \<Rightarrow> bool" where
  "plain_record r \<longleftrightarrow> list_all ascii_text
     [an_ledger_id r, an_scope r, an_root_hash r, an_hash_algorithm r, an_created_at r, an_package_version r]"

definition unbroken :: "string \<Rightarrow> bool" where
  "unbroken s \<longleftrightarrow> (\<forall>c\<in>set s. \<not> line_break c)"

lemma hex_digit_code: "d < 16 \<Longrightarrow> 48 \<le> (of_char (hex_digit d) :: nat) \<and> (of_char (hex_digit d) :: nat) < 128"
  by (auto simp: hex_digit_def)

lemma unbroken_escape: "(of_char c :: nat) < 128 \<Longrightarrow> unbroken (escape_char c)"
proof -
  assume c: "(of_char c :: nat) < 128"
  have hex: "\<not> line_break (hex_digit d)" if "d < 16" for d
    using hex_digit_code [OF that] by (auto simp: line_break_def Let_def)
  have plain: "\<not> line_break c" if "32 \<le> (of_char c :: nat)"
    using that c by (auto simp: line_break_def Let_def)
  have "(of_char c :: nat) < 32 \<Longrightarrow> \<not> line_break (hex_digit (of_char c div 16)) \<and> \<not> line_break (hex_digit (of_char c mod 16))"
    by (intro conjI hex) auto
  moreover have "\<not> line_break (CHR 0x5C)" "\<not> line_break (CHR ''n'')" "\<not> line_break (CHR ''r'')" "\<not> line_break (CHR ''t'')"
    "\<not> line_break (CHR ''b'')" "\<not> line_break (CHR ''f'')" "\<not> line_break (CHR ''u'')" "\<not> line_break (CHR ''0'')"
    by (simp_all add: line_break_def)
  ultimately show ?thesis using plain by (auto simp: unbroken_def escape_char_def Let_def)
qed

lemma unbroken_simps [simp]: "unbroken []" "unbroken (c # s) \<longleftrightarrow> \<not> line_break c \<and> unbroken s"
  "unbroken (s @ t) \<longleftrightarrow> unbroken s \<and> unbroken t"
  by (auto simp: unbroken_def)

lemma unbroken_quote: "ascii_text s \<Longrightarrow> unbroken (quote_str s)"
proof -
  assume "ascii_text s"
  then have "unbroken (concat (map escape_char s))"
    using unbroken_escape by (induction s) (auto simp: ascii_text_def)
  moreover have "\<not> line_break (CHR 0x22)" by (simp add: line_break_def)
  ultimately show ?thesis by (simp add: quote_str_def)
qed

lemma unbroken_int: "unbroken (show_int i)"
proof -
  have "number_char c \<Longrightarrow> \<not> line_break c" for c by (auto simp: number_char_def line_break_def Let_def)
  then show ?thesis using show_int_number_chars [of i] by (auto simp: unbroken_def list_all_iff)
qed

lemma anchor_json_sorted: "sort_keys (anchor_json r) = anchor_json r"
  by (simp add: anchor_json_def)

lemma ascii_keys: "list_all ascii_text [''chain_height'', ''created_at'', ''hash_algorithm'', ''ledger_id'',
    ''package_version'', ''record_version'', ''root_hash'', ''scope'']"
  by code_simp

lemma anchor_line_unbroken: "plain_record r \<Longrightarrow> unbroken (canonical_json (anchor_json r))"
  unfolding canonical_json_def anchor_json_sorted using ascii_keys
  by (simp add: anchor_json_def plain_record_def unbroken_quote unbroken_int line_break_def)

lemma anchor_line_head: "\<exists>s. canonical_json (anchor_json r) = CHR ''{'' # s"
  unfolding canonical_json_def anchor_json_sorted by (simp add: anchor_json_def)

lemma splitlines_from_line: "unbroken line \<Longrightarrow> splitlines_from acc (line @ CHR 0x0A # rest) = (acc @ line) # splitlines_from [] rest"
proof (induction line arbitrary: acc)
  case Nil
  show ?case by (simp add: line_break_def)
next
  case (Cons c line)
  then have "c \<noteq> CHR 0x0D" "\<not> line_break c" "unbroken line" by (auto simp: line_break_def)
  with Cons.IH [of "acc @ [c]"] show ?case by simp
qed

lemma anchor_readable: "readable (anchor_json r)"
  by (simp add: anchor_json_def)

lemma fetch_published_line:
  assumes "parse (an_created_at r) = Inr (an_created_at r)"
  shows "fetch_line parse (canonical_json (anchor_json r)) = Inr r"
proof -
  have "json_loads (canonical_json (anchor_json r)) = Inr (anchor_json r)"
    unfolding canonical_json_def anchor_json_sorted by (rule json_loads_print [OF anchor_readable])
  then show ?thesis
    using assms
    by (simp add: fetch_line_def anchor_of_json_def anchor_json_def anchor_fields_def str_item_def int_item_def
        dict_item_def dict_get_def)
qed

lemma strip_blank_iff: "strip s = [] \<longleftrightarrow> (\<forall>c\<in>set s. is_space c)"
proof -
  have "strip s = [] \<longleftrightarrow> (\<forall>c\<in>set (dropWhile is_space s). is_space c)"
    by (simp add: strip_def rstrip_chars_def lstrip_def)
  also have "\<dots> \<longleftrightarrow> dropWhile is_space s = []"
    using hd_dropWhile [of is_space s] by (cases "dropWhile is_space s") (auto dest: set_dropWhileD)
  finally show ?thesis by simp
qed

text \<open>
  What is published is fetched: the file of a sink to which records were published, one after the
  other, gives back exactly the records from the requested height on, in the order of publication.
\<close>
theorem published_anchors_fetched:
  assumes "list_all (\<lambda>r. plain_record r \<and> parse (an_created_at r) = Inr (an_created_at r)) rs"
  shows "fetch parse since (fold publish rs []) = Inr (filter (\<lambda>r. since \<le> an_chain_height r) rs)"
proof -
  have "fold publish rs f = f @ concat (map (\<lambda>r. canonical_json (anchor_json r) @ [CHR 0x0A]) rs)" for f
    by (induction rs arbitrary: f) (simp_all add: publish_def)
  moreover have "splitlines (concat (map (\<lambda>r. canonical_json (anchor_json r) @ [CHR 0x0A]) rs)) = map (\<lambda>r. canonical_json (anchor_json r)) rs"
    using assms by (induction rs) (simp_all add: splitlines_def splitlines_from_line anchor_line_unbroken)
  ultimately have lines: "splitlines (fold publish rs []) = map (\<lambda>r. canonical_json (anchor_json r)) rs" by simp
  have "strip (canonical_json (anchor_json r)) \<noteq> []" for r
    using anchor_line_head [of r] by (auto simp: strip_blank_iff is_space_def)
  then have "filter (\<lambda>line. strip line \<noteq> []) (splitlines (fold publish rs [])) = map (\<lambda>r. canonical_json (anchor_json r)) rs"
    unfolding lines by (induction rs) simp_all
  moreover have "map_result (fetch_line parse) (map (\<lambda>r. canonical_json (anchor_json r)) rs) = Inr (map id rs)"
    by (rule map_result_map) (use assms fetch_published_line in \<open>auto simp: list_all_iff\<close>)
  ultimately show ?thesis by (simp add: fetch_def)
qed

section \<open>The comparison\<close>

text \<open>
  C31. Honest growth is never taken for tampering: an anchor of a reachable ledger with events matches
  after whatever requests were appended to it, and whatever was reserved or rebuilt, since, as long as
  nothing was purged. The requests are those a replay can repeat (\<open>request_ok\<close>), those of the public
  API among them.
\<close>
theorem grown_ledger_matches_anchor:
  assumes "reachable E l" and "lg_events l \<noteq> []" and "chain_state_of E None l = Inr c" and "(grows E)\<^sup>*\<^sup>* l l'"
    and "chain_state_of E None l' = Inr c'"
  shows "compare_against_anchors (local_root E l') (int (ch_height c')) [build_record c ledger_id scope created package]
    = Inr [\<lparr>cm_chain_height = int (ch_height c), cm_anchored_root = ch_root c, cm_local_root = Some (ch_root c),
            cm_status = ''match''\<rparr>]"
proof -
  obtain es hs bs where ok: "ledger_ok E es hs bs l" using reachable_ok [OF assms(1)] by blast
  note h = ledger_okD(1) [OF ok]
  obtain new hs' more where "ledger_ok E (es @ new) hs' (bs @ more) l'"
    using grows_many_ok [OF assms(4) ok] by blast
  note h' = ledger_okD(1) [OF this]
  have "es \<noteq> []" using assms(2) ledger_holdsD(1) [OF h] by auto
  then have "chain_state_of E (Some (ch_height c)) l' = Inr c" using chain_state_grown [OF h h'] assms(3) by simp
  moreover have "ch_height c \<le> ch_height c'"
  proof -
    obtain e where "e \<in> set es" "ev_seq e = ch_height c" using height_of_holds(3) [OF h assms(3) \<open>es \<noteq> []\<close>] by blast
    moreover have "\<forall>x\<in>set (es @ new). ev_seq x \<le> ch_height c'"
      by (rule height_of_holds(2) [OF h' assms(5)]) (use \<open>es \<noteq> []\<close> in simp)
    with \<open>e \<in> set es\<close> have "ev_seq e \<le> ch_height c'" by simp
    ultimately show ?thesis by simp
  qed
  ultimately show ?thesis
    by (simp add: compare_against_anchors_def compare_anchor_def build_record_def local_root_def)
qed




section \<open>Examples\<close>

definition sample_record :: anchor_record where
  "sample_record =
     \<lparr>an_ledger_id = ''/srv/ledger.db'', an_scope = ''global'', an_chain_height = 7, an_root_hash = ''0a1b'',
      an_hash_algorithm = CHAIN_ROOT_ALGORITHM, an_created_at = ''2026-01-01T00:00:00.000000Z'',
      an_package_version = ''1.0'', an_record_version = 1\<rparr>"

theorem published_anchors_fetched_witness:
  "fetch Inr 5 (fold publish [sample_record\<lparr>an_chain_height := 3\<rparr>, sample_record] []) = Inr [sample_record]"
proof -
  have "plain_record sample_record" by code_simp
  then have "list_all (\<lambda>r. plain_record r \<and> (Inr (an_created_at r) :: string result) = Inr (an_created_at r))
      [sample_record\<lparr>an_chain_height := 3\<rparr>, sample_record]"
    by (simp add: plain_record_def)
  from published_anchors_fetched [OF this, of 5] show ?thesis by (simp add: sample_record_def)
qed

lemma sample_ledger_grown:
  obtains es l c where "sample_append ''ep'' ''f'' empty_ledger = Inr (es, l)" and "reachable sample_env l"
    and "lg_events l \<noteq> []" and "chain_state_of sample_env None l = Inr c"
proof -
  obtain l where l: "sample_append ''ep'' ''f'' empty_ledger = Inr ([sample_appended ''ep'' ''f''], l)"
    "lg_events l = [stored_of (sample_appended ''ep'' ''f'')]"
    by (rule sample_append_runs)
  have reach: "reachable sample_env l"
    by (rule reachable.grown [OF reachable.opened grows.appended [OF sample_request l(1)]])
  then obtain es hs bs where "ledger_ok sample_env es hs bs l" using reachable_ok by blast
  from verified_heads_holds [OF ledger_okD(1) [OF this]]
  obtain c where "chain_state_of sample_env None l = Inr c" by (simp add: chain_state_of_def)
  with l reach that show thesis by simp
qed

theorem grown_ledger_matches_anchor_witness:
  "\<exists>es l c. sample_append ''ep'' ''f'' empty_ledger = Inr (es, l) \<and> chain_state_of sample_env None l = Inr c
     \<and> compare_against_anchors (local_root sample_env l) (int (ch_height c)) [build_record c ''l'' ''global'' ''t'' ''v'']
        = Inr [\<lparr>cm_chain_height = int (ch_height c), cm_anchored_root = ch_root c, cm_local_root = Some (ch_root c),
            cm_status = ''match''\<rparr>]"
proof -
  obtain es l c where l: "sample_append ''ep'' ''f'' empty_ledger = Inr (es, l)" "reachable sample_env l"
    "lg_events l \<noteq> []" "chain_state_of sample_env None l = Inr c"
    by (rule sample_ledger_grown)
  with grown_ledger_matches_anchor [OF l(2-4) rtranclp.rtrancl_refl l(4)] show ?thesis by blast
qed


end
