(* ===== verification/Llm_Budget.thy ===== *)
theory Llm_Budget
  imports Ledger Validity "HOL-Library.List_Lexorder" "HOL-Library.Char_ord"
begin

text \<open>
  \<open>store.py\<close> and \<open>llm/client.py\<close>: calls of a model component. A call first reserves its share of the
  budget of the turn and of the episode, then asks the host's model, records what it used with a
  verdict and an attribution, and releases the reservation. The model, the validator of its answer,
  the redaction of secrets, SHA-256, identifiers and clocks are parameters.
\<close>

section \<open>Reservations\<close>

record llm_limits =
  lm_calls_turn :: int
  lm_calls_episode :: int
  lm_input_tokens :: int
  lm_output_tokens :: int

definition reserved :: "string \<Rightarrow> ledger \<Rightarrow> reservation list" where
  "reserved ep l = filter (\<lambda>r. rv_episode r = ep) (lg_reservations l)"

definition used_in_turn :: "string \<Rightarrow> int \<Rightarrow> db \<Rightarrow> nat" where
  "used_in_turn ep turn d =
     length (filter (\<lambda>r. cell r ''episode_id'' = JStr ep \<and> cell r ''turn_number'' = JInt turn) (d ''llm_usage''))"

definition reserved_in_turn :: "string \<Rightarrow> int \<Rightarrow> ledger \<Rightarrow> nat" where
  "reserved_in_turn ep turn l = length (filter (\<lambda>r. rv_turn r = turn) (reserved ep l))"

definition llm_usage_count :: "string \<Rightarrow> int \<Rightarrow> ledger \<Rightarrow> int" where
  "llm_usage_count ep turn l = int (used_in_turn ep turn (lg_db l))"

definition check_budget :: "llm_limits \<Rightarrow> string \<Rightarrow> int \<Rightarrow> int \<Rightarrow> int \<Rightarrow> row \<Rightarrow> ledger \<Rightarrow> unit result" where
  "check_budget lm ep turn input output episode l =
     and_then (require (int (used_in_turn ep turn (lg_db l)) + int (reserved_in_turn ep turn l) < lm_calls_turn lm)
        (LlmReservationError ''turn LLM call budget exhausted'')) (\<lambda>_.
     and_then (py_int (cell episode ''llm_calls_used'')) (\<lambda>calls.
     and_then (require (calls + int (length (reserved ep l)) < lm_calls_episode lm)
        (LlmReservationError ''episode LLM call budget exhausted'')) (\<lambda>_.
     and_then (py_int (cell episode ''input_tokens_used'')) (\<lambda>used.
     and_then (require (used + sum_list (map rv_input (reserved ep l)) + input \<le> lm_input_tokens lm)
        (LlmReservationError ''episode input-token budget exhausted'')) (\<lambda>_.
     and_then (py_int (cell episode ''output_tokens_used'')) (\<lambda>used.
     require (used + sum_list (map rv_output (reserved ep l)) + output \<le> lm_output_tokens lm)
        (LlmReservationError ''episode output-token budget exhausted'')))))))"

definition drop_stale :: "string \<Rightarrow> ledger \<Rightarrow> ledger" where
  "drop_stale cutoff l = l\<lparr>lg_reservations := filter (\<lambda>r. \<not> rv_created_at r < cutoff) (lg_reservations l)\<rparr>"

definition reserve_llm_budget ::
  "string \<Rightarrow> int \<Rightarrow> int \<Rightarrow> int \<Rightarrow> llm_limits \<Rightarrow> string \<Rightarrow> string \<Rightarrow> string \<Rightarrow> ledger \<Rightarrow> (string \<times> ledger) result" where
  "reserve_llm_budget ep turn input output lm rid now cutoff l =
     (if min input (min output (min (lm_calls_turn lm) (lm_calls_episode lm))) < 0
      then Inl (LlmReservationError ''LLM budget values must be non-negative'')
      else let l = drop_stale cutoff l in
        case sql_first ''episodes'' (has_id ep) (lg_db l) of
          None \<Rightarrow> Inl (LlmReservationError ''episode does not exist'')
        | Some episode \<Rightarrow>
            and_then (check_budget lm ep turn input output episode l) (\<lambda>_.
              if list_ex (\<lambda>r. rv_id r = rid) (lg_reservations l) then Inl (IntegrityError ''llm_reservations'')
              else Inr (rid, l\<lparr>lg_reservations := lg_reservations l @
                [\<lparr>rv_id = rid, rv_episode = ep, rv_turn = turn, rv_input = input, rv_output = output,
                  rv_created_at = now\<rparr>]\<rparr>)))"

definition release_llm_reservation :: "string \<Rightarrow> ledger \<Rightarrow> ledger" where
  "release_llm_reservation rid l = l\<lparr>lg_reservations := filter (\<lambda>r. rv_id r \<noteq> rid) (lg_reservations l)\<rparr>"

section \<open>The records of a call\<close>

record usage =
  us_id :: string
  us_episode :: string
  us_purpose :: string
  us_provider :: string
  us_model :: string
  us_input :: int
  us_output :: int
  us_cost :: json
  us_latency :: int
  us_turn :: int
  us_outcome :: string

definition usage_fields :: "usage \<Rightarrow> (string \<times> json) list" where
  "usage_fields u =
     [(''id'', JStr (us_id u)), (''episode_id'', JStr (us_episode u)), (''purpose'', JStr (us_purpose u)),
      (''provider'', JStr (us_provider u)), (''model'', JStr (us_model u)), (''input_tokens'', JInt (us_input u)),
      (''output_tokens'', JInt (us_output u)), (''cost'', us_cost u), (''latency_ms'', JInt (us_latency u)),
      (''turn_number'', JInt (us_turn u)), (''outcome'', JStr (us_outcome u))]"

definition record_draft :: "string \<Rightarrow> string \<Rightarrow> string \<Rightarrow> (string \<times> json) list \<Rightarrow> event_draft" where
  "record_draft kind aggregate i fs =
     \<lparr>ed_kind = kind, ed_aggregate_type = aggregate, ed_aggregate_id = i,
      ed_payload = JObj [(''record'', JObj fs)], ed_causal_event_id = None\<rparr>"

section \<open>The answer of the model\<close>

record model_answer =
  ma_schema_version :: int
  ma_parsed :: json
  ma_provider :: json
  ma_model :: json
  ma_input_tokens :: json
  ma_output_tokens :: json
  ma_cost :: json

text \<open>A failure is the name of the class of the exception.\<close>

definition bounded_label :: "json \<Rightarrow> string + string" where
  "bounded_label v =
     (case v of
        JStr s \<Rightarrow> if length s \<le> 256 \<and> list_all (\<lambda>c. c \<notin> {CHR 0x00, CHR 0x0A, CHR 0x0D}) s then Inr s else Inl ''ValueError''
      | _ \<Rightarrow> Inl ''ValueError'')"

definition valid_input_tokens :: "json \<Rightarrow> int \<Rightarrow> int" where
  "valid_input_tokens v reservation = (case v of JInt i \<Rightarrow> if i \<le> 0 then reservation else i | _ \<Rightarrow> reservation)"

definition valid_output_tokens :: "json \<Rightarrow> int \<Rightarrow> int" where
  "valid_output_tokens v reservation = (case v of JInt i \<Rightarrow> if i < 0 then reservation else i | _ \<Rightarrow> reservation)"

text \<open>\<open>ftext\<close> is the text of a float, \<open>repr\<close>.\<close>

definition valid_cost :: "(py_float \<Rightarrow> string) \<Rightarrow> json \<Rightarrow> string + json" where
  "valid_cost ftext v =
     (case v of
        JNull \<Rightarrow> Inr JNull
      | JBool b \<Rightarrow> Inl ''ValueError''
      | JStr s \<Rightarrow> Inl ''ValueError''
      | _ \<Rightarrow> (case float_of v of
                Some (Finite q) \<Rightarrow> if q < 0 then Inl ''ValueError'' else Inr (JFloat (ftext (Finite q)))
              | _ \<Rightarrow> Inl ''ValueError''))"

text \<open>What a call knows, filled in as its answer is examined; a failure keeps what was filled in.\<close>

record call_state =
  cs_provider :: string
  cs_model :: string
  cs_input :: int
  cs_output :: int
  cs_cost :: json
  cs_outcome :: string
  cs_parsed :: json
  cs_digest :: "string option"

type_synonym step = "call_state \<Rightarrow> string + call_state"

fun attempt :: "step list \<Rightarrow> call_state \<Rightarrow> call_state \<times> bool" where
  "attempt [] s = (s, True)"
| "attempt (f # fs) s = (case f s of Inl e \<Rightarrow> (s\<lparr>cs_outcome := e\<rparr>, False) | Inr s' \<Rightarrow> attempt fs s')"

definition examine ::
  "(py_float \<Rightarrow> string) \<Rightarrow> (json \<Rightarrow> string + json) \<Rightarrow> (string \<Rightarrow> string) \<Rightarrow> int \<Rightarrow> int \<Rightarrow> model_answer \<Rightarrow> step list" where
  "examine ftext validator sha estimated max_tokens a =
     [\<lambda>s. if ma_schema_version a \<noteq> 1 then Inl ''ValueError'' else Inr s,
      \<lambda>s. and_then (bounded_label (ma_provider a)) (\<lambda>p. Inr (s\<lparr>cs_provider := p\<rparr>)),
      \<lambda>s. and_then (bounded_label (ma_model a)) (\<lambda>m. Inr (s\<lparr>cs_model := m\<rparr>)),
      \<lambda>s. Inr (s\<lparr>cs_input := valid_input_tokens (ma_input_tokens a) estimated\<rparr>),
      \<lambda>s. Inr (s\<lparr>cs_output := valid_output_tokens (ma_output_tokens a) max_tokens\<rparr>),
      \<lambda>s. and_then (valid_cost ftext (ma_cost a)) (\<lambda>c. Inr (s\<lparr>cs_cost := c\<rparr>)),
      \<lambda>s. and_then (validator (ma_parsed a)) (\<lambda>p. Inr (s\<lparr>cs_parsed := p\<rparr>)),
      \<lambda>s. Inr (s\<lparr>cs_digest := Some (sha (canonical_json (cs_parsed s)))\<rparr>),
      \<lambda>s. Inr (s\<lparr>cs_outcome := ''success''\<rparr>)]"

definition ask_model ::
  "(string + model_answer) \<Rightarrow> (py_float \<Rightarrow> string) \<Rightarrow> (json \<Rightarrow> string + json) \<Rightarrow> (string \<Rightarrow> string) \<Rightarrow> int \<Rightarrow> int \<Rightarrow> call_state \<times> bool" where
  "ask_model answer ftext validator sha estimated max_tokens =
     (let s = \<lparr>cs_provider = [], cs_model = [], cs_input = estimated, cs_output = max_tokens, cs_cost = JNull,
               cs_outcome = ''error'', cs_parsed = JNull, cs_digest = None\<rparr> in
      case answer of
        Inl e \<Rightarrow> (s\<lparr>cs_outcome := e\<rparr>, False)
      | Inr a \<Rightarrow> attempt (examine ftext validator sha estimated max_tokens a) s)"

section \<open>A call\<close>

text \<open>
  What a call is given, beside the ledger: the request, the limits of the configuration with the
  temperature, the state of the reentrancy guard, and the outside: \<open>rq_schema_text\<close> is \<open>str(schema)\<close>,
  \<open>rq_answer\<close> what the host's model does, \<open>rq_ids\<close> the identifiers by kind. The other calls of the
  program may run while the model is asked: \<open>rq_meanwhile\<close> is what they make of the ledger.
\<close>

record request =
  rq_purpose :: string
  rq_instructions :: string
  rq_text :: string
  rq_schema_text :: string
  rq_schema_name :: string
  rq_max_tokens :: json
  rq_validator :: "json \<Rightarrow> string + json"
  rq_limits :: llm_limits
  rq_temperature :: json
  rq_busy :: bool
  rq_answer :: "string + model_answer"
  rq_meanwhile :: "ledger \<Rightarrow> ledger"
  rq_float_text :: "py_float \<Rightarrow> string"
  rq_redact :: "string \<Rightarrow> string"
  rq_ids :: "string \<Rightarrow> string"
  rq_now :: string
  rq_cutoff :: string
  rq_latency :: int
  rq_stamps :: stamps

record call_result =
  cr_parsed :: json
  cr_provider :: string
  cr_model :: string
  cr_input_tokens :: int
  cr_output_tokens :: int
  cr_event_ids :: "string list"

definition component_error :: "string \<Rightarrow> py_error" where
  "component_error s = RuntimeFailure s"

definition estimated_input :: "request \<Rightarrow> int" where
  "estimated_input q =
     max 1 (int (length (rq_instructions q) + length (rq_text q) + length (rq_schema_text q)) + 1024)"

text \<open>\<open>sampling_policy\<close>: the temperature, 0.0 when unset\<close>

definition sampling_policy :: "(py_float \<Rightarrow> string) \<Rightarrow> json \<Rightarrow> json result" where
  "sampling_policy ftext v =
     (case v of
        JNull \<Rightarrow> Inr (JFloat (ftext (Finite 0)))
      | JArr _ \<Rightarrow> Inl (TypeError ''float() argument must be a string or a real number'')
      | JObj _ \<Rightarrow> Inl (TypeError ''float() argument must be a string or a real number'')
      | _ \<Rightarrow> (case float_of v of
                None \<Rightarrow> Inl (ValueError ''could not convert to float'')
              | Some x \<Rightarrow> if py_le (Finite 0) x \<and> py_le x (Finite 2)
                          then Inr (JFloat (ftext x))
                          else Inl (ValueError ''sampling temperature must be between 0.0 and 2.0'')))"

text \<open>\<open>purpose.split(".")[-1]\<close>\<close>

definition component_of :: "string \<Rightarrow> string" where
  "component_of s = rev (takeWhile (\<lambda>c. c \<noteq> CHR ''.'') (rev s))"

definition call_input_hash :: "(string \<Rightarrow> string) \<Rightarrow> request \<Rightarrow> int \<Rightarrow> string" where
  "call_input_hash sha q max_tokens = sha (canonical_json (JObj
     [(''instructions'', JStr (rq_instructions q)), (''max_tokens'', JInt max_tokens),
      (''schema_name'', JStr (rq_schema_name q)), (''text'', JStr (rq_redact q (rq_text q)))]))"

definition usage_of :: "string \<Rightarrow> int \<Rightarrow> request \<Rightarrow> call_state \<Rightarrow> usage" where
  "usage_of ep turn q s =
     \<lparr>us_id = rq_ids q ''usage'', us_episode = ep, us_purpose = rq_purpose q, us_provider = cs_provider s,
      us_model = cs_model s, us_input = cs_input s, us_output = cs_output s, us_cost = cs_cost s,
      us_latency = max 0 (rq_latency q), us_turn = turn, us_outcome = cs_outcome s\<rparr>"

definition verdict_fields :: "(string \<Rightarrow> string) \<Rightarrow> string \<Rightarrow> request \<Rightarrow> call_state \<Rightarrow> (string \<times> json) list" where
  "verdict_fields sha ep q s =
     [(''id'', JStr (rq_ids q ''verdict'')), (''episode_id'', JStr ep), (''component'', JStr (component_of (rq_purpose q))),
      (''purpose'', JStr (rq_purpose q)), (''input_hash'', JStr (sha (rq_redact q (rq_text q)))),
      (''outcome'', JStr (cs_outcome s)), (''belief_id'', JNull),
      (''detail'', JObj [(''schema_name'', JStr (rq_schema_name q))])]"

definition attribution_fields ::
  "(string \<Rightarrow> string) \<Rightarrow> string \<Rightarrow> int \<Rightarrow> int \<Rightarrow> json \<Rightarrow> request \<Rightarrow> call_state \<Rightarrow> (string \<times> json) list" where
  "attribution_fields sha ep turn max_tokens temperature q s =
     [(''id'', JStr (rq_ids q ''attribution'')), (''episode_id'', JStr ep), (''purpose'', JStr (rq_purpose q)),
      (''provider'', JStr (cs_provider s)), (''model'', JStr (cs_model s)),
      (''prompt_hash'', JStr (sha (rq_instructions q))), (''input_hash'', JStr (call_input_hash sha q max_tokens)),
      (''output_hash'', json_of_text (cs_digest s)), (''sampling'', JObj [(''temperature'', temperature)]),
      (''outcome'', JStr (cs_outcome s)), (''turn_number'', JInt turn)]"

definition call_drafts ::
  "(string \<Rightarrow> string) \<Rightarrow> string \<Rightarrow> int \<Rightarrow> int \<Rightarrow> json \<Rightarrow> request \<Rightarrow> call_state \<Rightarrow> event_draft list" where
  "call_drafts sha ep turn max_tokens temperature q s =
     [record_draft ''LLM_USAGE_RECORDED'' ''llm_usage'' (rq_ids q ''usage'') (usage_fields (usage_of ep turn q s)),
      record_draft ''COMPONENT_VERDICT_RECORDED'' ''component_verdict'' (rq_ids q ''verdict'') (verdict_fields sha ep q s),
      record_draft ''LLM_CALL_ATTRIBUTION'' ''llm_call_attribution'' (rq_ids q ''attribution'')
        (attribution_fields sha ep turn max_tokens temperature q s)]"

text \<open>
  After the model was asked: the records are appended, and the reservation is released whether that
  succeeds or not. A failure of the model is raised last.
\<close>

definition account_call ::
  "ledger_env \<Rightarrow> string \<Rightarrow> int \<Rightarrow> int \<Rightarrow> json \<Rightarrow> request \<Rightarrow> string \<Rightarrow> call_state \<times> bool \<Rightarrow> ledger
     \<Rightarrow> call_result result \<times> ledger" where
  "account_call E ep turn max_tokens temperature q rid = (\<lambda>(s, ok) l.
     case append_events E ep (call_drafts (le_sha E) ep turn max_tokens temperature q s) [] [] [] (rq_stamps q) l of
       Inl e \<Rightarrow> (Inl e, release_llm_reservation rid l)
     | Inr (es, l') \<Rightarrow>
         (if ok then Inr \<lparr>cr_parsed = cs_parsed s, cr_provider = cs_provider s, cr_model = cs_model s,
                          cr_input_tokens = cs_input s, cr_output_tokens = cs_output s, cr_event_ids = map ev_id es\<rparr>
          else Inl (component_error (rq_purpose q @ '' failed: '' @ cs_outcome s)),
          release_llm_reservation rid l'))"

definition complete_structured :: "ledger_env \<Rightarrow> string \<Rightarrow> request \<Rightarrow> ledger \<Rightarrow> call_result result \<times> ledger" where
  "complete_structured E ep q l =
     (case rq_max_tokens q of
        JInt max_tokens \<Rightarrow>
          if max_tokens \<le> 0 then (Inl (component_error ''max_tokens must be a positive integer''), l)
          else if rq_busy q then (Inl (component_error ''recursive component model call blocked''), l)
          else (case sql_first ''episodes'' (has_id ep) (lg_db l) of
            None \<Rightarrow> (Inl (component_error ''episode does not exist''), l)
          | Some episode \<Rightarrow>
              (case py_int (cell episode ''current_turn'') of
                 Inl e \<Rightarrow> (Inl e, l)
               | Inr turn \<Rightarrow>
                  (case reserve_llm_budget ep turn (estimated_input q) max_tokens (rq_limits q) (rq_ids q ''reservation'')
                          (rq_now q) (rq_cutoff q) l of
                     Inl (LlmReservationError m) \<Rightarrow> (Inl (component_error m), l)
                   | Inl e \<Rightarrow> (Inl e, l)
                   | Inr (rid, l) \<Rightarrow>
                      (case sampling_policy (rq_float_text q) (rq_temperature q) of
                         Inl e \<Rightarrow> (Inl e, l)
                       | Inr temperature \<Rightarrow>
                           account_call E ep turn max_tokens temperature q rid
                             (ask_model (rq_answer q) (rq_float_text q) (rq_validator q) (le_sha E) (estimated_input q) max_tokens)
                             (rq_meanwhile q l)))))
      | _ \<Rightarrow> (Inl (component_error ''max_tokens must be a positive integer''), l))"

end
