(* ===== verification/Llm_Budget_Props.thy ===== *)
theory Llm_Budget_Props
  imports Llm_Budget Ledger_Props
begin

text \<open>
  Budgets of model calls: however reservations, recorded calls and releases of several callers
  interleave, what was used stays within the limits as long as a call is recorded while its
  reservation stands; and a call is accounted for whatever the model does.
\<close>

section \<open>What recording a use does\<close>

definition integer_addition :: "(json \<Rightarrow> json \<Rightarrow> json) \<Rightarrow> bool" where
  "integer_addition add \<longleftrightarrow> (\<forall>a b. add (JInt a) (JInt b) = JInt (a + b))"

text \<open>The counters of an episode\<close>

definition counters :: "string \<Rightarrow> db \<Rightarrow> (json \<times> json \<times> json) option" where
  "counters ep d =
     map_option (\<lambda>r. (cell r ''llm_calls_used'', cell r ''input_tokens_used'', cell r ''output_tokens_used''))
       (sql_first ''episodes'' (has_id ep) d)"

abbreviation counter_columns :: "string set" where
  "counter_columns \<equiv> {''llm_calls_used'', ''input_tokens_used'', ''output_tokens_used''}"

lemma counter_affinity:
  "c \<in> counter_columns \<Longrightarrow>
     map_option col_affinity (find (\<lambda>k. col_name k = c) (ts_columns (ledger_schema ''episodes''))) = Some IntegerCol"
proof -
  have "list_all (\<lambda>c. map_option col_affinity (find (\<lambda>k. col_name k = c) (ts_columns (ledger_schema ''episodes''))) = Some IntegerCol)
      [''llm_calls_used'', ''input_tokens_used'', ''output_tokens_used'']"
    by code_simp
  then show "c \<in> counter_columns \<Longrightarrow> ?thesis" by (auto simp: list_all_iff)
qed

lemma cell_add_to:
  assumes "cell r c = JInt a" and "c \<in> counter_columns"
    and "integer_addition add"
  shows "cell (add_to add (ledger_schema ''episodes'') c (JInt b) r) c = JInt (a + b)"
proof -
  obtain k where k: "find (\<lambda>k. col_name k = c) (ts_columns (ledger_schema ''episodes'')) = Some k" "col_affinity k = IntegerCol"
    using counter_affinity [OF assms(2)] by auto
  have "add (cell r c) (JInt b) = JInt (a + b)" using assms(1,3) by (simp add: integer_addition_def)
  moreover have "map_of (assign (ledger_schema ''episodes'') [(c, w)] r) c = map_option (\<lambda>v. convert (col_affinity k) w) (map_of r c)" for w
    by (induction r) (auto simp: assign_def k(1))
  moreover have "map_of r c \<noteq> None" using assms(1) by (auto simp: cell_def dict_get_def split: option.splits)
  ultimately show ?thesis by (auto simp: add_to_def cell_def dict_get_def k(2))
qed

lemma cell_add_to_other: "c' \<noteq> c \<Longrightarrow> cell (add_to add ts c v r) c' = cell r c'"
  by (simp add: add_to_def cell_assign)

definition bump :: "(json \<Rightarrow> json \<Rightarrow> json) \<Rightarrow> usage \<Rightarrow> row \<Rightarrow> row" where
  "bump add u =
     add_to add (ledger_schema ''episodes'') ''output_tokens_used'' (JInt (us_output u))
     \<circ> add_to add (ledger_schema ''episodes'') ''input_tokens_used'' (JInt (us_input u))
     \<circ> add_to add (ledger_schema ''episodes'') ''llm_calls_used'' (JInt 1)"

lemma cell_bump:
  "c \<notin> counter_columns \<Longrightarrow> cell (bump add u r) c = cell r c"
  by (simp add: bump_def cell_add_to_other)

lemma bind_all_scalar: "bind_all vs = Inr ws \<Longrightarrow> map_of vs c = Some v \<Longrightarrow> sql_bind v = Inr v \<Longrightarrow> map_of ws c = Some v"
proof (induction vs arbitrary: ws)
  case (Cons x vs)
  then show ?case by (cases x) (auto simp: splits_result split: if_splits)
qed simp

lemma cell_of_made_row:
  "map_option col_affinity (find (\<lambda>k. col_name k = c) (ts_columns ts)) = Some aff
     \<Longrightarrow> cell (make_row ts ws) c = convert aff (dict_get ws c JNull)"
  by (auto simp: cell_make_row)

lemma usage_affinity:
  "map_option col_affinity (find (\<lambda>k. col_name k = ''episode_id'') (ts_columns (ledger_schema ''llm_usage''))) = Some TextCol"
  "map_option col_affinity (find (\<lambda>k. col_name k = ''turn_number'') (ts_columns (ledger_schema ''llm_usage''))) = Some IntegerCol"
  by code_simp+

lemma usage_recorded:
  assumes "llm_usage add (usage_fields u) d = Inr d'"
  obtains new where "d' ''llm_usage'' = d ''llm_usage'' @ [new]" and "cell new ''episode_id'' = JStr (us_episode u)"
    and "cell new ''turn_number'' = JInt (us_turn u)"
    and "d' ''episodes'' = map (\<lambda>r. if cell r ''id'' = JStr (us_episode u) then bump add u r else r) (d ''episodes'')"
proof -
  obtain ws d1 where ws: "bind_all (usage_fields u) = Inr ws"
    and ins: "insert_row ledger_schema ''llm_usage'' (make_row (ledger_schema ''llm_usage'') ws) d = Inr d1"
    and upd: "update_rows ledger_schema ''episodes'' (\<lambda>r. cell r ''id'' = JStr (us_episode u)) (bump add u) d1 = Inr d'"
    using assms
    by (auto simp: llm_usage_def insert_record_def columns_of_def usage_fields_def item_def dict_item_def get_or_def
        dict_get_def splits_result sql_insert_def text_param_def bump_def Let_def simp del: bind_all.simps)
  let ?new = "make_row (ledger_schema ''llm_usage'') ws"
  have "cell ?new ''episode_id'' = JStr (us_episode u)" "cell ?new ''turn_number'' = JInt (us_turn u)"
    using bind_all_scalar [OF ws, of "''episode_id''" "JStr (us_episode u)"] bind_all_scalar [OF ws, of "''turn_number''" "JInt (us_turn u)"]
    by (simp_all add: cell_of_made_row [OF usage_affinity(1)] cell_of_made_row [OF usage_affinity(2)] usage_fields_def dict_get_def)
  moreover have "d' ''llm_usage'' = d ''llm_usage'' @ [?new]"
    "d' ''episodes'' = map (\<lambda>r. if cell r ''id'' = JStr (us_episode u) then bump add u r else r) (d ''episodes'')"
    using ins upd by (auto simp: insert_row_def update_rows_def Let_def split: if_splits)
  ultimately show thesis using that by blast
qed

lemma usage_counts:
  assumes "llm_usage add (usage_fields u) d = Inr d'"
  shows "used_in_turn ep turn d' = used_in_turn ep turn d + (if us_episode u = ep \<and> us_turn u = turn then 1 else 0)"
    and "us_episode u \<noteq> ep \<Longrightarrow> counters ep d' = counters ep d"
    and "\<lbrakk>us_episode u = ep; integer_addition add; counters ep d = Some (JInt c, JInt i, JInt out)\<rbrakk>
      \<Longrightarrow> counters ep d' = Some (JInt (c + 1), JInt (i + us_input u), JInt (out + us_output u))"
proof -
  obtain new where new: "d' ''llm_usage'' = d ''llm_usage'' @ [new]" "cell new ''episode_id'' = JStr (us_episode u)"
      "cell new ''turn_number'' = JInt (us_turn u)"
    and eps: "d' ''episodes'' = map (\<lambda>r. if cell r ''id'' = JStr (us_episode u) then bump add u r else r) (d ''episodes'')"
    by (rule usage_recorded [OF assms])
  show "used_in_turn ep turn d' = used_in_turn ep turn d + (if us_episode u = ep \<and> us_turn u = turn then 1 else 0)"
    using new by (simp add: used_in_turn_def)
  let ?f = "\<lambda>r. if cell r ''id'' = JStr (us_episode u) then bump add u r else r"
  have find: "find (has_id ep) (map ?f rs) = map_option ?f (find (has_id ep) rs)" for rs
    by (induction rs) (auto simp: has_id_def cell_bump)
  show "us_episode u \<noteq> ep \<Longrightarrow> counters ep d' = counters ep d"
  proof -
    assume ne: "us_episode u \<noteq> ep"
    have "?f r = r" if "find (has_id ep) (d ''episodes'') = Some r" for r
      using that ne by (auto simp: has_id_def dest!: find_Some_iff_mem)
    then show ?thesis by (auto simp: counters_def sql_first_def eps find option.map_comp intro: option.map_cong)
  qed
  assume eq: "us_episode u = ep" and add: "integer_addition add" and old: "counters ep d = Some (JInt c, JInt i, JInt out)"
  then obtain r where r: "find (has_id ep) (d ''episodes'') = Some r" "cell r ''llm_calls_used'' = JInt c"
      "cell r ''input_tokens_used'' = JInt i" "cell r ''output_tokens_used'' = JInt out"
    by (auto simp: counters_def sql_first_def)
  then have "cell r ''id'' = JStr ep" by (auto simp: has_id_def dest!: find_Some_iff_mem)
  then have "counters ep d' = Some (cell (bump add u r) ''llm_calls_used'', cell (bump add u r) ''input_tokens_used'',
      cell (bump add u r) ''output_tokens_used'')"
    unfolding counters_def sql_first_def eps find using r(1) eq by simp
  then show "counters ep d' = Some (JInt (c + 1), JInt (i + us_input u), JInt (out + us_output u))"
    using r add by (simp add: bump_def cell_add_to cell_add_to_other)
qed

section \<open>Callers that interleave\<close>

text \<open>
  Beside the ledger a state keeps three books of what callers may rely on: the reservations that stand,
  those made and neither released nor older than the cutoff of a later one; the reservations whose call
  has been recorded and not been released; and the overrun. The limits are those of the configuration;
  other episodes may have others. A call is recorded whatever has become of its reservation and whatever
  its provider reports: the overrun adds up what the records of the episode used beyond the reservation
  that stood for them, the whole use when it had become stale.
\<close>

definition raised :: "llm_limits \<Rightarrow> llm_limits \<Rightarrow> llm_limits" where
  "raised lm x =
     \<lparr>lm_calls_turn = lm_calls_turn lm + lm_calls_turn x, lm_calls_episode = lm_calls_episode lm + lm_calls_episode x,
      lm_input_tokens = lm_input_tokens lm + lm_input_tokens x, lm_output_tokens = lm_output_tokens lm + lm_output_tokens x\<rparr>"

definition no_overrun :: llm_limits where
  "no_overrun = \<lparr>lm_calls_turn = 0, lm_calls_episode = 0, lm_input_tokens = 0, lm_output_tokens = 0\<rparr>"

definition overrun :: "usage \<Rightarrow> reservation option \<Rightarrow> llm_limits" where
  "overrun u standing =
     (case standing of
        None \<Rightarrow> \<lparr>lm_calls_turn = 1, lm_calls_episode = 1, lm_input_tokens = max 0 (us_input u), lm_output_tokens = max 0 (us_output u)\<rparr>
      | Some v \<Rightarrow> \<lparr>lm_calls_turn = 0, lm_calls_episode = 0, lm_input_tokens = max 0 (us_input u - rv_input v),
                   lm_output_tokens = max 0 (us_output u - rv_output v)\<rparr>)"

text \<open>The reservation that stands for a call when it is recorded\<close>

definition standing :: "string \<Rightarrow> usage \<Rightarrow> reservation list \<Rightarrow> string set \<Rightarrow> reservation option" where
  "standing rid u G S =
     find (\<lambda>v. rv_id v = rid \<and> rid \<notin> S \<and> rv_episode v = us_episode u \<and> rv_turn v = us_turn u) G"

type_synonym budget_state = "ledger \<times> reservation list \<times> string set \<times> llm_limits"

inductive spends :: "(json \<Rightarrow> json \<Rightarrow> json) \<Rightarrow> llm_limits \<Rightarrow> string \<Rightarrow> budget_state \<Rightarrow> budget_state \<Rightarrow> bool"
  for add lm ep where
  reserves: "\<lbrakk>reserve_llm_budget ep' turn input output lm' rid now cutoff l = Inr (rid', l'); ep' = ep \<longrightarrow> lm' = lm\<rbrakk>
    \<Longrightarrow> spends add lm ep (l, G, S, x)
         (l', filter (\<lambda>r. \<not> rv_created_at r < cutoff) G
                @ [\<lparr>rv_id = rid, rv_episode = ep', rv_turn = turn, rv_input = input, rv_output = output, rv_created_at = now\<rparr>],
          S - {rid}, x)"
| records: "\<lbrakk>llm_usage add (usage_fields u) (lg_db l) = Inr d;
      y = (if us_episode u = ep then raised x (overrun u (standing rid u G S)) else x)\<rbrakk>
    \<Longrightarrow> spends add lm ep (l, G, S, x) (l\<lparr>lg_db := d\<rparr>, G, insert rid S, y)"
| releases: "spends add lm ep (l, G, S, x)
    (release_llm_reservation rid l, filter (\<lambda>r. rv_id r \<noteq> rid) G, S - {rid}, x)"
| elsewhere: "\<lbrakk>lg_reservations l' = lg_reservations l; counters ep (lg_db l') = counters ep (lg_db l);
      \<forall>turn. used_in_turn ep turn (lg_db l') = used_in_turn ep turn (lg_db l)\<rbrakk>
    \<Longrightarrow> spends add lm ep (l, G, S, x) (l', G, S, x)"

text \<open>What was used is within the limits.\<close>

definition within_limits :: "llm_limits \<Rightarrow> string \<Rightarrow> db \<Rightarrow> bool" where
  "within_limits lm ep d \<longleftrightarrow>
     (\<exists>calls input output. counters ep d = Some (JInt calls, JInt input, JInt output)
        \<and> calls \<le> lm_calls_episode lm \<and> input \<le> lm_input_tokens lm \<and> output \<le> lm_output_tokens lm)
     \<and> (\<forall>turn. int (used_in_turn ep turn d) \<le> lm_calls_turn lm)"

text \<open>The invariant: with what is reserved and not recorded yet.\<close>

definition pending :: "string \<Rightarrow> ledger \<Rightarrow> string set \<Rightarrow> reservation list" where
  "pending ep l S = filter (\<lambda>r. rv_id r \<notin> S) (reserved ep l)"

definition fits :: "llm_limits \<Rightarrow> string \<Rightarrow> db \<Rightarrow> reservation list \<Rightarrow> bool" where
  "fits lm ep d ps \<longleftrightarrow>
     (\<exists>calls input output. counters ep d = Some (JInt calls, JInt input, JInt output)
        \<and> calls + int (length ps) \<le> lm_calls_episode lm
        \<and> input + sum_list (map rv_input ps) \<le> lm_input_tokens lm
        \<and> output + sum_list (map rv_output ps) \<le> lm_output_tokens lm)
     \<and> (\<forall>turn. int (used_in_turn ep turn d) + int (length (filter (\<lambda>r. rv_turn r = turn) ps)) \<le> lm_calls_turn lm)"

definition committed :: "llm_limits \<Rightarrow> string \<Rightarrow> ledger \<times> string set \<Rightarrow> bool" where
  "committed lm ep = (\<lambda>(l, S).
     distinct (map rv_id (lg_reservations l)) \<and> (\<forall>r\<in>set (reserved ep l). 0 \<le> rv_input r \<and> 0 \<le> rv_output r)
     \<and> fits lm ep (lg_db l) (pending ep l S))"

lemma sum_list_filter_le: "\<forall>r\<in>set xs. 0 \<le> f r \<Longrightarrow> sum_list (map f (filter P xs)) \<le> (sum_list (map f xs) :: int)"
  by (induction xs) auto

lemma fits_fewer:
  assumes "fits lm ep d ps" and "\<forall>r\<in>set ps. 0 \<le> rv_input r \<and> 0 \<le> rv_output r"
  shows "fits lm ep d (filter P ps)"
proof -
  have sums: "sum_list (map rv_input (filter P ps)) \<le> sum_list (map rv_input ps)"
    "sum_list (map rv_output (filter P ps)) \<le> sum_list (map rv_output ps)"
    by (intro sum_list_filter_le; use assms(2) in simp)+
  have n: "length (filter P ps) \<le> length ps" by (rule length_filter_le)
  have t: "length (filter (\<lambda>r. rv_turn r = turn) (filter P ps)) \<le> length (filter (\<lambda>r. rv_turn r = turn) ps)" for turn
    by (induction ps) auto
  obtain c i out where "counters ep d = Some (JInt c, JInt i, JInt out)" "c + int (length ps) \<le> lm_calls_episode lm"
    "i + sum_list (map rv_input ps) \<le> lm_input_tokens lm" "out + sum_list (map rv_output ps) \<le> lm_output_tokens lm"
    using assms(1) by (auto simp: fits_def)
  moreover from this have "c + int (length (filter P ps)) \<le> lm_calls_episode lm"
    "i + sum_list (map rv_input (filter P ps)) \<le> lm_input_tokens lm"
    "out + sum_list (map rv_output (filter P ps)) \<le> lm_output_tokens lm"
    using sums n by linarith+
  moreover have "int (used_in_turn ep turn d) + int (length (filter (\<lambda>r. rv_turn r = turn) (filter P ps))) \<le> lm_calls_turn lm" for turn
    using assms(1) t [of turn] by (auto simp: fits_def dest!: spec [of _ turn] simp del: filter_filter)
  ultimately show ?thesis unfolding fits_def by blast
qed

lemma fits_Nil: "fits lm ep d [] \<longleftrightarrow> within_limits lm ep d"
  by (simp add: fits_def within_limits_def)

lemma committed_within: "committed lm ep (l, S) \<Longrightarrow> within_limits lm ep (lg_db l)"
proof -
  assume "committed lm ep (l, S)"
  then have "fits lm ep (lg_db l) (filter (\<lambda>r. False) (pending ep l S))"
    by (intro fits_fewer) (auto simp: committed_def pending_def)
  then show ?thesis by (simp add: fits_Nil)
qed

text \<open>Fewer reservations\<close>

lemma committed_fewer:
  assumes "committed lm ep (l, S)" and "lg_db l' = lg_db l" and "lg_reservations l' = filter P (lg_reservations l)"
    and "\<And>r. P r \<Longrightarrow> rv_id r \<in> S \<Longrightarrow> rv_id r \<in> S'"
    and "\<And>r. P r \<Longrightarrow> rv_id r \<in> S' \<Longrightarrow> rv_id r \<in> S"
  shows "committed lm ep (l', S')"
proof -
  have "pending ep l' S' = filter P (pending ep l S)"
    using assms(4,5) by (auto simp: pending_def reserved_def assms(3) intro!: filter_cong)
  moreover have "fits lm ep (lg_db l) (filter P (pending ep l S))"
    using assms(1) by (intro fits_fewer) (auto simp: committed_def pending_def)
  ultimately have "fits lm ep (lg_db l') (pending ep l' S')" by (simp add: assms(2))
  then show ?thesis
    using assms(1) by (auto simp: committed_def assms(3) reserved_def distinct_map_filter)
qed

lemma reserve_Inr:
  assumes "reserve_llm_budget ep turn input output lm rid now cutoff l = Inr (rid', l')"
  obtains episode where "sql_first ''episodes'' (has_id ep) (lg_db l) = Some episode"
    and "check_budget lm ep turn input output episode (drop_stale cutoff l) = Inr ()"
    and "rid \<notin> rv_id ` set (lg_reservations (drop_stale cutoff l))" and "0 \<le> input" and "0 \<le> output"
    and "l' = (drop_stale cutoff l)\<lparr>lg_reservations := lg_reservations (drop_stale cutoff l) @
        [\<lparr>rv_id = rid, rv_episode = ep, rv_turn = turn, rv_input = input, rv_output = output, rv_created_at = now\<rparr>]\<rparr>"
proof -
  have "lg_db (drop_stale cutoff l) = lg_db l" by (simp add: drop_stale_def)
  moreover have "0 \<le> input \<and> 0 \<le> output"
    using assms by (auto simp: reserve_llm_budget_def split: if_splits)
  ultimately show thesis
    using assms that
    by (fastforce simp: reserve_llm_budget_def Let_def splits_result list_ex_iff split: if_splits option.splits)
qed

lemma reserve_committed:
  assumes "committed lm ep (l, S)" and "reserve_llm_budget ep' turn input output lm' rid now cutoff l = Inr (rid', l')"
    and "ep' = ep \<longrightarrow> lm' = lm"
  shows "committed lm ep (l', S - {rid})"
proof -
  let ?l1 = "drop_stale cutoff l"
  let ?new = "\<lparr>rv_id = rid, rv_episode = ep', rv_turn = turn, rv_input = input, rv_output = output, rv_created_at = now\<rparr>"
  obtain episode where ep: "sql_first ''episodes'' (has_id ep') (lg_db l) = Some episode"
    and check: "check_budget lm' ep' turn input output episode ?l1 = Inr ()"
    and new: "rid \<notin> rv_id ` set (lg_reservations ?l1)" "0 \<le> input" "0 \<le> output"
    and l': "l' = ?l1\<lparr>lg_reservations := lg_reservations ?l1 @ [?new]\<rparr>"
    by (rule reserve_Inr [OF assms(2)])
  have old: "committed lm ep (?l1, S)"
    by (rule committed_fewer [OF assms(1)]) (auto simp: drop_stale_def)
  then have c: "distinct (map rv_id (lg_reservations ?l1))" "\<forall>r\<in>set (reserved ep ?l1). 0 \<le> rv_input r \<and> 0 \<le> rv_output r"
    "fits lm ep (lg_db l) (pending ep ?l1 S)"
    by (simp_all add: committed_def) (simp add: drop_stale_def)
  have same: "pending ep ?l1 (S - {rid}) = pending ep ?l1 S"
    using new(1) by (auto simp: pending_def reserved_def intro!: filter_cong)
  show ?thesis
  proof (cases "ep' = ep")
    case False
    then have "pending ep l' (S - {rid}) = pending ep ?l1 S" "reserved ep l' = reserved ep ?l1"
      using same by (simp_all add: l' pending_def reserved_def)
    with c new(1) show ?thesis by (auto simp: committed_def l' drop_stale_def)
  next
    case True
    then have lm: "lm' = lm" using assms(3) by simp
    let ?ps = "pending ep ?l1 S"
    have pend: "pending ep l' (S - {rid}) = ?ps @ [?new]" "reserved ep l' = reserved ep ?l1 @ [?new]"
      using same True by (simp_all add: l' pending_def reserved_def)
    have le: "length ?ps \<le> length (reserved ep ?l1)"
      "sum_list (map rv_input ?ps) \<le> sum_list (map rv_input (reserved ep ?l1))"
      "sum_list (map rv_output ?ps) \<le> sum_list (map rv_output (reserved ep ?l1))"
      using c(2) by (auto simp: pending_def intro!: sum_list_filter_le)
    have "length (filter P (filter Q rs)) \<le> length (filter P rs)" for P Q and rs :: "reservation list"
      by (induction rs) auto
    then have le_turn: "length (filter (\<lambda>r. rv_turn r = turn) ?ps) \<le> reserved_in_turn ep turn ?l1"
      unfolding pending_def reserved_in_turn_def .
    obtain calls i out where count: "counters ep (lg_db l) = Some (JInt calls, JInt i, JInt out)"
      and turns: "\<And>t. int (used_in_turn ep t (lg_db l)) + int (length (filter (\<lambda>r. rv_turn r = t) ?ps)) \<le> lm_calls_turn lm"
      using c(3) by (auto simp: fits_def)
    have bound: "int (used_in_turn ep turn (lg_db l)) + int (reserved_in_turn ep turn ?l1) < lm_calls_turn lm"
      "calls + int (length (reserved ep ?l1)) < lm_calls_episode lm"
      "i + sum_list (map rv_input (reserved ep ?l1)) + input \<le> lm_input_tokens lm"
      "out + sum_list (map rv_output (reserved ep ?l1)) + output \<le> lm_output_tokens lm"
      using check count ep True
      by (auto simp: check_budget_def splits_result counters_def lm drop_stale_def)
    have "fits lm ep (lg_db l) (?ps @ [?new])"
      unfolding fits_def using count bound le le_turn turns by (auto simp: add.assoc)
    then have "fits lm ep (lg_db l') (pending ep l' (S - {rid}))"
      unfolding pend(1) by (simp add: l' drop_stale_def)
    moreover have "distinct (map rv_id (lg_reservations l'))" using c(1) new(1) by (auto simp: l')
    moreover have "\<forall>r\<in>set (reserved ep l'). 0 \<le> rv_input r \<and> 0 \<le> rv_output r"
      unfolding pend(2) using c(2) new(2,3) by auto
    ultimately show ?thesis by (simp add: committed_def)
  qed
qed

lemma pending_insert:
  "pending ep (l\<lparr>lg_db := d\<rparr>) (insert rid S) = filter (\<lambda>r. rv_id r \<noteq> rid) (pending ep l S)"
  by (auto simp: pending_def reserved_def intro!: filter_cong)

lemma used_fits:
  assumes "llm_usage add (usage_fields u) d = Inr d'" and "integer_addition add" and "us_episode u = ep"
    and "fits lm ep d ps" and "length qs + 1 \<le> length ps + nat (lm_calls_episode x)" and "0 \<le> lm_calls_episode x"
    and "us_input u + sum_list (map rv_input qs) \<le> sum_list (map rv_input ps) + lm_input_tokens x"
    and "us_output u + sum_list (map rv_output qs) \<le> sum_list (map rv_output ps) + lm_output_tokens x"
    and "\<And>t. int (length (filter (\<lambda>r. rv_turn r = t) qs)) + (if us_turn u = t then 1 else 0)
           \<le> int (length (filter (\<lambda>r. rv_turn r = t) ps)) + lm_calls_turn x"
  shows "fits (raised lm x) ep d' qs"
proof -
  note counts = usage_counts [OF assms(1)]
  obtain calls i out where count: "counters ep d = Some (JInt calls, JInt i, JInt out)"
    and b: "calls + int (length ps) \<le> lm_calls_episode lm" "i + sum_list (map rv_input ps) \<le> lm_input_tokens lm"
      "out + sum_list (map rv_output ps) \<le> lm_output_tokens lm"
    and turns: "\<And>t. int (used_in_turn ep t d) + int (length (filter (\<lambda>r. rv_turn r = t) ps)) \<le> lm_calls_turn lm"
    using assms(4) by (auto simp: fits_def)
  have "counters ep d' = Some (JInt (calls + 1), JInt (i + us_input u), JInt (out + us_output u))"
    by (rule counts(3) [OF assms(3,2) count])
  moreover have "int (used_in_turn ep t d') + int (length (filter (\<lambda>r. rv_turn r = t) qs)) \<le> lm_calls_turn lm + lm_calls_turn x" for t
    using turns [of t] assms(9) [of t] assms(3) by (auto simp: counts(1) split: if_splits)
  moreover have "calls + 1 + int (length qs) \<le> lm_calls_episode lm + lm_calls_episode x" using b(1) assms(5,6) by linarith
  ultimately show ?thesis using b(2,3) assms(7,8) by (auto simp: fits_def raised_def)
qed

lemma record_committed:
  assumes "committed lm ep (l, S)" and usage: "llm_usage add (usage_fields u) (lg_db l) = Inr d" and add: "integer_addition add"
  shows "committed (if us_episode u = ep then raised lm (overrun u (standing rid u (lg_reservations l) S)) else lm) ep
    (l\<lparr>lg_db := d\<rparr>, insert rid S)"
proof -
  let ?l = "l\<lparr>lg_db := d\<rparr>" and ?S = "insert rid S"
  have c: "distinct (map rv_id (lg_reservations l))" "fits lm ep (lg_db l) (pending ep l S)"
    "\<forall>r\<in>set (reserved ep l). 0 \<le> rv_input r \<and> 0 \<le> rv_output r"
    using assms(1) by (simp_all add: committed_def)
  have fewer: "fits lm ep (lg_db l) (filter (\<lambda>r. rv_id r \<noteq> rid) (pending ep l S))"
    using c(2,3) by (intro fits_fewer) (auto simp: pending_def)
  have "fits (if us_episode u = ep then raised lm (overrun u (standing rid u (lg_reservations l) S)) else lm) ep d (pending ep ?l ?S)"
  proof (cases "us_episode u = ep")
    case False
    then show ?thesis
      using fewer usage_counts(1,2) [OF usage] unfolding pending_insert by (simp add: fits_def)
  next
    case own: True
    show ?thesis
    proof (cases "standing rid u (lg_reservations l) S")
      case None
      with own show ?thesis unfolding pending_insert
        by (simp del: filter_filter) (intro used_fits [OF usage add own fewer]; simp add: overrun_def)
    next
      case (Some v)
      then have v: "v \<in> set (lg_reservations l)" "rv_id v = rid" "rid \<notin> S" "rv_episode v = ep" "rv_turn v = us_turn u"
        using own by (auto simp: standing_def find_Some_iff in_set_conv_nth)
      then have "v \<in> set (pending ep l S)" by (simp add: pending_def reserved_def)
      then obtain ps qs where split: "pending ep l S = ps @ v # qs" by (auto dest: split_list)
      have "distinct (map rv_id (pending ep l S))" using c(1) by (simp add: pending_def reserved_def distinct_map_filter)
      then have "\<forall>r\<in>set (ps @ qs). rv_id r \<noteq> rid" using v(2) by (auto simp: split image_iff)
      then have left: "pending ep ?l ?S = ps @ qs"
        using v(2) by (simp add: pending_insert split filter_id_conv del: filter_filter)
      have "fits (raised lm (overrun u (Some v))) ep d (ps @ qs)"
        using v(5) by (intro used_fits [OF usage add own c(2)]) (simp_all add: split overrun_def)
      with own Some left show ?thesis by simp
    qed
  qed
  moreover have "reserved ep ?l = reserved ep l" by (simp add: reserved_def)
  ultimately show ?thesis using assms(1) by (simp add: committed_def)
qed

text \<open>A reservation that fits the limits fits raised ones.\<close>

lemma reserve_raised:
  assumes "reserve_llm_budget ep turn input output lm rid now cutoff l = Inr r"
    and "0 \<le> lm_calls_turn x" "0 \<le> lm_calls_episode x" "0 \<le> lm_input_tokens x" "0 \<le> lm_output_tokens x"
  shows "reserve_llm_budget ep turn input output (raised lm x) rid now cutoff l = Inr r"
proof -
  have "check_budget (raised lm x) ep turn input output e k = Inr ()" if "check_budget lm ep turn input output e k = Inr ()" for e k
    using that assms(2-5) by (auto simp: check_budget_def splits_result raised_def)
  moreover have "\<not> min input (min output (min (lm_calls_turn (raised lm x)) (lm_calls_episode (raised lm x)))) < 0"
    using assms by (auto simp: reserve_llm_budget_def raised_def split: if_splits)
  ultimately show ?thesis
    using assms(1) unfolding reserve_llm_budget_def Let_def by (auto simp: splits_result split: if_splits option.splits)
qed

definition overran :: "llm_limits \<Rightarrow> bool" where
  "overran x \<longleftrightarrow> 0 \<le> lm_calls_turn x \<and> 0 \<le> lm_calls_episode x \<and> 0 \<le> lm_input_tokens x \<and> 0 \<le> lm_output_tokens x"

lemma raised_raised: "raised (raised lm x) y = raised lm (raised x y)"
  by (simp add: raised_def)

definition booked :: "llm_limits \<Rightarrow> string \<Rightarrow> budget_state \<Rightarrow> bool" where
  "booked lm ep = (\<lambda>(l, G, S, x). lg_reservations l = G \<and> committed (raised lm x) ep (l, S) \<and> overran x)"

lemma spends_booked:
  assumes "spends add lm ep s s'" and "integer_addition add" and "booked lm ep s"
  shows "booked lm ep s'"
  using assms(1)
proof cases
  case (reserves ep' turn i out lm' rid now cutoff l rid' l' G S x)
  have old: "lg_reservations l = G" "committed (raised lm x) ep (l, S)" "overran x"
    using assms(3) by (simp_all add: booked_def reserves)
  have "reserve_llm_budget ep' turn i out (if ep' = ep then raised lm x else lm') rid now cutoff l = Inr (rid', l')"
    using reserves old(3) by (auto simp: overran_def intro: reserve_raised)
  from reserve_committed [OF old(2) this] have "committed (raised lm x) ep (l', S - {rid})" by simp
  moreover have "lg_reservations l' = filter (\<lambda>r. \<not> rv_created_at r < cutoff) G
      @ [\<lparr>rv_id = rid, rv_episode = ep', rv_turn = turn, rv_input = i, rv_output = out, rv_created_at = now\<rparr>]"
    by (rule reserve_Inr [OF reserves(3)]) (simp add: drop_stale_def old(1))
  ultimately show ?thesis using old(3) by (simp add: booked_def reserves)
next
  case (records u l d y x rid G S)
  have old: "lg_reservations l = G" "committed (raised lm x) ep (l, S)" "overran x"
    using assms(3) by (simp_all add: booked_def records)
  have "overran y" using old(3) by (auto simp: records(4) overran_def raised_def overrun_def split: option.splits)
  moreover have "committed (raised lm y) ep (l\<lparr>lg_db := d\<rparr>, insert rid S)"
    using record_committed [OF old(2) records(3) assms(2), of rid]
    by (simp add: records(4) raised_raised old(1) split: if_splits)
  ultimately show ?thesis using old(1) by (simp add: booked_def records)
next
  case (releases l G S x rid)
  have old: "lg_reservations l = G" "committed (raised lm x) ep (l, S)" "overran x"
    using assms(3) by (simp_all add: booked_def releases)
  have "committed (raised lm x) ep (release_llm_reservation rid l, S - {rid})"
    by (rule committed_fewer [OF old(2)]) (auto simp: release_llm_reservation_def)
  then show ?thesis using old by (simp add: booked_def releases) (simp add: release_llm_reservation_def)
next
  case (elsewhere l' l G S x)
  then have "reserved ep l' = reserved ep l" "pending ep l' S = pending ep l S"
    by (simp_all add: pending_def reserved_def)
  with elsewhere assms(3) show ?thesis by (auto simp: booked_def committed_def fits_def)
qed

text \<open>
  C32. The budget of an episode holds up to what its reservations did not cover, however the callers
  interleave: from a ledger within the limits, where nothing is reserved for the episode, after any
  sequence of reservations (each drops those older than its cutoff), recorded calls, releases and
  operations that leave the use of the episode alone, the calls and tokens used exceed the limits by at
  most the overrun: one call and its tokens for every call recorded after its reservation had become
  stale, and the tokens a provider reported beyond the reservation for the others. Without such calls
  the limits hold exactly.
\<close>
theorem llm_budget_never_exceeded:
  assumes "(spends add lm ep)\<^sup>*\<^sup>* (l, lg_reservations l, {}, no_overrun) (l', G, S, x)" and "integer_addition add"
    and "within_limits lm ep (lg_db l)" and "reserved ep l = []" and "distinct (map rv_id (lg_reservations l))"
  shows "within_limits (raised lm x) ep (lg_db l') \<and> lg_reservations l' = G
    \<and> (x = no_overrun \<longrightarrow> within_limits lm ep (lg_db l'))"
proof -
  have none: "raised lm no_overrun = lm" by (simp add: raised_def no_overrun_def)
  have "booked lm ep (l, lg_reservations l, {}, no_overrun)"
    using assms(3-5) by (simp add: booked_def committed_def pending_def fits_Nil none) (simp add: overran_def no_overrun_def)
  with assms(1) have "booked lm ep (l', G, S, x)"
    by (induction rule: rtranclp_induct) (auto intro: spends_booked [OF _ assms(2)])
  then have "committed (raised lm x) ep (l', S)" "lg_reservations l' = G" by (simp_all add: booked_def)
  with committed_within none show ?thesis by auto
qed

section \<open>Every call is accounted for\<close>

lemma append_one_log:
  assumes "append_one E ep c first st (n, draft) (es, h, l) = Inr (es', h', l')"
  shows "\<exists>e. es' = es @ [e] \<and> ev_kind e = ed_kind draft \<and> ev_payload e = ed_payload draft
    \<and> lg_events l' = lg_events l @ [stored_of e] \<and> lg_reservations l' = lg_reservations l"
  using assms by (auto simp: append_one_def Let_def splits_result insert_event_iff)

lemma append_fold_log:
  assumes "fold_result (append_one E ep c first st) (enumerate n drafts) (es, h, l) = Inr (es', h', l')"
  shows "\<exists>new. es' = es @ new \<and> map ev_kind new = map ed_kind drafts \<and> map ev_payload new = map ed_payload drafts
    \<and> lg_events l' = lg_events l @ map stored_of new \<and> lg_reservations l' = lg_reservations l"
  using assms
proof (induction drafts arbitrary: n es h l)
  case (Cons d drafts)
  obtain es1 h1 l1 where one: "append_one E ep c first st (n, d) (es, h, l) = Inr (es1, h1, l1)"
    and rest: "fold_result (append_one E ep c first st) (enumerate (Suc n) drafts) (es1, h1, l1) = Inr (es', h', l')"
    using Cons.prems by (auto simp: splits_result simp del: split_paired_Ex)
  from append_one_log [OF one] Cons.IH [OF rest] show ?case by fastforce
qed simp

lemma append_events_log:
  assumes "append_events E ep drafts c [] [] st l = Inr (es, l')" and "drafts \<noteq> []"
  shows "map ev_kind es = map ed_kind drafts" and "map ev_payload es = map ed_payload drafts"
    and "lg_events l' = lg_events l @ map stored_of es" and "lg_reservations l' = lg_reservations l"
proof -
  obtain h where "fold_result (append_one E ep (clean_correlation c []) (next_seq l) st) (enumerate 0 drafts)
      ([], stored_head (lg_db l) ep, l) = Inr (es, h, l')"
    using assms by (auto simp: append_events_def append_drafts_def Let_def splits_result)
  from append_fold_log [OF this] show "map ev_kind es = map ed_kind drafts" "map ev_payload es = map ed_payload drafts"
    "lg_events l' = lg_events l @ map stored_of es" "lg_reservations l' = lg_reservations l" by auto
qed

lemma attempt_outcome: "attempt fs s = (s', True) \<Longrightarrow> (\<And>s s'. last fs s = Inr s' \<Longrightarrow> cs_outcome s' = x) \<Longrightarrow> fs \<noteq> [] \<Longrightarrow> cs_outcome s' = x"
proof (induction fs s rule: attempt.induct)
  case (2 f fs s)
  then show ?case by (cases "fs = []") (auto split: sum.splits)
qed simp

lemma ask_model_success: "ask_model answer ftext validator sha i n = (s, True) \<Longrightarrow> cs_outcome s = ''success''"
  by (auto simp: ask_model_def Let_def examine_def split: sum.splits dest!: attempt_outcome)

text \<open>
  C33. A call that reached the model is accounted for whatever the model did: its reservation is gone,
  and either the log has three more records, of the use, the verdict and the attribution of the call,
  or they could not be appended and the call fails. It returns a result only when the recorded use is
  a success with the tokens of the result.
\<close>
theorem model_call_accounted:
  assumes "rq_max_tokens q = JInt n" and "0 < n" and "\<not> rq_busy q"
    and "sql_first ''episodes'' (has_id ep) (lg_db l) = Some episode" and "py_int (cell episode ''current_turn'') = Inr turn"
    and "reserve_llm_budget ep turn (estimated_input q) n (rq_limits q) (rq_ids q ''reservation'') (rq_now q) (rq_cutoff q) l
      = Inr (rid, l0)"
    and "sampling_policy (rq_float_text q) (rq_temperature q) = Inr temperature"
    and "complete_structured E ep q l = (r, l')"
  shows "(\<forall>v\<in>set (lg_reservations l'). rv_id v \<noteq> rid)
    \<and> (lg_events l' = lg_events (rq_meanwhile q l0) \<and> (\<exists>e. r = Inl e)
       \<or> (\<exists>es u. lg_events l' = lg_events (rq_meanwhile q l0) @ map stored_of es
            \<and> map ev_kind es = [''LLM_USAGE_RECORDED'', ''COMPONENT_VERDICT_RECORDED'', ''LLM_CALL_ATTRIBUTION'']
            \<and> ev_payload (hd es) = JObj [(''record'', JObj (usage_fields u))] \<and> us_episode u = ep \<and> us_turn u = turn
            \<and> (\<forall>c. r = Inr c \<longrightarrow> us_outcome u = ''success'' \<and> cr_input_tokens c = us_input u
                 \<and> cr_output_tokens c = us_output u \<and> cr_event_ids c = map ev_id es)))"
proof -
  obtain s ok where asked: "ask_model (rq_answer q) (rq_float_text q) (rq_validator q) (le_sha E) (estimated_input q) n = (s, ok)"
    by (metis surj_pair)
  let ?drafts = "call_drafts (le_sha E) ep turn n temperature q s"
  let ?m = "rq_meanwhile q l0"
  have run: "account_call E ep turn n temperature q rid (s, ok) ?m = (r, l')"
    using assms(2,8) by (simp add: complete_structured_def assms(1,3-7) asked)
  show ?thesis
  proof (cases "append_events E ep ?drafts [] [] [] (rq_stamps q) ?m")
    case (Inl e)
    with run show ?thesis by (auto simp: account_call_def release_llm_reservation_def)
  next
    case (Inr x)
    then obtain es l1 where app: "append_events E ep ?drafts [] [] [] (rq_stamps q) ?m = Inr (es, l1)" by (cases x) auto
    have "?drafts \<noteq> []" by (simp add: call_drafts_def)
    note log = append_events_log [OF app this]
    have out: "l' = release_llm_reservation rid l1"
      "r = Inr c \<Longrightarrow> ok \<and> cr_input_tokens c = cs_input s \<and> cr_output_tokens c = cs_output s \<and> cr_event_ids c = map ev_id es" for c
      using run app by (auto simp: account_call_def split: if_splits)
    have "ev_payload (hd es) = JObj [(''record'', JObj (usage_fields (usage_of ep turn q s)))]"
      using log(2) by (cases es) (simp_all add: call_drafts_def record_draft_def)
    moreover have "map ev_kind es = [''LLM_USAGE_RECORDED'', ''COMPONENT_VERDICT_RECORDED'', ''LLM_CALL_ATTRIBUTION'']"
      using log(1) by (simp add: call_drafts_def record_draft_def)
    moreover have "ok \<Longrightarrow> cs_outcome s = ''success''" using ask_model_success asked by simp
    ultimately show ?thesis
      using log(3) out
      by (intro conjI disjI2 exI [of _ es] exI [of _ "usage_of ep turn q s"])
        (auto simp: release_llm_reservation_def usage_of_def)
  qed
qed

section \<open>Examples\<close>

fun int_plus :: "json \<Rightarrow> json \<Rightarrow> json" where
  "int_plus (JInt a) (JInt b) = JInt (a + b)"
| "int_plus _ _ = JNull"

definition budget_ledger :: ledger where
  "budget_ledger = empty_ledger\<lparr>lg_db := (\<lambda>t. if t = ''episodes'' then
     [map (\<lambda>c. (c, JStr ''x'')) [''episode_key'', ''session_id'', ''task_id'', ''platform'', ''model'', ''default_stakes'',
        ''created_at'', ''updated_at'', ''compatibility_mode'', ''state'']
      @ (''id'', JStr ''ep'') # map (\<lambda>c. (c, JInt 0)) [''current_turn'', ''llm_calls_used'', ''input_tokens_used'', ''output_tokens_used'']]
     else [])\<rparr>"

definition one_call :: llm_limits where
  "one_call = \<lparr>lm_calls_turn = 1, lm_calls_episode = 1, lm_input_tokens = 100, lm_output_tokens = 100\<rparr>"

definition sample_usage :: "string \<Rightarrow> usage" where
  "sample_usage i = \<lparr>us_id = i, us_episode = ''ep'', us_purpose = ''claims'', us_provider = ''p'', us_model = ''m'',
     us_input = 7, us_output = 5, us_cost = JNull, us_latency = 3, us_turn = 0, us_outcome = ''success''\<rparr>"

definition sample_reservation :: "string \<Rightarrow> string \<Rightarrow> reservation" where
  "sample_reservation i now = \<lparr>rv_id = i, rv_episode = ''ep'', rv_turn = 0, rv_input = 10, rv_output = 10, rv_created_at = now\<rparr>"

lemma sample_reserve:
  "reserve_llm_budget ''ep'' 0 10 10 one_call ''r1'' ''2026-01-01T00:00:00'' ''2025-12-31T23:55:00'' budget_ledger
     = Inr (''r1'', budget_ledger\<lparr>lg_reservations := [sample_reservation ''r1'' ''2026-01-01T00:00:00'']\<rparr>)"
  by (simp add: reserve_llm_budget_def drop_stale_def budget_ledger_def empty_ledger_def sql_first_def has_id_def
      cell_def dict_get_def check_budget_def used_in_turn_def reserved_in_turn_def reserved_def one_call_def
      sample_reservation_def require_def Let_def)

lemma sample_records: "succeeds (llm_usage int_plus (usage_fields (sample_usage ''u1'')) (lg_db budget_ledger)) (\<lambda>d. used_in_turn ''ep'' 0 d = 1)"
  by code_simp

theorem llm_budget_never_exceeded_witness:
  "\<exists>d. llm_usage int_plus (usage_fields (sample_usage ''u1'')) (lg_db budget_ledger) = Inr d
     \<and> used_in_turn ''ep'' 0 d = 1 \<and> within_limits one_call ''ep'' d"
proof -
  let ?v = "sample_reservation ''r1'' ''2026-01-01T00:00:00''"
  let ?l1 = "budget_ledger\<lparr>lg_reservations := [?v]\<rparr>"
  obtain d where d: "llm_usage int_plus (usage_fields (sample_usage ''u1'')) (lg_db budget_ledger) = Inr d" "used_in_turn ''ep'' 0 d = 1"
    using sample_records [unfolded succeeds_iff] by (elim exE conjE) (rule that)
  have empty: "lg_reservations budget_ledger = []" by (simp add: budget_ledger_def empty_ledger_def)
  have "spends int_plus one_call ''ep'' (budget_ledger, [], {}, no_overrun) (?l1, [?v], {}, no_overrun)"
    using spends.reserves [OF sample_reserve, of "''ep''" one_call int_plus "[]" "{}" no_overrun]
    by (simp add: sample_reservation_def)
  moreover have "spends int_plus one_call ''ep'' (?l1, [?v], {}, no_overrun) (?l1\<lparr>lg_db := d\<rparr>, [?v], {''r1''}, no_overrun)"
    by (rule spends.records [where u = "sample_usage ''u1''"])
      (use d(1) in \<open>simp_all add: sample_usage_def sample_reservation_def standing_def overrun_def raised_def no_overrun_def\<close>)
  ultimately have "(spends int_plus one_call ''ep'')\<^sup>*\<^sup>* (budget_ledger, lg_reservations budget_ledger, {}, no_overrun)
      (?l1\<lparr>lg_db := d\<rparr>, [?v], {''r1''}, no_overrun)"
    unfolding empty by (meson converse_rtranclp_into_rtranclp r_into_rtranclp)
  moreover have "integer_addition int_plus" by (simp add: integer_addition_def)
  moreover have "within_limits one_call ''ep'' (lg_db budget_ledger)"
    by (simp add: within_limits_def counters_def used_in_turn_def budget_ledger_def empty_ledger_def sql_first_def has_id_def
        cell_def dict_get_def one_call_def)
  moreover have "reserved ''ep'' budget_ledger = []" "distinct (map rv_id (lg_reservations budget_ledger))"
    by (simp_all add: reserved_def empty)
  ultimately have "within_limits one_call ''ep'' (lg_db (?l1\<lparr>lg_db := d\<rparr>))"
    using llm_budget_never_exceeded by blast
  with d show ?thesis by auto
qed

definition sample_question :: request where
  "sample_question = \<lparr>rq_purpose = ''llm.claims'', rq_instructions = ''extract'', rq_text = ''text'', rq_schema_text = ''{}'',
     rq_schema_name = ''claims'', rq_max_tokens = JInt 10, rq_validator = Inr, rq_limits = one_call\<lparr>lm_input_tokens := 5000\<rparr>,
     rq_temperature = JNull, rq_busy = False,
     rq_answer = Inr \<lparr>ma_schema_version = 1, ma_parsed = JObj [], ma_provider = JStr ''p'', ma_model = JStr ''m'',
       ma_input_tokens = JInt 7, ma_output_tokens = JInt 5, ma_cost = JNull\<rparr>,
     rq_meanwhile = id, rq_float_text = (\<lambda>x. ''0.0''), rq_redact = id, rq_ids = id,
     rq_now = ''2026-01-01T00:00:00'', rq_cutoff = ''2025-12-31T23:55:00'', rq_latency = 3, rq_stamps = sample_stamps\<rparr>"

definition sample_answered :: call_state where
  "sample_answered = \<lparr>cs_provider = ''p'', cs_model = ''m'', cs_input = 7, cs_output = 5, cs_cost = JNull,
     cs_outcome = ''success'', cs_parsed = JObj [], cs_digest = Some ''#{}''\<rparr>"

abbreviation sample_call_drafts :: "event_draft list" where
  "sample_call_drafts \<equiv> call_drafts (le_sha sample_env) ''ep'' 0 10 (JFloat ''0.0'') sample_question sample_answered"

text \<open>The \<open>n\<close>-th record of the call, with identifier \<open>i\<close> and tag \<open>t\<close>, after an event of hash \<open>p\<close>\<close>

definition sample_call_event :: "nat \<Rightarrow> string \<Rightarrow> string \<Rightarrow> string \<Rightarrow> event" where
  "sample_call_event n i t p =
     (build_event (le_sha sample_env) (Suc n) ''ep'' (sample_call_drafts ! n) p [] ''2026-01-01T00:00:00.000000Z'' i)
       \<lparr>ev_auth_tag := t\<rparr>"

lemma sample_event_hash:
  "8 \<le> length p \<Longrightarrow> ev_event_hash (build_event (le_sha sample_env) n ep d p c t i) = CHR ''#'' # take 8 p"
  by (simp add: build_event_hash event_hash_of_def chain_material_def sample_env_def)

lemma sample_event_auth:
  "8 \<le> length p \<Longrightarrow> event_auth sample_env (build_event (le_sha sample_env) n ep d p c t i) = Inr (''tag'' @ i @ [NUL, CHR ''#''] @ take 8 p)"
  by (simp add: event_auth_def compute_event_auth_def sample_event_hash) (simp add: sample_env_def)


lemma sample_call_applies:
  "succeeds (apply_event (le_storage sample_env) (sample_call_event 0 ''id0'' t0 p0) (lg_db budget_ledger)) (\<lambda>d1.
   succeeds (apply_event (le_storage sample_env) (sample_call_event 1 ''id1'' t1 p1) d1) (\<lambda>d2.
   succeeds (apply_event (le_storage sample_env) (sample_call_event 2 ''id2'' t2 p2) d2) (\<lambda>d3. True)))"
  by code_simp

abbreviation sample_tag :: "string \<Rightarrow> string \<Rightarrow> string" where
  "sample_tag i p \<equiv> ''tag'' @ i @ [NUL, CHR ''#''] @ take 8 p"

lemma sample_call_one:
  assumes "8 \<le> length p" and "insert_event (sample_call_event n i (sample_tag i p) p) l = Inr l1"
    and "apply_event (le_storage sample_env) (sample_call_event n i (sample_tag i p) p) (lg_db l1) = Inr d" and "i = ''id'' @ show_nat n"
    and "q = CHR ''#'' # take 8 p"
  shows "append_one sample_env ''ep'' [] 1 sample_stamps (n, sample_call_drafts ! n) (es, p, l)
    = Inr (es @ [sample_call_event n i (sample_tag i p) p], q, l1\<lparr>lg_db := d\<rparr>)"
proof -
  let ?e = "sample_call_event n i (sample_tag i p) p"
  have "ev_event_hash ?e = CHR ''#'' # take 8 p"
    using assms(1) by (simp add: sample_call_event_def sample_event_hash)
  moreover have "append_one sample_env ''ep'' [] 1 sample_stamps (n, sample_call_drafts ! n) (es, p, l)
      = Inr (es @ [?e], ev_event_hash ?e, l1\<lparr>lg_db := d\<rparr>)"
    by (rule append_one_run [OF _ _ assms(2,3), where tag = "sample_tag i p"])
      (use assms(1,4) in \<open>simp_all add: sample_event_auth sample_call_event_def sample_stamps_def\<close>)
  ultimately show ?thesis by (simp add: assms(5))
qed

lemma insert_event_fresh:
  assumes "list_all (\<lambda>r. se_seq r \<noteq> ev_seq e \<and> se_id r \<noteq> ev_id e \<and> se_event_hash r \<noteq> ev_event_hash e) (lg_events l)"
    and "list_all (\<lambda>a. au_event_id a \<noteq> ev_id e) (lg_auth l)"
  shows "insert_event e l = Inr (l\<lparr>lg_events := lg_events l @ [stored_of e], lg_auth := lg_auth l @ [auth_of e]\<rparr>)"
  using assms by (auto simp: insert_event_iff list_all_iff list_ex_iff)

lemma show_nats: "show_nat 0 = ''0''" "show_nat 1 = ''1''" "show_nat 2 = ''2''"
  by code_simp+

abbreviation hash1 :: string where "hash1 \<equiv> CHR ''#'' # replicate 8 (CHR ''0'')"
abbreviation hash2 :: string where "hash2 \<equiv> CHR ''#'' # CHR ''#'' # replicate 7 (CHR ''0'')"

lemma hash_takes: "take 8 ZERO_HASH = replicate 8 (CHR ''0'')" "take 8 hash1 = CHR ''#'' # replicate 7 (CHR ''0'')"
  "take 8 hash2 = CHR ''#'' # CHR ''#'' # replicate 6 (CHR ''0'')" "8 \<le> length ZERO_HASH"
  by (simp_all add: ZERO_HASH_def numeral_eq_Suc)

lemma sample_call_appends:
  assumes "lg_events l = []" and "lg_auth l = []" and "lg_db l = lg_db budget_ledger"
  obtains es l' where "append_events sample_env ''ep'' sample_call_drafts [] [] [] sample_stamps l = Inr (es, l')"
    and "length es = 3"
proof -
  let ?e0 = "sample_call_event 0 ''id0'' (sample_tag ''id0'' ZERO_HASH) ZERO_HASH"
  let ?e1 = "sample_call_event 1 ''id1'' (sample_tag ''id1'' hash1) hash1"
  let ?e2 = "sample_call_event 2 ''id2'' (sample_tag ''id2'' hash2) hash2"
  have ev: "ev_seq (sample_call_event n i t p) = Suc n" "ev_id (sample_call_event n i t p) = i" for n i t p
    by (simp_all add: sample_call_event_def build_event_def Let_def)
  have h: "8 \<le> length p \<Longrightarrow> ev_event_hash (sample_call_event n i t p) = CHR ''#'' # take 8 p" for n i t p
    by (simp add: sample_call_event_def sample_event_hash)
  have hashes: "ev_event_hash ?e0 = hash1" "ev_event_hash ?e1 = hash2" "ev_event_hash ?e2 = CHR ''#'' # CHR ''#'' # CHR ''#'' # replicate 6 (CHR ''0'')"
    by (simp_all add: h hash_takes del: One_nat_def)
  obtain d1 d2 d3 where d: "apply_event (le_storage sample_env) ?e0 (lg_db l) = Inr d1"
      "apply_event (le_storage sample_env) ?e1 d1 = Inr d2" "apply_event (le_storage sample_env) ?e2 d2 = Inr d3"
    using sample_call_applies [unfolded succeeds_iff] unfolding assms(3) by metis
  have ne: "replicate 8 (CHR ''0'') \<noteq> CHR ''#'' # xs" "replicate 7 (CHR ''0'') \<noteq> CHR ''#'' # xs" for xs
    by (simp_all add: numeral_eq_Suc)
  let ?add = "\<lambda>e l. l\<lparr>lg_events := lg_events l @ [stored_of e], lg_auth := lg_auth l @ [auth_of e]\<rparr>"
  let ?l1 = "(?add ?e0 l)\<lparr>lg_db := d1\<rparr>"
  let ?l2 = "(?add ?e1 ?l1)\<lparr>lg_db := d2\<rparr>"
  let ?l3 = "(?add ?e2 ?l2)\<lparr>lg_db := d3\<rparr>"
  have i: "insert_event ?e0 l = Inr (?add ?e0 l)" "insert_event ?e1 ?l1 = Inr (?add ?e1 ?l1)" "insert_event ?e2 ?l2 = Inr (?add ?e2 ?l2)"
    by (rule insert_event_fresh; simp add: assms ev h hash_takes ne stored_of_def auth_of_def)+
  have one: "append_one sample_env ''ep'' [] 1 sample_stamps (0, sample_call_drafts ! 0) ([], ZERO_HASH, l) = Inr ([] @ [?e0], hash1, ?l1)"
    by (rule sample_call_one [OF _ i(1)]) (use d(1) in \<open>simp_all add: show_nats hash_takes\<close>)
  have two: "append_one sample_env ''ep'' [] 1 sample_stamps (1, sample_call_drafts ! 1) ([] @ [?e0], hash1, ?l1)
      = Inr (([] @ [?e0]) @ [?e1], hash2, ?l2)"
    by (rule sample_call_one [OF _ i(2)]) (use d(2) in \<open>simp_all only: show_nats, simp_all add: hash_takes\<close>)
  have three: "append_one sample_env ''ep'' [] 1 sample_stamps (2, sample_call_drafts ! 2) (([] @ [?e0]) @ [?e1], hash2, ?l2)
      = Inr ((([] @ [?e0]) @ [?e1]) @ [?e2], CHR ''#'' # take 8 hash2, ?l3)"
    by (rule sample_call_one [OF _ i(3)]) (use d(3) in \<open>simp_all add: show_nats\<close>)
  have "sample_call_drafts = [sample_call_drafts ! 0, sample_call_drafts ! 1, sample_call_drafts ! 2]"
    by (simp add: call_drafts_def)
  then have "enumerate 0 sample_call_drafts = [(0, sample_call_drafts ! 0), (1, sample_call_drafts ! 1), (2, sample_call_drafts ! 2)]"
    by (metis One_nat_def Suc_1 enumerate_simps)
  moreover have "next_seq l = 1" "stored_head (lg_db l) ''ep'' = ZERO_HASH" "clean_correlation [] [] = []"
    by (simp_all add: next_seq_def assms stored_head_def budget_ledger_def sql_first_def clean_correlation_def)
  ultimately have "append_drafts sample_env ''ep'' sample_call_drafts [] sample_stamps l = Inr ((([] @ [?e0]) @ [?e1]) @ [?e2], ?l3)"
    by (simp only: append_drafts_def fold_result.simps one two three sum.case and_then.simps prod.case)
  moreover have "sample_call_drafts \<noteq> []" by (simp add: call_drafts_def)
  ultimately have "append_events sample_env ''ep'' sample_call_drafts [] [] [] sample_stamps l = Inr ((([] @ [?e0]) @ [?e1]) @ [?e2], ?l3)"
    by (simp add: append_events_def clean_correlation_def)
  then show thesis by (rule that) simp
qed
lemma sample_call_reserves:
  obtains l where "reserve_llm_budget ''ep'' 0 (estimated_input sample_question) 10 (rq_limits sample_question)
      (rq_ids sample_question ''reservation'') (rq_now sample_question) (rq_cutoff sample_question) budget_ledger
    = Inr (''reservation'', l)"
    and "lg_events l = []" and "lg_auth l = []" and "lg_db l = lg_db budget_ledger"
proof -
  let ?l = "budget_ledger\<lparr>lg_reservations := [\<lparr>rv_id = ''reservation'', rv_episode = ''ep'', rv_turn = 0, rv_input = 1037,
    rv_output = 10, rv_created_at = ''2026-01-01T00:00:00''\<rparr>]\<rparr>"
  have "reserve_llm_budget ''ep'' 0 (estimated_input sample_question) 10 (rq_limits sample_question)
      (rq_ids sample_question ''reservation'') (rq_now sample_question) (rq_cutoff sample_question) budget_ledger
    = Inr (''reservation'', ?l)"
    by (simp add: sample_question_def estimated_input_def reserve_llm_budget_def drop_stale_def budget_ledger_def
      empty_ledger_def sql_first_def has_id_def cell_def dict_get_def check_budget_def used_in_turn_def
      reserved_in_turn_def reserved_def one_call_def require_def)
  from that [OF this] show thesis by (simp add: budget_ledger_def empty_ledger_def)
qed

theorem model_call_accounted_witness:
  "\<exists>c l es. complete_structured sample_env ''ep'' sample_question budget_ledger = (Inr c, l)
     \<and> cr_input_tokens c = 7 \<and> list_all (\<lambda>v. rv_id v \<noteq> ''reservation'') (lg_reservations l)
     \<and> lg_events l = map stored_of es \<and> length es = 3 \<and> cr_event_ids c = map ev_id es"
proof -
  obtain l0 where l0: "reserve_llm_budget ''ep'' 0 (estimated_input sample_question) 10 (rq_limits sample_question)
      (rq_ids sample_question ''reservation'') (rq_now sample_question) (rq_cutoff sample_question) budget_ledger
    = Inr (''reservation'', l0)" and empty: "lg_events l0 = []" "lg_auth l0 = []" "lg_db l0 = lg_db budget_ledger"
    by (rule sample_call_reserves)
  obtain es l1 where app: "append_events sample_env ''ep'' sample_call_drafts [] [] [] sample_stamps l0 = Inr (es, l1)"
    by (rule sample_call_appends [OF empty])
  obtain episode where e: "sql_first ''episodes'' (has_id ''ep'') (lg_db budget_ledger) = Some episode"
    "py_int (cell episode ''current_turn'') = Inr 0"
    by (simp add: budget_ledger_def empty_ledger_def sql_first_def has_id_def cell_def dict_get_def)
  have q: "rq_max_tokens sample_question = JInt 10" "\<not> rq_busy sample_question" "rq_meanwhile sample_question = id"
    "rq_stamps sample_question = sample_stamps"
    by (simp_all add: sample_question_def)
  have t: "sampling_policy (rq_float_text sample_question) (rq_temperature sample_question) = Inr (JFloat ''0.0'')"
    by (simp add: sample_question_def sampling_policy_def)
  have a: "ask_model (rq_answer sample_question) (rq_float_text sample_question) (rq_validator sample_question)
      (le_sha sample_env) (estimated_input sample_question) 10 = (sample_answered, True)"
    by code_simp
  have run: "complete_structured sample_env ''ep'' sample_question budget_ledger
    = account_call sample_env ''ep'' 0 10 (JFloat ''0.0'') sample_question ''reservation'' (sample_answered, True) l0"
    by (simp add: complete_structured_def q e l0 t a)
  obtain c l where c: "complete_structured sample_env ''ep'' sample_question budget_ledger = (Inr c, l)" "cr_input_tokens c = 7"
    unfolding run by (simp add: account_call_def q app) (simp add: sample_answered_def)
  have "0 < (10 :: int)" by simp
  from model_call_accounted [OF q(1) this q(2) e l0 t c(1)] c empty show ?thesis
    by (auto simp: q(3) list_all_iff)
qed

text \<open>
  The overrun is real: when a call takes longer than a reservation lasts, a second one is granted under a
  limit of one call once the first reservation is stale; both are recorded, and two calls were used.
\<close>

theorem stale_reservation_exceeds_budget:
  "\<exists>l1 l2 d1 d2. reserve_llm_budget ''ep'' 0 10 10 one_call ''r1'' ''2026-01-01T00:00:00'' ''2025-12-31T23:55:00'' budget_ledger = Inr (''r1'', l1)
     \<and> reserve_llm_budget ''ep'' 0 10 10 one_call ''r2'' ''2026-01-01T00:06:00'' ''2026-01-01T00:01:00'' l1 = Inr (''r2'', l2)
     \<and> llm_usage int_plus (usage_fields (sample_usage ''u1'')) (lg_db l2) = Inr d1
     \<and> llm_usage int_plus (usage_fields (sample_usage ''u2'')) d1 = Inr d2
     \<and> used_in_turn ''ep'' 0 d2 = 2 \<and> lm_calls_turn one_call = 1"
proof -
  let ?l1 = "budget_ledger\<lparr>lg_reservations := [sample_reservation ''r1'' ''2026-01-01T00:00:00'']\<rparr>"
  let ?l2 = "budget_ledger\<lparr>lg_reservations := [sample_reservation ''r2'' ''2026-01-01T00:06:00'']\<rparr>"
  have "reserve_llm_budget ''ep'' 0 10 10 one_call ''r2'' ''2026-01-01T00:06:00'' ''2026-01-01T00:01:00'' ?l1 = Inr (''r2'', ?l2)"
    by (simp add: reserve_llm_budget_def drop_stale_def budget_ledger_def empty_ledger_def sql_first_def has_id_def
        cell_def dict_get_def check_budget_def used_in_turn_def reserved_in_turn_def reserved_def one_call_def
        sample_reservation_def require_def Let_def less_char_def)
  moreover have "succeeds (llm_usage int_plus (usage_fields (sample_usage ''u1'')) (lg_db budget_ledger))
      (\<lambda>d1. succeeds (llm_usage int_plus (usage_fields (sample_usage ''u2'')) d1) (\<lambda>d2. used_in_turn ''ep'' 0 d2 = 2))"
    by code_simp
  ultimately show ?thesis using sample_reserve by (force simp: succeeds_iff one_call_def)
qed
end
