(* ===== verification/Scope.thy ===== *)
theory Scope
  imports Validity
begin

text \<open>
  \<open>engine/qualifiers.py\<close> and \<open>engine/contradiction.py\<close>: the scope two beliefs speak about, made
  canonical and reconciled, and the deterministic rules that find one belief to contradict another.
  The calendar of \<open>datetime\<close> is a parameter.
\<close>

section \<open>Texts\<close>

text \<open>\<open>str.replace\<close>; the program replaces nonempty texts only.\<close>

function replace_all :: "string \<Rightarrow> string \<Rightarrow> string \<Rightarrow> string" where
  "replace_all old new s =
     (case s of
        [] \<Rightarrow> []
      | c # cs \<Rightarrow> if old \<noteq> [] \<and> starts_with old s then new @ replace_all old new (drop (length old) s)
                  else c # replace_all old new cs)"
  by pat_completeness auto
termination by (relation "measure (\<lambda>(old, new, s). length s)") (auto simp: diff_less_Suc)

declare replace_all.simps [simp del]

section \<open>Points in time\<close>

text \<open>
  What the standard library reads and writes: \<open>datetime.fromisoformat\<close>, \<open>date.fromisoformat\<close> (midnight;
  \<open>None\<close> for the \<open>ValueError\<close> of either) and \<open>isoformat\<close> of both. \<open>astimezone(UTC)\<close> raises where the point
  in time is outside the years 1 to 9999.
\<close>

record calendar =
  cal_datetime :: "string \<Rightarrow> datetime option"
  cal_date :: "string \<Rightarrow> int option"
  cal_text :: "datetime \<Rightarrow> string"
  cal_date_text :: "int \<Rightarrow> string"

definition DATETIME_MIN :: int where "DATETIME_MIN = - 62135596800000000"
definition DATETIME_MAX :: int where "DATETIME_MAX = 253402300799999999"

definition to_utc :: "int \<Rightarrow> int result" where
  "to_utc t = (if DATETIME_MIN \<le> t \<and> t \<le> DATETIME_MAX then Inr t else Inl (OverflowError ''date value out of range''))"

definition canonical_date :: "calendar \<Rightarrow> string \<Rightarrow> string result" where
  "canonical_date cal v =
     (let cleaned = replace_all ''Z'' ''+00:00'' (strip v) in
      case cal_datetime cal cleaned of
        Some (Aware t) \<Rightarrow> and_then (to_utc t) (\<lambda>t. Inr (replace_all ''+00:00'' ''Z'' (cal_text cal (Aware t))))
      | Some (Naive t) \<Rightarrow> Inr (replace_all ''+00:00'' ''Z'' (cal_text cal (Naive t)))
      | None \<Rightarrow> (case cal_date cal cleaned of Some d \<Rightarrow> Inr (cal_date_text cal d) | None \<Rightarrow> Inr v))"

definition parse_temporal :: "calendar \<Rightarrow> string \<Rightarrow> int option result" where
  "parse_temporal cal v =
     (case cal_datetime cal (replace_all ''Z'' ''+00:00'' v) of
        Some (Aware t) \<Rightarrow> and_then (to_utc t) (\<lambda>t. Inr (Some t))
      | Some (Naive t) \<Rightarrow> Inr (Some t)
      | None \<Rightarrow> Inr (cal_date cal v))"

section \<open>Qualifiers\<close>

type_synonym qualifier_map = "(string \<times> string) list"

definition SUPPORTED_QUALIFIERS :: "string list" where
  "SUPPORTED_QUALIFIERS = [''as_of'', ''valid_from'', ''valid_to'', ''scope'', ''jurisdiction'', ''perspective'',
     ''units'', ''version'', ''assumptions'']"

definition ALIASES :: qualifier_map where
  "ALIASES = [(''assumes'', ''assumptions''), (''unit'', ''units''), (''validity_start'', ''valid_from''),
     (''validity_end'', ''valid_to'')]"

definition TEMPORAL_KEYS :: "string list" where
  "TEMPORAL_KEYS = [''as_of'', ''valid_from'', ''valid_to'']"

definition LABEL_KEYS :: "string list" where
  "LABEL_KEYS = [''scope'', ''jurisdiction'', ''perspective'', ''units'', ''version'']"

text \<open>Lower case stands for \<open>casefold\<close> and for \<open>lower\<close>, which agree on ASCII text.\<close>

definition canonical_item :: "calendar \<Rightarrow> string \<times> string \<Rightarrow> qualifier_map \<Rightarrow> qualifier_map result" where
  "canonical_item cal = (\<lambda>(raw_key, raw_value) acc.
     let key = casefold (strip raw_key); key = dict_get ALIASES key key in
     if key \<notin> set SUPPORTED_QUALIFIERS then Inr acc
     else let v = collapse_spaces (strip raw_value) in
       if v = [] then Inr acc
       else and_then (if key \<in> set TEMPORAL_KEYS then canonical_date cal v
                      else Inr (if key \<in> set LABEL_KEYS then casefold v else v))
              (\<lambda>v. Inr (AList.update key v acc)))"

definition canonicalize_qualifiers :: "calendar \<Rightarrow> qualifier_map \<Rightarrow> qualifier_map result" where
  "canonicalize_qualifiers cal qs =
     and_then (fold_result (canonical_item cal) qs []) (\<lambda>acc. Inr (sort_key fst acc))"

definition UNIT_ALIASES :: qualifier_map where
  "UNIT_ALIASES = [(''byte'', ''bytes''), (''b'', ''bytes''), (''kilobyte'', ''kb''), (''kibibyte'', ''kib''),
     (''second'', ''seconds''), (''sec'', ''seconds''), (''s'', ''seconds'')]"

definition canonical_unit :: "string \<Rightarrow> string" where
  "canonical_unit u = dict_get UNIT_ALIASES (casefold u) (casefold u)"

definition units_compatible :: "string \<Rightarrow> string \<Rightarrow> bool" where
  "units_compatible l r = (canonical_unit l = canonical_unit r)"

text \<open>\<open>a.get(k) or a.get(k')\<close> of texts\<close>

definition get_or_get :: "qualifier_map \<Rightarrow> string \<Rightarrow> string \<Rightarrow> string option" where
  "get_or_get qs k k' =
     (case map_of qs k of Some (c # cs) \<Rightarrow> Some (c # cs)
      | _ \<Rightarrow> (case map_of qs k' of Some (c # cs) \<Rightarrow> Some (c # cs) | _ \<Rightarrow> None))"

definition endpoint :: "calendar \<Rightarrow> int \<Rightarrow> string option \<Rightarrow> int option result" where
  "endpoint cal unbounded v = (case v of None \<Rightarrow> Inr (Some unbounded) | Some s \<Rightarrow> parse_temporal cal s)"

definition interval :: "calendar \<Rightarrow> qualifier_map \<Rightarrow> (int \<times> int) option result" where
  "interval cal qs =
     (let start = get_or_get qs ''valid_from'' ''as_of''; stop = get_or_get qs ''valid_to'' ''as_of'' in
      if start = None \<and> stop = None then Inr None
      else and_then (endpoint cal DATETIME_MIN start) (\<lambda>a.
           and_then (endpoint cal DATETIME_MAX stop) (\<lambda>b.
           Inr (case (a, b) of (Some a, Some b) \<Rightarrow> Some (a, b) | _ \<Rightarrow> None))))"

definition overlaps :: "int \<times> int \<Rightarrow> int \<times> int \<Rightarrow> bool" where
  "overlaps l r = (fst l \<le> snd r \<and> fst r \<le> snd l)"

definition apart :: "(int \<times> int) option \<Rightarrow> (int \<times> int) option \<Rightarrow> bool" where
  "apart i j = (case (i, j) of (Some i, Some j) \<Rightarrow> \<not> overlaps i j | _ \<Rightarrow> False)"

fun any_unreadable :: "calendar \<Rightarrow> qualifier_map \<Rightarrow> bool result" where
  "any_unreadable cal [] = Inr False"
| "any_unreadable cal ((k, v) # qs) =
     (if k \<in> set TEMPORAL_KEYS
      then and_then (parse_temporal cal v) (\<lambda>t. if t = None then Inr True else any_unreadable cal qs)
      else any_unreadable cal qs)"

definition has_invalid_temporal :: "calendar \<Rightarrow> qualifier_map \<Rightarrow> bool result" where
  "has_invalid_temporal cal qs =
     and_then (any_unreadable cal qs) (\<lambda>malformed.
     and_then (interval cal qs) (\<lambda>i.
     Inr (malformed \<or> (case i of None \<Rightarrow> False | Some (a, b) \<Rightarrow> a > b))))"

record reconciliation =
  rc_compatible :: bool
  rc_left :: qualifier_map
  rc_right :: qualifier_map
  rc_normalized :: qualifier_map
  rc_reason :: string

definition DISJOINT_KEYS :: "string list" where
  "DISJOINT_KEYS = [''scope'', ''jurisdiction'', ''perspective'', ''version'', ''assumptions'']"

definition differ_on :: "qualifier_map \<Rightarrow> qualifier_map \<Rightarrow> string \<Rightarrow> bool" where
  "differ_on l r k = (case (map_of l k, map_of r k) of (Some a, Some b) \<Rightarrow> a \<noteq> b | _ \<Rightarrow> False)"

definition units_clash :: "qualifier_map \<Rightarrow> qualifier_map \<Rightarrow> bool" where
  "units_clash l r =
     (case (map_of l ''units'', map_of r ''units'') of (Some a, Some b) \<Rightarrow> \<not> units_compatible a b | _ \<Rightarrow> False)"

definition different_as_of :: "calendar \<Rightarrow> qualifier_map \<Rightarrow> qualifier_map \<Rightarrow> bool result" where
  "different_as_of cal l r =
     (case (map_of l ''as_of'', map_of r ''as_of'') of
        (Some a, Some b) \<Rightarrow> and_then (parse_temporal cal a) (\<lambda>x. and_then (parse_temporal cal b) (\<lambda>y. Inr (x \<noteq> y)))
      | _ \<Rightarrow> Inr False)"

definition either :: "bool result \<Rightarrow> bool result \<Rightarrow> bool result" where
  "either p q = and_then p (\<lambda>b. if b then Inr True else q)"

definition reconcile_qualifiers :: "calendar \<Rightarrow> qualifier_map \<Rightarrow> qualifier_map \<Rightarrow> reconciliation result" where
  "reconcile_qualifiers cal left right =
     and_then (canonicalize_qualifiers cal left) (\<lambda>l.
     and_then (canonicalize_qualifiers cal right) (\<lambda>r.
     let answer = (\<lambda>ok shared reason. \<lparr>rc_compatible = ok, rc_left = l, rc_right = r, rc_normalized = shared, rc_reason = reason\<rparr>) in
     case find (differ_on l r) DISJOINT_KEYS of
       Some k \<Rightarrow> Inr (answer False [] (''disjoint '' @ k))
     | None \<Rightarrow>
         and_then (either (has_invalid_temporal cal l) (has_invalid_temporal cal r)) (\<lambda>invalid.
         if invalid then Inr (answer False [] ''invalid temporal qualifier'')
         else and_then (interval cal l) (\<lambda>i. and_then (interval cal r) (\<lambda>j.
           if apart i j
           then Inr (answer False [] ''disjoint validity intervals'')
           else and_then (different_as_of cal l r) (\<lambda>different.
             if different then Inr (answer False [] ''different as_of qualifiers'')
             else let shared = filter (\<lambda>(k, v). map_of r k = Some v) l in
               if units_clash l r
               then Inr (answer False shared ''incompatible units'')
               else Inr (answer True shared ''qualifiers overlap'')))))))"

section \<open>Contradictions\<close>

definition NEGATIONS :: "(string \<times> string) list" where
  "NEGATIONS = [('' is not '', '' is ''), ('' does not '', '' does ''), ('' cannot '', '' can ''),
     ('' no existe '', '' existe ''), ('' is absent'', '' exists''), ('' does not exist'', '' exists'')]"

definition not_newline :: re where
  "not_newline = Cls (\<lambda>c. c \<noteq> CHR 0x0A)"

definition NUMERIC :: re where
  "NUMERIC = cats
     [At_start, Grp ''1'' (Star False not_newline), alts [lit ''='', lit '' is '', lit '' equals ''], Star True (Cls is_space),
      Grp ''2'' (cats [maybe (Cls (\<lambda>c. c = CHR ''-'' \<or> c = CHR ''+'')), many1 (Cls is_digit),
                     Star True (Cat (lit ''.'') (many1 (Cls is_digit)))]),
      Star True (Cls is_space), Grp ''3'' (Star True (Cls (\<lambda>c. \<not> is_digit c))), At_end]"

text \<open>The three groups of a match.\<close>

definition numeric_parts :: "string \<Rightarrow> (string \<times> string \<times> string) option" where
  "numeric_parts s =
     (case match_at NUMERIC (start_of s) of
        None \<Rightarrow> None
      | Some q \<Rightarrow> Some (dict_get (groups q) ''1'' [], dict_get (groups q) ''2'' [], dict_get (groups q) ''3'' []))"

text \<open>\<open>Decimal(text)\<close> of what the second group matches; \<open>None\<close> is \<open>InvalidOperation\<close>, for a second dot.\<close>

definition decimal :: "string \<Rightarrow> rat option" where
  "decimal s = (let (neg, t) = split_sign s in map_option (\<lambda>v. if neg then - v else v) (read_mantissa t))"

definition numeric_equal :: "string \<Rightarrow> string \<Rightarrow> bool" where
  "numeric_equal l r = (case (decimal l, decimal r) of (Some a, Some b) \<Rightarrow> a = b | _ \<Rightarrow> l = r)"

definition negates :: "string \<times> string \<Rightarrow> string \<Rightarrow> string \<Rightarrow> bool" where
  "negates np l r = (contains (fst np) l \<and> replace_all (fst np) (snd np) l = r)"

definition unequal_numbers :: "string \<Rightarrow> string \<Rightarrow> bool" where
  "unequal_numbers l r =
     (case (numeric_parts l, numeric_parts r) of
        (Some (a, m, u), Some (b, n, v)) \<Rightarrow> strip a = strip b \<and> strip u = strip v \<and> \<not> numeric_equal m n
      | _ \<Rightarrow> False)"

record contradiction_decision =
  cd_outcome :: string
  cd_basis :: string
  cd_scope :: reconciliation

definition padded :: "string \<Rightarrow> string" where
  "padded s = '' '' @ normalize_content s @ '' ''"

definition classify_texts :: "string \<Rightarrow> string \<Rightarrow> string \<times> string" where
  "classify_texts l r =
     (if l = r then (''compatible'', ''normalized contents are equal'')
      else case find (\<lambda>np. negates np l r \<or> negates np r l) NEGATIONS of
        Some np \<Rightarrow> (''rebut'', ''deterministic negation: '' @ strip (fst np))
      | None \<Rightarrow>
          if unequal_numbers (strip l) (strip r) then (''rebut'', ''same predicate has unequal numeric values'')
          else (''uncertain'', ''deterministic rules are insufficient''))"

definition classify_deterministically :: "calendar \<Rightarrow> belief \<Rightarrow> belief \<Rightarrow> contradiction_decision result" where
  "classify_deterministically cal left right =
     and_then (reconcile_qualifiers cal (qualifiers left) (qualifiers right)) (\<lambda>scope.
     if \<not> rc_compatible scope
     then Inr \<lparr>cd_outcome = ''scope_mismatch'', cd_basis = rc_reason scope, cd_scope = scope\<rparr>
     else let (verdict, basis) = classify_texts (padded (content left)) (padded (content right)) in
       Inr \<lparr>cd_outcome = verdict, cd_basis = basis, cd_scope = scope\<rparr>)"

definition STOP_WORDS :: "string list" where
  "STOP_WORDS = [''the'', ''a'', ''an'', ''is'', ''are'', ''not'', ''of'', ''to'', ''in'', ''and'', ''or'']"

definition candidate_tokens :: "string \<Rightarrow> string list" where
  "candidate_tokens s = remdups (filter (\<lambda>w. w \<notin> set STOP_WORDS \<and> 1 < length w) (find_tokens (normalize_content s)))"

definition candidate_pair :: "belief \<Rightarrow> belief \<Rightarrow> string list option \<Rightarrow> string list option \<Rightarrow> bool" where
  "candidate_pair left right left_tokens right_tokens =
     (b_id left \<noteq> b_id right
      \<and> (let ls = (case left_tokens of Some ts \<Rightarrow> ts | None \<Rightarrow> candidate_tokens (content left));
             rs = (case right_tokens of Some ts \<Rightarrow> ts | None \<Rightarrow> candidate_tokens (content right)) in
         list_ex (\<lambda>w. w \<in> set rs) ls))"

end
