(* ===== verification/Scope_Props.thy ===== *)
theory Scope_Props
  imports Scope
begin

text \<open>
  When two beliefs contradict one another: the rules are exact against a declarative account of the
  scopes the beliefs share, and the order in which the two are given does not matter.
\<close>

section \<open>The scope of a belief\<close>

definition readable_times :: "calendar \<Rightarrow> qualifier_map \<Rightarrow> bool" where
  "readable_times cal qs \<longleftrightarrow> (\<forall>(k, v)\<in>set qs. k \<in> set TEMPORAL_KEYS \<longrightarrow> (\<exists>t. parse_temporal cal v = Inr (Some t)))"

text \<open>The points in time a belief speaks about: all of them when it has no temporal qualifier.\<close>

definition holds_at :: "calendar \<Rightarrow> qualifier_map \<Rightarrow> int \<Rightarrow> bool" where
  "holds_at cal qs t \<longleftrightarrow>
     (get_or_get qs ''valid_from'' ''as_of'' = None \<and> get_or_get qs ''valid_to'' ''as_of'' = None)
     \<or> (\<exists>a b. endpoint cal DATETIME_MIN (get_or_get qs ''valid_from'' ''as_of'') = Inr (Some a)
          \<and> endpoint cal DATETIME_MAX (get_or_get qs ''valid_to'' ''as_of'') = Inr (Some b) \<and> a \<le> t \<and> t \<le> b)"

definition agree_on :: "('a \<Rightarrow> 'a \<Rightarrow> bool) \<Rightarrow> (string \<times> 'a) list \<Rightarrow> (string \<times> 'a) list \<Rightarrow> string \<Rightarrow> bool" where
  "agree_on same l r k \<longleftrightarrow> (\<forall>a b. map_of l k = Some a \<longrightarrow> map_of r k = Some b \<longrightarrow> same a b)"

definition same_scope :: "calendar \<Rightarrow> qualifier_map \<Rightarrow> qualifier_map \<Rightarrow> bool" where
  "same_scope cal l r \<longleftrightarrow>
     (\<forall>k\<in>{''scope'', ''jurisdiction'', ''perspective'', ''version'', ''assumptions''}. agree_on (=) l r k)
     \<and> readable_times cal l \<and> readable_times cal r
     \<and> (\<exists>t. holds_at cal l t \<and> holds_at cal r t)
     \<and> agree_on (\<lambda>a b. parse_temporal cal a = parse_temporal cal b) l r ''as_of''
     \<and> agree_on (\<lambda>a b. canonical_unit a = canonical_unit b) l r ''units''"

lemma differ_on_agree: "differ_on l r k \<longleftrightarrow> \<not> agree_on (=) l r k"
  by (auto simp: differ_on_def agree_on_def split: option.splits)

lemma any_unreadable_iff:
  "any_unreadable cal qs = Inr b \<Longrightarrow> b \<longleftrightarrow> \<not> readable_times cal qs"
  by (induction cal qs rule: any_unreadable.induct)
    (auto simp: readable_times_def splits_result split: if_splits)

lemma get_or_get_mem:
  "get_or_get qs k k' = Some v \<Longrightarrow> (k, v) \<in> set qs \<or> (k', v) \<in> set qs"
  by (auto simp: get_or_get_def split: option.splits list.splits dest: map_of_SomeD)

lemma interval_readable:
  assumes "readable_times cal qs" and "interval cal qs = Inr i"
  shows "case i of
      None \<Rightarrow> get_or_get qs ''valid_from'' ''as_of'' = None \<and> get_or_get qs ''valid_to'' ''as_of'' = None
    | Some (a, b) \<Rightarrow> (\<forall>t. holds_at cal qs t \<longleftrightarrow> a \<le> t \<and> t \<le> b)"
proof -
  have r: "\<exists>t. parse_temporal cal v = Inr (Some t)"
    if "get_or_get qs k ''as_of'' = Some v" "k = ''valid_from'' \<or> k = ''valid_to''" for k v
    using get_or_get_mem [OF that(1)] that(2) assms(1) by (auto simp: readable_times_def TEMPORAL_KEYS_def)
  have e: "\<exists>a. endpoint cal u (get_or_get qs k ''as_of'') = Inr (Some a)" if "k = ''valid_from'' \<or> k = ''valid_to''" for k u
    using r [of k] that by (cases "get_or_get qs k ''as_of''") (auto simp: endpoint_def)
  obtain a b where "endpoint cal DATETIME_MIN (get_or_get qs ''valid_from'' ''as_of'') = Inr (Some a)"
    "endpoint cal DATETIME_MAX (get_or_get qs ''valid_to'' ''as_of'') = Inr (Some b)"
    using e by metis
  with assms(2) show ?thesis by (auto simp: interval_def holds_at_def Let_def split: if_splits)
qed

lemma has_invalid_iff:
  assumes "has_invalid_temporal cal qs = Inr b"
  shows "b \<longleftrightarrow> \<not> (readable_times cal qs \<and> (\<exists>t. holds_at cal qs t))"
proof -
  obtain m i where m: "any_unreadable cal qs = Inr m" and i: "interval cal qs = Inr i"
    and b: "b \<longleftrightarrow> m \<or> (case i of None \<Rightarrow> False | Some (a, b) \<Rightarrow> a > b)"
    using assms by (auto simp: has_invalid_temporal_def splits_result)
  show ?thesis
  proof (cases "readable_times cal qs")
    case True
    with any_unreadable_iff [OF m] have "\<not> m" by simp
    show ?thesis
    proof (cases i)
      case None
      with interval_readable [OF True i] have "holds_at cal qs t" for t by (simp add: holds_at_def)
      with b None True \<open>\<not> m\<close> show ?thesis by simp
    next
      case (Some p)
      obtain x y where p: "p = (x, y)" by force
      have "holds_at cal qs t \<longleftrightarrow> x \<le> t \<and> t \<le> y" for t using interval_readable [OF True i] by (simp add: Some p)
      then have "(\<exists>t. holds_at cal qs t) \<longleftrightarrow> x \<le> y" by simp presburger
      with b True \<open>\<not> m\<close> show ?thesis by (auto simp: Some p)
    qed
  next
    case False
    with any_unreadable_iff [OF m] b show ?thesis by simp
  qed
qed

lemma either_iff:
  assumes "either p q = Inr c" and "\<And>b. p = Inr b \<Longrightarrow> b \<longleftrightarrow> P" and "\<And>b. q = Inr b \<Longrightarrow> b \<longleftrightarrow> Q"
  shows "c \<longleftrightarrow> P \<or> Q"
  using assms by (auto simp: either_def splits_result split: if_splits)

lemma overlaps_iff:
  assumes "readable_times cal l" and "readable_times cal r" and "interval cal l = Inr i" and "interval cal r = Inr j"
    and "\<exists>t. holds_at cal l t" and "\<exists>t. holds_at cal r t"
  shows "apart i j \<longleftrightarrow> \<not> (\<exists>t. holds_at cal l t \<and> holds_at cal r t)"
proof (cases i)
  case None
  with interval_readable [OF assms(1,3)] have "holds_at cal l t" for t by (simp add: holds_at_def)
  with None assms(6) show ?thesis by (simp add: apart_def)
next
  case (Some p)
  obtain a b where p: "p = (a, b)" by force
  have l: "holds_at cal l t \<longleftrightarrow> a \<le> t \<and> t \<le> b" for t using interval_readable [OF assms(1,3)] by (simp add: Some p)
  show ?thesis
  proof (cases j)
    case None
    with interval_readable [OF assms(2,4)] have "holds_at cal r t" for t by (simp add: holds_at_def)
    with None assms(5) show ?thesis by (cases i) (simp_all add: apart_def)
  next
    case (Some q)
    obtain c d where q: "q = (c, d)" by force
    have r: "holds_at cal r t \<longleftrightarrow> c \<le> t \<and> t \<le> d" for t using interval_readable [OF assms(2,4)] by (simp add: Some q)
    have "a \<le> b" "c \<le> d" using assms(5,6) l r by auto
    then have "overlaps p q \<longleftrightarrow> (\<exists>t. holds_at cal l t \<and> holds_at cal r t)"
      unfolding l r p q overlaps_def by (auto intro!: exI [of _ "max a c"])
    with Some \<open>i = Some p\<close> show ?thesis by (simp add: apart_def)
  qed
qed

lemma different_as_of_iff:
  "different_as_of cal l r = Inr b \<Longrightarrow> b \<longleftrightarrow> \<not> agree_on (\<lambda>x y. parse_temporal cal x = parse_temporal cal y) l r ''as_of''"
  by (auto simp: different_as_of_def agree_on_def splits_result split: option.splits)

lemma units_iff:
  "units_clash l r \<longleftrightarrow> \<not> agree_on (\<lambda>a b. canonical_unit a = canonical_unit b) l r ''units''"
  by (auto simp: units_clash_def agree_on_def units_compatible_def split: option.splits)

lemma reconcile_exact:
  assumes "canonicalize_qualifiers cal left = Inr l" and "canonicalize_qualifiers cal right = Inr r"
    and "reconcile_qualifiers cal left right = Inr s"
  shows "rc_compatible s \<longleftrightarrow> same_scope cal l r"
proof (cases "find (differ_on l r) DISJOINT_KEYS")
  case (Some k)
  then have "\<not> same_scope cal l r"
    by (auto simp: same_scope_def DISJOINT_KEYS_def differ_on_agree dest!: find_Some_iff_mem)
  then show ?thesis using assms(3) by (simp add: reconcile_qualifiers_def assms(1,2) Some Let_def) auto
next
  case None
  then have "\<forall>k\<in>set DISJOINT_KEYS. agree_on (=) l r k" by (auto simp only: find_None_iff differ_on_agree)
  then have keys: "\<forall>k\<in>{''scope'', ''jurisdiction'', ''perspective'', ''version'', ''assumptions''}. agree_on (=) l r k"
    by (simp add: DISJOINT_KEYS_def)
  obtain invalid where invalid: "either (has_invalid_temporal cal l) (has_invalid_temporal cal r) = Inr invalid"
    using assms(3) by (auto simp: reconcile_qualifiers_def assms(1,2) None Let_def splits_result)
  have inv: "invalid \<longleftrightarrow> \<not> (readable_times cal l \<and> (\<exists>t. holds_at cal l t)) \<or> \<not> (readable_times cal r \<and> (\<exists>t. holds_at cal r t))"
    by (rule either_iff [OF invalid]) (erule has_invalid_iff)+
  show ?thesis
  proof (cases invalid)
    case True
    with inv have "\<not> same_scope cal l r" by (auto simp: same_scope_def)
    moreover have "\<not> rc_compatible s"
      using assms(3) by (auto simp: reconcile_qualifiers_def assms(1,2) None Let_def invalid True)
    ultimately show ?thesis by simp
  next
    case False
    then have ok: "readable_times cal l" "readable_times cal r" "\<exists>t. holds_at cal l t" "\<exists>t. holds_at cal r t" using inv by auto
    obtain i j where ij: "interval cal l = Inr i" "interval cal r = Inr j"
      using assms(3) by (auto simp: reconcile_qualifiers_def assms(1,2) None Let_def invalid False splits_result)
    note ov = overlaps_iff [OF ok(1,2) ij ok(3,4)]
    show ?thesis
    proof (cases "\<exists>t. holds_at cal l t \<and> holds_at cal r t")
      case apart: False
      with ov assms(3) have "\<not> rc_compatible s"
        by (auto simp: reconcile_qualifiers_def assms(1,2) None Let_def invalid False ij simp del: not_ex)
      with apart show ?thesis by (auto simp: same_scope_def)
    next
      case together: True
      with ov have no: "\<not> apart i j" by simp
      obtain d where d: "different_as_of cal l r = Inr d"
        using assms(3) by (auto simp: reconcile_qualifiers_def assms(1,2) None Let_def invalid False ij no splits_result)
      from assms(3) have "rc_compatible s \<longleftrightarrow> \<not> d \<and> agree_on (\<lambda>a b. canonical_unit a = canonical_unit b) l r ''units''"
        by (cases d) (auto simp: reconcile_qualifiers_def assms(1,2) None Let_def invalid False ij no d units_iff split: if_splits)
      with different_as_of_iff [OF d] keys ok together show ?thesis by (simp add: same_scope_def)
    qed
  qed
qed

section \<open>Contradictions\<close>

definition opposed :: "string \<Rightarrow> string \<Rightarrow> bool" where
  "opposed l r \<longleftrightarrow> l \<noteq> r
     \<and> ((\<exists>np\<in>set NEGATIONS. negates np l r \<or> negates np r l) \<or> unequal_numbers (strip l) (strip r))"

lemma classify_texts_rebut: "fst (classify_texts l r) = ''rebut'' \<longleftrightarrow> opposed l r"
  by (auto simp: classify_texts_def opposed_def find_None_iff split: option.splits dest!: find_Some_iff_mem)

text \<open>
  C34. Beliefs are found to contradict one another exactly when they speak about the same scope: no
  qualifier tells them apart, their times can be read and meet, and their contents are opposed, by a
  negation of one of the known forms or by unequal numbers of the same predicate.
\<close>
theorem rebuttal_exact:
  assumes "canonicalize_qualifiers cal (qualifiers left) = Inr l" and "canonicalize_qualifiers cal (qualifiers right) = Inr r"
    and "classify_deterministically cal left right = Inr d"
  shows "cd_outcome d = ''rebut'' \<longleftrightarrow> same_scope cal l r \<and> opposed (padded (content left)) (padded (content right))"
proof -
  obtain s where s: "reconcile_qualifiers cal (qualifiers left) (qualifiers right) = Inr s"
    using assms(3) by (auto simp: classify_deterministically_def splits_result)
  from reconcile_exact [OF assms(1,2) s] assms(3) show ?thesis
    by (auto simp: classify_deterministically_def s classify_texts_rebut [symmetric] split: if_splits prod.splits)
qed

section \<open>The order of the beliefs\<close>

lemma canonical_item_distinct:
  "canonical_item cal kv acc = Inr acc' \<Longrightarrow> distinct (map fst acc) \<Longrightarrow> distinct (map fst acc')"
  by (cases kv) (auto simp: canonical_item_def Let_def splits_result distinct_update split: if_splits)

lemma canonical_distinct:
  assumes "canonicalize_qualifiers cal qs = Inr l"
  shows "distinct (map fst l)" and "sorted (map fst l)"
proof -
  have "fold_result (canonical_item cal) qs acc = Inr acc' \<Longrightarrow> distinct (map fst acc) \<Longrightarrow> distinct (map fst acc')" for acc acc'
    by (induction qs arbitrary: acc) (auto simp: splits_result dest: canonical_item_distinct)
  then obtain acc where "l = sort_key fst acc" "distinct (map fst acc)"
    using assms by (force simp: canonicalize_qualifiers_def splits_result)
  then show "distinct (map fst l)" "sorted (map fst l)" by (simp_all add: distinct_map)
qed

lemma shared_comm:
  fixes l r :: "(string \<times> 'v) list"
  assumes "distinct (map fst l)" "sorted (map fst l)" "distinct (map fst r)" "sorted (map fst r)"
  shows "filter (\<lambda>(k, v). map_of r k = Some v) l = filter (\<lambda>(k, v). map_of l k = Some v) r"
proof -
  let ?f = "filter (\<lambda>(k, v). map_of r k = Some v) l" and ?g = "filter (\<lambda>(k, v). map_of l k = Some v) r"
  have "set ?f = set ?g" using assms(1,3) by auto
  moreover have "inj_on fst (set ?f)" "inj_on fst (set ?g)"
    using assms(1,3) by (auto simp: distinct_map intro: inj_on_subset)
  moreover have "sorted (map fst ?f)" "sorted (map fst ?g)" "distinct ?f" "distinct ?g"
    using assms by (auto simp: distinct_map intro: sorted_filter)
  ultimately show ?thesis
    by (intro map_sorted_distinct_set_unique [where f = fst]) (simp_all add: distinct_map)
qed

lemma differ_on_comm: "differ_on l r = differ_on r l"
  by (auto simp: differ_on_def fun_eq_iff split: option.splits)

lemma numeric_equal_comm: "numeric_equal m n = numeric_equal n m"
  by (cases "decimal m"; cases "decimal n") (auto simp: numeric_equal_def)

lemma unequal_numbers_comm: "unequal_numbers a b = unequal_numbers b a"
  by (cases "numeric_parts a"; cases "numeric_parts b") (auto simp: unequal_numbers_def numeric_equal_comm)

lemma classify_texts_comm: "classify_texts l r = classify_texts r l"
proof -
  have "(\<lambda>np. negates np l r \<or> negates np r l) = (\<lambda>np. negates np r l \<or> negates np l r)" by auto
  then show ?thesis
    unfolding classify_texts_def by (simp only: unequal_numbers_comm [of "strip l" "strip r"] eq_commute [of l r])
qed

lemma either_comm: "either p q = Inr b \<Longrightarrow> either q p = Inr c \<Longrightarrow> b = c"
  by (cases p; cases q) (auto simp: either_def split: if_splits)

lemma apart_comm: "apart i j = apart j i"
  by (cases i; cases j) (auto simp: apart_def overlaps_def)

lemma units_clash_comm: "units_clash l r = units_clash r l"
  by (cases "map_of l ''units''"; cases "map_of r ''units''") (auto simp: units_clash_def units_compatible_def)

lemma different_as_of_comm:
  "different_as_of cal l r = Inr b \<Longrightarrow> different_as_of cal r l = Inr c \<Longrightarrow> b = c"
  by (auto simp: different_as_of_def splits_result split: option.splits)

definition turned :: "reconciliation \<Rightarrow> reconciliation" where
  "turned s = s\<lparr>rc_left := rc_right s, rc_right := rc_left s\<rparr>"

lemma reconcile_symmetric:
  assumes "reconcile_qualifiers cal left right = Inr s" and "reconcile_qualifiers cal right left = Inr s'"
  shows "s' = turned s"
proof -
  obtain l r where l: "canonicalize_qualifiers cal left = Inr l" and r: "canonicalize_qualifiers cal right = Inr r"
    using assms(1) by (auto simp: reconcile_qualifiers_def splits_result)
  note run = reconcile_qualifiers_def l r and_then.simps Let_def differ_on_comm [of r l]
  show ?thesis
  proof (cases "find (differ_on l r) DISJOINT_KEYS")
    case (Some k)
    with assms show ?thesis by (auto simp: run turned_def)
  next
    case None
    obtain b c where b: "either (has_invalid_temporal cal l) (has_invalid_temporal cal r) = Inr b"
      and c: "either (has_invalid_temporal cal r) (has_invalid_temporal cal l) = Inr c"
      using assms by (auto simp: run None splits_result)
    have [simp]: "c = b" using either_comm [OF b c] by simp
    show ?thesis
    proof (cases b)
      case True
      with assms show ?thesis by (auto simp: run None b c turned_def)
    next
      case False
      obtain i j where ij: "interval cal l = Inr i" "interval cal r = Inr j"
        using assms(1) by (auto simp: run None b False splits_result)
      note run = run None b c False ij apart_comm [of j i] if_False
      show ?thesis
      proof (cases "apart i j")
        case True
        with assms show ?thesis by (auto simp: run turned_def)
      next
        case False
        obtain d e where d: "different_as_of cal l r = Inr d" and e: "different_as_of cal r l = Inr e"
          using assms by (auto simp: run False splits_result)
        have [simp]: "e = d" using different_as_of_comm [OF d e] by simp
        have sh: "filter (\<lambda>(k, v). map_of l k = Some v) r = filter (\<lambda>(k, v). map_of r k = Some v) l"
          using shared_comm canonical_distinct [OF l] canonical_distinct [OF r] by blast
        show ?thesis
        proof (cases d)
          case True
          with assms show ?thesis by (auto simp: run False d e turned_def)
        next
          case same: False
          with assms show ?thesis
            by (cases "units_clash l r") (auto simp: run False d e same units_clash_comm [of r l] sh turned_def)
        qed
      qed
    qed
  qed
qed

lemma classification_exchanged:
  assumes "classify_deterministically cal left right = Inr d" and "classify_deterministically cal right left = Inr d'"
  shows "d' = d\<lparr>cd_scope := turned (cd_scope d)\<rparr>"
proof -
  obtain s s' where s: "reconcile_qualifiers cal (qualifiers left) (qualifiers right) = Inr s"
    and s': "reconcile_qualifiers cal (qualifiers right) (qualifiers left) = Inr s'"
    using assms by (auto simp: classify_deterministically_def splits_result)
  have t: "s' = turned s" by (rule reconcile_symmetric [OF s s'])
  then have c: "rc_compatible s' = rc_compatible s" "rc_reason s' = rc_reason s" by (simp_all add: turned_def)
  from assms show ?thesis
    by (cases "rc_compatible s")
      (auto simp: classify_deterministically_def s s' c t classify_texts_comm [of "padded (content right)"] turned_def split: prod.splits)
qed

text \<open>
  It does not matter which of two beliefs is looked at first: a comparison that ends gives the same
  outcome for the same reason and the same shared scope, with the two sides exchanged.
\<close>
theorem classification_symmetric:
  assumes "classify_deterministically cal left right = Inr d" and "classify_deterministically cal right left = Inr d'"
  shows "d' = d\<lparr>cd_scope := turned (cd_scope d)\<rparr>"
  using assms by (rule classification_exchanged)

section \<open>Examples\<close>

definition sample_calendar :: calendar where
  "sample_calendar =
     \<lparr>cal_datetime = (\<lambda>s. if s = ''2026-01-01'' then Some (Naive 1767225600000000)
        else if s = ''0001-01-01T00:00:00+14:00'' then Some (Aware (DATETIME_MIN - 50400000000)) else None),
      cal_date = (\<lambda>s. None), cal_text = (\<lambda>d. ''2026-01-01''), cal_date_text = (\<lambda>d. [])\<rparr>"

definition sample_claim :: "string \<Rightarrow> string \<Rightarrow> qualifier_map \<Rightarrow> belief" where
  "sample_claim i s qs =
     \<lparr>b_id = i, b_episode_id = ''ep'', content = s, normalized_content = normalize_content s, b_pramana = SHABDA,
      b_source_id = ''src'', b_evidence = [], b_justifications = [], qualifiers = qs, b_perishability = SLOW,
      observed_at = Aware 0, b_stakes = LOW, b_status = IN, admission_status = IN, domain = ''general'',
      confidence = None, corroboration = 0, validity = []\<rparr>"

definition enabled :: belief where
  "enabled = sample_claim ''b1'' ''Alpha is enabled.'' [('' Scope '', ''Prod''), (''as_of'', ''2026-01-01'')]"

definition disabled :: belief where
  "disabled = sample_claim ''b2'' ''Alpha  is not enabled'' [(''scope'', ''prod''), (''unit'', ''s'')]"

lemma sample_rebuttal:
  "succeeds (classify_deterministically sample_calendar enabled disabled) (\<lambda>d. cd_outcome d = ''rebut'')"
  "succeeds (classify_deterministically sample_calendar disabled enabled) (\<lambda>d. cd_outcome d = ''rebut'')"
  "succeeds (canonicalize_qualifiers sample_calendar (qualifiers enabled)) (\<lambda>l. l = [(''as_of'', ''2026-01-01''), (''scope'', ''prod'')])"
  "succeeds (canonicalize_qualifiers sample_calendar (qualifiers disabled)) (\<lambda>l. l = [(''scope'', ''prod''), (''units'', ''s'')])"
  by code_simp+

theorem rebuttal_exact_witness:
  "same_scope sample_calendar [(''as_of'', ''2026-01-01''), (''scope'', ''prod'')] [(''scope'', ''prod''), (''units'', ''s'')]
     \<and> opposed (padded (content enabled)) (padded (content disabled))"
proof -
  obtain d where d: "classify_deterministically sample_calendar enabled disabled = Inr d" "cd_outcome d = ''rebut''"
    using sample_rebuttal(1) unfolding succeeds_iff by blast
  have "canonicalize_qualifiers sample_calendar (qualifiers enabled) = Inr [(''as_of'', ''2026-01-01''), (''scope'', ''prod'')]"
    "canonicalize_qualifiers sample_calendar (qualifiers disabled) = Inr [(''scope'', ''prod''), (''units'', ''s'')]"
    using sample_rebuttal(3,4) unfolding succeeds_iff by blast+
  from rebuttal_exact [OF this d(1)] d(2) show ?thesis by simp
qed

theorem classification_symmetric_witness:
  "\<exists>d d'. classify_deterministically sample_calendar enabled disabled = Inr d
     \<and> classify_deterministically sample_calendar disabled enabled = Inr d' \<and> d' = d\<lparr>cd_scope := turned (cd_scope d)\<rparr>
     \<and> cd_outcome d' = ''rebut''"
proof -
  obtain d d' where d: "classify_deterministically sample_calendar enabled disabled = Inr d"
    and d': "classify_deterministically sample_calendar disabled enabled = Inr d'" "cd_outcome d' = ''rebut''"
    using sample_rebuttal(1,2) unfolding succeeds_iff by blast
  from classification_symmetric [OF d d'(1)] d d' show ?thesis by blast
qed

text \<open>
  A time whose point in UTC lies outside the calendar: \<open>astimezone\<close> raises \<open>OverflowError\<close>, which is not a
  \<open>ValueError\<close>, so the qualifiers cannot be made canonical at all.
\<close>
theorem early_qualifier_raises:
  "canonicalize_qualifiers sample_calendar [(''as_of'', ''0001-01-01T00:00:00+14:00'')]
     = Inl (OverflowError ''date value out of range'')"
  by code_simp

text \<open>
  The blocking of candidates keeps a rebuttal from being seen: words of one letter do not count, so two
  beliefs about \<open>x\<close> with unequal numbers are no candidates although the rules find them contradictory.
\<close>
theorem short_names_never_compared:
  "\<not> candidate_pair (sample_claim ''b1'' ''x = 1'' []) (sample_claim ''b2'' ''x = 2'' []) None None
     \<and> succeeds (classify_deterministically sample_calendar (sample_claim ''b1'' ''x = 1'' []) (sample_claim ''b2'' ''x = 2'' []))
         (\<lambda>d. cd_outcome d = ''rebut'')"
proof -
  have "candidate_tokens ''x = 1'' = []" by code_simp
  moreover have "succeeds (classify_deterministically sample_calendar (sample_claim ''b1'' ''x = 1'' []) (sample_claim ''b2'' ''x = 2'' []))
         (\<lambda>d. cd_outcome d = ''rebut'')" by code_simp
  ultimately show ?thesis by (simp add: candidate_pair_def sample_claim_def)
qed

end
