(* ===== verification/Rebuttals.thy ===== *)
theory Rebuttals
  imports Scope_Props
begin

text \<open>
  \<open>EpisodeService._detect_deterministic_rebuts\<close> (\<open>src/belief_ledger_pramana/runtime/episode_service.py\<close>):
  the beliefs of an episode are compared pair by pair, where an inverted index of their words finds the
  pairs worth comparing. Whether a pair was already shown to the classifier component is a parameter.
  The main fact: the index misses no pair that shares a word and nothing is added twice.
\<close>

section \<open>The scan\<close>

type_synonym word_index = "(string \<times> belief list) list"

record rebut_env =
  re_calendar :: calendar
  re_episode :: string
  re_new_id :: "nat \<Rightarrow> string"
  re_resolved :: "belief \<Rightarrow> belief \<Rightarrow> bool"

record rebut_scan =
  rs_index :: word_index
  rs_considered :: "(string \<times> string) list"
  rs_existing :: "(string \<times> string) list"
  rs_drafts :: "defeat_edge list"
  rs_semantic :: "(belief \<times> belief) option"

definition indexed_candidates :: "string list \<Rightarrow> word_index \<Rightarrow> belief list" where
  "indexed_candidates words ix =
     sort_key b_id (map snd (fold (\<lambda>c d. AList.update (b_id c) c d) (concat (map (\<lambda>w. dict_get ix w []) words)) []))"

definition index_belief :: "belief \<Rightarrow> string list \<Rightarrow> word_index \<Rightarrow> word_index" where
  "index_belief b words ix = fold (\<lambda>w ix. AList.update w (dict_get ix w [] @ [b]) ix) words ix"

definition draft_edge :: "rebut_env \<Rightarrow> string \<Rightarrow> belief \<times> belief \<Rightarrow> rebut_scan \<Rightarrow> rebut_scan" where
  "draft_edge E reason = (\<lambda>(a, t) s.
     if (b_id a, b_id t) \<in> set (rs_existing s) then s
     else s\<lparr>rs_drafts := rs_drafts s @
              [\<lparr>d_id = re_new_id E (length (rs_drafts s)), d_episode_id = re_episode E, attacker = b_id a, target = b_id t,
                d_kind = REBUT, basis = reason, d_active = True\<rparr>],
            rs_existing := rs_existing s @ [(b_id a, b_id t)]\<rparr>)"

definition MONITORED :: "string list" where
  "MONITORED = [''runtime_state'', ''monitoring'']"

definition semantic_choice :: "rebut_env \<Rightarrow> belief \<Rightarrow> belief \<Rightarrow> contradiction_decision \<Rightarrow> rebut_scan \<Rightarrow> rebut_scan" where
  "semantic_choice E b c d s =
     (if cd_outcome d = ''uncertain'' \<and> rs_semantic s = None
         \<and> 2 \<le> length (filter (\<lambda>w. w \<in> set (candidate_tokens (content c))) (candidate_tokens (content b)))
         \<and> domain b \<notin> set MONITORED \<and> domain c \<notin> set MONITORED \<and> \<not> re_resolved E b c
      then s\<lparr>rs_semantic := Some (b, c)\<rparr> else s)"

definition ordered_pair :: "belief \<Rightarrow> belief \<Rightarrow> string \<times> string" where
  "ordered_pair b c = (if b_id b \<le> b_id c then (b_id b, b_id c) else (b_id c, b_id b))"

definition compare_with :: "rebut_env \<Rightarrow> belief \<Rightarrow> belief \<Rightarrow> rebut_scan \<Rightarrow> rebut_scan result" where
  "compare_with E b c s =
     (if ordered_pair b c \<in> set (rs_considered s) then Inr s
      else let s = s\<lparr>rs_considered := ordered_pair b c # rs_considered s\<rparr> in
        if \<not> candidate_pair b c (Some (candidate_tokens (content b))) (Some (candidate_tokens (content c))) then Inr s
        else and_then (classify_deterministically (re_calendar E) b c) (\<lambda>d.
          let s = semantic_choice E b c d s in
          Inr (if cd_outcome d \<noteq> ''rebut'' then s
               else fold (draft_edge E (cd_basis d)) [(b, c), (c, b)] s)))"

definition scan_belief :: "rebut_env \<Rightarrow> belief \<Rightarrow> rebut_scan \<Rightarrow> rebut_scan result" where
  "scan_belief E b s =
     (let words = candidate_tokens (content b) in
      and_then (fold_result (compare_with E b) (indexed_candidates words (rs_index s)) s)
        (\<lambda>s. Inr (s\<lparr>rs_index := index_belief b words (rs_index s)\<rparr>)))"

definition detect_rebuts :: "rebut_env \<Rightarrow> belief list \<Rightarrow> defeat_edge list \<Rightarrow> rebut_scan result" where
  "detect_rebuts E beliefs defeats =
     fold_result (scan_belief E) (sort_key b_id beliefs)
       \<lparr>rs_index = [], rs_considered = [],
        rs_existing = map (\<lambda>e. (attacker e, target e)) (filter (\<lambda>e. d_kind e = REBUT) defeats),
        rs_drafts = [], rs_semantic = None\<rparr>"

section \<open>What the index finds\<close>

definition share_word :: "belief \<Rightarrow> belief \<Rightarrow> bool" where
  "share_word b c \<longleftrightarrow> (\<exists>w. w \<in> set (candidate_tokens (content b)) \<and> w \<in> set (candidate_tokens (content c)))"

definition indexes :: "belief list \<Rightarrow> word_index \<Rightarrow> bool" where
  "indexes bs ix \<longleftrightarrow> (\<forall>w. dict_get ix w [] = filter (\<lambda>b. w \<in> set (candidate_tokens (content b))) bs)"

lemma index_belief_get:
  "distinct words \<Longrightarrow> dict_get (index_belief b words ix) w [] = dict_get ix w [] @ (if w \<in> set words then [b] else [])"
  by (induction words arbitrary: ix) (auto simp: index_belief_def dict_get_def)

lemma indexes_snoc:
  "indexes bs ix \<Longrightarrow> indexes (bs @ [b]) (index_belief b (candidate_tokens (content b)) ix)"
  by (simp add: indexes_def index_belief_get candidate_tokens_def)

lemma update_all:
  assumes "inj_on k (set cs)"
  shows "distinct (map fst (fold (\<lambda>c d. AList.update (k c) c d) cs []))"
    and "set (map snd (fold (\<lambda>c d. AList.update (k c) c d) cs [])) = set cs"
    and "\<forall>p\<in>set (fold (\<lambda>c d. AList.update (k c) c d) cs []). fst p = k (snd p)"
proof -
  let ?f = "fold (\<lambda>c d. AList.update (k c) c d)"
  have "distinct (map fst (?f cs d)) \<and> set (?f cs d) = (\<lambda>c. (k c, c)) ` (set cs \<union> set bs)"
    if "distinct (map fst d)" "set d = (\<lambda>c. (k c, c)) ` set bs" "inj_on k (set cs \<union> set bs)" for d bs
    using that
  proof (induction cs arbitrary: d bs)
    case (Cons c cs)
    have "distinct (map fst (AList.update (k c) c d))" using Cons.prems(1) by (simp add: distinct_update)
    moreover have "set (AList.update (k c) c d) = (\<lambda>c. (k c, c)) ` set (c # bs)"
    proof -
      have "map_of (AList.update (k c) c d) i = Some v \<longleftrightarrow> (i, v) \<in> (\<lambda>c. (k c, c)) ` set (c # bs)" for i v
        using Cons.prems map_of_eq_Some_iff [OF Cons.prems(1)] by (auto simp: inj_on_def)
      then have "(i, v) \<in> set (AList.update (k c) c d) \<longleftrightarrow> (i, v) \<in> (\<lambda>c. (k c, c)) ` set (c # bs)" for i v
        by (simp only: map_of_eq_Some_iff [OF \<open>distinct (map fst (AList.update (k c) c d))\<close>])
      then show ?thesis by (simp only: set_eq_iff split_paired_All) simp
    qed
    ultimately show ?case using Cons.IH [of "AList.update (k c) c d" "c # bs"] Cons.prems(3) by (simp add: Un_commute insert_commute)
  qed simp
  from this [of "[]" "[]"] assms
  show "distinct (map fst (?f cs []))" "set (map snd (?f cs [])) = set cs" "\<forall>p\<in>set (?f cs []). fst p = k (snd p)"
    by (auto simp: image_image)
qed

lemma indexed_candidates_exact:
  assumes "indexes bs ix" and "inj_on b_id (set bs)"
  shows "set (indexed_candidates (candidate_tokens (content b)) ix) = {c \<in> set bs. share_word b c}"
    and "distinct (indexed_candidates (candidate_tokens (content b)) ix)"
proof -
  let ?cs = "concat (map (\<lambda>w. dict_get ix w []) (candidate_tokens (content b)))"
  have cs: "set ?cs = {c \<in> set bs. share_word b c}"
    using assms(1) by (auto simp: indexes_def share_word_def)
  then have "inj_on b_id (set ?cs)" using assms(2) by (auto intro: inj_on_subset)
  note u = update_all [OF this]
  show "set (indexed_candidates (candidate_tokens (content b)) ix) = {c \<in> set bs. share_word b c}"
    using u(2) cs by (simp add: indexed_candidates_def)
  have "distinct (map snd (fold (\<lambda>c d. AList.update (b_id c) c d) ?cs []))"
    using u(1,3) by (auto simp: distinct_map inj_on_def)
  then show "distinct (indexed_candidates (candidate_tokens (content b)) ix)"
    by (simp add: indexed_candidates_def)
qed

section \<open>What is drafted\<close>

definition ends :: "defeat_edge list \<Rightarrow> (string \<times> string) list" where
  "ends es = map (\<lambda>e. (attacker e, target e)) es"

definition rebuts :: "calendar \<Rightarrow> belief \<Rightarrow> belief \<Rightarrow> bool" where
  "rebuts cal b c \<longleftrightarrow> (\<exists>d. classify_deterministically cal b c = Inr d \<and> cd_outcome d = ''rebut'')"

text \<open>The pairs, in both directions, of beliefs that are compared and contradict one another.\<close>

definition both_ways :: "(belief \<times> belief) set \<Rightarrow> (string \<times> string) set" where
  "both_ways R = (\<Union>(b, c)\<in>R. {(b_id b, b_id c), (b_id c, b_id b)})"

text \<open>Everything drafted is new, and what is known is what there was and what was drafted.\<close>

definition drafts_new :: "(string \<times> string) set \<Rightarrow> rebut_scan \<Rightarrow> bool" where
  "drafts_new old s \<longleftrightarrow> distinct (ends (rs_drafts s)) \<and> set (ends (rs_drafts s)) \<inter> old = {}
     \<and> set (rs_existing s) = old \<union> set (ends (rs_drafts s))"

lemma draft_edge_new:
  assumes "drafts_new old s" and "s' = draft_edge E reason (a, t) s"
  shows "drafts_new old s'" and "set (rs_existing s') = insert (b_id a, b_id t) (set (rs_existing s))"
    and "rs_index s' = rs_index s" and "rs_considered s' = rs_considered s"
  using assms by (auto simp: draft_edge_def drafts_new_def ends_def)

lemma compare_with_new:
  assumes "compare_with E b c s = Inr s'" and "drafts_new old s" and "ordered_pair b c \<notin> set (rs_considered s)"
    and "b_id b \<noteq> b_id c" and "share_word b c"
  shows "drafts_new old s'"
    and "set (rs_existing s') = set (rs_existing s) \<union> (if rebuts (re_calendar E) b c then both_ways {(b, c)} else {})"
    and "rs_index s' = rs_index s" and "set (rs_considered s') = insert (ordered_pair b c) (set (rs_considered s))"
    and "\<exists>d. classify_deterministically (re_calendar E) b c = Inr d"
proof -
  let ?s = "s\<lparr>rs_considered := ordered_pair b c # rs_considered s\<rparr>"
  have "candidate_pair b c (Some (candidate_tokens (content b))) (Some (candidate_tokens (content c)))"
    using assms(4,5) by (auto simp: candidate_pair_def share_word_def list_ex_iff)
  then obtain d where d: "classify_deterministically (re_calendar E) b c = Inr d"
    and s': "s' = (if cd_outcome d \<noteq> ''rebut'' then semantic_choice E b c d ?s
        else fold (draft_edge E (cd_basis d)) [(b, c), (c, b)] (semantic_choice E b c d ?s))"
    using assms(1,3) by (auto simp: compare_with_def splits_result Let_def)
  let ?t = "semantic_choice E b c d ?s"
  have t: "drafts_new old ?t" "rs_existing ?t = rs_existing s" "rs_index ?t = rs_index s"
    "rs_considered ?t = ordered_pair b c # rs_considered s"
    using assms(2) by (auto simp: semantic_choice_def drafts_new_def)
  note one = draft_edge_new [OF t(1) refl, of E "cd_basis d" b c]
  note two = draft_edge_new [OF one(1) refl, of E "cd_basis d" c b]
  have "drafts_new old s' \<and> set (rs_existing s') = set (rs_existing s) \<union> (if rebuts (re_calendar E) b c then both_ways {(b, c)} else {})
    \<and> rs_index s' = rs_index s \<and> set (rs_considered s') = insert (ordered_pair b c) (set (rs_considered s))"
    using t one two by (auto simp: s' rebuts_def d both_ways_def)
  then show "drafts_new old s'"
    and "set (rs_existing s') = set (rs_existing s) \<union> (if rebuts (re_calendar E) b c then both_ways {(b, c)} else {})"
    and "rs_index s' = rs_index s" and "set (rs_considered s') = insert (ordered_pair b c) (set (rs_considered s))"
    by auto
  show "\<exists>d. classify_deterministically (re_calendar E) b c = Inr d" using d by blast
qed

lemma compare_all:
  assumes "fold_result (compare_with E b) cs s = Inr s'" and "drafts_new old s" and "distinct cs"
    and "inj_on b_id (insert b (set cs))" and "b \<notin> set cs" and "\<forall>c\<in>set cs. share_word b c"
    and "\<forall>c\<in>set cs. ordered_pair b c \<notin> set (rs_considered s)"
  shows "drafts_new old s' \<and> rs_index s' = rs_index s
    \<and> set (rs_existing s') = set (rs_existing s) \<union> both_ways {(b, c) | c. c \<in> set cs \<and> rebuts (re_calendar E) b c}
    \<and> set (rs_considered s') = set (rs_considered s) \<union> ordered_pair b ` set cs
    \<and> (\<forall>c\<in>set cs. \<exists>d. classify_deterministically (re_calendar E) b c = Inr d)"
  using assms
proof (induction cs arbitrary: s)
  case Nil
  then show ?case by (simp add: both_ways_def)
next
  case (Cons c cs)
  obtain t where t: "compare_with E b c s = Inr t" and rest: "fold_result (compare_with E b) cs t = Inr s'"
    using Cons.prems(1) by (auto simp: splits_result)
  have ne: "b_id b \<noteq> b_id c" using Cons.prems(4,5) by (auto simp: inj_on_def)
  note one = compare_with_new [OF t Cons.prems(2) _ ne]
  have o: "drafts_new old t" "rs_index t = rs_index s" "set (rs_considered t) = insert (ordered_pair b c) (set (rs_considered s))"
    "set (rs_existing t) = set (rs_existing s) \<union> (if rebuts (re_calendar E) b c then both_ways {(b, c)} else {})"
    "\<exists>d. classify_deterministically (re_calendar E) b c = Inr d"
    using one Cons.prems(6,7) by simp_all
  have "ordered_pair b x \<noteq> ordered_pair b c" if "x \<in> set cs" for x
  proof
    assume "ordered_pair b x = ordered_pair b c"
    then have "b_id x = b_id c" by (auto simp: ordered_pair_def split: if_splits)
    then have "x = c" using Cons.prems(4) that by (auto simp: inj_on_def)
    with Cons.prems(3) that show False by simp
  qed
  then have "\<forall>x\<in>set cs. ordered_pair b x \<notin> set (rs_considered t)" using Cons.prems(7) o(3) by auto
  moreover have "inj_on b_id (insert b (set cs))" using Cons.prems(4) by (rule inj_on_subset) auto
  ultimately have IH: "drafts_new old s' \<and> rs_index s' = rs_index t
    \<and> set (rs_existing s') = set (rs_existing t) \<union> both_ways {(b, c) | c. c \<in> set cs \<and> rebuts (re_calendar E) b c}
    \<and> set (rs_considered s') = set (rs_considered t) \<union> ordered_pair b ` set cs
    \<and> (\<forall>c\<in>set cs. \<exists>d. classify_deterministically (re_calendar E) b c = Inr d)"
    using Cons.IH [OF rest o(1)] Cons.prems(3,5,6) by simp
  have "both_ways {(b, x) | x. x \<in> set (c # cs) \<and> rebuts (re_calendar E) b x}
      = (if rebuts (re_calendar E) b c then both_ways {(b, c)} else {})
        \<union> both_ways {(b, x) | x. x \<in> set cs \<and> rebuts (re_calendar E) b x}"
    by (auto simp: both_ways_def)
  with IH o show ?case by (simp add: Un_assoc)
qed

text \<open>The invariant of the scan, with the beliefs scanned so far.\<close>

definition compared :: "calendar \<Rightarrow> belief set \<Rightarrow> (belief \<times> belief) set" where
  "compared cal B = {(b, c) | b c. b \<in> B \<and> c \<in> B \<and> b \<noteq> c \<and> share_word b c \<and> (rebuts cal b c \<or> rebuts cal c b)}"

definition scanned :: "rebut_env \<Rightarrow> (string \<times> string) set \<Rightarrow> belief list \<Rightarrow> rebut_scan \<Rightarrow> bool" where
  "scanned E old bs s \<longleftrightarrow> indexes bs (rs_index s) \<and> drafts_new old s
     \<and> set (rs_existing s) = old \<union> both_ways (compared (re_calendar E) (set bs))
     \<and> set (rs_considered s) \<subseteq> b_id ` set bs \<times> b_id ` set bs"

lemma both_ways_Un: "both_ways (R \<union> S) = both_ways R \<union> both_ways S"
  by (auto simp: both_ways_def)

lemma both_ways_converse: "both_ways (R\<inverse>) = both_ways R"
  by (fastforce simp: both_ways_def)

lemma share_word_comm: "share_word b c \<longleftrightarrow> share_word c b"
  by (auto simp: share_word_def)

lemma rebuts_comm:
  "classify_deterministically cal b c = Inr d \<Longrightarrow> rebuts cal c b \<Longrightarrow> rebuts cal b c"
  using classification_exchanged [of cal b c d] by (auto simp: rebuts_def)

lemma scan_belief_scanned:
  assumes "scan_belief E b s = Inr s'" and "scanned E old bs s" and "inj_on b_id (insert b (set bs))" and "b \<notin> set bs"
  shows "scanned E old (bs @ [b]) s'"
proof -
  let ?cs = "indexed_candidates (candidate_tokens (content b)) (rs_index s)" and ?cal = "re_calendar E"
  obtain t where t: "fold_result (compare_with E b) ?cs s = Inr t"
    and s': "s' = t\<lparr>rs_index := index_belief b (candidate_tokens (content b)) (rs_index t)\<rparr>"
    using assms(1) by (auto simp: scan_belief_def splits_result Let_def)
  have ix: "indexes bs (rs_index s)" and new: "drafts_new old s" using assms(2) by (simp_all add: scanned_def)
  have "inj_on b_id (set bs)" using assms(3) by (rule inj_on_subset) auto
  note cs = indexed_candidates_exact [OF ix this, of b]
  have "ordered_pair b c \<notin> set (rs_considered s)" for c
  proof
    assume "ordered_pair b c \<in> set (rs_considered s)"
    then have "b_id b \<in> b_id ` set bs" using assms(2) by (auto simp: scanned_def ordered_pair_def split: if_splits)
    with assms(3,4) show False by (auto simp: inj_on_def)
  qed
  moreover have "inj_on b_id (insert b (set ?cs))" using assms(3) cs(1) by (auto intro: inj_on_subset)
  ultimately have "drafts_new old t \<and> rs_index t = rs_index s
    \<and> set (rs_existing t) = set (rs_existing s) \<union> both_ways {(b, c) | c. c \<in> set ?cs \<and> rebuts ?cal b c}
    \<and> set (rs_considered t) = set (rs_considered s) \<union> ordered_pair b ` set ?cs
    \<and> (\<forall>c\<in>set ?cs. \<exists>d. classify_deterministically ?cal b c = Inr d)"
    by (intro compare_all [OF t new cs(2)]) (use assms(4) in \<open>simp_all add: cs(1)\<close>)
  then have r: "drafts_new old t" "rs_index t = rs_index s"
    "set (rs_existing t) = set (rs_existing s) \<union> both_ways {(b, c) | c. c \<in> set ?cs \<and> rebuts ?cal b c}"
    "set (rs_considered t) = set (rs_considered s) \<union> ordered_pair b ` set ?cs"
    "\<forall>c\<in>set ?cs. \<exists>d. classify_deterministically ?cal b c = Inr d"
    by blast+
  have "both_ways (compared ?cal (set (bs @ [b])))
      = both_ways (compared ?cal (set bs)) \<union> both_ways {(b, c) | c. c \<in> set ?cs \<and> rebuts ?cal b c}"
  proof -
    have "rebuts ?cal b c \<or> rebuts ?cal c b \<longleftrightarrow> rebuts ?cal b c" if "c \<in> set ?cs" for c
      using r(5) that rebuts_comm by blast
    moreover have "share_word c b \<longleftrightarrow> share_word b c" for c by (rule share_word_comm)
    ultimately have "compared ?cal (set (bs @ [b])) = compared ?cal (set bs)
        \<union> ({(b, c) | c. c \<in> set ?cs \<and> rebuts ?cal b c} \<union> {(b, c) | c. c \<in> set ?cs \<and> rebuts ?cal b c}\<inverse>)"
      using assms(4) by (auto simp: compared_def cs(1))
    then show ?thesis by (simp only: both_ways_Un both_ways_converse Un_absorb)
  qed
  moreover have "set (rs_considered t) \<subseteq> b_id ` set (bs @ [b]) \<times> b_id ` set (bs @ [b])"
    using assms(2) cs(1) r(4) by (auto simp: scanned_def ordered_pair_def)
  ultimately show ?thesis
    using assms(2) r by (auto simp: scanned_def s' indexes_snoc drafts_new_def)
qed

lemma scan_all:
  assumes "fold_result (scan_belief E) bs s = Inr s'" and "scanned E old done s" and "distinct (map b_id (done @ bs))"
  shows "scanned E old (done @ bs) s'"
  using assms
proof (induction bs arbitrary: s "done")
  case (Cons b bs)
  obtain t where t: "scan_belief E b s = Inr t" and rest: "fold_result (scan_belief E) bs t = Inr s'"
    using Cons.prems(1) by (auto simp: splits_result)
  have ids: "inj_on b_id (set (done @ b # bs))" "distinct (done @ b # bs)"
    using Cons.prems(3) unfolding distinct_map by blast+
  have "inj_on b_id (insert b (set done))" by (rule inj_on_subset [OF ids(1)]) auto
  moreover have "b \<notin> set done" using ids(2) by auto
  ultimately have "scanned E old (done @ [b]) t" by (rule scan_belief_scanned [OF t Cons.prems(2)])
  from Cons.IH [OF rest this] Cons.prems(3) show ?case by simp
qed simp

text \<open>
  C39. The scan for contradictions is exact: it adds a rebuttal, once, from one belief of the episode to
  another exactly when the two share a word, the rules find them to contradict one another, and no
  rebuttal between them in that direction was known; both directions are added together.
\<close>
theorem rebuttals_exact:
  assumes "detect_rebuts E beliefs defeats = Inr s" and "distinct (map b_id beliefs)"
  shows "distinct (ends (rs_drafts s)) \<and> set (ends (rs_drafts s)) =
      {(b_id b, b_id c) | b c. b \<in> set beliefs \<and> c \<in> set beliefs \<and> b \<noteq> c \<and> share_word b c
         \<and> (rebuts (re_calendar E) b c \<or> rebuts (re_calendar E) c b)}
      - set (ends (filter (\<lambda>e. d_kind e = REBUT) defeats))"
proof -
  let ?old = "set (ends (filter (\<lambda>e. d_kind e = REBUT) defeats))"
  let ?s0 = "\<lparr>rs_index = [], rs_considered = [], rs_existing = ends (filter (\<lambda>e. d_kind e = REBUT) defeats),
    rs_drafts = [], rs_semantic = None\<rparr>"
  have "scanned E ?old [] ?s0"
    by (simp add: scanned_def indexes_def dict_get_def drafts_new_def ends_def both_ways_def compared_def)
  moreover have "fold_result (scan_belief E) (sort_key b_id beliefs) ?s0 = Inr s"
    using assms(1) by (simp add: detect_rebuts_def ends_def)
  moreover have "distinct (map b_id ([] @ sort_key b_id beliefs))"
    using assms(2) by (simp add: distinct_map)
  ultimately have "scanned E ?old (sort_key b_id beliefs) s" using scan_all by fastforce
  then have "distinct (ends (rs_drafts s))"
    "set (ends (rs_drafts s)) = both_ways (compared (re_calendar E) (set beliefs)) - ?old"
    by (auto simp: scanned_def drafts_new_def)
  moreover have "both_ways (compared (re_calendar E) (set beliefs)) =
      {(b_id b, b_id c) | b c. b \<in> set beliefs \<and> c \<in> set beliefs \<and> b \<noteq> c \<and> share_word b c
         \<and> (rebuts (re_calendar E) b c \<or> rebuts (re_calendar E) c b)}"
    unfolding both_ways_def compared_def using share_word_comm by fast
  ultimately show ?thesis by simp
qed

definition sample_scan :: rebut_env where
  "sample_scan = \<lparr>re_calendar = sample_calendar, re_episode = ''ep'', re_new_id = (\<lambda>n. ''d'' @ show_nat n), re_resolved = (\<lambda>b c. False)\<rparr>"

lemma sample_scan_runs:
  "succeeds (detect_rebuts sample_scan [disabled, enabled] []) (\<lambda>s. ends (rs_drafts s) = [(''b2'', ''b1''), (''b1'', ''b2'')])"
  by code_simp

theorem rebuttals_exact_witness:
  "\<exists>s. detect_rebuts sample_scan [disabled, enabled] [] = Inr s \<and> (b_id disabled, b_id enabled) \<in> set (ends (rs_drafts s))
     \<and> share_word disabled enabled \<and> (rebuts sample_calendar disabled enabled \<or> rebuts sample_calendar enabled disabled)"
proof -
  obtain s where s: "detect_rebuts sample_scan [disabled, enabled] [] = Inr s"
    "ends (rs_drafts s) = [(''b2'', ''b1''), (''b1'', ''b2'')]"
    using sample_scan_runs unfolding succeeds_iff by blast
  have ids: "b_id disabled = ''b2''" "b_id enabled = ''b1''" by (simp_all add: enabled_def disabled_def sample_claim_def)
  have "distinct (map b_id [disabled, enabled])" by (simp add: ids)
  from rebuttals_exact [OF s(1) this] have "set (ends (rs_drafts s)) \<subseteq> {(b_id b, b_id c) | b c. b \<in> {disabled, enabled} \<and> c \<in> {disabled, enabled}
      \<and> b \<noteq> c \<and> share_word b c \<and> (rebuts sample_calendar b c \<or> rebuts sample_calendar c b)}"
    by (simp add: sample_scan_def)
  moreover have "(''b2'', ''b1'') \<in> set (ends (rs_drafts s))" by (simp add: s(2))
  ultimately have "(''b2'', ''b1'') \<in> {(b_id b, b_id c) | b c. b \<in> {disabled, enabled} \<and> c \<in> {disabled, enabled}
      \<and> b \<noteq> c \<and> share_word b c \<and> (rebuts sample_calendar b c \<or> rebuts sample_calendar c b)}"
    by (rule subsetD)
  then obtain b c where bc: "(''b2'', ''b1'') = (b_id b, b_id c)" "b \<in> {disabled, enabled}" "c \<in> {disabled, enabled}"
      "share_word b c" "rebuts sample_calendar b c \<or> rebuts sample_calendar c b"
    by (elim CollectE exE conjE) (rule that)
  from bc(1) have "b_id b = ''b2''" "b_id c = ''b1''" by simp_all
  then have "b \<noteq> enabled" "c \<noteq> disabled" by (auto simp: ids)
  with bc have "share_word disabled enabled \<and> (rebuts sample_calendar disabled enabled \<or> rebuts sample_calendar enabled disabled)"
    by simp
  with s ids show ?thesis by simp
qed

end
