(* ===== verification/Redaction.thy ===== *)
theory Redaction
  imports Regex Json_Parse
begin

text \<open>
  \<open>ingestion/tool.py\<close>: credentials are removed from an observation before anything of it is stored. A
  JSON document loses the values of its sensitive members; what is left of the text passes a sequence
  of substitutions. SHA-256 is a parameter; the text of a float is kept when a document is written
  again. The main facts: a redacted document is the document without the values under sensitive keys, and evidence holds
  nothing but a bounded part of the redacted text.
\<close>

section \<open>Patterns\<close>

definition any_of :: "string \<Rightarrow> re" where
  "any_of cs = Cls (\<lambda>c. c \<in> set cs)"

definition space_class :: re where
  "space_class = Cls is_space"

definition ascii_letter :: "char \<Rightarrow> bool" where
  "ascii_letter c = (let n = of_char c :: nat in 65 \<le> n \<and> n \<le> 90 \<or> 97 \<le> n \<and> n \<le> 122)"

definition ascii_upper :: "char \<Rightarrow> bool" where
  "ascii_upper c = (let n = of_char c :: nat in 65 \<le> n \<and> n \<le> 90)"

definition ascii_digit :: "char \<Rightarrow> bool" where
  "ascii_digit c = (let n = of_char c :: nat in 48 \<le> n \<and> n \<le> 57)"

definition alnum_or :: "string \<Rightarrow> re" where
  "alnum_or cs = Cls (\<lambda>c. ascii_letter c \<or> ascii_digit c \<or> c \<in> set cs)"

definition upper_digit :: re where
  "upper_digit = Cls (\<lambda>c. ascii_upper c \<or> ascii_digit c)"

definition any_but_newline :: re where
  "any_but_newline = Cls (\<lambda>c. c \<noteq> CHR 0x0A)"

definition at_least :: "nat \<Rightarrow> re \<Rightarrow> re" where
  "at_least n r = Cat (times_of n r) (Star True r)"

text \<open>\<open>[_-]?\<close> between the parts of a name\<close>

definition joined :: "string list \<Rightarrow> re" where
  "joined ws = (case ws of [] \<Rightarrow> Eps | w # ws \<Rightarrow> cats (lit_ic w # map (\<lambda>w. Cat (maybe (any_of ''_-'')) (lit_ic w)) ws))"

definition SENSITIVE_FIELD :: re where
  "SENSITIVE_FIELD = Cat (Star False (alnum_or ''_.-''))
     (alts [joined [''api'', ''key''],
            cats [joined [''access'', ''key''], maybe (Cat (maybe (any_of ''_-'')) (lit_ic ''id''))],
            joined [''account'', ''key''], joined [''access'', ''token''], joined [''refresh'', ''token''],
            joined [''id'', ''token''], joined [''api'', ''token''], lit_ic ''token'',
            Cat (lit_ic ''auth'') (maybe (lit_ic ''orization'')),
            Cat (lit_ic ''secret'') (maybe (Cat (maybe (any_of ''_-'')) (lit_ic ''key''))),
            lit_ic ''password'', lit_ic ''passwd'', lit_ic ''credential'', joined [''private'', ''key''],
            joined [''client'', ''secret''],
            Cat (lit_ic ''session'') (maybe (Cat (maybe (any_of ''_-'')) (lit_ic ''id''))),
            lit_ic ''cookie''])"

definition QUOTES :: string where
  "QUOTES = [CHR 0x22, CHR 0x27]"

text \<open>\<open>(?P<prefix>["']?FIELD["']?\s*[:=]\s*)\<close>\<close>

definition ASSIGNED :: re where
  "ASSIGNED = Grp ''prefix'' (cats [maybe (any_of QUOTES), SENSITIVE_FIELD, maybe (any_of QUOTES),
     Star True space_class, any_of '':='', Star True space_class])"

definition QUOTED_ASSIGNMENT :: re where
  "QUOTED_ASSIGNMENT = cats [ASSIGNED, Grp ''quote'' (any_of QUOTES), Grp ''value'' (Star False any_but_newline), Backref ''quote'']"

definition BARE_ASSIGNMENT :: re where
  "BARE_ASSIGNMENT = Cat ASSIGNED (Grp ''value'' (many1 (Cls (\<lambda>c. \<not> is_space c \<and> c \<notin> set '',;}'' \<and> c \<noteq> CHR 0x5D))))"

text \<open>\<open>(?im)^(?P<prefix>\s*NAME\s*:\s*).+$\<close>: the greedy rest of the line ends where the dollar matches.\<close>

definition header_line :: "re \<Rightarrow> re" where
  "header_line name = cats [Line_start, Grp ''prefix'' (cats [Star True space_class, name, Star True space_class, lit '':'',
     Star True space_class]), many1 any_but_newline]"

definition AUTHORIZATION :: re where
  "AUTHORIZATION = header_line (Cat (maybe (lit_ic ''proxy-'')) (lit_ic ''authorization''))"

definition COOKIE :: re where
  "COOKIE = header_line (alts [lit_ic ''set-cookie'', lit_ic ''cookie''])"

definition URI_CREDENTIALS :: re where
  "URI_CREDENTIALS = cats [Bound,
     Grp ''prefix'' (cats [Cls ascii_letter, Star True (alnum_or ''+.-''), lit ''://'']),
     many1 (Cls (\<lambda>c. \<not> is_space c \<and> c \<notin> set ''/@:'')), lit '':'', many1 (Cls (\<lambda>c. \<not> is_space c \<and> c \<notin> set ''/@'')), lit ''@'']"

text \<open>
  \<open>.*?(?:END|\Z)\<close> with \<open>DOTALL\<close>: up to the first end marker, or everything when there is none.
\<close>

definition KEY_NAME :: re where
  "KEY_NAME = Cat (Star True (Cat (lit '' '') (many1 upper_digit))) (lit '' PRIVATE KEY-----'')"

definition PEM_PRIVATE_KEY :: re where
  "PEM_PRIVATE_KEY = cats [lit ''-----BEGIN'', KEY_NAME,
     Alt (cats [Star False (Cls (\<lambda>_. True)), lit ''-----END'', KEY_NAME]) (Star True (Cls (\<lambda>_. True)))]"

definition JWT :: re where
  "JWT = (let part = at_least 5 (alnum_or ''_-'') in
     cats [Bound, lit ''eyJ'', part, lit ''.'', part, lit ''.'', part, Bound])"

definition AWS_ACCESS_KEY :: re where
  "AWS_ACCESS_KEY = cats [Bound, alts [lit ''AKIA'', lit ''ASIA'', Cat (lit ''A3T'') (Cls ascii_upper), lit ''AGPA'', lit ''AROA''],
     times_of 16 upper_digit, Bound]"

definition KNOWN_TOKENS :: "re list" where
  "KNOWN_TOKENS = [cats [Bound, lit ''sk-'', at_least 16 (alnum_or ''_-''), Bound],
     cats [Bound, lit ''gh'', any_of ''pousr'', lit ''_'', at_least 20 (alnum_or []), Bound]]"

section \<open>Documents\<close>

definition REDACTED :: string where
  "REDACTED = ''[REDACTED]''"

definition sensitive_field :: "string \<Rightarrow> bool" where
  "sensitive_field k = re_fullmatch SENSITIVE_FIELD k"

fun redact_json_value :: "bool \<Rightarrow> json \<Rightarrow> json \<times> bool" where
  "redact_json_value True v = (JStr REDACTED, True)"
| "redact_json_value False (JObj kvs) =
     (let rs = map (\<lambda>(k, v). (k, redact_json_value (sensitive_field k) v)) kvs in
      (JObj (map (\<lambda>(k, r). (k, fst r)) rs), list_ex (\<lambda>(k, r). snd r) rs))"
| "redact_json_value False (JArr vs) =
     (let rs = map (redact_json_value False) vs in (JArr (map fst rs), list_ex snd rs))"
| "redact_json_value False v = (v, False)"

definition redact_json_document :: "string \<Rightarrow> string \<times> bool" where
  "redact_json_document t =
     (case json_loads t of
        Inl e \<Rightarrow> (t, False)
      | Inr v \<Rightarrow> (case redact_json_value False v of (r, changed) \<Rightarrow> if changed then (print_json r, True) else (t, False)))"

section \<open>Texts\<close>

definition group_of :: "position \<Rightarrow> string \<Rightarrow> string" where
  "group_of q name = dict_get (groups q) name []"

definition redact_secrets :: "string \<Rightarrow> string \<times> bool" where
  "redact_secrets text0 =
     (let r = fst (redact_json_document text0);
          r = re_sub AUTHORIZATION (\<lambda>p q. group_of q ''prefix'' @ REDACTED) r;
          r = re_sub COOKIE (\<lambda>p q. group_of q ''prefix'' @ REDACTED) r;
          r = re_sub URI_CREDENTIALS (\<lambda>p q. group_of q ''prefix'' @ REDACTED @ ''@'') r;
          r = re_sub QUOTED_ASSIGNMENT (\<lambda>p q. group_of q ''prefix'' @ group_of q ''quote'' @ REDACTED @ group_of q ''quote'') r;
          r = re_sub BARE_ASSIGNMENT (\<lambda>p q. group_of q ''prefix'' @ REDACTED) r;
          r = re_sub PEM_PRIVATE_KEY (\<lambda>p q. ''[REDACTED PRIVATE KEY]'') r;
          r = re_sub JWT (\<lambda>p q. ''[REDACTED JWT]'') r;
          r = re_sub AWS_ACCESS_KEY (\<lambda>p q. ''[REDACTED AWS ACCESS KEY]'') r;
          r = foldl (\<lambda>r pattern. re_sub pattern (\<lambda>p q. REDACTED) r) r KNOWN_TOKENS
      in (r, r \<noteq> text0))"

text \<open>\<open>sha\<close> is \<open>content_hash\<close>.\<close>

definition redacted_content_hash :: "(string \<Rightarrow> string) \<Rightarrow> string \<Rightarrow> string" where
  "redacted_content_hash sha t = sha (fst (redact_secrets t))"

section \<open>Evidence\<close>

record prepared_evidence =
  pe_payload :: "string option"
  pe_full_hash :: string
  pe_redacted :: bool
  pe_excerpt_start :: "int option"
  pe_excerpt_end :: "int option"
  pe_observed_chars :: int

definition prepare_evidence :: "(string \<Rightarrow> string) \<Rightarrow> string \<Rightarrow> string \<Rightarrow> int \<Rightarrow> bool \<Rightarrow> prepared_evidence result" where
  "prepare_evidence sha t storage max_excerpt_chars redact =
     (let (redacted_text, redacted) = (if redact then redact_secrets t else (t, False));
          full_hash = (if redact then redacted_content_hash sha t else sha t);
          prepared = (\<lambda>payload start end.
            \<lparr>pe_payload = payload, pe_full_hash = full_hash, pe_redacted = redacted, pe_excerpt_start = start,
             pe_excerpt_end = end, pe_observed_chars = int (length t)\<rparr>) in
      if storage = ''hash_only'' then Inr (prepared None None None)
      else if storage = ''full'' then Inr (prepared (Some redacted_text) (Some 0) (Some (int (length redacted_text))))
      else if storage \<noteq> ''excerpt'' then Inl (ValueError (''unsupported evidence mode: '' @ storage))
      else let excerpt = take (nat (max 0 max_excerpt_chars)) redacted_text in
        Inr (prepared (Some excerpt) (Some 0) (Some (int (length excerpt)))))"

section \<open>What redaction promises\<close>

fun no_secret :: "json \<Rightarrow> bool" where
  "no_secret (JObj kvs) = list_all (\<lambda>(k, v). if sensitive_field k then v = JStr REDACTED else no_secret v) kvs"
| "no_secret (JArr vs) = list_all no_secret vs"
| "no_secret v = True"

fun names_secret :: "json \<Rightarrow> bool" where
  "names_secret (JObj kvs) = list_ex (\<lambda>(k, v). sensitive_field k \<or> names_secret v) kvs"
| "names_secret (JArr vs) = list_ex names_secret vs"
| "names_secret v = False"

abbreviation redacted_value :: "json \<Rightarrow> json" where
  "redacted_value v \<equiv> fst (redact_json_value False v)"

lemma redact_member:
  "fst (redact_json_value (sensitive_field k) v) = (if sensitive_field k then JStr REDACTED else redacted_value v)"
  "snd (redact_json_value (sensitive_field k) v) \<longleftrightarrow> sensitive_field k \<or> snd (redact_json_value False v)"
  by (cases "sensitive_field k"; simp)+

lemma redact_members:
  "redact_json_value False (JObj kvs) =
     (JObj (map (\<lambda>(k, v). (k, if sensitive_field k then JStr REDACTED else redacted_value v)) kvs),
      list_ex (\<lambda>(k, v). sensitive_field k \<or> snd (redact_json_value False v)) kvs)"
  by (simp add: Let_def list_ex_iff case_prod_beta redact_member)

lemma redact_items:
  "redact_json_value False (JArr vs) = (JArr (map redacted_value vs), list_ex (\<lambda>v. snd (redact_json_value False v)) vs)"
  by (simp add: Let_def list_ex_iff)

declare redact_json_value.simps(2,3) [simp del]

lemma redacted_no_secret: "no_secret (redacted_value v)"
proof (induction v)
  case (JObj kvs)
  then show ?case by (auto simp: redact_members list_all_iff snds.simps)
qed (auto simp: redact_items list_all_iff)

lemma redacted_changed: "snd (redact_json_value False v) \<longleftrightarrow> names_secret v"
proof (induction v)
  case (JObj kvs)
  then show ?case by (force simp: redact_members list_ex_iff snds.simps)
qed (auto simp: redact_items list_ex_iff)

lemma unchanged_same: "\<not> names_secret v \<Longrightarrow> redacted_value v = v"
proof (induction v)
  case (JObj kvs)
  then have "map (\<lambda>(k, v). (k, if sensitive_field k then JStr REDACTED else redacted_value v)) kvs = kvs"
    by (intro map_idI) (fastforce simp: list_ex_iff snds.simps)
  then show ?case by (simp add: redact_members)
next
  case (JArr vs)
  then have "map redacted_value vs = vs" by (intro map_idI) (auto simp: list_ex_iff)
  then show ?case by (simp add: redact_items)
qed (simp_all)

lemma redacted_readable: "readable v \<Longrightarrow> readable (redacted_value v)"
proof (induction v)
  case (JObj kvs)
  have "fst \<circ> (\<lambda>(k, v). (k, if sensitive_field k then JStr REDACTED else redacted_value v)) = fst" by auto
  moreover have "readable (if sensitive_field k then JStr REDACTED else redacted_value v)" if "(k, v) \<in> set kvs" for k v
    using JObj that by (force simp: list_all_iff snds.simps)
  ultimately show ?case using JObj.prems by (auto simp: redact_members list_all_iff)
qed (auto simp: redact_items list_all_iff)

lemma redacted_again: "redacted_value (redacted_value v) = redacted_value v"
proof (induction v)
  case (JObj kvs)
  then show ?case by (auto simp: redact_members snds.simps)
qed (auto simp: redact_items)

text \<open>
  \<open>redacts v r\<close>: \<open>r\<close> is \<open>v\<close> with the values under sensitive names replaced. Objects keep their members in
  their order, arrays their items, and everything else stays as it is.
\<close>

inductive redacts :: "json \<Rightarrow> json \<Rightarrow> bool" where
  members: "map fst kvs = map fst kws
    \<Longrightarrow> list_all2 (\<lambda>x y. if sensitive_field (fst x) then snd y = JStr REDACTED else redacts (snd x) (snd y)) kvs kws
    \<Longrightarrow> redacts (JObj kvs) (JObj kws)"
| items: "list_all2 redacts vs ws \<Longrightarrow> redacts (JArr vs) (JArr ws)"
| other: "(\<forall>kvs. v \<noteq> JObj kvs) \<Longrightarrow> (\<forall>vs. v \<noteq> JArr vs) \<Longrightarrow> redacts v v"

lemma redacts_redacted: "redacts v (redacted_value v)"
proof (induction v)
  case (JObj kvs)
  have "map fst (map (\<lambda>(k, v). (k, if sensitive_field k then JStr REDACTED else redacted_value v)) kvs) = map fst kvs"
    by auto
  moreover have "redacts (snd x) (redacted_value (snd x))" if "x \<in> set kvs" for x
    using JObj [of x "snd x"] that by (cases x) (auto simp: snds.simps)
  then have "list_all2 (\<lambda>x y. if sensitive_field (fst x) then snd y = JStr REDACTED else redacts (snd x) (snd y)) kvs
      (map (\<lambda>(k, v). (k, if sensitive_field k then JStr REDACTED else redacted_value v)) kvs)"
    by (simp add: list_all2_map2 list_all2_same case_prod_beta)
  ultimately show ?case by (simp add: redact_members redacts.members)
next
  case (JArr vs)
  then show ?case by (simp add: redact_items redacts.items list_all2_map2 list_all2_same)
qed (simp_all add: redacts.other)

text \<open>
  C35. A JSON observation loses its secrets: what \<open>redact_json_document\<close> puts in its place is a JSON
  document again, the same but for the values of the members whose name is sensitive, which are
  \<open>[REDACTED]\<close> at every depth; it is left as it was, to the character, exactly when no member has such a
  name, and redacting the values of the document again changes nothing. The substitutions on the text
  that follow before it is stored are not part of this.
\<close>
theorem redacted_document_clean:
  assumes "json_loads t = Inr v" and "readable v" and "redact_json_document t = (t', changed)"
  shows "\<exists>r. json_loads t' = Inr r \<and> redacts v r \<and> no_secret r \<and> (changed \<longleftrightarrow> names_secret v)
    \<and> (\<not> changed \<longrightarrow> t' = t \<and> r = v) \<and> redacted_value r = r"
proof (cases "names_secret v")
  case True
  then have "t' = print_json (redacted_value v)" "changed"
    using assms(1,3) redacted_changed [of v] by (auto simp: redact_json_document_def split: prod.splits)
  with True json_loads_print [OF redacted_readable [OF assms(2)]] redacted_no_secret redacted_again
    redacts_redacted
  show ?thesis by auto
next
  case False
  then have "t' = t" "\<not> changed"
    using assms(1,3) redacted_changed [of v] by (auto simp: redact_json_document_def split: prod.splits)
  with False assms(1) unchanged_same [OF False] redacted_no_secret [of v] redacts_redacted [of v] show ?thesis by auto
qed

definition sample_document :: json where
  "sample_document = JObj [(''n'', JArr [JInt 1]), (''api_key'', JStr ''x'')]"

lemma sample_document_facts: "readable sample_document" "names_secret sample_document"
  by code_simp+

theorem redacted_document_clean_witness:
  "\<exists>t' r. redact_json_document (print_json sample_document) = (t', True) \<and> json_loads t' = Inr r \<and> no_secret r"
proof -
  obtain t' changed where d: "redact_json_document (print_json sample_document) = (t', changed)" by (metis surj_pair)
  from redacted_document_clean [OF json_loads_print [OF sample_document_facts(1)] sample_document_facts(1) d] sample_document_facts(2) d
  show ?thesis by auto
qed

text \<open>What evidence holds: a bounded part of the redacted text, and a digest of that text alone.\<close>

theorem evidence_reveals_redacted_only:
  assumes "prepare_evidence sha t storage n True = Inr e"
  shows "pe_full_hash e = sha (fst (redact_secrets t))
    \<and> (case pe_payload e of
         None \<Rightarrow> storage = ''hash_only'' \<and> pe_excerpt_end e = None
       | Some p \<Rightarrow> (\<exists>rest. fst (redact_secrets t) = p @ rest \<and> (storage = ''full'' \<longrightarrow> rest = []))
           \<and> (storage = ''excerpt'' \<longrightarrow> int (length p) \<le> max 0 n) \<and> pe_excerpt_end e = Some (int (length p)))
    \<and> (pe_redacted e \<longleftrightarrow> fst (redact_secrets t) \<noteq> t)"
proof -
  let ?r = "fst (redact_secrets t)"
  have "snd (redact_secrets t) \<longleftrightarrow> ?r \<noteq> t" by (simp add: redact_secrets_def Let_def)
  moreover have "\<exists>rest. ?r = take k ?r @ rest" for k by (metis append_take_drop_id)
  moreover have "length (take (nat (max 0 n)) ?r) \<le> nat (max 0 n)" by simp
  ultimately show ?thesis
    using assms by (auto simp: prepare_evidence_def redacted_content_hash_def case_prod_beta Let_def split: if_splits)
qed

text \<open>
  Redacting twice is not redacting once: the bracket that closes the mark ends the value of an assignment,
  so the mark is replaced without it and another bracket stays behind.
\<close>
theorem redaction_not_idempotent:
  "re_sub BARE_ASSIGNMENT (\<lambda>p q. group_of q ''prefix'' @ REDACTED) ''token=[REDACTED]'' = ''token=[REDACTED]]''"
  by code_simp

end
