(* ===== verification/Ingestion.thy ===== *)
theory Ingestion
  imports Redaction Validity
begin

text \<open>
  \<open>ingestion/provenance.py\<close>, \<open>ingestion/adapters.py\<close> and \<open>ingestion/user.py\<close>: where an observation comes
  from. A source is identified by a root, so that copies of one document do not count as independent, and
  a tool vouches only for having run: what it returned belongs to a content source that is never trusted.
  The URL functions, \<open>SequenceMatcher\<close>, \<open>PurePath\<close> and SHA-256 of the standard library are parameters.
\<close>

section \<open>Provenance\<close>

record url_parts =
  up_scheme :: string
  up_host :: "string option"
  up_port :: "int option"
  up_path :: string
  up_query :: string

record library =
  lib_urlsplit :: "string \<Rightarrow> url_parts result"
  lib_urlunsplit :: "string \<Rightarrow> string \<Rightarrow> string \<Rightarrow> string \<Rightarrow> string \<Rightarrow> string"
  lib_ratio :: "string \<Rightarrow> string \<Rightarrow> rat"
  lib_pure_path :: "string \<Rightarrow> string"
  lib_sha :: "string \<Rightarrow> string"

definition host_or :: "string \<Rightarrow> url_parts \<Rightarrow> string" where
  "host_or s p = (case up_host p of Some (c # cs) \<Rightarrow> c # cs | _ \<Rightarrow> s)"

text \<open>\<open>re.sub(r"/{2,}", "/", path)\<close>\<close>

fun single_slashes :: "string \<Rightarrow> string" where
  "single_slashes (c # d # cs) =
     (if c = CHR ''/'' \<and> d = CHR ''/'' then single_slashes (d # cs) else c # single_slashes (d # cs))"
| "single_slashes s = s"

definition is_dot :: "char \<Rightarrow> bool" where
  "is_dot c = (c = CHR ''.'')"

definition normalize_url :: "library \<Rightarrow> string \<Rightarrow> string result" where
  "normalize_url L s =
     and_then (lib_urlsplit L (strip s)) (\<lambda>p.
       let host = rstrip_chars is_dot (casefold (host_or [] p));
           netloc = (case up_port p of None \<Rightarrow> host | Some n \<Rightarrow> host @ '':'' @ show_int n);
           path = single_slashes (if up_path p = [] then ''/'' else up_path p)
       in Inr (lib_urlunsplit L (casefold (up_scheme p)) netloc path (up_query p) []))"

fun split_dots :: "string \<Rightarrow> string list" where
  "split_dots [] = [[]]"
| "split_dots (c # cs) =
     (if c = CHR ''.'' then [] # split_dots cs
      else (case split_dots cs of [] \<Rightarrow> [[c]] | w # ws \<Rightarrow> (c # w) # ws))"

definition last_n :: "nat \<Rightarrow> 'a list \<Rightarrow> 'a list" where
  "last_n n xs = drop (length xs - n) xs"

definition SECOND_LEVEL :: "string list" where
  "SECOND_LEVEL = [''co.uk'', ''com.au'', ''co.jp'', ''com.br'', ''co.in'']"

definition registrable_domain :: "library \<Rightarrow> string \<Rightarrow> string result" where
  "registrable_domain L s =
     and_then (lib_urlsplit L (if contains ''://'' s then s else ''//'' @ s)) (\<lambda>p.
       let host = rstrip_chars is_dot (dropWhile is_dot (casefold (host_or s p)));
           labels = split_dots host;
           suffix2 = join_with ''.'' (last_n 2 labels)
       in Inr (if length labels \<le> 2 then host
               else if suffix2 \<in> set SECOND_LEVEL then join_with ''.'' (last_n 3 labels) else suffix2))"

definition or_else :: "string \<Rightarrow> string \<Rightarrow> string" where
  "or_else s d = (if s = [] then d else s)"

text \<open>\<open>re.sub(r"\s+", "-", s)\<close>\<close>

definition hyphenate :: "string \<Rightarrow> string" where
  "hyphenate s = map (\<lambda>c. if c = CHR '' '' then CHR ''-'' else c) (collapse_spaces s)"

definition provenance_root :: "library \<Rightarrow> source_kind \<Rightarrow> string \<Rightarrow> string \<Rightarrow> string \<Rightarrow> string result" where
  "provenance_root L kind identity publisher origin =
     (let i = fst (redact_secrets identity); place = fst (redact_secrets origin) in
      case kind of
        SK_WEB \<Rightarrow> and_then (registrable_domain L i) (\<lambda>d.
          Inr (''web:'' @ d @ '':'' @ or_else (hyphenate (strip (casefold publisher))) ''unknown''))
      | SK_DOCUMENT \<Rightarrow> Inr (''document:'' @ or_else (or_else place i) ''unknown'')
      | SK_USER \<Rightarrow> Inr (''user:'' @ i)
      | SK_TOOL \<Rightarrow> Inr (''tool:'' @ i)
      | SK_MODEL \<Rightarrow> Inr (''model:'' @ i)
      | SK_LEDGER \<Rightarrow> Inr (''ledger:'' @ or_else place i)
      | SK_RETRIEVER \<Rightarrow> Inr (''retriever:'' @ i))"

definition fingerprint :: "library \<Rightarrow> string \<Rightarrow> string" where
  "fingerprint L s = redacted_content_hash (lib_sha L) (normalize_content s)"

definition similarity :: "library \<Rightarrow> string \<Rightarrow> string \<Rightarrow> rat" where
  "similarity L l r = lib_ratio L (normalize_content l) (normalize_content r)"

definition independent :: "library \<Rightarrow> string \<Rightarrow> string \<Rightarrow> string \<Rightarrow> string \<Rightarrow> rat \<Rightarrow> bool" where
  "independent L left_root right_root l r threshold =
     (if left_root = right_root then False
      else if normalize_content l = normalize_content r then True
      else threshold \<le> similarity L l r)"

section \<open>Sources\<close>

record source_descriptor =
  sd_kind :: source_kind
  sd_integrity :: integrity
  sd_name :: string
  sd_root :: string
  sd_competence :: "(string \<times> rat) list"

definition user_source :: "library \<Rightarrow> string \<Rightarrow> string \<Rightarrow> source_descriptor result" where
  "user_source L sender_id channel =
     (let identity = or_else (strip sender_id) ''anonymous'' in
      and_then (provenance_root L SK_USER (or_else channel ''unknown'' @ '':'' @ identity) [] []) (\<lambda>rt.
        Inr \<lparr>sd_kind = SK_USER, sd_integrity = SEMI, sd_name = identity, sd_root = rt,
             sd_competence = [(''general'', 65 / 100)]\<rparr>))"

definition SELF :: re where
  "SELF = words_ic [''i am'', ''i'' @ [CHR 0x27] @ ''m'', ''i prefer'', ''i confirm'', ''i authorize'', ''i approve'', ''my '',
     ''me llamo'', ''prefiero'', ''confirmo'', ''autorizo'', ''soy'']"

definition is_about_user_self :: "string \<Rightarrow> bool" where
  "is_about_user_self s = re_search SELF s"

definition is_user_self_claim :: "source \<Rightarrow> string \<Rightarrow> bool" where
  "is_user_self_claim s t = (if src_kind s \<noteq> SK_USER then False else is_about_user_self t)"

section \<open>Tool results\<close>

record adapted =
  ad_adapter :: string
  ad_wrapper :: source_descriptor
  ad_wrapper_content :: string
  ad_successful :: bool
  ad_parsed :: bool
  ad_content_source :: "source_descriptor option"
  ad_assertive :: bool
  ad_metadata :: "(string \<times> json) list"
  ad_observations :: "string list"

definition names_any :: "string list \<Rightarrow> string \<Rightarrow> bool" where
  "names_any ws s = list_ex (\<lambda>w. contains w s) ws"

definition family :: "string \<Rightarrow> string" where
  "family s =
     (if starts_with ''pramana_'' s then ''plugin''
      else if names_any [''browser'', ''web'', ''http'', ''fetch'', ''search_web''] s then ''web''
      else if names_any [''read_file'', ''file_read'', ''list_file'', ''list_directory'', ''list_dir'', ''stat_file'',
        ''file_stat'', ''glob'', ''ripgrep'', ''grep''] s then ''file''
      else if contains ''memory'' s then ''memory''
      else if names_any [''retrieve'', ''document'', ''rag'', ''search_index''] s then ''retrieval''
      else if names_any [''delegate'', ''subagent'', ''spawn_agent''] s then ''delegation''
      else if names_any [''shell'', ''terminal'', ''exec'', ''python'', ''command''] s then ''execution''
      else ''unknown'')"

definition successful :: "string \<Rightarrow> string \<Rightarrow> bool" where
  "successful status_text r =
     (if status_text \<noteq> [] then casefold status_text \<in> set [''ok'', ''success'', ''succeeded'', ''completed'']
      else case json_loads r of
        Inr (JObj kvs) \<Rightarrow> \<not> truthy (dict_get kvs ''error'' JNull) \<and> dict_get kvs ''ok'' (JBool True) \<noteq> JBool False
      | _ \<Rightarrow> (let lowered = casefold r in
              \<not> starts_with ''error'' lowered \<and> \<not> contains [CHR 0x22, CHR ''e'', CHR ''r'', CHR ''r'', CHR ''o'', CHR ''r'', CHR 0x22] (take 200 lowered)))"

definition looks_structured :: "string \<Rightarrow> bool" where
  "looks_structured r = (case json_loads r of Inr v \<Rightarrow> True | Inl e \<Rightarrow> strip r \<noteq> [])"

definition URL :: re where
  "URL = cats [lit ''http'', maybe (lit ''s''), lit ''://'',
     many1 (Cls (\<lambda>c. \<not> is_space c \<and> c \<notin> set ''[<>{}'' \<and> c \<noteq> CHR 0x5D \<and> c \<noteq> CHR 0x22 \<and> c \<noteq> CHR 0x27))]"

definition extract_url :: "string \<Rightarrow> string option" where
  "extract_url r = map_option (\<lambda>(p, q). between p q) (search_from URL (start_of r))"

text \<open>\<open>str(args.get(k1) or args.get(k2) or ... or default)\<close>\<close>

fun first_truthy :: "(string \<times> json) list \<Rightarrow> string list \<Rightarrow> json \<Rightarrow> json" where
  "first_truthy args [] d = d"
| "first_truthy args (k # ks) d = (let v = dict_get args k JNull in if truthy v then v else first_truthy args ks d)"

abbreviation arg_text :: "(string \<times> json) list \<Rightarrow> string list \<Rightarrow> string \<Rightarrow> string" where
  "arg_text args ks d \<equiv> py_str (first_truthy args ks (JStr d))"

definition described :: "source_kind \<Rightarrow> integrity \<Rightarrow> string \<Rightarrow> (string \<times> rat) list \<Rightarrow> string \<Rightarrow> source_descriptor" where
  "described kind level i competence rt =
     \<lparr>sd_kind = kind, sd_integrity = level, sd_name = i, sd_root = rt, sd_competence = competence\<rparr>"

text \<open>The content source of a family, with what it adds to the metadata.\<close>

definition content_source ::
  "library \<Rightarrow> string \<Rightarrow> string \<Rightarrow> (string \<times> json) list \<Rightarrow> string \<Rightarrow> (source_descriptor option \<times> (string \<times> json) list) result" where
  "content_source L fam tool_name args r =
     (if fam = ''web'' then
        (let url = arg_text args [''url'', ''query_url''] (case extract_url r of None \<Rightarrow> [] | Some u \<Rightarrow> u) in
         if url = [] then Inr (None, [])
         else and_then (lib_urlsplit L url) (\<lambda>p.
              and_then (provenance_root L SK_WEB url [] []) (\<lambda>rt.
              Inr (Some (described SK_WEB UNTRUSTED (host_or url p) [(''general'', 1 / 2)] rt),
                   [(''url'', JStr (fst (redact_secrets url)))]))))
      else if fam = ''file'' then
        (let safe = fst (redact_secrets (arg_text args [''path'', ''file_path''] ''unidentified-file'')) in
         and_then (provenance_root L SK_DOCUMENT safe [] safe) (\<lambda>rt.
         Inr (Some (described SK_DOCUMENT SEMI safe [(''general'', 3 / 4), (''library_internals'', 85 / 100)] rt),
              [(''path'', JStr safe)])))
      else if fam = ''memory'' then
        (let identity = arg_text args [''source_root'', ''memory_id'', ''collection''] ''prior-ledger'' in
         and_then (provenance_root L SK_LEDGER identity [] identity) (\<lambda>rt.
         Inr (Some (described SK_LEDGER SEMI ''prior ledger'' [(''general'', 1 / 2)] rt),
              [(''transport_only'', JBool True),
               (''prior_source_root'', JStr (fst (redact_secrets (arg_text args [''source_root''] []))))])))
      else if fam = ''retrieval'' then
        (let identity = arg_text args [''index'', ''collection''] tool_name in
         and_then (provenance_root L SK_RETRIEVER identity [] []) (\<lambda>rt.
         Inr (Some (described SK_RETRIEVER SEMI identity [(''general'', 65 / 100)] rt), [])))
      else if fam = ''delegation'' then
        (let identity = arg_text args [''agent_id'', ''role''] tool_name in
         and_then (provenance_root L SK_MODEL identity [] []) (\<lambda>rt.
         Inr (Some (described SK_MODEL SEMI identity [(''general'', 55 / 100)] rt), [])))
      else if fam = ''plugin'' then
        and_then (provenance_root L SK_MODEL tool_name [] []) (\<lambda>rt.
        Inr (Some (described SK_MODEL SEMI tool_name [(''general'', 65 / 100)] rt), []))
      else Inr (None, []))"

definition requested_path :: "(string \<times> json) list \<Rightarrow> string" where
  "requested_path args = strip (arg_text args [''path'', ''file_path'', ''directory''] [])"

text \<open>On a POSIX host, where case is kept.\<close>

definition comparable_path :: "string \<Rightarrow> string" where
  "comparable_path s = rstrip_chars (\<lambda>c. c = CHR ''/'') (map (\<lambda>c. if c = CHR 0x5C then CHR ''/'' else c) (strip s))"

definition same_path :: "string \<Rightarrow> string \<Rightarrow> bool" where
  "same_path requested returned = (strip returned \<noteq> [] \<and> comparable_path requested = comparable_path returned)"

definition STAT_TOOLS :: "string list" where
  "STAT_TOOLS = [''stat_file'', ''file_stat'', ''stat_path'']"

definition LISTING_TOOLS :: "string list" where
  "LISTING_TOOLS = [''list_directory'', ''list_dir'', ''list_files'']"

definition ENVIRONMENT_TOOLS :: "string list" where
  "ENVIRONMENT_TOOLS = [''environment_identity'', ''get_environment'', ''system_info'', ''get_system_info'']"

definition typed_observations :: "library \<Rightarrow> string \<Rightarrow> (string \<times> json) list \<Rightarrow> string \<Rightarrow> bool \<Rightarrow> string list" where
  "typed_observations L tool_name args r ok =
     (if \<not> ok then []
      else case json_loads r of
        Inr (JObj payload) \<Rightarrow>
          (let path = requested_path args;
               returned = arg_text payload [''path'', ''directory''] []
           in if tool_name \<in> set STAT_TOOLS then
                (if path \<noteq> [] \<and> dict_get payload ''exists'' JNull = JBool True \<and> same_path path returned
                 then [''Target '' @ fst (redact_secrets path) @ '' exists''] else [])
              else if tool_name \<in> set LISTING_TOOLS then
                (if path \<noteq> [] \<and> (case dict_get payload ''entries'' JNull of JArr vs \<Rightarrow> True | _ \<Rightarrow> False) \<and> same_path path returned
                 then [''Parent '' @ fst (redact_secrets (lib_pure_path L path)) @ '' exists''] else [])
              else if tool_name \<in> set ENVIRONMENT_TOOLS then
                (case first_truthy payload [''environment_id'', ''environment''] (dict_get payload ''hostname'' JNull) of
                   JStr i \<Rightarrow> if strip i \<noteq> [] then [''The current execution environment is identified''] else []
                 | _ \<Rightarrow> [])
              else [])
      | _ \<Rightarrow> [])"

text \<open>\<open>str.title\<close>\<close>

definition to_upper :: "char \<Rightarrow> char" where
  "to_upper c = (let n = of_char c :: nat in if 97 \<le> n \<and> n \<le> 122 then char_of (n - 32) else c)"

fun title_from :: "bool \<Rightarrow> string \<Rightarrow> string" where
  "title_from inside [] = []"
| "title_from inside (c # cs) = (if inside then to_lower c else to_upper c) # title_from (ascii_letter c) cs"

definition adapt ::
  "library \<Rightarrow> string \<Rightarrow> string \<Rightarrow> (string \<times> json) list \<Rightarrow> string \<Rightarrow> string \<Rightarrow> string \<Rightarrow> adapted result" where
  "adapt L host_name0 tool_name args r status_text call_id =
     (let host_name = or_else (casefold (strip host_name0)) ''host'';
          lowered = casefold tool_name; fam = family lowered; ok = successful status_text r in
      and_then (provenance_root L SK_TOOL (host_name @ '':'' @ tool_name) [] []) (\<lambda>rt.
      and_then (content_source L fam tool_name args r) (\<lambda>(src, meta).
        Inr \<lparr>ad_adapter = fam,
             ad_wrapper = described SK_TOOL TRUSTED tool_name [(''general'', 85 / 100), (''runtime_state'', 95 / 100)] rt,
             ad_wrapper_content = title_from False host_name @ '' observed '' @ tool_name @ '' return ''
               @ or_else status_text (if ok then ''success'' else ''failure'') @ '' for '' @ or_else call_id ''an uncorrelated call'',
             ad_successful = ok, ad_parsed = looks_structured r, ad_content_source = src,
             ad_assertive = fam \<in> set [''web'', ''file'', ''memory'', ''retrieval'', ''delegation'', ''plugin''],
             ad_metadata = [(''adapter'', JStr fam), (''tool_name'', JStr tool_name)] @ meta,
             ad_observations = typed_observations L lowered args r ok\<rparr>)))"

section \<open>What a tool result may claim\<close>

text \<open>The object a result is, and what it says about a path.\<close>

definition result_object :: "string \<Rightarrow> (string \<times> json) list option" where
  "result_object r = (case json_loads r of Inr (JObj kvs) \<Rightarrow> Some kvs | _ \<Rightarrow> None)"

lemma content_source_level:
  "content_source L fam tool_name args r = Inr (Some s, meta) \<Longrightarrow>
     sd_integrity s \<noteq> TRUSTED \<and> sd_kind s \<notin> {SK_TOOL, SK_USER} \<and> fam \<notin> {''execution'', ''unknown''}"
  by (auto simp: content_source_def splits_result described_def Let_def split: if_splits)

lemma execution_family: "family t = ''execution'' \<Longrightarrow> t \<notin> set (STAT_TOOLS @ LISTING_TOOLS @ ENVIRONMENT_TOOLS)"
proof -
  have "list_all (\<lambda>t. family t \<noteq> ''execution'') (STAT_TOOLS @ LISTING_TOOLS @ ENVIRONMENT_TOOLS)" by code_simp
  then show "family t = ''execution'' \<Longrightarrow> ?thesis" unfolding list_all_iff by blast
qed

text \<open>
  What a tool can be said to have observed. A stat or a listing speaks of the path it was asked about
  and must name it in its result; a tool that identifies the environment is asked about no path.
\<close>

inductive typed_fact :: "library \<Rightarrow> string \<Rightarrow> (string \<times> json) list \<Rightarrow> string \<Rightarrow> string \<Rightarrow> bool" for L t args r where
  target: "\<lbrakk>t \<in> set STAT_TOOLS; result_object r = Some kvs; requested_path args \<noteq> [];
      map_of kvs ''exists'' = Some (JBool True);
      same_path (requested_path args) (arg_text kvs [''path'', ''directory''] [])\<rbrakk>
    \<Longrightarrow> typed_fact L t args r (''Target '' @ fst (redact_secrets (requested_path args)) @ '' exists'')"
| parent: "\<lbrakk>t \<in> set LISTING_TOOLS; result_object r = Some kvs; requested_path args \<noteq> [];
      map_of kvs ''entries'' = Some (JArr vs);
      same_path (requested_path args) (arg_text kvs [''path'', ''directory''] [])\<rbrakk>
    \<Longrightarrow> typed_fact L t args r (''Parent '' @ fst (redact_secrets (lib_pure_path L (requested_path args))) @ '' exists'')"
| environment: "\<lbrakk>t \<in> set ENVIRONMENT_TOOLS; result_object r = Some kvs;
      first_truthy kvs [''environment_id'', ''environment''] (dict_get kvs ''hostname'' JNull) = JStr i; strip i \<noteq> []\<rbrakk>
    \<Longrightarrow> typed_fact L t args r ''The current execution environment is identified''"

lemmas typed_fact_iff = typed_fact.simps

lemma tool_names_apart:
  "t \<in> set STAT_TOOLS \<Longrightarrow> t \<notin> set LISTING_TOOLS \<and> t \<notin> set ENVIRONMENT_TOOLS"
  "t \<in> set LISTING_TOOLS \<Longrightarrow> t \<notin> set STAT_TOOLS \<and> t \<notin> set ENVIRONMENT_TOOLS"
  "t \<in> set ENVIRONMENT_TOOLS \<Longrightarrow> t \<notin> set STAT_TOOLS \<and> t \<notin> set LISTING_TOOLS"
proof -
  have "list_all (\<lambda>t. t \<notin> set LISTING_TOOLS \<and> t \<notin> set ENVIRONMENT_TOOLS) STAT_TOOLS
      \<and> list_all (\<lambda>t. t \<notin> set STAT_TOOLS \<and> t \<notin> set ENVIRONMENT_TOOLS) LISTING_TOOLS
      \<and> list_all (\<lambda>t. t \<notin> set STAT_TOOLS \<and> t \<notin> set LISTING_TOOLS) ENVIRONMENT_TOOLS" by code_simp
  then show "t \<in> set STAT_TOOLS \<Longrightarrow> t \<notin> set LISTING_TOOLS \<and> t \<notin> set ENVIRONMENT_TOOLS"
    "t \<in> set LISTING_TOOLS \<Longrightarrow> t \<notin> set STAT_TOOLS \<and> t \<notin> set ENVIRONMENT_TOOLS"
    "t \<in> set ENVIRONMENT_TOOLS \<Longrightarrow> t \<notin> set STAT_TOOLS \<and> t \<notin> set LISTING_TOOLS"
    unfolding list_all_iff by blast+
qed

lemma dict_get_eq: "v \<noteq> d \<Longrightarrow> dict_get kvs k d = v \<longleftrightarrow> map_of kvs k = Some v"
  by (auto simp: dict_get_def split: option.splits)

lemma typed_observations_exact:
  "set (typed_observations L t args r ok) = (if ok then {obs. typed_fact L t args r obs} else {})"
  "length (typed_observations L t args r ok) \<le> 1"
proof -
  show "set (typed_observations L t args r ok) = (if ok then {obs. typed_fact L t args r obs} else {})"
  proof (cases "result_object r")
    case None
    then show ?thesis
      by (auto simp: typed_observations_def typed_fact_iff result_object_def split: sum.splits json.splits)
  next
    case (Some kvs)
    then have j: "json_loads r = Inr (JObj kvs)" by (auto simp: result_object_def split: sum.splits json.splits)
    have entries: "(case dict_get kvs ''entries'' JNull of JArr vs \<Rightarrow> True | _ \<Rightarrow> False) \<longleftrightarrow> (\<exists>vs. map_of kvs ''entries'' = Some (JArr vs))"
      by (auto simp: dict_get_def split: option.splits json.splits)
    consider "t \<in> set STAT_TOOLS" | "t \<in> set LISTING_TOOLS" | "t \<in> set ENVIRONMENT_TOOLS"
      | "t \<notin> set STAT_TOOLS" "t \<notin> set LISTING_TOOLS" "t \<notin> set ENVIRONMENT_TOOLS" by blast
    then show ?thesis
    proof cases
      case 1
      note apart = tool_names_apart(1) [OF 1]
      from 1 apart show ?thesis
        by (auto simp: typed_observations_def j typed_fact_iff Some Let_def dict_get_eq simp del: first_truthy.simps)
    next
      case 2
      note apart = tool_names_apart(2) [OF 2]
      from 2 apart show ?thesis
        by (auto simp: typed_observations_def j typed_fact_iff Some Let_def entries simp del: first_truthy.simps)
    next
      case 3
      note apart = tool_names_apart(3) [OF 3]
      from 3 apart show ?thesis
        by (cases "first_truthy kvs [''environment_id'', ''environment''] (dict_get kvs ''hostname'' JNull)")
          (auto simp: typed_observations_def j typed_fact_iff Some Let_def simp del: first_truthy.simps)
    next
      case 4
      then show ?thesis by (simp add: typed_observations_def j typed_fact_iff Let_def)
    qed
  qed
  show "length (typed_observations L t args r ok) \<le> 1"
    by (simp add: typed_observations_def Let_def del: first_truthy.simps split: sum.split json.split)
qed

text \<open>
  C36. A tool vouches only for having run. Whatever it returned, only the wrapper is trusted; a content
  source never is, nor does it count as the tool or the user; the output of a call that is classified as
  command execution, or not classified, has no content source and asserts nothing. What is stated as
  observed is exactly the typed facts of a successful call, at most one: that the path a stat was asked
  about exists, when the result is an object that names this path and has \<open>exists\<close> true; that the directory
  a listing was asked about exists, when the result names it and has an array of entries; that
  the environment is identified, when the result names it. The classes are told by parts of the tool's
  name (\<open>family\<close>).
\<close>
theorem tool_content_untrusted:
  assumes "adapt L host tool_name args r status_text call_id = Inr a"
  shows "ad_adapter a = family (casefold tool_name)
    \<and> sd_kind (ad_wrapper a) = SK_TOOL \<and> sd_integrity (ad_wrapper a) = TRUSTED
    \<and> (\<forall>s. ad_content_source a = Some s \<longrightarrow> sd_integrity s \<noteq> TRUSTED \<and> sd_kind s \<notin> {SK_TOOL, SK_USER})
    \<and> (ad_adapter a \<in> {''execution'', ''unknown''} \<longrightarrow> ad_content_source a = None \<and> \<not> ad_assertive a)
    \<and> (ad_adapter a = ''execution'' \<longrightarrow> ad_observations a = [])
    \<and> ad_successful a = successful status_text r \<and> length (ad_observations a) \<le> 1
    \<and> (\<forall>obs. obs \<in> set (ad_observations a) \<longleftrightarrow> ad_successful a \<and> typed_fact L (casefold tool_name) args r obs)"
proof -
  let ?t = "casefold tool_name"
  obtain rt src meta where c: "content_source L (family ?t) tool_name args r = Inr (src, meta)"
    and a: "ad_wrapper a = described SK_TOOL TRUSTED tool_name [(''general'', 85 / 100), (''runtime_state'', 95 / 100)] rt"
      "ad_adapter a = family ?t" "ad_content_source a = src" "ad_successful a = successful status_text r"
      "ad_assertive a \<longleftrightarrow> family ?t \<in> set [''web'', ''file'', ''memory'', ''retrieval'', ''delegation'', ''plugin'']"
      "ad_observations a = typed_observations L ?t args r (successful status_text r)"
    using assms by (auto simp: adapt_def Let_def splits_result simp del: set_simps)
  note level = content_source_level [of L "family ?t" tool_name args r _ meta]
  have exact: "\<forall>obs. obs \<in> set (ad_observations a) \<longleftrightarrow> ad_successful a \<and> typed_fact L ?t args r obs"
    unfolding a(4,6) typed_observations_exact(1) by auto
  have "set (ad_observations a) = {}" if "family ?t = ''execution''"
  proof -
    have "\<not> typed_fact L ?t args r obs" for obs
      using execution_family [OF that] unfolding typed_fact_iff by auto
    with exact show ?thesis by auto
  qed
  then have "ad_observations a = []" if "family ?t = ''execution''" using that by simp
  moreover have "src = None" if "family ?t \<in> {''execution'', ''unknown''}"
    using level that c by (cases src) auto
  moreover have "\<not> ad_assertive a" if "family ?t \<in> {''execution'', ''unknown''}"
    using that a(5) by auto
  moreover have "sd_kind (ad_wrapper a) = SK_TOOL" "sd_integrity (ad_wrapper a) = TRUSTED"
    by (simp_all add: a(1) described_def)
  moreover have "sd_integrity s \<noteq> TRUSTED \<and> sd_kind s \<notin> {SK_TOOL, SK_USER}" if "src = Some s" for s
    using level c that by blast
  moreover have "length (ad_observations a) \<le> 1" unfolding a(6) by (rule typed_observations_exact(2))
  ultimately show ?thesis using exact unfolding a(2,3,4) by blast
qed

definition sample_library :: library where
  "sample_library =
     \<lparr>lib_urlsplit = (\<lambda>s. Inr \<lparr>up_scheme = ''https'', up_host = Some ''h'', up_port = None, up_path = [], up_query = []\<rparr>),
      lib_urlunsplit = (\<lambda>s n p q f. s @ ''://'' @ n @ p), lib_ratio = (\<lambda>l r. 0), lib_pure_path = id, lib_sha = id\<rparr>"

definition sample_stat :: "(string \<times> json) list" where
  "sample_stat = [(''path'', JStr ''/a/''), (''exists'', JBool True)]"

lemma sample_stat_facts:
  "readable (JObj sample_stat)" "family (casefold ''stat_file'') = ''file''"
  "requested_path [(''path'', JStr ''/a'')] = ''/a''" "arg_text sample_stat [''path'', ''directory''] [] = ''/a/''"
  "same_path ''/a'' ''/a/''" "dict_get sample_stat ''exists'' JNull = JBool True" "casefold ''stat_file'' = ''stat_file''"
  "''stat_file'' \<in> set STAT_TOOLS" "''stat_file'' \<notin> set ENVIRONMENT_TOOLS"
  by code_simp+

lemma ok_successful: "successful ''ok'' r"
  by (simp add: successful_def to_lower_def)

lemma file_adapts:
  "family (casefold n) = ''file'' \<Longrightarrow> \<exists>a. adapt L h n args r st c = Inr a
     \<and> ad_observations a = typed_observations L (casefold n) args r (successful st r)"
  by (simp add: adapt_def Let_def content_source_def provenance_root_def)

lemma sample_stat_adapts:
  "\<exists>a. adapt sample_library ''Host'' ''stat_file'' [(''path'', JStr ''/a'')] (print_json (JObj sample_stat)) ''ok'' [] = Inr a
     \<and> length (ad_observations a) = 1"
proof -
  have "length (typed_observations sample_library ''stat_file'' [(''path'', JStr ''/a'')] (print_json (JObj sample_stat)) True) = 1"
    unfolding typed_observations_def json_loads_print [OF sample_stat_facts(1)]
    by (simp add: Let_def sample_stat_facts(3-6,8) del: first_truthy.simps)
  with file_adapts [OF sample_stat_facts(2)] show ?thesis
    unfolding sample_stat_facts(7) by (metis ok_successful)
qed

theorem tool_content_untrusted_witness:
  "\<exists>a obs. adapt sample_library ''Host'' ''stat_file'' [(''path'', JStr ''/a'')] (print_json (JObj sample_stat)) ''ok'' [] = Inr a
     \<and> ad_observations a = [obs] \<and> sd_integrity (ad_wrapper a) = TRUSTED
     \<and> typed_fact sample_library ''stat_file'' [(''path'', JStr ''/a'')] (print_json (JObj sample_stat)) obs"
proof -
  obtain a where a: "adapt sample_library ''Host'' ''stat_file'' [(''path'', JStr ''/a'')] (print_json (JObj sample_stat)) ''ok'' [] = Inr a"
    "length (ad_observations a) = 1"
    using sample_stat_adapts by blast
  then obtain obs where "ad_observations a = [obs]" by (auto simp: length_Suc_conv)
  with tool_content_untrusted [OF a(1)] a sample_stat_facts(7) show ?thesis by auto
qed

text \<open>
  The families are told apart by parts of the name, and \<open>rag\<close> is part of many a word: a command runner of a
  storage is taken for a retriever, and what it prints is promoted as assertive content.
\<close>
theorem storage_shell_is_no_execution: "family ''storage_shell'' = ''retrieval'' \<and> family ''web_terminal'' = ''web''"
  by code_simp

end
