(* ===== verification/Claims.thy ===== *)
theory Claims
  imports Lint_Props Projections Classify
begin

text \<open>
  \<open>ingestion/claims.py\<close>: candidates for claims, cut out of a text sentence by sentence or proposed by a model,
  and the deterministic checks every candidate must pass. The main fact: a candidate cut out of a text is
  an exact excerpt of it, so that nothing but the discipline of contents can reject it.
\<close>

section \<open>Sentences that may be claims\<close>

definition VERBS :: "string list" where
  "VERBS = [''run'', ''execute'', ''delete'', ''remove'', ''ignore'', ''send'', ''publish'', ''click'', ''call'', ''use'',
     ''write'', ''create'', ''update'', ''install'', ''haz'', ''ejecuta'', ''borra'']"

definition ASSERTION :: "string list" where
  "ASSERTION = [''is'', ''are'', ''was'', ''were'', ''has'', ''have'', ''equals'', ''requires'', ''supports'', ''contains'',
     ''exists'', ''confirm'', ''authorize'', ''approve'', ''es'', ''son'', ''tiene'', ''requiere'', ''contiene'', ''existe'',
     ''confirmo'', ''autorizo'']"

text \<open>\<open>^\s*(?:please\s+)?(?:run|...)\b\<close>, ignoring case\<close>

definition verb_at :: "string \<Rightarrow> bool" where
  "verb_at s = list_ex (\<lambda>v. starts_with v (casefold s)
     \<and> (case drop (length v) s of [] \<Rightarrow> True | c # _ \<Rightarrow> \<not> is_word_char c)) VERBS"

definition instruction_shaped :: "string \<Rightarrow> bool" where
  "instruction_shaped s =
     (let t = lstrip s in
      verb_at t
      \<or> starts_with ''please'' (casefold t) \<and> (case drop 6 t of [] \<Rightarrow> False | c # cs \<Rightarrow> is_space c \<and> verb_at (lstrip cs)))"

definition assertive :: "string \<Rightarrow> bool" where
  "assertive s = list_ex (\<lambda>w. word_search w s) ASSERTION"

record claim_candidate =
  cc_content :: string
  cc_pramana :: pramana
  cc_start :: int
  cc_end :: int
  cc_excerpt :: string
  cc_qualifiers :: "(string \<times> string) list"
  cc_domain :: string
  cc_perishability :: perishability
  cc_speech_act :: string
  cc_source_identity :: string

text \<open>\<open>str.find\<close>: where a text first occurs; it does in what the program looks through.\<close>

fun find_text :: "string \<Rightarrow> string \<Rightarrow> nat" where
  "find_text sub [] = 0"
| "find_text sub (c # cs) = (if starts_with sub (c # cs) then 0 else Suc (find_text sub cs))"

definition is_full_stop :: "char \<Rightarrow> bool" where
  "is_full_stop c = (c = CHR ''.'')"

definition candidate_at :: "string \<Rightarrow> pramana \<Rightarrow> bool \<Rightarrow> nat \<times> nat \<Rightarrow> claim_candidate option" where
  "candidate_at doc p signal = (\<lambda>(a, b).
     let segment = take (b - a) (drop a doc); excerpt = strip segment in
     if excerpt = [] \<or> last excerpt = CHR ''?'' \<or> instruction_shaped excerpt then None
     else if signal \<and> \<not> assertive excerpt then None
     else let start = a + find_text excerpt segment in
       Some \<lparr>cc_content = rstrip_chars is_full_stop excerpt, cc_pramana = p, cc_start = int start,
             cc_end = int (start + length excerpt), cc_excerpt = excerpt, cc_qualifiers = [], cc_domain = ''general'',
             cc_perishability = SLOW, cc_speech_act = ''asserting'', cc_source_identity = []\<rparr>)"

definition deterministic_candidates :: "string \<Rightarrow> pramana \<Rightarrow> int \<Rightarrow> bool \<Rightarrow> claim_candidate list" where
  "deterministic_candidates doc p max_claims signal =
     (if max_claims \<le> 0 then []
      else take (nat max_claims) (List.map_filter (candidate_at doc p signal) (sentences_from 0 doc)))"

section \<open>Candidates proposed by a model\<close>

definition pramana_of :: "string \<Rightarrow> pramana result" where
  "pramana_of s =
     (case find (\<lambda>p. pramana_value p = s) [PRATYAKSHA, SHABDA, ANUMANA, ARTHAPATTI, UPAMANA, ANUPALABDHI] of
        None \<Rightarrow> Inl (ValueError ''not a valid Pramana'') | Some p \<Rightarrow> Inr p)"

definition perishability_of :: "string \<Rightarrow> perishability result" where
  "perishability_of s =
     (case find (\<lambda>p. perishability_value p = s) [STABLE, SLOW, FAST, LIVE] of
        None \<Rightarrow> Inl (ValueError ''not a valid Perishability'') | Some p \<Rightarrow> Inr p)"

text \<open>\<open>dict(v)\<close>: of an object, or of an iterable of pairs; a text of two characters is a pair.\<close>

definition pair_of :: "json \<Rightarrow> (json \<times> json) result" where
  "pair_of v = and_then (elements v) (\<lambda>xs.
     case xs of [a, b] \<Rightarrow> (if unhashable a then Inl (TypeError ''unhashable type'') else Inr (a, b))
       | _ \<Rightarrow> Inl (ValueError ''dictionary update sequence element has the wrong length''))"

definition dict_of :: "json \<Rightarrow> (json \<times> json) list result" where
  "dict_of v =
     (case v of
        JObj kvs \<Rightarrow> Inr (map (\<lambda>(k, w). (JStr k, w)) kvs)
      | _ \<Rightarrow> and_then (elements v) (\<lambda>xs. and_then (map_result pair_of xs) (\<lambda>ps. Inr (fold (\<lambda>(k, w). AList.update k w) ps []))))"

text \<open>Every failure is the same \<open>ValueError\<close>.\<close>

definition candidate_from_structured :: "(string \<times> json) list \<Rightarrow> claim_candidate result" where
  "candidate_from_structured kvs =
     (let r = and_then (dict_item kvs ''content'') (\<lambda>text0.
              and_then (dict_item kvs ''pramana'') (\<lambda>p. and_then (pramana_of (py_str p)) (\<lambda>p.
              and_then (dict_item kvs ''span_start'') (\<lambda>a. and_then (py_int a) (\<lambda>a.
              and_then (dict_item kvs ''span_end'') (\<lambda>b. and_then (py_int b) (\<lambda>b.
              and_then (dict_item kvs ''exact_excerpt'') (\<lambda>excerpt.
              and_then (dict_of (dict_get kvs ''qualifiers'' (JObj []))) (\<lambda>qs.
              and_then (perishability_of (py_str (dict_get kvs ''perishability'' (JStr ''slow'')))) (\<lambda>per.
              Inr \<lparr>cc_content = py_str text0, cc_pramana = p, cc_start = a, cc_end = b, cc_excerpt = py_str excerpt,
                   cc_qualifiers = fold (\<lambda>(k, v). AList.update (py_str k) (py_str v)) qs [],
                   cc_domain = py_str (dict_get kvs ''domain'' (JStr ''general'')), cc_perishability = per,
                   cc_speech_act = py_str (dict_get kvs ''speech_act'' (JStr ''asserting'')),
                   cc_source_identity = py_str (dict_get kvs ''source_identity'' (JStr []))\<rparr>)))))))))) in
      case r of Inr c \<Rightarrow> Inr c
        | Inl (KeyError k) \<Rightarrow> Inl (ValueError ''malformed structured claim'')
        | Inl (TypeError m) \<Rightarrow> Inl (ValueError ''malformed structured claim'')
        | Inl (ValueError m) \<Rightarrow> Inl (ValueError ''malformed structured claim'')
        | Inl e \<Rightarrow> Inl e)"

section \<open>The checks\<close>

definition SPEECH_ACTS :: "string list" where
  "SPEECH_ACTS = [''asserting'', ''quoting'', ''speculating'', ''instructing'']"

definition inside :: "claim_candidate \<Rightarrow> string \<Rightarrow> bool" where
  "inside c doc = (0 \<le> cc_start c \<and> cc_start c < cc_end c \<and> cc_end c \<le> int (length doc))"

definition cut :: "string \<Rightarrow> int \<Rightarrow> int \<Rightarrow> string" where
  "cut doc a b = take (nat (b - a)) (drop (nat a) doc)"

text \<open>The reasons against a candidate; it is accepted when there are none.\<close>

definition validate_candidate ::
  "claim_candidate \<Rightarrow> string \<Rightarrow> int \<Rightarrow> int \<Rightarrow> string \<Rightarrow> pramana list \<Rightarrow> string list" where
  "validate_candidate c doc word_limit char_limit allowed_identity allowed =
     validate_content (cc_content c) word_limit char_limit
     @ (if \<not> inside c doc then [''span is outside persisted evidence'']
        else reason_if (cut doc (cc_start c) (cc_end c) \<noteq> cc_excerpt c) ''exact excerpt does not match persisted evidence'')
     @ reason_if (normalize_content (cc_content c) \<noteq> normalize_content (cc_excerpt c))
         ''claim content is not the normalized persisted excerpt''
     @ reason_if (cc_speech_act c \<notin> set SPEECH_ACTS) ''invalid speech act''
     @ reason_if (cc_speech_act c \<noteq> ''asserting'') ''only asserted content can be promoted''
     @ reason_if (instruction_shaped (cc_content c)) ''instruction-shaped text is not a claim''
     @ reason_if (cc_pramana c \<notin> set (if allowed = [] then [SHABDA, ANUPALABDHI] else allowed))
         ''extractor may only propose content testimony or qualified absence''
     @ reason_if (cc_source_identity c \<noteq> [] \<and> allowed_identity \<noteq> [] \<and> cc_source_identity c \<noteq> allowed_identity)
         ''unsupported source identity''"

section \<open>Full stops do not matter\<close>

lemma dropWhile_before: "ys = [] \<or> \<not> p (hd ys) \<Longrightarrow> dropWhile p (xs @ ys) = dropWhile p xs @ ys"
  by (induction xs) (cases ys, auto)+

lemma collapse_before: "ys = [] \<or> \<not> is_space (hd ys) \<Longrightarrow> collapse_spaces (xs @ ys) = collapse_spaces xs @ collapse_spaces ys"
  by (induction xs rule: collapse_spaces.induct) (simp_all add: dropWhile_before)

lemma stops_no_space: "list_all is_full_stop ds \<Longrightarrow> ds = [] \<or> \<not> is_space (hd ds)"
  by (cases ds) (simp_all add: is_full_stop_def is_space_def)

lemma collapse_stops: "list_all is_full_stop ds \<Longrightarrow> collapse_spaces ds = ds"
  by (induction ds) (auto simp: is_full_stop_def is_space_def)

lemma rstrip_all: "list_all p ys \<Longrightarrow> rstrip_chars p (xs @ ys) = rstrip_chars p xs"
  by (induction ys rule: rev_induct) (simp_all add: rstrip_chars_def)

lemma collapse_blank: "c \<in> set (collapse_spaces s) \<Longrightarrow> is_space c \<Longrightarrow> c = CHR '' ''"
  by (induction s rule: collapse_spaces.induct) (auto split: if_splits)

lemma rstrip_split:
  obtains ys where "xs = rstrip_chars p xs @ ys" and "list_all p ys"
proof
  show "xs = rstrip_chars p xs @ rev (takeWhile p (rev xs))" by (simp add: rstrip_chars_prefix)
  show "list_all p (rev (takeWhile p (rev xs)))" by (auto simp: list_all_iff dest: set_takeWhileD)
qed

lemma normalize_rstrip: "normalize_content (rstrip_chars is_full_stop e) = normalize_content e"
proof -
  let ?f = "rstrip_chars is_full_stop e"
  obtain ds where e: "e = ?f @ ds" and ds: "list_all is_full_stop ds" by (rule rstrip_split)
  let ?z = "lstrip (collapse_spaces ?f)"
  have "collapse_spaces e = collapse_spaces ?f @ ds"
    using collapse_before [OF stops_no_space [OF ds]] collapse_stops [OF ds] e by metis
  then have l: "lstrip (collapse_spaces e) = ?z @ ds"
    using dropWhile_before [where p = is_space, OF stops_no_space [OF ds]] by (simp add: lstrip_def)
  have tr: "list_all trailing ds" using ds by (auto simp: list_all_iff is_full_stop_def trailing_def)
  have z: "rstrip_chars trailing (strip (collapse_spaces ?f)) = rstrip_chars trailing ?z"
  proof -
    obtain ys where y: "?z = rstrip_chars is_space ?z @ ys" "list_all is_space ys" by (rule rstrip_split)
    have "set ys \<subseteq> set (collapse_spaces ?f)"
      using y(1) by (metis Un_upper2 lstrip_def order_trans set_append set_dropWhileD subsetI)
    then have "list_all trailing ys" using y(2) collapse_blank by (fastforce simp: list_all_iff trailing_def)
    then have "rstrip_chars trailing (rstrip_chars is_space ?z @ ys) = rstrip_chars trailing (rstrip_chars is_space ?z)" by (rule rstrip_all)
    with y(1) show ?thesis by (simp add: strip_def)
  qed
  have "rstrip_chars trailing (strip (collapse_spaces e)) = rstrip_chars trailing ?z"
  proof (cases "ds = []")
    case True
    then show ?thesis using e z by simp
  next
    case False
    have "rstrip_chars is_space (?z @ ds) = ?z @ ds"
    proof (rule rstrip_chars_fixed)
      have "is_full_stop (last ds)" using False ds by (simp add: list_all_iff)
      then show "\<not> is_space (last (?z @ ds))" by (simp add: False is_full_stop_def is_space_def)
    qed
    then show ?thesis by (simp add: strip_def l rstrip_all [OF tr])
  qed
  then show ?thesis by (simp add: normalize_content_def z)
qed

lemma starts_with_append: "starts_with v xs \<Longrightarrow> starts_with v (xs @ ys) \<and> length v \<le> length xs"
  by (induction v xs rule: starts_with.induct) auto

lemma verb_at_stops: "verb_at s \<Longrightarrow> list_all is_full_stop ds \<Longrightarrow> verb_at (s @ ds)"
proof -
  assume v: "verb_at s" and ds: "list_all is_full_stop ds"
  have nonword: "\<not> is_word_char c" if "is_full_stop c" for c using that by (simp add: is_full_stop_def is_word_char_def)
  from v obtain w where w: "w \<in> set VERBS" "starts_with w (casefold s)"
    "case drop (length w) s of [] \<Rightarrow> True | c # _ \<Rightarrow> \<not> is_word_char c"
    by (auto simp: verb_at_def list_ex_iff)
  have "starts_with w (casefold s @ casefold ds)" "length w \<le> length s"
    using starts_with_append [OF w(2)] by (auto simp: casefold_def)
  moreover have "case drop (length w) s @ ds of [] \<Rightarrow> True | c # _ \<Rightarrow> \<not> is_word_char c"
    using w(3) ds nonword by (cases "drop (length w) s"; cases ds) auto
  ultimately show ?thesis using w(1) by (auto simp: verb_at_def list_ex_iff casefold_def intro!: bexI [of _ w])
qed

lemma instruction_stops: "instruction_shaped (rstrip_chars is_full_stop e) \<Longrightarrow> instruction_shaped e"
proof -
  let ?f = "rstrip_chars is_full_stop e"
  obtain ds where e: "e = ?f @ ds" and ds: "list_all is_full_stop ds" by (rule rstrip_split)
  have l: "lstrip (xs @ ds) = lstrip xs @ ds" for xs
    using dropWhile_before [where p = is_space, OF stops_no_space [OF ds]] by (simp add: lstrip_def)
  assume i: "instruction_shaped ?f"
  show ?thesis
  proof (cases "verb_at (lstrip ?f)")
    case True
    then have "verb_at (lstrip e)" using verb_at_stops [OF _ ds] l e by metis
    then show ?thesis by (simp add: instruction_shaped_def Let_def)
  next
    case False
    let ?t = "lstrip ?f"
    obtain c cs where p: "starts_with ''please'' (casefold ?t)" "drop 6 ?t = c # cs" "is_space c" "verb_at (lstrip cs)"
      using i False by (auto simp: instruction_shaped_def Let_def split: list.splits)
    have "starts_with ''please'' (casefold ?t @ casefold ds)" using starts_with_append [OF p(1)] by blast
    then have "starts_with ''please'' (casefold (?t @ ds))" by (simp add: casefold_def)
    moreover have "6 \<le> length ?t" using starts_with_append [OF p(1), of "[]"] by (simp add: casefold_def)
    then have "drop 6 (?t @ ds) = c # (cs @ ds)" by (simp add: p(2))
    moreover have "verb_at (lstrip (cs @ ds))" using verb_at_stops [OF p(4) ds] by (simp add: l)
    ultimately have "instruction_shaped (?f @ ds)" by (simp add: instruction_shaped_def Let_def l p(3))
    with e show ?thesis by simp
  qed
qed

section \<open>What a candidate of a text is\<close>

lemma strip_within: "\<exists>xs ys. s = xs @ strip s @ ys"
proof -
  have "s = takeWhile is_space s @ lstrip s" by (simp add: lstrip_def)
  moreover obtain ys where "lstrip s = strip s @ ys" by (metis rstrip_split strip_def)
  ultimately show ?thesis by metis
qed

lemma starts_with_iff: "starts_with v s \<longleftrightarrow> (\<exists>t. s = v @ t)"
  by (induction v s rule: starts_with.induct) auto

lemma find_text_found:
  "sub \<noteq> [] \<Longrightarrow> s = xs @ sub @ ys \<Longrightarrow> find_text sub s + length sub \<le> length s
     \<and> take (length sub) (drop (find_text sub s) s) = sub"
proof (induction s arbitrary: xs)
  case (Cons c s)
  show ?case
  proof (cases "starts_with sub (c # s)")
    case True
    then obtain t where "c # s = sub @ t" by (auto simp: starts_with_iff)
    moreover have "find_text sub (c # s) = 0" using True by simp
    ultimately show ?thesis by simp
  next
    case False
    then have "xs \<noteq> []" using Cons.prems by (auto simp: starts_with_iff)
    then obtain xs' where "s = xs' @ sub @ ys" using Cons.prems(2) by (cases xs) auto
    with Cons.IH Cons.prems(1) False show ?thesis by simp
  qed
qed simp

text \<open>The sentences of a text lie in it, one after the other.\<close>

lemma sentence_tail_le: "sentence_tail s = Some n \<Longrightarrow> n \<le> length s"
  by (induction s arbitrary: n rule: sentence_tail.induct) (fastforce split: if_splits)+

lemma sentence_length_le: "sentence_length s = Some n \<Longrightarrow> n \<le> length s"
  by (auto simp: sentence_length_def split: list.splits if_splits dest: sentence_tail_le)

lemma sentences_within:
  "list_all (\<lambda>(a, b). i \<le> a \<and> a \<le> b \<and> b \<le> i + length s) (sentences_from i s)
     \<and> sorted_wrt (\<lambda>p q. snd p \<le> fst q) (sentences_from i s)"
proof (induction s arbitrary: i rule: length_induct)
  case (1 s)
  then have IH: "length t < length s \<Longrightarrow> list_all (\<lambda>(a, b). j \<le> a \<and> a \<le> b \<and> b \<le> j + length t) (sentences_from j t)
      \<and> sorted_wrt (\<lambda>p q. snd p \<le> fst q) (sentences_from j t)" for t j
    by blast
  show ?case
  proof (cases s)
    case (Cons c cs)
    show ?thesis
    proof (cases "\<exists>n. sentence_length s = Some (Suc n)")
      case True
      then obtain n where n: "sentence_length s = Some (Suc n)" by blast
      have "Suc n \<le> length s" using sentence_length_le [OF n] .
      moreover have "sentences_from i s = (i, i + Suc n) # sentences_from (i + Suc n) (drop (Suc n) s)"
        using n unfolding Cons by (simp add: sentences_from.simps [of i "c # cs"])
      moreover have "length (drop (Suc n) s) < length s" by (simp add: Cons)
      ultimately show ?thesis using IH [of "drop (Suc n) s" "i + Suc n"] by (fastforce simp: list_all_iff)
    next
      case False
      then have "sentences_from i s = sentences_from (Suc i) cs"
        unfolding Cons by (auto simp: sentences_from.simps [of i "c # cs"] split: option.splits nat.splits)
      with IH [of cs "Suc i"] show ?thesis by (fastforce simp: list_all_iff Cons)
    qed
  qed (simp add: sentences_from.simps)
qed

lemma take_drop_take: "k + m \<le> n \<Longrightarrow> take m (drop k (take n xs)) = take m (drop k xs)"
  by (simp add: drop_take min_def)

lemma candidate_at_excerpt:
  assumes "candidate_at doc p signal (a, b) = Some c" and "a \<le> b" and "b \<le> length doc"
  shows "inside c doc" and "cut doc (cc_start c) (cc_end c) = cc_excerpt c" and "int a \<le> cc_start c" and "cc_end c \<le> int b"
    and "cc_content c = rstrip_chars is_full_stop (cc_excerpt c)" and "\<not> instruction_shaped (cc_excerpt c)"
    and "cc_pramana c = p" and "cc_speech_act c = ''asserting''" and "cc_source_identity c = []"
    and "last (cc_excerpt c) \<noteq> CHR ''?''" and "signal \<Longrightarrow> assertive (cc_excerpt c)"
proof -
  let ?segment = "take (b - a) (drop a doc)"
  let ?e = "strip ?segment"
  let ?k = "find_text ?e ?segment"
  have ne: "?e \<noteq> []" and c: "c = \<lparr>cc_content = rstrip_chars is_full_stop ?e, cc_pramana = p, cc_start = int (a + ?k),
      cc_end = int (a + ?k + length ?e), cc_excerpt = ?e, cc_qualifiers = [], cc_domain = ''general'',
      cc_perishability = SLOW, cc_speech_act = ''asserting'', cc_source_identity = []\<rparr>"
    and no: "\<not> instruction_shaped ?e" "last ?e \<noteq> CHR ''?''" "signal \<longrightarrow> assertive ?e"
    using assms(1) by (auto simp: candidate_at_def Let_def split: if_splits)
  obtain xs ys where "?segment = xs @ ?e @ ys" using strip_within by blast
  note found = find_text_found [OF ne this]
  have len: "length ?segment = b - a" using assms(2,3) by simp
  have "?k + length ?e \<le> b - a" using found len by simp
  from take_drop_take [OF this, of "drop a doc"]
  have "take (length ?e) (drop (a + ?k) doc) = take (length ?e) (drop ?k ?segment)" by (simp add: add.commute)
  with found have "cut doc (cc_start c) (cc_end c) = ?e" by (simp add: c cut_def nat_add_distrib)
  moreover have upto: "a + ?k + length ?e \<le> b" using found len assms(2) by linarith
  then have "inside c doc" using assms(3) ne by (simp add: inside_def c)
  moreover have "cc_end c \<le> int b" using upto by (simp add: c)
  ultimately show "inside c doc" "cut doc (cc_start c) (cc_end c) = cc_excerpt c" "int a \<le> cc_start c" "cc_end c \<le> int b"
    "cc_content c = rstrip_chars is_full_stop (cc_excerpt c)" "\<not> instruction_shaped (cc_excerpt c)"
    "cc_pramana c = p" "cc_speech_act c = ''asserting''" "cc_source_identity c = []" "last (cc_excerpt c) \<noteq> CHR ''?''"
    "signal \<Longrightarrow> assertive (cc_excerpt c)"
    using no by (simp_all add: c)
qed

lemma extractor_reasons:
  assumes "inside c doc" and "cut doc (cc_start c) (cc_end c) = cc_excerpt c"
    and "cc_content c = rstrip_chars is_full_stop (cc_excerpt c)" and "\<not> instruction_shaped (cc_excerpt c)"
    and "cc_speech_act c = ''asserting''" and "cc_source_identity c = []"
    and "cc_pramana c \<in> set (if allowed = [] then [SHABDA, ANUPALABDHI] else allowed)"
  shows "validate_candidate c doc words chars identity allowed = validate_content (cc_content c) words chars"
proof -
  have "\<not> instruction_shaped (cc_content c)" using assms(3,4) instruction_stops by metis
  moreover have "normalize_content (cc_content c) = normalize_content (cc_excerpt c)"
    by (simp add: assms(3) normalize_rstrip)
  ultimately show ?thesis
    using assms(1,2,5-7) by (simp add: validate_candidate_def reason_if_def SPEECH_ACTS_def)
qed

lemma in_map_filter: "y \<in> set (List.map_filter f xs) \<longleftrightarrow> (\<exists>x\<in>set xs. f x = Some y)"
proof (induction xs)
  case (Cons x xs)
  then show ?case by (cases "f x") (auto simp: map_filter_simps)
qed (simp add: map_filter_simps)

lemma map_filter_sorted:
  assumes "sorted_wrt R xs" and "\<And>x y. x \<in> set xs \<Longrightarrow> f x = Some y \<Longrightarrow> g x y" and "\<And>x x' y y'. R x x' \<Longrightarrow> g x y \<Longrightarrow> g x' y' \<Longrightarrow> Q y y'"
  shows "sorted_wrt Q (List.map_filter f xs)"
  using assms(1,2)
proof (induction xs)
  case (Cons x xs)
  have rest: "sorted_wrt Q (List.map_filter f xs)" using Cons by simp
  show ?case
  proof (cases "f x")
    case (Some y)
    have "Q y y'" if "y' \<in> set (List.map_filter f xs)" for y'
    proof -
      from iffD1 [OF in_map_filter that] obtain x' where x': "x' \<in> set xs" "f x' = Some y'" by (rule bexE)
      have "R x x'" using Cons.prems(1) x'(1) by simp
      moreover have "g x y" by (rule Cons.prems(2) [OF list.set_intros(1) Some])
      moreover have "g x' y'" by (rule Cons.prems(2) [OF list.set_intros(2) [OF x'(1)] x'(2)])
      ultimately show ?thesis by (rule assms(3))
    qed
    with rest Some show ?thesis by (simp add: map_filter_simps)
  qed (simp add: map_filter_simps rest)
qed (simp add: map_filter_simps)

text \<open>
  C37. A claim cut out of a text stays with what was said: there are no more candidates than allowed, in the
  order of the text and none overlapping another; each is an exact excerpt that is no question and no
  instruction; and the checks every candidate must pass reject one only for its content, as any belief would be.
\<close>
theorem candidates_are_excerpts:
  assumes "p \<in> set (if allowed = [] then [SHABDA, ANUPALABDHI] else allowed)"
    and "cs = deterministic_candidates doc p most signal"
  shows "int (length cs) \<le> max 0 most \<and> sorted_wrt (\<lambda>c d. cc_end c \<le> cc_start d) cs
    \<and> (\<forall>c\<in>set cs. inside c doc \<and> cut doc (cc_start c) (cc_end c) = cc_excerpt c \<and> last (cc_excerpt c) \<noteq> CHR ''?''
         \<and> \<not> instruction_shaped (cc_excerpt c) \<and> (signal \<longrightarrow> assertive (cc_excerpt c))
         \<and> validate_candidate c doc words chars identity allowed = validate_content (cc_content c) words chars)"
proof -
  let ?all = "List.map_filter (candidate_at doc p signal) (sentences_from 0 doc)"
  have within: "a \<le> b \<and> b \<le> length doc" if "(a, b) \<in> set (sentences_from 0 doc)" for a b
    using sentences_within [of 0 doc] that by (auto simp: list_all_iff)
  have sub: "cs = take (nat (max 0 most)) ?all"
    by (simp add: assms(2) deterministic_candidates_def max_def)
  have len: "int (length cs) \<le> max 0 most" by (simp add: sub)
  have "sorted_wrt (\<lambda>c d. cc_end c \<le> cc_start d) ?all"
  proof (rule map_filter_sorted)
    show "sorted_wrt (\<lambda>x y. snd x \<le> fst y) (sentences_from 0 doc)" using sentences_within by blast
    show "int (fst x) \<le> cc_start y \<and> cc_end y \<le> int (snd x)"
      if "x \<in> set (sentences_from 0 doc)" "candidate_at doc p signal x = Some y" for x y
      using candidate_at_excerpt(3,4) [of doc p signal "fst x" "snd x" y] within [of "fst x" "snd x"] that by simp
  qed linarith
  then have order: "sorted_wrt (\<lambda>c d. cc_end c \<le> cc_start d) cs" by (simp add: sub sorted_wrt_take)
  have each: "inside c doc \<and> cut doc (cc_start c) (cc_end c) = cc_excerpt c \<and> last (cc_excerpt c) \<noteq> CHR ''?''
         \<and> \<not> instruction_shaped (cc_excerpt c) \<and> (signal \<longrightarrow> assertive (cc_excerpt c))
         \<and> validate_candidate c doc words chars identity allowed = validate_content (cc_content c) words chars"
    if "c \<in> set cs" for c
  proof -
    have "c \<in> set ?all" by (rule in_set_takeD [OF that [unfolded sub]])
    from iffD1 [OF in_map_filter this] obtain s where s: "s \<in> set (sentences_from 0 doc)" "candidate_at doc p signal s = Some c"
      by (rule bexE)
    obtain a b where "s = (a, b)" by (rule prod.exhaust)
    with s have ab: "(a, b) \<in> set (sentences_from 0 doc)" "candidate_at doc p signal (a, b) = Some c" by simp_all
    note facts = candidate_at_excerpt [OF ab(2) conjunct1 [OF within [OF ab(1)]] conjunct2 [OF within [OF ab(1)]]]
    from extractor_reasons [OF facts(1,2,5,6,8,9)] assms(1) facts show ?thesis by blast
  qed
  from len order each show ?thesis by blast
qed

theorem candidates_are_excerpts_witness:
  "\<exists>c. deterministic_candidates ''Run x. Sky is up!'' SHABDA 5 True = [c] \<and> cc_content c = ''Sky is up!''
     \<and> cut ''Run x. Sky is up!'' (cc_start c) (cc_end c) = ''Sky is up!''
     \<and> validate_candidate c ''Run x. Sky is up!'' 10 100 [] [] = []"
proof -
  let ?t = "''Run x. Sky is up!''"
  have d: "map cc_content (deterministic_candidates ?t SHABDA 5 True) = [''Sky is up!'']"
    "map cc_excerpt (deterministic_candidates ?t SHABDA 5 True) = [''Sky is up!'']"
    "validate_content ''Sky is up!'' 10 100 = []"
    by code_simp+
  then obtain c where c: "deterministic_candidates ?t SHABDA 5 True = [c]" "cc_content c = ''Sky is up!''" "cc_excerpt c = ''Sky is up!''"
    by auto
  have "SHABDA \<in> set (if [] = [] then [SHABDA, ANUPALABDHI] else [])" by simp
  from candidates_are_excerpts [OF this c(1) [symmetric], of 10 100 "[]"] c d(3) show ?thesis by simp
qed

end
