(* ===== verification/Records.thy ===== *)
theory Records
  imports Projections
begin

text \<open>
  Records as the ledger writes and reads them: \<open>events.py: to_primitive\<close> on the records of \<open>models.py\<close>,
  and the row functions of \<open>store.py\<close>, which turn a row of the projections back into a record. The texts
  of timestamps and of floats are the parameter \<open>codec\<close>. A stored document that does not have
  the type of its field (which no record writes) raises here.
\<close>

section \<open>Writing\<close>

record codec =
  iso :: "int \<Rightarrow> string"
  read_iso :: "string \<Rightarrow> datetime result"
  float_repr :: "rat \<Rightarrow> string"

definition isoformat_utc :: "codec \<Rightarrow> datetime \<Rightarrow> string result" where
  "isoformat_utc C t =
     (case t of Aware m \<Rightarrow> Inr (iso C m) | Naive m \<Rightarrow> Inl (ValueError ''datetime must be timezone-aware''))"

definition parse_datetime :: "codec \<Rightarrow> string \<Rightarrow> datetime result" where
  "parse_datetime C s =
     and_then (read_iso C (concat (map (\<lambda>c. if c = CHR ''Z'' then ''+00:00'' else [c]) s))) (\<lambda>t.
       if tz_aware t then Inr t else Inl (ValueError ''serialized datetime is not timezone-aware''))"

abbreviation strs :: "string list \<Rightarrow> json" where
  "strs xs \<equiv> JArr (map JStr xs)"

abbreviation str_dict :: "(string \<times> string) list \<Rightarrow> json" where
  "str_dict d \<equiv> JObj (map (map_prod id JStr) d)"

definition optional :: "('a \<Rightarrow> json) \<Rightarrow> 'a option \<Rightarrow> json" where
  "optional f v = (case v of None \<Rightarrow> JNull | Some x \<Rightarrow> f x)"

definition source_json :: "codec \<Rightarrow> source \<Rightarrow> json" where
  "source_json C s = JObj
     [(''id'', JStr (src_id s)), (''episode_id'', JStr (src_episode_id s)),
      (''kind'', JStr (source_kind_value (src_kind s))), (''integrity'', JStr (integrity_value (src_integrity s))),
      (''name'', JStr (src_name s)), (''root'', JStr (src_root s)),
      (''competence'', JObj (map (map_prod id (\<lambda>q. JFloat (float_repr C q))) (src_competence s))),
      (''stats'', JObj [(''confirmed'', JInt (confirmed (src_stats s))), (''defeated'', JInt (defeated (src_stats s))),
                    (''samples'', JInt (samples (src_stats s)))])]"

definition evidence_ref_json :: "evidence_ref \<Rightarrow> json" where
  "evidence_ref_json r = JObj
     [(''evidence_id'', JStr (evidence_id r)), (''span'', optional (\<lambda>(a, b). JArr [JInt a, JInt b]) (span r))]"

definition chain_audit_json :: "chain_audit \<Rightarrow> json" where
  "chain_audit_json a = JObj
     [(''paksadharmata'', JBool (paksadharmata a)), (''sapakse_sattvam'', JBool (sapakse_sattvam a)),
      (''vipakse_asattvam'', JBool (vipakse_asattvam a)), (''evidence_ids'', strs (audit_evidence_ids a)),
      (''fallacies'', strs (fallacies a))]"

definition justification_fields :: "justification \<Rightarrow> (string \<times> json) list" where
  "justification_fields j =
     [(''id'', JStr (j_id j)), (''belief_id'', JStr (j_belief_id j)), (''premises'', strs (j_premises j)),
      (''warrant'', JStr (warrant j)), (''audit'', optional chain_audit_json (audit j)),
      (''alternatives'', strs (alternatives j))]"

definition belief_fields :: "codec \<Rightarrow> belief \<Rightarrow> (string \<times> json) list result" where
  "belief_fields C b = and_then (isoformat_utc C (observed_at b)) (\<lambda>observed. Inr
     [(''id'', JStr (b_id b)), (''episode_id'', JStr (b_episode_id b)), (''content'', JStr (content b)),
      (''normalized_content'', JStr (normalized_content b)), (''pramana'', JStr (pramana_value (b_pramana b))),
      (''source_id'', JStr (b_source_id b)), (''evidence'', JArr (map evidence_ref_json (b_evidence b))),
      (''justifications'', JArr (map (\<lambda>j. JObj (justification_fields j)) (b_justifications b))),
      (''qualifiers'', str_dict (qualifiers b)), (''perishability'', JStr (perishability_value (b_perishability b))),
      (''observed_at'', JStr observed), (''stakes'', JStr (stakes_value (b_stakes b))),
      (''status'', JStr (status_value (b_status b))),
      (''admission_status'', JStr (status_value (admission_status b))), (''domain'', JStr (domain b)),
      (''confidence'', optional (\<lambda>q. JFloat (float_repr C q)) (confidence b)),
      (''corroboration'', JInt (corroboration b)), (''validity'', JObj (validity b))])"

definition verification_task_fields :: "verification_task \<Rightarrow> (string \<times> json) list" where
  "verification_task_fields t =
     [(''id'', JStr (vt_id t)), (''episode_id'', JStr (vt_episode_id t)), (''belief_id'', JStr (vt_belief_id t)),
      (''method'', JStr (verification_method_value (vt_method t))), (''k_required'', JInt (k_required t)),
      (''budget'', JInt (budget t)), (''result'', optional JStr (vt_result t)), (''state'', JStr (vt_state t))]"

section \<open>Reading a row\<close>

text \<open>An enumeration called on a value\<close>

definition enum_of :: "('a \<Rightarrow> string) \<Rightarrow> 'a list \<Rightarrow> string \<Rightarrow> 'a result" where
  "enum_of f vs s = (case find (\<lambda>v. f v = s) vs of None \<Rightarrow> Inl (ValueError (s @ '' is not a valid member'')) | Some v \<Rightarrow> Inr v)"

abbreviation read_source_kind :: "string \<Rightarrow> source_kind result" where
  "read_source_kind \<equiv> enum_of source_kind_value [SK_TOOL, SK_RETRIEVER, SK_WEB, SK_DOCUMENT, SK_USER, SK_MODEL, SK_LEDGER]"

abbreviation read_integrity :: "string \<Rightarrow> integrity result" where
  "read_integrity \<equiv> enum_of integrity_value [UNTRUSTED, SEMI, TRUSTED]"

abbreviation read_pramana :: "string \<Rightarrow> pramana result" where
  "read_pramana \<equiv> enum_of pramana_value [PRATYAKSHA, SHABDA, ANUMANA, ARTHAPATTI, UPAMANA, ANUPALABDHI]"

abbreviation read_perishability :: "string \<Rightarrow> perishability result" where
  "read_perishability \<equiv> enum_of perishability_value [STABLE, SLOW, FAST, LIVE]"

abbreviation read_stakes :: "string \<Rightarrow> stakes result" where
  "read_stakes \<equiv> enum_of stakes_value [LOW, MED, HIGH, CRITICAL]"

abbreviation read_status :: "string \<Rightarrow> status result" where
  "read_status \<equiv> enum_of status_value [IN, OUT, PENDING, QUARANTINED]"

abbreviation read_defeat_kind :: "string \<Rightarrow> defeat_kind result" where
  "read_defeat_kind \<equiv> enum_of defeat_kind_value [REBUT, UNDERCUT]"

abbreviation read_method :: "string \<Rightarrow> verification_method result" where
  "read_method \<equiv> enum_of verification_method_value [CROSS_SOURCE, TOOL_RECHECK, CHAIN_AUDIT, HUMAN]"

abbreviation text_cell :: "row \<Rightarrow> string \<Rightarrow> string" where
  "text_cell r c \<equiv> py_str (cell r c)"

abbreviation int_cell :: "row \<Rightarrow> string \<Rightarrow> int result" where
  "int_cell r c \<equiv> py_int (cell r c)"

text \<open>\<open>json.loads(str(row[c]))\<close>, of an object, of a tuple of texts\<close>

definition json_cell :: "row \<Rightarrow> string \<Rightarrow> json result" where
  "json_cell r c = json_loads (text_cell r c)"

definition dict_of_json :: "json \<Rightarrow> (string \<times> json) list result" where
  "dict_of_json v = (case v of JObj kvs \<Rightarrow> Inr kvs | _ \<Rightarrow> Inl (AttributeError ''not a mapping''))"

definition text_of_json :: "json \<Rightarrow> string result" where
  "text_of_json v = (case v of JStr s \<Rightarrow> Inr s | _ \<Rightarrow> Inl (TypeError ''not a text''))"

definition texts_of_json :: "json \<Rightarrow> string list result" where
  "texts_of_json v = and_then (elements v) (map_result text_of_json)"

definition text_dict_of_json :: "json \<Rightarrow> (string \<times> string) list result" where
  "text_dict_of_json v = and_then (dict_of_json v)
     (map_result (\<lambda>(k, w). and_then (text_of_json w) (\<lambda>s. Inr (k, s))))"

definition finite_float :: "json \<Rightarrow> rat result" where
  "finite_float v = (case float_of v of Some (Finite q) \<Rightarrow> Inr q | _ \<Rightarrow> Inl (ValueError ''not a finite float''))"

definition span_of_json :: "json \<Rightarrow> (int \<times> int) result" where
  "span_of_json v = (case v of JArr [JInt a, JInt b] \<Rightarrow> Inr (a, b) | _ \<Rightarrow> Inl (TypeError ''not a span''))"

definition source_from_row :: "row \<Rightarrow> source result" where
  "source_from_row r =
     and_then (and_then (json_cell r ''stats_json'') dict_of_json) (\<lambda>stats.
     and_then (read_source_kind (text_cell r ''kind'')) (\<lambda>kind.
     and_then (read_integrity (text_cell r ''integrity'')) (\<lambda>level.
     and_then (and_then (json_cell r ''competence_json'') dict_of_json) (\<lambda>competence.
     and_then (map_result (\<lambda>(k, v). and_then (finite_float v) (\<lambda>q. Inr (k, q))) competence) (\<lambda>competence.
     and_then (py_int (dict_get stats ''confirmed'' (JInt 0))) (\<lambda>yes.
     and_then (py_int (dict_get stats ''defeated'' (JInt 0))) (\<lambda>no.
     and_then (py_int (dict_get stats ''samples'' (JInt 0))) (\<lambda>n. Inr
       \<lparr>src_id = text_cell r ''id'', src_episode_id = text_cell r ''episode_id'', src_kind = kind, src_integrity = level,
        src_name = text_cell r ''name'', src_root = text_cell r ''root'', src_competence = competence,
        src_stats = \<lparr>confirmed = yes, defeated = no, samples = n\<rparr>\<rparr>))))))))"

record evidence =
  e_id :: string
  e_episode_id :: string
  e_kind :: string
  e_source_id :: string
  e_payload :: "string option"
  e_content_hash :: string
  e_metadata :: json
  e_observed_at :: datetime
  e_redacted :: bool

definition text_or_none :: "row \<Rightarrow> string \<Rightarrow> string option" where
  "text_or_none r c = (if cell r c = JNull then None else Some (text_cell r c))"

definition evidence_from_row :: "codec \<Rightarrow> row \<Rightarrow> evidence result" where
  "evidence_from_row C r =
     and_then (json_cell r ''meta_json'') (\<lambda>meta.
     and_then (parse_datetime C (text_cell r ''observed_at'')) (\<lambda>observed. Inr
       \<lparr>e_id = text_cell r ''id'', e_episode_id = text_cell r ''episode_id'', e_kind = text_cell r ''kind'',
        e_source_id = text_cell r ''source_id'', e_payload = text_or_none r ''payload'',
        e_content_hash = text_cell r ''content_hash'', e_metadata = meta, e_observed_at = observed,
        e_redacted = truthy (cell r ''redacted'')\<rparr>))"

definition evidence_ref_from_row :: "row \<Rightarrow> evidence_ref result" where
  "evidence_ref_from_row r =
     and_then (if truthy (cell r ''span_json'')
               then and_then (json_cell r ''span_json'') (\<lambda>v. and_then (span_of_json v) (\<lambda>s. Inr (Some s)))
               else Inr None) (\<lambda>sp.
       Inr \<lparr>evidence_id = text_cell r ''evidence_id'', span = sp\<rparr>)"

definition audit_of_json :: "json \<Rightarrow> chain_audit result" where
  "audit_of_json v =
     and_then (object_of v) (\<lambda>kvs.
     and_then (dict_item kvs ''paksadharmata'') (\<lambda>p. and_then (dict_item kvs ''sapakse_sattvam'') (\<lambda>s.
     and_then (dict_item kvs ''vipakse_asattvam'') (\<lambda>w.
     and_then (texts_of_json (dict_get kvs ''evidence_ids'' (JArr []))) (\<lambda>ids.
     and_then (texts_of_json (dict_get kvs ''fallacies'' (JArr []))) (\<lambda>fs. Inr
       \<lparr>paksadharmata = truthy p, sapakse_sattvam = truthy s, vipakse_asattvam = truthy w,
        audit_evidence_ids = ids, fallacies = fs\<rparr>))))))"

definition justification_from_parts :: "row \<Rightarrow> string list \<Rightarrow> justification result" where
  "justification_from_parts r premises =
     and_then (if truthy (cell r ''audit_json'') then json_cell r ''audit_json'' else Inr JNull) (\<lambda>data.
     and_then (if truthy data then and_then (audit_of_json data) (\<lambda>a. Inr (Some a)) else Inr None) (\<lambda>a.
     and_then (and_then (json_cell r ''alternatives_json'') texts_of_json) (\<lambda>alts. Inr
       \<lparr>j_id = text_cell r ''id'', j_belief_id = text_cell r ''belief_id'', j_premises = premises,
        warrant = text_cell r ''warrant'', audit = a, alternatives = alts\<rparr>)))"

definition belief_from_row :: "codec \<Rightarrow> row \<Rightarrow> evidence_ref list \<Rightarrow> justification list \<Rightarrow> belief result" where
  "belief_from_row C r refs js =
     and_then (read_pramana (text_cell r ''pramana'')) (\<lambda>p.
     and_then (and_then (json_cell r ''qualifiers_json'') text_dict_of_json) (\<lambda>qs.
     and_then (read_perishability (text_cell r ''perishability'')) (\<lambda>per.
     and_then (parse_datetime C (text_cell r ''observed_at'')) (\<lambda>observed.
     and_then (read_stakes (text_cell r ''stakes'')) (\<lambda>st.
     and_then (read_status (text_cell r ''status'')) (\<lambda>now.
     and_then (read_status (text_cell r ''admission_status'')) (\<lambda>adm.
     and_then (if cell r ''confidence'' = JNull then Inr None
               else and_then (finite_float (cell r ''confidence'')) (\<lambda>q. Inr (Some q))) (\<lambda>conf.
     and_then (int_cell r ''corroboration'') (\<lambda>n.
     and_then (and_then (json_cell r ''validity_json'') dict_of_json) (\<lambda>checks.
     make_belief
       \<lparr>b_id = text_cell r ''id'', b_episode_id = text_cell r ''episode_id'', content = text_cell r ''content'',
        normalized_content = text_cell r ''normalized_content'', b_pramana = p, b_source_id = text_cell r ''source_id'',
        b_evidence = refs, b_justifications = js, qualifiers = qs, b_perishability = per, observed_at = observed,
        b_stakes = st, b_status = now, admission_status = adm, domain = text_cell r ''domain'', confidence = conf,
        corroboration = n, validity = checks\<rparr>))))))))))"

definition verification_from_row :: "row \<Rightarrow> verification_task result" where
  "verification_from_row r =
     and_then (read_method (text_cell r ''method'')) (\<lambda>m.
     and_then (int_cell r ''k_required'') (\<lambda>k. and_then (int_cell r ''budget'') (\<lambda>n. Inr
       \<lparr>vt_id = text_cell r ''id'', vt_episode_id = text_cell r ''episode_id'', vt_belief_id = text_cell r ''belief_id'',
        vt_method = m, k_required = k, budget = n, vt_result = text_or_none r ''result'',
        vt_state = text_cell r ''state''\<rparr>)))"

end
