(* ===== verification/Queries.thy ===== *)
theory Queries
  imports Context Records
begin

text \<open>
  The read queries of \<open>store.py\<close> over the projections. A SELECT is a filter of the rows of its table, in
  the order its ORDER BY gives (the order of the table where the program leaves it to SQLite). The relations
  of several beliefs are read in batches of 900 identifiers, as the program does to stay below the limit on
  the parameters of a statement.
\<close>

section \<open>Statements\<close>

text \<open>The order of a TEXT column: NULL comes first.\<close>

definition order_text :: "json \<Rightarrow> string" where
  "order_text v = (case v of JStr s \<Rightarrow> s | _ \<Rightarrow> [])"

definition order_by :: "string list \<Rightarrow> row \<Rightarrow> string list" where
  "order_by cs r = map (\<lambda>c. order_text (cell r c)) cs"

definition order_int :: "string \<Rightarrow> row \<Rightarrow> int" where
  "order_int c r = (case cell r c of JInt i \<Rightarrow> i | _ \<Rightarrow> 0)"

definition select :: "string \<Rightarrow> (row \<Rightarrow> bool) \<Rightarrow> string list \<Rightarrow> db \<Rightarrow> row list" where
  "select t p cs d = sort_key (order_by cs) (filter p (d t))"

definition where_text :: "string \<Rightarrow> string \<Rightarrow> row \<Rightarrow> bool" where
  "where_text c v r = (cell r c = JStr v)"

definition where_in :: "string \<Rightarrow> string list \<Rightarrow> row \<Rightarrow> bool" where
  "where_in c vs r = (cell r c \<in> JStr ` set vs)"

text \<open>\<open>_chunks\<close>\<close>

function chunks :: "nat \<Rightarrow> 'a list \<Rightarrow> 'a list list" where
  "chunks n xs = (if xs = [] then [] else take (Suc n) xs # chunks n (drop (Suc n) xs))"
  by pat_completeness auto
termination by (relation "measure (length \<circ> snd)") auto

declare chunks.simps [simp del]

abbreviation CHUNK :: nat where
  "CHUNK \<equiv> 899"

text \<open>\<open>sorted({str(i) for i in ids if str(i)})\<close>\<close>

definition distinct_ids :: "string list \<Rightarrow> string list" where
  "distinct_ids ids = sort (remdups (filter (\<lambda>i. i \<noteq> []) ids))"

definition get_one :: "string \<Rightarrow> (row \<Rightarrow> 'a result) \<Rightarrow> string \<Rightarrow> db \<Rightarrow> 'a option result" where
  "get_one t f i d =
     (case sql_first t (where_text ''id'' i) d of
        None \<Rightarrow> Inr None | Some r \<Rightarrow> and_then (f r) (\<lambda>x. Inr (Some x)))"

text \<open>The rows of a table with one of the identifiers, batch by batch.\<close>

definition rows_by_id :: "string \<Rightarrow> string list \<Rightarrow> db \<Rightarrow> row list" where
  "rows_by_id t ids d = concat (map (\<lambda>c. filter (where_in ''id'' c) (d t)) (chunks CHUNK (distinct_ids ids)))"

definition keyed :: "('a \<Rightarrow> string) \<Rightarrow> 'a list \<Rightarrow> (string \<times> 'a) list" where
  "keyed key xs = fold (\<lambda>x. AList.update (key x) x) xs []"

section \<open>Sources and evidence\<close>

definition get_source :: "string \<Rightarrow> db \<Rightarrow> source option result" where
  "get_source = get_one ''sources'' source_from_row"

definition get_sources :: "string list \<Rightarrow> db \<Rightarrow> (string \<times> source) list result" where
  "get_sources ids d = and_then (map_result source_from_row (rows_by_id ''sources'' ids d)) (\<lambda>ss. Inr (keyed src_id ss))"

definition find_source :: "string \<Rightarrow> string \<Rightarrow> source_kind \<Rightarrow> db \<Rightarrow> source option result" where
  "find_source ep rt kind d =
     (case sql_first ''sources'' (\<lambda>r. where_text ''episode_id'' ep r \<and> where_text ''root'' rt r
             \<and> where_text ''kind'' (source_kind_value kind) r) d of
        None \<Rightarrow> Inr None | Some r \<Rightarrow> and_then (source_from_row r) (\<lambda>s. Inr (Some s)))"

definition list_sources :: "string \<Rightarrow> db \<Rightarrow> source list result" where
  "list_sources ep d = map_result source_from_row (select ''sources'' (where_text ''episode_id'' ep) [''id''] d)"

definition get_evidence :: "codec \<Rightarrow> string \<Rightarrow> db \<Rightarrow> evidence option result" where
  "get_evidence C = get_one ''evidence'' (evidence_from_row C)"

definition get_evidence_many :: "codec \<Rightarrow> string list \<Rightarrow> db \<Rightarrow> (string \<times> evidence) list result" where
  "get_evidence_many C ids d =
     and_then (map_result (evidence_from_row C) (rows_by_id ''evidence'' ids d)) (\<lambda>es. Inr (keyed e_id es))"

section \<open>Beliefs with their relations\<close>

text \<open>\<open>d[k].append(v)\<close>\<close>

definition append_at :: "string \<Rightarrow> 'a \<Rightarrow> (string \<times> 'a list) list \<Rightarrow> (string \<times> 'a list) list result" where
  "append_at k v m = and_then (dict_item m k) (\<lambda>vs. Inr (AList.update k (vs @ [v]) m))"

definition with_keys :: "string list \<Rightarrow> (string \<times> 'a list) list" where
  "with_keys ks = fold (\<lambda>k. AList.update k []) ks []"

definition read_evidence_refs :: "db \<Rightarrow> string list \<Rightarrow> (string \<times> evidence_ref list) list \<Rightarrow> (string \<times> evidence_ref list) list result" where
  "read_evidence_refs d ids =
     fold_result (\<lambda>r m. and_then (evidence_ref_from_row r) (\<lambda>ref. append_at (text_cell r ''belief_id'') ref m))
       (select ''belief_evidence'' (where_in ''belief_id'' ids) [''belief_id'', ''evidence_id'', ''span_json''] d)"

text \<open>\<open>ORDER BY justification_id, ordinal\<close>\<close>

definition premise_rows :: "db \<Rightarrow> string list \<Rightarrow> row list" where
  "premise_rows d ids = sort_key (order_by [''justification_id''])
     (sort_key (order_int ''ordinal'') (filter (where_in ''justification_id'' ids) (d ''justification_premises'')))"

definition read_premises :: "db \<Rightarrow> string list \<Rightarrow> (string \<times> string list) list \<Rightarrow> (string \<times> string list) list result" where
  "read_premises d ids =
     fold_result (\<lambda>r. append_at (text_cell r ''justification_id'') (text_cell r ''premise_belief_id'')) (premise_rows d ids)"

definition premises_of :: "db \<Rightarrow> row list \<Rightarrow> (string \<times> string list) list result" where
  "premises_of d js =
     (let m = with_keys (map (\<lambda>r. text_cell r ''id'') js)
      in fold_result (read_premises d) (chunks CHUNK (map fst m)) m)"

definition read_justification :: "(string \<times> string list) list \<Rightarrow> row \<Rightarrow> justification result" where
  "read_justification premises r =
     and_then (dict_item premises (text_cell r ''id'')) (justification_from_parts r)"

definition hydrate_justifications :: "db \<Rightarrow> row list \<Rightarrow> justification list result" where
  "hydrate_justifications d js =
     (if js = [] then Inr [] else and_then (premises_of d js) (\<lambda>m. map_result (read_justification m) js))"

definition belief_with :: "codec \<Rightarrow> (string \<times> evidence_ref list) list \<Rightarrow> (string \<times> justification list) list \<Rightarrow> row \<Rightarrow> belief result" where
  "belief_with C refs js r =
     and_then (dict_item refs (text_cell r ''id'')) (\<lambda>es.
     and_then (dict_item js (text_cell r ''id'')) (belief_from_row C r es))"

definition hydrate_beliefs :: "codec \<Rightarrow> db \<Rightarrow> row list \<Rightarrow> belief list result" where
  "hydrate_beliefs C d rs =
     (if rs = [] then Inr []
      else let ids = map (\<lambda>r. text_cell r ''id'') rs in
        and_then (fold_result (read_evidence_refs d) (chunks CHUNK ids) (with_keys ids)) (\<lambda>refs.
        let js = concat (map (\<lambda>c. select ''justifications'' (where_in ''belief_id'' c) [''belief_id'', ''id''] d) (chunks CHUNK ids)) in
        and_then (premises_of d js) (\<lambda>m.
        and_then (fold_result (\<lambda>r acc. and_then (read_justification m r) (\<lambda>j. append_at (j_belief_id j) j acc)) js (with_keys ids)) (\<lambda>per_belief.
        map_result (belief_with C refs per_belief) rs))))"

definition get_belief :: "codec \<Rightarrow> string \<Rightarrow> db \<Rightarrow> belief option result" where
  "get_belief C i d =
     (case sql_first ''beliefs'' (where_text ''id'' i) d of
        None \<Rightarrow> Inr None
      | Some r \<Rightarrow> and_then (hydrate_beliefs C d [r]) (\<lambda>bs. Inr (Some (hd bs))))"

definition get_beliefs :: "codec \<Rightarrow> string list \<Rightarrow> db \<Rightarrow> (string \<times> belief) list result" where
  "get_beliefs C ids d = and_then (hydrate_beliefs C d (rows_by_id ''beliefs'' ids d)) (\<lambda>bs. Inr (keyed b_id bs))"

definition list_beliefs :: "codec \<Rightarrow> string \<Rightarrow> status list \<Rightarrow> pramana list \<Rightarrow> int option \<Rightarrow> db \<Rightarrow> belief list result" where
  "list_beliefs C ep statuses pramanas limit d =
     (let rs = select ''beliefs'' (\<lambda>r. where_text ''episode_id'' ep r
              \<and> (statuses = [] \<or> where_in ''status'' (map status_value statuses) r)
              \<and> (pramanas = [] \<or> where_in ''pramana'' (map pramana_value pramanas) r)) [''observed_at'', ''id''] d
      in hydrate_beliefs C d (case limit of None \<Rightarrow> rs | Some n \<Rightarrow> take (nat (max 1 (min n 20000))) rs))"

definition find_exact_beliefs :: "codec \<Rightarrow> string \<Rightarrow> string \<Rightarrow> db \<Rightarrow> belief list result" where
  "find_exact_beliefs C ep normalized d =
     hydrate_beliefs C d (select ''beliefs'' (\<lambda>r. where_text ''episode_id'' ep r \<and> where_text ''normalized_content'' normalized r) [''id''] d)"

definition list_justifications :: "string \<Rightarrow> db \<Rightarrow> justification list result" where
  "list_justifications ep d = hydrate_justifications d (select ''justifications'' (where_text ''episode_id'' ep) [''id''] d)"

section \<open>Supports, defeats, tasks, conflicts, retractions\<close>

definition support_from_row :: "row \<Rightarrow> ingestion_support result" where
  "support_from_row r =
     and_then (and_then (json_cell r ''validity_json'') dict_of_json) (\<lambda>checks. Inr
       \<lparr>is_id = text_cell r ''id'', is_episode_id = text_cell r ''episode_id'', is_belief_id = text_cell r ''belief_id'',
        is_evidence_id = text_cell r ''evidence_id'', is_validity = checks, is_active = truthy (cell r ''active'')\<rparr>)"

definition list_supports :: "string \<Rightarrow> db \<Rightarrow> ingestion_support list result" where
  "list_supports ep d = map_result support_from_row (select ''ingestion_supports'' (where_text ''episode_id'' ep) [''id''] d)"

definition defeat_from_row :: "row \<Rightarrow> defeat_edge result" where
  "defeat_from_row r =
     and_then (read_defeat_kind (text_cell r ''kind'')) (\<lambda>kind. Inr
       \<lparr>d_id = text_cell r ''id'', d_episode_id = text_cell r ''episode_id'', attacker = text_cell r ''attacker'',
        target = text_cell r ''target'', d_kind = kind, basis = text_cell r ''basis'', d_active = truthy (cell r ''active'')\<rparr>)"

definition list_defeats :: "string \<Rightarrow> db \<Rightarrow> defeat_edge list result" where
  "list_defeats ep d = map_result defeat_from_row (select ''defeats'' (where_text ''episode_id'' ep) [''id''] d)"

text \<open>\<open>WHERE episode_id=? [AND state=?]\<close>: an empty state is no condition.\<close>

definition in_state :: "string \<Rightarrow> string \<Rightarrow> row \<Rightarrow> bool" where
  "in_state ep st r = (where_text ''episode_id'' ep r \<and> (st = [] \<or> where_text ''state'' st r))"

definition list_verification_tasks :: "string \<Rightarrow> string \<Rightarrow> db \<Rightarrow> verification_task list result" where
  "list_verification_tasks ep st d =
     map_result verification_from_row (select ''verification_tasks'' (in_state ep st) [''id''] d)"

definition get_verification_task :: "string \<Rightarrow> db \<Rightarrow> verification_task option result" where
  "get_verification_task = get_one ''verification_tasks'' verification_from_row"

definition conflict_from_row :: "row \<Rightarrow> conflict result" where
  "conflict_from_row r =
     and_then (and_then (json_cell r ''normalized_scope_json'') text_dict_of_json) (\<lambda>scope. Inr
       \<lparr>cf_id = text_cell r ''id'', cf_episode_id = text_cell r ''episode_id'', left_belief_id = text_cell r ''left_belief_id'',
        right_belief_id = text_cell r ''right_belief_id'', normalized_scope = scope,
        verification_task_id = text_cell r ''verification_task_id'', cf_state = text_cell r ''state''\<rparr>)"

definition list_conflicts :: "string \<Rightarrow> string \<Rightarrow> db \<Rightarrow> conflict list result" where
  "list_conflicts ep st d = map_result conflict_from_row (select ''conflicts'' (in_state ep st) [''id''] d)"

definition retraction_from_row :: "row \<Rightarrow> retraction_notice result" where
  "retraction_from_row r =
     and_then (and_then (json_cell r ''descendants_json'') texts_of_json) (\<lambda>ds.
     and_then (int_cell r ''created_turn'') (\<lambda>turn. and_then (int_cell r ''ttl_turns'') (\<lambda>ttl. Inr
       \<lparr>rn_id = text_cell r ''id'', rn_episode_id = text_cell r ''episode_id'', rn_defeated_belief_id = text_cell r ''defeated_belief_id'',
        rn_cause = text_cell r ''cause'', rn_descendants = ds, rn_created_turn = turn, rn_ttl_turns = ttl, rn_state = text_cell r ''state''\<rparr>)))"

text \<open>\<open>ORDER BY created_turn, id\<close>\<close>

definition list_retractions :: "string \<Rightarrow> string \<Rightarrow> db \<Rightarrow> retraction_notice list result" where
  "list_retractions ep st d =
     map_result retraction_from_row (sort_key (order_int ''created_turn'') (select ''retraction_notices'' (in_state ep st) [''id''] d))"

section \<open>Rendered beliefs, evidence that was not promoted, the last response\<close>

definition was_rendered :: "string \<Rightarrow> string \<Rightarrow> db \<Rightarrow> bool" where
  "was_rendered ep i d = list_ex (\<lambda>r. where_text ''episode_id'' ep r \<and> where_text ''belief_id'' i r) (d ''rendered_beliefs'')"

definition rendered_belief_ids :: "string \<Rightarrow> string list \<Rightarrow> db \<Rightarrow> string set" where
  "rendered_belief_ids ep ids d = set (concat (map (\<lambda>c.
     map (\<lambda>r. text_cell r ''belief_id'') (filter (\<lambda>r. where_text ''episode_id'' ep r \<and> where_in ''belief_id'' c r) (d ''rendered_beliefs'')))
     (chunks CHUNK (distinct_ids ids))))"

definition list_unpromoted :: "string \<Rightarrow> int \<Rightarrow> db \<Rightarrow> (string \<times> string) list list" where
  "list_unpromoted ep limit d =
     map (\<lambda>r. map (\<lambda>c. (c, text_cell r c)) [''evidence_id'', ''source_profile'', ''state'', ''reason''])
       (take (nat (max 1 (min limit 1000))) (select ''unpromoted_evidence'' (in_state ep ''open'') [''evidence_id''] d))"

definition is_unpromoted :: "string \<Rightarrow> string \<Rightarrow> db \<Rightarrow> bool" where
  "is_unpromoted ep i d = list_ex (\<lambda>r. in_state ep ''open'' r \<and> where_text ''evidence_id'' i r) (d ''unpromoted_evidence'')"

text \<open>\<open>ORDER BY rowid DESC LIMIT 1\<close>: rows keep the order in which they were inserted.\<close>

definition latest_assistant_response :: "string \<Rightarrow> db \<Rightarrow> string option" where
  "latest_assistant_response ep d =
     map_option (\<lambda>r. text_cell r ''content'') (find (where_text ''episode_id'' ep) (rev (d ''assistant_responses'')))"

definition component_verdict_input_hashes :: "string \<Rightarrow> string \<Rightarrow> db \<Rightarrow> string set" where
  "component_verdict_input_hashes ep component d = set (map (\<lambda>r. text_cell r ''input_hash'')
     (filter (\<lambda>r. where_text ''episode_id'' ep r \<and> where_text ''component'' component r) (d ''component_verdicts'')))"

end
