(* ===== verification/Query_Props.thy ===== *)
theory Query_Props
  imports Queries
begin

text \<open>
  What the read queries give. Reading the relations of many beliefs in batches is reading each belief
  alone; a belief that was admitted is read back as it was written.
\<close>

section \<open>Batches\<close>

lemma concat_chunks: "concat (chunks n xs) = xs"
  by (induction n xs rule: chunks.induct) (subst chunks.simps, simp)

lemma fold_result_concat: "fold_result (\<lambda>c. fold_result f (g c)) cs s = fold_result f (concat (map g cs)) s"
  by (induction cs arbitrary: s) (auto simp: fold_result_append intro!: and_then_cong)

lemma append_at_known:
  "k \<in> fst ` set m \<Longrightarrow> distinct (map fst m) \<Longrightarrow>
     append_at k v m = Inr (map (\<lambda>(k', vs). (k', if k' = k then vs @ [v] else vs)) m)"
proof -
  assume k: "k \<in> fst ` set m" and d: "distinct (map fst m)"
  then obtain vs where vs: "map_of m k = Some vs" using weak_map_of_SomeI [of k] by (metis eq_fst_iff imageE map_of_SomeD not_Some_eq map_of_eq_None_iff)
  have "AList.update k (vs @ [v]) m = map (\<lambda>(k', ws). (k', if k' = k then ws @ [v] else ws)) m"
    using d vs
  proof (induction m)
    case (Cons p m)
    obtain k' ws where p: "p = (k', ws)" by fastforce
    show ?case
    proof (cases "k' = k")
      case True
      then have "map (\<lambda>(k', ws). (k', if k' = k then ws @ [v] else ws)) m = m"
        using Cons.prems(1) p by (intro map_idI) force
      then show ?thesis using True Cons.prems(2) by (simp add: p)
    next
      case False
      then show ?thesis using Cons by (simp add: p)
    qed
  qed simp
  then show ?thesis by (simp add: append_at_def dict_item_def vs)
qed

text \<open>The closed form of appending the values of rows under their keys.\<close>

definition grouped :: "('r \<Rightarrow> string) \<Rightarrow> ('r \<Rightarrow> 'a) \<Rightarrow> 'r list \<Rightarrow> (string \<times> 'a list) list \<Rightarrow> (string \<times> 'a list) list" where
  "grouped key v rs m = map (\<lambda>(k, vs). (k, vs @ map v (filter (\<lambda>r. key r = k) rs))) m"

lemma grouped_keys: "map fst (grouped key v rs m) = map fst m"
  by (induction m) (auto simp: grouped_def)

lemma fold_append:
  assumes "distinct (map fst m)" and "\<forall>r\<in>set rs. key r \<in> fst ` set m" and "\<forall>r\<in>set rs. val r = Inr (v r)"
  shows "fold_result (\<lambda>r m. and_then (val r) (\<lambda>x. append_at (key r) x m)) rs m = Inr (grouped key v rs m)"
  using assms
proof (induction rs arbitrary: m)
  case Nil
  have "grouped key v [] m = m" unfolding grouped_def by (intro map_idI) auto
  then show ?case by simp
next
  case (Cons r rs)
  let ?m = "map (\<lambda>(k', vs). (k', if k' = key r then vs @ [v r] else vs)) m"
  have keys: "map fst ?m = map fst m" by (simp add: case_prod_beta comp_def)
  then have dom: "fst ` set ?m = fst ` set m" by (metis list.set_map)
  have "fold_result (\<lambda>r m. and_then (val r) (\<lambda>x. append_at (key r) x m)) rs ?m = Inr (grouped key v rs ?m)"
  proof (rule Cons.IH)
    show "distinct (map fst ?m)" using Cons.prems(1) keys by argo
    show "\<forall>r\<in>set rs. key r \<in> fst ` set ?m" using Cons.prems(2) unfolding dom by simp
    show "\<forall>r\<in>set rs. val r = Inr (v r)" using Cons.prems(3) by simp
  qed
  moreover have "grouped key v rs ?m = grouped key v (r # rs) m"
    by (auto simp: grouped_def)
  ultimately show ?case using Cons.prems by (simp add: append_at_known)
qed

lemma fold_append_fails:
  assumes "r \<in> set rs" and "val r = Inl e"
  shows "\<exists>e. fold_result (\<lambda>r m. and_then (val r) (\<lambda>x. f r x m)) rs m = Inl e"
  using assms(1)
proof (induction rs arbitrary: m)
  case (Cons r' rs)
  show ?case
  proof (cases "r' = r")
    case False
    with Cons have IH: "\<exists>e. fold_result (\<lambda>r m. and_then (val r) (\<lambda>x. f r x m)) rs m = Inl e" for m by simp
    show ?thesis
      by (cases "val r'"; cases "and_then (val r') (\<lambda>x. f r' x m)") (auto simp: IH)
  qed (simp add: assms(2))
qed simp

text \<open>The rows of one identifier among the rows of all batches.\<close>

lemma batched_rows:
  assumes "distinct (concat cs)" and S: "\<And>P xs. filter P (S xs) = S (filter P xs)"
  shows "filter (\<lambda>r. text_cell r c = k) (concat (map (\<lambda>ids. S (filter (where_in c ids) rs)) cs))
    = (if k \<in> set (concat cs) then S (filter (where_text c k) rs) else [])"
  using assms(1)
proof (induction cs)
  case (Cons ids cs)
  have none: "S [] = []" using S [of "\<lambda>_. False" "[]"] by simp
  have "filter (\<lambda>r. text_cell r c = k) (S (filter (where_in c ids) rs)) = (if k \<in> set ids then S (filter (where_text c k) rs) else [])"
  proof (cases "k \<in> set ids")
    case True
    then have "filter (\<lambda>r. where_in c ids r \<and> text_cell r c = k) rs = filter (where_text c k) rs"
      by (intro filter_cong) (auto simp: where_in_def where_text_def)
    with True show ?thesis by (simp add: S)
  next
    case False
    then have "filter (\<lambda>r. where_in c ids r \<and> text_cell r c = k) rs = []"
      by (auto simp: where_in_def filter_empty_conv)
    with False none show ?thesis by (simp add: S)
  qed
  with Cons show ?case by auto
qed simp

lemma where_in_append: "where_in c (xs @ ys) r \<longleftrightarrow> where_in c xs r \<or> where_in c ys r"
  by (auto simp: where_in_def)

lemma batched_set:
  assumes "\<And>P xs. filter P (S xs) = S (filter P xs)" and "\<And>xs. set (S xs) = set xs"
  shows "set (concat (map (\<lambda>ids. S (filter (where_in c ids) rs)) cs)) = {r \<in> set rs. where_in c (concat cs) r}"
  by (induction cs) (auto simp: assms(2) where_in_append, auto simp: where_in_def)

section \<open>Reading one belief\<close>

text \<open>What is read of one belief, with no batches: the specification.\<close>

definition premises_alone :: "db \<Rightarrow> string \<Rightarrow> string list" where
  "premises_alone d j = map (\<lambda>r. text_cell r ''premise_belief_id'')
     (sort_key (order_by [''justification_id'']) (sort_key (order_int ''ordinal'')
       (filter (where_text ''justification_id'' j) (d ''justification_premises''))))"

definition justification_alone :: "db \<Rightarrow> row \<Rightarrow> justification result" where
  "justification_alone d r = justification_from_parts r (premises_alone d (text_cell r ''id''))"

definition read_belief :: "codec \<Rightarrow> db \<Rightarrow> row \<Rightarrow> belief result" where
  "read_belief C d r =
     (let i = text_cell r ''id'' in
      and_then (map_result evidence_ref_from_row
        (select ''belief_evidence'' (where_text ''belief_id'' i) [''belief_id'', ''evidence_id'', ''span_json''] d)) (\<lambda>es.
      and_then (map_result (justification_alone d)
        (select ''justifications'' (where_text ''belief_id'' i) [''belief_id'', ''id''] d))
      (belief_from_row C r es)))"

lemma with_keys_facts:
  fixes m :: "(string \<times> 'a list) list"
  assumes "m = with_keys ks"
  shows "distinct (map fst m)" and "fst ` set m = set ks" and "\<forall>k\<in>set ks. map_of m k = Some []"
proof -
  have "distinct (map fst m) \<Longrightarrow> \<forall>k\<in>fst ` set m. map_of m k = Some [] \<Longrightarrow>
      distinct (map fst (fold (\<lambda>k. AList.update k []) ks m))
      \<and> fst ` set (fold (\<lambda>k. AList.update k []) ks m) = set ks \<union> fst ` set m
      \<and> (\<forall>k\<in>set ks \<union> fst ` set m. map_of (fold (\<lambda>k. AList.update k []) ks m) k = Some [])" for m :: "(string \<times> 'a list) list"
  proof (induction ks arbitrary: m)
    case (Cons k ks)
    have d: "distinct (map fst (AList.update k [] m))" using Cons.prems(1) by (simp add: distinct_update)
    have e: "\<forall>k'\<in>fst ` set (AList.update k [] m). map_of (AList.update k [] m) k' = Some []"
      using Cons.prems(2) by (auto simp: dom_update update_conv')
    have A: "set ks \<union> fst ` set (AList.update k [] m) = set (k # ks) \<union> fst ` set m" by (auto simp: dom_update)
    show ?case unfolding fold.simps comp_apply by (rule Cons.IH [OF d e, unfolded A])
  qed auto
  from this [of "[]"] show "distinct (map fst m)" "fst ` set m = set ks" "\<forall>k\<in>set ks. map_of m k = Some []"
    by (simp_all add: with_keys_def assms)
qed

lemma with_keys_get: "k \<in> set ks \<Longrightarrow> map_of (with_keys ks) k = Some []"
  using with_keys_facts(3) [OF refl] by blast

lemma grouped_get: "map_of (grouped key v rs m) k = map_option (\<lambda>vs. vs @ map v (filter (\<lambda>r. key r = k) rs)) (map_of m k)"
  by (induction m) (auto simp: grouped_def)

lemma sorted_filter: "filter P (sort_key f xs) = sort_key f (filter P xs)"
  by (rule filter_sort)

lemma premises_read:
  "\<exists>m. premises_of d js = Inr m \<and> (\<forall>r\<in>set js. dict_item m (text_cell r ''id'') = Inr (premises_alone d (text_cell r ''id'')))"
proof -
  let ?m = "with_keys (map (\<lambda>r. text_cell r ''id'') js) :: (string \<times> string list) list"
  let ?S = "\<lambda>xs. sort_key (order_by [''justification_id'']) (sort_key (order_int ''ordinal'') xs)"
  let ?rows = "concat (map (premise_rows d) (chunks CHUNK (map fst ?m)))"
  let ?key = "\<lambda>r. text_cell r ''justification_id''" and ?v = "\<lambda>r. text_cell r ''premise_belief_id''"
  note keys = with_keys_facts [of ?m, OF refl]
  have S: "filter P (?S xs) = ?S (filter P xs)" for P xs by (simp add: sorted_filter)
  have S': "set (?S xs) = set xs" for xs by simp
  have rows: "?rows = concat (map (\<lambda>ids. ?S (filter (where_in ''justification_id'' ids) (d ''justification_premises''))) (chunks CHUNK (map fst ?m)))"
    by (simp add: premise_rows_def [abs_def])
  have "\<forall>r\<in>set ?rows. ?key r \<in> fst ` set ?m"
    unfolding rows batched_set [of ?S, OF S S'] concat_chunks by (auto simp: where_in_def intro: rev_image_eqI)
  then have "premises_of d js = Inr (grouped ?key ?v ?rows ?m)"
    using fold_append [of ?m ?rows ?key "\<lambda>r. Inr (?v r)" ?v] keys(1)
    by (simp add: premises_of_def Let_def read_premises_def [abs_def] fold_result_concat)
  moreover have "map_of (grouped ?key ?v ?rows ?m) k = Some (premises_alone d k)" if "k \<in> set (map (\<lambda>r. text_cell r ''id'') js)" for k
  proof -
    have "k \<in> set (map fst ?m)" using that keys by simp
    then have "filter (\<lambda>r. ?key r = k) ?rows = ?S (filter (where_text ''justification_id'' k) (d ''justification_premises''))"
      unfolding rows using batched_rows [OF _ S, of "chunks CHUNK (map fst ?m)" "''justification_id''" k] keys(1)
      by (simp add: concat_chunks)
    moreover have "map_of ?m k = Some []" using keys(3) that by blast
    ultimately show ?thesis by (simp add: grouped_get premises_alone_def)
  qed
  ultimately show ?thesis by (auto simp: dict_item_def)
qed

definition related :: "db \<Rightarrow> string \<Rightarrow> string list \<Rightarrow> string list \<Rightarrow> row list" where
  "related d t cs ids = concat (map (\<lambda>c. select t (where_in ''belief_id'' c) cs d) (chunks CHUNK ids))"

lemma related_of:
  assumes "distinct ids" and "i \<in> set ids"
  shows "filter (\<lambda>r. text_cell r ''belief_id'' = i) (related d t cs ids) = select t (where_text ''belief_id'' i) cs d"
  using batched_rows [of "chunks CHUNK ids" "sort_key (order_by cs)" "''belief_id''" i "d t"] assms
  by (simp add: related_def select_def [abs_def] sorted_filter concat_chunks)

lemma related_set: "set (related d t cs ids) = {r \<in> set (d t). where_in ''belief_id'' ids r}"
  using batched_set [of "sort_key (order_by cs)" "''belief_id''" "d t" "chunks CHUNK ids"]
  by (simp add: related_def select_def [abs_def] sorted_filter concat_chunks)

lemma in_select: "r \<in> set (select t p cs d) \<longleftrightarrow> r \<in> set (d t) \<and> p r"
  by (simp add: select_def)

lemma justification_belief: "justification_from_parts r ps = Inr j \<Longrightarrow> j_belief_id j = text_cell r ''belief_id''"
  by (auto simp: justification_from_parts_def splits_result)

lemma map_result_fails:
  assumes "x \<in> set xs" and "f x = Inl e"
  shows "\<exists>e. map_result f xs = Inl e"
proof (cases "map_result f xs")
  case (Inr ys)
  then have "\<exists>y. f x = Inr y"
    using assms(1) by (auto simp: map_result_list_all2 list_all2_conv_all_nth in_set_conv_nth)
  with assms(2) show ?thesis by simp
qed blast

lemma map_result_all: "\<forall>x\<in>set xs. f x = Inr (g x) \<Longrightarrow> map_result f xs = Inr (map g xs)"
  by (induction xs) auto

lemma map_result_cong: "(\<And>x. x \<in> set xs \<Longrightarrow> f x = g x) \<Longrightarrow> map_result f xs = map_result g xs"
  by (induction xs) auto

lemma fold_result_cong: "(\<And>x s. x \<in> set xs \<Longrightarrow> f x s = g x s) \<Longrightarrow> fold_result f xs s = fold_result g xs s"
  by (induction xs arbitrary: s) (auto intro!: and_then_cong)

lemma succeeds: "f x = Inr (projr (f x)) \<longleftrightarrow> (\<nexists>e. f x = Inl e)" for f :: "'x \<Rightarrow> 'e + 'y"
  by (cases "f x") auto

definition evidence_rows :: "db \<Rightarrow> string list \<Rightarrow> row list" where
  "evidence_rows d = related d ''belief_evidence'' [''belief_id'', ''evidence_id'', ''span_json'']"

definition justification_rows :: "db \<Rightarrow> string list \<Rightarrow> row list" where
  "justification_rows d = related d ''justifications'' [''belief_id'', ''id'']"

text \<open>The batched reading with its folds over all rows at once\<close>

lemma hydrate_unbatched:
  assumes "rs \<noteq> []" and "ids = map (\<lambda>r. text_cell r ''id'') rs"
  shows "hydrate_beliefs C d rs =
     and_then (fold_result (\<lambda>r m. and_then (evidence_ref_from_row r) (\<lambda>e. append_at (text_cell r ''belief_id'') e m))
       (evidence_rows d ids) (with_keys ids)) (\<lambda>refs.
     and_then (fold_result (\<lambda>r m. and_then (justification_alone d r) (\<lambda>j. append_at (text_cell r ''belief_id'') j m))
       (justification_rows d ids) (with_keys ids)) (\<lambda>per_belief.
     map_result (belief_with C refs per_belief) rs))"
proof -
  obtain m where m: "premises_of d (justification_rows d ids) = Inr m"
    "\<forall>r\<in>set (justification_rows d ids). dict_item m (text_cell r ''id'') = Inr (premises_alone d (text_cell r ''id''))"
    using premises_read by blast
  have "fold_result (\<lambda>r acc. and_then (read_justification m r) (\<lambda>j. append_at (j_belief_id j) j acc)) (justification_rows d ids) s
    = fold_result (\<lambda>r acc. and_then (justification_alone d r) (\<lambda>j. append_at (text_cell r ''belief_id'') j acc)) (justification_rows d ids) s" for s
    using m(2) by (intro fold_result_cong)
      (auto simp: read_justification_def justification_alone_def justification_belief intro!: and_then_cong)
  with m(1) assms show ?thesis
    by (simp add: hydrate_beliefs_def Let_def read_evidence_refs_def [abs_def] fold_result_concat evidence_rows_def
        justification_rows_def related_def)
qed

text \<open>A row that cannot be read is one of the belief it belongs to.\<close>

lemma related_owner:
  assumes "r \<in> set (related d t cs ids)"
  obtains i where "i \<in> set ids" "r \<in> set (select t (where_text ''belief_id'' i) cs d)"
  using assms by (auto simp: related_set in_select where_in_def where_text_def)

lemma read_belief_evidence_fails:
  "r \<in> set (select ''belief_evidence'' (where_text ''belief_id'' (text_cell b ''id'')) [''belief_id'', ''evidence_id'', ''span_json''] d)
     \<Longrightarrow> evidence_ref_from_row r = Inl e \<Longrightarrow> \<exists>e. read_belief C d b = Inl e"
  using map_result_fails [of r _ evidence_ref_from_row e] by (fastforce simp: read_belief_def Let_def)

lemma read_belief_justification_fails:
  assumes "r \<in> set (select ''justifications'' (where_text ''belief_id'' (text_cell b ''id'')) [''belief_id'', ''id''] d)"
    and "justification_alone d r = Inl e"
  shows "\<exists>e. read_belief C d b = Inl e"
proof -
  have "\<exists>e. and_then r0 (\<lambda>es. and_then (Inl x) (f es)) = Inl e" for r0 :: "evidence_ref list result" and x and f :: "evidence_ref list \<Rightarrow> justification list \<Rightarrow> belief result"
    by (cases r0) auto
  with map_result_fails [where f = "justification_alone d", OF assms] show ?thesis by (fastforce simp: read_belief_def Let_def)
qed

lemma hydrate_exact:
  assumes "distinct (map (\<lambda>r. text_cell r ''id'') rs)"
  shows "hydrate_beliefs C d rs = Inr bs \<longleftrightarrow> map_result (read_belief C d) rs = Inr bs"
proof (cases "rs = []")
  case False
  let ?ids = "map (\<lambda>r. text_cell r ''id'') rs"
  let ?E = "evidence_rows d ?ids" and ?J = "justification_rows d ?ids"
  let ?e = evidence_ref_from_row and ?j = "justification_alone d"
  note un = hydrate_unbatched [OF False refl, of C d]
  have keysE: "\<forall>r\<in>set ?E. text_cell r ''belief_id'' \<in> fst ` set (with_keys ?ids)"
    and keysJ: "\<forall>r\<in>set ?J. text_cell r ''belief_id'' \<in> fst ` set (with_keys ?ids)"
    by (auto simp: with_keys_facts(2) [OF refl] evidence_rows_def justification_rows_def related_set where_in_def)
  show ?thesis
  proof (cases "(\<exists>r\<in>set ?E. \<exists>x. ?e r = Inl x) \<or> (\<exists>r\<in>set ?J. \<exists>x. ?j r = Inl x)")
    case True
    then obtain b x where b: "b \<in> set rs" "read_belief C d b = Inl x"
    proof (elim disjE bexE exE)
      fix r x assume r: "r \<in> set ?E" "?e r = Inl x"
      from r(1) obtain b where "b \<in> set rs" "r \<in> set (select ''belief_evidence'' (where_text ''belief_id'' (text_cell b ''id'')) [''belief_id'', ''evidence_id'', ''span_json''] d)"
        unfolding evidence_rows_def by (rule related_owner) auto
      with read_belief_evidence_fails [OF _ r(2)] that show ?thesis by blast
    next
      fix r x assume r: "r \<in> set ?J" "?j r = Inl x"
      from r(1) obtain b where "b \<in> set rs" "r \<in> set (select ''justifications'' (where_text ''belief_id'' (text_cell b ''id'')) [''belief_id'', ''id''] d)"
        unfolding justification_rows_def by (rule related_owner) auto
      with read_belief_justification_fails [OF _ r(2)] that show ?thesis by blast
    qed
    have "\<exists>x. hydrate_beliefs C d rs = Inl x"
      using True
    proof (elim disjE bexE exE)
      fix r x assume r: "r \<in> set ?E" "?e r = Inl x"
      obtain y where "fold_result (\<lambda>r m. and_then (?e r) (\<lambda>e. append_at (text_cell r ''belief_id'') e m)) ?E (with_keys ?ids) = Inl y"
        using fold_append_fails [where val = ?e and f = "\<lambda>r. append_at (text_cell r ''belief_id'')", OF r] by blast
      then show ?thesis unfolding un by simp
    next
      fix r x assume r: "r \<in> set ?J" "?j r = Inl x"
      obtain y where y: "fold_result (\<lambda>r m. and_then (?j r) (\<lambda>e. append_at (text_cell r ''belief_id'') e m)) ?J (with_keys ?ids) = Inl y"
        using fold_append_fails [where val = ?j and f = "\<lambda>r. append_at (text_cell r ''belief_id'')", OF r] by blast
      have "\<exists>x. and_then q (\<lambda>a. and_then (Inl y) (f a)) = Inl x" for q :: "(string \<times> evidence_ref list) list result"
        and f :: "(string \<times> evidence_ref list) list \<Rightarrow> (string \<times> justification list) list \<Rightarrow> belief list result"
        by (cases q) auto
      then show ?thesis unfolding un y .
    qed
    with map_result_fails [of b rs "read_belief C d"] b show ?thesis by force
  next
    case ok: False
    have e: "\<forall>r\<in>set ?E. ?e r = Inr (projr (?e r))" and j: "\<forall>r\<in>set ?J. ?j r = Inr (projr (?j r))"
      using ok by (auto simp: succeeds)
    let ?refs = "grouped (\<lambda>r. text_cell r ''belief_id'') (\<lambda>r. projr (?e r)) ?E (with_keys ?ids)"
    let ?js = "grouped (\<lambda>r. text_cell r ''belief_id'') (\<lambda>r. projr (?j r)) ?J (with_keys ?ids)"
    have "hydrate_beliefs C d rs = map_result (belief_with C ?refs ?js) rs"
      unfolding un fold_append [OF with_keys_facts(1) [OF refl] keysE e] fold_append [OF with_keys_facts(1) [OF refl] keysJ j] by simp
    moreover have "belief_with C ?refs ?js r = read_belief C d r" if "r \<in> set rs" for r
    proof -
      let ?i = "text_cell r ''id''"
      have i: "?i \<in> set ?ids" using that by simp
      let ?Ei = "select ''belief_evidence'' (where_text ''belief_id'' ?i) [''belief_id'', ''evidence_id'', ''span_json''] d"
      let ?Ji = "select ''justifications'' (where_text ''belief_id'' ?i) [''belief_id'', ''id''] d"
      have "\<forall>r\<in>set ?Ei. ?e r = Inr (projr (?e r))" "\<forall>r\<in>set ?Ji. ?j r = Inr (projr (?j r))"
        using e j i by (auto simp: evidence_rows_def justification_rows_def related_set in_select where_in_def where_text_def)
      then have "map_result ?e ?Ei = Inr (map (\<lambda>r. projr (?e r)) ?Ei)" "map_result ?j ?Ji = Inr (map (\<lambda>r. projr (?j r)) ?Ji)"
        by (simp_all add: map_result_all)
      moreover have "dict_item ?refs ?i = Inr (map (\<lambda>r. projr (?e r)) ?Ei)" "dict_item ?js ?i = Inr (map (\<lambda>r. projr (?j r)) ?Ji)"
        unfolding dict_item_def grouped_get with_keys_get [OF i] evidence_rows_def justification_rows_def related_of [OF assms i]
        by simp_all
      ultimately show ?thesis by (simp add: belief_with_def read_belief_def Let_def)
    qed
    ultimately show ?thesis using map_result_cong [of rs "belief_with C ?refs ?js" "read_belief C d"] by simp
  qed
qed (simp add: hydrate_beliefs_def)

end
