(* ===== verification/Read_Back.thy ===== *)
theory Read_Back
  imports Query_Props Projection_Props Ledger_Rebuild
begin

text \<open>
  A belief that was admitted is read back: the rows that the handler of \<open>BELIEF_ADMITTED\<close> writes for the
  record of a belief, and what the queries make of them.
\<close>

section \<open>The rows of a record\<close>

lemma belief_tables:
  "ts_columns (ledger_schema ''belief_evidence'') = [tcol ''belief_id'', tcol ''evidence_id'', tcol_null ''span_json'']"
  "ts_columns (ledger_schema ''justifications'') =
     [tcol_null ''id'', tcol ''episode_id'', tcol ''belief_id'', tcol ''warrant'', tcol_null ''audit_json'', tcol ''alternatives_json'']"
  "ts_columns (ledger_schema ''justification_premises'') = [tcol ''justification_id'', icol ''ordinal'', tcol ''premise_belief_id'']"
  "ts_columns (ledger_schema ''beliefs'') =
     [tcol_null ''id'', tcol ''episode_id'', tcol ''content'', tcol ''normalized_content'',
      tcol ''content_fingerprint'', tcol ''pramana'', tcol ''source_id'', tcol ''qualifiers_json'',
      tcol ''perishability'', tcol ''observed_at'', tcol ''stakes'', tcol ''status'',
      tcol ''admission_status'', tcol ''domain'', rcol_null ''confidence'',
      icol ''corroboration'', tcol ''validity_json'']"
  by code_simp+

definition append_rows :: "string \<Rightarrow> row list \<Rightarrow> db \<Rightarrow> db" where
  "append_rows t rs d = d(t := d t @ rs)"

lemma append_rows_more [simp]: "append_rows t ys (append_rows t xs d) = append_rows t (xs @ ys) d"
  by (simp add: append_rows_def)

lemma append_rows_none [simp]: "append_rows t [] d = d"
  by (simp add: append_rows_def)

lemma append_rows_get: "append_rows t rs d u = (if u = t then d t @ rs else d u)"
  by (simp add: append_rows_def)

lemma append_rows_swap: "t \<noteq> u \<Longrightarrow> append_rows t xs (append_rows u ys d) = append_rows u ys (append_rows t xs d)"
  by (auto simp: append_rows_def)

lemma sql_insert_appends:
  assumes "sql_insert S t vs d = Inr d'" and "bind_all vs = Inr ws"
  shows "d' = append_rows t [make_row (S t) ws] d" and "list_all (\<lambda>r'. \<not> clashes (S t) r' (make_row (S t) ws)) (d t)"
  using assms by (auto simp: sql_insert_def insert_row_def append_rows_def split: if_splits)

definition span_cell :: "evidence_ref \<Rightarrow> json" where
  "span_cell e = (case span e of None \<Rightarrow> JNull | Some (a, b) \<Rightarrow> JStr (canonical_json (JArr [JInt a, JInt b])))"

definition evidence_row :: "string \<Rightarrow> evidence_ref \<Rightarrow> row" where
  "evidence_row i e = [(''belief_id'', JStr i), (''evidence_id'', JStr (evidence_id e)), (''span_json'', span_cell e)]"

definition audit_cell :: "justification \<Rightarrow> json" where
  "audit_cell j = (case audit j of None \<Rightarrow> JNull | Some a \<Rightarrow> JStr (canonical_json (chain_audit_json a)))"

definition justification_row :: "string \<Rightarrow> justification \<Rightarrow> row" where
  "justification_row ep j =
     [(''id'', JStr (j_id j)), (''episode_id'', JStr ep), (''belief_id'', JStr (j_belief_id j)), (''warrant'', JStr (warrant j)),
      (''audit_json'', audit_cell j), (''alternatives_json'', JStr (canonical_json (strs (alternatives j))))]"

definition premise_row :: "string \<Rightarrow> nat \<Rightarrow> string \<Rightarrow> row" where
  "premise_row j n p = [(''justification_id'', JStr j), (''ordinal'', JInt (int n)), (''premise_belief_id'', JStr p)]"

fun premise_list :: "string \<Rightarrow> nat \<Rightarrow> string list \<Rightarrow> row list" where
  "premise_list j n [] = []"
| "premise_list j n (p # ps) = premise_row j n p # premise_list j (Suc n) ps"

lemma evidence_ref_inserted:
  assumes "insert_evidence_ref (JStr i) (evidence_ref_json e) d = Inr d'"
  shows "d' = append_rows ''belief_evidence'' [evidence_row i e] d"
proof -
  have "canonical_or_null ''span'' [(''evidence_id'', JStr (evidence_id e)), (''span'', optional (\<lambda>(a, b). JArr [JInt a, JInt b]) (span e))] = Inr (span_cell e)"
    by (cases "span e") (auto simp: canonical_or_null_def optional_def span_cell_def dict_get_def)
  moreover have "sql_bind (span_cell e) = Inr (span_cell e)" "convert TextCol (span_cell e) = span_cell e"
    by (auto simp: span_cell_def split: option.splits)
  ultimately have ins: "insert_into ''belief_evidence'' [(''belief_id'', JStr i), (''evidence_id'', JStr (evidence_id e)), (''span_json'', span_cell e)] d = Inr d'"
    and bind: "bind_all [(''belief_id'', JStr i), (''evidence_id'', JStr (evidence_id e)), (''span_json'', span_cell e)]
      = Inr [(''belief_id'', JStr i), (''evidence_id'', JStr (evidence_id e)), (''span_json'', span_cell e)]"
    and conv: "convert TextCol (span_cell e) = span_cell e"
    using assms by (simp_all add: insert_evidence_ref_def evidence_ref_json_def object_of_def item_def dict_item_def)
  from sql_insert_appends(1) [OF ins bind] conv show ?thesis
    by (simp add: evidence_row_def make_row_def belief_tables tcol_def tcol_null_def dict_get_def)
qed

lemma evidence_refs_inserted:
  "fold_result (insert_evidence_ref (JStr i)) (map evidence_ref_json es) d = Inr d' \<Longrightarrow>
     d' = append_rows ''belief_evidence'' (map (evidence_row i) es) d"
proof (induction es arbitrary: d)
  case (Cons e es)
  then obtain d1 where d1: "insert_evidence_ref (JStr i) (evidence_ref_json e) d = Inr d1"
    "fold_result (insert_evidence_ref (JStr i)) (map evidence_ref_json es) d1 = Inr d'"
    by (auto simp: splits_result)
  from Cons.IH [OF d1(2)] evidence_ref_inserted [OF d1(1)] show ?case by simp
qed simp

lemma fold_checks:
  "fold_result (\<lambda>p. require_entity t (f p) ep) ps d = Inr d' \<longleftrightarrow> d' = d \<and> (\<forall>p\<in>set ps. entity_in_episode d t (f p) ep)"
  by (induction ps arbitrary: d) (auto simp: splits_result)

lemma premises_inserted:
  "insert_premises (JStr j) n (map JStr ps) d = Inr d' \<Longrightarrow>
     d' = append_rows ''justification_premises'' (premise_list j n ps) d"
proof (induction ps arbitrary: n d)
  case (Cons p ps)
  then obtain d1 where d1: "insert_into ''justification_premises''
      [(''justification_id'', JStr j), (''ordinal'', JInt (int n)), (''premise_belief_id'', JStr p)] d = Inr d1"
    "insert_premises (JStr j) (Suc n) (map JStr ps) d1 = Inr d'"
    by (auto simp: splits_result)
  have "d1 = append_rows ''justification_premises'' [premise_row j n p] d"
    using sql_insert_appends(1) [OF d1(1)]
    by (simp add: make_row_def belief_tables tcol_def icol_def dict_get_def premise_row_def)
  with Cons.IH [OF d1(2)] show ?case by simp
qed simp

lemma justification_inserted:
  assumes "justification_added ep (justification_fields j) d = Inr d'"
  shows "d' = append_rows ''justifications'' [justification_row ep j]
      (append_rows ''justification_premises'' (premise_list (j_id j) 0 (j_premises j)) d)"
    and "list_all (\<lambda>r. cell r ''id'' \<noteq> JStr (j_id j)) (d ''justifications'')"
proof -
  let ?f = "justification_fields j"
  let ?cols = "[(''id'', item ''id''), (''episode_id'', just (JStr ep)), (''belief_id'', item ''belief_id''), (''warrant'', item ''warrant''),
                  (''audit_json'', canonical_or_null ''audit''), (''alternatives_json'', as_canonical (get_or ''alternatives'' (JArr [])))]"
  have cols: "read_columns ?cols ?f = Inr (justification_row ep j)"
    by (cases "audit j") (simp_all add: justification_fields_def justification_row_def item_def just_def dict_item_def canonical_or_null_def
        as_canonical_def get_or_def dict_get_def audit_cell_def optional_def chain_audit_json_def)
  have bind: "bind_all (justification_row ep j) = Inr (justification_row ep j)"
    by (cases "audit j") (simp_all add: justification_row_def audit_cell_def)
  have row: "make_row (ledger_schema ''justifications'') (justification_row ep j) = justification_row ep j"
    by (cases "audit j") (simp_all add: make_row_def belief_tables tcol_def tcol_null_def dict_get_def justification_row_def audit_cell_def)
  from assms obtain d1 where d1: "insert_into ''justifications'' (justification_row ep j) d = Inr d1"
    "insert_premises (JStr (j_id j)) 0 (map JStr (j_premises j)) d1 = Inr d'"
  proof -
    have "dict_get ?f ''premises'' (JArr []) = strs (j_premises j)" "item ''id'' ?f = Inr (JStr (j_id j))"
      by (simp_all add: justification_fields_def dict_get_def item_def dict_item_def)
    with assms that cols show ?thesis
      by (auto simp: justification_added_def splits_result insert_record_def elements_def fold_checks)
  qed
  note ins = sql_insert_appends [OF d1(1) bind, unfolded row]
  from ins(1) premises_inserted [OF d1(2)]
  show "d' = append_rows ''justifications'' [justification_row ep j]
      (append_rows ''justification_premises'' (premise_list (j_id j) 0 (j_premises j)) d)"
    by (simp add: append_rows_swap)
  have "[''id''] \<in> set (ts_keys (ledger_schema ''justifications''))" by code_simp
  with ins(2) show "list_all (\<lambda>r. cell r ''id'' \<noteq> JStr (j_id j)) (d ''justifications'')"
    by (fastforce simp: list_all_iff clashes_def list_ex_iff clash_def key_cells_def justification_row_def cell_def dict_get_def)
qed

definition premise_rows_of :: "justification list \<Rightarrow> row list" where
  "premise_rows_of js = concat (map (\<lambda>j. premise_list (j_id j) 0 (j_premises j)) js)"

lemma justifications_inserted:
  assumes "fold_result (\<lambda>j d. and_then (object_of j) (\<lambda>kvs. justification_added ep kvs d)) (map (\<lambda>j. JObj (justification_fields j)) js) d = Inr d'"
  shows "d' = append_rows ''justifications'' (map (justification_row ep) js) (append_rows ''justification_premises'' (premise_rows_of js) d)
    \<and> distinct (map j_id js) \<and> list_all (\<lambda>r. \<forall>j\<in>set js. cell r ''id'' \<noteq> JStr (j_id j)) (d ''justifications'')"
  using assms
proof (induction js arbitrary: d)
  case Nil
  then show ?case by (simp add: premise_rows_of_def list_all_iff)
next
  case (Cons j js)
  then obtain d1 where d1: "justification_added ep (justification_fields j) d = Inr d1"
    "fold_result (\<lambda>j d. and_then (object_of j) (\<lambda>kvs. justification_added ep kvs d)) (map (\<lambda>j. JObj (justification_fields j)) js) d1 = Inr d'"
    by (auto simp: splits_result object_of_def)
  note one = justification_inserted [OF d1(1)]
  note IH = Cons.IH [OF d1(2)]
  have "d1 ''justifications'' = d ''justifications'' @ [justification_row ep j]"
    by (simp add: one(1) append_rows_get)
  with IH one(2) have "j_id j \<notin> j_id ` set js" "list_all (\<lambda>r. \<forall>j'\<in>set (j # js). cell r ''id'' \<noteq> JStr (j_id j')) (d ''justifications'')"
    by (auto simp: list_all_iff justification_row_def cell_def dict_get_def)
  with IH show ?case by (auto simp: one(1) premise_rows_of_def append_rows_swap)
qed

definition belief_row :: "codec \<Rightarrow> string \<Rightarrow> int \<Rightarrow> belief \<Rightarrow> row" where
  "belief_row C fingerprint t b =
     [(''id'', JStr (b_id b)), (''episode_id'', JStr (b_episode_id b)), (''content'', JStr (content b)),
      (''normalized_content'', JStr (normalized_content b)), (''content_fingerprint'', JStr fingerprint),
      (''pramana'', JStr (pramana_value (b_pramana b))), (''source_id'', JStr (b_source_id b)),
      (''qualifiers_json'', JStr (canonical_json (str_dict (qualifiers b)))),
      (''perishability'', JStr (perishability_value (b_perishability b))), (''observed_at'', JStr (iso C t)),
      (''stakes'', JStr (stakes_value (b_stakes b))), (''status'', JStr (status_value (b_status b))),
      (''admission_status'', JStr (status_value (admission_status b))), (''domain'', JStr (domain b)),
      (''confidence'', optional (\<lambda>q. JFloat (float_repr C q)) (confidence b)), (''corroboration'', JInt (corroboration b)),
      (''validity_json'', JStr (canonical_json (JObj (validity b))))]"

lemma belief_inserted:
  assumes "belief_fields C b = Inr r" and "observed_at b = Aware t" and "insert_belief fingerprint r d = Inr d'"
  shows "d' = append_rows ''beliefs'' [belief_row C fingerprint t b] d" and "list_all (\<lambda>r. cell r ''id'' \<noteq> JStr (b_id b)) (d ''beliefs'')"
proof -
  have cols: "read_columns (columns_of [''id'', ''episode_id'', ''content'', ''normalized_content'']
        @ [(''content_fingerprint'', just (JStr fingerprint))]
        @ columns_of [''pramana'', ''source_id'']
        @ [(''qualifiers_json'', as_canonical (get_or ''qualifiers'' (JObj [])))]
        @ columns_of [''perishability'', ''observed_at'', ''stakes'', ''status'', ''admission_status'']
        @ [(''domain'', get_or ''domain'' (JStr ''general'')),
           (''confidence'', get_or ''confidence'' JNull),
           (''corroboration'', as_int (get_or ''corroboration'' (JInt 0))),
           (''validity_json'', as_canonical (get_or ''validity'' (JObj [])))]) r = Inr (belief_row C fingerprint t b)"
    using assms(1,2) by (auto simp: belief_fields_def isoformat_utc_def columns_of_def item_def just_def dict_item_def as_canonical_def
        get_or_def dict_get_def as_int_def belief_row_def)
  have bind: "bind_all (belief_row C fingerprint t b) = Inr (belief_row C fingerprint t b)"
    by (cases "confidence b") (simp_all add: belief_row_def optional_def)
  have row: "make_row (ledger_schema ''beliefs'') (belief_row C fingerprint t b) = belief_row C fingerprint t b"
    by (cases "confidence b") (simp_all add: make_row_def belief_tables tcol_def tcol_null_def icol_def rcol_null_def dict_get_def belief_row_def optional_def)
  have "insert_into ''beliefs'' (belief_row C fingerprint t b) d = Inr d'"
    using assms(3) cols by (simp add: insert_belief_def insert_record_def)
  note ins = sql_insert_appends [OF this bind, unfolded row]
  show "d' = append_rows ''beliefs'' [belief_row C fingerprint t b] d" by (rule ins(1))
  have "[''id''] \<in> set (ts_keys (ledger_schema ''beliefs''))" by code_simp
  with ins(2) show "list_all (\<lambda>r. cell r ''id'' \<noteq> JStr (b_id b)) (d ''beliefs'')"
    by (fastforce simp: list_all_iff clashes_def list_ex_iff clash_def key_cells_def belief_row_def cell_def dict_get_def)
qed

lemma sql_insert_frame: "sql_insert S t vs d = Inr d' \<Longrightarrow> u \<noteq> t \<Longrightarrow> d' u = d u"
  by (auto simp: sql_insert_def insert_row_def splits_result split: if_splits)

lemma index_frame: "index_belief fingerprint r d = Inr d' \<Longrightarrow> u \<notin> {''source_roots'', ''content_fingerprints''} \<Longrightarrow> d' u = d u"
  by (auto simp: index_belief_def insert_record_def splits_result Let_def dest!: sql_insert_frame [of _ _ _ _ _ u])

lemma fts_frame: "fts_replace fts i ep st text d = Inr d' \<Longrightarrow> u \<noteq> ''beliefs_fts'' \<Longrightarrow> d' u = d u"
  by (auto simp: fts_replace_def sql_delete_def dest!: sql_insert_frame [of _ _ _ _ _ u] split: if_splits)

text \<open>All rows an admission writes into the tables a belief is read from.\<close>

lemma admission_rows:
  assumes "belief_fields C b = Inr r" and "observed_at b = Aware t" and "belief_admitted sha fts r d = Inr d'"
  shows "d' ''beliefs'' = d ''beliefs'' @ [belief_row C (sha (normalized_content b)) t b]"
    and "d' ''belief_evidence'' = d ''belief_evidence'' @ map (evidence_row (b_id b)) (b_evidence b)"
    and "d' ''justifications'' = d ''justifications'' @ map (justification_row (b_episode_id b)) (b_justifications b)"
    and "d' ''justification_premises'' = d ''justification_premises'' @ premise_rows_of (b_justifications b)"
    and "list_all (\<lambda>r. cell r ''id'' \<noteq> JStr (b_id b)) (d ''beliefs'')"
    and "distinct (map j_id (b_justifications b))"
    and "list_all (\<lambda>r. \<forall>j\<in>set (b_justifications b). cell r ''id'' \<noteq> JStr (j_id j)) (d ''justifications'')"
proof -
  let ?ep = "b_episode_id b" and ?fp = "sha (normalized_content b)"
  have items: "item ''episode_id'' r = Inr (JStr ?ep)" "item ''normalized_content'' r = Inr (JStr (normalized_content b))"
    "item ''id'' r = Inr (JStr (b_id b))" "item ''status'' r = Inr (JStr (status_value (b_status b)))" "item ''content'' r = Inr (JStr (content b))"
    "dict_get r ''evidence'' (JArr []) = JArr (map evidence_ref_json (b_evidence b))"
    "dict_get r ''justifications'' (JArr []) = JArr (map (\<lambda>j. JObj (justification_fields j)) (b_justifications b))"
    using assms(1,2) by (auto simp: belief_fields_def isoformat_utc_def item_def dict_item_def dict_get_def)
  have checks: "fold_result (require_evidence_ref ep) xs d0 = Inr d1 \<Longrightarrow> d1 = d0" for ep xs d0 d1
    by (induction xs arbitrary: d0) (auto simp: require_evidence_ref_def splits_result)
  obtain d1 d2 d3 d4 where d1: "insert_belief ?fp r d = Inr d1"
    and d2: "fold_result (insert_evidence_ref (JStr (b_id b))) (map evidence_ref_json (b_evidence b)) d1 = Inr d2"
    and d3: "fold_result (\<lambda>j d. and_then (object_of j) (\<lambda>kvs. justification_added ?ep kvs d))
        (map (\<lambda>j. JObj (justification_fields j)) (b_justifications b)) d2 = Inr d3"
    and d4: "index_belief ?fp r d3 = Inr d4"
    and d5: "fts_replace fts (JStr (b_id b)) (JStr ?ep) (JStr (status_value (b_status b))) (JStr (content b)) d4 = Inr d'"
    using assms(3) by (auto simp: belief_admitted_def items elements_def Let_def splits_result dest!: checks)
  note b = belief_inserted [OF assms(1,2) d1]
  note e = evidence_refs_inserted [OF d2]
  note j = justifications_inserted [OF d3]
  have same: "d' u = d3 u" if "u \<in> {''beliefs'', ''belief_evidence'', ''justifications'', ''justification_premises''}" for u
    using index_frame [OF d4, of u] fts_frame [OF d5, of u] that by auto
  show "d' ''beliefs'' = d ''beliefs'' @ [belief_row C ?fp t b]" using same [of "''beliefs''"] b(1) e j by (simp add: append_rows_get)
  show "d' ''belief_evidence'' = d ''belief_evidence'' @ map (evidence_row (b_id b)) (b_evidence b)"
    using same [of "''belief_evidence''"] b(1) e j by (simp add: append_rows_get)
  show "d' ''justifications'' = d ''justifications'' @ map (justification_row ?ep) (b_justifications b)"
    using same [of "''justifications''"] b(1) e j by (simp add: append_rows_get)
  show "d' ''justification_premises'' = d ''justification_premises'' @ premise_rows_of (b_justifications b)"
    using same [of "''justification_premises''"] b(1) e j by (simp add: append_rows_get)
  show "list_all (\<lambda>r. cell r ''id'' \<noteq> JStr (b_id b)) (d ''beliefs'')" by (rule b(2))
  show "distinct (map j_id (b_justifications b))" using j by simp
  show "list_all (\<lambda>r. \<forall>j\<in>set (b_justifications b). cell r ''id'' \<noteq> JStr (j_id j)) (d ''justifications'')"
    using j by (simp add: e b(1) append_rows_get)
qed

section \<open>Reading them\<close>

lemma loads_canonical: "readable v \<Longrightarrow> json_loads (canonical_json v) = Inr (sort_keys v)"
  by (simp add: canonical_json_def json_loads_print readable_sort_keys)

lemma canonical_nonempty: "readable v \<Longrightarrow> canonical_json v \<noteq> []"
  using print_json_start [OF readable_wf [OF readable_sort_keys]] by (fastforce simp: canonical_json_def)

lemma enum_value:
  "read_pramana (pramana_value p) = Inr p" "read_perishability (perishability_value q) = Inr q" "read_stakes (stakes_value s) = Inr s"
  "read_status (status_value st) = Inr st" "read_method (verification_method_value m) = Inr m"
  subgoal by (cases p; simp add: enum_of_def)
  subgoal by (cases q; simp add: enum_of_def)
  subgoal by (cases s; simp add: enum_of_def)
  subgoal by (cases st; simp add: enum_of_def)
  subgoal by (cases m; simp add: enum_of_def)
  done

lemma texts_read: "texts_of_json (strs xs) = Inr xs"
  by (induction xs) (simp_all add: texts_of_json_def elements_def text_of_json_def)

lemma evidence_row_read: "evidence_ref_from_row (evidence_row i e) = Inr e"
proof (cases "span e")
  case None
  then show ?thesis by (cases e) (simp add: evidence_ref_from_row_def evidence_row_def span_cell_def cell_def dict_get_def)
next
  case (Some s)
  obtain a b where "s = (a, b)" by fastforce
  with Some show ?thesis
    using loads_canonical [of "JArr [JInt a, JInt b]"] canonical_nonempty [of "JArr [JInt a, JInt b]"]
    by (cases e) (simp add: evidence_ref_from_row_def evidence_row_def span_cell_def cell_def dict_get_def json_cell_def span_of_json_def)
qed

text \<open>Keys with a common prefix do not change the order.\<close>

lemma sort_key_same_order:
  fixes f :: "'a \<Rightarrow> 'b :: linorder" and g :: "'a \<Rightarrow> 'c :: linorder"
  assumes "\<And>x y. x \<in> set xs \<Longrightarrow> y \<in> set xs \<Longrightarrow> f x \<le> f y \<longleftrightarrow> g x \<le> g y"
  shows "sort_key f xs = sort_key g xs"
  using assms
proof (induction xs)
  case (Cons x xs)
  have "insort_key f x ys = insort_key g x ys" if "set ys \<subseteq> set xs" for ys
    using that by (induction ys) (auto simp: Cons.prems)
  with Cons show ?case by simp
qed simp

definition span_text :: "evidence_ref \<Rightarrow> string" where
  "span_text e = (case span e of None \<Rightarrow> [] | Some (a, b) \<Rightarrow> canonical_json (JArr [JInt a, JInt b]))"

lemma evidence_row_order:
  "order_by [''belief_id'', ''evidence_id'', ''span_json''] (evidence_row i e) = [i, evidence_id e, span_text e]"
  by (cases "span e") (auto simp: order_by_def order_text_def evidence_row_def cell_def dict_get_def span_cell_def span_text_def)

lemma evidence_read:
  assumes "d' ''belief_evidence'' = d ''belief_evidence'' @ map (evidence_row i) es"
    and "list_all (\<lambda>r. cell r ''belief_id'' \<noteq> JStr i) (d ''belief_evidence'')"
  shows "map_result evidence_ref_from_row
      (select ''belief_evidence'' (where_text ''belief_id'' i) [''belief_id'', ''evidence_id'', ''span_json''] d')
    = Inr (sort_key (\<lambda>e. [evidence_id e, span_text e]) es)"
proof -
  have "filter (where_text ''belief_id'' i) (d' ''belief_evidence'') = map (evidence_row i) es"
    using assms(2) by (auto simp: assms(1) filter_empty_conv list_all_iff where_text_def evidence_row_def cell_def dict_get_def)
  then have "select ''belief_evidence'' (where_text ''belief_id'' i) [''belief_id'', ''evidence_id'', ''span_json''] d'
    = map (evidence_row i) (sort_key (\<lambda>e. [i, evidence_id e, span_text e]) es)"
    by (simp add: select_def sort_key_map comp_def evidence_row_order)
  also have "sort_key (\<lambda>e. [i, evidence_id e, span_text e]) es = sort_key (\<lambda>e. [evidence_id e, span_text e]) es"
    by (rule sort_key_same_order) simp
  finally show ?thesis by (simp add: map_result_all [where g = id] evidence_row_read comp_def map_result_map)
qed

lemma audit_read:
  "audit_of_json (sort_keys (chain_audit_json a)) = Inr a"
  by (cases a) (simp add: chain_audit_json_def sort_keys_Obj audit_of_json_def object_of_def dict_item_def dict_get_sorted
      map_of_sorted_fields texts_read comp_def del: sort_keys.simps(7))

lemma audit_readable: "readable (chain_audit_json a)"
  by (simp add: chain_audit_json_def list_all_iff)

lemma justification_read: "justification_from_parts (justification_row ep j) (j_premises j) = Inr j"
proof -
  have alts: "json_loads (canonical_json (strs (alternatives j))) = Inr (strs (alternatives j))"
    using loads_canonical [of "strs (alternatives j)"] by (simp add: list_all_iff comp_def)
  have cells: "cell (justification_row ep j) ''audit_json'' = audit_cell j"
    "text_cell (justification_row ep j) ''id'' = j_id j" "text_cell (justification_row ep j) ''belief_id'' = j_belief_id j"
    "text_cell (justification_row ep j) ''warrant'' = warrant j"
    "text_cell (justification_row ep j) ''alternatives_json'' = canonical_json (strs (alternatives j))"
    by (simp_all add: justification_row_def cell_def dict_get_def)
  show ?thesis
  proof (cases "audit j")
    case None
    then show ?thesis
      by (simp add: justification_from_parts_def cells audit_cell_def json_cell_def alts texts_read justification.equality)
  next
    case (Some a)
    have "truthy (sort_keys (chain_audit_json a))" by (simp add: chain_audit_json_def)
    with Some show ?thesis
      using loads_canonical [OF audit_readable [of a]] canonical_nonempty [OF audit_readable [of a]]
      by (simp add: justification_from_parts_def cells audit_cell_def json_cell_def alts texts_read audit_read justification.equality)
  qed
qed

lemma premise_list_cells:
  "r \<in> set (premise_list j n ps) \<Longrightarrow> cell r ''justification_id'' = JStr j"
  by (induction ps arbitrary: n) (auto simp: premise_row_def cell_def dict_get_def)

lemma premise_list_texts: "map (\<lambda>r. text_cell r ''premise_belief_id'') (premise_list j n ps) = ps"
  by (induction ps arbitrary: n) (auto simp: premise_row_def cell_def dict_get_def)

lemma premise_list_ordinals: "map (order_int ''ordinal'') (premise_list j n ps) = map int [n..<n + length ps]"
proof (induction ps arbitrary: n)
  case (Cons p ps)
  have "order_int ''ordinal'' (premise_row j n p) = int n"
    by (simp add: order_int_def premise_row_def cell_def dict_get_def)
  with Cons [of "Suc n"] show ?case by (auto simp: upt_rec [of n] Suc_le_eq)
qed simp

lemma premise_list_sorted:
  "sort_key (order_by [''justification_id'']) (sort_key (order_int ''ordinal'') (premise_list j n ps)) = premise_list j n ps"
proof -
  have "sorted (map (order_int ''ordinal'') (premise_list j n ps))"
    unfolding premise_list_ordinals by (simp add: sorted_wrt_map sorted_wrt_upt)
  moreover have "sorted (map (order_by [''justification_id'']) (premise_list j n ps))"
  proof -
    have "map (order_by [''justification_id'']) (premise_list j n ps) = replicate (length (premise_list j n ps)) [j]"
      by (intro replicate_eqI) (auto simp: order_by_def order_text_def dest: premise_list_cells)
    then show ?thesis by simp
  qed
  ultimately show ?thesis by (simp add: sort_key_sorted)
qed

lemma premises_of_other: "j_id j \<noteq> i \<Longrightarrow> filter (where_text ''justification_id'' i) (premise_list (j_id j) n ps) = []"
  by (auto simp: filter_empty_conv where_text_def dest: premise_list_cells)

lemma premises_of_own: "filter (where_text ''justification_id'' i) (premise_list i n ps) = premise_list i n ps"
  by (simp add: filter_id_conv where_text_def premise_list_cells)

lemma premise_rows_filter:
  "distinct (map j_id js) \<Longrightarrow> j \<in> set js \<Longrightarrow>
     filter (where_text ''justification_id'' (j_id j)) (premise_rows_of js) = premise_list (j_id j) 0 (j_premises j)"
proof (induction js)
  case (Cons k ks)
  have none: "j_id j \<notin> j_id ` set ks \<Longrightarrow> filter (where_text ''justification_id'' (j_id j)) (premise_rows_of ks) = []"
    by (induction ks) (auto simp: premise_rows_of_def premises_of_other)
  show ?case
  proof (cases "k = j")
    case True
    with Cons.prems none show ?thesis by (simp add: premise_rows_of_def premises_of_own)
  next
    case False
    with Cons.prems have "j \<in> set ks" "j_id k \<noteq> j_id j" by auto
    with Cons show ?thesis by (simp add: premise_rows_of_def premises_of_other)
  qed
qed simp

lemma premises_read_back:
  assumes "d' ''justification_premises'' = d ''justification_premises'' @ premise_rows_of js"
    and "list_all (\<lambda>r. \<forall>j\<in>set js. cell r ''justification_id'' \<noteq> JStr (j_id j)) (d ''justification_premises'')"
    and "distinct (map j_id js)" and "j \<in> set js"
  shows "premises_alone d' (j_id j) = j_premises j"
proof -
  have "filter (where_text ''justification_id'' (j_id j)) (d' ''justification_premises'') = premise_list (j_id j) 0 (j_premises j)"
    using assms(2,4) premise_rows_filter [OF assms(3,4)]
    by (auto simp: assms(1) filter_empty_conv list_all_iff where_text_def)
  then show ?thesis by (simp add: premises_alone_def premise_list_sorted premise_list_texts)
qed

lemma justifications_read_back:
  assumes "d' ''justifications'' = d ''justifications'' @ map (justification_row ep) js"
    and "list_all (\<lambda>r. cell r ''belief_id'' \<noteq> JStr i) (d ''justifications'')"
    and "\<forall>j\<in>set js. j_belief_id j = i \<and> premises_alone d' (j_id j) = j_premises j"
  shows "map_result (justification_alone d') (select ''justifications'' (where_text ''belief_id'' i) [''belief_id'', ''id''] d')
    = Inr (sort_key j_id js)"
proof -
  have "filter (where_text ''belief_id'' i) (d' ''justifications'') = map (justification_row ep) js"
    using assms(2,3)
    by (auto simp: assms(1) filter_empty_conv list_all_iff where_text_def filter_id_conv justification_row_def cell_def dict_get_def)
  then have "select ''justifications'' (where_text ''belief_id'' i) [''belief_id'', ''id''] d'
    = map (justification_row ep) (sort_key (\<lambda>j. [j_belief_id j, j_id j]) js)"
    by (simp add: select_def sort_key_map comp_def order_by_def order_text_def justification_row_def cell_def dict_get_def)
  also have "sort_key (\<lambda>j. [j_belief_id j, j_id j]) js = sort_key j_id js"
    using assms(3) by (intro sort_key_same_order) (simp add: order.order_iff_strict)
  finally have "select ''justifications'' (where_text ''belief_id'' i) [''belief_id'', ''id''] d' = map (justification_row ep) (sort_key j_id js)" .
  moreover have "justification_alone d' (justification_row ep j) = Inr j" if "j \<in> set js" for j
  proof -
    have "text_cell (justification_row ep j) ''id'' = j_id j" by (simp add: justification_row_def cell_def dict_get_def)
    with assms(3) that show ?thesis by (simp add: justification_alone_def justification_read)
  qed
  then have "map_result (justification_alone d') (map (justification_row ep) (sort_key j_id js)) = Inr (map (\<lambda>j. j) (sort_key j_id js))"
    by (intro map_result_map) simp
  ultimately show ?thesis by simp
qed

lemma text_dict_read: "text_dict_of_json (JObj (map (map_prod id JStr) kvs)) = Inr kvs"
  by (induction kvs) (auto simp: text_dict_of_json_def dict_of_json_def text_of_json_def)

lemma str_dict_loads:
  assumes "distinct (map fst qs)"
  shows "and_then (json_loads (canonical_json (str_dict qs))) text_dict_of_json = Inr (sort_key fst qs)"
proof -
  have "readable (str_dict qs)" using assms by (simp add: list_all_iff comp_def case_prod_beta)
  moreover have "sort_keys (str_dict qs) = str_dict (sort_key fst qs)"
    by (simp add: sort_key_map comp_def prod.map_comp id_def)
  ultimately show ?thesis by (simp add: loads_canonical text_dict_read del: sort_keys.simps)
qed

text \<open>What the rows hold of a belief: relations and dictionaries in a fixed order.\<close>

definition ordered :: "belief \<Rightarrow> belief" where
  "ordered b = b\<lparr>b_evidence := sort_key (\<lambda>e. [evidence_id e, span_text e]) (b_evidence b),
     b_justifications := sort_key j_id (b_justifications b), qualifiers := sort_key fst (qualifiers b),
     validity := sorted_fields (validity b)\<rparr>"

lemma belief_row_read:
  assumes "observed_at b = Aware t" and "parse_datetime C (iso C t) = Inr (Aware t)"
    and "\<forall>q. confidence b = Some q \<longrightarrow> read_float (float_repr C q) = Some (Finite q)"
    and "readable (JObj (validity b))" and "distinct (map fst (qualifiers b))"
  shows "belief_from_row C (belief_row C fp t b) (sort_key (\<lambda>e. [evidence_id e, span_text e]) (b_evidence b)) (sort_key j_id (b_justifications b))
    = Inr (ordered b)"
proof -
  let ?r = "belief_row C fp t b"
  have cells: "text_cell ?r ''id'' = b_id b" "text_cell ?r ''episode_id'' = b_episode_id b" "text_cell ?r ''content'' = content b"
    "text_cell ?r ''normalized_content'' = normalized_content b" "text_cell ?r ''pramana'' = pramana_value (b_pramana b)"
    "text_cell ?r ''source_id'' = b_source_id b" "text_cell ?r ''qualifiers_json'' = canonical_json (str_dict (qualifiers b))"
    "text_cell ?r ''perishability'' = perishability_value (b_perishability b)" "text_cell ?r ''observed_at'' = iso C t"
    "text_cell ?r ''stakes'' = stakes_value (b_stakes b)" "text_cell ?r ''status'' = status_value (b_status b)"
    "text_cell ?r ''admission_status'' = status_value (admission_status b)" "text_cell ?r ''domain'' = domain b"
    "cell ?r ''confidence'' = optional (\<lambda>q. JFloat (float_repr C q)) (confidence b)" "int_cell ?r ''corroboration'' = Inr (corroboration b)"
    "text_cell ?r ''validity_json'' = canonical_json (JObj (validity b))"
    by (simp_all add: belief_row_def cell_def dict_get_def)
  have conf: "(if cell ?r ''confidence'' = JNull then Inr None
      else and_then (finite_float (cell ?r ''confidence'')) (\<lambda>q. Inr (Some q))) = Inr (confidence b)"
    using assms(3) by (cases "confidence b") (simp_all add: cells optional_def finite_float_def)
  have checks: "and_then (json_loads (canonical_json (JObj (validity b)))) dict_of_json = Inr (sorted_fields (validity b))"
    using loads_canonical [OF assms(4)] by (simp add: sort_keys_Obj dict_of_json_def del: sort_keys.simps)
  show ?thesis
    unfolding belief_from_row_def conf json_cell_def
    using assms(1,2) str_dict_loads [OF assms(5)] checks
    by (simp add: cells enum_value make_belief_def ordered_def belief.equality del: sort_keys.simps)
qed

lemma find_later: "find p xs = None \<Longrightarrow> find p (xs @ ys) = find p ys"
  by (induction xs) (auto split: if_splits)

text \<open>In a consistent database no row refers to an identifier that is not there.\<close>

lemma no_reference:
  assumes "consistent ledger_schema d" and "(c, t) \<in> set (ts_references (ledger_schema u))"
    and "\<exists>k\<in>set (ts_columns (ledger_schema u)). col_name k = c \<and> col_not_null k"
    and "list_all (\<lambda>r. cell r ''id'' \<noteq> JStr i) (d t)"
  shows "list_all (\<lambda>r. cell r c \<noteq> JStr i) (d u)"
proof -
  have "cell r c \<noteq> JStr i" if "r \<in> set (d u)" for r
  proof -
    have "not_null_ok (ledger_schema u) r" "references_ok (ledger_schema u) d r"
      using assms(1) that by (auto simp: consistent_def)
    then have "cell r c \<noteq> JNull" "cell r c = JNull \<or> list_ex (\<lambda>r'. cell r' ''id'' = cell r c) (d t)"
      using assms(2,3) by (fastforce simp: not_null_ok_def references_ok_def list_all_iff)+
    with assms(4) show ?thesis by (auto simp: list_ex_iff list_all_iff)
  qed
  then show ?thesis by (simp add: list_all_iff)
qed

text \<open>
  C5. What is admitted is what is read: after the admission of a belief into a ledger whose projections
  satisfy the schema, reading the belief by its identifier gives the belief that was written, with its
  evidence, its spans, its justifications, their premises in order, their audits, its qualifiers and
  validity; only the order of evidence, justifications and keys is the stored one. No row left by
  another belief is mixed in. The codec of timestamps and floats is assumed to read what it wrote.
\<close>
theorem admitted_belief_read_back:
  assumes "consistent ledger_schema d"
    and "belief_fields C b = Inr r" and "belief_admitted sha fts r d = Inr d'"
    and "observed_at b = Aware t" and "parse_datetime C (iso C t) = Inr (Aware t)"
    and "\<forall>q. confidence b = Some q \<longrightarrow> read_float (float_repr C q) = Some (Finite q)"
    and "readable (JObj (validity b))" and "distinct (map fst (qualifiers b))"
    and "\<forall>j\<in>set (b_justifications b). j_belief_id j = b_id b"
  shows "get_belief C (b_id b) d' = Inr (Some (ordered b))"
proof -
  note rows = admission_rows [OF assms(2,4,3)]
  let ?row = "belief_row C (sha (normalized_content b)) t b"
  have refs: "(''belief_id'', ''beliefs'') \<in> set (ts_references (ledger_schema ''belief_evidence''))"
    "(''belief_id'', ''beliefs'') \<in> set (ts_references (ledger_schema ''justifications''))"
    "(''justification_id'', ''justifications'') \<in> set (ts_references (ledger_schema ''justification_premises''))"
    by code_simp+
  have ev: "list_all (\<lambda>r. cell r ''belief_id'' \<noteq> JStr (b_id b)) (d ''belief_evidence'')"
    by (rule no_reference [OF assms(1) refs(1) _ rows(5)]) (simp add: belief_tables tcol_def)
  have ju: "list_all (\<lambda>r. cell r ''belief_id'' \<noteq> JStr (b_id b)) (d ''justifications'')"
    by (rule no_reference [OF assms(1) refs(2) _ rows(5)]) (simp add: belief_tables tcol_def)
  have "list_all (\<lambda>r. cell r ''justification_id'' \<noteq> JStr (j_id j)) (d ''justification_premises'')" if "j \<in> set (b_justifications b)" for j
    by (rule no_reference [OF assms(1) refs(3)])
      (use that rows(7) in \<open>auto simp: belief_tables tcol_def list_all_iff\<close>)
  then have pr: "list_all (\<lambda>r. \<forall>j\<in>set (b_justifications b). cell r ''justification_id'' \<noteq> JStr (j_id j)) (d ''justification_premises'')"
    by (auto simp: list_all_iff)
  have i: "text_cell ?row ''id'' = b_id b" by (simp add: belief_row_def cell_def dict_get_def)
  have "read_belief C d' ?row = Inr (ordered b)"
    using evidence_read [where d = d and d' = d', OF rows(2) ev] premises_read_back [where d = d and d' = d', OF rows(4) pr rows(6)] assms(9)
      justifications_read_back [where d = d and d' = d', OF rows(3) ju] belief_row_read [OF assms(4-8)]
    by (simp add: read_belief_def i)
  then have "hydrate_beliefs C d' [?row] = Inr [ordered b]" by (simp add: hydrate_exact)
  moreover have "sql_first ''beliefs'' (where_text ''id'' (b_id b)) d' = Some ?row"
  proof -
    have "find (where_text ''id'' (b_id b)) (d ''beliefs'') = None"
      using rows(5) by (auto simp: find_None_iff list_all_iff where_text_def)
    moreover have "where_text ''id'' (b_id b) ?row" by (simp add: where_text_def belief_row_def cell_def dict_get_def)
    ultimately show ?thesis by (simp add: sql_first_def rows(1) find_later)
  qed
  ultimately show ?thesis by (simp add: get_belief_def)
qed

section \<open>A small ledger\<close>

definition sample_codec :: codec where
  "sample_codec = \<lparr>iso = (\<lambda>t. ''2026-01-01T00:00:00.000000Z''), read_iso = (\<lambda>s. Inr (Aware 5)), float_repr = (\<lambda>q. ''0.5'')\<rparr>"

definition sample_belief :: "string \<Rightarrow> evidence_ref list \<Rightarrow> justification list \<Rightarrow> belief" where
  "sample_belief i es js =
     \<lparr>b_id = i, b_episode_id = ''ep'', content = ''Sky is up'', normalized_content = ''sky is up'', b_pramana = SHABDA, b_source_id = ''src'',
      b_evidence = es, b_justifications = js, qualifiers = [(''version'', ''2''), (''place'', ''here'')], b_perishability = SLOW,
      observed_at = Aware 5, b_stakes = MED, b_status = IN, admission_status = IN, domain = ''general'', confidence = Some (1 / 2),
      corroboration = 1, validity = [(''ok'', JBool True)]\<rparr>"

definition sample_refs :: "evidence_ref list" where
  "sample_refs = [\<lparr>evidence_id = ''x'', span = Some (3, 7)\<rparr>, \<lparr>evidence_id = ''x'', span = None\<rparr>]"

definition sample_inference :: belief where
  "sample_inference = sample_belief ''b'' sample_refs
     [\<lparr>j_id = ''j'', j_belief_id = ''b'', j_premises = [], warrant = ''w'',
       audit = Some \<lparr>paksadharmata = True, sapakse_sattvam = True, vipakse_asattvam = False, audit_evidence_ids = [''x''], fallacies = []\<rparr>,
       alternatives = [''other'']\<rparr>]"

definition sample_past :: "event list" where
  "sample_past = sample_history @
     [sample_event ''EVIDENCE_INGESTED'' ''x'' (JObj [(''record'', JObj ([(''id'', JStr ''x''), (''episode_id'', JStr ''ep''), (''source_id'', JStr ''src'')]
        @ text_fields [''kind'', ''content_hash'', ''observed_at'']))])]"

lemma sample_admission_runs:
  "succeeds (and_then (fold_result (apply_event sample_storage) sample_past (\<lambda>t. []))
     (belief_admitted (st_sha sample_storage) True (projr (belief_fields sample_codec sample_inference)))) (\<lambda>d. length (d ''beliefs'') = 1)"
  by code_simp

theorem admitted_belief_read_back_witness:
  "\<exists>d d'. fold_result (apply_event sample_storage) sample_past (\<lambda>t. []) = Inr d
     \<and> belief_admitted (st_sha sample_storage) True (projr (belief_fields sample_codec sample_inference)) d = Inr d'
     \<and> get_belief sample_codec ''b'' d' = Inr (Some (ordered sample_inference))"
proof -
  obtain d d' where d: "fold_result (apply_event sample_storage) sample_past (\<lambda>t. []) = Inr d"
    "belief_admitted (st_sha sample_storage) True (projr (belief_fields sample_codec sample_inference)) d = Inr d'"
    using sample_admission_runs unfolding succeeds_iff by (auto simp: splits_result)
  have "list_all (\<lambda>e. ev_episode_id e = ''ep'') sample_past" by code_simp
  then have consistent: "consistent ledger_schema d"
    by (intro apply_events_consistent [OF d(1) consistent_empty]) (auto simp: list_all_iff plain_name_def)
  have f: "belief_fields sample_codec sample_inference = Inr (projr (belief_fields sample_codec sample_inference))"
    "observed_at sample_inference = Aware 5" "parse_datetime sample_codec (iso sample_codec 5) = Inr (Aware 5)"
    "readable (JObj (validity sample_inference))" "distinct (map fst (qualifiers sample_inference))"
    "list_all (\<lambda>j. j_belief_id j = b_id sample_inference) (b_justifications sample_inference)"
    "confidence sample_inference = Some (1 / 2)" "read_float (float_repr sample_codec (1 / 2)) = Some (Finite (1 / 2))"
    "b_id sample_inference = ''b''"
    by code_simp+
  have "\<forall>q. confidence sample_inference = Some q \<longrightarrow> read_float (float_repr sample_codec q) = Some (Finite q)"
    using f(7,8) by (metis option.inject)
  note read = admitted_belief_read_back [OF consistent f(1) d(2) f(2,3) this f(4,5) f(6) [unfolded list_all_iff], unfolded f(9)]
  show ?thesis by (intro exI conjI) (rule d(1), rule d(2), rule read)
qed

text \<open>
  C6. Reading beliefs in batches of 900, with their evidence, justifications and premises fetched for the whole
  batch and distributed over the beliefs, gives exactly what reading each belief alone gives, in the order of
  the rows: no relation is lost, repeated or given to another belief at the borders of a batch, and it
  fails only if reading one of them does.
\<close>
theorem batched_reading_exact:
  assumes "distinct (map (\<lambda>r. text_cell r ''id'') rs)"
  shows "hydrate_beliefs C d rs = Inr bs \<longleftrightarrow> map_result (read_belief C d) rs = Inr bs"
  by (rule hydrate_exact [OF assms])

lemma sample_row_read:
  assumes "map_result evidence_ref_from_row
      (select ''belief_evidence'' (where_text ''belief_id'' i) [''belief_id'', ''evidence_id'', ''span_json''] d)
    = Inr (sort_key (\<lambda>e. [evidence_id e, span_text e]) es)" and "d ''justifications'' = []"
  shows "read_belief sample_codec d (belief_row sample_codec ''#'' 5 (sample_belief i [] [])) = Inr (ordered (sample_belief i es []))"
proof -
  let ?b = "sample_belief i es []"
  have row: "belief_row sample_codec ''#'' 5 (sample_belief i [] []) = belief_row sample_codec ''#'' 5 ?b"
    by (simp add: belief_row_def sample_belief_def)
  have id: "text_cell (belief_row sample_codec ''#'' 5 ?b) ''id'' = i"
    by (simp add: belief_row_def sample_belief_def cell_def dict_get_def)
  have "read_float (float_repr sample_codec (1 / 2)) = Some (Finite (1 / 2))" "parse_datetime sample_codec (iso sample_codec 5) = Inr (Aware 5)"
    by code_simp+
  moreover from this(1) have "\<forall>q. Some (1 / 2) = Some q \<longrightarrow> read_float (float_repr sample_codec q) = Some (Finite q)"
    by (metis option.inject)
  ultimately have "belief_from_row sample_codec (belief_row sample_codec ''#'' 5 ?b) (sort_key (\<lambda>e. [evidence_id e, span_text e]) (b_evidence ?b))
      (sort_key j_id (b_justifications ?b)) = Inr (ordered ?b)"
    by (intro belief_row_read) (simp_all only: sample_belief_def belief.select_convs, simp_all)
  then show ?thesis using assms
    by (simp add: read_belief_def row id select_def) (simp add: sample_belief_def)
qed

theorem batched_reading_exact_witness:
  "\<exists>bs. hydrate_beliefs sample_codec (\<lambda>t. if t = ''belief_evidence'' then map (evidence_row ''b'') sample_refs else [])
       (map (\<lambda>i. belief_row sample_codec ''#'' 5 (sample_belief i [] [])) [''p'', ''b'']) = Inr bs
     \<and> map b_id bs = [''p'', ''b''] \<and> map (\<lambda>b. length (b_evidence b)) bs = [0, 2]"
proof -
  let ?d = "\<lambda>t. if t = ''belief_evidence'' then map (evidence_row ''b'') sample_refs else []"
  let ?rs = "map (\<lambda>i. belief_row sample_codec ''#'' 5 (sample_belief i [] [])) [''p'', ''b'']"
  have ids: "distinct (map (\<lambda>r. text_cell r ''id'') ?rs)" by code_simp
  have "select ''belief_evidence'' (where_text ''belief_id'' ''p'') [''belief_id'', ''evidence_id'', ''span_json''] ?d = []" by code_simp
  then have p: "read_belief sample_codec ?d (belief_row sample_codec ''#'' 5 (sample_belief ''p'' [] [])) = Inr (ordered (sample_belief ''p'' [] []))"
    by (intro sample_row_read) simp_all
  have b: "read_belief sample_codec ?d (belief_row sample_codec ''#'' 5 (sample_belief ''b'' [] [])) = Inr (ordered (sample_belief ''b'' sample_refs []))"
    using evidence_read [of ?d "\<lambda>t. []" "''b''" sample_refs] by (intro sample_row_read) simp_all
  have "map_result (read_belief sample_codec ?d) ?rs = Inr [ordered (sample_belief ''p'' [] []), ordered (sample_belief ''b'' sample_refs [])]"
    by (simp add: p b)
  note hydrated = iffD2 [OF batched_reading_exact [OF ids] this]
  have "map b_id [ordered (sample_belief ''p'' [] []), ordered (sample_belief ''b'' sample_refs [])] = [''p'', ''b'']"
    "map (\<lambda>b. length (b_evidence b)) [ordered (sample_belief ''p'' [] []), ordered (sample_belief ''b'' sample_refs [])] = [0, 2]"
    by (simp_all add: ordered_def sample_belief_def sample_refs_def)
  then show ?thesis by (intro exI conjI) (rule hydrated, assumption+)
qed

end
