(* ===== verification/Scheduling.thy ===== *)
theory Scheduling
  imports Read_Back Llm_Budget Ingestion Ledger_Chain Projection_Props
begin

text \<open>
  \<open>verification/scheduler.py\<close> and \<open>verification/methods.py\<close>: requests for verification, the count of independent
  confirmations already in the ledger, and the completion of a task. Another process may append between the
  look for an open task and the append of a new one: \<open>others\<close> is what it does to the ledger.
\<close>

section \<open>Requests\<close>

record verification_result =
  ve_task :: verification_task
  ve_created :: bool
  ve_event_ids :: "string list"

definition open_task_for :: "string \<Rightarrow> string \<Rightarrow> verification_method \<Rightarrow> db \<Rightarrow> verification_task option result" where
  "open_task_for ep i method d =
     and_then (list_verification_tasks ep ''open'' d) (\<lambda>ts.
       Inr (find (\<lambda>t. vt_belief_id t = i \<and> vt_method t = method) ts))"

definition new_task :: "string \<Rightarrow> string \<Rightarrow> string \<Rightarrow> verification_method \<Rightarrow> int \<Rightarrow> int \<Rightarrow> verification_task" where
  "new_task new_id ep i method k n =
     \<lparr>vt_id = new_id, vt_episode_id = ep, vt_belief_id = i, vt_method = method, k_required = max 1 (min k 20), budget = max 0 n,
      vt_result = None, vt_state = ''open''\<rparr>"

text \<open>The existing task is what the request returns, with nothing appended.\<close>

definition existing_task :: "verification_task \<Rightarrow> verification_result" where
  "existing_task t = \<lparr>ve_task = t, ve_created = False, ve_event_ids = []\<rparr>"

definition request ::
  "ledger_env \<Rightarrow> codec \<Rightarrow> string \<Rightarrow> stamps \<Rightarrow> (ledger \<Rightarrow> ledger) \<Rightarrow> string \<Rightarrow> string \<Rightarrow> verification_method \<Rightarrow> int \<Rightarrow> int
     \<Rightarrow> ledger \<Rightarrow> verification_result result \<times> ledger" where
  "request E C new_id stamps others ep i method k n l =
     (case get_belief C i (lg_db l) of
        Inl e \<Rightarrow> (Inl e, l)
      | Inr found \<Rightarrow>
        if (case found of None \<Rightarrow> True | Some b \<Rightarrow> b_episode_id b \<noteq> ep)
        then (Inl (ValueError ''verification belief must belong to the requested episode''), l)
        else (case open_task_for ep i method (lg_db l) of
          Inl e \<Rightarrow> (Inl e, l)
        | Inr (Some t) \<Rightarrow> (Inr (existing_task t), l)
        | Inr None \<Rightarrow>
          (let task = new_task new_id ep i method k n; l1 = others l in
           case append_events E ep [record_draft ''VERIFICATION_TASK_CREATED'' ''verification_task'' new_id (verification_task_fields task)]
                  [] [] [] stamps l1 of
             Inr (es, l2) \<Rightarrow> (Inr \<lparr>ve_task = task, ve_created = True, ve_event_ids = [ev_id (hd es)]\<rparr>, l2)
           | Inl (IntegrityError m) \<Rightarrow>
               (case open_task_for ep i method (lg_db l1) of
                  Inl e \<Rightarrow> (Inl e, l1)
                | Inr (Some t) \<Rightarrow> (Inr (existing_task t), l1)
                | Inr None \<Rightarrow> (Inl (IntegrityError m), l1))
           | Inl e \<Rightarrow> (Inl e, l1))))"

section \<open>Confirmations and completion\<close>

text \<open>The roots, other than its own, of the beliefs that assert the same content independently.\<close>

definition passive_roots :: "library \<Rightarrow> rat \<Rightarrow> belief \<Rightarrow> belief list \<Rightarrow> (string \<times> source) list \<Rightarrow> string list result" where
  "passive_roots L threshold b candidates sources =
     and_then (dict_item sources (b_source_id b)) (\<lambda>own.
     fold_result (\<lambda>c roots.
        if b_id c = b_id b \<or> b_status c \<in> {OUT, QUARANTINED} \<or> normalized_content c \<noteq> normalized_content b then Inr roots
        else and_then (dict_item sources (b_source_id c)) (\<lambda>s.
          if independent L (src_root own) (src_root s) (content b) (content c) threshold
          then Inr (List.insert (src_root s) roots) else Inr roots)) candidates [])"

definition passive_cross_source_count :: "library \<Rightarrow> rat \<Rightarrow> belief \<Rightarrow> belief list \<Rightarrow> (string \<times> source) list \<Rightarrow> nat result" where
  "passive_cross_source_count L threshold b candidates sources =
     and_then (passive_roots L threshold b candidates sources) (\<lambda>roots. Inr (length roots))"

definition complete_task :: "ledger_env \<Rightarrow> stamps \<Rightarrow> verification_task \<Rightarrow> string \<Rightarrow> ledger \<Rightarrow> string list result \<times> ledger" where
  "complete_task E stamps t r l =
     (if r \<notin> set [''confirmed'', ''disconfirmed'', ''inconclusive''] then (Inl (ValueError ''invalid verification result''), l)
      else case append_events E (vt_episode_id t)
          [\<lparr>ed_kind = ''VERIFICATION_TASK_COMPLETED'', ed_aggregate_type = ''verification_task'', ed_aggregate_id = vt_id t,
            ed_payload = JObj [(''result'', JStr r), (''state'', JStr ''completed'')], ed_causal_event_id = None\<rparr>]
          [] [] (vt_id t) stamps l of
        Inl e \<Rightarrow> (Inl e, l)
      | Inr (es, l') \<Rightarrow> (Inr (map ev_id es), l'))"

definition method_instruction :: "verification_method \<Rightarrow> string \<Rightarrow> string" where
  "method_instruction method proposition =
     (case method of
        CROSS_SOURCE \<Rightarrow> ''Find an independently rooted source that asserts or refutes: ''
      | TOOL_RECHECK \<Rightarrow> ''Use a read-only observable in the same environment to re-check: ''
      | CHAIN_AUDIT \<Rightarrow> ''Audit all IN premises and the warrant for: ''
      | HUMAN \<Rightarrow> ''Ask the user for explicit confirmation of: '') @ proposition"

section \<open>At most one open task\<close>

definition open_rows :: "string \<Rightarrow> string \<Rightarrow> verification_method \<Rightarrow> db \<Rightarrow> row list" where
  "open_rows ep i method d = filter (\<lambda>r. in_state ep ''open'' r \<and> text_cell r ''belief_id'' = i
      \<and> text_cell r ''method'' = verification_method_value method) (d ''verification_tasks'')"

text \<open>What the affinity of the columns gives: tasks name beliefs and methods by texts.\<close>

definition task_texts :: "db \<Rightarrow> bool" where
  "task_texts d = list_all (\<lambda>r. cell r ''belief_id'' = JStr (text_cell r ''belief_id'') \<and> cell r ''method'' = JStr (text_cell r ''method''))
     (d ''verification_tasks'')"

lemma no_clash_single:
  assumes "no_clash ts rs" and "\<And>r r'. r \<in> set rs \<Longrightarrow> r' \<in> set rs \<Longrightarrow> p r \<Longrightarrow> p r' \<Longrightarrow> clashes ts r r'" and "r \<in> set rs" and "p r"
  shows "filter p rs = [r]"
  using assms
proof (induction rs)
  case (Cons x xs)
  show ?case
  proof (cases "p x")
    case True
    then have "\<forall>y\<in>set xs. \<not> p y" using Cons.prems(1,2) by (auto simp: list_all_iff)
    with True Cons.prems(3,4) show ?thesis by (auto simp: filter_empty_conv)
  next
    case False
    with Cons show ?thesis by auto
  qed
qed simp

lemma open_row_single:
  assumes "consistent ledger_schema d" and "task_texts d" and "r \<in> set (open_rows ep i method d)"
  shows "open_rows ep i method d = [r]"
  unfolding open_rows_def
proof (rule no_clash_single)
  show "no_clash (ledger_schema ''verification_tasks'') (d ''verification_tasks'')" using assms(1) by (simp add: consistent_def)
  have key: "[''episode_id'', ''belief_id'', ''method'', ''state''] \<in> set (ts_keys (ledger_schema ''verification_tasks''))" by code_simp
  fix r r' assume r: "r \<in> set (d ''verification_tasks'')" "r' \<in> set (d ''verification_tasks'')"
    and p: "in_state ep ''open'' r \<and> text_cell r ''belief_id'' = i \<and> text_cell r ''method'' = verification_method_value method"
      "in_state ep ''open'' r' \<and> text_cell r' ''belief_id'' = i \<and> text_cell r' ''method'' = verification_method_value method"
  have "cell x ''belief_id'' = JStr i \<and> cell x ''method'' = JStr (verification_method_value method)
      \<and> cell x ''episode_id'' = JStr ep \<and> cell x ''state'' = JStr ''open''" if "x \<in> {r, r'}" for x
    using that r p assms(2) by (auto simp: task_texts_def list_all_iff in_state_def where_text_def)
  then have "clash [''episode_id'', ''belief_id'', ''method'', ''state''] r r'"
    by (simp add: clash_def key_cells_def)
  with key show "clashes (ledger_schema ''verification_tasks'') r r'" by (auto simp: clashes_def list_ex_iff)
qed (use assms(3) in \<open>auto simp: open_rows_def\<close>)

lemma enum_of_value: "enum_of f vs s = Inr v \<Longrightarrow> f v = s"
  by (auto simp: enum_of_def find_Some_iff split: option.splits)

lemma open_task_row:
  assumes "open_task_for ep i method d = Inr (Some t)"
  obtains r where "r \<in> set (open_rows ep i method d)" "verification_from_row r = Inr t"
proof -
  obtain ts where ts: "list_verification_tasks ep ''open'' d = Inr ts" "find (\<lambda>t. vt_belief_id t = i \<and> vt_method t = method) ts = Some t"
    using assms by (auto simp: open_task_for_def splits_result)
  then have t: "t \<in> set ts" "vt_belief_id t = i" "vt_method t = method"
    by (auto simp: find_Some_iff)
  from map_result_Inr [OF ts(1) [unfolded list_verification_tasks_def]] t(1)
  obtain r where r: "r \<in> set (select ''verification_tasks'' (in_state ep ''open'') [''id''] d)" "verification_from_row r = Inr t" by blast
  have "text_cell r ''belief_id'' = i" "text_cell r ''method'' = verification_method_value method"
    using r(2) t(2,3) by (auto simp: verification_from_row_def splits_result dest: enum_of_value)
  with r that show thesis by (auto simp: open_rows_def in_select)
qed

definition task_row :: "verification_task \<Rightarrow> row" where
  "task_row t =
     [(''id'', JStr (vt_id t)), (''episode_id'', JStr (vt_episode_id t)), (''belief_id'', JStr (vt_belief_id t)),
      (''method'', JStr (verification_method_value (vt_method t))), (''k_required'', JInt (k_required t)),
      (''budget'', JInt (budget t)), (''result'', optional JStr (vt_result t)), (''state'', JStr (vt_state t))]"

lemma task_row_read: "verification_from_row (task_row t) = Inr t"
proof -
  have "read_method (verification_method_value (vt_method t)) = Inr (vt_method t)"
    by (cases "vt_method t") (simp_all add: enum_of_def)
  then show ?thesis
    by (cases "vt_result t")
      (simp_all add: verification_from_row_def task_row_def cell_def dict_get_def optional_def text_or_none_def verification_task.equality)
qed

lemma task_inserted:
  assumes "verification_created (verification_task_fields t) d = Inr d'"
  shows "d' ''verification_tasks'' = d ''verification_tasks'' @ [task_row t]"
proof -
  let ?cols = "columns_of [''id'', ''episode_id'', ''belief_id'', ''method'', ''k_required'', ''budget'']
           @ [(''result'', get_or ''result'' JNull), (''state'', get_or ''state'' (JStr ''open''))]"
  have cols: "read_columns ?cols (verification_task_fields t) = Inr (task_row t)"
    by (simp add: verification_task_fields_def columns_of_def item_def dict_item_def get_or_def dict_get_def task_row_def)
  have bind: "bind_all (task_row t) = Inr (task_row t)"
    by (cases "vt_result t") (simp_all add: task_row_def optional_def)
  have "ts_columns (ledger_schema ''verification_tasks'') = [tcol_null ''id'', tcol ''episode_id'', tcol ''belief_id'', tcol ''method'',
          icol ''k_required'', icol ''budget'', tcol_null ''result'', tcol ''state'']" by code_simp
  then have row: "make_row (ledger_schema ''verification_tasks'') (task_row t) = task_row t"
    by (cases "vt_result t") (simp_all add: make_row_def tcol_def tcol_null_def icol_def dict_get_def task_row_def optional_def)
  have "insert_into ''verification_tasks'' (task_row t) d = Inr d'"
    using assms cols by (auto simp: verification_created_def splits_result insert_record_def)
  with bind row show ?thesis by (auto simp: sql_insert_def insert_row_def split: if_splits)
qed

lemma advance_frame: "advance_event_head e d = Inr d' \<Longrightarrow> t \<noteq> ''event_heads'' \<Longrightarrow> d' t = d t"
  by (auto simp: advance_event_head_def sql_insert_def insert_row_def sql_update_def update_rows_def Let_def splits_result split: if_splits)

lemma task_event_applied:
  assumes "apply_event X e d = Inr d'" and "ev_kind e = ''VERIFICATION_TASK_CREATED''"
    and "ev_payload e = JObj [(''record'', JObj (verification_task_fields t))]"
  shows "d' ''verification_tasks'' = d ''verification_tasks'' @ [task_row t]"
proof -
  have h: "map_of EVENT_HANDLERS ''VERIFICATION_TASK_CREATED'' = Some (\<lambda>X. apply_verification_created)"
    by (simp add: EVENT_HANDLERS_def)
  have p: "payload e = [(''record'', JObj (verification_task_fields t))]" by (simp add: payload_def assms(3))
  obtain d1 where "verification_created (verification_task_fields t) d = Inr d1" "advance_event_head e d1 = Inr d'"
    using assms(1,2) h by (auto simp: apply_event_def splits_result apply_verification_created_def mapping_of_def p dict_get_def split: if_splits)
  from task_inserted [OF this(1)] advance_frame [OF this(2), of "''verification_tasks''"] show ?thesis by simp
qed

abbreviation task_draft :: "verification_task \<Rightarrow> event_draft" where
  "task_draft t \<equiv> record_draft ''VERIFICATION_TASK_CREATED'' ''verification_task'' (vt_id t) (verification_task_fields t)"

lemma task_appended:
  assumes "append_events E ep [task_draft t] [] [] [] stamps l = Inr (es, l')"
    and "plain_name ep" and "consistent ledger_schema (lg_db l)"
  shows "lg_db l' ''verification_tasks'' = lg_db l ''verification_tasks'' @ [task_row t]"
    and "consistent ledger_schema (lg_db l')" and "length es = 1"
proof -
  obtain e d where e: "es = [e]" "lg_db l' = d" "apply_event (le_storage E) e (lg_db l) = Inr d"
    and kind: "ev_kind e = ''VERIFICATION_TASK_CREATED''" "ev_payload e = JObj [(''record'', JObj (verification_task_fields t))]"
      "ev_episode_id e = ep"
    using assms(1) by (auto simp: append_events_def append_drafts_def append_one_def splits_result Let_def record_draft_def
        build_event_def insert_event_iff)
  show "lg_db l' ''verification_tasks'' = lg_db l ''verification_tasks'' @ [task_row t]"
    using task_event_applied [OF e(3) kind(1,2)] e(2) by simp
  show "consistent ledger_schema (lg_db l')"
    using apply_event_writes [OF e(3) _ later_refl] assms(2,3) kind(3) e(2) by (auto simp: writes_def intro: scoped_writes_consistent)
  show "length es = 1" using e(1) by simp
qed

lemma open_task_single:
  assumes "open_task_for ep i method d = Inr (Some t)" and "consistent ledger_schema d" and "task_texts d"
  shows "\<exists>r. open_rows ep i method d = [r] \<and> verification_from_row r = Inr t"
proof -
  obtain r where r: "r \<in> set (open_rows ep i method d)" "verification_from_row r = Inr t" using open_task_row [OF assms(1)] .
  from open_row_single [OF assms(2,3) r(1)] r(2) show ?thesis by blast
qed

text \<open>The three ways a request succeeds: the task was there, it is appended, or another process was first.\<close>

lemma request_cases:
  assumes "request E C new_id stamps others ep i method k n l = (Inr out, l')"
  obtains (known) t where "open_task_for ep i method (lg_db l) = Inr (Some t)" "out = existing_task t" "l' = l"
    | (new) es where "append_events E ep [task_draft (new_task new_id ep i method k n)] [] [] [] stamps (others l) = Inr (es, l')"
        "out = \<lparr>ve_task = new_task new_id ep i method k n, ve_created = True, ve_event_ids = [ev_id (hd es)]\<rparr>"
    | (lost) t where "open_task_for ep i method (lg_db (others l)) = Inr (Some t)" "out = existing_task t" "l' = others l"
proof -
  let ?t = "new_task new_id ep i method k n"
  let ?append = "append_events E ep [task_draft ?t] [] [] [] stamps (others l)"
  have id: "vt_id ?t = new_id" by (simp add: new_task_def)
  have "get_belief C i (lg_db l) \<noteq> Inl e" for e using assms by (auto simp: request_def)
  then obtain found where "get_belief C i (lg_db l) = Inr found" by (cases "get_belief C i (lg_db l)") auto
  then have req: "(case open_task_for ep i method (lg_db l) of
          Inl e \<Rightarrow> (Inl e, l)
        | Inr (Some t) \<Rightarrow> (Inr (existing_task t), l)
        | Inr None \<Rightarrow>
           (case ?append of
             Inr (es, l2) \<Rightarrow> (Inr \<lparr>ve_task = ?t, ve_created = True, ve_event_ids = [ev_id (hd es)]\<rparr>, l2)
           | Inl (IntegrityError m) \<Rightarrow>
               (case open_task_for ep i method (lg_db (others l)) of
                  Inl e \<Rightarrow> (Inl e, others l)
                | Inr (Some t) \<Rightarrow> (Inr (existing_task t), others l)
                | Inr None \<Rightarrow> (Inl (IntegrityError m), others l))
           | Inl e \<Rightarrow> (Inl e, others l))) = (Inr out, l')"
    using assms unfolding request_def Let_def id by (simp split: if_splits)
  show thesis
  proof (cases "open_task_for ep i method (lg_db l)")
    case (Inr o1)
    show thesis
    proof (cases o1)
      case None
      show thesis
      proof (cases ?append)
        case (Inl e)
        with req \<open>open_task_for ep i method (lg_db l) = Inr o1\<close> None lost show thesis
          by (cases e) (simp_all split: sum.splits option.splits)
      next
        case (Inr p)
        obtain es l2 where p: "p = (es, l2)" by fastforce
        with req \<open>open_task_for ep i method (lg_db l) = Inr o1\<close> None Inr
        have "out = \<lparr>ve_task = ?t, ve_created = True, ve_event_ids = [ev_id (hd es)]\<rparr>" "l2 = l'" by simp_all
        with Inr p show thesis by (intro new) simp_all
      qed
    next
      case (Some t)
      with req Inr have "out = existing_task t" "l' = l" by simp_all
      with Inr Some show thesis by (intro known) simp_all
    qed
  qed (use req in simp)
qed

text \<open>
  C38. A request for verification leaves exactly one open task for the belief and the method, and returns
  it, even when another process appends between the look for an open task and the append of a new one. A
  new task asks for at least one and at most twenty confirmations; when a task was there, nothing is
  appended.
\<close>
theorem one_open_task:
  assumes "request E C new_id stamps others ep i method k n l = (Inr out, l')" and "plain_name ep"
    and "consistent ledger_schema (lg_db l)" and "consistent ledger_schema (lg_db (others l))"
    and "task_texts (lg_db l)" and "task_texts (lg_db (others l))"
  shows "(\<exists>r. open_rows ep i method (lg_db l') = [r] \<and> verification_from_row r = Inr (ve_task out))
    \<and> (if ve_created out then 1 \<le> k_required (ve_task out) \<and> k_required (ve_task out) \<le> 20 \<and> 0 \<le> budget (ve_task out)
         \<and> length (ve_event_ids out) = 1
       else ve_event_ids out = [] \<and> l' \<in> {l, others l})"
  using assms(1)
proof (cases rule: request_cases)
  case known
  with open_task_single [OF known(1) assms(3,5)] show ?thesis by (simp add: existing_task_def)
next
  case lost
  with open_task_single [OF lost(1) assms(4,6)] show ?thesis by (simp add: existing_task_def)
next
  case new
  let ?t = "new_task new_id ep i method k n"
  note a = task_appended [OF new(1) assms(2,4)]
  have mem: "task_row ?t \<in> set (open_rows ep i method (lg_db l'))"
    by (simp add: a(1) open_rows_def in_state_def where_text_def task_row_def cell_def dict_get_def new_task_def)
  have "task_texts (lg_db l')"
    using assms(6) by (simp add: task_texts_def a(1) task_row_def cell_def dict_get_def)
  note single = open_row_single [OF a(2) this mem]
  have "1 \<le> k_required ?t \<and> k_required ?t \<le> 20 \<and> 0 \<le> budget ?t" by (simp add: new_task_def)
  with single new(2) task_row_read [of ?t] show ?thesis by simp
qed

section \<open>A small ledger\<close>

lemma consistent_tables:
  assumes "list_all (\<lambda>t. no_clash (S t) (d t) \<and> list_all (\<lambda>r. not_null_ok (S t) r \<and> references_ok (S t) d r) (d t)) ts"
    and "\<And>t. t \<notin> set ts \<Longrightarrow> d t = []"
  shows "consistent S d"
  unfolding consistent_def
proof
  fix t
  show "no_clash (S t) (d t) \<and> (\<forall>r\<in>set (d t). not_null_ok (S t) r \<and> references_ok (S t) d r)"
    by (cases "t \<in> set ts") (use assms in \<open>auto simp: list_all_iff\<close>)
qed

definition sample_task :: verification_task where
  "sample_task = new_task ''v'' ''ep'' ''b'' CROSS_SOURCE 50 1"

definition sample_rows :: "(string \<times> row list) list" where
  "sample_rows =
     [(''episodes'', [(''id'', JStr ''ep'') # text_fields [''episode_key'', ''session_id'', ''task_id'', ''platform'', ''model'', ''default_stakes'',
        ''current_turn'', ''created_at'', ''updated_at'', ''compatibility_mode'', ''llm_calls_used'', ''input_tokens_used'',
        ''output_tokens_used'', ''state'']]),
      (''sources'', [[(''id'', JStr ''src''), (''episode_id'', JStr ''ep'')] @ text_fields [''kind'', ''integrity'', ''name'', ''root'', ''competence_json'', ''stats_json'']]),
      (''beliefs'', [belief_row sample_codec ''#'' 5 (sample_belief ''b'' [] [])]),
      (''verification_tasks'', [task_row sample_task])]"

definition sample_tables :: db where
  "sample_tables t = dict_get sample_rows t []"

definition sample_ledger :: ledger where
  "sample_ledger = empty_ledger\<lparr>lg_db := sample_tables\<rparr>"

lemma sample_tables_consistent: "consistent ledger_schema sample_tables"
proof (rule consistent_tables [where ts = "[''episodes'', ''sources'', ''beliefs'', ''verification_tasks'']"])
  show "t \<notin> set [''episodes'', ''sources'', ''beliefs'', ''verification_tasks''] \<Longrightarrow> sample_tables t = []" for t
    by (simp add: sample_tables_def sample_rows_def dict_get_def)
qed code_simp

lemma sample_table_rows:
  "sample_tables ''beliefs'' = [belief_row sample_codec ''#'' 5 (sample_belief ''b'' [] [])]"
  "sample_tables ''verification_tasks'' = [task_row sample_task]"
  "sample_tables ''belief_evidence'' = []" "sample_tables ''justifications'' = []"
  by (simp_all add: sample_tables_def sample_rows_def dict_get_def)

lemma sample_belief_found: "get_belief sample_codec ''b'' sample_tables = Inr (Some (ordered (sample_belief ''b'' [] [])))"
proof -
  let ?row = "belief_row sample_codec ''#'' 5 (sample_belief ''b'' [] [])"
  have "read_belief sample_codec sample_tables ?row = Inr (ordered (sample_belief ''b'' [] []))"
    by (rule sample_row_read) (simp_all add: sample_table_rows select_def)
  then have "hydrate_beliefs sample_codec sample_tables [?row] = Inr [ordered (sample_belief ''b'' [] [])]"
    by (simp add: hydrate_exact)
  moreover have "where_text ''id'' ''b'' ?row" by (simp add: where_text_def belief_row_def cell_def dict_get_def sample_belief_def)
  ultimately show ?thesis by (simp add: get_belief_def sql_first_def sample_table_rows)
qed

lemma sample_task_open: "open_task_for ''ep'' ''b'' CROSS_SOURCE sample_tables = Inr (Some sample_task)"
proof -
  have "in_state ''ep'' ''open'' (task_row sample_task)"
    by (simp add: in_state_def where_text_def task_row_def cell_def dict_get_def sample_task_def new_task_def)
  then have "list_verification_tasks ''ep'' ''open'' sample_tables = Inr [sample_task]"
    by (simp add: list_verification_tasks_def select_def sample_table_rows task_row_read)
  then show ?thesis by (simp add: open_task_for_def sample_task_def new_task_def)
qed

theorem one_open_task_witness:
  "\<forall>E stamps. \<exists>out r. request E sample_codec ''w'' stamps (\<lambda>l. l) ''ep'' ''b'' CROSS_SOURCE 3 1 sample_ledger = (Inr out, sample_ledger)
     \<and> open_rows ''ep'' ''b'' CROSS_SOURCE sample_tables = [r] \<and> verification_from_row r = Inr (ve_task out) \<and> \<not> ve_created out"
proof (intro allI)
  fix E :: ledger_env and stamps :: stamps
  have db: "lg_db sample_ledger = sample_tables" by (simp add: sample_ledger_def)
  have "b_episode_id (ordered (sample_belief ''b'' [] [])) = ''ep''" by (simp add: ordered_def sample_belief_def)
  then have req: "request E sample_codec ''w'' stamps (\<lambda>l. l) ''ep'' ''b'' CROSS_SOURCE 3 1 sample_ledger = (Inr (existing_task sample_task), sample_ledger)"
    by (simp add: request_def db sample_belief_found sample_task_open)
  have "plain_name ''ep''" by (simp add: plain_name_def)
  moreover have "task_texts sample_tables" by (simp add: task_texts_def sample_table_rows task_row_def cell_def dict_get_def)
  ultimately have "\<exists>r. open_rows ''ep'' ''b'' CROSS_SOURCE sample_tables = [r] \<and> verification_from_row r = Inr (ve_task (existing_task sample_task))"
    using one_open_task [OF req, unfolded db] sample_tables_consistent by blast
  with req show "\<exists>out r. request E sample_codec ''w'' stamps (\<lambda>l. l) ''ep'' ''b'' CROSS_SOURCE 3 1 sample_ledger = (Inr out, sample_ledger)
     \<and> open_rows ''ep'' ''b'' CROSS_SOURCE sample_tables = [r] \<and> verification_from_row r = Inr (ve_task out) \<and> \<not> ve_created out"
    by (intro exI [of _ "existing_task sample_task"]) (simp add: existing_task_def)
qed

section \<open>A setting without effect\<close>

text \<open>
  The threshold for near duplicates decides nothing: only beliefs with the same normalised content are
  compared, and those are independent as soon as their roots differ.
\<close>
theorem duplicate_threshold_unused:
  assumes "list_all (\<lambda>c. normalized_content c = normalize_content (content c)) (b # candidates)"
  shows "passive_cross_source_count L threshold b candidates sources = passive_cross_source_count L other b candidates sources"
proof -
  have "fold_result (\<lambda>c roots.
        if b_id c = b_id b \<or> b_status c \<in> {OUT, QUARANTINED} \<or> normalized_content c \<noteq> normalized_content b then Inr roots
        else and_then (dict_item sources (b_source_id c)) (\<lambda>s.
          if independent L rt (src_root s) (content b) (content c) threshold
          then Inr (List.insert (src_root s) roots) else Inr roots)) candidates []
    = fold_result (\<lambda>c roots.
        if b_id c = b_id b \<or> b_status c \<in> {OUT, QUARANTINED} \<or> normalized_content c \<noteq> normalized_content b then Inr roots
        else and_then (dict_item sources (b_source_id c)) (\<lambda>s.
          if independent L rt (src_root s) (content b) (content c) other
          then Inr (List.insert (src_root s) roots) else Inr roots)) candidates []" for rt
    using assms by (intro fold_result_cong) (auto simp: list_all_iff independent_def intro!: and_then_cong)
  then show ?thesis by (simp add: passive_cross_source_count_def passive_roots_def)
qed

end
