(* ===== verification/Commit.thy ===== *)
theory Commit
  imports Scheduling Relabelling
begin

text \<open>
  \<open>EpisodeService.relabel\<close> (\<open>src/belief_ledger_pramana/runtime/episode_service.py\<close>): the labelling the engine
  computes from what the store holds is committed as one batch of events. Identifiers of new records are a
  parameter. The main fact: after the commit the projections hold exactly the computed labels and activities.
\<close>

section \<open>Drafts\<close>

record fresh_ids =
  fr_task :: "string \<times> string \<Rightarrow> string"
  fr_conflict :: "string \<times> string \<Rightarrow> string"
  fr_notice :: "string \<Rightarrow> string"

definition plain_draft :: "string \<Rightarrow> string \<Rightarrow> string \<Rightarrow> (string \<times> json) list \<Rightarrow> event_draft" where
  "plain_draft kind aggregate i fs =
     \<lparr>ed_kind = kind, ed_aggregate_type = aggregate, ed_aggregate_id = i, ed_payload = JObj fs, ed_causal_event_id = None\<rparr>"

definition edge_activity_drafts :: "defeat_edge list \<Rightarrow> relabel_result \<Rightarrow> event_draft list" where
  "edge_activity_drafts defeats out =
     map (\<lambda>e. plain_draft ''DEFEAT_ACTIVITY_CHANGED'' ''defeat'' (d_id e) [(''active'', JBool (dict_get (rr_active_edges out) (d_id e) False))])
       (filter (\<lambda>e. dict_get (rr_active_edges out) (d_id e) False \<noteq> d_active e) defeats)"

text \<open>\<open>runtime/helpers.py: _descendant_ids\<close>, with the top of the stack in front\<close>

function visit :: "graph \<Rightarrow> string list \<Rightarrow> string set \<Rightarrow> string set" where
  "visit g [] seen = seen"
| "visit g (i # pending) seen =
     (if i \<in> seen then visit g pending seen else visit g (children g i @ pending) (insert i seen))"
  by pat_completeness auto
termination
proof (relation "inv_image (finite_psubset <*lex*> less_than) (\<lambda>(g, pending, seen). (set (map fst g) - seen, length pending))", goal_cases)
  case (3 g i pending seen)
  then show ?case
    by (cases "i \<in> set (map fst g)") (auto simp: finite_psubset_def children_outside)
qed auto

definition descendant_ids :: "justification list \<Rightarrow> string \<Rightarrow> string list" where
  "descendant_ids js i = (let g = adjacency js in sorted_list_of_set (visit g (children g i) {}))"

text \<open>What the service looks up before it writes.\<close>

record transition_view =
  tv_episode :: string
  tv_turn :: int
  tv_ttl :: int
  tv_notices :: "string list"
  tv_rendered :: "string set"
  tv_sampled :: "string \<Rightarrow> bool"
  tv_justifications :: "justification list"

definition retraction_fields :: "retraction_notice \<Rightarrow> (string \<times> json) list" where
  "retraction_fields n =
     [(''id'', JStr (rn_id n)), (''episode_id'', JStr (rn_episode_id n)), (''defeated_belief_id'', JStr (rn_defeated_belief_id n)),
      (''cause'', JStr (rn_cause n)), (''descendants'', strs (rn_descendants n)), (''created_turn'', JInt (rn_created_turn n)),
      (''ttl_turns'', JInt (rn_ttl_turns n)), (''state'', JStr (rn_state n))]"

definition status_draft :: "string \<Rightarrow> status \<Rightarrow> status \<Rightarrow> string \<Rightarrow> event_draft" where
  "status_draft i old now cause = plain_draft ''BELIEF_STATUS_CHANGED'' ''belief'' i
     [(''from'', JStr (status_value old)), (''to'', JStr (status_value now)), (''cause'', JStr cause)]"

definition retraction_draft :: "transition_view \<Rightarrow> fresh_ids \<Rightarrow> string \<Rightarrow> string \<Rightarrow> event_draft" where
  "retraction_draft V F i cause = record_draft ''RETRACTION_CREATED'' ''retraction'' (fr_notice F i) (retraction_fields
     \<lparr>rn_id = fr_notice F i, rn_episode_id = tv_episode V, rn_defeated_belief_id = i, rn_cause = cause,
      rn_descendants = descendant_ids (tv_justifications V) i, rn_created_turn = tv_turn V, rn_ttl_turns = tv_ttl V,
      rn_state = ''active''\<rparr>)"

text \<open>One belief of the loop, with the beliefs defeated so far by source.\<close>

definition transition ::
  "transition_view \<Rightarrow> fresh_ids \<Rightarrow> (string \<times> belief) list \<Rightarrow> relabel_result \<Rightarrow> string
     \<Rightarrow> event_draft list \<times> (string \<times> string list) list \<Rightarrow> (event_draft list \<times> (string \<times> string list) list) result" where
  "transition V F beliefs out i = (\<lambda>(drafts, losses).
     and_then (dict_item beliefs i) (\<lambda>b.
     and_then (dict_item (rr_statuses out) i) (\<lambda>now.
       if b_status b = now then Inr (drafts, losses)
       else let cause = dict_get (rr_causes out) i ''fixed_point_relabel'' in Inr
         (drafts @ [status_draft i (b_status b) now cause]
            @ (if b_status b = IN \<and> now \<noteq> IN \<and> i \<in> tv_rendered V \<and> i \<notin> set (tv_notices V) then [retraction_draft V F i cause] else []),
          if b_status b = IN \<and> now = OUT \<and> \<not> tv_sampled V i
          then AList.update (b_source_id b) (dict_get losses (b_source_id b) [] @ [i]) losses else losses))))"

definition belief_transition_drafts ::
  "transition_view \<Rightarrow> fresh_ids \<Rightarrow> (string \<times> belief) list \<Rightarrow> relabel_result \<Rightarrow> (event_draft list \<times> (string \<times> string list) list) result" where
  "belief_transition_drafts V F beliefs out =
     fold_result (transition V F beliefs out) (sort (map fst (rr_statuses out))) ([], [])"

definition conflict_fields :: "conflict \<Rightarrow> (string \<times> json) list" where
  "conflict_fields c =
     [(''id'', JStr (cf_id c)), (''episode_id'', JStr (cf_episode_id c)), (''left_belief_id'', JStr (left_belief_id c)),
      (''right_belief_id'', JStr (right_belief_id c)), (''normalized_scope'', str_dict (normalized_scope c)),
      (''verification_task_id'', JStr (verification_task_id c)), (''state'', JStr (cf_state c))]"

definition pair_order :: "string \<times> string \<Rightarrow> string list" where
  "pair_order p = [fst p, snd p]"

definition ordered_belief_pair :: "string \<Rightarrow> string \<Rightarrow> string \<times> string" where
  "ordered_belief_pair a b = (if a \<le> b then (a, b) else (b, a))"

definition sorted_pairs :: "(string \<times> string) list \<Rightarrow> (string \<times> string) list" where
  "sorted_pairs ps = sort_key pair_order (remdups ps)"

text \<open>A conflict that is opened reuses the open task of its first belief.\<close>

definition open_conflict ::
  "string \<Rightarrow> fresh_ids \<Rightarrow> string \<times> string \<Rightarrow> event_draft list \<times> ((string \<times> verification_method) \<times> verification_task) list
     \<Rightarrow> event_draft list \<times> ((string \<times> verification_method) \<times> verification_task) list" where
  "open_conflict ep F p = (\<lambda>(drafts, tasks).
     let (task, tasks, created) = (case map_of tasks (fst p, CROSS_SOURCE) of
         Some t \<Rightarrow> (t, tasks, [])
       | None \<Rightarrow> (let t = \<lparr>vt_id = fr_task F p, vt_episode_id = ep, vt_belief_id = fst p, vt_method = CROSS_SOURCE, k_required = 1,
                          budget = 1, vt_result = None, vt_state = ''open''\<rparr>
                  in (t, AList.update (fst p, CROSS_SOURCE) t tasks, [task_draft t])));
       c = \<lparr>cf_id = fr_conflict F p, cf_episode_id = ep, left_belief_id = fst p, right_belief_id = snd p, normalized_scope = [],
            verification_task_id = vt_id task, cf_state = ''open''\<rparr>
     in (drafts @ created @ [record_draft ''CONFLICT_OPENED'' ''conflict'' (cf_id c) (conflict_fields c)], tasks))"

definition resolve_draft :: "conflict \<Rightarrow> event_draft" where
  "resolve_draft c = plain_draft ''CONFLICT_RESOLVED'' ''conflict'' (cf_id c)
     [(''reason'', JStr ''fixed point no longer contains equal-priority contradiction'')]"

definition conflict_transition_drafts ::
  "string \<Rightarrow> fresh_ids \<Rightarrow> conflict list \<Rightarrow> verification_task list \<Rightarrow> relabel_result \<Rightarrow> event_draft list" where
  "conflict_transition_drafts ep F open_conflicts open_tasks out =
     (let existing = fold (\<lambda>c. AList.update (ordered_belief_pair (left_belief_id c) (right_belief_id c)) c) open_conflicts [];
          tasks = fold (\<lambda>t. AList.update (vt_belief_id t, vt_method t) t) open_tasks [];
          opened = fold (open_conflict ep F) (sorted_pairs (filter (\<lambda>p. map_of existing p = None) (rr_conflicts out))) ([], tasks)
      in fst opened
         @ map (\<lambda>p. resolve_draft (the (map_of existing p)))
             (sorted_pairs (filter (\<lambda>p. p \<notin> set (rr_conflicts out)) (map fst existing))))"

definition summary_drafts :: "string \<Rightarrow> (string \<times> string list) list \<Rightarrow> relabel_result \<Rightarrow> event_draft list" where
  "summary_drafts ep losses out =
     concat (map (\<lambda>(src, is). map (\<lambda>i. plain_draft ''SOURCE_STATS_DELTA'' ''source'' src
         [(''belief_id'', JStr i), (''delta'', JObj [(''confirmed'', JInt 0), (''defeated'', JInt 1), (''samples'', JInt 1)])]) (sort is))
       (sort_key fst losses))
     @ (if rr_oscillation out then [plain_draft ''DEFEAT_CYCLE_SAMSAYA'' ''episode'' ep [(''iterations'', JInt (int (rr_iterations out)))]] else [])"

section \<open>The commit\<close>

text \<open>\<open>store.py: source_outcome_sampled\<close>, on the payloads the program writes\<close>

definition counted :: "json \<Rightarrow> string \<Rightarrow> string \<Rightarrow> bool" where
  "counted v i result_name =
     (case v of
        JObj kvs \<Rightarrow> dict_get kvs ''belief_id'' JNull = JStr i
          \<and> (case dict_get kvs ''delta'' JNull of
               JObj delta \<Rightarrow> (case dict_get delta result_name JNull of JInt n \<Rightarrow> 0 < n | JBool b \<Rightarrow> b | _ \<Rightarrow> False)
             | _ \<Rightarrow> False)
      | _ \<Rightarrow> False)"

definition source_outcome_sampled :: "string \<Rightarrow> string \<Rightarrow> ledger \<Rightarrow> bool result" where
  "source_outcome_sampled i result_name l =
     (if result_name \<notin> {''confirmed'', ''defeated''} then Inl (ValueError ''unsupported source outcome'')
      else Inr (list_ex (\<lambda>r. se_kind r = ''SOURCE_STATS_DELTA''
             \<and> (case json_loads (se_payload r) of Inr v \<Rightarrow> counted v i result_name | Inl e \<Rightarrow> False)) (lg_events l)))"

record relabel_setting =
  rl_codec :: codec
  rl_config :: engine_config
  rl_now :: datetime
  rl_turn :: int
  rl_ttl :: int
  rl_ids :: fresh_ids

text \<open>What the engine is given: the episode as the store holds it.\<close>

definition computed :: "relabel_setting \<Rightarrow> string \<Rightarrow> db \<Rightarrow> belief list \<Rightarrow> relabel_result result" where
  "computed R ep d bs =
     and_then (list_sources ep d) (\<lambda>ss. and_then (list_justifications ep d) (\<lambda>js.
     and_then (list_supports ep d) (\<lambda>sups. and_then (list_defeats ep d) (\<lambda>ds.
       relabel (keyed b_id bs) js sups ds (keyed src_id ss) (rl_config R) (Some (rl_now R))))))"

definition relabel_drafts :: "relabel_setting \<Rightarrow> string \<Rightarrow> ledger \<Rightarrow> belief list \<Rightarrow> relabel_result \<Rightarrow> event_draft list result" where
  "relabel_drafts R ep l bs out =
     (let d = lg_db l; beliefs = keyed b_id bs in
      and_then (list_justifications ep d) (\<lambda>js. and_then (list_defeats ep d) (\<lambda>ds.
      and_then (list_retractions ep ''active'' d) (\<lambda>notices.
      let V = \<lparr>tv_episode = ep, tv_turn = rl_turn R, tv_ttl = rl_ttl R, tv_notices = map rn_defeated_belief_id notices,
               tv_rendered = rendered_belief_ids ep
                 (map fst (filter (\<lambda>(i, s). map_option b_status (map_of beliefs i) = Some IN \<and> s \<noteq> IN) (rr_statuses out))) d,
               tv_sampled = (\<lambda>i. source_outcome_sampled i ''defeated'' l = Inr True), tv_justifications = js\<rparr> in
      and_then (belief_transition_drafts V (rl_ids R) beliefs out) (\<lambda>(transitions, losses).
      and_then (list_conflicts ep ''open'' d) (\<lambda>cs. and_then (list_verification_tasks ep ''open'' d) (\<lambda>ts. Inr
        (edge_activity_drafts ds out @ transitions @ conflict_transition_drafts ep (rl_ids R) cs ts out
         @ summary_drafts ep losses out))))))))"

definition relabel_episode :: "ledger_env \<Rightarrow> relabel_setting \<Rightarrow> string \<Rightarrow> stamps \<Rightarrow> ledger \<Rightarrow> (string list \<times> ledger) result" where
  "relabel_episode E R ep stamps l =
     and_then (list_beliefs (rl_codec R) ep [] [] None (lg_db l)) (\<lambda>bs.
       if bs = [] then Inr ([], l)
       else and_then (computed R ep (lg_db l) bs) (\<lambda>out.
            and_then (relabel_drafts R ep l bs out) (\<lambda>drafts.
              if drafts = [] then Inr ([], l)
              else and_then (append_events E ep drafts [] [] [] stamps l) (\<lambda>(es, l'). Inr (map ev_id es, l')))))"

end
