(* ===== verification/Commit_Props.thy ===== *)
theory Commit_Props
  imports Commit
begin

text \<open>
  What the commit of a labelling leaves in the projections. The view of an episode is the status of each of its
  beliefs and the activity of each of its defeats; an event of the commit changes the view at one place, and the
  events of a commit together make it the computed labelling.
\<close>

section \<open>Descendants\<close>

lemma visit_set:
  assumes "\<And>n m. n \<in> seen \<Longrightarrow> (n, m) \<in> graph_edges g \<Longrightarrow> m \<in> seen \<union> set pending"
  shows "visit g pending seen = seen \<union> (graph_edges g)\<^sup>* `` set pending"
  using assms
proof (induction g pending seen rule: visit.induct)
  case (2 g i pending seen)
  show ?case
  proof (cases "i \<in> seen")
    case True
    have seen: "m \<in> seen \<union> set pending" if "n \<in> seen" and "(n, m) \<in> graph_edges g" for n m
      using "2.prems" [OF that] True by auto
    have "visit g pending seen = seen \<union> (graph_edges g)\<^sup>* `` set pending" by (rule "2.IH"(1) [OF True seen])
    moreover have "(graph_edges g)\<^sup>* `` {i} \<subseteq> seen \<union> (graph_edges g)\<^sup>* `` set pending" by (rule reach_closed [OF True seen])
    ultimately show ?thesis using True by auto
  next
    case False
    have "visit g (children g i @ pending) (insert i seen) = insert i seen \<union> (graph_edges g)\<^sup>* `` set (children g i @ pending)"
      using "2.prems" False by (intro "2.IH"(2)) auto
    with False reach_children [of g i] show ?thesis by auto
  qed
qed simp

text \<open>
  The descendants a retraction notice lists, collected depth first by the service, are those the core collects
  breadth first: the same list for every graph of justifications, cyclic or not.
\<close>
theorem retraction_descendants_agree: "descendant_ids js i = descendants js i"
  using visit_set [of "{}"] descend_set [of "{}"] by (simp add: descendant_ids_def descendants_def Let_def)

section \<open>The view\<close>

type_synonym view = "(string \<times> string) list \<times> (string \<times> bool) list"

definition of_table :: "string \<Rightarrow> string \<Rightarrow> db \<Rightarrow> row list" where
  "of_table ep t d = filter (where_text ''episode_id'' ep) (d t)"

definition labelling :: "string \<Rightarrow> db \<Rightarrow> view" where
  "labelling ep d =
     (map (\<lambda>r. (text_cell r ''id'', text_cell r ''status'')) (of_table ep ''beliefs'' d),
      map (\<lambda>r. (text_cell r ''id'', truthy (cell r ''active''))) (of_table ep ''defeats'' d))"

text \<open>What the view becomes under a result of the engine.\<close>

definition relabelled :: "relabel_result \<Rightarrow> view \<Rightarrow> view" where
  "relabelled out = (\<lambda>(ls, es).
     (map (\<lambda>(i, _). (i, case map_of (rr_statuses out) i of None \<Rightarrow> [] | Some s \<Rightarrow> status_value s)) ls,
      map (\<lambda>(i, _). (i, dict_get (rr_active_edges out) i False)) es))"

text \<open>SQLite accepts NULL in a TEXT primary key; the records of the program have text identifiers.\<close>

definition identified :: "db \<Rightarrow> bool" where
  "identified d = list_all (\<lambda>t. list_all (\<lambda>r. case cell r ''id'' of JStr i \<Rightarrow> True | _ \<Rightarrow> False) (d t)) [''beliefs'', ''defeats'']"

lemma identified_iff: "identified d \<longleftrightarrow> list_all (\<lambda>t. list_all (\<lambda>r. \<exists>i. cell r ''id'' = JStr i) (d t)) [''beliefs'', ''defeats'']"
proof -
  have "(case v of JStr i \<Rightarrow> True | _ \<Rightarrow> False) \<longleftrightarrow> (\<exists>i. v = JStr i)" for v by (cases v) simp_all
  then show ?thesis by (simp only: identified_def)
qed

section \<open>Statements outside the view\<close>

lemma sql_update_frame: "sql_update S t vs p d = Inr d' \<Longrightarrow> u \<noteq> t \<Longrightarrow> d' u = d u"
  by (auto simp: sql_update_def update_rows_def splits_result Let_def split: if_splits)

lemma insert_record_frame: "insert_record t cols r d = Inr d' \<Longrightarrow> u \<noteq> t \<Longrightarrow> d' u = d u"
  by (auto simp: insert_record_def splits_result dest: sql_insert_frame)

lemma update_where_frame: "update_where t cols r p d = Inr d' \<Longrightarrow> u \<noteq> t \<Longrightarrow> d' u = d u"
  by (auto simp: update_where_def splits_result dest: sql_update_frame)

lemma other_handlers_frame:
  "apply_verification_created e d = Inr d' \<Longrightarrow> u \<noteq> ''verification_tasks'' \<Longrightarrow> d' u = d u"
  "apply_conflict_opened e d = Inr d' \<Longrightarrow> u \<noteq> ''conflicts'' \<Longrightarrow> d' u = d u"
  "apply_conflict_resolved e d = Inr d' \<Longrightarrow> u \<noteq> ''conflicts'' \<Longrightarrow> d' u = d u"
  "apply_retraction_created e d = Inr d' \<Longrightarrow> u \<noteq> ''retraction_notices'' \<Longrightarrow> d' u = d u"
  "apply_source_stats_delta e d = Inr d' \<Longrightarrow> u \<noteq> ''sources'' \<Longrightarrow> d' u = d u"
  by (auto simp: apply_verification_created_def verification_created_def apply_conflict_opened_def conflict_opened_def
      apply_conflict_resolved_def apply_retraction_created_def retraction_created_def apply_source_stats_delta_def
      splits_result fold_checks dest: insert_record_frame sql_update_frame split: option.splits)

definition outside_kinds :: "string list" where
  "outside_kinds = [''VERIFICATION_TASK_CREATED'', ''CONFLICT_OPENED'', ''CONFLICT_RESOLVED'', ''RETRACTION_CREATED'',
     ''SOURCE_STATS_DELTA'', ''DEFEAT_CYCLE_SAMSAYA'']"

lemma handlers_at:
  "map_of EVENT_HANDLERS ''VERIFICATION_TASK_CREATED'' = Some (\<lambda>X. apply_verification_created)"
  "map_of EVENT_HANDLERS ''CONFLICT_OPENED'' = Some (\<lambda>X. apply_conflict_opened)"
  "map_of EVENT_HANDLERS ''CONFLICT_RESOLVED'' = Some (\<lambda>X. apply_conflict_resolved)"
  "map_of EVENT_HANDLERS ''RETRACTION_CREATED'' = Some (\<lambda>X. apply_retraction_created)"
  "map_of EVENT_HANDLERS ''SOURCE_STATS_DELTA'' = Some (\<lambda>X. apply_source_stats_delta)"
  "map_of EVENT_HANDLERS ''DEFEAT_CYCLE_SAMSAYA'' = None"
  "map_of EVENT_HANDLERS ''BELIEF_STATUS_CHANGED'' = Some (\<lambda>X. apply_belief_status_changed (st_fts X))"
  "map_of EVENT_HANDLERS ''DEFEAT_ACTIVITY_CHANGED'' = Some (\<lambda>X. apply_defeat_activity_changed)"
  by (simp_all add: EVENT_HANDLERS_def)

lemma apply_event_Inr:
  "apply_event X e d = Inr d' \<Longrightarrow>
     \<exists>d1. (case map_of EVENT_HANDLERS (ev_kind e) of None \<Rightarrow> Inr d | Some h \<Rightarrow> h X e d) = Inr d1 \<and> (\<forall>u. u \<noteq> ''event_heads'' \<longrightarrow> d' u = d1 u)"
  unfolding apply_event_def by (auto simp: splits_result split: if_splits dest: advance_frame)

lemma outside_view:
  assumes "apply_event X e d = Inr d'" and "ev_kind e \<in> set outside_kinds" and "u \<in> {''beliefs'', ''defeats''}"
  shows "d' u = d u"
proof -
  obtain d1 where h: "(case map_of EVENT_HANDLERS (ev_kind e) of None \<Rightarrow> Inr d | Some h \<Rightarrow> h X e d) = Inr d1"
    and d1: "\<forall>u. u \<noteq> ''event_heads'' \<longrightarrow> d' u = d1 u"
    using apply_event_Inr [OF assms(1)] by blast
  have "d1 u = d u"
    using assms(2,3) h unfolding outside_kinds_def list.set insert_iff
    by (elim disjE) (simp_all add: handlers_at other_handlers_frame)
  with assms(3) d1 show ?thesis by auto
qed


section \<open>One event\<close>

text \<open>A column that may not be NULL is in every row, and an UPDATE assigns it.\<close>

lemma cell_assign_key:
  assumes "cell r c \<noteq> JNull" and "map_of ws c = Some w" and "find (\<lambda>k. col_name k = c) (ts_columns ts) = Some k"
  shows "cell (assign ts ws r) c = convert (col_affinity k) w"
proof -
  have "map_of (assign ts ws r) c = map_option (\<lambda>v. convert (col_affinity k) w) (map_of r c)"
    using assms(2,3) by (induction r) (auto simp: assign_def)
  moreover have "map_of r c \<noteq> None" using assms(1) by (auto simp: cell_def dict_get_def split: option.splits)
  ultimately show ?thesis by (auto simp: cell_def dict_get_def)
qed

lemma cell_assign_other: "c \<notin> fst ` set ws \<Longrightarrow> cell (assign ts ws r) c = cell r c"
proof -
  assume "c \<notin> fst ` set ws"
  then have "map_of (assign ts ws r) c = map_of r c"
    by (induction r) (auto simp: assign_def map_of_eq_None_iff [symmetric] split: option.splits)
  then show ?thesis by (simp add: cell_def dict_get_def)
qed

lemma updated_rows:
  assumes "sql_update ledger_schema t [(c, v)] (has_id i) d = Inr d'" and "sql_bind v = Inr w"
  shows "d' t = map (\<lambda>r. if has_id i r then assign (ledger_schema t) [(c, w)] r else r) (d t)"
  using assms by (auto simp: sql_update_def update_rows_def splits_result Let_def split: if_splits)

lemma view_columns:
  "find (\<lambda>k. col_name k = ''status'') (ts_columns (ledger_schema ''beliefs'')) = Some (tcol ''status'')"
  "find (\<lambda>k. col_name k = ''active'') (ts_columns (ledger_schema ''defeats'')) = Some (icol ''active'')"
  by code_simp+

lemma not_null_cell:
  assumes "consistent ledger_schema d" and "r \<in> set (d t)" and "find (\<lambda>k. col_name k = c) (ts_columns (ledger_schema t)) = Some k"
    and "col_not_null k"
  shows "cell r c \<noteq> JNull"
proof -
  have "k \<in> set (ts_columns (ledger_schema t))" "col_name k = c"
    using assms(3) by (auto simp: find_Some_iff)
  then show ?thesis
    using assms(1,2,4) by (auto simp: consistent_def not_null_ok_def list_all_iff)
qed

text \<open>The effect of an update of one cell, seen through a reading of that cell.\<close>

definition set_at :: "string \<Rightarrow> 'a \<Rightarrow> (string \<times> 'a) list \<Rightarrow> (string \<times> 'a) list" where
  "set_at i v = map (\<lambda>(j, a). (j, if j = i then v else a))"

lemma update_view:
  assumes "d' t = map (\<lambda>r. if has_id i r then assign (ledger_schema t) [(c, w)] r else r) (d t)"
    and "consistent ledger_schema d" and "find (\<lambda>k. col_name k = c) (ts_columns (ledger_schema t)) = Some k" and "col_not_null k"
    and "\<forall>r\<in>set (d t). \<exists>i. cell r ''id'' = JStr i" and "c \<notin> {''id'', ''episode_id''}"
  shows "map (\<lambda>r. (text_cell r ''id'', f (cell r c))) (of_table ep t d')
      = set_at i (f (convert (col_affinity k) w)) (map (\<lambda>r. (text_cell r ''id'', f (cell r c))) (of_table ep t d))"
    and "\<forall>r\<in>set (d' t). \<exists>i. cell r ''id'' = JStr i"
proof -
  let ?g = "\<lambda>r. if has_id i r then assign (ledger_schema t) [(c, w)] r else r"
  have same: "cell (?g r) x = cell r x" if "x \<in> {''id'', ''episode_id''}" for r x
    using that assms(6) by (auto simp: cell_assign_other)
  have id: "has_id i r \<longleftrightarrow> text_cell r ''id'' = i" if "r \<in> set (d t)" for r
    using assms(5) that by (auto simp: has_id_def)
  have new: "cell (?g r) c = (if text_cell r ''id'' = i then convert (col_affinity k) w else cell r c)" if "r \<in> set (d t)" for r
    using not_null_cell [OF assms(2) that assms(3,4)] id [OF that] by (simp add: cell_assign_key [OF _ _ assms(3)])
  have "of_table ep t d' = map ?g (of_table ep t d)"
    by (simp add: of_table_def assms(1) filter_map comp_def where_text_def [abs_def] same)
  then have "map (\<lambda>r. (text_cell r ''id'', f (cell r c))) (of_table ep t d')
      = map (\<lambda>r. (text_cell r ''id'', f (cell (?g r) c))) (of_table ep t d)"
    by (simp add: same)
  also have "\<dots> = set_at i (f (convert (col_affinity k) w)) (map (\<lambda>r. (text_cell r ''id'', f (cell r c))) (of_table ep t d))"
    by (auto simp: set_at_def of_table_def new)
  finally show "map (\<lambda>r. (text_cell r ''id'', f (cell r c))) (of_table ep t d')
      = set_at i (f (convert (col_affinity k) w)) (map (\<lambda>r. (text_cell r ''id'', f (cell r c))) (of_table ep t d))" .
  show "\<forall>r\<in>set (d' t). \<exists>i. cell r ''id'' = JStr i"
    unfolding assms(1) list.set_map ball_simps using assms(5) same by (metis insertCI)
qed

definition status_update :: "event_draft \<Rightarrow> (string \<times> string) list" where
  "status_update x = (if ed_kind x = ''BELIEF_STATUS_CHANGED''
     then case ed_payload x of JObj fs \<Rightarrow> [(ed_aggregate_id x, py_str (dict_get fs ''to'' JNull))] | _ \<Rightarrow> [] else [])"

definition activity_update :: "event_draft \<Rightarrow> (string \<times> bool) list" where
  "activity_update x = (if ed_kind x = ''DEFEAT_ACTIVITY_CHANGED''
     then case ed_payload x of JObj fs \<Rightarrow> [(ed_aggregate_id x, truthy (dict_get fs ''active'' JNull))] | _ \<Rightarrow> [] else [])"

definition commit_draft :: "event_draft \<Rightarrow> bool" where
  "commit_draft x =
     (ed_kind x \<in> set outside_kinds
      \<or> ed_kind x = ''BELIEF_STATUS_CHANGED'' \<and> (\<exists>a b c. ed_payload x = JObj [(''from'', a), (''to'', JStr b), (''cause'', c)])
      \<or> ed_kind x = ''DEFEAT_ACTIVITY_CHANGED'' \<and> (\<exists>b. ed_payload x = JObj [(''active'', JBool b)]))"

definition drafted :: "string \<Rightarrow> event_draft \<Rightarrow> event \<Rightarrow> bool" where
  "drafted ep x e = (ev_kind e = ed_kind x \<and> ev_aggregate_id e = ed_aggregate_id x \<and> ev_payload e = ed_payload x \<and> ev_episode_id e = ep)"

abbreviation updates :: "(string \<times> 'a) list \<Rightarrow> (string \<times> 'a) list \<Rightarrow> (string \<times> 'a) list" where
  "updates kvs \<equiv> fold (\<lambda>(i, v). set_at i v) kvs"

lemma commit_step:
  assumes "apply_event X e d = Inr d'" and "commit_draft x" and "drafted ep x e" and "consistent ledger_schema d" and "identified d"
  shows "labelling ep d' = map_prod (updates (status_update x)) (updates (activity_update x)) (labelling ep d)" and "identified d'"
proof -
  have x: "ev_kind e = ed_kind x" "ev_aggregate_id e = ed_aggregate_id x" "ev_payload e = ed_payload x"
    using assms(3) by (simp_all add: drafted_def)
  obtain d1 where h: "(case map_of EVENT_HANDLERS (ev_kind e) of None \<Rightarrow> Inr d | Some h \<Rightarrow> h X e d) = Inr d1"
    and d1: "d' ''beliefs'' = d1 ''beliefs''" "d' ''defeats'' = d1 ''defeats''"
    using apply_event_Inr [OF assms(1)] by auto
  have ids: "\<forall>r\<in>set (d ''beliefs''). \<exists>i. cell r ''id'' = JStr i" "\<forall>r\<in>set (d ''defeats''). \<exists>i. cell r ''id'' = JStr i"
    using assms(5) by (simp_all add: identified_iff list_all_iff)
  let ?goal = "labelling ep d' = map_prod (updates (status_update x)) (updates (activity_update x)) (labelling ep d) \<and> identified d'"
  consider (outside) "ed_kind x \<in> set outside_kinds"
    | (status) a b c where "ed_kind x = ''BELIEF_STATUS_CHANGED''" "ed_payload x = JObj [(''from'', a), (''to'', JStr b), (''cause'', c)]"
    | (activity) b where "ed_kind x = ''DEFEAT_ACTIVITY_CHANGED''" "ed_payload x = JObj [(''active'', JBool b)]"
    using assms(2) unfolding commit_draft_def by blast
  then have ?goal
  proof cases
    case outside
    then have "d' u = d u" if "u \<in> {''beliefs'', ''defeats''}" for u
      using outside_view [OF assms(1) _ that] by (simp add: x)
    then have same: "d' ''beliefs'' = d ''beliefs''" "d' ''defeats'' = d ''defeats''" by blast+
    have "status_update x = []" "activity_update x = []"
      using outside by (auto simp: outside_kinds_def status_update_def activity_update_def)
    with same ids show ?thesis by (simp add: labelling_def of_table_def identified_iff list_all_iff)
  next
    case status
    have "payload e = [(''from'', a), (''to'', JStr b), (''cause'', c)]" by (simp add: payload_def x status)
    then obtain d2 where upd: "sql_update ledger_schema ''beliefs'' [(''status'', JStr b)] (has_id (ed_aggregate_id x)) d = Inr d2"
      and rest: "d1 ''beliefs'' = d2 ''beliefs''" "d1 ''defeats'' = d2 ''defeats''"
      using h [unfolded x(1) status handlers_at option.case]
      by (auto simp: apply_belief_status_changed_def belief_status_changed_def as_text_def item_def dict_item_def x splits_result
          split: option.splits dest: fts_frame [of _ _ _ _ _ _ _ "''beliefs''"] fts_frame [of _ _ _ _ _ _ _ "''defeats''"])
    have rows: "d' ''beliefs'' = map (\<lambda>r. if has_id (ed_aggregate_id x) r then assign (ledger_schema ''beliefs'') [(''status'', JStr b)] r else r) (d ''beliefs'')"
      using updated_rows [OF upd, of "JStr b"] d1 rest by simp
    have other: "d' ''defeats'' = d ''defeats''" using sql_update_frame [OF upd, of "''defeats''"] d1 rest by simp
    note view = update_view(1) [where d = d and d' = d' and t = "''beliefs''" and f = py_str and ep = ep, OF rows assms(4) view_columns(1) _ ids(1)]
      update_view(2) [where d = d and d' = d' and t = "''beliefs''", OF rows assms(4) view_columns(1) _ ids(1)]
    have "status_update x = [(ed_aggregate_id x, b)]" "activity_update x = []"
      by (simp_all add: status_update_def activity_update_def status dict_get_def)
    with view other ids show ?thesis
      by (simp add: labelling_def identified_iff list_all_iff tcol_def) (simp add: of_table_def)
  next
    case activity
    have "payload e = [(''active'', JBool b)]" by (simp add: payload_def x activity)
    then have upd: "sql_update ledger_schema ''defeats'' [(''active'', JInt (if b then 1 else 0))] (has_id (ed_aggregate_id x)) d = Inr d1"
      using h [unfolded x(1) activity handlers_at option.case]
      by (auto simp: apply_defeat_activity_changed_def update_where_def as_flag_def item_def dict_item_def x splits_result)
    have rows: "d' ''defeats'' = map (\<lambda>r. if has_id (ed_aggregate_id x) r then assign (ledger_schema ''defeats'') [(''active'', JInt (if b then 1 else 0))] r else r) (d ''defeats'')"
      using updated_rows [OF upd, of "JInt (if b then 1 else 0)"] d1 by simp
    have other: "d' ''beliefs'' = d ''beliefs''" using sql_update_frame [OF upd, of "''beliefs''"] d1 by simp
    note view = update_view(1) [where d = d and d' = d' and t = "''defeats''" and f = truthy and ep = ep, OF rows assms(4) view_columns(2) _ ids(2)]
      update_view(2) [where d = d and d' = d' and t = "''defeats''", OF rows assms(4) view_columns(2) _ ids(2)]
    have "status_update x = []" "activity_update x = [(ed_aggregate_id x, b)]"
      by (simp_all add: status_update_def activity_update_def activity dict_get_def)
    with view other ids show ?thesis
      by (simp add: labelling_def identified_iff list_all_iff icol_def) (simp add: of_table_def)
  qed
  then show "labelling ep d' = map_prod (updates (status_update x)) (updates (activity_update x)) (labelling ep d)" "identified d'" by auto
qed

section \<open>The batch\<close>

lemma append_one_applies:
  assumes "append_one E ep c first stamps (n, x) (es, previous, l) = Inr (es', previous', l')"
  shows "\<exists>e. drafted ep x e \<and> es' = es @ [e] \<and> apply_event (le_storage E) e (lg_db l) = Inr (lg_db l')"
  using assms by (auto simp: append_one_def Let_def splits_result drafted_def insert_event_def build_event_def split: if_splits)

lemma append_fold_view:
  assumes "fold_result (append_one E ep c first stamps) (enumerate n xs) (es, previous, l) = Inr (es', previous', l')"
    and "list_all commit_draft xs" and "consistent ledger_schema (lg_db l)" and "identified (lg_db l)" and "plain_name ep"
  shows "labelling ep (lg_db l')
      = map_prod (updates (concat (map status_update xs))) (updates (concat (map activity_update xs))) (labelling ep (lg_db l))"
  using assms
proof (induction xs arbitrary: n es previous l)
  case (Cons x xs)
  obtain es1 p1 l1 where one: "append_one E ep c first stamps (n, x) (es, previous, l) = Inr (es1, p1, l1)"
    and rest: "fold_result (append_one E ep c first stamps) (enumerate (Suc n) xs) (es1, p1, l1) = Inr (es', previous', l')"
    using Cons.prems(1) by (auto simp: splits_result)
  obtain e where e: "drafted ep x e" "apply_event (le_storage E) e (lg_db l) = Inr (lg_db l1)"
    using append_one_applies [OF one] by blast
  have "commit_draft x" using Cons.prems(2) by simp
  note step = commit_step [OF e(2) this e(1) Cons.prems(3,4)]
  have "plain_name (ev_episode_id e)" using e(1) Cons.prems(5) by (simp add: drafted_def)
  moreover have "fold_result (apply_event (le_storage E)) [e] (lg_db l) = Inr (lg_db l1)" by (simp add: e(2))
  ultimately have "consistent ledger_schema (lg_db l1)" by (intro apply_events_consistent [where es = "[e]", OF _ Cons.prems(3)]) simp_all
  from Cons.IH [OF rest _ this step(2) Cons.prems(5)] Cons.prems(2) step(1)
  show ?case by (cases "labelling ep (lg_db l)") simp
qed (cases "labelling ep (lg_db l')", simp)


section \<open>The drafts of a labelling\<close>

lemma updates_map:
  "updates kvs m = map (\<lambda>(i, a). (i, case map_of (rev kvs) i of None \<Rightarrow> a | Some v \<Rightarrow> v)) m"
proof (induction kvs arbitrary: m)
  case (Cons p kvs)
  obtain i v where p: "p = (i, v)" by (cases p)
  show ?case unfolding p
    by (simp add: Cons) (auto simp: set_at_def map_add_def split: option.splits)
qed (simp add: case_prod_beta)

text \<open>The labels that change: the assignments of the drafts of a list of beliefs.\<close>

definition changes :: "(string \<times> belief) list \<Rightarrow> relabel_result \<Rightarrow> string list \<Rightarrow> (string \<times> string) list" where
  "changes beliefs out is = map (\<lambda>i. (i, status_value (the (map_of (rr_statuses out) i))))
     (filter (\<lambda>i. map_option b_status (map_of beliefs i) \<noteq> map_of (rr_statuses out) i) is)"

lemmas draft_kinds = status_draft_def retraction_draft_def plain_draft_def record_draft_def
  commit_draft_def status_update_def activity_update_def outside_kinds_def

lemma transition_drafts:
  assumes "transition V F beliefs out i (ds, losses) = Inr (ds', losses')"
  shows "\<exists>new. ds' = ds @ new \<and> list_all commit_draft new \<and> concat (map activity_update new) = []
    \<and> concat (map status_update new) = changes beliefs out [i]"
proof -
  obtain b now where b: "map_of beliefs i = Some b" "map_of (rr_statuses out) i = Some now"
    using assms by (auto simp: transition_def splits_result dict_item_def split: option.splits)
  show ?thesis
  proof (cases "b_status b = now")
    case True
    then show ?thesis using assms b by (simp add: transition_def dict_item_def changes_def)
  next
    case False
    let ?cause = "dict_get (rr_causes out) i ''fixed_point_relabel''"
    let ?new = "status_draft i (b_status b) now ?cause
      # (if b_status b = IN \<and> now \<noteq> IN \<and> i \<in> tv_rendered V \<and> i \<notin> set (tv_notices V) then [retraction_draft V F i ?cause] else [])"
    have "ds' = ds @ ?new" using assms b False by (simp add: transition_def dict_item_def Let_def)
    moreover have "list_all commit_draft ?new" by (simp add: draft_kinds)
    moreover have "concat (map activity_update ?new) = []" by (simp add: draft_kinds)
    moreover have "concat (map status_update ?new) = changes beliefs out [i]"
      using b False by (simp add: draft_kinds changes_def dict_get_def)
    ultimately show ?thesis by blast
  qed
qed

lemma transitions_drafts:
  assumes "fold_result (transition V F beliefs out) is (ds, losses) = Inr (ds', losses')"
  shows "\<exists>new. ds' = ds @ new \<and> list_all commit_draft new \<and> concat (map activity_update new) = []
    \<and> concat (map status_update new) = changes beliefs out is"
  using assms
proof (induction "is" arbitrary: ds losses)
  case (Cons i "is")
  obtain ds1 losses1 where one: "transition V F beliefs out i (ds, losses) = Inr (ds1, losses1)"
    and rest: "fold_result (transition V F beliefs out) is (ds1, losses1) = Inr (ds', losses')"
    using Cons.prems by (auto simp: splits_result)
  obtain n1 where n1: "ds1 = ds @ n1" "list_all commit_draft n1" "concat (map activity_update n1) = []"
    "concat (map status_update n1) = changes beliefs out [i]" using transition_drafts [OF one] by blast
  obtain n2 where n2: "ds' = ds1 @ n2" "list_all commit_draft n2" "concat (map activity_update n2) = []"
    "concat (map status_update n2) = changes beliefs out is" using Cons.IH [OF rest] by blast
  from n1 n2 have "ds' = ds @ n1 @ n2" "list_all commit_draft (n1 @ n2)" "concat (map activity_update (n1 @ n2)) = []"
    "concat (map status_update (n1 @ n2)) = changes beliefs out (i # is)" by (simp_all add: changes_def)
  then show ?case by blast
qed (simp add: changes_def)

lemma conflict_drafts_outside: "x \<in> set (conflict_transition_drafts ep F cs ts out) \<Longrightarrow> ed_kind x \<in> set outside_kinds"
proof -
  have one: "\<forall>x\<in>set (fst (open_conflict ep F p s)). ed_kind x \<in> set outside_kinds"
    if "\<forall>x\<in>set (fst s). ed_kind x \<in> set outside_kinds" for p and s :: "event_draft list \<times> ((string \<times> verification_method) \<times> verification_task) list"
    using that by (cases s) (auto simp: open_conflict_def Let_def record_draft_def outside_kinds_def split: option.splits prod.splits)
  have opened: "\<forall>x\<in>set (fst (fold (open_conflict ep F) ps s)). ed_kind x \<in> set outside_kinds"
    if "\<forall>x\<in>set (fst s). ed_kind x \<in> set outside_kinds" for ps and s :: "event_draft list \<times> ((string \<times> verification_method) \<times> verification_task) list"
    using that
  proof (induction ps arbitrary: s)
    case (Cons p ps)
    from Cons.IH [OF one [OF Cons.prems]] show ?case by (simp only: fold_simps comp_def)
  qed simp
  show "x \<in> set (conflict_transition_drafts ep F cs ts out) \<Longrightarrow> ed_kind x \<in> set outside_kinds"
    using opened [of "([], _)"] by (fastforce simp: conflict_transition_drafts_def Let_def resolve_draft_def plain_draft_def outside_kinds_def)
qed

lemma summary_drafts_outside: "x \<in> set (summary_drafts ep losses out) \<Longrightarrow> ed_kind x \<in> set outside_kinds"
  by (auto simp: summary_drafts_def plain_draft_def outside_kinds_def split: if_splits)

lemma outside_updates:
  assumes "\<forall>x\<in>set xs. ed_kind x \<in> set outside_kinds"
  shows "list_all commit_draft xs" and "concat (map status_update xs) = []" and "concat (map activity_update xs) = []"
  using assms by (auto simp: list_all_iff commit_draft_def status_update_def activity_update_def outside_kinds_def)

lemma edge_drafts:
  "list_all commit_draft (edge_activity_drafts ds out)"
  "concat (map status_update (edge_activity_drafts ds out)) = []"
  "concat (map activity_update (edge_activity_drafts ds out))
    = map (\<lambda>e. (d_id e, dict_get (rr_active_edges out) (d_id e) False))
        (filter (\<lambda>e. dict_get (rr_active_edges out) (d_id e) False \<noteq> d_active e) ds)"
  by (auto simp: edge_activity_drafts_def draft_kinds list_all_iff dict_get_def comp_def)


section \<open>The stored episode\<close>

lemma last_update:
  assumes "distinct (map key xs)" and "x \<in> set xs"
  shows "map_of (rev (map (\<lambda>x. (key x, f x)) (filter P xs))) (key x) = (if P x then Some (f x) else None)"
proof -
  have inj: "inj_on key (set xs)" using assms(1) by (simp add: distinct_map)
  let ?m = "rev (map (\<lambda>x. (key x, f x)) (filter P xs))"
  have "distinct (map fst ?m)" using assms(1) by (simp add: rev_map comp_def distinct_map inj_on_def)
  moreover have "P x \<Longrightarrow> (key x, f x) \<in> set ?m" using assms(2) by auto
  moreover have "\<not> P x \<Longrightarrow> key x \<notin> fst ` set ?m" using assms(2) inj by (fastforce dest: inj_onD)
  ultimately show ?thesis
    by (cases "P x") (simp_all only: if_True if_False map_of_is_SomeI map_of_eq_None_iff simp_thms)
qed

lemma keyed_distinct:
  assumes "distinct (map key xs)"
  shows "keyed key xs = map (\<lambda>x. (key x, x)) xs"
proof -
  have "distinct (map key ys) \<Longrightarrow> \<forall>y\<in>set ys. key y \<notin> fst ` set m \<Longrightarrow>
      fold (\<lambda>x. AList.update (key x) x) ys m = m @ map (\<lambda>x. (key x, x)) ys" for ys m
  proof (induction ys arbitrary: m)
    case (Cons y ys)
    have "fold (\<lambda>x. AList.update (key x) x) ys (m @ [(key y, y)]) = (m @ [(key y, y)]) @ map (\<lambda>x. (key x, x)) ys"
      by (rule Cons.IH) (use Cons.prems in \<open>auto simp: image_iff\<close>)
    with Cons.prems show ?case by (simp add: update_new)
  qed simp
  from this [OF assms, of "[]"] show ?thesis by (simp add: keyed_def)
qed

lemma table_ids_distinct:
  assumes "consistent ledger_schema d" and "keyed_by_id t" and "\<forall>r\<in>set (d t). \<exists>i. cell r ''id'' = JStr i"
  shows "distinct (map (\<lambda>r. text_cell r ''id'') (of_table ep t d))"
proof -
  have "no_clash (ledger_schema t) rs \<Longrightarrow> \<forall>r\<in>set rs. \<exists>i. cell r ''id'' = JStr i \<Longrightarrow> distinct (map (\<lambda>r. text_cell r ''id'') rs)" for rs
  proof (induction rs)
    case (Cons r rs)
    have "\<forall>r'\<in>set rs. text_cell r' ''id'' \<noteq> text_cell r ''id''"
    proof (intro ballI notI)
      fix r'
      assume r': "r' \<in> set rs" and same: "text_cell r' ''id'' = text_cell r ''id''"
      obtain i where i: "cell r ''id'' = JStr i" using Cons.prems(2) by auto
      obtain j where j: "cell r' ''id'' = JStr j" using Cons.prems(2) r' by auto
      note ij = i j
      with same ij have "clash [''id''] r r'" by (simp add: clash_def key_cells_def)
      with assms(2) have "clashes (ledger_schema t) r r'" by (auto simp: clashes_def keyed_by_id_def list_ex_iff)
      moreover have "\<not> clashes (ledger_schema t) r r'" using Cons.prems(1) r' by (simp add: list_all_iff)
      ultimately show False by blast
    qed
    moreover have "distinct (map (\<lambda>r. text_cell r ''id'') rs)" using Cons by simp
    ultimately show ?case by auto
  qed simp
  moreover have "no_clash (ledger_schema t) (of_table ep t d)"
    using assms(1) by (simp add: of_table_def consistent_def no_clash_filter)
  ultimately show ?thesis using assms(3) by (simp add: of_table_def)
qed

lemma select_table: "set (select t (where_text ''episode_id'' ep) cs d) = set (of_table ep t d)"
  "distinct (map f (select t (where_text ''episode_id'' ep) cs d)) = distinct (map f (of_table ep t d))"
proof -
  have "mset (map f (select t (where_text ''episode_id'' ep) cs d)) = mset (map f (of_table ep t d))"
    by (simp add: select_def of_table_def)
  then show "distinct (map f (select t (where_text ''episode_id'' ep) cs d)) = distinct (map f (of_table ep t d))"
    by (rule mset_eq_imp_distinct_iff)
qed (simp add: select_def of_table_def)

lemma read_belief_label:
  assumes "read_belief C d r = Inr b"
  shows "(b_id b, status_value (b_status b)) = (text_cell r ''id'', text_cell r ''status'')"
proof -
  obtain es js where "belief_from_row C r es js = Inr b"
    using assms by (auto simp: read_belief_def splits_result Let_def)
  then obtain now b' where now: "read_status (text_cell r ''status'') = Inr now" and b': "make_belief b' = Inr b" "b_id b' = text_cell r ''id''" "b_status b' = now"
    unfolding belief_from_row_def splits_result by (elim exE conjE) force
  have "b' = b" using b'(1) by (simp add: make_belief_def split: if_splits)
  with b' enum_of_value [OF now] show ?thesis by simp
qed

lemma same_view: "map f xs = map g ys \<Longrightarrow> y \<in> set ys \<Longrightarrow> \<exists>x\<in>set xs. f x = g y"
  by (metis (no_types, lifting) image_iff list.set_map)

lemma stored_beliefs:
  assumes "list_beliefs C ep [] [] None d = Inr bs" and "consistent ledger_schema d" and "identified d"
  shows "distinct (map b_id bs)"
    and "\<forall>r\<in>set (of_table ep ''beliefs'' d). \<exists>b\<in>set bs. b_id b = text_cell r ''id'' \<and> status_value (b_status b) = text_cell r ''status''"
proof -
  let ?rs = "select ''beliefs'' (where_text ''episode_id'' ep) [''observed_at'', ''id''] d"
  have ids: "distinct (map (\<lambda>r. text_cell r ''id'') ?rs)"
    unfolding select_table
    by (rule table_ids_distinct [OF assms(2) keyed_tables(3)]) (use assms(3) in \<open>simp add: identified_iff list_all_iff\<close>)
  have "hydrate_beliefs C d ?rs = Inr bs" using assms(1) by (simp add: list_beliefs_def)
  then have all: "list_all2 (\<lambda>r b. read_belief C d r = Inr b) ?rs bs"
    by (simp add: hydrate_exact [OF ids] map_result_list_all2)
  then have view: "map (\<lambda>b. (b_id b, status_value (b_status b))) bs = map (\<lambda>r. (text_cell r ''id'', text_cell r ''status'')) ?rs"
    by (induction rule: list_all2_induct) (simp_all only: list.map read_belief_label)
  from arg_cong [OF this, of "map fst"] ids show "distinct (map b_id bs)" by (simp add: comp_def)
  show "\<forall>r\<in>set (of_table ep ''beliefs'' d). \<exists>b\<in>set bs. b_id b = text_cell r ''id'' \<and> status_value (b_status b) = text_cell r ''status''"
    using same_view [OF view] unfolding select_table(1) [where cs = "[''observed_at'', ''id'']", symmetric] prod.inject by (rule ballI)
qed

lemma stored_defeats:
  assumes "list_defeats ep d = Inr es" and "consistent ledger_schema d" and "identified d"
  shows "distinct (map d_id es)"
    and "\<forall>r\<in>set (of_table ep ''defeats'' d). \<exists>e\<in>set es. d_id e = text_cell r ''id'' \<and> d_active e = truthy (cell r ''active'')"
proof -
  let ?rs = "select ''defeats'' (where_text ''episode_id'' ep) [''id''] d"
  have ids: "distinct (map (\<lambda>r. text_cell r ''id'') ?rs)"
    unfolding select_table
    by (rule table_ids_distinct [OF assms(2) keyed_tables(6)]) (use assms(3) in \<open>simp add: identified_iff list_all_iff\<close>)
  have read: "defeat_from_row r = Inr e \<Longrightarrow> (d_id e, d_active e) = (text_cell r ''id'', truthy (cell r ''active''))" for r e
    by (auto simp: defeat_from_row_def splits_result)
  have all: "list_all2 (\<lambda>r e. defeat_from_row r = Inr e) ?rs es"
    using assms(1) by (simp add: list_defeats_def map_result_list_all2)
  then have view: "map (\<lambda>e. (d_id e, d_active e)) es = map (\<lambda>r. (text_cell r ''id'', truthy (cell r ''active''))) ?rs"
    by (induction rule: list_all2_induct) (simp_all only: list.map read)
  from arg_cong [OF this, of "map fst"] ids show "distinct (map d_id es)" by (simp add: comp_def)
  show "\<forall>r\<in>set (of_table ep ''defeats'' d). \<exists>e\<in>set es. d_id e = text_cell r ''id'' \<and> d_active e = truthy (cell r ''active'')"
    using same_view [OF view] unfolding select_table(1) [where cs = "[''id'']", symmetric] prod.inject by (rule ballI)
qed

text \<open>The engine labels exactly the beliefs it is given.\<close>

lemma relabel_keys:
  assumes "relabel beliefs js sups ds ss config now = Inr out" and "wf_beliefs beliefs" and "0 < max_relabel_iterations config"
  shows "map fst (rr_statuses out) = sorted_set (map fst beliefs)"
proof -
  obtain env where env: "prepare beliefs js sups ds ss config now = Inr env"
    and out: "out = relabel_loop env (max_relabel_iterations config) 1 (initial_labels env) {} [] []"
    using assms(1) by (auto simp: relabel_Inr)
  have "admitted_labels env (rr_statuses out)"
    unfolding out using prepare_env(2) [OF env assms(2)] assms(3) by (intro relabel_loop_admitted) auto
  with prepare_env(3) [OF env] show ?thesis by (simp add: admitted_labels_def)
qed

lemma committed_view:
  assumes beliefs: "list_beliefs (rl_codec R) ep [] [] None (lg_db l) = Inr bs"
    and out: "computed R ep (lg_db l) bs = Inr out"
    and drafts: "relabel_drafts R ep l bs out = Inr xs"
    and ok: "consistent ledger_schema (lg_db l)" "identified (lg_db l)" "0 < max_relabel_iterations (rl_config R)"
  shows "list_all commit_draft xs"
    and "map_prod (updates (concat (map status_update xs))) (updates (concat (map activity_update xs))) (labelling ep (lg_db l))
      = relabelled out (labelling ep (lg_db l))"
proof -
  let ?d = "lg_db l" and ?B = "keyed b_id bs"
  obtain V ds ts losses cs tasks where ds: "list_defeats ep ?d = Inr ds"
    and ts: "belief_transition_drafts V (rl_ids R) ?B out = Inr (ts, losses)"
    and xs: "xs = edge_activity_drafts ds out @ ts @ conflict_transition_drafts ep (rl_ids R) cs tasks out @ summary_drafts ep losses out"
    using drafts unfolding relabel_drafts_def Let_def by (auto simp: splits_result)
  note sb = stored_beliefs [OF beliefs ok(1,2)] and sd = stored_defeats [OF ds ok(1,2)]
  have B: "?B = map (\<lambda>b. (b_id b, b)) bs" by (rule keyed_distinct [OF sb(1)])
  obtain js sups dfs srcs where engine: "relabel ?B js sups dfs srcs (rl_config R) (Some (rl_now R)) = Inr out"
    using out by (auto simp: computed_def splits_result)
  have keys: "map fst (rr_statuses out) = sorted_set (map fst ?B)"
    by (rule relabel_keys [OF engine _ ok(3)]) (auto simp: wf_beliefs_def B)
  let ?ks = "sort (map fst (rr_statuses out))"
  have new: "list_all commit_draft ts" "concat (map activity_update ts) = []" "concat (map status_update ts) = changes ?B out ?ks"
    using transitions_drafts [OF ts [unfolded belief_transition_drafts_def]] by auto
  have "\<forall>x\<in>set (conflict_transition_drafts ep (rl_ids R) cs tasks out). ed_kind x \<in> set outside_kinds"
    and "\<forall>x\<in>set (summary_drafts ep losses out). ed_kind x \<in> set outside_kinds"
    using conflict_drafts_outside summary_drafts_outside by blast+
  note outside = outside_updates [OF this(1)] outside_updates [OF this(2)]
  show "list_all commit_draft xs" using new(1) outside(1,4) edge_drafts(1) [of ds out] by (simp add: xs)
  have s: "concat (map status_update xs) = changes ?B out ?ks"
    by (simp only: xs map_append concat_append new outside edge_drafts append_Nil append_Nil2)
  have a: "concat (map activity_update xs) = map (\<lambda>e. (d_id e, dict_get (rr_active_edges out) (d_id e) False))
        (filter (\<lambda>e. dict_get (rr_active_edges out) (d_id e) False \<noteq> d_active e) ds)"
    by (simp only: xs map_append concat_append new outside edge_drafts append_Nil append_Nil2)
  show "map_prod (updates (concat (map status_update xs))) (updates (concat (map activity_update xs))) (labelling ep (lg_db l))
      = relabelled out (labelling ep (lg_db l))"
  proof -
    have labels: "(case map_of (rev (changes ?B out ?ks)) i of None \<Rightarrow> st | Some v \<Rightarrow> v)
        = (case map_of (rr_statuses out) i of None \<Rightarrow> [] | Some s \<Rightarrow> status_value s)"
      if label: "(i, st) \<in> set (fst (labelling ep ?d))" for i st
    proof -
      obtain b where b: "b \<in> set bs" "b_id b = i" "status_value (b_status b) = st"
        using label sb(2) by (auto simp: labelling_def)
      have mem: "i \<in> set (map fst (rr_statuses out))" using b by (auto simp: keys B)
      then obtain now where now: "map_of (rr_statuses out) i = Some now" by (metis list.set_map not_None_eq map_of_eq_None_iff)
      have B_i: "map_of ?B i = Some b" using b sb(1) by (auto simp: B comp_def intro!: map_of_is_SomeI)
      have distinct: "distinct (map (\<lambda>i. i) ?ks)" using keys by simp
      have "i \<in> set ?ks" using mem by simp
      from last_update [OF distinct this, of "\<lambda>i. status_value (the (map_of (rr_statuses out) i))"
          "\<lambda>i. map_option b_status (map_of ?B i) \<noteq> map_of (rr_statuses out) i"]
      have "map_of (rev (changes ?B out ?ks)) i = (if b_status b = now then None else Some (status_value now))"
        by (simp only: changes_def B_i now) simp
      then show ?thesis using now b(3) by (cases "b_status b = now") simp_all
    qed
    have edges: "(case map_of (rev (concat (map activity_update xs))) i of None \<Rightarrow> v | Some v \<Rightarrow> v) = dict_get (rr_active_edges out) i False"
      if label: "(i, v) \<in> set (snd (labelling ep ?d))" for i v
    proof -
      obtain e where e: "e \<in> set ds" "d_id e = i" "d_active e = v"
        using label sd(2) by (auto simp: labelling_def)
      then show ?thesis
        using last_update [OF sd(1) e(1), of "\<lambda>e. dict_get (rr_active_edges out) (d_id e) False" "\<lambda>e. dict_get (rr_active_edges out) (d_id e) False \<noteq> d_active e"]
        by (auto simp: a)
    qed
    show ?thesis
      using labels edges unfolding s updates_map relabelled_def by (cases "labelling ep ?d") auto
  qed
qed


text \<open>
  C11. Relabelling commits what the engine computes: after it, every belief of the episode has exactly the status
  the fixed point gave it and every defeat exactly the computed activity, whatever the batch also records
  (retractions, conflicts, tasks, statistics); nothing else of the episode's beliefs and defeats is reordered, lost or
  added.
\<close>
theorem relabel_committed:
  assumes "relabel_episode E R ep stamps l = Inr (ids, l')"
    and "list_beliefs (rl_codec R) ep [] [] None (lg_db l) = Inr bs" and "bs \<noteq> []" and "computed R ep (lg_db l) bs = Inr out"
    and "consistent ledger_schema (lg_db l)" and "identified (lg_db l)" and "plain_name ep"
    and "0 < max_relabel_iterations (rl_config R)"
  shows "labelling ep (lg_db l') = relabelled out (labelling ep (lg_db l))"
proof -
  obtain xs where xs: "relabel_drafts R ep l bs out = Inr xs"
    and run: "(if xs = [] then Inr ([], l) else and_then (append_events E ep xs [] [] [] stamps l) (\<lambda>(es, l'). Inr (map ev_id es, l'))) = Inr (ids, l')"
    using assms(1-4) by (auto simp: relabel_episode_def splits_result)
  note view = committed_view [OF assms(2,4) xs assms(5,6,8)]
  show ?thesis
  proof (cases "xs = []")
    case True
    with run view(2) show ?thesis by (cases "labelling ep (lg_db l)") auto
  next
    case False
    with run obtain es h where "fold_result (append_one E ep (clean_correlation [] []) (next_seq l) stamps) (enumerate 0 xs)
        ([], stored_head (lg_db l) ep, l) = Inr (es, h, l')"
      by (auto simp: append_events_def append_drafts_def splits_result Let_def)
    from append_fold_view [OF this view(1) assms(5-7)] view(2) show ?thesis by simp
  qed
qed

section \<open>A small episode\<close>

definition sample_labelled :: "(string \<times> row list) list" where
  "sample_labelled =
     [(''episodes'', [(''id'', JStr ''ep'') # text_fields [''episode_key'', ''session_id'', ''task_id'', ''platform'', ''model'', ''default_stakes'',
        ''current_turn'', ''created_at'', ''updated_at'', ''compatibility_mode'', ''llm_calls_used'', ''input_tokens_used'',
        ''output_tokens_used'', ''state'']]),
      (''sources'', [[(''id'', JStr ''src''), (''episode_id'', JStr ''ep''), (''kind'', JStr ''user''), (''integrity'', JStr ''semi''),
         (''name'', JStr ''n''), (''root'', JStr ''r''), (''competence_json'', JStr ''{}''), (''stats_json'', JStr ''{}'')]]),
      (''beliefs'', [belief_row sample_codec ''#'' 5 ((sample_belief ''b'' [] [])\<lparr>b_status := PENDING\<rparr>)])]"

definition sample_labelled_ledger :: ledger where
  "sample_labelled_ledger = empty_ledger\<lparr>lg_db := (\<lambda>t. dict_get sample_labelled t [])\<rparr>"

definition sample_setting :: relabel_setting where
  "sample_setting = \<lparr>rl_codec = sample_codec, rl_config = default_config, rl_now = Aware 6, rl_turn = 1, rl_ttl = 2,
     rl_ids = \<lparr>fr_task = fst, fr_conflict = fst, fr_notice = (\<lambda>i. i)\<rparr>\<rparr>"

definition committed_env :: ledger_env where
  "committed_env = \<lparr>le_storage = sample_storage\<lparr>st_sha := take 8, st_fts := False\<rparr>, le_hmac = (\<lambda>k m. ''tag''), le_key = replicate 32 (CHR ''k'')\<rparr>"


definition committed_stamps :: stamps where
  "committed_stamps n = (''i'', ''t'')"

lemma sample_commit_runs:
  "succeeds (relabel_episode committed_env sample_setting ''ep'' committed_stamps sample_labelled_ledger)
     (\<lambda>(ids, l). ids = [''i''] \<and> labelling ''ep'' (lg_db l) = ([(''b'', ''out'')], []))"
  by code_simp

lemma sample_labelled_consistent: "consistent ledger_schema (lg_db sample_labelled_ledger)"
proof -
  have "lg_db sample_labelled_ledger = (\<lambda>t. dict_get sample_labelled t [])" by (simp add: sample_labelled_ledger_def)
  moreover have "consistent ledger_schema (\<lambda>t. dict_get sample_labelled t [])"
  proof (rule consistent_tables [where ts = "[''episodes'', ''sources'', ''beliefs'']"])
  show "t \<notin> set [''episodes'', ''sources'', ''beliefs''] \<Longrightarrow> dict_get sample_labelled t [] = []" for t
    by (simp add: sample_labelled_def dict_get_def)
  qed code_simp
  ultimately show ?thesis by simp
qed

theorem relabel_committed_witness:
  "\<exists>ids l' bs out. relabel_episode committed_env sample_setting ''ep'' committed_stamps sample_labelled_ledger = Inr (ids, l')
     \<and> computed sample_setting ''ep'' (lg_db sample_labelled_ledger) bs = Inr out
     \<and> relabelled out (labelling ''ep'' (lg_db sample_labelled_ledger)) = ([(''b'', ''out'')], []) \<and> ids = [''i'']"
proof -
  obtain ids l' where run: "relabel_episode committed_env sample_setting ''ep'' committed_stamps sample_labelled_ledger = Inr (ids, l')"
    and ids: "ids = [''i'']" and view: "labelling ''ep'' (lg_db l') = ([(''b'', ''out'')], [])"
    using sample_commit_runs unfolding succeeds_iff by auto
  have codec: "rl_codec sample_setting = sample_codec" by (simp add: sample_setting_def)
  from run ids obtain bs out where bs: "list_beliefs (rl_codec sample_setting) ''ep'' [] [] None (lg_db sample_labelled_ledger) = Inr bs" "bs \<noteq> []"
    and out: "computed sample_setting ''ep'' (lg_db sample_labelled_ledger) bs = Inr out"
    unfolding relabel_episode_def splits_result by (elim exE conjE) (simp add: splits_result split: if_splits)
  have ids_ok: "identified (lg_db sample_labelled_ledger)" by code_simp
  have "plain_name ''ep''" "0 < max_relabel_iterations (rl_config sample_setting)"
    by (simp_all add: plain_name_def sample_setting_def default_config_def)
  from relabel_committed [OF run bs out sample_labelled_consistent ids_ok this] view
  have "relabelled out (labelling ''ep'' (lg_db sample_labelled_ledger)) = ([(''b'', ''out'')], [])" by argo
  with run out ids show ?thesis by blast
qed

end
