(* ===== verification/Manifest.thy ===== *)
theory Manifest
  imports Classify Scope
begin

text \<open>
  \<open>manifest.py\<close>: the manifest of tool policies. Rules are read from version 1 or 2 of the format, a tool is
  matched by exact name or by pattern, and the inventory of a host compares the schema of each tool with the
  digest its policy was reviewed for. Schemas are compared in canonical form: references are expanded,
  informational fields dropped, the arrays whose order means nothing sorted. A \<open>ManifestError\<close> is a
  \<open>ValueError\<close>; SHA-256 is a parameter. Patterns are compiled for the syntax of \<open>Regex\<close>.
\<close>

section \<open>Records\<close>

record tool_policy =
  tp_id :: string
  tp_revision :: string
  tp_effectful :: bool
  tp_base_stakes :: string
  tp_target_fields :: "string list"
  tp_preconditions :: "string list"
  tp_approval :: string
  tp_integrity :: string
  tp_canonicalization :: int
  tp_exact :: "string list"
  tp_pattern :: "string option"
  tp_namespace :: "string option"
  tp_digest :: "string option"
  tp_priority :: int
  tp_active :: bool

record tool_descriptor =
  td_name :: string
  td_namespace :: string
  td_description :: string
  td_schema :: "(string \<times> json) list"
  td_digest :: string

datatype inventory_status = COVERED | READ_ONLY | EFFECTFUL | DRIFTED | UNKNOWN

record inventory_item =
  ii_descriptor :: tool_descriptor
  ii_status :: inventory_status
  ii_policy :: "string option"
  ii_reason :: string

section \<open>Schemas\<close>

definition SUPPORTED_DIALECTS :: "string list" where
  "SUPPORTED_DIALECTS = [''https://json-schema.org/draft/2020-12/schema'', ''http://json-schema.org/draft-07/schema#'', '''']"

definition ORDER_INSENSITIVE :: "string list" where
  "ORDER_INSENSITIVE = [''required'', ''enum'', ''type'']"

definition INFORMATIONAL :: "string list" where
  "INFORMATIONAL = [''title'', ''description'', ''examples'', ''$comment'', ''default'', ''deprecated'', ''readOnly'']"

definition dropped :: "string \<Rightarrow> bool" where
  "dropped k = (k \<in> set INFORMATIONAL \<or> k \<in> {''$defs'', ''definitions''})"

text \<open>\<open>s.split("/")\<close> and \<open>s.replace(old, new)\<close> for a nonempty \<open>old\<close>\<close>

fun split_slash :: "string \<Rightarrow> string list" where
  "split_slash [] = [[]]"
| "split_slash (c # s) = (if c = CHR ''/'' then [] # split_slash s
     else (case split_slash s of [] \<Rightarrow> [[c]] | p # ps \<Rightarrow> (c # p) # ps))"

fun replace_pair :: "char \<Rightarrow> char \<Rightarrow> string \<Rightarrow> string \<Rightarrow> string" where
  "replace_pair a b new (c # d # s) = (if c = a \<and> d = b then new @ replace_pair a b new s else c # replace_pair a b new (d # s))"
| "replace_pair a b new s = s"

definition pointer_token :: "string \<Rightarrow> string" where
  "pointer_token t = replace_pair (CHR ''~'') (CHR ''0'') ''~'' (replace_pair (CHR ''~'') (CHR ''1'') ''/'' t)"

fun resolve_pointer :: "string list \<Rightarrow> json \<Rightarrow> json option" where
  "resolve_pointer [] v = Some v"
| "resolve_pointer (t # ts) (JObj kvs) = (case map_of kvs (pointer_token t) of None \<Rightarrow> None | Some v \<Rightarrow> resolve_pointer ts v)"
| "resolve_pointer (t # ts) _ = None"

text \<open>\<open>float.is_integer\<close>\<close>

definition integral :: "json \<Rightarrow> json" where
  "integral v = (case v of JFloat t \<Rightarrow> (case read_float t of Some (Finite q) \<Rightarrow> if q = of_int \<lfloor>q\<rfloor> then JInt \<lfloor>q\<rfloor> else v | _ \<Rightarrow> v) | _ \<Rightarrow> v)"

text \<open>The references of a value, for the termination of their expansion.\<close>

primrec references :: "json \<Rightarrow> string set" where
  "references JNull = {}"
| "references (JBool b) = {}"
| "references (JInt i) = {}"
| "references (JFloat t) = {}"
| "references (JStr s) = {s}"
| "references (JArr vs) = \<Union> (set (map references vs))"
| "references (JObj kvs) = \<Union> (set (map snd (map (map_prod id references) kvs)))"

lemma finite_references: "finite (references v)"
  by (induction v) (auto intro!: finite_imageI)

definition draft_seven :: "string \<Rightarrow> bool" where
  "draft_seven dialect = (contains ''draft-07'' dialect \<or> dialect = [])"


lemma map_result_visit [fundef_cong]:
  "xs = ys \<Longrightarrow> (\<And>x. x \<in> set ys \<Longrightarrow> f x = g x) \<Longrightarrow> map_result f xs = map_result g ys"
  by (induction ys arbitrary: xs) auto

lemma member_references: "(k, v) \<in> set kvs \<Longrightarrow> references v \<subseteq> references (JObj kvs)"
  by force

lemma resolve_references: "resolve_pointer ts v = Some w \<Longrightarrow> references w \<subseteq> references v"
proof (induction ts v rule: resolve_pointer.induct)
  case (2 t ts kvs)
  then obtain v where v: "map_of kvs (pointer_token t) = Some v" "resolve_pointer ts v = Some w"
    by (auto split: option.splits)
  from "2.IH" [OF v] member_references [OF map_of_SomeD [OF v(1)]] show ?case by (rule order_trans)
qed simp_all

definition open_references :: "(string \<times> json) list \<Rightarrow> json \<Rightarrow> string list \<Rightarrow> nat" where
  "open_references base v stack = card ((references (JObj base) \<union> references v) - set stack)"

lemma open_references_mono: "references w \<subseteq> references v \<Longrightarrow> open_references base w stack \<le> open_references base v stack"
  unfolding open_references_def by (intro card_mono) (auto simp: finite_references)

lemma open_references_expand:
  assumes "r \<in> references v" and "r \<notin> set stack" and "references w \<subseteq> references (JObj base) \<union> references v"
  shows "open_references base w (stack @ [r]) < open_references base v stack"
  unfolding open_references_def
proof (rule psubset_card_mono)
  show "finite (references (JObj base) \<union> references v - set stack)"
    by (simp add: finite_references del: references.simps)
  show "references (JObj base) \<union> references w - set (stack @ [r]) \<subset> references (JObj base) \<union> references v - set stack"
    using assms by auto
qed

lemma size_member: "(k, v) \<in> set kvs \<Longrightarrow> size v < size (JObj kvs)"
  by (induction kvs) auto

lemma size_item: "v \<in> set vs \<Longrightarrow> size v < size (JArr vs)"
  by (induction vs) auto

lemma reference_member: "dict_get kvs ''$ref'' JNull = JStr r \<Longrightarrow> (''$ref'', JStr r) \<in> set kvs"
  by (auto simp: dict_get_def dest: map_of_SomeD split: option.splits)

text \<open>
  \<open>canonicalize_schema.visit\<close>: \<open>stack\<close> holds the references that are being expanded, the \<open>field\<close> is the key the
  value stands under.
\<close>

function visit_schema :: "(string \<times> json) list \<Rightarrow> string \<Rightarrow> json \<Rightarrow> string list \<Rightarrow> string option \<Rightarrow> json result" where
  "visit_schema base dialect (JObj kvs) stack field =
     (case dict_get kvs ''$ref'' JNull of
        JNull \<Rightarrow>
          and_then (map_result (\<lambda>(k, v). and_then (visit_schema base dialect v stack (Some k)) (\<lambda>w. Inr (k, w)))
                     (filter (\<lambda>(k, v). \<not> dropped k) (sort_key fst kvs)))
            (\<lambda>ms. Inr (JObj ms))
      | JStr reference \<Rightarrow>
          if \<not> starts_with ''#/'' reference then Inl (ValueError ''only local JSON Pointer $ref values are supported'')
          else if reference \<in> set stack then Inl (ValueError ''cyclic local $ref is not supported'')
          else (case resolve_pointer (split_slash (drop 2 reference)) (JObj base) of
              None \<Rightarrow> Inl (ValueError (''unresolved local $ref: '' @ reference))
            | Some v \<Rightarrow>
                (let siblings = filter (\<lambda>(k, w). k \<noteq> ''$ref'') kvs in
                 if siblings = [] \<or> draft_seven dialect then visit_schema base dialect v (stack @ [reference]) field
                 else visit_schema base dialect (JObj [(''allOf'', JArr [v, JObj siblings])]) (stack @ [reference]) field))
      | _ \<Rightarrow> Inl (ValueError ''only local JSON Pointer $ref values are supported''))"
| "visit_schema base dialect (JArr vs) stack field =
     and_then (map_result (\<lambda>v. visit_schema base dialect v stack None) vs)
       (\<lambda>ws. Inr (JArr (if field \<in> Some ` set ORDER_INSENSITIVE then sort_key canonical_json ws else ws)))"
| "visit_schema base dialect (JFloat t) stack field = Inr (integral (JFloat t))"
| "visit_schema base dialect JNull stack field = Inr JNull"
| "visit_schema base dialect (JBool b) stack field = Inr (JBool b)"
| "visit_schema base dialect (JInt i) stack field = Inr (JInt i)"
| "visit_schema base dialect (JStr t) stack field = Inr (JStr t)"
  by pat_completeness auto

termination
proof (relation "(\<lambda>(base, dialect, v, stack, field). open_references base v stack) <*mlex*>
    measure (\<lambda>(base, dialect, v, stack, field). size v)", goal_cases)
  case 1
  show ?case by (intro wf_mlex wf_measure)
next
  case (2 base dialect kvs stack field x k v)
  then have "(k, v) \<in> set kvs" by auto
  then show ?case
    using open_references_mono [OF member_references] size_member by (intro mlex_leq) auto
next
  case (3 base dialect kvs stack field reference v siblings)
  then have "(''$ref'', JStr reference) \<in> set kvs" by (intro reference_member) simp
  then have "reference \<in> references (JObj kvs)" by force
  moreover have "references v \<subseteq> references (JObj base)" using 3 by (intro resolve_references) simp
  ultimately have "open_references base v (stack @ [reference]) < open_references base (JObj kvs) stack"
    using 3 by (intro open_references_expand le_supI1) simp_all
  then show ?case by (intro mlex_less) simp
next
  case (4 base dialect kvs stack field reference v siblings)
  then have "(''$ref'', JStr reference) \<in> set kvs" by (intro reference_member) simp
  then have "reference \<in> references (JObj kvs)" by force
  moreover have "references v \<subseteq> references (JObj base)" using 4 by (intro resolve_references) simp
  then have "references (JObj [(''allOf'', JArr [v, JObj siblings])]) \<subseteq> references (JObj base) \<union> references (JObj kvs)"
    using 4 by auto
  ultimately have "open_references base (JObj [(''allOf'', JArr [v, JObj siblings])]) (stack @ [reference]) < open_references base (JObj kvs) stack"
    using 4 by (intro open_references_expand) simp_all
  then show ?case by (intro mlex_less) simp
next
  case (5 base dialect vs stack field v)
  then show ?case using open_references_mono [of v "JArr vs"] size_item by (intro mlex_leq) auto
qed


definition canonicalize_schema :: "int \<Rightarrow> (string \<times> json) list \<Rightarrow> json result" where
  "canonicalize_schema version schema =
     (let dialect = py_str (dict_get schema ''$schema'' (JStr [])) in
      if version \<noteq> 1 then Inl (ValueError ''unsupported schema canonicalization version'')
      else if dialect \<notin> set SUPPORTED_DIALECTS then Inl (ValueError (''unsupported JSON Schema dialect: '' @ dialect))
      else visit_schema schema dialect (JObj schema) [] None)"

definition schema_digest :: "(string \<Rightarrow> string) \<Rightarrow> (string \<times> json) list \<Rightarrow> string result" where
  "schema_digest sha schema =
     and_then (canonicalize_schema 1 schema) (\<lambda>v.
       Inr (sha (canonical_json (JObj [(''canonicalization_version'', JInt 1), (''schema'', v)]))))"

section \<open>Descriptors\<close>

definition make_descriptor :: "(string \<Rightarrow> string) \<Rightarrow> tool_descriptor \<Rightarrow> tool_descriptor result" where
  "make_descriptor sha d =
     (if td_name d = [] \<or> list_ex (\<lambda>c. c \<in> set (td_name d)) [CHR 0x00, CHR 0x0A, CHR 0x0D]
      then Inl (ValueError ''tool name must be a non-empty single-line string'')
      else and_then (schema_digest sha (td_schema d)) (\<lambda>digest.
        if td_digest d \<noteq> digest then Inl (ValueError ''tool descriptor schema_digest does not match input_schema'')
        else Inr d))"

definition create_descriptor ::
  "(string \<Rightarrow> string) \<Rightarrow> string \<Rightarrow> (string \<times> json) list \<Rightarrow> string \<Rightarrow> string \<Rightarrow> tool_descriptor result" where
  "create_descriptor sha name schema namespace description =
     and_then (schema_digest sha schema) (\<lambda>digest.
       make_descriptor sha \<lparr>td_name = strip name, td_namespace = strip namespace, td_description = strip description,
         td_schema = schema, td_digest = digest\<rparr>)"

section \<open>Reading a manifest\<close>

definition single_line :: "string \<Rightarrow> bool" where
  "single_line s = (CHR 0x0A \<notin> set s \<and> CHR 0x0D \<notin> set s)"

definition required_text :: "json \<Rightarrow> string \<Rightarrow> string result" where
  "required_text v label =
     (case v of
        JStr s \<Rightarrow> if strip s \<noteq> [] \<and> length s \<le> 256 \<and> single_line s then Inr (strip s)
                  else Inl (ValueError (label @ '' must be a non-empty single-line string''))
      | _ \<Rightarrow> Inl (ValueError (label @ '' must be a non-empty single-line string'')))"

definition line_of_json :: "json \<Rightarrow> string option" where
  "line_of_json v = (case v of JStr s \<Rightarrow> if strip s \<noteq> [] \<and> single_line s then Some (strip s) else None | _ \<Rightarrow> None)"

definition string_tuple :: "json \<Rightarrow> string \<Rightarrow> string list result" where
  "string_tuple v label =
     (case (case v of JArr xs \<Rightarrow> all_some (map line_of_json xs) | _ \<Rightarrow> None) of
        None \<Rightarrow> Inl (ValueError (label @ '' must be a list of non-empty strings''))
      | Some texts \<Rightarrow> if distinct texts then Inr texts else Inl (ValueError (label @ '' contains duplicates'')))"

definition rule_fields :: "string list" where
  "rule_fields = [''id'', ''revision'', ''effectful'', ''base_stakes'', ''target_fields'', ''preconditions'', ''approval_policy'',
     ''minimum_source_integrity'', ''canonicalization_version'', ''exact'', ''pattern'', ''namespace'', ''input_schema_digest'',
     ''priority'', ''active'']"

definition bool_field :: "json \<Rightarrow> string \<Rightarrow> bool result" where
  "bool_field v complaint = (case v of JBool b \<Rightarrow> Inr b | _ \<Rightarrow> Inl (ValueError complaint))"

definition int_field :: "json \<Rightarrow> string \<Rightarrow> int result" where
  "int_field v complaint = (case v of JInt i \<Rightarrow> Inr i | _ \<Rightarrow> Inl (ValueError complaint))"

definition pattern_field :: "json \<Rightarrow> string \<Rightarrow> string option result" where
  "pattern_field v label =
     (case v of
        JNull \<Rightarrow> Inr None
      | JStr s \<Rightarrow>
          if s = [] then Inl (ValueError (label @ '' must be a non-empty string''))
          else if \<not> starts_with ''^'' s \<or> last s \<noteq> CHR ''$'' then Inl (ValueError (label @ '' must be anchored''))
          else if re_compile s = None then Inl (ValueError (label @ '' is invalid''))
          else Inr (Some s)
      | _ \<Rightarrow> Inl (ValueError (label @ '' must be a non-empty string'')))"

definition choice_field :: "string list \<Rightarrow> json \<Rightarrow> string \<Rightarrow> string \<Rightarrow> string result" where
  "choice_field choices v no_text no_choice =
     (case v of JStr s \<Rightarrow> if s \<in> set choices then Inr s else Inl (ValueError no_choice) | _ \<Rightarrow> Inl (ValueError no_text))"

definition namespace_field :: "json \<Rightarrow> string \<Rightarrow> string option result" where
  "namespace_field v complaint =
     (case v of
        JNull \<Rightarrow> Inr None
      | JStr s \<Rightarrow> Inr (if strip s = [] then None else Some (strip s))
      | _ \<Rightarrow> Inl (ValueError complaint))"

definition hex_digest :: "string \<Rightarrow> bool" where
  "hex_digest s = (length s = 64 \<and> list_all (\<lambda>c. c \<in> set ''0123456789abcdef'') s)"

definition digest_field :: "json \<Rightarrow> string \<Rightarrow> string option result" where
  "digest_field v complaint =
     (case v of
        JNull \<Rightarrow> Inr None
      | JStr s \<Rightarrow> if hex_digest s then Inr (Some s) else Inl (ValueError complaint)
      | _ \<Rightarrow> Inl (ValueError complaint))"

definition parse_members :: "(string \<times> json) list \<Rightarrow> tool_policy result" where
  "parse_members kvs =
     (let field = dict_get kvs in
      and_then (required_text (field ''id'' JNull) ''policy id'') (\<lambda>i.
      let named = (\<lambda>t. ''policy '' @ i @ '' '' @ t) in
      and_then (required_text (field ''revision'' JNull) (named ''revision'')) (\<lambda>revision.
      and_then (bool_field (field ''effectful'' JNull) (named ''effectful must be a boolean'')) (\<lambda>eff.
      and_then (required_text (field ''base_stakes'' JNull) (named ''base_stakes'')) (\<lambda>st.
      and_then (if st \<in> {''low'', ''med'', ''high'', ''critical''} then Inr () else Inl (ValueError (named ''base_stakes is invalid''))) (\<lambda>u.
      and_then (string_tuple (field ''exact'' (JArr [])) (named ''exact'')) (\<lambda>names.
      and_then (string_tuple (field ''target_fields'' (JArr [])) (named ''target_fields'')) (\<lambda>fields.
      and_then (string_tuple (field ''preconditions'' (JArr [])) (named ''preconditions'')) (\<lambda>pre.
      and_then (pattern_field (field ''pattern'' JNull) (named ''pattern'')) (\<lambda>pattern.
      and_then (if names = [] \<and> pattern = None then Inl (ValueError (named ''must define exact names or a pattern'')) else Inr ()) (\<lambda>u.
      and_then (choice_field [''none'', ''allowed'', ''required''] (field ''approval_policy'' (JStr ''none''))
                  ''approval_policy must be a string'' ''approval_policy must be none, allowed, or required'') (\<lambda>approval.
      and_then (choice_field [''trusted'', ''semi'', ''untrusted''] (field ''minimum_source_integrity'' (JStr ''trusted''))
                  ''minimum_source_integrity must be a string'' ''minimum_source_integrity is invalid'') (\<lambda>level.
      and_then (int_field (field ''canonicalization_version'' (JInt 1)) ''policy canonicalization_version must be an integer'') (\<lambda>version.
      and_then (if version = 1 then Inr () else Inl (ValueError ''unsupported policy canonicalization_version'')) (\<lambda>u.
      and_then (namespace_field (field ''namespace'' JNull) (named ''namespace must be a string or null'')) (\<lambda>space.
      and_then (int_field (field ''priority'' (JInt 0)) (named ''priority must be an integer'')) (\<lambda>rank.
      and_then (bool_field (field ''active'' (JBool True)) (named ''active must be a boolean'')) (\<lambda>live.
      and_then (digest_field (field ''input_schema_digest'' JNull) (named ''input_schema_digest must be a SHA-256 digest'')) (\<lambda>digest.
        Inr \<lparr>tp_id = i, tp_revision = revision, tp_effectful = eff, tp_base_stakes = st, tp_target_fields = fields,
             tp_preconditions = pre, tp_approval = approval, tp_integrity = level, tp_canonicalization = version,
             tp_exact = map casefold names, tp_pattern = pattern, tp_namespace = space, tp_digest = digest,
             tp_priority = rank, tp_active = live\<rparr>)))))))))))))))))))"

text \<open>\<open>_parse_rule\<close>\<close>

definition parse_policy :: "string \<Rightarrow> json \<Rightarrow> tool_policy result" where
  "parse_policy strictness v =
     (case v of
        JObj kvs \<Rightarrow>
          (let unknown = filter (\<lambda>k. k \<notin> set rule_fields) (map fst kvs);
               absent = sort (filter (\<lambda>k. k \<notin> fst ` set kvs) [''id'', ''revision'', ''effectful'', ''base_stakes'']) in
           if unknown \<noteq> [] \<and> strictness \<noteq> ''observe'' then Inl (ValueError (''unknown policy fields: '' @ join_with '', '' (sort unknown)))
           else if absent \<noteq> [] then Inl (ValueError (''policy rule missing fields: '' @ join_with '', '' absent))
           else parse_members kvs)
      | _ \<Rightarrow> Inl (ValueError ''tool policy rule must be a mapping''))"

text \<open>Version 1 of the format, translated\<close>

definition normalize_v1_rule :: "(string \<Rightarrow> string) \<Rightarrow> json \<Rightarrow> json result" where
  "normalize_v1_rule sha v =
     (case v of
        JObj kvs \<Rightarrow>
          (case dict_get kvs ''allow_human_approval'' JNull of
             JBool b \<Rightarrow> Inr (JObj (filter (\<lambda>(k, w). k \<notin> {''allow_human_approval'', ''minimum_priority''})
               (fold (\<lambda>(k, w). AList.update k w)
                 [(''revision'', JStr (sha (canonical_json (JObj kvs)))), (''approval_policy'', JStr (if b then ''allowed'' else ''none'')),
                  (''minimum_source_integrity'', dict_get kvs ''minimum_priority'' (JStr ''trusted'')),
                  (''canonicalization_version'', JInt 1), (''active'', JBool True)] kvs)))
           | _ \<Rightarrow> Inl (ValueError ''v1 allow_human_approval must be a boolean''))
      | _ \<Rightarrow> Inl (ValueError ''v1 policy rule must be a mapping''))"

definition normalize_v1 :: "(string \<Rightarrow> string) \<Rightarrow> (string \<times> json) list \<Rightarrow> json list result" where
  "normalize_v1 sha data =
     (case dict_get data ''rules'' JNull of
        JArr rules \<Rightarrow> map_result (normalize_v1_rule sha) rules
      | _ \<Rightarrow> Inl (ValueError ''v1 action policy registry requires rules''))"

text \<open>\<open>_validate\<close>: the names and the patterns seen so far, with the rule last seen under each pattern\<close>

type_synonym seen_rules = "string list \<times> (string option \<times> string) list \<times> ((string option \<times> string) \<times> int) list"

definition check_rule :: "tool_policy \<Rightarrow> seen_rules \<Rightarrow> seen_rules result" where
  "check_rule r = (\<lambda>(ids, names, patterns).
     if tp_id r \<in> set ids then Inl (ValueError (''duplicate policy id: '' @ tp_id r))
     else and_then (fold_result (\<lambda>n names. if (tp_namespace r, n) \<in> set names then Inl (ValueError (''duplicate exact policy: '' @ (case tp_namespace r of None \<Rightarrow> ''None'' | Some ns \<Rightarrow> ns) @ '':'' @ n))
                                 else Inr (names @ [(tp_namespace r, n)])) (tp_exact r) names) (\<lambda>names.
       case tp_pattern r of
         None \<Rightarrow> Inr (ids @ [tp_id r], names, patterns)
       | Some p \<Rightarrow>
           if map_of patterns (tp_namespace r, p) = Some (tp_priority r)
           then Inl (ValueError (''ambiguous duplicate policy pattern: '' @ p))
           else Inr (ids @ [tp_id r], names, AList.update (tp_namespace r, p) (tp_priority r) patterns)))"

definition validated :: "tool_policy list \<Rightarrow> tool_policy list result" where
  "validated rules = and_then (fold_result check_rule rules ([], [], [])) (\<lambda>u. Inr rules)"

definition load_manifest :: "(string \<Rightarrow> string) \<Rightarrow> string \<Rightarrow> (string \<times> json) list \<Rightarrow> tool_policy list result" where
  "load_manifest sha strictness data =
     (let version = dict_get data ''schema_version'' JNull in
      if version = JInt 1 then and_then (normalize_v1 sha data) (\<lambda>rules. and_then (map_result (parse_policy strictness) rules) validated)
      else case (version, dict_get data ''rules'' JNull) of
        (JInt i, JArr rules) \<Rightarrow>
          if i \<noteq> 2 then Inl (ValueError ''tool manifest must use schema_version 1 or 2 with a rules list'')
          else let unknown = filter (\<lambda>k. k \<notin> {''schema_version'', ''canonicalization_version'', ''rules''}) (map fst data) in
            if unknown \<noteq> [] \<and> strictness \<noteq> ''observe'' then Inl (ValueError (''unknown manifest fields: '' @ join_with '', '' (sort unknown)))
            else if \<not> equals_one (dict_get data ''canonicalization_version'' (JInt 1))
              then Inl (ValueError ''unsupported manifest canonicalization_version'')
            else and_then (map_result (parse_policy strictness) rules) validated
      | _ \<Rightarrow> Inl (ValueError ''tool manifest must use schema_version 1 or 2 with a rules list''))"

section \<open>Matching\<close>

definition in_namespace :: "string \<Rightarrow> tool_policy \<Rightarrow> bool" where
  "in_namespace space r = (tp_namespace r = None \<or> tp_namespace r = Some space)"

definition specificity :: "string \<Rightarrow> tool_policy \<Rightarrow> bool \<times> int" where
  "specificity space r = (tp_namespace r = Some space, tp_priority r)"

definition less_specific :: "bool \<times> int \<Rightarrow> bool \<times> int \<Rightarrow> bool" where
  "less_specific a b = (fst a < fst b \<or> fst a = fst b \<and> snd a < snd b)"

text \<open>\<open>max(rules, key=...)\<close>: the first of the greatest\<close>

fun most_specific :: "string \<Rightarrow> tool_policy \<Rightarrow> tool_policy list \<Rightarrow> tool_policy" where
  "most_specific space r [] = r"
| "most_specific space r (x # xs) = most_specific space (if less_specific (specificity space r) (specificity space x) then x else r) xs"

definition named_rule :: "string \<Rightarrow> string \<Rightarrow> tool_policy \<Rightarrow> bool" where
  "named_rule name space r = (tp_active r \<and> in_namespace space r \<and> name \<in> set (tp_exact r))"

definition pattern_rule :: "string \<Rightarrow> string \<Rightarrow> tool_policy \<Rightarrow> bool" where
  "pattern_rule name space r =
     (tp_active r \<and> in_namespace space r
      \<and> (case tp_pattern r of
           None \<Rightarrow> False
         | Some p \<Rightarrow> p \<noteq> [] \<and> (case re_compile p of None \<Rightarrow> False | Some re \<Rightarrow> re_fullmatch re name)))"

definition match_policy :: "tool_policy list \<Rightarrow> string \<Rightarrow> string \<Rightarrow> tool_policy option result" where
  "match_policy rules name space =
     (let key = tool_key name in
      case filter (named_rule key space) rules of
        r # rs \<Rightarrow> Inr (Some (most_specific space r rs))
      | [] \<Rightarrow>
        (case filter (pattern_rule key space) rules of
           [] \<Rightarrow> Inr None
         | r # rs \<Rightarrow>
             (let top = specificity space (most_specific space r rs) in
              case filter (\<lambda>x. specificity space x = top) (r # rs) of
                [w] \<Rightarrow> Inr (Some w)
              | _ \<Rightarrow> Inl (ValueError (''ambiguous policy patterns for '' @ space @ '':'' @ name)))))"

section \<open>The inventory\<close>

definition inventory_entry :: "tool_policy list \<Rightarrow> tool_descriptor \<Rightarrow> inventory_item result" where
  "inventory_entry rules d =
     and_then (match_policy rules (td_name d) (td_namespace d)) (\<lambda>m. Inr (case m of
        None \<Rightarrow> \<lparr>ii_descriptor = d, ii_status = UNKNOWN, ii_policy = None, ii_reason = ''NO_POLICY''\<rparr>
      | Some r \<Rightarrow>
          if (case tp_digest r of None \<Rightarrow> False | Some digest \<Rightarrow> digest \<noteq> [] \<and> digest \<noteq> td_digest d)
          then \<lparr>ii_descriptor = d, ii_status = DRIFTED, ii_policy = Some (tp_id r), ii_reason = ''CANONICAL_SCHEMA_DRIFT''\<rparr>
          else \<lparr>ii_descriptor = d, ii_status = (if tp_effectful r then EFFECTFUL else READ_ONLY), ii_policy = Some (tp_id r),
                ii_reason = ''POLICY_MATCHED''\<rparr>))"

definition classify_entry ::
  "tool_policy list \<Rightarrow> tool_descriptor \<Rightarrow> inventory_item list \<times> (string \<times> string) list \<Rightarrow> (inventory_item list \<times> (string \<times> string) list) result" where
  "classify_entry rules d = (\<lambda>(items, seen).
     if (td_namespace d, td_name d) \<in> set seen
     then Inl (ValueError (''duplicate tool inventory entry: '' @ td_namespace d @ '':'' @ td_name d))
     else and_then (inventory_entry rules d) (\<lambda>x. Inr (items @ [x], seen @ [(td_namespace d, td_name d)])))"

definition classify_inventory ::
  "(string \<Rightarrow> string) \<Rightarrow> tool_policy list \<Rightarrow> tool_descriptor list \<Rightarrow> bool \<Rightarrow> inventory_item list result" where
  "classify_inventory sha rules descriptors whole =
     and_then (fold_result (classify_entry rules) (sort_key (\<lambda>d. [td_namespace d, td_name d]) descriptors) ([], [])) (\<lambda>(items, seen).
       if whole then Inr items
       else and_then (create_descriptor sha ''__inventory_incomplete__'' [] [] []) (\<lambda>d.
         Inr (items @ [\<lparr>ii_descriptor = d, ii_status = UNKNOWN, ii_policy = None, ii_reason = ''INVENTORY_INCOMPLETE''\<rparr>])))"

text \<open>\<open>scaffold\<close>: a rule for an operator to review, inactive as it stands\<close>

definition slug_char :: "char \<Rightarrow> bool" where
  "slug_char c = (c \<in> set ''abcdefghijklmnopqrstuvwxyz0123456789'')"

text \<open>\<open>re.sub(r"[^a-z0-9]+", "-", s)\<close>\<close>

fun slug_runs :: "bool \<Rightarrow> string \<Rightarrow> string" where
  "slug_runs gap [] = (if gap then ''-'' else [])"
| "slug_runs gap (c # s) =
     (if slug_char c then (if gap then CHR ''-'' # c # slug_runs False s else c # slug_runs False s) else slug_runs True s)"

definition slug :: "string \<Rightarrow> string \<Rightarrow> string" where
  "slug space name =
     (let t = slug_runs False (casefold (if space \<noteq> [] then space @ ''-'' @ name else name));
          u = rstrip_chars (\<lambda>c. c = CHR ''-'') (dropWhile (\<lambda>c. c = CHR ''-'') t)
      in if u = [] then ''tool'' else u)"

definition scaffold :: "tool_descriptor \<Rightarrow> (string \<times> json) list" where
  "scaffold d =
     [(''id'', JStr (''review-'' @ slug (td_namespace d) (td_name d))), (''revision'', JStr ''REVIEW_REQUIRED''), (''active'', JBool False),
      (''exact'', JArr [JStr (casefold (td_name d))]),
      (''namespace'', if td_namespace d = [] then JNull else JStr (td_namespace d)), (''effectful'', JBool True),
      (''base_stakes'', JStr ''high''), (''target_fields'', JArr []), (''preconditions'', JArr [JStr ''operator_review_required'']),
      (''approval_policy'', JStr ''required''), (''minimum_source_integrity'', JStr ''trusted''), (''canonicalization_version'', JInt 1),
      (''input_schema_digest'', JStr (td_digest d))]"

end
