(* ===== verification/Manifest_Props.thy ===== *)
theory Manifest_Props
  imports Manifest "HOL-Library.Multiset"
begin

text \<open>
  The manifest: the policy chosen for a tool is the one strictly most specific of those that compete, whatever the
  order of the rules; and two defects of loading and of canonical schemas.
\<close>

section \<open>What loading guarantees\<close>

definition exact_keys :: "tool_policy list \<Rightarrow> (string option \<times> string) list" where
  "exact_keys rules = concat (map (\<lambda>r. map (Pair (tp_namespace r)) (tp_exact r)) rules)"

lemma checked_exact_names:
  assumes "fold_result (\<lambda>n names. if (space, n) \<in> set names then Inl (e n) else Inr (names @ [(space, n)])) ns names = Inr names'"
    and "distinct names"
  shows "names' = names @ map (Pair space) ns \<and> distinct names'"
  using assms
proof (induction ns arbitrary: names)
  case (Cons n ns)
  then have new: "(space, n) \<notin> set names"
    and rest: "fold_result (\<lambda>n names. if (space, n) \<in> set names then Inl (e n) else Inr (names @ [(space, n)])) ns (names @ [(space, n)]) = Inr names'"
    by (simp_all split: if_splits)
  from new Cons.prems(2) have "distinct (names @ [(space, n)])" by simp
  note IH = Cons.IH [OF rest this]
  from conjunct1 [OF IH] have "names' = names @ map (Pair space) (n # ns)" by simp
  from conjI [OF this conjunct2 [OF IH]] show ?case .
qed simp

lemma checked_rules:
  assumes "fold_result check_rule rules (ids, names, patterns) = Inr (ids', names', patterns')" and "distinct ids" and "distinct names"
  shows "distinct (ids @ map tp_id rules) \<and> distinct (names @ exact_keys rules)"
  using assms
proof (induction rules arbitrary: ids names patterns)
  case (Cons r rules)
  obtain s1 where s1: "check_rule r (ids, names, patterns) = Inr s1" "fold_result check_rule rules s1 = Inr (ids', names', patterns')"
    using Cons.prems(1) by (auto simp: splits_result)
  obtain ids1 names1 patterns1 where s: "s1 = (ids1, names1, patterns1)" by (cases s1)
  have i: "tp_id r \<notin> set ids" "ids1 = ids @ [tp_id r]"
    and named: "fold_result (\<lambda>n names. if (tp_namespace r, n) \<in> set names then Inl (ValueError (''duplicate exact policy: '' @ (case tp_namespace r of None \<Rightarrow> ''None'' | Some ns \<Rightarrow> ns) @ '':'' @ n))
      else Inr (names @ [(tp_namespace r, n)])) (tp_exact r) names = Inr names1"
    using s1(1) by (auto simp: check_rule_def s splits_result split: if_splits option.splits)
  note n = checked_exact_names [OF named Cons.prems(3)]
  have "distinct ids1" using i Cons.prems(2) by simp
  from Cons.IH [OF s1(2) [unfolded s] this conjunct2 [OF n]] conjunct1 [OF n] i(2) show ?case by (simp add: exact_keys_def)
qed (simp add: exact_keys_def)

lemma validated_distinct:
  assumes "validated rules = Inr rules'"
  shows "rules' = rules" and "distinct (map tp_id rules)" and "distinct (exact_keys rules)"
  using assms checked_rules [of rules "[]" "[]" "[]"] by (auto simp: validated_def splits_result)

lemma loaded_validated: "load_manifest sha strictness data = Inr rules \<Longrightarrow> validated rules = Inr rules"
  using validated_distinct(1) by (auto simp: load_manifest_def splits_result Let_def split: if_splits json.splits)

section \<open>The order of the rules\<close>

lemma less_specific_total: "\<not> less_specific a b \<Longrightarrow> \<not> less_specific b a \<Longrightarrow> a = b"
  by (cases a; cases b) (auto simp: less_specific_def)

lemma less_specific_trans: "\<not> less_specific b a \<Longrightarrow> \<not> less_specific c b \<Longrightarrow> \<not> less_specific c a"
  by (cases a; cases b; cases c) (auto simp: less_specific_def)

lemma most_specific_max:
  "most_specific space r xs \<in> set (r # xs) \<and> (\<forall>x\<in>set (r # xs). \<not> less_specific (specificity space (most_specific space r xs)) (specificity space x))"
proof (induction space r xs rule: most_specific.induct)
  case (1 space r)
  then show ?case by (simp add: less_specific_def)
next
  case (2 space r x xs)
  let ?m = "if less_specific (specificity space r) (specificity space x) then x else r"
  have "\<not> less_specific (specificity space ?m) (specificity space r)" "\<not> less_specific (specificity space ?m) (specificity space x)"
    by (auto simp: less_specific_def)
  with 2 show ?case by (auto dest: less_specific_trans [rotated] split: if_splits)
qed

lemma most_specific_same:
  assumes "set (r # xs) = set (r' # xs')"
  shows "specificity space (most_specific space r xs) = specificity space (most_specific space r' xs')"
  using most_specific_max [of space r xs] most_specific_max [of space r' xs'] assms
  by (metis less_specific_total)

lemma exact_key_unique:
  assumes "distinct (exact_keys rules)" and "r \<in> set rules" and "r' \<in> set rules" and "tp_namespace r = tp_namespace r'"
    and "n \<in> set (tp_exact r)" and "n \<in> set (tp_exact r')"
  shows "r = r'"
  using assms
proof (induction rules)
  case (Cons x rules)
  have "(tp_namespace y, n) \<in> set (exact_keys rules)" if "y \<in> set rules" "n \<in> set (tp_exact y)" for y
    using that by (auto simp: exact_keys_def)
  with Cons show ?case by (auto simp: exact_keys_def)
qed simp

lemma named_rule_unique:
  assumes "distinct (exact_keys rules)"
  shows "inj_on (specificity space) (set (filter (named_rule key space) rules))"
  using assms by (intro inj_onI) (auto simp: named_rule_def in_namespace_def specificity_def intro: exact_key_unique)

lemma sole_case:
  assumes "mset xs = mset ys"
  shows "(case xs of [w] \<Rightarrow> f w | _ \<Rightarrow> e) = (case ys of [w] \<Rightarrow> f w | _ \<Rightarrow> e)"
proof (cases "length xs = 1")
  case True
  then obtain x where x: "xs = [x]" by (auto simp: length_Suc_conv)
  with assms show ?thesis by simp
next
  case False
  have "length ys = length xs" using assms by (metis size_mset)
  with False show ?thesis by (cases xs; cases ys) (auto split: list.splits)
qed

section \<open>The choice of a rule\<close>

text \<open>The rules that compete for a tool: those that name it, and the patterns only where none does.\<close>

definition names_tool :: "string \<Rightarrow> string \<Rightarrow> tool_policy \<Rightarrow> bool" where
  "names_tool key space r = (tp_active r \<and> tp_namespace r \<in> {None, Some space} \<and> key \<in> set (tp_exact r))"

definition covers_tool :: "string \<Rightarrow> string \<Rightarrow> tool_policy \<Rightarrow> bool" where
  "covers_tool key space r = (tp_active r \<and> tp_namespace r \<in> {None, Some space}
     \<and> (\<exists>p re. tp_pattern r = Some p \<and> p \<noteq> [] \<and> re_compile p = Some re \<and> re_fullmatch re key))"

definition applicable :: "tool_policy list \<Rightarrow> string \<Rightarrow> string \<Rightarrow> tool_policy set" where
  "applicable rules key space =
     (if \<exists>r\<in>set rules. names_tool key space r then {r \<in> set rules. names_tool key space r} else {r \<in> set rules. covers_tool key space r})"

text \<open>A rule of the tool's own namespace outranks one of none; otherwise the priority decides.\<close>

definition outranks :: "string \<Rightarrow> tool_policy \<Rightarrow> tool_policy \<Rightarrow> bool" where
  "outranks space w x =
     (if (tp_namespace w = Some space) = (tp_namespace x = Some space) then tp_priority x < tp_priority w
      else tp_namespace w = Some space)"

definition strictly_first :: "string \<Rightarrow> tool_policy set \<Rightarrow> tool_policy \<Rightarrow> bool" where
  "strictly_first space A w = (w \<in> A \<and> (\<forall>x\<in>A. x \<noteq> w \<longrightarrow> outranks space w x))"

lemma names_tool_rule: "names_tool = named_rule"
  by (auto simp: fun_eq_iff names_tool_def named_rule_def in_namespace_def)

lemma covers_tool_rule: "covers_tool = pattern_rule"
  by (auto simp: fun_eq_iff covers_tool_def pattern_rule_def in_namespace_def split: option.splits)

lemmas applicable_rules = applicable_def [unfolded names_tool_rule covers_tool_rule]

lemma outranks_less: "outranks space w x \<longleftrightarrow> less_specific (specificity space x) (specificity space w)"
  by (auto simp: outranks_def less_specific_def specificity_def)

lemmas strictly_first_less = strictly_first_def [unfolded outranks_less]

lemma less_specific_irrefl: "\<not> less_specific a a"
  by (simp add: less_specific_def)

lemma less_specific_asym: "less_specific a b \<Longrightarrow> \<not> less_specific b a"
  by (auto simp: less_specific_def)

lemma strictly_first_unique: "strictly_first space A v \<Longrightarrow> strictly_first space A w \<Longrightarrow> v = w"
  unfolding strictly_first_less by (metis less_specific_asym)

lemma named_first:
  assumes "inj_on (specificity space) (set (r # rs))"
  shows "strictly_first space (set (r # rs)) (most_specific space r rs)"
proof -
  let ?m = "most_specific space r rs"
  have m: "?m \<in> set (r # rs)" "\<not> less_specific (specificity space ?m) (specificity space x)" if "x \<in> set (r # rs)" for x
    using most_specific_max [of space r rs] that by blast+
  have "less_specific (specificity space x) (specificity space ?m)" if "x \<in> set (r # rs)" "x \<noteq> ?m" for x
    using m [OF that(1)] that assms less_specific_total by (metis inj_onD)
  with m show ?thesis by (auto simp: strictly_first_less)
qed

lemma pattern_first:
  assumes "distinct (r # rs)"
  shows "(case filter (\<lambda>x. specificity space x = specificity space (most_specific space r rs)) (r # rs) of [w] \<Rightarrow> Inr (Some w) | _ \<Rightarrow> Inl e)
      = Inr (Some w) \<longleftrightarrow> strictly_first space (set (r # rs)) w"
    (is "(case ?tops of [w] \<Rightarrow> _ w | _ \<Rightarrow> _) = _ \<longleftrightarrow> _")
proof -
  let ?m = "most_specific space r rs"
  have max: "\<not> less_specific (specificity space ?m) (specificity space x)" if "x \<in> set (r # rs)" for x
    using most_specific_max [of space r rs] that by blast
  have m: "?m \<in> set (r # rs)" using most_specific_max [of space r rs] by blast
  have first: "strictly_first space (set (r # rs)) w \<longleftrightarrow> set ?tops = {w}"
  proof
    assume first: "strictly_first space (set (r # rs)) w"
    then have w: "?m = w" using m max [of w] unfolding strictly_first_less by blast
    have "specificity space x \<noteq> specificity space w" if "x \<in> set (r # rs)" "x \<noteq> w" for x
      using first that less_specific_irrefl unfolding strictly_first_less by metis
    with m show "set ?tops = {w}" unfolding set_filter w by blast
  next
    assume tops: "set ?tops = {w}"
    have "?m \<in> set ?tops" using m unfolding set_filter by blast
    then have w: "?m = w" unfolding tops by simp
    have "less_specific (specificity space x) (specificity space w)" if "x \<in> set (r # rs)" "x \<noteq> w" for x
    proof -
      have "specificity space x \<noteq> specificity space w" using tops that unfolding w set_filter by blast
      with max [OF that(1)] show ?thesis unfolding w using less_specific_total by blast
    qed
    with m show "strictly_first space (set (r # rs)) w" unfolding w strictly_first_less by blast
  qed
  have "set ts = {w} \<longleftrightarrow> ts = [w]" if "distinct ts" for ts
    using that by (cases ts) (auto simp: subset_singleton_iff)
  from this [OF distinct_filter [OF assms]] have one: "set ?tops = {w} \<longleftrightarrow> ?tops = [w]" .
  have sole: "(case ts of [w] \<Rightarrow> Inr (Some w) | _ \<Rightarrow> Inl e) = Inr (Some w) \<longleftrightarrow> ts = [w]" for ts
    by (cases ts rule: remdups_adj.cases) auto
  show ?thesis unfolding sole first one ..
qed

lemma match_policy_first:
  assumes "load_manifest sha strictness data = Inr rules"
  shows "match_policy rules name space = Inr (Some w) \<longleftrightarrow> strictly_first space (applicable rules (tool_key name) space) w"
proof -
  let ?key = "tool_key name"
  note loaded = validated_distinct [OF loaded_validated [OF assms]]
  show ?thesis
  proof (cases "filter (named_rule ?key space) rules")
    case (Cons r rs)
    then have named: "{x \<in> set rules. named_rule ?key space x} = set (r # rs)" by (metis set_filter)
    then have "\<exists>x\<in>set rules. named_rule ?key space x" by auto
    with named have A: "applicable rules ?key space = set (r # rs)" by (simp add: applicable_rules)
    have "strictly_first space (set (r # rs)) (most_specific space r rs)"
      using named_rule_unique [OF loaded(3), of space ?key] unfolding Cons by (rule named_first)
    then show ?thesis unfolding A using strictly_first_unique by (auto simp: match_policy_def Let_def Cons)
  next
    case Nil
    then have A: "applicable rules ?key space = set (filter (pattern_rule ?key space) rules)"
      by (auto simp: applicable_rules filter_empty_conv)
    show ?thesis
    proof (cases "filter (pattern_rule ?key space) rules")
      case Nil
      then show ?thesis unfolding A using \<open>filter (named_rule ?key space) rules = []\<close>
        by (simp add: match_policy_def Let_def strictly_first_less)
    next
      case (Cons r rs)
      have "distinct (r # rs)" using loaded(2) unfolding Cons [symmetric] by (intro distinct_filter) (simp add: distinct_map)
      from pattern_first [OF this] show ?thesis
        unfolding A match_policy_def Let_def \<open>filter (named_rule ?key space) rules = []\<close> Cons list.case .
    qed
  qed
qed

lemma match_policy_none: "match_policy rules name space = Inr None \<longleftrightarrow> applicable rules (tool_key name) space = {}"
proof (cases "filter (named_rule (tool_key name) space) rules")
  case Nil
  then have named: "\<not> (\<exists>x\<in>set rules. named_rule (tool_key name) space x)" by (auto simp: filter_empty_conv)
  have A: "applicable rules (tool_key name) space = set (filter (pattern_rule (tool_key name) space) rules)"
    unfolding applicable_rules if_not_P [OF named] set_filter ..
  have sole: "(case ts of [w] \<Rightarrow> Inr (Some w) | _ \<Rightarrow> Inl e) \<noteq> Inr None" for ts :: "tool_policy list" and e :: py_error
    by (cases ts rule: remdups_adj.cases) auto
  show ?thesis
    unfolding A match_policy_def Let_def Nil list.case
    by (cases "filter (pattern_rule (tool_key name) space) rules") (simp_all only: list.case sole list.set, simp_all)
next
  case (Cons r rs)
  then have named: "r \<in> {x \<in> set rules. named_rule (tool_key name) space x}" by (metis list.set_intros(1) set_filter)
  then show ?thesis by (auto simp: match_policy_def Let_def Cons applicable_rules)
qed

lemma match_order_irrelevant:
  assumes "load_manifest sha strictness data = Inr rules" and "mset rules = mset rules'"
  shows "match_policy rules' name space = match_policy rules name space"
proof -
  let ?key = "tool_key name"
  let ?xs = "filter (named_rule ?key space) rules" and ?ys = "filter (named_rule ?key space) rules'"
  let ?ps = "filter (pattern_rule ?key space) rules" and ?qs = "filter (pattern_rule ?key space) rules'"
  have inj: "inj_on (specificity space) (set ?xs)"
    using named_rule_unique [OF validated_distinct(3) [OF loaded_validated [OF assms(1)]]] .
  have same: "mset (filter P rules) = mset (filter P rules')" for P by (simp add: assms(2))
  note sets = same [THEN mset_eq_setD]
  show ?thesis
  proof (cases ?xs)
    case Nil
    with sets [of "named_rule ?key space"] have none: "?ys = []" by simp
    show ?thesis
    proof (cases ?ps)
      case Nil
      with sets [of "pattern_rule ?key space"] have "?qs = []" by simp
      with Nil none \<open>?xs = []\<close> show ?thesis by (simp add: match_policy_def Let_def)
    next
      case (Cons p ps)
      with sets [of "pattern_rule ?key space"] obtain q qs where qs: "?qs = q # qs" by (cases ?qs) auto
      let ?top = "specificity space (most_specific space p ps)"
      have top: "specificity space (most_specific space q qs) = ?top"
        using sets [of "pattern_rule ?key space"] unfolding Cons qs by (intro most_specific_same) simp
      have "mset (filter (\<lambda>x. specificity space x = ?top) (p # ps)) = mset (filter (\<lambda>x. specificity space x = ?top) (q # qs))"
        using same [of "\<lambda>x. pattern_rule ?key space x \<and> specificity space x = ?top"] unfolding Cons [symmetric] qs [symmetric] by simp
      then show ?thesis
        unfolding match_policy_def Let_def \<open>?xs = []\<close> none Cons qs list.case top
        by (rule sole_case [OF sym])
    qed
  next
    case (Cons x xs)
    with sets [of "named_rule ?key space"] obtain y ys where ys: "?ys = y # ys" by (cases ?ys) auto
    have "specificity space (most_specific space y ys) = specificity space (most_specific space x xs)"
      using sets [of "named_rule ?key space"] unfolding Cons ys by (intro most_specific_same) simp
    moreover have "most_specific space y ys \<in> set ?xs" "most_specific space x xs \<in> set ?xs"
      using most_specific_max [of space y ys] most_specific_max [of space x xs] sets [of "named_rule ?key space"]
      unfolding Cons ys by auto
    ultimately have "most_specific space y ys = most_specific space x xs" using inj by (rule inj_onD [rotated])
    then show ?thesis by (simp add: match_policy_def Let_def Cons ys)
  qed
qed


text \<open>
  C40. The choice of a policy is exact: of the active rules of a loaded manifest that compete for a tool (those
  that name it in its namespace or in none, and patterns only where no rule names it), the one returned is the
  one strictly more specific than all others, a rule of the tool's own namespace before one of none, then by
  priority; there is none exactly when no rule competes, and a tie is an error. The order in which the manifest
  lists its rules never matters.
\<close>
theorem match_policy_exact:
  assumes "load_manifest sha strictness data = Inr rules"
  shows "(match_policy rules name space = Inr None \<longleftrightarrow> applicable rules (tool_key name) space = {})
    \<and> (\<forall>w. match_policy rules name space = Inr (Some w) \<longleftrightarrow> strictly_first space (applicable rules (tool_key name) space) w)
    \<and> (\<forall>rules'. mset rules' = mset rules \<longrightarrow> match_policy rules' name space = match_policy rules name space)"
  using match_policy_none match_policy_first [OF assms] match_order_irrelevant [OF assms] by metis

text \<open>A manifest of four rules: one exact, one of a namespace, and two patterns.\<close>

definition sample_rule :: "string \<Rightarrow> (string \<times> json) list \<Rightarrow> json" where
  "sample_rule i kvs = JObj ([(''id'', JStr i), (''revision'', JStr ''1''), (''effectful'', JBool True), (''base_stakes'', JStr ''high'')] @ kvs)"

definition sample_manifest :: "(string \<times> json) list" where
  "sample_manifest =
     [(''schema_version'', JInt 2),
      (''rules'', JArr
         [sample_rule ''any'' [(''exact'', JArr [JStr ''Send_Mail'']), (''priority'', JInt 9)],
          sample_rule ''mail'' [(''exact'', JArr [JStr ''send_mail'']), (''namespace'', JStr ''mail'')],
          sample_rule ''send'' [(''pattern'', JStr ''^(send|post)_.*$''), (''priority'', JInt 1)],
          sample_rule ''all'' [(''pattern'', JStr ''^.*$'')]])]"

lemma sample_manifest_loads:
  "case load_manifest (\<lambda>t. t) ''enforce'' sample_manifest of
     Inl e \<Rightarrow> False
   | Inr rules \<Rightarrow> map tp_id rules = [''any'', ''mail'', ''send'', ''all'']
       \<and> (case match_policy rules '' SEND_mail'' ''mail'' of Inr (Some w) \<Rightarrow> tp_id w = ''mail'' | _ \<Rightarrow> False)
       \<and> (case match_policy rules ''post_news'' [] of Inr (Some w) \<Rightarrow> tp_id w = ''send'' | _ \<Rightarrow> False)"
  by code_simp

theorem match_policy_exact_witness:
  "\<exists>rules w. load_manifest (\<lambda>t. t) ''enforce'' sample_manifest = Inr rules \<and> tp_id w = ''mail''
     \<and> strictly_first ''mail'' (applicable rules (tool_key '' SEND_mail'') ''mail'') w
     \<and> match_policy (rev rules) '' SEND_mail'' ''mail'' = Inr (Some w)"
proof -
  obtain rules w where load: "load_manifest (\<lambda>t. t) ''enforce'' sample_manifest = Inr rules"
    and w: "match_policy rules '' SEND_mail'' ''mail'' = Inr (Some w)" "tp_id w = ''mail''"
    using sample_manifest_loads by (auto split: sum.splits option.splits)
  from match_policy_exact [OF load, of "'' SEND_mail''" "''mail''"] w load show ?thesis by (metis mset_rev)
qed

section \<open>Two defects\<close>

text \<open>
  Informational fields are dropped wherever they stand, also where the key is the name of a property: the type of a
  property named \<open>title\<close>, \<open>description\<close> or \<open>default\<close> can change without the digest of the schema changing.
\<close>

definition titled :: "string \<Rightarrow> (string \<times> json) list" where
  "titled ty = [(''properties'', JObj [(''path'', JObj [(''type'', JStr ''string'')]), (''title'', JObj [(''type'', JStr ty)])])]"

lemma property_drift_undetected:
  "schema_digest sha (titled ''string'') = schema_digest sha (titled ''object'')"
proof -
  have "canonicalize_schema 1 (titled ''string'') = canonicalize_schema 1 (titled ''object'')" by code_simp
  then show ?thesis by (simp add: schema_digest_def)
qed

text \<open>
  Only the priority last seen under a pattern is compared, so equal patterns of priorities 2, 1, 2 load, and every
  tool they match is refused.
\<close>

definition repeated_patterns :: "(string \<times> json) list" where
  "repeated_patterns = [(''schema_version'', JInt 2), (''rules'', JArr
     (map (\<lambda>(i, p). sample_rule i [(''pattern'', JStr ''^send_.*$''), (''priority'', JInt p)]) [(''a'', 2), (''b'', 1), (''c'', 2)]))]"

lemma repeated_patterns_load:
  "case load_manifest (\<lambda>t. t) ''enforce'' repeated_patterns of
     Inl e \<Rightarrow> False
   | Inr rules \<Rightarrow> match_policy rules ''send_mail'' [] = Inl (ValueError ''ambiguous policy patterns for :send_mail'')"
  by code_simp

end
