(* ===== verification/Spec2Isabelle.thy ===== *)
theory Spec2Isabelle
  imports Relabelling Permit_Props Gate_Props Ledger_Props Buffering_Props Contracts Lint_Props Context_Props Anchor_Props Llm_Budget_Props Rebuttals Ingestion Claims Read_Back Scheduling Commit_Props Manifest_Props
begin

text \<open>
  A verification development for the belief ledger of \<open>belief_ledger_core\<close>
  (\<open>src/packages/core/src/belief_ledger_core\<close>; paths below are relative to it).

  \<^bold>\<open>The program.\<close> An agent host hands the core what a language model observes and claims. The core turns
  it into beliefs with sources, justifications and defeats, labels every belief IN, PENDING, OUT or
  QUARANTINED, and answers three questions: what the model may read (the context of a request),
  whether an action may run (the action gate with its approvals and single-use permits), and whether a
  response may be delivered (the linter behind a response buffer). What happened is an append-only
  log of events, chained by hashes and authenticated by a key; everything else is a projection of it.

  \<^bold>\<open>The theories, by component.\<close>
  Shared by all: \<open>Prelude\<close> (Python's exceptions as the values of \<open>py_error\<close>, sequencing by \<open>and_then\<close>,
  string operations), \<open>Json\<close> (\<open>events.py: canonical_json\<close>), \<open>Json_Parse\<close> (\<open>json.loads\<close>), \<open>Regex\<close> (the part
  of \<open>re\<close> the program uses), \<open>Sql\<close> (tables, column affinities and constraints as SQLite has them) and
  \<open>Models\<close> (\<open>models.py\<close>).
  \<^item> Beliefs: \<open>Graph\<close> (\<open>engine/graph.py\<close>, \<open>engine/retractions.py\<close>), \<open>Trust\<close> (\<open>engine/trust.py\<close>,
    \<open>verification/apta.py\<close>, \<open>verification/chain_audit.py\<close>, \<open>ingestion/absence.py\<close>), \<open>Priority\<close>
    (\<open>engine/priority.py\<close>), \<open>Validity\<close> (\<open>engine/validity.py\<close>), \<open>Scope\<close> and \<open>Scope_Props\<close>
    (\<open>engine/qualifiers.py\<close>, \<open>engine/contradiction.py\<close>), \<open>Rebuttals\<close> (the scan for contradictions of
    \<open>src/belief_ledger_pramana/runtime/episode_service.py\<close>).
  \<^item> Relabelling (\<open>engine/defeat.py\<close>): \<open>Cycles\<close> is the search for cycles of defeats, \<open>Defeat\<close> the
    fixed-point loop \<open>relabel\<close> with its three exits, \<open>Convergence\<close> the declarative rule of one belief
    and the proof that a pass of the loop computes it, \<open>Relabelling\<close> the properties.
  \<^item> The log: \<open>Chain\<close> (the encoding that is hashed and the locale \<open>hash_chain\<close>), \<open>Events\<close> (\<open>events.py\<close>),
    \<open>Schema\<close> (\<open>migrations.py\<close>, the schema of the projections), \<open>Projections\<close> (\<open>projections.py\<close>, one
    definition per handler), \<open>Ledger\<close> and \<open>Ledger_Replay\<close> (\<open>store.py\<close>: append with idempotency keys,
    authentication, verification of the chain, replay and purge). \<open>Projection_Writes\<close> and
    \<open>Projection_Props\<close> show that a handler only writes rows of its own episode, and links and full-text rows its entities own,
    and keeps every constraint; \<open>Payload_Order\<close> that handlers do not see the order of the keys of a payload,
    where the fields they read as text hold scalars and those they iterate are lists (\<open>replayable\<close>); \<open>Ledger_Chain\<close>,
    \<open>Ledger_Index\<close> and \<open>Ledger_Rebuild\<close> hold the invariant of a reachable ledger; \<open>Ledger_Props\<close> the
    properties; \<open>Ledger_History\<close> what the root of a chain commits to; \<open>Anchors\<close> and \<open>Anchor_Props\<close>
    (\<open>verification/anchors.py\<close>) the copies of that root outside the ledger.
  \<^item> Actions: \<open>Classify\<close> (\<open>gate/classify.py\<close>), \<open>Preconditions\<close> (\<open>gate/preconditions.py\<close>), \<open>Gate\<close>
    (\<open>gate/decision.py\<close>), \<open>Gate_Props\<close>; \<open>Manifest\<close> (\<open>manifest.py\<close>, the manifest of tool policies and the
    canonical form of schemas) and \<open>Manifest_Props\<close>; \<open>Permits\<close> (\<open>enforcement.py\<close>), \<open>Permit_Log\<close> (its operations are
    sequences of logged events) and \<open>Permit_Props\<close>.
  \<^item> Responses and requests: \<open>Lint\<close> and \<open>Lint_Props\<close> (\<open>lint/\<close>), \<open>Buffering\<close> and \<open>Buffering_Props\<close>
    (\<open>buffering.py\<close>), \<open>Context\<close> and \<open>Context_Props\<close> (\<open>context/\<close>), \<open>Contracts\<close> (\<open>contracts.py\<close>).
  \<^item> Model calls: \<open>Llm_Budget\<close> and \<open>Llm_Budget_Props\<close> (\<open>llm/client.py\<close>, \<open>llm/attribution.py\<close> and the budget
    reservations of \<open>store.py\<close>).
  \<^item> Observations (\<open>ingestion/\<close>): \<open>Redaction\<close> (\<open>tool.py\<close>), \<open>Ingestion\<close> (\<open>provenance.py\<close>, \<open>user.py\<close>,
    \<open>adapters.py\<close>) and \<open>Claims\<close> (\<open>claims.py\<close>); the splitting of URLs and \<open>SequenceMatcher\<close> are parameters
    (the record \<open>library\<close>).
  \<^item> Reads: \<open>Records\<close> (\<open>events.py: to_primitive\<close> and the row functions of \<open>store.py\<close>), \<open>Queries\<close> (the
    queries of \<open>store.py\<close>), \<open>Query_Props\<close> (batches against single reads) and \<open>Read_Back\<close> (what is
    admitted is what is read).
  \<^item> Verification: \<open>Scheduling\<close> (\<open>verification/scheduler.py\<close>, \<open>verification/methods.py\<close>).
  \<^item> Relabelling an episode: \<open>Commit\<close> (\<open>EpisodeService.relabel\<close> of \<open>episode_service.py\<close>: what the store
    holds goes through the engine, and the changes are appended as one batch) and \<open>Commit_Props\<close> (the
    batch makes the stored labels the computed ones).

  \<^bold>\<open>How state corresponds.\<close> A table of the database is a list of rows, a database a function from table
  names to tables, a transaction a function to a result: on an error value the state before it stays.
  Dictionaries are association lists in insertion order, so that iteration order is the program's;
  a Python exception is a value \<open>Inl e\<close>, and the order of checks is the order in which they are sequenced.
  Texts are strings of 8-bit characters, with named characters for the few glyphs of the output; the
  engine's floats are rationals (\<open>rat\<close>), the floats of a JSON document keep their text. Points in time are
  microseconds, with or without a zone, or the texts the database stores. SHA-256, HMAC, the
  generators of identifiers, clocks, the formatting of floats and timestamps, the addition of SQLite
  and the model behind a call are parameters; what is assumed of one (for example that the hash is
  injective on the texts in play, or an explicit collision in the conclusion) is a hypothesis of the
  theorem that needs it.

  \<^bold>\<open>What is shown.\<close>
  \<^item> Ledger: every reachable ledger verifies and replays to exactly its projections; a repeated request
    gives its first result until its own episode is purged; a reused key is refused; a purge removes one
    episode and nothing else; anchors match as long as the ledger only grows, and pin its history when they
    match. Reachable ledgers grow by the requests of \<open>request_ok\<close>: replayable payloads, and no key in the
    correlation of a request without one (\<open>stray_key_batched\<close> shows what goes wrong otherwise).
  \<^item> Projections: they satisfy the schema, refine writes to one episode, and round-trip their JSON; a belief
    that was admitted is read back, alone or in a batch, with its relations.
  \<^item> Verification: a belief has at most one open task per method, under concurrent requests too.
  \<^item> Relabelling: a pass refines the rule, a converged result is consistent, acyclic ledgers below the ceiling converge,
    no exit admits what was not admitted; the cycle search is exact.
  \<^item> Admission, competence, priority, validity: totality and soundness against declarative statements.
  \<^item> Commit: relabelling an episode leaves in the projections exactly the labels and activities of the fixed point.
  \<^item> Contradictions: the comparison of two beliefs and the scan of an episode find exactly the rebuttals.
  \<^item> Observations: redacted documents keep their structure and no sensitive value, a tool vouches only for having run, claims
    are exact excerpts.
  \<^item> Gate and permits: what an allowed action rests on, permits used at most once, soundness of
    consumption, exact replay and tamper evidence of the authorization log.
  \<^item> Tool policies: the policy chosen for a tool is the one strictly most specific of those that compete, in any
    order of the rules.
  \<^item> Responses, requests, model calls: a delivered response was verified, a context keeps its budget, the
    budgets of model calls hold under any interleaving but for the use no reservation covered.

  \<^bold>\<open>Interfaces.\<close> Locales state what a client relies on: \<open>hash_chain\<close> (\<open>Chain\<close>), interpreted on the
  authorization log; \<open>hash_links\<close> (\<open>Ledger_History\<close>), interpreted on the events of the ledger; the sink of a
  response gate (\<open>Buffering_Props\<close>), interpreted on \<open>MemorySink\<close>; the order of contests
  (\<open>Priority\<close>), interpreted on the comparison of the engine.

  \<^bold>\<open>Bounds and fuel.\<close> The parser of \<open>Json_Parse\<close> recurses on fuel, the length of its input, and every
  step consumes a character, so the fuel never ends first (the round trip shows that it suffices). The
  matcher of \<open>Regex\<close> descends on the length of the text with the pattern. \<open>relabel\<close> has the pass ceiling of
  the program and its own exits. The ledger is read in the program's batches of 1000 rows.

  \<^bold>\<open>Not modelled.\<close> Opening and migrating database files, busy retries, permissions and compaction (I/O);
  the queries of \<open>store.py\<close> over episodes and the full-text index and snapshots (files and their digests); configuration (the merge of YAML files and their checks), the
  divergence query and the API facade; the
  the replay of the enforcement tables with the ledger and the v2 hash over both; integers and floats
  beyond the machine's range (sqlite3 and \<open>float\<close> raise, the model computes);
  Hermes plugin, gateway, MCP server and reference host (adapters over the core); tests, evaluations,
  scripts and examples (not part of the program).
\<close>

end
